(* ===== verification/JsPrelude.thy ===== *)
theory JsPrelude
  imports Main
begin

text \<open>
  Shared vocabulary of the development: the fragment of JavaScript that the modelled modules use.

  A JavaScript string is the list of its UTF-16 code units. The development keeps strings whose
  code units are below 256, so that one \<^typ>\<open>char\<close> is one code unit and \<open>length\<close> is the
  \<open>length\<close> of the source. A value that may be \<open>undefined\<close> is an option; a value that may be
  \<open>null\<close> is an option too, and where the source distinguishes the two the model says which is
  which. Numbers are the ones \<open>JSON.parse\<close> can return (\<open>jnum\<close>).
\<close>

named_theorems js_defs \<open>unfolding equations of the small string helpers\<close>

section \<open>Strings\<close>

definition code_unit :: "char \<Rightarrow> nat" where
  "code_unit c = of_char c"

text \<open>White space and line terminators: what \<open>trim\<close> strips and \<open>\s\<close> matches.\<close>

definition js_space :: "char \<Rightarrow> bool" where
  "js_space c = (let n = code_unit c in n = 32 \<or> 9 \<le> n \<and> n \<le> 13 \<or> n = 160)"

text \<open>The control characters, \<open>\p{Cc}\<close>.\<close>

definition js_control :: "char \<Rightarrow> bool" where
  "js_control c = (let n = code_unit c in n < 32 \<or> 127 \<le> n \<and> n < 160)"

definition js_digit :: "char \<Rightarrow> bool" where
  "js_digit c = (let n = code_unit c in 48 \<le> n \<and> n \<le> 57)"

definition trim :: "string \<Rightarrow> string" where
  "trim s = rev (dropWhile js_space (rev (dropWhile js_space s)))"

definition lower_char :: "char \<Rightarrow> char" where
  "lower_char c =
     (let n = code_unit c
      in if 65 \<le> n \<and> n \<le> 90 \<or> 192 \<le> n \<and> n \<le> 222 \<and> n \<noteq> 215 then char_of (n + 32) else c)"

definition to_lower :: "string \<Rightarrow> string" where
  "to_lower s = map lower_char s"

fun starts_with :: "string \<Rightarrow> string \<Rightarrow> bool" where
  "starts_with s [] = True"
| "starts_with [] (p # ps) = False"
| "starts_with (c # s) (p # ps) = (c = p \<and> starts_with s ps)"

fun includes_str :: "string \<Rightarrow> string \<Rightarrow> bool" where
  "includes_str [] p = (p = [])"
| "includes_str (c # s) p = (starts_with (c # s) p \<or> includes_str s p)"

text \<open>\<open>s.split(sep)\<close> for a one-character separator: never the empty list.\<close>

fun split_on :: "'a \<Rightarrow> 'a list \<Rightarrow> 'a list list" where
  "split_on sep [] = [[]]"
| "split_on sep (c # s) =
     (if c = sep then [] # split_on sep s
      else case split_on sep s of
             [] \<Rightarrow> [[c]]
           | w # ws \<Rightarrow> (c # w) # ws)"

text \<open>\<open>s.indexOf(c)\<close>, with \<open>None\<close> for the source's \<open>-1\<close>.\<close>

fun index_of :: "'a \<Rightarrow> 'a list \<Rightarrow> nat option" where
  "index_of c [] = None"
| "index_of c (x # xs) = (if x = c then Some 0 else map_option Suc (index_of c xs))"

text \<open>\<open>find\<close> and \<open>findIndex\<close>.\<close>

fun find_index :: "('a \<Rightarrow> bool) \<Rightarrow> 'a list \<Rightarrow> nat option" where
  "find_index P [] = None"
| "find_index P (x # xs) = (if P x then Some 0 else map_option Suc (find_index P xs))"

text \<open>The first defined value: \<open>map(f).find((v) => v !== undefined)\<close>.\<close>

fun first_some :: "('a \<Rightarrow> 'b option) \<Rightarrow> 'a list \<Rightarrow> 'b option" where
  "first_some f [] = None"
| "first_some f (x # xs) = (case f x of Some y \<Rightarrow> Some y | None \<Rightarrow> first_some f xs)"

text \<open>\<open>list.splice(i, 1)\<close>: remove the element at an index.\<close>

definition remove_at :: "nat \<Rightarrow> 'a list \<Rightarrow> 'a list" where
  "remove_at i xs = take i xs @ drop (Suc i) xs"

lemma None_or_Some [simp]: "v = None \<or> (\<exists>y. v = Some y)"
  by (cases v) simp_all

lemma index_of_None: "index_of c s = None \<longleftrightarrow> c \<notin> set s"
  by (induction s) (auto split: option.splits)

lemma index_of_absent: "c \<notin> set s \<Longrightarrow> index_of c s = None"
  by (simp add: index_of_None)

lemma index_of_append: "c \<notin> set s \<Longrightarrow> index_of c (s @ c # t) = Some (length s)"
  by (induction s) auto

lemma index_of_Some_split: "index_of c s = Some i \<Longrightarrow> s = take i s @ c # drop (i + 1) s \<and> c \<notin> set (take i s)"
  by (induction s arbitrary: i) (auto split: if_splits option.splits)

lemma split_on_not_Nil [simp]: "split_on sep s \<noteq> []"
  by (induction s) (auto split: list.splits)

lemma starts_with_append: "starts_with s p = (\<exists>t. s = p @ t)"
  by (induction s p rule: starts_with.induct) auto

lemma starts_with_prefix [simp]: "starts_with (p @ t) p"
  by (auto simp: starts_with_append)

lemma find_index_Some:
  "find_index P xs = Some i \<Longrightarrow> i < length xs \<and> P (xs ! i) \<and> (\<forall>j < i. \<not> P (xs ! j))"
proof (induction xs arbitrary: i)
  case Nil
  then show ?case by simp
next
  case (Cons x xs)
  show ?case
  proof (cases "P x")
    case True
    with Cons.prems show ?thesis by simp
  next
    case False
    with Cons.prems obtain k where k: "find_index P xs = Some k" and i: "i = Suc k"
      by auto
    have "\<not> P ((x # xs) ! j)" if "j < i" for j
      using that False Cons.IH [OF k] i by (cases j) auto
    with Cons.IH [OF k] i show ?thesis by simp
  qed
qed

lemma find_index_None: "find_index P xs = None \<longleftrightarrow> (\<forall>x \<in> set xs. \<not> P x)"
  by (induction xs) auto

text \<open>Where the found element stands.\<close>

lemma find_index_splitD:
  "find_index P xs = Some k \<Longrightarrow>
     \<exists>ys x zs. xs = ys @ x # zs \<and> length ys = k \<and> P x \<and> (\<forall>y \<in> set ys. \<not> P y)"
proof (induction xs arbitrary: k)
  case Nil
  then show ?case by simp
next
  case (Cons a xs)
  show ?case
  proof (cases "P a")
    case True
    with Cons.prems show ?thesis by (intro exI [of _ "[]"]) auto
  next
    case False
    with Cons.prems obtain j where j: "find_index P xs = Some j" "k = Suc j" by auto
    from Cons.IH [OF j(1)] obtain ys x zs
      where "xs = ys @ x # zs" "length ys = j" "P x" "\<forall>y \<in> set ys. \<not> P y" by blast
    with False j show ?thesis by (intro exI [of _ "a # ys"]) auto
  qed
qed

lemma find_index_split [simp]:
  "\<forall>y \<in> set ys. \<not> P y \<Longrightarrow> P x \<Longrightarrow> find_index P (ys @ x # zs) = Some (length ys)"
  by (induction ys) auto

lemma remove_at_split [simp]: "remove_at (length ys) (ys @ x # zs) = ys @ zs"
  by (simp add: remove_at_def)

lemma find_index_find: "find P xs = map_option (nth xs) (find_index P xs)"
  by (induction xs) (auto simp: option.map_comp comp_def)

lemma set_remove_at: "set (remove_at i xs) \<subseteq> set xs"
  by (auto simp: remove_at_def dest: in_set_takeD in_set_dropD)

lemma length_remove_at: "i < length xs \<Longrightarrow> length (remove_at i xs) = length xs - 1"
  by (simp add: remove_at_def)

lemma distinct_map_remove_at:
  assumes "distinct (map f xs)"
  shows "distinct (map f (remove_at i xs))"
proof -
  have "distinct (map f (take i xs @ drop i xs))" using assms by simp
  moreover have "set (drop (Suc i) xs) \<subseteq> set (drop i xs)"
    by (rule set_drop_subset_set_drop) simp
  moreover have "distinct (map f (drop (Suc i) xs))"
    using assms by (metis distinct_drop drop_map)
  ultimately show ?thesis
    unfolding remove_at_def map_append distinct_append set_map by blast
qed

lemma remove_at_member:
  "x \<in> set xs \<Longrightarrow> i < length xs \<Longrightarrow> x \<noteq> xs ! i \<Longrightarrow> x \<in> set (remove_at i xs)"
proof -
  assume x: "x \<in> set xs" and i: "i < length xs" and ne: "x \<noteq> xs ! i"
  have "xs = take i xs @ xs ! i # drop (Suc i) xs" using i by (rule id_take_nth_drop)
  with x ne show "x \<in> set (remove_at i xs)"
    unfolding remove_at_def by (metis Un_iff set_ConsD set_append)
qed

lemma length_filter_neq:
  "distinct xs \<Longrightarrow> k \<in> set xs \<Longrightarrow> Suc (length (filter (\<lambda>x. x \<noteq> k) xs)) = length xs"
proof (induction xs)
  case Nil
  then show ?case by simp
next
  case (Cons x xs)
  show ?case
  proof (cases "x = k")
    case True
    with Cons.prems have "filter (\<lambda>y. y \<noteq> k) xs = xs" by (auto simp: filter_id_conv)
    with True show ?thesis by simp
  next
    case False
    with Cons show ?thesis by simp
  qed
qed

lemma trim_space_free: "\<lbrakk>s \<noteq> []; \<not> js_space (hd s); \<not> js_space (last s)\<rbrakk> \<Longrightarrow> trim s = s"
proof -
  assume s: "s \<noteq> []" "\<not> js_space (hd s)" "\<not> js_space (last s)"
  have "dropWhile js_space s = s" using s by (cases s) auto
  moreover have "dropWhile js_space (rev s) = rev s"
    using s by (cases s rule: rev_cases) auto
  ultimately show "trim s = s" by (simp add: trim_def)
qed

section \<open>Decimal numerals\<close>

definition digit_char :: "nat \<Rightarrow> char" where
  "digit_char d = char_of (48 + d)"

fun show_nat :: "nat \<Rightarrow> string" where
  "show_nat n = (if n < 10 then [digit_char n] else show_nat (n div 10) @ [digit_char (n mod 10)])"

declare show_nat.simps [simp del]

text \<open>\<open>Number(text)\<close> on a text that a pattern already restricted to decimal digits.\<close>

definition digits_value :: "string \<Rightarrow> nat" where
  "digits_value s = foldl (\<lambda>v c. 10 * v + (code_unit c - 48)) 0 s"

lemma code_unit_digit_char: "d < 10 \<Longrightarrow> code_unit (digit_char d) = 48 + d"
  by (simp add: code_unit_def digit_char_def)

lemma js_digit_digit_char: "d < 10 \<Longrightarrow> js_digit (digit_char d)"
  by (simp add: js_digit_def code_unit_digit_char)

lemma digits_value_snoc: "digits_value (s @ [c]) = 10 * digits_value s + (code_unit c - 48)"
  by (simp add: digits_value_def)

lemma digits_value_show_nat [simp]: "digits_value (show_nat n) = n"
proof (induction n rule: show_nat.induct)
  case (1 n)
  show ?case
  proof (cases "n < 10")
    case True
    then show ?thesis
      by (subst show_nat.simps) (simp add: digits_value_def code_unit_digit_char)
  next
    case False
    with 1 have "digits_value (show_nat (n div 10)) = n div 10" by simp
    with False show ?thesis
      by (subst show_nat.simps) (simp add: digits_value_snoc code_unit_digit_char)
  qed
qed

lemma show_nat_digits: "c \<in> set (show_nat n) \<Longrightarrow> js_digit c"
proof (induction n rule: show_nat.induct)
  case (1 n)
  show ?case
  proof (cases "n < 10")
    case True
    with "1.prems" show ?thesis
      by (subst (asm) show_nat.simps) (simp add: js_digit_digit_char)
  next
    case False
    with 1 show ?thesis
      by (subst (asm) (2) show_nat.simps) (auto simp: js_digit_digit_char)
  qed
qed

lemma show_nat_not_Nil [simp]: "show_nat n \<noteq> []"
  by (subst show_nat.simps) simp

lemma show_nat_inject [simp]: "show_nat m = show_nat n \<longleftrightarrow> m = n"
  by (metis digits_value_show_nat)

section \<open>Numbers and JSON values\<close>

text \<open>
  What \<open>typeof x === "number"\<close> can be after \<open>JSON.parse\<close>: an integral value, a non-integral
  double \<open>m / 2 ^ k\<close>, or an overflowing literal such as \<open>1e999\<close>, which parses as an infinity.
\<close>

datatype jnum = JInt int | JFrac int nat | JInf bool

definition max_safe :: int where
  "max_safe = 9007199254740991"

fun is_safe_integer :: "jnum \<Rightarrow> bool" where
  "is_safe_integer (JInt i) = (\<bar>i\<bar> \<le> max_safe)"
| "is_safe_integer _ = False"

datatype json =
    JNull
  | JBool bool
  | JNum jnum
  | JStr string
  | JArr "json list"
  | JObj "(string \<times> json) list"

type_synonym fields = "(string \<times> json) list"

text \<open>
  An expression of type \<open>unknown\<close> is a \<open>json option\<close>, with \<open>None\<close> for \<open>undefined\<close>. Property
  access on a parsed object is \<open>fld\<close>: \<open>JSON.parse\<close> never stores \<open>undefined\<close>, so a missing
  property and an \<open>undefined\<close> one are the same.
\<close>

type_synonym unknown = "json option"

definition fld :: "fields \<Rightarrow> string \<Rightarrow> unknown" where
  "fld o' k = map_of o' k"

fun as_record :: "unknown \<Rightarrow> fields option" where
  "as_record (Some (JObj o')) = Some o'"
| "as_record _ = None"

fun as_string :: "unknown \<Rightarrow> string option" where
  "as_string (Some (JStr s)) = Some s"
| "as_string _ = None"

fun as_array :: "unknown \<Rightarrow> json list option" where
  "as_array (Some (JArr xs)) = Some xs"
| "as_array _ = None"

fun as_number :: "unknown \<Rightarrow> jnum option" where
  "as_number (Some (JNum n)) = Some n"
| "as_number _ = None"

lemma as_record_Some [simp]: "as_record v = Some o' \<longleftrightarrow> v = Some (JObj o')"
  by (cases v rule: as_record.cases) auto

lemma as_string_Some [simp]: "as_string v = Some s \<longleftrightarrow> v = Some (JStr s)"
  by (cases v rule: as_string.cases) auto

lemma as_array_Some [simp]: "as_array v = Some xs \<longleftrightarrow> v = Some (JArr xs)"
  by (cases v rule: as_array.cases) auto

lemma as_number_Some [simp]: "as_number v = Some n \<longleftrightarrow> v = Some (JNum n)"
  by (cases v rule: as_number.cases) auto

lemma fld_simps [simp]:
  "fld [] k = None"
  "fld ((k', v) # o') k = (if k = k' then Some v else fld o' k)"
  by (simp_all add: fld_def)

lemma fld_append: "fld (a @ b) k = (case fld a k of None \<Rightarrow> fld b k | Some v \<Rightarrow> Some v)"
  by (simp add: fld_def map_add_def split: option.splits)

section \<open>\<open>JSON.stringify\<close> of an array of strings\<close>

text \<open>
  Several modules build a map key as \<open>JSON.stringify([a, b, c])\<close>. A code unit is escaped when it
  is a quote, a backslash or below 32; everything else is copied.
\<close>

definition hex_digit :: "nat \<Rightarrow> char" where
  "hex_digit n = (if n < 10 then char_of (48 + n) else char_of (87 + n))"

definition escape_char :: "char \<Rightarrow> string" where
  "escape_char c =
     (if c = CHR 0x22 then [CHR 0x5C, CHR 0x22]
      else if c = CHR 0x5C then [CHR 0x5C, CHR 0x5C]
      else if c = CHR 0x08 then [CHR 0x5C, CHR ''b'']
      else if c = CHR 0x09 then [CHR 0x5C, CHR ''t'']
      else if c = CHR 0x0A then [CHR 0x5C, CHR ''n'']
      else if c = CHR 0x0C then [CHR 0x5C, CHR ''f'']
      else if c = CHR 0x0D then [CHR 0x5C, CHR ''r'']
      else if code_unit c < 32
      then [CHR 0x5C, CHR ''u'', CHR ''0'', CHR ''0'', hex_digit (code_unit c div 16),
            hex_digit (code_unit c mod 16)]
      else [c])"

definition json_quote :: "string \<Rightarrow> string" where
  "json_quote s = CHR 0x22 # concat (map escape_char s) @ [CHR 0x22]"

fun join :: "string \<Rightarrow> string list \<Rightarrow> string" where
  "join sep [] = []"
| "join sep [x] = x"
| "join sep (x # y # ys) = x @ sep @ join sep (y # ys)"

definition stringify_strings :: "string list \<Rightarrow> string" where
  "stringify_strings xs = ''['' @ join '','' (map json_quote xs) @ '']''"

text \<open>\<open>JSON.stringify([s, n])\<close> for a string and a non-negative integer.\<close>

definition stringify_pair :: "string \<Rightarrow> nat \<Rightarrow> string" where
  "stringify_pair s n = ''['' @ json_quote s @ '','' @ show_nat n @ '']''"

text \<open>
  The encoding is injective. \<open>unescape\<close> reads one escaped code unit back; a quoted text is then
  self-delimiting, because no escape begins with a bare quote.
\<close>

definition hex_value :: "char \<Rightarrow> nat" where
  "hex_value c = (if code_unit c < 58 then code_unit c - 48 else code_unit c - 87)"

definition unescape :: "string \<Rightarrow> (char \<times> string) option" where
  "unescape s =
     (if s = [] then None
      else if hd s \<noteq> CHR 0x5C then Some (hd s, tl s)
      else let e = s ! 1; r = drop 2 s in
        if e = CHR ''b'' then Some (CHR 0x08, r)
        else if e = CHR ''t'' then Some (CHR 0x09, r)
        else if e = CHR ''n'' then Some (CHR 0x0A, r)
        else if e = CHR ''f'' then Some (CHR 0x0C, r)
        else if e = CHR ''r'' then Some (CHR 0x0D, r)
        else if e = CHR ''u''
        then Some (char_of (16 * hex_value (s ! 4) + hex_value (s ! 5)), drop 6 s)
        else Some (e, r))"

lemma char_of_code_unit [simp]: "char_of (code_unit c) = c"
  by (simp add: code_unit_def)

lemma code_unit_char_of: "n < 256 \<Longrightarrow> code_unit (char_of n) = n"
  by (simp add: code_unit_def)

lemma hex_value_hex_digit: "n < 16 \<Longrightarrow> hex_value (hex_digit n) = n"
  by (auto simp: hex_value_def hex_digit_def code_unit_char_of)

lemma unescape_escape_char: "unescape (escape_char c @ r) = Some (c, r)"
  by (simp add: escape_char_def unescape_def Let_def hex_value_hex_digit)

lemma escape_char_not_quote: "escape_char c @ r \<noteq> CHR 0x22 # r'"
  by (simp add: escape_char_def)

lemma escape_char_inject: "escape_char c @ r = escape_char c' @ r' \<Longrightarrow> c = c' \<and> r = r'"
  by (metis Pair_inject option.inject unescape_escape_char)

lemma quoted_inject:
  "concat (map escape_char s) @ CHR 0x22 # r
     = concat (map escape_char s') @ CHR 0x22 # r' \<Longrightarrow> s = s' \<and> r = r'"
proof (induction s arbitrary: s')
  case Nil
  show ?case
  proof (cases s')
    case Nil
    with Nil.prems show ?thesis by simp
  next
    case (Cons c t)
    with Nil.prems have "escape_char c @ (concat (map escape_char t) @ CHR 0x22 # r')
      = CHR 0x22 # r" by simp
    then show ?thesis using escape_char_not_quote by blast
  qed
next
  case (Cons c s)
  show ?case
  proof (cases s')
    case Nil
    with Cons.prems have "escape_char c @ (concat (map escape_char s) @ CHR 0x22 # r)
      = CHR 0x22 # r'" by simp
    then show ?thesis using escape_char_not_quote by blast
  next
    case (Cons c' t)
    with Cons.prems have
      "escape_char c @ (concat (map escape_char s) @ CHR 0x22 # r)
       = escape_char c' @ (concat (map escape_char t) @ CHR 0x22 # r')" by simp
    from escape_char_inject [OF this] Cons.IH Cons show ?thesis by blast
  qed
qed

lemma json_quote_inject:
  assumes "json_quote s @ r = json_quote s' @ r'"
  shows "s = s' \<and> r = r'"
proof -
  from assms have "concat (map escape_char s) @ CHR 0x22 # r
    = concat (map escape_char s') @ CHR 0x22 # r'"
    by (simp add: json_quote_def)
  then show ?thesis by (rule quoted_inject)
qed

lemma json_quote_eq [simp]: "json_quote s = json_quote s' \<longleftrightarrow> s = s'"
  using json_quote_inject [of s "[]" s' "[]"] by auto

lemma join_quotes_inject:
  "join '','' (map json_quote xs) = join '','' (map json_quote ys)
     \<Longrightarrow> length xs = length ys \<Longrightarrow> xs = ys"
proof (induction xs arbitrary: ys)
  case Nil
  then show ?case by simp
next
  case (Cons x xs)
  then obtain y zs where ys: "ys = y # zs" and len: "length xs = length zs"
    by (cases ys) auto
  show ?case
  proof (cases xs)
    case Nil
    with len Cons.prems ys show ?thesis by simp
  next
    case (Cons x' xs')
    with len obtain y' zs' where zs: "zs = y' # zs'" by (cases zs) auto
    from \<open>join _ (map json_quote (x # xs)) = _\<close> ys zs Cons
    have "json_quote x @ ('','' @ join '','' (map json_quote xs))
      = json_quote y @ ('','' @ join '','' (map json_quote zs))" by simp
    from json_quote_inject [OF this] Cons.IH [OF _ len] ys show ?thesis by simp
  qed
qed

lemma stringify_strings_inject:
  "length xs = length ys \<Longrightarrow> stringify_strings xs = stringify_strings ys \<longleftrightarrow> xs = ys"
proof -
  assume l: "length xs = length ys"
  have "xs = ys" if "stringify_strings xs = stringify_strings ys"
  proof -
    from that have "join '','' (map json_quote xs) = join '','' (map json_quote ys)"
      by (simp add: stringify_strings_def)
    with l show ?thesis by (simp add: join_quotes_inject)
  qed
  then show ?thesis by blast
qed

lemma stringify_pair_inject [simp]:
  "stringify_pair s m = stringify_pair t n \<longleftrightarrow> s = t \<and> m = n"
proof
  assume "stringify_pair s m = stringify_pair t n"
  then have "json_quote s @ '','' @ show_nat m = json_quote t @ '','' @ show_nat n"
    by (simp add: stringify_pair_def)
  from json_quote_inject [OF this] show "s = t \<and> m = n" by simp
qed simp

end
