(* ===== verification/JsMap.thy ===== *)
theory JsMap
  imports JsPrelude
begin

text \<open>
  The JavaScript \<open>Map\<close>: a finite map that remembers the order in which its keys were first
  inserted. \<open>set\<close> on a present key replaces the value and keeps the position, \<open>delete\<close> followed
  by \<open>set\<close> moves the key to the end, iteration is in order. The interface \<open>ordered_map\<close> states
  these laws; the caches, the interaction ledger and the projection window are its clients.
\<close>

type_synonym ('k, 'v) jsmap = "('k \<times> 'v) list"

definition map_get :: "('k, 'v) jsmap \<Rightarrow> 'k \<Rightarrow> 'v option" where
  "map_get m k = map_of m k"

definition map_has :: "('k, 'v) jsmap \<Rightarrow> 'k \<Rightarrow> bool" where
  "map_has m k = (map_get m k \<noteq> None)"

fun map_put :: "'k \<Rightarrow> 'v \<Rightarrow> ('k, 'v) jsmap \<Rightarrow> ('k, 'v) jsmap" where
  "map_put k v [] = [(k, v)]"
| "map_put k v ((k', v') # m) = (if k' = k then (k, v) # m else (k', v') # map_put k v m)"

definition map_del :: "'k \<Rightarrow> ('k, 'v) jsmap \<Rightarrow> ('k, 'v) jsmap" where
  "map_del k m = filter (\<lambda>kv. fst kv \<noteq> k) m"

definition map_keys :: "('k, 'v) jsmap \<Rightarrow> 'k list" where
  "map_keys m = map fst m"

definition map_values :: "('k, 'v) jsmap \<Rightarrow> 'v list" where
  "map_values m = map snd m"

text \<open>\<open>new Map(entries)\<close>.\<close>

definition map_of_entries :: "('k \<times> 'v) list \<Rightarrow> ('k, 'v) jsmap" where
  "map_of_entries es = foldl (\<lambda>m kv. map_put (fst kv) (snd kv) m) [] es"

definition map_ok :: "('k, 'v) jsmap \<Rightarrow> bool" where
  "map_ok m = distinct (map_keys m)"

text \<open>\<open>map.keys().next().value\<close>: the key inserted first.\<close>

definition first_key :: "('k, 'v) jsmap \<Rightarrow> 'k option" where
  "first_key m = (case m of [] \<Rightarrow> None | kv # _ \<Rightarrow> Some (fst kv))"

section \<open>The interface\<close>

locale ordered_map =
  fixes empty :: 'm
    and get :: "'m \<Rightarrow> 'k \<Rightarrow> 'v option"
    and put :: "'k \<Rightarrow> 'v \<Rightarrow> 'm \<Rightarrow> 'm"
    and del :: "'k \<Rightarrow> 'm \<Rightarrow> 'm"
    and keys :: "'m \<Rightarrow> 'k list"
    and ok :: "'m \<Rightarrow> bool"
  assumes keys_empty: "keys empty = []"
    and ok_empty: "ok empty"
    and ok_put: "ok m \<Longrightarrow> ok (put k v m)"
    and ok_del: "ok m \<Longrightarrow> ok (del k m)"
    and get_put: "ok m \<Longrightarrow> get (put k v m) k' = (if k' = k then Some v else get m k')"
    and get_del: "ok m \<Longrightarrow> get (del k m) k' = (if k' = k then None else get m k')"
    and keys_put: "ok m \<Longrightarrow> keys (put k v m) = (if k \<in> set (keys m) then keys m else keys m @ [k])"
    and keys_del: "ok m \<Longrightarrow> keys (del k m) = filter (\<lambda>x. x \<noteq> k) (keys m)"
    and keys_get: "ok m \<Longrightarrow> k \<in> set (keys m) \<longleftrightarrow> get m k \<noteq> None"
    and distinct_keys: "ok m \<Longrightarrow> distinct (keys m)"
begin

lemma put_present_order: "ok m \<Longrightarrow> get m k \<noteq> None \<Longrightarrow> keys (put k v m) = keys m"
  by (simp add: keys_put keys_get)

lemma put_size:
  "ok m \<Longrightarrow> length (keys (put k v m)) = length (keys m) + (if get m k = None then 1 else 0)"
  by (auto simp: keys_put keys_get)

lemma del_absent: "ok m \<Longrightarrow> get m k = None \<Longrightarrow> keys (del k m) = keys m"
  using keys_get [of m k] by (auto simp: keys_del filter_id_conv)

lemma del_size: "ok m \<Longrightarrow> get m k \<noteq> None \<Longrightarrow> Suc (length (keys (del k m))) = length (keys m)"
  by (simp add: keys_del distinct_keys keys_get length_filter_neq)

lemma evict_first_keys:
  assumes "ok m" and "keys m = k # ks"
  shows "keys (del k m) = ks"
proof -
  from assms have "k \<notin> set ks" using distinct_keys [OF assms(1)] by simp
  with assms show ?thesis by (auto simp: keys_del intro: filter_True)
qed

text \<open>A full bounded cache that evicts its first key before it inserts stays within its bound.\<close>

lemma evict_then_put_bound:
  assumes "ok m" and "keys m = k # ks" and "length (keys m) \<le> n"
  shows "length (keys (put k' v (del k m))) \<le> n"
  using assms put_size [OF ok_del [OF assms(1)], of k' v k] evict_first_keys [OF assms(1,2)]
  by simp

lemma put_moves_last:
  assumes "ok m"
  shows "keys (put k v (del k m)) = filter (\<lambda>x. x \<noteq> k) (keys m) @ [k]"
  using assms by (simp add: keys_put keys_del ok_del)

end

section \<open>The model provides it\<close>

lemma map_get_put: "map_get (map_put k v m) k' = (if k' = k then Some v else map_get m k')"
  by (induction k v m rule: map_put.induct) (auto simp: map_get_def)

lemma map_get_del: "map_get (map_del k m) k' = (if k' = k then None else map_get m k')"
  by (induction m) (auto simp: map_get_def map_del_def)

lemma map_keys_put:
  "map_keys (map_put k v m) = (if k \<in> set (map_keys m) then map_keys m else map_keys m @ [k])"
  by (induction k v m rule: map_put.induct) (auto simp: map_keys_def)

lemma map_keys_del: "map_keys (map_del k m) = filter (\<lambda>x. x \<noteq> k) (map_keys m)"
  by (induction m) (auto simp: map_keys_def map_del_def)

lemma map_keys_get: "k \<in> set (map_keys m) \<longleftrightarrow> map_get m k \<noteq> None"
  by (simp add: map_keys_def map_get_def map_of_eq_None_iff)

lemma map_ok_put [simp, intro]: "map_ok m \<Longrightarrow> map_ok (map_put k v m)"
  by (simp add: map_ok_def map_keys_put)

lemma map_ok_del [simp, intro]: "map_ok m \<Longrightarrow> map_ok (map_del k m)"
  by (simp add: map_ok_def map_keys_del)

lemma map_ok_Nil [simp]: "map_ok []"
  by (simp add: map_ok_def map_keys_def)

interpretation jsm: ordered_map "[]" map_get map_put map_del map_keys map_ok
  by unfold_locales
    (auto simp: map_get_put map_get_del map_keys_put map_keys_del map_keys_get map_keys_def
      [of "[]"] map_ok_def)

lemmas jsm_simps = map_get_put map_get_del map_keys_put map_keys_del

section \<open>Facts about the representation\<close>

lemma map_ok_entries: "map_ok (map_of_entries es)"
proof -
  have "map_ok m \<Longrightarrow> map_ok (foldl (\<lambda>m kv. map_put (fst kv) (snd kv) m) m es)" for m
    by (induction es arbitrary: m) auto
  then show ?thesis by (simp add: map_of_entries_def)
qed

lemma map_put_absent: "map_get m k = None \<Longrightarrow> map_put k v m = m @ [(k, v)]"
  by (induction k v m rule: map_put.induct) (auto simp: map_get_def split: if_splits)

lemma map_of_entries_distinct:
  assumes "distinct (map fst es)"
  shows "map_of_entries es = es"
proof -
  have "foldl (\<lambda>m kv. map_put (fst kv) (snd kv) m) m es = m @ es"
    if "distinct (map fst (m @ es))" for m
    using that
  proof (induction es arbitrary: m)
    case Nil
    then show ?case by simp
  next
    case (Cons kv es)
    then have "map_get m (fst kv) = None"
      by (auto simp: map_get_def map_of_eq_None_iff)
    then have "map_put (fst kv) (snd kv) m = m @ [kv]" by (simp add: map_put_absent)
    with Cons show ?case by simp
  qed
  from this [of "[]"] assms show ?thesis by (simp add: map_of_entries_def)
qed

lemma map_ok_member: "map_ok m \<Longrightarrow> (k, v) \<in> set m \<longleftrightarrow> map_get m k = Some v"
  by (simp add: map_ok_def map_keys_def map_get_def)

lemma set_map_del: "set (map_del k m) = {kv \<in> set m. fst kv \<noteq> k}"
  by (auto simp: map_del_def)

lemma set_map_put: "set (map_put k v m) \<subseteq> insert (k, v) (set m)"
  by (induction k v m rule: map_put.induct) auto

lemma map_ok_filter: "map_ok m \<Longrightarrow> map_ok (filter P m)"
  by (simp add: map_ok_def map_keys_def distinct_map_filter)

lemma first_key_keys: "first_key m = (case map_keys m of [] \<Rightarrow> None | k # _ \<Rightarrow> Some k)"
  by (auto simp: first_key_def map_keys_def split: list.splits)

lemma first_key_Some: "first_key m = Some k \<Longrightarrow> \<exists>ks. map_keys m = k # ks"
  by (auto simp: first_key_def map_keys_def split: list.splits)

end
