(* ===== verification/Wire.thy ===== *)
theory Wire
  imports JsMap
begin

text \<open>
  The frame layer of \<open>packages/client/src\<close>: JSON-RPC frames (\<open>rpc.ts\<close>), the primitive
  fail-closed decoders (\<open>wire-decoders.ts\<close>), protocol identifiers (\<open>protocol-id.ts\<close>), the turn
  state result (\<open>turn-state.ts\<close>) and the replay-loss notice (\<open>replay-events.ts\<close>).

  A decoder takes an \<open>unknown\<close> and returns \<open>None\<close> for the source's \<open>null\<close>. The interface
  \<open>wire_decoder\<close> relates a decoder to a reference encoder of the values it accepts.
\<close>

section \<open>Frames (\<open>rpc.ts\<close>)\<close>

record rpcRequest =
  rq_id :: string
  rq_method :: string
  rq_params :: unknown

record rpcError =
  err_code :: jnum
  err_message :: string
  err_data :: unknown

record rpcNotification =
  nt_method :: string
  nt_params :: unknown

datatype incomingFrame =
    FSuccess string json
  | FFailure "string option" rpcError
  | FNotification rpcNotification
  | FInvalid string

definition createRequest :: "string \<Rightarrow> string \<Rightarrow> unknown \<Rightarrow> rpcRequest" where
  "createRequest i m p = \<lparr>rq_id = i, rq_method = m, rq_params = p\<rparr>"

definition isRecord :: "unknown \<Rightarrow> bool" where
  "isRecord v = (as_record v \<noteq> None)"

text \<open>
  The argument is what \<open>JSON.parse\<close> made of the text, \<open>None\<close> when it threw. The branches are
  the source's, in its order.
\<close>

definition parse_error_response :: "fields \<Rightarrow> string option \<Rightarrow> fields \<Rightarrow> incomingFrame" where
  "parse_error_response o' i e =
     (case (as_number (fld e ''code''), as_string (fld e ''message'')) of
        (Some c, Some m) \<Rightarrow> FFailure i \<lparr>err_code = c, err_message = m, err_data = fld e ''data''\<rparr>
      | _ \<Rightarrow> FInvalid ''error response has an invalid error object'')"

definition parseIncomingFrame :: "unknown \<Rightarrow> incomingFrame" where
  "parseIncomingFrame source =
     (case source of
        None \<Rightarrow> FInvalid ''frame is not valid JSON''
      | Some value \<Rightarrow>
          (case as_record (Some value) of
             None \<Rightarrow> FInvalid ''frame is not a JSON-RPC 2.0 object''
           | Some o' \<Rightarrow>
               if fld o' ''jsonrpc'' \<noteq> Some (JStr ''2.0'')
               then FInvalid ''frame is not a JSON-RPC 2.0 object''
               else if as_string (fld o' ''method'') \<noteq> None \<and> fld o' ''id'' = None
               then (case fld o' ''params'' of
                       None \<Rightarrow> FInvalid ''notification is missing params''
                     | Some p \<Rightarrow> FNotification \<lparr>nt_method = the (as_string (fld o' ''method'')),
                                                   nt_params = Some p\<rparr>)
               else if as_string (fld o' ''id'') \<noteq> None \<and> fld o' ''result'' \<noteq> None
               then FSuccess (the (as_string (fld o' ''id''))) (the (fld o' ''result''))
               else if (as_string (fld o' ''id'') \<noteq> None \<or> fld o' ''id'' = Some JNull)
                    \<and> isRecord (fld o' ''error'')
               then parse_error_response o' (as_string (fld o' ''id''))
                      (the (as_record (fld o' ''error'')))
               else FInvalid ''frame shape is not recognized''))"

section \<open>Primitive decoders (\<open>wire-decoders.ts\<close>)\<close>

definition isNonEmptyString :: "unknown \<Rightarrow> bool" where
  "isNonEmptyString v = (case as_string v of None \<Rightarrow> False | Some s \<Rightarrow> trim s \<noteq> [])"

text \<open>The value of a safe integer that is not negative, which the source reads as a number.\<close>

fun nonneg_int :: "unknown \<Rightarrow> nat option" where
  "nonneg_int (Some (JNum (JInt i))) = (if 0 \<le> i \<and> i \<le> max_safe then Some (nat i) else None)"
| "nonneg_int _ = None"

definition isNonNegativeInteger :: "unknown \<Rightarrow> bool" where
  "isNonNegativeInteger v = (nonneg_int v \<noteq> None)"

definition isStringArray :: "unknown \<Rightarrow> bool" where
  "isStringArray v =
     (case as_array v of None \<Rightarrow> False | Some xs \<Rightarrow> list_all (\<lambda>e. as_string (Some e) \<noteq> None) xs)"

record uiCursor =
  cur_stream :: string
  cur_seq :: nat

definition parseUiCursor :: "unknown \<Rightarrow> uiCursor option" where
  "parseUiCursor v =
     (case as_record v of
        None \<Rightarrow> None
      | Some o' \<Rightarrow>
          (case (as_string (fld o' ''stream''), nonneg_int (fld o' ''seq'')) of
             (Some s, Some n) \<Rightarrow> Some \<lparr>cur_stream = s, cur_seq = n\<rparr>
           | _ \<Rightarrow> None))"

section \<open>Optional properties\<close>

text \<open>
  \<open>...(x === undefined ? {} : \{ key: x \})\<close>: a property written only when the value is there.
\<close>

definition opt_field :: "string \<Rightarrow> unknown \<Rightarrow> fields" where
  "opt_field k v = (case v of None \<Rightarrow> [] | Some x \<Rightarrow> [(k, x)])"

fun or_else :: "'a option \<Rightarrow> 'a option \<Rightarrow> 'a option" where
  "or_else None w = w"
| "or_else (Some x) w = Some x"

lemma or_else_None [simp]: "or_else v None = v"
  by (cases v) simp_all

lemma fld_opt_field [simp]:
  "fld (opt_field k v @ o') k' = (if k' = k then or_else v (fld o' k') else fld o' k')"
  by (simp add: opt_field_def split: option.splits)

lemma fld_opt_field_last [simp]: "fld (opt_field k v) k' = (if k' = k then v else None)"
  by (simp add: opt_field_def split: option.splits)

text \<open>
  \<open>value[key] !== undefined && typeof value[key] !== "string"\<close>: an optional string that is present
  with another type. \<open>JNull\<close> is such a type.
\<close>

definition bad_opt_string :: "fields \<Rightarrow> string \<Rightarrow> bool" where
  "bad_opt_string o' k = (fld o' k \<noteq> None \<and> as_string (fld o' k) = None)"

lemma as_string_JStr_option [simp]: "as_string (map_option JStr s) = s"
  by (cases s) simp_all

section \<open>Arrays of decoded entries (\<open>hydrate.ts\<close>, \<open>parseOptionalArray\<close>)\<close>

text \<open>\<open>None\<close> is the source's \<open>null\<close> (rejected), \<open>Some None\<close> its \<open>undefined\<close> (absent).\<close>

definition parseOptionalArray :: "unknown \<Rightarrow> (unknown \<Rightarrow> 'a option) \<Rightarrow> 'a list option option" where
  "parseOptionalArray v parse =
     (case v of
        None \<Rightarrow> Some None
      | Some _ \<Rightarrow>
          (case as_array v of
             None \<Rightarrow> None
           | Some xs \<Rightarrow> map_option Some (those (map (\<lambda>e. parse (Some e)) xs))))"

lemma those_Some: "those ys = Some zs \<longleftrightarrow> ys = map Some zs"
proof (induction ys arbitrary: zs)
  case Nil
  then show ?case by auto
next
  case (Cons y ys)
  then show ?case by (cases zs) (auto split: option.splits)
qed

lemma parseOptionalArray_Some:
  "parseOptionalArray v parse = Some (Some xs) \<longleftrightarrow>
     (\<exists>es. v = Some (JArr es) \<and> map (\<lambda>e. parse (Some e)) es = map Some xs)"
  by (auto simp: parseOptionalArray_def those_Some split: option.splits)

lemma parseOptionalArray_undefined: "parseOptionalArray v parse = Some None \<longleftrightarrow> v = None"
  by (auto simp: parseOptionalArray_def split: option.splits)

section \<open>The contract of a decoder\<close>

locale wire_decoder =
  fixes parse :: "unknown \<Rightarrow> 'a option"
    and encode :: "'a \<Rightarrow> json"
    and valid :: "'a \<Rightarrow> bool"
  assumes parse_valid: "parse v = Some x \<Longrightarrow> valid x"
    and parse_encode: "valid x \<Longrightarrow> parse (Some (encode x)) = Some x"
    and parse_undefined: "parse None = None"
begin

lemma accepts_iff_valid: "(\<exists>v. parse v = Some x) \<longleftrightarrow> valid x"
  using parse_valid parse_encode by blast

lemma reparse: "parse v = Some x \<Longrightarrow> parse (Some (encode x)) = Some x"
  by (rule parse_encode) (rule parse_valid)

lemma encode_inject: "valid x \<Longrightarrow> valid y \<Longrightarrow> encode x = encode y \<longleftrightarrow> x = y"
  by (metis option.inject parse_encode)

lemma array_round_trip:
  "list_all valid xs \<Longrightarrow> parseOptionalArray (Some (JArr (map encode xs))) parse = Some (Some xs)"
  by (auto simp: parseOptionalArray_Some list_all_iff parse_encode comp_def)

lemma array_valid:
  assumes "parseOptionalArray v parse = Some (Some xs)"
  shows "list_all valid xs"
proof -
  from assms obtain es where es: "map (\<lambda>e. parse (Some e)) es = map Some xs"
    by (auto simp: parseOptionalArray_Some)
  have "valid x" if "x \<in> set xs" for x
  proof -
    from that es have "Some x \<in> set (map (\<lambda>e. parse (Some e)) es)" by simp
    then show ?thesis using parse_valid by auto
  qed
  then show ?thesis by (simp add: list_all_iff)
qed

end

lemma nonneg_int_Some:
  "nonneg_int v = Some n \<longleftrightarrow> v = Some (JNum (JInt (int n))) \<and> int n \<le> max_safe"
  by (cases v rule: nonneg_int.cases) auto

lemma nonneg_int_nat [simp]:
  "nonneg_int (Some (JNum (JInt (int n)))) = (if int n \<le> max_safe then Some n else None)"
  by simp

definition encode_cursor :: "uiCursor \<Rightarrow> json" where
  "encode_cursor c = JObj [(''stream'', JStr (cur_stream c)), (''seq'', JNum (JInt (int (cur_seq c))))]"

definition valid_cursor :: "uiCursor \<Rightarrow> bool" where
  "valid_cursor c = (int (cur_seq c) \<le> max_safe)"

lemma parseUiCursor_Some:
  "parseUiCursor v = Some c \<longleftrightarrow>
     (\<exists>o'. v = Some (JObj o') \<and> fld o' ''stream'' = Some (JStr (cur_stream c))
        \<and> nonneg_int (fld o' ''seq'') = Some (cur_seq c))"
  by (auto simp: parseUiCursor_def split: option.splits)

interpretation cursor_wire: wire_decoder parseUiCursor encode_cursor valid_cursor
  by unfold_locales
    (simp_all add: parseUiCursor_Some encode_cursor_def valid_cursor_def nonneg_int_Some,
     auto simp: parseUiCursor_def)

section \<open>Replay loss (\<open>replay-events.ts\<close>)\<close>

record replayLossyEvent =
  rl_session_id :: string
  rl_dropped_count :: nat
  rl_last_durable_cursor :: "uiCursor option"

text \<open>An optional cursor: \<open>None\<close> rejects, \<open>Some None\<close> is absent.\<close>

definition parse_opt_cursor :: "unknown \<Rightarrow> uiCursor option option" where
  "parse_opt_cursor v = (case v of None \<Rightarrow> Some None | Some _ \<Rightarrow> map_option Some (parseUiCursor v))"

definition parseReplayLossyEvent :: "unknown \<Rightarrow> replayLossyEvent option" where
  "parseReplayLossyEvent v =
     (case as_record v of
        None \<Rightarrow> None
      | Some o' \<Rightarrow>
          (case (as_string (fld o' ''session_id''), nonneg_int (fld o' ''dropped_count'')) of
             (Some s, Some n) \<Rightarrow>
               (case parse_opt_cursor (fld o' ''last_durable_cursor'') of
                  None \<Rightarrow> None
                | Some c \<Rightarrow> Some \<lparr>rl_session_id = s, rl_dropped_count = n,
                                    rl_last_durable_cursor = c\<rparr>)
           | _ \<Rightarrow> None))"

definition encode_replay :: "replayLossyEvent \<Rightarrow> json" where
  "encode_replay e = JObj
     ((''session_id'', JStr (rl_session_id e))
      # (''dropped_count'', JNum (JInt (int (rl_dropped_count e))))
      # opt_field ''last_durable_cursor'' (map_option encode_cursor (rl_last_durable_cursor e)))"

definition valid_opt_cursor :: "uiCursor option \<Rightarrow> bool" where
  "valid_opt_cursor c = (case c of None \<Rightarrow> True | Some c' \<Rightarrow> valid_cursor c')"

definition valid_replay :: "replayLossyEvent \<Rightarrow> bool" where
  "valid_replay e \<longleftrightarrow> int (rl_dropped_count e) \<le> max_safe \<and> valid_opt_cursor (rl_last_durable_cursor e)"

lemma parse_opt_cursor_valid: "parse_opt_cursor v = Some c \<Longrightarrow> valid_opt_cursor c"
  using cursor_wire.parse_valid
  by (fastforce simp: parse_opt_cursor_def valid_opt_cursor_def split: option.splits)

lemma parse_opt_cursor_encode [simp]:
  "valid_opt_cursor c \<Longrightarrow> parse_opt_cursor (map_option encode_cursor c) = Some c"
  using cursor_wire.parse_encode
  by (cases c) (auto simp: parse_opt_cursor_def valid_opt_cursor_def)

interpretation replay_wire: wire_decoder parseReplayLossyEvent encode_replay valid_replay
proof unfold_locales
  show "valid_replay x" if "parseReplayLossyEvent v = Some x" for v x
    using that
    by (auto simp: parseReplayLossyEvent_def valid_replay_def nonneg_int_Some
        split: option.splits dest: parse_opt_cursor_valid)
next
  show "parseReplayLossyEvent (Some (encode_replay x)) = Some x" if "valid_replay x" for x
    using that by (simp add: parseReplayLossyEvent_def encode_replay_def valid_replay_def)
qed (simp add: parseReplayLossyEvent_def)

section \<open>Turn state (\<open>turn-state.ts\<close>, \<open>turn-state-values.ts\<close>)\<close>

definition turn_lifecycle_states :: "string list" where
  "turn_lifecycle_states =
     [''active'', ''interrupting'', ''completed'', ''errored'', ''interrupted'', ''unknown'']"

definition isTurnLifecycleState :: "unknown \<Rightarrow> bool" where
  "isTurnLifecycleState v =
     (case as_string v of None \<Rightarrow> False | Some s \<Rightarrow> s \<in> set turn_lifecycle_states)"

record turnStateGetResult =
  ts_session_id :: string
  ts_turn_id :: string
  ts_state :: string
  ts_committed_seqs :: "nat list"
  ts_started_at :: "string option"
  ts_completed_at :: "string option"
  ts_thread_id :: "string option"

definition committed_seqs :: "unknown \<Rightarrow> nat list option" where
  "committed_seqs v =
     (case v of
        None \<Rightarrow> Some []
      | Some _ \<Rightarrow>
          (case as_array v of
             None \<Rightarrow> None
           | Some xs \<Rightarrow> those (map (\<lambda>e. nonneg_int (Some e)) xs)))"

definition parseTurnStateGetResult :: "unknown \<Rightarrow> turnStateGetResult option" where
  "parseTurnStateGetResult v =
     (case as_record v of
        None \<Rightarrow> None
      | Some o' \<Rightarrow>
          (case (as_string (fld o' ''session_id''), as_string (fld o' ''turn_id''),
                 as_string (fld o' ''state'')) of
             (Some s, Some t, Some st) \<Rightarrow>
               if s = [] \<or> t = [] \<or> \<not> isTurnLifecycleState (fld o' ''state'') then None
               else if list_ex (bad_opt_string o') [''started_at'', ''completed_at'', ''thread_id'']
               then None
               else (case committed_seqs (fld o' ''committed_seqs'') of
                       None \<Rightarrow> None
                     | Some seqs \<Rightarrow> Some \<lparr>ts_session_id = s, ts_turn_id = t, ts_state = st,
                         ts_committed_seqs = seqs,
                         ts_started_at = as_string (fld o' ''started_at''),
                         ts_completed_at = as_string (fld o' ''completed_at''),
                         ts_thread_id = as_string (fld o' ''thread_id'')\<rparr>)
           | _ \<Rightarrow> None))"

definition encode_turn_state :: "turnStateGetResult \<Rightarrow> json" where
  "encode_turn_state r = JObj
     ((''session_id'', JStr (ts_session_id r)) # (''turn_id'', JStr (ts_turn_id r))
      # (''state'', JStr (ts_state r))
      # (''committed_seqs'', JArr (map (\<lambda>n. JNum (JInt (int n))) (ts_committed_seqs r)))
      # opt_field ''started_at'' (map_option JStr (ts_started_at r))
      @ opt_field ''completed_at'' (map_option JStr (ts_completed_at r))
      @ opt_field ''thread_id'' (map_option JStr (ts_thread_id r)))"

definition valid_turn_state :: "turnStateGetResult \<Rightarrow> bool" where
  "valid_turn_state r \<longleftrightarrow> ts_session_id r \<noteq> [] \<and> ts_turn_id r \<noteq> []
     \<and> ts_state r \<in> set turn_lifecycle_states
     \<and> list_all (\<lambda>n. int n \<le> max_safe) (ts_committed_seqs r)"

lemma committed_seqs_valid:
  "committed_seqs v = Some ns \<Longrightarrow> list_all (\<lambda>n. int n \<le> max_safe) ns"
proof (cases v)
  case (Some j)
  assume "committed_seqs v = Some ns"
  with Some obtain xs where "map (\<lambda>e. nonneg_int (Some e)) xs = map Some ns"
    by (auto simp: committed_seqs_def those_Some split: option.splits)
  then have "\<forall>n \<in> set ns. \<exists>e. nonneg_int (Some e) = Some n"
    by (metis (mono_tags, lifting) image_iff list.set_map)
  then show ?thesis by (auto simp: nonneg_int_Some list_all_iff)
qed (simp add: committed_seqs_def)

lemma committed_seqs_encode:
  "list_all (\<lambda>n. int n \<le> max_safe) ns \<Longrightarrow>
     committed_seqs (Some (JArr (map (\<lambda>n. JNum (JInt (int n))) ns))) = Some ns"
  by (auto simp: committed_seqs_def those_Some list_all_iff)

interpretation turn_state_wire: wire_decoder
  parseTurnStateGetResult encode_turn_state valid_turn_state
proof unfold_locales
  show "valid_turn_state x" if "parseTurnStateGetResult v = Some x" for v x
    using that
    by (auto simp: parseTurnStateGetResult_def valid_turn_state_def isTurnLifecycleState_def
        split: option.splits if_splits dest: committed_seqs_valid)
next
  show "parseTurnStateGetResult (Some (encode_turn_state x)) = Some x" if "valid_turn_state x" for x
    using that
    by (simp add: parseTurnStateGetResult_def encode_turn_state_def valid_turn_state_def
        isTurnLifecycleState_def committed_seqs_encode bad_opt_string_def)
qed (simp add: parseTurnStateGetResult_def)

section \<open>Protocol identifiers (\<open>protocol-id.ts\<close>)\<close>

definition is_hex :: "char \<Rightarrow> bool" where
  "is_hex c = (let n = code_unit c in
     48 \<le> n \<and> n \<le> 57 \<or> 65 \<le> n \<and> n \<le> 70 \<or> 97 \<le> n \<and> n \<le> 102)"

definition uuid_simple :: "string \<Rightarrow> bool" where
  "uuid_simple s \<longleftrightarrow> length s = 32 \<and> list_all is_hex s"

definition uuid_hyphenated :: "string \<Rightarrow> bool" where
  "uuid_hyphenated s \<longleftrightarrow>
     map length (split_on CHR ''-'' s) = [8, 4, 4, 4, 12]
     \<and> list_all (list_all is_hex) (split_on CHR ''-'' s)"

definition isUuidInner :: "string \<Rightarrow> bool" where
  "isUuidInner s \<longleftrightarrow> uuid_hyphenated s \<or> uuid_simple s"

definition isProtocolUuid :: "unknown \<Rightarrow> bool" where
  "isProtocolUuid v =
     (case as_string v of
        None \<Rightarrow> False
      | Some s \<Rightarrow>
          if isUuidInner s then True
          else if length s = 38 \<and> starts_with s ''{'' \<and> last s = CHR ''}''
          then isUuidInner (butlast (tl s))
          else if starts_with s ''urn:uuid:'' then uuid_hyphenated (drop 9 s)
          else False)"

lemma length_split_on:
  "length s + 1 = sum_list (map length (split_on sep s)) + length (split_on sep s)"
  by (induction s) (auto split: list.splits)

lemma length_five: "length [8, 4, 4, 4, 12 :: nat] = 5"
  by simp

lemma uuid_hyphenated_length: "uuid_hyphenated s \<Longrightarrow> length s = 36"
proof -
  assume h: "uuid_hyphenated s"
  then have m: "map length (split_on CHR ''-'' s) = [8, 4, 4, 4, 12]"
    by (simp add: uuid_hyphenated_def)
  then have "length (split_on CHR ''-'' s) = 5"
    by (metis (no_types) length_map length_five)
  with m length_split_on [of s "CHR ''-''"] show ?thesis by simp
qed

section \<open>Properties of the frame layer\<close>

text \<open>
  An incoming frame is classified by exactly the fields the JSON-RPC shapes name: a notification
  is a 2.0 object with a string method, no id and present params; a response is one with a string
  id and a present result; an error response is one with a string or null id, no result beside a
  string id, and an error object whose code is a number and whose message is a string.
\<close>
theorem frame_classification:
  "(parseIncomingFrame source = FNotification n \<longleftrightarrow>
      (\<exists>o' p. source = Some (JObj o') \<and> fld o' ''jsonrpc'' = Some (JStr ''2.0'')
         \<and> fld o' ''method'' = Some (JStr (nt_method n)) \<and> fld o' ''id'' = None
         \<and> fld o' ''params'' = Some p \<and> nt_params n = Some p))
   \<and> (parseIncomingFrame source = FSuccess i r \<longleftrightarrow>
      (\<exists>o'. source = Some (JObj o') \<and> fld o' ''jsonrpc'' = Some (JStr ''2.0'')
         \<and> fld o' ''id'' = Some (JStr i) \<and> fld o' ''result'' = Some r))
   \<and> (parseIncomingFrame source = FFailure k e \<longleftrightarrow>
      (\<exists>o' x. source = Some (JObj o') \<and> fld o' ''jsonrpc'' = Some (JStr ''2.0'')
         \<and> (fld o' ''id'' = Some JNull \<and> k = None
            \<or> fld o' ''id'' = map_option JStr k \<and> k \<noteq> None \<and> fld o' ''result'' = None)
         \<and> fld o' ''error'' = Some (JObj x)
         \<and> fld x ''code'' = Some (JNum (err_code e)) \<and> fld x ''message'' = Some (JStr (err_message e))
         \<and> err_data e = fld x ''data''))"
  apply (intro conjI)
  subgoal
    by (cases n) (auto simp: parseIncomingFrame_def parse_error_response_def split: option.splits)
  subgoal
    by (auto simp: parseIncomingFrame_def parse_error_response_def split: option.splits)
  subgoal
    by (cases e) (auto simp: parseIncomingFrame_def parse_error_response_def isRecord_def
        split: option.splits)
  done

text \<open>
  The turn-state decoder accepts a result exactly when it is well formed (non-empty ids, a known
  lifecycle state, safe committed sequences), and then reading the canonical rendering of the
  result gives the result back.
\<close>
theorem turn_state_round_trip:
  "((\<exists>v. parseTurnStateGetResult v = Some r) \<longleftrightarrow> valid_turn_state r)
   \<and> (valid_turn_state r \<longleftrightarrow> parseTurnStateGetResult (Some (encode_turn_state r)) = Some r)"
  using turn_state_wire.accepts_iff_valid turn_state_wire.parse_valid turn_state_wire.parse_encode
  by blast

text \<open>
  The strings accepted as protocol UUIDs are exactly the four forms: 32 hex digits, the
  hyphenated 8-4-4-4-12 groups, the hyphenated form in braces, and the hyphenated form behind
  \<open>urn:uuid:\<close>. A braced or prefixed run of 32 digits is refused.
\<close>
theorem uuid_forms:
  "isProtocolUuid (Some (JStr s)) \<longleftrightarrow>
     uuid_simple s \<or> uuid_hyphenated s
     \<or> (\<exists>b. s = ''{'' @ b @ ''}'' \<and> uuid_hyphenated b)
     \<or> (\<exists>b. s = ''urn:uuid:'' @ b \<and> uuid_hyphenated b)"
proof -
  have braces: "length s = 38 \<and> starts_with s ''{'' \<and> last s = CHR ''}'' \<longleftrightarrow>
      (\<exists>b. s = ''{'' @ b @ ''}'' \<and> length b = 36)"
  proof
    assume h: "length s = 38 \<and> starts_with s ''{'' \<and> last s = CHR ''}''"
    then obtain t where t: "s = ''{'' @ t" by (auto simp: starts_with_append)
    with h have "t = butlast t @ ''}''" by (cases t rule: rev_cases) auto
    with h t have "s = ''{'' @ butlast t @ ''}'' \<and> length (butlast t) = 36" by simp
    then show "\<exists>b. s = ''{'' @ b @ ''}'' \<and> length b = 36" by blast
  qed (auto simp: starts_with_append)
  have no_simple: "length b = 36 \<Longrightarrow> \<not> uuid_simple b" for b
    by (simp add: uuid_simple_def)
  show ?thesis
  proof (cases "isUuidInner s \<or> length s = 38 \<and> starts_with s ''{'' \<and> last s = CHR ''}''")
    case True
    then show ?thesis
      using braces no_simple
      by (auto simp: isProtocolUuid_def isUuidInner_def dest: uuid_hyphenated_length)
  next
    case False
    then have "isProtocolUuid (Some (JStr s)) \<longleftrightarrow>
        starts_with s ''urn:uuid:'' \<and> uuid_hyphenated (drop 9 s)"
      by (auto simp: isProtocolUuid_def)
    also have "\<dots> \<longleftrightarrow> (\<exists>b. s = ''urn:uuid:'' @ b \<and> uuid_hyphenated b)"
      by (auto simp: starts_with_append)
    finally show ?thesis
      using False braces by (auto simp: isUuidInner_def dest: uuid_hyphenated_length)
  qed
qed

end
