(* ===== verification/Lease.thy ===== *)
theory Lease
  imports Wire
begin

text \<open>
  Ownership of asynchronous work. Three modules hand out a lease when an operation starts, let a
  newer operation supersede it, and ask later whether the lease still owns the product state:
  \<open>features/async/request-authority.ts\<close> and \<open>features/session/launch-transition.ts\<close> here, the tab
  lock in \<open>TabLock\<close>. The interface \<open>ownership\<close> states what they share; its clients get that a
  superseded lease stays superseded however the run continues.

  The source compares lease objects by identity. Each \<open>begin\<close> freezes a new object with a new
  generation, so two leases of one gate are the same object exactly when they are equal records.
\<close>

section \<open>The interface\<close>

locale ownership =
  fixes step :: "'s \<Rightarrow> 'op \<Rightarrow> 's"
    and owns :: "'s \<Rightarrow> 'l \<Rightarrow> bool"
    and issued :: "'s \<Rightarrow> 'l \<Rightarrow> bool"
    and ok :: "'s \<Rightarrow> bool"
  assumes ok_step: "ok s \<Longrightarrow> ok (step s x)"
    and owns_unique: "owns s a \<Longrightarrow> owns s b \<Longrightarrow> a = b"
    and owns_issued: "ok s \<Longrightarrow> owns s a \<Longrightarrow> issued s a"
    and issued_step: "issued s a \<Longrightarrow> issued (step s x) a"
    and stale_step: "ok s \<Longrightarrow> issued s a \<Longrightarrow> \<not> owns s a \<Longrightarrow> \<not> owns (step s x) a"
begin

lemma ok_run: "ok s \<Longrightarrow> ok (foldl step s xs)"
  by (induction xs arbitrary: s) (simp_all add: ok_step)

lemma issued_run: "issued s a \<Longrightarrow> issued (foldl step s xs) a"
  by (induction xs arbitrary: s) (simp_all add: issued_step)

lemma stale_forever:
  "ok s \<Longrightarrow> issued s a \<Longrightarrow> \<not> owns s a \<Longrightarrow> \<not> owns (foldl step s xs) a"
proof (induction xs arbitrary: s)
  case Nil
  then show ?case by simp
next
  case (Cons x xs)
  then show ?case by (simp add: ok_step issued_step stale_step)
qed

text \<open>Once another lease owns the state, this one never does again.\<close>

lemma superseded_forever:
  assumes "ok s" and "issued s a" and "owns s b" and "a \<noteq> b"
  shows "\<not> owns (foldl step s xs) a"
  using assms owns_unique stale_forever by blast

end

section \<open>Request authority (\<open>request-authority.ts\<close>)\<close>

record 'c requestAuthority =
  au_generation :: nat
  au_client :: 'c
  au_sessionId :: string

record 'c gate =
  gate_generation :: nat
  gate_owner :: "'c requestAuthority option"

definition initial_gate :: "'c gate" where
  "initial_gate = \<lparr>gate_generation = 0, gate_owner = None\<rparr>"

definition gate_begin :: "'c gate \<Rightarrow> 'c \<Rightarrow> string \<Rightarrow> 'c gate \<times> 'c requestAuthority" where
  "gate_begin g c s =
     (let a = \<lparr>au_generation = Suc (gate_generation g), au_client = c, au_sessionId = s\<rparr>
      in (g\<lparr>gate_generation := Suc (gate_generation g), gate_owner := Some a\<rparr>, a))"

definition gate_invalidate :: "'c gate \<Rightarrow> 'c gate" where
  "gate_invalidate g = g\<lparr>gate_generation := gate_generation g + 1, gate_owner := None\<rparr>"

definition gate_owns :: "'c gate \<Rightarrow> 'c requestAuthority \<Rightarrow> bool" where
  "gate_owns g a = (gate_owner g = Some a)"

definition gate_isCurrent :: "'c gate \<Rightarrow> 'c requestAuthority \<Rightarrow> 'c option \<Rightarrow> string \<Rightarrow> bool" where
  "gate_isCurrent g a c s = (gate_owns g a \<and> Some (au_client a) = c \<and> au_sessionId a = s)"

definition gate_finish :: "'c gate \<Rightarrow> 'c requestAuthority \<Rightarrow> 'c gate \<times> bool" where
  "gate_finish g a = (if \<not> gate_owns g a then (g, False) else (g\<lparr>gate_owner := None\<rparr>, True))"

datatype 'c gate_op = GBegin 'c string | GInvalidate | GFinish "'c requestAuthority"

fun gate_step :: "'c gate \<Rightarrow> 'c gate_op \<Rightarrow> 'c gate" where
  "gate_step g (GBegin c s) = fst (gate_begin g c s)"
| "gate_step g GInvalidate = gate_invalidate g"
| "gate_step g (GFinish a) = fst (gate_finish g a)"

text \<open>Every authority a gate ever returned carries a generation the gate has reached.\<close>

definition gate_issued :: "'c gate \<Rightarrow> 'c requestAuthority \<Rightarrow> bool" where
  "gate_issued g a = (au_generation a \<le> gate_generation g)"

definition gate_ok :: "'c gate \<Rightarrow> bool" where
  "gate_ok g = (\<forall>a. gate_owner g = Some a \<longrightarrow> gate_issued g a)"

lemmas gate_simps = gate_begin_def gate_invalidate_def gate_owns_def gate_finish_def
  gate_issued_def gate_ok_def Let_def

interpretation gate: ownership gate_step gate_owns gate_issued gate_ok
proof unfold_locales
  show "gate_ok (gate_step s x)" if "gate_ok s" for s :: "'c gate" and x
    using that by (cases x) (auto simp: gate_simps)
  show "gate_issued (gate_step s x) a" if "gate_issued s a" for s :: "'c gate" and a x
    using that by (cases x) (auto simp: gate_simps)
  show "\<not> gate_owns (gate_step s x) a"
    if "gate_ok s" "gate_issued s a" "\<not> gate_owns s a" for s :: "'c gate" and a x
    using that by (cases x) (auto simp: gate_simps)
qed (auto simp: gate_simps)

lemma gate_ok_initial: "gate_ok initial_gate"
  by (simp add: initial_gate_def gate_ok_def)

section \<open>Launch transition (\<open>launch-transition.ts\<close>)\<close>

record ('c, 'd) launchSnapshot =
  ls_lease :: nat
  ls_config :: 'c
  ls_decision :: "'d option"

record ('c, 'd) coordinator =
  lc_generation :: nat
  lc_active :: "('c, 'd) launchSnapshot option"

definition initial_coordinator :: "('c, 'd) coordinator" where
  "initial_coordinator = \<lparr>lc_generation = 0, lc_active = None\<rparr>"

definition launch_begin :: "('c, 'd) coordinator \<Rightarrow> 'c \<Rightarrow> ('c, 'd) coordinator \<times> nat" where
  "launch_begin k c =
     (let lease = Suc (lc_generation k)
      in (k\<lparr>lc_generation := lease,
             lc_active := Some \<lparr>ls_lease = lease, ls_config = c, ls_decision = None\<rparr>\<rparr>, lease))"

definition launch_isCurrent :: "('c, 'd) coordinator \<Rightarrow> nat \<Rightarrow> bool" where
  "launch_isCurrent k l =
     (case lc_active k of None \<Rightarrow> False | Some a \<Rightarrow> ls_lease a = l)"

definition rememberDecision ::
    "('c, 'd) coordinator \<Rightarrow> nat \<Rightarrow> 'd \<Rightarrow> ('c, 'd) coordinator \<times> bool" where
  "rememberDecision k l d =
     (case lc_active k of
        None \<Rightarrow> (k, False)
      | Some a \<Rightarrow>
          if \<not> launch_isCurrent k l then (k, False)
          else (k\<lparr>lc_active := Some (a\<lparr>ls_decision := Some d\<rparr>)\<rparr>, True))"

definition launch_snapshot :: "('c, 'd) coordinator \<Rightarrow> nat \<Rightarrow> ('c, 'd) launchSnapshot option" where
  "launch_snapshot k l = (if \<not> launch_isCurrent k l then None else lc_active k)"

definition launch_current :: "('c, 'd) coordinator \<Rightarrow> ('c, 'd) launchSnapshot option" where
  "launch_current k = lc_active k"

definition restoreChoice :: "('c, 'd) coordinator \<Rightarrow> nat \<Rightarrow> ('c \<times> 'd) option" where
  "restoreChoice k l =
     (case launch_snapshot k l of
        None \<Rightarrow> None
      | Some s \<Rightarrow> (case ls_decision s of None \<Rightarrow> None | Some d \<Rightarrow> Some (ls_config s, d)))"

definition launch_retire :: "('c, 'd) coordinator \<Rightarrow> nat \<Rightarrow> ('c, 'd) coordinator \<times> bool" where
  "launch_retire k l =
     (if \<not> launch_isCurrent k l then (k, False) else (k\<lparr>lc_active := None\<rparr>, True))"

definition launch_commit :: "('c, 'd) coordinator \<Rightarrow> nat \<Rightarrow> ('c, 'd) coordinator \<times> bool" where
  "launch_commit k l = launch_retire k l"

definition launch_discard :: "('c, 'd) coordinator \<Rightarrow> nat \<Rightarrow> ('c, 'd) coordinator \<times> bool" where
  "launch_discard k l = launch_retire k l"

definition launch_cancel ::
    "('c, 'd) coordinator \<Rightarrow> ('c, 'd) coordinator \<times> ('c, 'd) launchSnapshot option" where
  "launch_cancel k =
     (k\<lparr>lc_generation := lc_generation k + 1, lc_active := None\<rparr>, launch_current k)"

datatype ('c, 'd) launch_op =
    LBegin 'c | LRemember nat 'd | LCommit nat | LDiscard nat | LCancel

fun launch_step :: "('c, 'd) coordinator \<Rightarrow> ('c, 'd) launch_op \<Rightarrow> ('c, 'd) coordinator" where
  "launch_step k (LBegin c) = fst (launch_begin k c)"
| "launch_step k (LRemember l d) = fst (rememberDecision k l d)"
| "launch_step k (LCommit l) = fst (launch_commit k l)"
| "launch_step k (LDiscard l) = fst (launch_discard k l)"
| "launch_step k LCancel = fst (launch_cancel k)"

definition launch_issued :: "('c, 'd) coordinator \<Rightarrow> nat \<Rightarrow> bool" where
  "launch_issued k l = (l \<le> lc_generation k)"

definition launch_ok :: "('c, 'd) coordinator \<Rightarrow> bool" where
  "launch_ok k = (\<forall>a. lc_active k = Some a \<longrightarrow> launch_issued k (ls_lease a))"

lemmas launch_simps = launch_begin_def launch_isCurrent_def rememberDecision_def
  launch_snapshot_def launch_current_def restoreChoice_def launch_retire_def launch_commit_def
  launch_discard_def launch_cancel_def launch_issued_def launch_ok_def Let_def

interpretation launch: ownership launch_step launch_isCurrent launch_issued launch_ok
proof unfold_locales
  show "launch_ok (launch_step s x)" if "launch_ok s" for s :: "('c, 'd) coordinator" and x
    using that by (cases x) (auto simp: launch_simps split: option.splits)
  show "launch_issued (launch_step s x) a" if "launch_issued s a"
    for s :: "('c, 'd) coordinator" and a x
    using that by (cases x) (auto simp: launch_simps split: option.splits)
  show "\<not> launch_isCurrent (launch_step s x) a"
    if "launch_ok s" "launch_issued s a" "\<not> launch_isCurrent s a"
    for s :: "('c, 'd) coordinator" and a x
    using that by (cases x) (auto simp: launch_simps split: option.splits)
qed (auto simp: launch_simps split: option.splits)

lemma launch_ok_initial: "launch_ok initial_coordinator"
  by (simp add: initial_coordinator_def launch_ok_def)

text \<open>
  Operations of other leases do not touch the remembered choice: while the lease stays current,
  its configuration and decision are the ones it was given last.
\<close>

fun launch_foreign :: "nat \<Rightarrow> ('c, 'd) launch_op \<Rightarrow> bool" where
  "launch_foreign l (LBegin c) = False"
| "launch_foreign l LCancel = False"
| "launch_foreign l (LRemember m d) = (m \<noteq> l)"
| "launch_foreign l (LCommit m) = (m \<noteq> l)"
| "launch_foreign l (LDiscard m) = (m \<noteq> l)"

lemma launch_foreign_step:
  "launch_isCurrent k l \<Longrightarrow> launch_foreign l x \<Longrightarrow> launch_step k x = k"
  by (cases x) (auto simp: launch_simps split: option.splits)

lemma launch_foreign_run:
  "launch_isCurrent k l \<Longrightarrow> list_all (launch_foreign l) xs \<Longrightarrow> foldl launch_step k xs = k"
  by (induction xs) (simp_all add: launch_foreign_step)

section \<open>Properties\<close>

lemma gate_begin_facts:
  assumes "gate_ok g"
  shows "gate_ok (fst (gate_begin g c s))" "gate_owns (fst (gate_begin g c s)) (snd (gate_begin g c s))"
    "gate_issued (fst (gate_begin g c s)) (snd (gate_begin g c s))"
    "gate_owner g = Some a \<Longrightarrow> a \<noteq> snd (gate_begin g c s)"
  using assms by (auto simp: gate_simps)

lemma gate_finish_facts:
  assumes "gate_ok g"
  shows "gate_ok (fst (gate_finish g a))" "gate_issued g a \<Longrightarrow> gate_issued (fst (gate_finish g a)) a"
    "\<not> gate_owns (fst (gate_finish g a)) a"
  using assms by (auto simp: gate_simps)

lemma gate_reachable_ok: "gate_ok (foldl gate_step initial_gate xs)"
  by (rule gate.ok_run [OF gate_ok_initial])

text \<open>
  A request that a newer request or an invalidation superseded never becomes current again and
  can never finish: whatever gate operations follow, in any order, and whatever live client and
  Session its late answer is compared with.
\<close>
theorem superseded_request_never_current:
  "let g0 = foldl gate_step initial_gate history;
       (g1, a) = gate_begin g0 c s;
       g2 = gate_step g1 (if newer then GBegin c' s' else GInvalidate);
       g3 = foldl gate_step g2 later
   in \<not> gate_isCurrent g3 a live sid \<and> gate_finish g3 a = (g3, False)"
proof -
  let ?g0 = "foldl gate_step initial_gate history"
  let ?g1 = "fst (gate_begin ?g0 c s)" and ?a = "snd (gate_begin ?g0 c s)"
  let ?g2 = "gate_step ?g1 (if newer then GBegin c' s' else GInvalidate)"
  have ok: "gate_ok ?g1" "gate_issued ?g1 ?a"
    by (rule gate_begin_facts [OF gate_reachable_ok])+
  have "\<not> gate_owns ?g2 ?a" using ok by (auto simp: gate_simps)
  then have "\<not> gate_owns (foldl gate_step ?g2 later) ?a"
    by (intro gate.stale_forever gate.ok_step gate.issued_step ok)
  then show ?thesis by (simp add: case_prod_beta gate_isCurrent_def gate_finish_def Let_def)
qed

text \<open>
  A request finishes at most once. The first \<open>finish\<close> of the current request succeeds; after it,
  no run of the gate makes a second \<open>finish\<close> of the same request succeed.
\<close>
theorem request_finishes_once:
  "let (g1, a) = gate_begin (foldl gate_step initial_gate history) c s;
       (g2, first) = gate_finish g1 a;
       (g3, second) = gate_finish (foldl gate_step g2 later) a
   in first \<and> \<not> second"
proof -
  let ?g0 = "foldl gate_step initial_gate history"
  let ?g1 = "fst (gate_begin ?g0 c s)" and ?a = "snd (gate_begin ?g0 c s)"
  let ?g2 = "fst (gate_finish ?g1 ?a)"
  note b = gate_begin_facts [OF gate_reachable_ok [of history], where c = c and s = s]
  note f = gate_finish_facts [OF b(1), where a = ?a]
  have "\<not> gate_owns (foldl gate_step ?g2 later) ?a"
    by (rule gate.stale_forever [OF f(1) f(2) [OF b(3)] f(3)])
  with b(2) show ?thesis by (simp add: case_prod_beta gate_finish_def)
qed

lemma launch_reachable_ok: "launch_ok (foldl launch_step initial_coordinator xs)"
  by (rule launch.ok_run [OF launch_ok_initial])

text \<open>
  A pending launch gives its own choice back. After \<open>begin\<close> with a configuration and
  \<open>rememberDecision\<close> of a decision, any operations that other leases perform (late decisions,
  commits and discards of launches it superseded) leave the choice to restore exactly what this
  launch recorded.
\<close>
theorem launch_restores_its_own_choice:
  assumes "list_all (launch_foreign (snd (launch_begin (foldl launch_step initial_coordinator history) cfg))) others"
  shows "let (k1, l) = launch_begin (foldl launch_step initial_coordinator history) cfg;
             k2 = fst (rememberDecision k1 l d)
         in restoreChoice (foldl launch_step k2 others) l = Some (cfg, d)"
proof -
  let ?k0 = "foldl launch_step initial_coordinator history"
  let ?k1 = "fst (launch_begin ?k0 cfg)" and ?l = "snd (launch_begin ?k0 cfg)"
  let ?k2 = "fst (rememberDecision ?k1 ?l d)"
  have "launch_isCurrent ?k2 ?l" by (simp add: launch_simps)
  with assms have "foldl launch_step ?k2 others = ?k2" by (intro launch_foreign_run)
  moreover have "restoreChoice ?k2 ?l = Some (cfg, d)" by (simp add: launch_simps)
  ultimately show ?thesis by (simp add: case_prod_beta Let_def)
qed

lemma launch_restores_its_own_choice_witness:
  "let (k1, l) = launch_begin (foldl launch_step initial_coordinator [LBegin (7 :: nat)]) 8;
       k2 = fst (rememberDecision k1 l ''new'')
   in restoreChoice (foldl launch_step k2 [LRemember 1 ''stale'', LDiscard 1]) l = Some (8, ''new'')"
  by (rule launch_restores_its_own_choice)
    (simp add: launch_begin_def initial_coordinator_def)

text \<open>
  A superseded, committed, discarded or cancelled launch is inert for good: it is never current
  again, its late decision is refused, it restores nothing and it cannot retire its successor.
\<close>
theorem retired_launch_inert:
  "let (k1, l) = launch_begin (foldl launch_step initial_coordinator history) cfg;
       k2 = launch_step k1 (case how of None \<Rightarrow> LCancel
               | Some (Inl c') \<Rightarrow> LBegin c'
               | Some (Inr True) \<Rightarrow> LCommit l
               | Some (Inr False) \<Rightarrow> LDiscard l);
       k3 = foldl launch_step k2 later
   in \<not> launch_isCurrent k3 l \<and> rememberDecision k3 l d = (k3, False)
      \<and> restoreChoice k3 l = None \<and> launch_commit k3 l = (k3, False)
      \<and> launch_discard k3 l = (k3, False)"
proof -
  let ?k0 = "foldl launch_step initial_coordinator history"
  let ?k1 = "fst (launch_begin ?k0 cfg)" and ?l = "snd (launch_begin ?k0 cfg)"
  let ?k2 = "launch_step ?k1 (case how of None \<Rightarrow> LCancel | Some (Inl c') \<Rightarrow> LBegin c'
      | Some (Inr True) \<Rightarrow> LCommit ?l | Some (Inr False) \<Rightarrow> LDiscard ?l)"
  let ?k3 = "foldl launch_step ?k2 later"
  have ok: "launch_ok ?k1" "launch_issued ?k1 ?l"
    using launch_reachable_ok [of history] by (auto simp: launch_simps)
  have "\<not> launch_isCurrent ?k2 ?l"
    by (auto simp: launch_simps split: option.splits sum.splits bool.splits)
  then have s: "\<not> launch_isCurrent ?k3 ?l"
    by (intro launch.stale_forever launch.ok_step launch.issued_step ok)
  then have "rememberDecision ?k3 ?l d = (?k3, False)" "restoreChoice ?k3 ?l = None"
    "launch_commit ?k3 ?l = (?k3, False)" "launch_discard ?k3 ?l = (?k3, False)"
    by (auto simp: rememberDecision_def restoreChoice_def launch_snapshot_def launch_commit_def
        launch_discard_def launch_retire_def split: option.splits)
  with s show ?thesis unfolding Let_def case_prod_beta by simp
qed

end
