(* ===== verification/TabLock.thy ===== *)
theory TabLock
  imports Lease
begin

text \<open>
  Cross-tab session ownership, \<open>features/session/tab-session-lock-core.ts\<close>, as the state machine
  of one controller. The browser's lock manager is the environment: it calls the request's
  callback (\<open>Denied\<close>, \<open>Granted\<close>) and settles the outer promise (\<open>Settled\<close>, \<open>Rejected\<close>) at times
  of its own. A request is named by its generation, the \<open>mine\<close> of its closure.
\<close>

datatype tabLockState = Unsupported | Owner | HeldElsewhere

definition tabLockName :: "string \<Rightarrow> string" where
  "tabLockName key = ''octoscode-web:session:'' @ key"

text \<open>
  The variables a request's closure owns. \<open>rq_granted\<close> says that the callback got the lock,
  \<open>rq_released\<close> that the promise it returned has been resolved, which is what lets the browser
  release the lock.
\<close>

record lockRequest =
  rq_name :: string
  rq_steal :: bool
  rq_voluntary :: bool
  rq_granted :: bool
  rq_released :: bool

record lockController =
  lk_generation :: nat
  lk_release :: "nat option"
  lk_requests :: "nat \<Rightarrow> lockRequest option"
  lk_state :: "tabLockState option"

definition initial_lock :: lockController where
  "initial_lock = \<lparr>lk_generation = 0, lk_release = None, lk_requests = (\<lambda>_. None), lk_state = None\<rparr>"

definition lock_acquire :: "lockController \<Rightarrow> string \<Rightarrow> bool \<Rightarrow> lockController" where
  "lock_acquire c key steal =
     (let mine = Suc (lk_generation c)
      in c\<lparr>lk_generation := mine,
           lk_requests := (lk_requests c)(mine \<mapsto>
             \<lparr>rq_name = tabLockName key, rq_steal = steal, rq_voluntary = False,
              rq_granted = False, rq_released = False\<rparr>)\<rparr>)"

definition lock_publish :: "nat \<Rightarrow> tabLockState \<Rightarrow> lockController \<Rightarrow> lockController" where
  "lock_publish mine st c = (if mine = lk_generation c then c\<lparr>lk_state := Some st\<rparr> else c)"

definition upd_request ::
    "nat \<Rightarrow> (lockRequest \<Rightarrow> lockRequest) \<Rightarrow> lockController \<Rightarrow> lockController" where
  "upd_request mine f c = c\<lparr>lk_requests := (lk_requests c)(mine := map_option f (lk_requests c mine))\<rparr>"

text \<open>The request's callback with \<open>null\<close>, and with a lock handle.\<close>

definition lock_denied :: "lockController \<Rightarrow> nat \<Rightarrow> lockController" where
  "lock_denied c mine =
     upd_request mine (\<lambda>r. r\<lparr>rq_voluntary := True\<rparr>) (lock_publish mine HeldElsewhere c)"

definition lock_granted :: "lockController \<Rightarrow> nat \<Rightarrow> lockController" where
  "lock_granted c mine =
     (upd_request mine (\<lambda>r. r\<lparr>rq_granted := True\<rparr>) (lock_publish mine Owner c))\<lparr>lk_release := Some mine\<rparr>"

text \<open>The outer promise: \<open>.then\<close> and \<open>.catch\<close>.\<close>

definition lock_settled :: "lockController \<Rightarrow> nat \<Rightarrow> lockController" where
  "lock_settled c mine =
     (let c' = c\<lparr>lk_release := None\<rparr>
      in case lk_requests c mine of
           None \<Rightarrow> c'
         | Some r \<Rightarrow> if rq_voluntary r then c' else lock_publish mine HeldElsewhere c')"

definition lock_rejected :: "lockController \<Rightarrow> nat \<Rightarrow> lockController" where
  "lock_rejected c mine = lock_publish mine HeldElsewhere c"

text \<open>The closure stored in \<open>release\<close>, and \<open>dispose\<close>.\<close>

definition lock_release :: "nat \<Rightarrow> lockController \<Rightarrow> lockController" where
  "lock_release mine c = upd_request mine (\<lambda>r. r\<lparr>rq_voluntary := True, rq_released := True\<rparr>) c"

definition lock_dispose :: "lockController \<Rightarrow> lockController" where
  "lock_dispose c =
     (let c' = c\<lparr>lk_generation := lk_generation c + 1\<rparr>
      in (case lk_release c' of None \<Rightarrow> c' | Some mine \<Rightarrow> lock_release mine c')\<lparr>lk_release := None\<rparr>)"

datatype lock_event =
    Acquire string bool | Denied nat | Granted nat | Settled nat | Rejected nat | Dispose

fun lock_step :: "lockController \<Rightarrow> lock_event \<Rightarrow> lockController" where
  "lock_step c (Acquire key steal) = lock_acquire c key steal"
| "lock_step c (Denied m) = lock_denied c m"
| "lock_step c (Granted m) = lock_granted c m"
| "lock_step c (Settled m) = lock_settled c m"
| "lock_step c (Rejected m) = lock_rejected c m"
| "lock_step c Dispose = lock_dispose c"

abbreviation lock_run :: "lockController \<Rightarrow> lock_event list \<Rightarrow> lockController" where
  "lock_run \<equiv> foldl lock_step"

lemmas lock_simps = lock_acquire_def lock_publish_def upd_request_def lock_denied_def
  lock_granted_def lock_settled_def lock_rejected_def lock_release_def lock_dispose_def Let_def

text \<open>A request owns the controller while its generation is the latest.\<close>

definition lock_owns :: "lockController \<Rightarrow> nat \<Rightarrow> bool" where
  "lock_owns c m = (m = lk_generation c)"

definition lock_issued :: "lockController \<Rightarrow> nat \<Rightarrow> bool" where
  "lock_issued c m = (m \<le> lk_generation c)"

lemma lock_generation_mono: "lk_generation c \<le> lk_generation (lock_step c x)"
  by (cases x) (auto simp: lock_simps split: option.splits)

lemma lock_generation_jump:
  "lk_generation (lock_step c x) = lk_generation c \<or> lk_generation (lock_step c x) = Suc (lk_generation c)"
  by (cases x) (auto simp: lock_simps split: option.splits)

interpretation lock: ownership lock_step lock_owns lock_issued "\<lambda>_. True"
proof unfold_locales
  show "lock_issued (lock_step s x) a" if "lock_issued s a" for s a x
    using that lock_generation_mono [of s x] by (simp add: lock_issued_def)
  show "\<not> lock_owns (lock_step s x) a" if "lock_issued s a" "\<not> lock_owns s a" for s a x
    using that lock_generation_jump [of s x] by (auto simp: lock_issued_def lock_owns_def)
qed (auto simp: lock_owns_def lock_issued_def)

text \<open>The request an event of the environment is about.\<close>

fun event_request :: "lock_event \<Rightarrow> nat option" where
  "event_request (Denied m) = Some m"
| "event_request (Granted m) = Some m"
| "event_request (Settled m) = Some m"
| "event_request (Rejected m) = Some m"
| "event_request _ = None"

lemma stale_event_quiet:
  "event_request x = Some m \<Longrightarrow> \<not> lock_owns c m \<Longrightarrow> lk_state (lock_step c x) = lk_state c"
  by (cases x) (auto simp: lock_simps lock_owns_def split: option.splits)

definition lock_leaked :: "lockController \<Rightarrow> nat \<Rightarrow> bool" where
  "lock_leaked c m \<longleftrightarrow> (\<exists>r. lk_requests c m = Some r \<and> rq_granted r \<and> \<not> rq_released r)
     \<and> lk_release c \<noteq> Some m"

text \<open>
  A leak is permanent: nothing but the closure in \<open>release\<close> resolves a granted request's promise,
  and only that request's own grant stores the closure.
\<close>

lemma leaked_step:
  assumes "lock_leaked c m" and "lock_issued c m" and "x \<noteq> Granted m"
  shows "lock_leaked (lock_step c x) m"
  using assms
  by (cases x) (auto simp: lock_simps lock_leaked_def lock_issued_def split: option.splits)

lemma leaked_run:
  assumes "lock_leaked c m" and "lock_issued c m" and "Granted m \<notin> set xs"
  shows "lock_leaked (lock_run c xs) m"
  using assms
proof (induction xs arbitrary: c)
  case Nil
  then show ?case by simp
next
  case (Cons x xs)
  then show ?case by (auto intro!: Cons.IH leaked_step lock.issued_step)
qed

section \<open>Properties\<close>

text \<open>
  Once a later \<open>acquire\<close> or a \<open>dispose\<close> has superseded a request, nothing the browser still
  reports about that request (a refusal, a grant, a settled or a rejected promise), at any later
  moment, changes the ownership state the controller publishes.
\<close>
theorem superseded_request_is_quiet:
  "let c1 = lock_acquire (lock_run initial_lock history) key steal;
       m = lk_generation c1;
       c2 = lock_step c1 (case newer of None \<Rightarrow> Dispose | Some (k, st) \<Rightarrow> Acquire k st);
       c3 = lock_run c2 later
   in list_all (\<lambda>x. lk_state (lock_step c3 x) = lk_state c3) [Denied m, Granted m, Settled m, Rejected m]"
proof -
  let ?c1 = "lock_acquire (lock_run initial_lock history) key steal"
  let ?m = "lk_generation ?c1"
  let ?c2 = "lock_step ?c1 (case newer of None \<Rightarrow> Dispose | Some (k, st) \<Rightarrow> Acquire k st)"
  have "\<not> lock_owns ?c2 ?m"
    by (auto simp: lock_owns_def lock_simps split: option.splits)
  moreover have "lock_issued ?c2 ?m"
    by (rule lock.issued_step) (simp add: lock_issued_def)
  ultimately have "\<not> lock_owns (lock_run ?c2 later) ?m"
    by (intro lock.stale_forever) simp_all
  then have "lk_state (lock_step (lock_run ?c2 later) x) = lk_state (lock_run ?c2 later)"
    if "event_request x = Some ?m" for x
    using that stale_event_quiet by blast
  then show ?thesis unfolding Let_def by (simp del: lock_step.simps foldl_append)
qed

text \<open>A Session visit whose lock the browser grants, and whose promise it settles before the next.\<close>

definition visit :: "nat \<Rightarrow> string \<Rightarrow> lock_event list" where
  "visit n key = [Acquire key False, Granted (Suc n), Dispose, Settled (Suc n)]"

fun visits :: "nat \<Rightarrow> string list \<Rightarrow> lock_event list" where
  "visits n [] = []"
| "visits n (k # ks) = visit n k @ visits (n + 2) ks"

definition all_released :: "lockController \<Rightarrow> bool" where
  "all_released c \<longleftrightarrow> (\<forall>m r. lk_requests c m = Some r \<longrightarrow> rq_granted r \<longrightarrow> rq_released r)"

lemma visit_effect:
  assumes "all_released c" and "lk_generation c = n" and "lk_release c = None"
  shows "all_released (lock_run c (visit n k))" "lk_generation (lock_run c (visit n k)) = n + 2"
    "lk_release (lock_run c (visit n k)) = None" "lk_state (lock_run c (visit n k)) = Some Owner"
  using assms by (auto simp: visit_def lock_simps all_released_def)

lemma visits_released:
  "all_released c \<Longrightarrow> lk_generation c = n \<Longrightarrow> lk_release c = None
     \<Longrightarrow> all_released (lock_run c (visits n ks)) \<and> lk_release (lock_run c (visits n ks)) = None"
proof (induction ks arbitrary: c n)
  case Nil
  then show ?case by simp
next
  case (Cons k ks)
  note v = visit_effect [OF Cons.prems, of k]
  from Cons.IH [OF v(1) v(2) v(3)] show ?case by simp
qed

text \<open>
  Visiting Sessions one after the other, each granted and each promise settled before the next
  visit starts, leaves no lock held: every request that was ever granted has been released.
\<close>
theorem sequential_visits_release_every_lock:
  "all_released (lock_run initial_lock (visits 0 keys))
   \<and> lk_release (lock_run initial_lock (visits 0 keys)) = None"
  by (rule visits_released) (auto simp: initial_lock_def all_released_def)

text \<open>
  C33: The visits must not overlap. When the promise of the first lock settles after the second
  lock is granted, the settlement clears the release closure of the second: the controller then
  holds the second lock, its \<open>dispose\<close> does not release it, and no continuation in which the browser
  does not grant that same request again ever releases it.
\<close>
theorem overlapping_switch_leaks_the_lock:
  "lock_leaked (lock_run initial_lock
     ([Acquire a False, Granted 1, Dispose, Acquire b False, Granted 3, Settled 1, Dispose]
      @ removeAll (Granted 3) later)) 3"
proof -
  let ?c = "lock_run initial_lock
    [Acquire a False, Granted 1, Dispose, Acquire b False, Granted 3, Settled 1, Dispose]"
  have "lock_leaked ?c 3" "lock_issued ?c 3"
    by (simp_all add: lock_simps initial_lock_def lock_leaked_def lock_issued_def)
  then show ?thesis unfolding foldl_append by (rule leaked_run) simp
qed

text \<open>
  A controller that is disposed and reacquired before its first request is answered denies
  itself. The stale grant still takes the lock, so the browser refuses the current request, and
  the tab reports that its own Session is held elsewhere while it holds the lock.
\<close>
theorem remount_is_denied_by_its_own_grant:
  "let c = lock_run initial_lock [Acquire key False, Dispose, Acquire key False, Granted 1, Denied 3]
   in lk_state c = Some HeldElsewhere \<and> lk_generation c = 3
      \<and> map_option (\<lambda>r. (rq_name r, rq_granted r, rq_released r)) (lk_requests c 1)
        = Some (tabLockName key, True, False)
      \<and> map_option rq_name (lk_requests c 3) = Some (tabLockName key)"
  by (simp add: lock_simps initial_lock_def)

end
