(* ===== verification/TurnQueue.thy ===== *)
theory TurnQueue
  imports Lease "HOL-Library.Multiset"
begin

text \<open>
  The prompt queue of one Session, \<open>features/composer/turn-queue.ts\<close>: one active turn, a FIFO of
  pending turns, and the prompts of interrupted turns waiting for their own terminal. The interface
  \<open>turn_slots\<close> states the queue contract over the list of admitted turns; \<open>restageSteers\<close> of
  \<open>use-turn-controller.ts\<close> is the one caller that puts turns in front.
\<close>

record turnMedia =
  tm_path :: string
  tm_mime :: string
  tm_size_bytes :: jnum

datatype turnOrigin = Local | Adopted

record promptTurn =
  pt_turnId :: string
  pt_text :: string
  pt_review :: bool
  pt_origin :: "turnOrigin option"
  pt_reasoningEffort :: "string option"
  pt_media :: "turnMedia list option"

record pendingInterruptRestore =
  ir_sessionId :: string
  ir_turnId :: string
  ir_prompt :: string
  ir_media :: "turnMedia list option"

record turnQueue =
  q_pending :: "promptTurn list"
  q_interruptRestores :: "pendingInterruptRestore list"
  q_active :: "promptTurn option"

record queueTransition =
  qt_settled :: bool
  qt_next :: "promptTurn option"

definition new_queue :: turnQueue where
  "new_queue = \<lparr>q_pending = [], q_interruptRestores = [], q_active = None\<rparr>"

text \<open>
  Turns are copied on the way in and out (\<open>copyTurn\<close>), so the queue's own turns are never
  aliased; a copy is an equal value.
\<close>

definition enqueue :: "turnQueue \<Rightarrow> promptTurn \<Rightarrow> turnQueue \<times> bool" where
  "enqueue q t =
     (case q_active q of
        None \<Rightarrow> (q\<lparr>q_active := Some t\<rparr>, True)
      | Some _ \<Rightarrow> (q\<lparr>q_pending := q_pending q @ [t]\<rparr>, False))"

definition prependPending :: "turnQueue \<Rightarrow> promptTurn list \<Rightarrow> turnQueue" where
  "prependPending q ts = q\<lparr>q_pending := ts @ q_pending q\<rparr>"

definition restoreActive :: "turnQueue \<Rightarrow> promptTurn \<Rightarrow> bool \<Rightarrow> turnQueue \<times> bool" where
  "restoreActive q t preserve =
     (case q_active q of
        None \<Rightarrow> (q\<lparr>q_active := Some t\<rparr>, True)
      | Some a \<Rightarrow>
          if pt_turnId a = pt_turnId t then (q, True)
          else if \<not> preserve then (q, False)
          else (q\<lparr>q_pending := a # q_pending q, q_active := Some t\<rparr>, True))"

definition settle :: "turnQueue \<Rightarrow> string \<Rightarrow> turnQueue \<times> queueTransition" where
  "settle q i =
     (if map_option pt_turnId (q_active q) \<noteq> Some i
      then (q, \<lparr>qt_settled = False, qt_next = None\<rparr>)
      else (case q_pending q of
              [] \<Rightarrow> (q\<lparr>q_active := None\<rparr>, \<lparr>qt_settled = True, qt_next = None\<rparr>)
            | t # ts \<Rightarrow> (q\<lparr>q_active := Some t, q_pending := ts\<rparr>,
                         \<lparr>qt_settled = True, qt_next = Some t\<rparr>)))"

definition removePending :: "turnQueue \<Rightarrow> string \<Rightarrow> turnQueue \<times> bool" where
  "removePending q i =
     (case find_index (\<lambda>t. pt_turnId t = i) (q_pending q) of
        None \<Rightarrow> (q, False)
      | Some k \<Rightarrow> (q\<lparr>q_pending := remove_at k (q_pending q)\<rparr>, True))"

definition clear :: "turnQueue \<Rightarrow> turnQueue" where
  "clear q = q\<lparr>q_active := None, q_pending := [], q_interruptRestores := []\<rparr>"

definition stashInterruptPrompt ::
    "turnQueue \<Rightarrow> string \<Rightarrow> string \<Rightarrow> string \<Rightarrow> turnMedia list \<Rightarrow> turnQueue" where
  "stashInterruptPrompt q s i prompt media =
     (if trim prompt = [] \<and> media = [] then q
      else let entry = \<lparr>ir_sessionId = s, ir_turnId = i, ir_prompt = prompt,
                        ir_media = (if media = [] then None else Some media)\<rparr>
           in case find_index (\<lambda>p. ir_sessionId p = s) (q_interruptRestores q) of
                Some k \<Rightarrow> q\<lparr>q_interruptRestores := (q_interruptRestores q)[k := entry]\<rparr>
              | None \<Rightarrow> q\<lparr>q_interruptRestores := q_interruptRestores q @ [entry]\<rparr>)"

definition takeInterruptPrompt :: "turnQueue \<Rightarrow> string \<Rightarrow> turnQueue \<times> pendingInterruptRestore option" where
  "takeInterruptPrompt q i =
     (case find_index (\<lambda>p. ir_turnId p = i) (q_interruptRestores q) of
        None \<Rightarrow> (q, None)
      | Some k \<Rightarrow> (q\<lparr>q_interruptRestores := remove_at k (q_interruptRestores q)\<rparr>,
                  Some (q_interruptRestores q ! k)))"

definition queue_snapshot :: "turnQueue \<Rightarrow> promptTurn option \<times> promptTurn list" where
  "queue_snapshot q = (q_active q, q_pending q)"

text \<open>The queue part of \<open>restageSteers\<close>; \<open>attempted\<close> is the set of turns already sent.\<close>

definition restageSteers :: "turnQueue \<Rightarrow> string set \<Rightarrow> promptTurn list \<Rightarrow> turnQueue" where
  "restageSteers q attempted ts =
     (case ts of
        [] \<Rightarrow> q
      | t # rest \<Rightarrow>
          (case q_active q of
             None \<Rightarrow> prependPending (fst (restoreActive q t False)) rest
           | Some a \<Rightarrow>
               if pt_turnId a \<notin> attempted
               then prependPending (fst (restoreActive q t True)) rest
               else prependPending q ts))"

section \<open>The queue contract\<close>

locale turn_slots =
  fixes put :: "'q \<Rightarrow> 'a \<Rightarrow> 'q"
    and finish :: "'q \<Rightarrow> 'q"
    and items :: "'q \<Rightarrow> 'a list"
    and ok :: "'q \<Rightarrow> bool"
  assumes items_put: "ok q \<Longrightarrow> items (put q x) = items q @ [x]"
    and items_finish: "ok q \<Longrightarrow> items (finish q) = tl (items q)"
    and ok_put: "ok q \<Longrightarrow> ok (put q x)"
    and ok_finish: "ok q \<Longrightarrow> ok (finish q)"
begin

lemma ok_puts: "ok q \<Longrightarrow> ok (foldl put q xs)"
  by (induction xs arbitrary: q) (simp_all add: ok_put)

lemma items_puts: "ok q \<Longrightarrow> items (foldl put q xs) = items q @ xs"
  by (induction xs arbitrary: q) (simp_all add: items_put ok_put)

lemma ok_finishes: "ok q \<Longrightarrow> ok ((finish ^^ n) q)"
  by (induction n) (simp_all add: ok_finish)

lemma items_finishes: "ok q \<Longrightarrow> items ((finish ^^ n) q) = drop n (items q)"
  by (induction n) (simp_all add: items_finish ok_finishes drop_Suc tl_drop)

text \<open>First in, first out: after \<open>n\<close> terminals the head is the \<open>n\<close>-th admitted item.\<close>

lemma fifo:
  assumes "ok q" and "n < length (items q @ xs)"
  shows "hd (items ((finish ^^ n) (foldl put q xs))) = (items q @ xs) ! n"
  using assms by (simp add: items_finishes ok_puts items_puts hd_drop_conv_nth del: drop_append)

end

text \<open>
  The admitted turns in order, and the invariant that the active slot is filled first.
\<close>

definition queue_items :: "turnQueue \<Rightarrow> promptTurn list" where
  "queue_items q = (case q_active q of None \<Rightarrow> [] | Some t \<Rightarrow> [t]) @ q_pending q"

definition queue_ok :: "turnQueue \<Rightarrow> bool" where
  "queue_ok q \<longleftrightarrow> (q_active q = None \<longrightarrow> q_pending q = [])
     \<and> distinct (map ir_sessionId (q_interruptRestores q))"

definition queue_put :: "turnQueue \<Rightarrow> promptTurn \<Rightarrow> turnQueue" where
  "queue_put q t = fst (enqueue q t)"

text \<open>The terminal of the active turn.\<close>

definition queue_finish :: "turnQueue \<Rightarrow> turnQueue" where
  "queue_finish q =
     (case q_active q of None \<Rightarrow> q | Some t \<Rightarrow> fst (settle q (pt_turnId t)))"

lemmas queue_simps = queue_items_def queue_ok_def queue_put_def queue_finish_def enqueue_def
  settle_def restoreActive_def prependPending_def

interpretation slots: turn_slots queue_put queue_finish queue_items queue_ok
  by unfold_locales (auto simp: queue_simps split: option.splits list.splits)

section \<open>The queue as a list\<close>

datatype queue_op =
    QEnqueue promptTurn
  | QRestore promptTurn bool
  | QSettle string
  | QRemove string
  | QRestage "string set" "promptTurn list"
  | QStash string string string "turnMedia list"
  | QTake string
  | QClear

fun queue_step :: "turnQueue \<Rightarrow> queue_op \<Rightarrow> turnQueue" where
  "queue_step q (QEnqueue t) = fst (enqueue q t)"
| "queue_step q (QRestore t p) = fst (restoreActive q t p)"
| "queue_step q (QSettle i) = fst (settle q i)"
| "queue_step q (QRemove i) = fst (removePending q i)"
| "queue_step q (QRestage A ts) = restageSteers q A ts"
| "queue_step q (QStash s i p m) = stashInterruptPrompt q s i p m"
| "queue_step q (QTake i) = fst (takeInterruptPrompt q i)"
| "queue_step q QClear = clear q"

text \<open>
  The abstract queue is the list of admitted turns, its head being the active one. Removing a
  pending turn removes the first entry after the head that carries the id.
\<close>

fun remove_first :: "('a \<Rightarrow> bool) \<Rightarrow> 'a list \<Rightarrow> 'a list" where
  "remove_first P [] = []"
| "remove_first P (x # xs) = (if P x then xs else x # remove_first P xs)"

fun spec_step :: "promptTurn list \<Rightarrow> queue_op \<Rightarrow> promptTurn list" where
  "spec_step l (QEnqueue t) = l @ [t]"
| "spec_step l (QRestore t p) =
     (case l of
        [] \<Rightarrow> [t]
      | a # r \<Rightarrow> if pt_turnId a = pt_turnId t \<or> \<not> p then l else t # l)"
| "spec_step l (QSettle i) =
     (case l of [] \<Rightarrow> [] | a # r \<Rightarrow> if pt_turnId a = i then r else l)"
| "spec_step l (QRemove i) =
     (case l of [] \<Rightarrow> [] | a # r \<Rightarrow> a # remove_first (\<lambda>t. pt_turnId t = i) r)"
| "spec_step l (QRestage A ts) =
     (case ts of
        [] \<Rightarrow> l
      | t # rest \<Rightarrow>
          (case l of
             [] \<Rightarrow> ts
           | a # r \<Rightarrow>
               if pt_turnId a \<in> A then a # ts @ r
               else if pt_turnId a = pt_turnId t then a # rest @ r
               else t # rest @ a # r))"
| "spec_step l (QStash s i p m) = l"
| "spec_step l (QTake i) = l"
| "spec_step l QClear = []"

lemma remove_at_find_index:
  "find_index P xs = Some k \<Longrightarrow> remove_at k xs = remove_first P xs"
  by (induction xs arbitrary: k) (auto simp: remove_at_def split: if_splits)

lemma remove_first_none: "\<forall>x \<in> set xs. \<not> P x \<Longrightarrow> remove_first P xs = xs"
  by (induction xs) auto

lemma removePending_items:
  "queue_ok q \<Longrightarrow> queue_items (fst (removePending q i)) = spec_step (queue_items q) (QRemove i)"
  by (auto simp: removePending_def queue_simps remove_at_find_index remove_first_none
      find_index_None split: option.splits list.splits)

lemma restage_items:
  "queue_ok q \<Longrightarrow> queue_items (restageSteers q A ts) = spec_step (queue_items q) (QRestage A ts)"
  by (auto simp: restageSteers_def queue_simps split: option.splits list.splits)

text \<open>The interrupt store never touches the turns.\<close>

lemma stash_frame [simp]:
  "q_active (stashInterruptPrompt q s i p m) = q_active q"
  "q_pending (stashInterruptPrompt q s i p m) = q_pending q"
  by (auto simp: stashInterruptPrompt_def Let_def split: option.splits)

lemma take_frame [simp]:
  "q_active (fst (takeInterruptPrompt q i)) = q_active q"
  "q_pending (fst (takeInterruptPrompt q i)) = q_pending q"
  by (auto simp: takeInterruptPrompt_def split: option.splits)

lemma step_items: "queue_ok q \<Longrightarrow> queue_items (queue_step q x) = spec_step (queue_items q) x"
proof (cases x)
  case (QRemove i)
  then show "queue_ok q \<Longrightarrow> ?thesis" by (simp add: removePending_items del: spec_step.simps)
next
  case (QRestage A ts)
  then show "queue_ok q \<Longrightarrow> ?thesis" by (simp add: restage_items del: spec_step.simps)
qed (auto simp: queue_simps clear_def split: option.splits list.splits)

lemma stash_distinct:
  assumes "distinct (map ir_sessionId (q_interruptRestores q))"
  shows "distinct (map ir_sessionId (q_interruptRestores (stashInterruptPrompt q s i p m)))"
proof (cases "trim p = [] \<and> m = []")
  case True
  with assms show ?thesis by (simp add: stashInterruptPrompt_def)
next
  case False
  show ?thesis
  proof (cases "find_index (\<lambda>p. ir_sessionId p = s) (q_interruptRestores q)")
    case None
    moreover from None have "\<forall>p \<in> set (q_interruptRestores q). ir_sessionId p \<noteq> s"
      by (simp add: find_index_None)
    ultimately show ?thesis using False assms by (auto simp: stashInterruptPrompt_def Let_def)
  next
    case (Some k)
    then have "k < length (q_interruptRestores q)" and "ir_sessionId (q_interruptRestores q ! k) = s"
      using find_index_Some by fastforce+
    then have "map ir_sessionId ((q_interruptRestores q)[k := e]) = map ir_sessionId (q_interruptRestores q)"
      if "ir_sessionId e = s" for e
      using that by (metis list_update_id map_update)
    with False Some assms show ?thesis by (simp add: stashInterruptPrompt_def Let_def)
  qed
qed

lemma step_ok: "queue_ok q \<Longrightarrow> queue_ok (queue_step q x)"
proof (cases x)
  case (QStash s i p m)
  then show "queue_ok q \<Longrightarrow> ?thesis"
    using stash_distinct by (auto simp: queue_ok_def)
next
  case (QTake i)
  then show "queue_ok q \<Longrightarrow> ?thesis"
    by (auto simp: takeInterruptPrompt_def queue_ok_def distinct_map_remove_at split: option.splits)
next
  case (QRemove i)
  then show "queue_ok q \<Longrightarrow> ?thesis"
    by (auto simp: removePending_def queue_ok_def remove_at_def split: option.splits)
next
  case (QRestage A ts)
  then show "queue_ok q \<Longrightarrow> ?thesis"
    by (auto simp: restageSteers_def queue_simps split: option.splits list.splits)
qed (auto simp: queue_simps clear_def split: option.splits list.splits)

lemma new_queue_ok: "queue_ok new_queue"
  by (simp add: new_queue_def queue_ok_def)

lemma new_queue_items [simp]: "queue_items new_queue = []"
  by (simp add: new_queue_def queue_items_def)

lemma queue_run_ok: "queue_ok q \<Longrightarrow> queue_ok (foldl queue_step q xs)"
  by (induction xs arbitrary: q) (simp_all add: step_ok del: queue_step.simps)

lemma run_items: "queue_ok q \<Longrightarrow> queue_items (foldl queue_step q xs) = foldl spec_step (queue_items q) xs"
  by (induction xs arbitrary: q) (simp_all add: step_ok step_items del: queue_step.simps spec_step.simps)

section \<open>Properties\<close>

text \<open>
  C25: The queue is a list. From an empty queue, any run of the operations (submitting, restoring,
  settling, removing, restaging, interrupt bookkeeping, clearing) admits exactly the turns the list
  specification admits, in its order, and never keeps a pending turn while no turn is active.
\<close>
theorem queue_refines_list:
  "queue_items (foldl queue_step new_queue ops) = foldl spec_step [] ops
   \<and> queue_ok (foldl queue_step new_queue ops)"
  using run_items [OF new_queue_ok] queue_run_ok [OF new_queue_ok] by simp

text \<open>
  Prompts run in the order they were submitted: after \<open>n\<close> terminals of the active turn, the
  active turn is the \<open>n\<close>-th submitted one.
\<close>
theorem prompts_run_in_order:
  assumes "n < length ts"
  shows "q_active ((queue_finish ^^ n) (foldl queue_put new_queue ts)) = Some (ts ! n)"
proof -
  let ?q = "(queue_finish ^^ n) (foldl queue_put new_queue ts)"
  have ok: "queue_ok ?q" by (intro slots.ok_finishes slots.ok_puts new_queue_ok)
  have items: "queue_items ?q = drop n ts"
    by (simp add: slots.items_finishes slots.ok_puts slots.items_puts new_queue_ok)
  have "queue_items ?q = ts ! n # drop (Suc n) ts"
    using assms by (simp add: items Cons_nth_drop_Suc)
  then show ?thesis using ok
    by (cases "q_active ?q") (simp_all add: queue_items_def queue_ok_def)
qed

definition sample_turn :: "string \<Rightarrow> promptTurn" where
  "sample_turn i = \<lparr>pt_turnId = i, pt_text = i, pt_review = False, pt_origin = None,
     pt_reasoningEffort = None, pt_media = None\<rparr>"

lemma prompts_run_in_order_witness:
  "q_active ((queue_finish ^^ 1) (foldl queue_put new_queue (map sample_turn [''a'', ''b''])))
     = Some (sample_turn ''b'')"
  using prompts_run_in_order [of 1 "map sample_turn [''a'', ''b'']"] by simp

lemma settle_other: "map_option pt_turnId (q_active q) \<noteq> Some i \<Longrightarrow>
    settle q i = (q, \<lparr>qt_settled = False, qt_next = None\<rparr>)"
  by (simp add: settle_def)

text \<open>
  A terminal that does not name the active turn (a duplicate, a late one, one of another
  client) is refused and changes nothing; after a terminal that does, the same terminal delivered
  again is refused unless the next turn was submitted under the same id.
\<close>
theorem duplicate_terminal_refused:
  "(settle q i = (q, \<lparr>qt_settled = False, qt_next = None\<rparr>)) = (map_option pt_turnId (q_active q) \<noteq> Some i)
   \<and> (let (q', t) = settle q i in
        qt_settled t = (map_option pt_turnId (q_active q) = Some i)
        \<and> qt_settled (snd (settle q' i)) =
            (if qt_settled t then map_option pt_turnId (qt_next t) = Some i else False))"
  by (auto simp: settle_def split: list.splits)

definition interrupt_entry :: "string \<Rightarrow> string \<Rightarrow> string \<Rightarrow> turnMedia list \<Rightarrow> pendingInterruptRestore" where
  "interrupt_entry s i p m = \<lparr>ir_sessionId = s, ir_turnId = i, ir_prompt = p,
     ir_media = (if m = [] then None else Some m)\<rparr>"

lemma interrupt_entry_simps [simp]:
  "ir_sessionId (interrupt_entry s i p m) = s" "ir_turnId (interrupt_entry s i p m) = i"
  by (simp_all add: interrupt_entry_def)

lemma stash_cases:
  assumes d: "distinct (map ir_sessionId (q_interruptRestores q))" and n: "trim p \<noteq> [] \<or> m \<noteq> []"
  obtains (appended) "q_interruptRestores (stashInterruptPrompt q s i p m)
        = q_interruptRestores q @ [interrupt_entry s i p m]"
      "\<forall>r \<in> set (q_interruptRestores q). ir_sessionId r \<noteq> s"
  | (replaced) ys x zs where "q_interruptRestores q = ys @ x # zs" "ir_sessionId x = s"
      "\<forall>r \<in> set (ys @ zs). ir_sessionId r \<noteq> s"
      "q_interruptRestores (stashInterruptPrompt q s i p m) = ys @ interrupt_entry s i p m # zs"
proof (cases "find_index (\<lambda>r. ir_sessionId r = s) (q_interruptRestores q)")
  case None
  then have "\<forall>r \<in> set (q_interruptRestores q). ir_sessionId r \<noteq> s" by (simp add: find_index_None)
  moreover have "q_interruptRestores (stashInterruptPrompt q s i p m)
      = q_interruptRestores q @ [interrupt_entry s i p m]"
    using None n by (auto simp: stashInterruptPrompt_def Let_def interrupt_entry_def)
  ultimately show ?thesis by (intro appended)
next
  case (Some k)
  then obtain ys x zs where x: "q_interruptRestores q = ys @ x # zs" "length ys = k" "ir_sessionId x = s"
      "\<forall>y \<in> set ys. ir_sessionId y \<noteq> s"
    using find_index_splitD [OF Some] by auto
  moreover from d x(1,3) have "\<forall>r \<in> set (ys @ zs). ir_sessionId r \<noteq> s"
    by (auto simp: image_iff)
  moreover from n Some x
  have "q_interruptRestores (stashInterruptPrompt q s i p m) = ys @ interrupt_entry s i p m # zs"
    by (auto simp: stashInterruptPrompt_def Let_def interrupt_entry_def)
  ultimately show ?thesis by (intro replaced) auto
qed

text \<open>
  The interrupt store keeps at most one prompt per Session through any run of the queue, and
  stashing a prompt for a Session replaces the one stored for it: afterwards that Session's only
  entry is the new prompt, and an empty prompt without attachments leaves the old one.
\<close>
theorem one_interrupt_prompt_per_session:
  "let q = foldl queue_step new_queue ops; q' = stashInterruptPrompt q s i p m in
   distinct (map ir_sessionId (q_interruptRestores q))
   \<and> filter (\<lambda>r. ir_sessionId r = s) (q_interruptRestores q') =
       (if trim p = [] \<and> m = [] then filter (\<lambda>r. ir_sessionId r = s) (q_interruptRestores q)
        else [interrupt_entry s i p m])
   \<and> filter (\<lambda>r. ir_sessionId r \<noteq> s) (q_interruptRestores q')
       = filter (\<lambda>r. ir_sessionId r \<noteq> s) (q_interruptRestores q)"
proof -
  let ?q = "foldl queue_step new_queue ops"
  have d: "distinct (map ir_sessionId (q_interruptRestores ?q))"
    using queue_run_ok [OF new_queue_ok] by (simp add: queue_ok_def)
  show ?thesis
  proof (cases "trim p = [] \<and> m = []")
    case True
    with d show ?thesis by (simp add: stashInterruptPrompt_def)
  next
    case False
    then have "trim p \<noteq> [] \<or> m \<noteq> []" by simp
    with d show ?thesis
      by (cases rule: stash_cases [where s = s and i = i]) (use False d in \<open>auto simp: Let_def\<close>)
  qed
qed

text \<open>
  An interrupted prompt comes back exactly once. After the prompt of a turn is stashed, that
  turn's terminal takes the stashed prompt, leaves no entry of its Session, and leaves the entries
  of every other Session as they were.
\<close>
theorem interrupted_prompt_restored_once:
  assumes "queue_ok q" and "trim p \<noteq> [] \<or> m \<noteq> []"
    and "\<forall>r \<in> set (q_interruptRestores q). ir_turnId r = i \<longrightarrow> ir_sessionId r = s"
  shows "let (q', taken) = takeInterruptPrompt (stashInterruptPrompt q s i p m) i in
     taken = Some (interrupt_entry s i p m)
     \<and> q_interruptRestores q' = filter (\<lambda>r. ir_sessionId r \<noteq> s) (q_interruptRestores q)
     \<and> takeInterruptPrompt q' i = (q', None)"
proof -
  have d: "distinct (map ir_sessionId (q_interruptRestores q))"
    using assms(1) by (simp add: queue_ok_def)
  from d assms(2) show ?thesis
  proof (cases rule: stash_cases [where s = s and i = i])
    case appended
    with assms(3) have f: "\<forall>r \<in> set (q_interruptRestores q). ir_turnId r \<noteq> i" by blast
    then have "find_index (\<lambda>r. ir_turnId r = i) (q_interruptRestores q) = None"
      by (simp add: find_index_None)
    moreover have "filter (\<lambda>r. ir_sessionId r \<noteq> s) (q_interruptRestores q) = q_interruptRestores q"
      using appended(2) by (intro filter_True)
    ultimately show ?thesis using f appended by (simp add: takeInterruptPrompt_def)
  next
    case (replaced ys x zs)
    with assms(3) have f: "\<forall>r \<in> set (ys @ zs). ir_turnId r \<noteq> i" by auto
    then have "find_index (\<lambda>r. ir_turnId r = i) (ys @ zs) = None"
      by (simp add: find_index_None)
    moreover have "filter (\<lambda>r. ir_sessionId r \<noteq> s) (ys @ zs) = ys @ zs"
      using replaced(3) by (intro filter_True)
    ultimately show ?thesis using f replaced by (simp add: takeInterruptPrompt_def)
  qed
qed

lemma interrupted_prompt_restored_once_witness:
  "let (q', taken) = takeInterruptPrompt (stashInterruptPrompt
       (new_queue\<lparr>q_interruptRestores := [interrupt_entry ''s'' ''t0'' ''old'' [], interrupt_entry ''u'' ''t9'' ''b'' []]\<rparr>)
       ''s'' ''t1'' ''new'' []) ''t1'' in
     taken = Some (interrupt_entry ''s'' ''t1'' ''new'' [])
     \<and> q_interruptRestores q' = filter (\<lambda>r. ir_sessionId r \<noteq> ''s'')
         (q_interruptRestores (new_queue\<lparr>q_interruptRestores :=
            [interrupt_entry ''s'' ''t0'' ''old'' [], interrupt_entry ''u'' ''t9'' ''b'' []]\<rparr>))
     \<and> takeInterruptPrompt q' ''t1'' = (q', None)"
proof (rule interrupted_prompt_restored_once)
  show "trim ''new'' \<noteq> [] \<or> [] \<noteq> []" by code_simp
qed (simp_all add: queue_ok_def new_queue_def)

text \<open>
  Restaging returned steers loses no admitted turn and duplicates none: when their ids are new
  to the queue, the admitted turns afterwards are those before plus the steers, and both the queued
  turns and the steers keep their own order.
\<close>
theorem restage_keeps_every_turn:
  assumes "queue_ok q" and "distinct (map pt_turnId (queue_items q @ ts))"
  shows "let q' = restageSteers q attempted ts in
     mset (queue_items q') = mset (queue_items q) + mset ts
     \<and> filter (\<lambda>t. t \<in> set (queue_items q)) (queue_items q') = queue_items q
     \<and> filter (\<lambda>t. t \<in> set ts) (queue_items q') = ts
     \<and> distinct (map pt_turnId (queue_items q'))"
proof -
  let ?l = "queue_items q" and ?l' = "queue_items (restageSteers q attempted ts)"
  have l': "?l' = spec_step ?l (QRestage attempted ts)" by (rule restage_items [OF assms(1)])
  have apart: "set ?l \<inter> set ts = {}" using assms(2) by auto
  have "\<exists>k \<le> 1. ?l' = take k ?l @ ts @ drop k ?l"
  proof (cases ts)
    case Nil
    with l' show ?thesis by (intro exI [of _ 0]) simp
  next
    case (Cons t rest)
    show ?thesis
    proof (cases ?l)
      case Nil
      with l' Cons show ?thesis by (intro exI [of _ 0]) simp
    next
      case l: (Cons a r)
      with assms(2) Cons have "pt_turnId a \<noteq> pt_turnId t" by auto
      with l' l Cons show ?thesis
        by (intro exI [of _ "if pt_turnId a \<in> attempted then 1 else 0"]) simp
    qed
  qed
  then obtain k where k: "?l' = take k ?l @ ts @ drop k ?l" by blast
  have split: "take k ?l @ drop k ?l = ?l" by simp
  have "mset ?l' = mset (take k ?l @ drop k ?l) + mset ts" unfolding k by (simp del: append_take_drop_id)
  then have "mset ?l' = mset ?l + mset ts" by (simp only: split)
  moreover have "filter (\<lambda>t. t \<in> set ?l) ?l' = take k ?l @ drop k ?l"
  proof -
    have "filter (\<lambda>t. t \<in> set ?l) (take k ?l) = take k ?l" "filter (\<lambda>t. t \<in> set ?l) (drop k ?l) = drop k ?l"
      by (auto intro!: filter_True dest: in_set_takeD in_set_dropD)
    moreover have "filter (\<lambda>t. t \<in> set ?l) ts = []"
      using apart by (auto simp: filter_empty_conv)
    ultimately show ?thesis unfolding k by (simp del: append_take_drop_id)
  qed
  then have "filter (\<lambda>t. t \<in> set ?l) ?l' = ?l" by (simp only: split)
  moreover have "filter (\<lambda>t. t \<in> set ts) ?l' = ts"
  proof -
    have "filter (\<lambda>t. t \<in> set ts) (take k ?l) = []" "filter (\<lambda>t. t \<in> set ts) (drop k ?l) = []"
      using apart by (auto simp: filter_empty_conv dest: in_set_takeD in_set_dropD)
    then show ?thesis unfolding k by simp
  qed
  moreover have "distinct (map pt_turnId ?l')"
  proof -
    have "mset (map pt_turnId ?l') = mset (map pt_turnId (?l @ ts))"
      using calculation(1) by simp
    then show ?thesis using assms(2) by (metis mset_eq_imp_distinct_iff)
  qed
  ultimately show ?thesis by (simp add: Let_def)
qed

lemma restage_keeps_every_turn_witness:
  "let q' = restageSteers (foldl queue_put new_queue [sample_turn ''a'', sample_turn ''b'']) {''a''}
              [sample_turn ''c''] in
     mset (queue_items q') = mset [sample_turn ''a'', sample_turn ''b''] + mset [sample_turn ''c'']
     \<and> filter (\<lambda>t. t \<in> set [sample_turn ''a'', sample_turn ''b'']) (queue_items q')
         = [sample_turn ''a'', sample_turn ''b'']
     \<and> filter (\<lambda>t. t \<in> set [sample_turn ''c'']) (queue_items q') = [sample_turn ''c'']
     \<and> distinct (map pt_turnId (queue_items q'))"
  using restage_keeps_every_turn [of "foldl queue_put new_queue [sample_turn ''a'', sample_turn ''b'']"
      "[sample_turn ''c'']" "{''a''}"]
  by (simp add: slots.ok_puts [OF new_queue_ok, of "[x, y]" for x y, simplified]
      slots.items_puts [OF new_queue_ok, of "[x, y]" for x y, simplified] sample_turn_def)

end
