(* ===== verification/Interaction.thy ===== *)
theory Interaction
  imports Wire
begin

text \<open>
  \<open>packages/client/src/interaction.ts\<close>: capability queries and the decoders of approvals, user
  questions, file-mutation notices and diff-preview references. Each decoder looks only at the
  places the protocol defines and returns \<open>None\<close> for everything else.
\<close>

section \<open>Method names (\<open>generated/core-contract.ts\<close>)\<close>

abbreviation "M_APPROVAL_REQUESTED \<equiv> ''approval/requested''"
abbreviation "M_APPROVAL_DECIDED \<equiv> ''approval/decided''"
abbreviation "M_APPROVAL_AUTO_RESOLVED \<equiv> ''approval/auto_resolved''"
abbreviation "M_APPROVAL_CANCELLED \<equiv> ''approval/cancelled''"
abbreviation "M_APPROVAL_RESPOND \<equiv> ''approval/respond''"
abbreviation "M_USER_QUESTION_REQUESTED \<equiv> ''user_question/requested''"
abbreviation "M_USER_QUESTION_RESPOND \<equiv> ''user_question/respond''"
abbreviation "M_PROGRESS_UPDATED \<equiv> ''progress/updated''"
abbreviation "M_PROJECTION_ENVELOPE \<equiv> ''projection/envelope''"
abbreviation "M_REPLAY_LOSSY \<equiv> ''protocol/replay_lossy''"
abbreviation "M_PEER_STAGED \<equiv> ''peer/staged''"
abbreviation "M_PEER_CLOSED \<equiv> ''peer/closed''"
abbreviation "M_TURN_STATE_GET \<equiv> ''turn/state/get''"
abbreviation "F_USER_QUESTION_V1 \<equiv> ''user_question.v1''"
abbreviation "F_TURN_STATE_GET_V1 \<equiv> ''state.turn_state_get.v1''"

section \<open>Capabilities\<close>

record uiProtocolCapabilities =
  cap_supported_methods :: "string list"
  cap_supported_features :: "string list option"
  cap_unsupported :: "string list option"

text \<open>
  \<open>cap_unsupported\<close> holds the \<open>method\<close> of each entry of \<open>unsupported\<close>, the only part the query
  reads.
\<close>

definition supportsMethod :: "uiProtocolCapabilities option \<Rightarrow> string \<Rightarrow> bool" where
  "supportsMethod caps m =
     (case caps of
        None \<Rightarrow> False
      | Some c \<Rightarrow>
          if m \<notin> set (cap_supported_methods c) then False
          else \<not> (case cap_unsupported c of None \<Rightarrow> False | Some us \<Rightarrow> m \<in> set us))"

definition supportsFeature :: "uiProtocolCapabilities option \<Rightarrow> string \<Rightarrow> bool" where
  "supportsFeature caps f =
     (case caps of
        None \<Rightarrow> False
      | Some c \<Rightarrow> (case cap_supported_features c of None \<Rightarrow> False | Some fs \<Rightarrow> f \<in> set fs))"

definition supportsTurnStateGet :: "uiProtocolCapabilities option \<Rightarrow> bool" where
  "supportsTurnStateGet caps \<longleftrightarrow>
     supportsMethod caps M_TURN_STATE_GET \<and> supportsFeature caps F_TURN_STATE_GET_V1"

section \<open>Approvals\<close>

record approvalRequested =
  ap_sessionId :: string
  ap_approvalId :: string
  ap_turnId :: string
  ap_toolName :: string
  ap_title :: string
  ap_body :: string
  ap_topic :: "string option"
  ap_approvalKind :: "string option"
  ap_risk :: "string option"
  ap_typedDetails :: unknown
  ap_renderHints :: unknown

definition parseApprovalRequested :: "rpcNotification \<Rightarrow> approvalRequested option" where
  "parseApprovalRequested n =
     (if nt_method n \<noteq> M_APPROVAL_REQUESTED then None
      else case as_record (nt_params n) of
             None \<Rightarrow> None
           | Some o' \<Rightarrow>
               (case (as_string (fld o' ''session_id''), as_string (fld o' ''approval_id''),
                      as_string (fld o' ''turn_id''), as_string (fld o' ''tool_name''),
                      as_string (fld o' ''title''), as_string (fld o' ''body'')) of
                  (Some s, Some a, Some t, Some tool, Some title, Some body) \<Rightarrow>
                    Some \<lparr>ap_sessionId = s, ap_approvalId = a, ap_turnId = t, ap_toolName = tool,
                          ap_title = title, ap_body = body,
                          ap_topic = as_string (fld o' ''topic''),
                          ap_approvalKind = as_string (fld o' ''approval_kind''),
                          ap_risk = as_string (fld o' ''risk''),
                          ap_typedDetails = fld o' ''typed_details'',
                          ap_renderHints = fld o' ''render_hints''\<rparr>
                | _ \<Rightarrow> None))"

definition approvalResolutionId :: "rpcNotification \<Rightarrow> string option" where
  "approvalResolutionId n =
     (if nt_method n \<noteq> M_APPROVAL_DECIDED \<and> nt_method n \<noteq> M_APPROVAL_AUTO_RESOLVED
         \<and> nt_method n \<noteq> M_APPROVAL_CANCELLED
      then None
      else case as_record (nt_params n) of
             None \<Rightarrow> None
           | Some o' \<Rightarrow> as_string (fld o' ''approval_id''))"

text \<open>A string that is a protocol UUID (\<open>isPreviewId\<close>), as the value it is.\<close>

definition preview_id :: "unknown \<Rightarrow> string option" where
  "preview_id v = (if isProtocolUuid v then as_string v else None)"

definition approvalDiffPreviewId :: "unknown \<Rightarrow> string option" where
  "approvalDiffPreviewId typedDetails =
     (case as_record typedDetails of
        None \<Rightarrow> None
      | Some d \<Rightarrow>
          (case as_record (fld d ''diff'') of
             None \<Rightarrow> None
           | Some diff \<Rightarrow> preview_id (fld diff ''preview_id'')))"

text \<open>The \<open>metadata\<close> object when there is one, the object itself otherwise.\<close>

definition metadata_of :: "fields \<Rightarrow> fields" where
  "metadata_of o' = (case as_record (fld o' ''metadata'') of None \<Rightarrow> o' | Some m \<Rightarrow> m)"

definition progressPreviewId :: "unknown \<Rightarrow> string option" where
  "progressPreviewId v =
     (case as_record v of
        None \<Rightarrow> None
      | Some o' \<Rightarrow>
          (case as_record (fld (metadata_of o') ''file_mutation'') of
             None \<Rightarrow> None
           | Some m \<Rightarrow> preview_id (fld m ''preview_id'')))"

definition notificationDiffPreviewId :: "rpcNotification \<Rightarrow> string option" where
  "notificationDiffPreviewId n =
     (if nt_method n = M_APPROVAL_REQUESTED
      then (case parseApprovalRequested n of
              None \<Rightarrow> None
            | Some a \<Rightarrow> approvalDiffPreviewId (ap_typedDetails a))
      else if nt_method n = M_PROGRESS_UPDATED then progressPreviewId (nt_params n)
      else if nt_method n \<noteq> M_PROJECTION_ENVELOPE then None
      else case as_record (nt_params n) of
             None \<Rightarrow> None
           | Some o' \<Rightarrow>
               (case as_record (fld o' ''payload'') of
                  None \<Rightarrow> None
                | Some p \<Rightarrow> progressPreviewId (fld p ''data'')))"

section \<open>File mutations\<close>

datatype mutationOperation = MCreate | MWrite | MModify | MDelete

record fileMutationNotice =
  fm_sessionId :: "string option"
  fm_turnId :: "string option"
  fm_path :: string
  fm_operation :: mutationOperation
  fm_previewId :: "string option"
  fm_bytesWritten :: "nat option"

text \<open>An operation this build does not know reads as modify.\<close>

definition mutation_operation :: "unknown \<Rightarrow> mutationOperation" where
  "mutation_operation v =
     (if v = Some (JStr ''create'') then MCreate
      else if v = Some (JStr ''write'') then MWrite
      else if v = Some (JStr ''delete'') then MDelete
      else MModify)"

definition nonempty_text :: "unknown \<Rightarrow> string option" where
  "nonempty_text v =
     (case as_string v of None \<Rightarrow> None | Some s \<Rightarrow> if s = [] then None else Some s)"

definition notice_data :: "rpcNotification \<Rightarrow> unknown option" where
  "notice_data n =
     (if nt_method n = M_PROGRESS_UPDATED then Some (nt_params n)
      else if nt_method n = M_PROJECTION_ENVELOPE
      then Some (case as_record (nt_params n) of
                   None \<Rightarrow> Some JNull
                 | Some o' \<Rightarrow>
                     (case as_record (fld o' ''payload'') of
                        None \<Rightarrow> Some JNull
                      | Some p \<Rightarrow> fld p ''data''))
      else None)"

definition parseFileMutationNotice :: "rpcNotification \<Rightarrow> fileMutationNotice option" where
  "parseFileMutationNotice n =
     (case notice_data n of
        None \<Rightarrow> None
      | Some data \<Rightarrow>
          (case as_record data of
             None \<Rightarrow> None
           | Some d \<Rightarrow>
               (case as_record (fld (metadata_of d) ''file_mutation'') of
                  None \<Rightarrow> None
                | Some m \<Rightarrow>
                    (case as_string (fld m ''path'') of
                       None \<Rightarrow> None
                     | Some raw \<Rightarrow>
                         let path = trim raw;
                             record = (case as_record (nt_params n) of None \<Rightarrow> [] | Some r \<Rightarrow> r)
                         in if path = [] \<or> length path > 4096 \<or> list_ex js_control path then None
                            else Some \<lparr>fm_sessionId = nonempty_text (fld record ''session_id''),
                                   fm_turnId = nonempty_text (fld record ''turn_id''),
                                   fm_path = path,
                                   fm_operation = mutation_operation (fld m ''operation''),
                                   fm_previewId = preview_id (fld m ''preview_id''),
                                   fm_bytesWritten = nonneg_int (fld m ''bytes_written'')\<rparr>))))"

section \<open>User questions\<close>

record questionOption =
  qo_label :: string
  qo_description :: string

record userQuestion =
  uq_header :: string
  uq_question :: string
  uq_options :: "questionOption list"
  uq_multiSelect :: bool
  uq_allowFreeText :: bool

record userQuestionRequested =
  qr_sessionId :: string
  qr_questionId :: string
  qr_turnId :: string
  qr_title :: string
  qr_body :: string
  qr_questions :: "userQuestion list"
  qr_topic :: "string option"

definition parseQuestionOption :: "unknown \<Rightarrow> questionOption option" where
  "parseQuestionOption v =
     (case as_record v of
        None \<Rightarrow> None
      | Some o' \<Rightarrow>
          (case (as_string (fld o' ''label''), as_string (fld o' ''description'')) of
             (Some l, Some d) \<Rightarrow> Some \<lparr>qo_label = l, qo_description = d\<rparr>
           | _ \<Rightarrow> None))"

definition parseQuestion :: "unknown \<Rightarrow> userQuestion option" where
  "parseQuestion v =
     (case as_record v of
        None \<Rightarrow> None
      | Some o' \<Rightarrow>
          (case (as_string (fld o' ''header''), as_string (fld o' ''question''),
                 as_array (fld o' ''options'')) of
             (Some h, Some q, Some opts) \<Rightarrow>
               (case those (map (\<lambda>e. parseQuestionOption (Some e)) opts) of
                  None \<Rightarrow> None
                | Some os \<Rightarrow> Some \<lparr>uq_header = h, uq_question = q, uq_options = os,
                    uq_multiSelect = (fld o' ''multi_select'' = Some (JBool True)),
                    uq_allowFreeText = (fld o' ''allow_free_text'' = Some (JBool True))\<rparr>)
           | _ \<Rightarrow> None))"

definition parseUserQuestionRequested :: "rpcNotification \<Rightarrow> userQuestionRequested option" where
  "parseUserQuestionRequested n =
     (if nt_method n \<noteq> M_USER_QUESTION_REQUESTED then None
      else case as_record (nt_params n) of
             None \<Rightarrow> None
           | Some o' \<Rightarrow>
               (case (as_string (fld o' ''session_id''), as_string (fld o' ''question_id''),
                      as_string (fld o' ''turn_id''), as_string (fld o' ''title''),
                      as_string (fld o' ''body''), as_array (fld o' ''questions'')) of
                  (Some s, Some q, Some t, Some title, Some body, Some qs) \<Rightarrow>
                    (case those (map (\<lambda>e. parseQuestion (Some e)) qs) of
                       None \<Rightarrow> None
                     | Some questions \<Rightarrow>
                         Some \<lparr>qr_sessionId = s, qr_questionId = q, qr_turnId = t,
                               qr_title = title, qr_body = body, qr_questions = questions,
                               qr_topic = as_string (fld o' ''topic'')\<rparr>)
                | _ \<Rightarrow> None))"

lemma parseFileMutationNotice_path:
  "parseFileMutationNotice n = Some f \<Longrightarrow>
     fm_path f \<noteq> [] \<and> length (fm_path f) \<le> 4096 \<and> \<not> list_ex js_control (fm_path f)"
  by (auto simp: parseFileMutationNotice_def Let_def split: option.splits if_splits)

end
