(* ===== verification/SessionScope.thy ===== *)
theory SessionScope
  imports Interaction
begin

text \<open>
  Which notifications belong to a Session: \<open>features/session/scope.ts\<close>. A Session key is
  \<open>base\<close> or \<open>base#topic\<close>; an event carries its key and, optionally, its topic.
\<close>

definition normalizedTopic :: "string option \<Rightarrow> string option" where
  "normalizedTopic t =
     (case t of None \<Rightarrow> None | Some s \<Rightarrow> if trim s = [] then None else Some (trim s))"

definition matchesSessionScope :: "string \<Rightarrow> string \<Rightarrow> string option \<Rightarrow> bool" where
  "matchesSessionScope expected received topic =
     (let separator = index_of CHR ''#'' expected;
          expectedTopic = (case separator of
                             None \<Rightarrow> None
                           | Some i \<Rightarrow> normalizedTopic (Some (drop (Suc i) expected)));
          receivedTopic = normalizedTopic topic
      in if received = expected
         then receivedTopic = None \<or> receivedTopic = expectedTopic
         else (case separator of
                 None \<Rightarrow> False
               | Some i \<Rightarrow> expectedTopic \<noteq> None \<and> received = take i expected
                          \<and> receivedTopic = expectedTopic))"

definition notificationMatchesSessionScope :: "rpcNotification \<Rightarrow> string \<Rightarrow> bool" where
  "notificationMatchesSessionScope n expected =
     (let peerLifecycle = (nt_method n = M_PEER_STAGED \<or> nt_method n = M_PEER_CLOSED)
      in case as_record (nt_params n) of
           None \<Rightarrow> \<not> peerLifecycle
         | Some o' \<Rightarrow>
             (case fld o' ''session_id'' of
                None \<Rightarrow> \<not> peerLifecycle
              | Some _ \<Rightarrow>
                  (case as_string (fld o' ''session_id'') of
                     None \<Rightarrow> False
                   | Some received \<Rightarrow>
                       if peerLifecycle then received = expected
                       else if fld o' ''topic'' \<noteq> None \<and> fld o' ''topic'' \<noteq> Some JNull
                               \<and> as_string (fld o' ''topic'') = None
                       then False
                       else matchesSessionScope expected received (as_string (fld o' ''topic'')))))"

lemma scope_of_topicless:
  "CHR ''#'' \<notin> set e \<Longrightarrow> matchesSessionScope e r t \<longleftrightarrow> r = e \<and> normalizedTopic t = None"
  by (auto simp: matchesSessionScope_def index_of_None [symmetric])

lemma scope_of_topic:
  assumes "CHR ''#'' \<notin> set b"
  shows "matchesSessionScope (b @ CHR ''#'' # tp) r t \<longleftrightarrow>
     r = b @ CHR ''#'' # tp \<and> normalizedTopic t \<in> {None, normalizedTopic (Some tp)}
     \<or> r = b \<and> normalizedTopic (Some tp) \<noteq> None \<and> normalizedTopic t = normalizedTopic (Some tp)"
  by (auto simp: matchesSessionScope_def Let_def index_of_append [OF assms])

section \<open>Properties\<close>

lemma not_string: "\<forall>s. y \<noteq> JStr s \<Longrightarrow> as_string (Some y) = None"
  by (cases y) auto

text \<open>
  C36: Two Sessions with the same base but different topics never receive each other's events: an
  event that names its topic and matches the Session \<open>b#t\<close> does not match \<open>b#t'\<close>, nor the
  topicless Session \<open>b\<close>, whichever way (full key, or base and topic) the event is addressed.
\<close>
theorem topics_are_isolated:
  assumes base: "CHR ''#'' \<notin> set b"
    and differ: "normalizedTopic (Some t) \<noteq> normalizedTopic (Some t')"
    and event: "normalizedTopic topic \<noteq> None"
    and mine: "matchesSessionScope (b @ CHR ''#'' # t) received topic"
  shows "\<not> matchesSessionScope (b @ CHR ''#'' # t') received topic
     \<and> \<not> matchesSessionScope b received topic"
  using assms by (auto simp: scope_of_topic scope_of_topicless)

lemma topics_are_isolated_witness:
  "\<not> matchesSessionScope (''octos'' @ CHR ''#'' # ''docs'') ''octos'' (Some ''web'')
   \<and> \<not> matchesSessionScope ''octos'' ''octos'' (Some ''web'')"
proof (rule topics_are_isolated [of _ "''web''"])
  show "normalizedTopic (Some ''web'') \<noteq> normalizedTopic (Some ''docs'')" by code_simp
  show "normalizedTopic (Some ''web'') \<noteq> None" by code_simp
  show "matchesSessionScope (''octos'' @ CHR ''#'' # ''web'') ''octos'' (Some ''web'')" by code_simp
qed simp_all

text \<open>
  The scope predicate is exactly the documented addressing: a topicless Session takes only
  events with its key and no topic; a topic Session takes events with its full key and either no
  topic or its own, and events with its base key and its own topic, provided the topic is not blank.
\<close>
theorem session_scope_exact:
  assumes "CHR ''#'' \<notin> set b"
  shows "(matchesSessionScope b r t \<longleftrightarrow> r = b \<and> normalizedTopic t = None)
   \<and> (matchesSessionScope (b @ CHR ''#'' # tp) r t \<longleftrightarrow>
        r = b @ CHR ''#'' # tp \<and> normalizedTopic t \<in> {None, normalizedTopic (Some tp)}
        \<or> r = b \<and> normalizedTopic (Some tp) \<noteq> None \<and> normalizedTopic t = normalizedTopic (Some tp))"
  using assms scope_of_topicless scope_of_topic by simp

lemma session_scope_exact_witness:
  "(matchesSessionScope ''octos'' ''octos'' None \<longleftrightarrow> ''octos'' = ''octos'' \<and> normalizedTopic None = None)
   \<and> (matchesSessionScope (''octos'' @ CHR ''#'' # ''web'') ''octos'' (Some '' web '') \<longleftrightarrow>
        ''octos'' = ''octos'' @ CHR ''#'' # ''web''
          \<and> normalizedTopic (Some '' web '') \<in> {None, normalizedTopic (Some ''web'')}
        \<or> ''octos'' = ''octos'' \<and> normalizedTopic (Some ''web'') \<noteq> None
          \<and> normalizedTopic (Some '' web '') = normalizedTopic (Some ''web''))"
  using session_scope_exact [of "''octos''" "''octos''"] by simp

text \<open>
  Staging and closing a peer is routed by the exact Session key only: such a notification is
  delivered to the Session its \<open>session_id\<close> names and to no other, whatever topic it carries, and
  one without a string \<open>session_id\<close> is delivered to none.
\<close>
theorem peer_lifecycle_routed_exactly:
  "notificationMatchesSessionScope \<lparr>nt_method = (if closed then M_PEER_CLOSED else M_PEER_STAGED),
       nt_params = params\<rparr> expected
   \<longleftrightarrow> (\<exists>o'. params = Some (JObj o') \<and> fld o' ''session_id'' = Some (JStr expected))"
  by (auto simp: notificationMatchesSessionScope_def not_string split: option.splits)

end
