(* ===== verification/Projection.thy ===== *)
theory Projection
  imports Interaction
begin

text \<open>
  Canonical projection envelopes: the payload guard of \<open>projection-payload.ts\<close> and the envelope
  decoder of \<open>projection.ts\<close> in \<open>packages/client/src\<close>.
\<close>

section \<open>Payload guards (\<open>projection-payload.ts\<close>)\<close>

definition is_str :: "unknown \<Rightarrow> bool" where
  "is_str v = (as_string v \<noteq> None)"

definition optional_ok :: "unknown \<Rightarrow> (unknown \<Rightarrow> bool) \<Rightarrow> bool" where
  "optional_ok v check = (v = None \<or> check v)"

definition nullable_ok :: "unknown \<Rightarrow> (unknown \<Rightarrow> bool) \<Rightarrow> bool" where
  "nullable_ok v check = (v = Some JNull \<or> optional_ok v check)"

definition isFileRef :: "unknown \<Rightarrow> bool" where
  "isFileRef v =
     (case as_record v of
        None \<Rightarrow> False
      | Some o' \<Rightarrow> is_str (fld o' ''path'') \<and> is_str (fld o' ''mime'')
               \<and> isNonNegativeInteger (fld o' ''size_bytes''))"

definition isMessageMeta :: "unknown \<Rightarrow> bool" where
  "isMessageMeta v =
     (case as_record v of
        None \<Rightarrow> False
      | Some o' \<Rightarrow> isNonEmptyString (fld o' ''message_id'')
               \<and> optional_ok (fld o' ''persisted_at'') is_str
               \<and> optional_ok (fld o' ''media'') isStringArray)"

definition isAttachmentOwner :: "unknown \<Rightarrow> bool" where
  "isAttachmentOwner v =
     (case as_record v of
        None \<Rightarrow> False
      | Some o' \<Rightarrow> list_all (\<lambda>k. nullable_ok (fld o' k) isNonEmptyString)
                 [''assistant_segment_id'', ''tool_call_id''])"

definition isTerminalError :: "unknown \<Rightarrow> bool" where
  "isTerminalError v =
     (case as_record v of
        None \<Rightarrow> False
      | Some o' \<Rightarrow> is_str (fld o' ''code'') \<and> is_str (fld o' ''message''))"

definition isTokenUsage :: "unknown \<Rightarrow> bool" where
  "isTokenUsage v =
     (case as_record v of
        None \<Rightarrow> False
      | Some o' \<Rightarrow> list_all (\<lambda>k. optional_ok (fld o' k) isNonNegativeInteger)
                 [''input_tokens'', ''output_tokens'', ''reasoning_tokens'',
                  ''cache_read_tokens'', ''cache_write_tokens''])"

definition string_in :: "unknown \<Rightarrow> string list \<Rightarrow> bool" where
  "string_in v xs = (case as_string v of None \<Rightarrow> False | Some s \<Rightarrow> s \<in> set xs)"

definition isProjectionPayloadData :: "string \<Rightarrow> unknown \<Rightarrow> bool" where
  "isProjectionPayloadData type data =
     (if type = ''user_message'' then
        (case as_record data of
           None \<Rightarrow> False
         | Some o' \<Rightarrow> is_str (fld o' ''text'')
             \<and> (fld o' ''files'' = None
                \<or> (case as_array (fld o' ''files'') of
                     None \<Rightarrow> False
                   | Some fs \<Rightarrow> list_all (\<lambda>f. isFileRef (Some f)) fs)))
      else if type = ''reasoning_delta'' then
        (case as_record data of None \<Rightarrow> False | Some o' \<Rightarrow> is_str (fld o' ''text''))
      else if type = ''assistant_delta'' \<or> type = ''assistant_persisted'' then
        (case as_record data of
           None \<Rightarrow> False
         | Some o' \<Rightarrow> is_str (fld o' ''text'')
             \<and> optional_ok (fld o' ''assistant_segment_id'') isNonEmptyString
             \<and> (type \<noteq> ''assistant_persisted'' \<or> optional_ok (fld o' ''meta'') isMessageMeta))
      else if type = ''tool_start'' then
        (case as_record data of
           None \<Rightarrow> False
         | Some o' \<Rightarrow> isNonEmptyString (fld o' ''tool_call_id'') \<and> isNonEmptyString (fld o' ''name'')
             \<and> nullable_ok (fld o' ''arguments_preview'') is_str
             \<and> nullable_ok (fld o' ''write_path'') is_str)
      else if type = ''tool_progress'' then
        (case as_record data of
           None \<Rightarrow> False
         | Some o' \<Rightarrow> isNonEmptyString (fld o' ''tool_call_id'') \<and> is_str (fld o' ''message''))
      else if type = ''tool_end'' then
        (case as_record data of
           None \<Rightarrow> False
         | Some o' \<Rightarrow> isNonEmptyString (fld o' ''tool_call_id'')
             \<and> string_in (fld o' ''status'') [''complete'', ''error'', ''skipped'', ''aborted'']
             \<and> list_all (\<lambda>k. nullable_ok (fld o' k) is_str) [''error'', ''reason'', ''output_preview'']
             \<and> nullable_ok (fld o' ''duration_ms'') isNonNegativeInteger)
      else if type = ''file_attached'' then
        isFileRef data
        \<and> (case as_record data of
             None \<Rightarrow> False
           | Some o' \<Rightarrow> isAttachmentOwner (fld o' ''attachment_owner''))
      else if type = ''turn_terminal'' then
        (case as_record data of
           None \<Rightarrow> False
         | Some o' \<Rightarrow>
             string_in (fld o' ''outcome'')
               [''completed'', ''errored'', ''interrupted'', ''rate_limited'']
             \<and> nullable_ok (fld o' ''error'') isTerminalError
             \<and> nullable_ok (fld o' ''token_usage'') isTokenUsage)
      else if type = ''background/spawn_complete'' then
        (case as_record data of
           None \<Rightarrow> False
         | Some o' \<Rightarrow> isNonEmptyString (fld o' ''task_id'') \<and> is_str (fld o' ''content'')
             \<and> list_all (\<lambda>k. optional_ok (fld o' k) isNonEmptyString) [''parent_turn_id'', ''message_id'']
             \<and> list_all (\<lambda>k. optional_ok (fld o' k) is_str) [''source'', ''persisted_at'']
             \<and> list_all (\<lambda>k. nullable_ok (fld o' k) isNonEmptyString)
                  [''response_to_client_message_id'', ''tool_call_id'']
             \<and> optional_ok (fld o' ''media'') isStringArray)
      else True)"

section \<open>Envelopes (\<open>projection.ts\<close>)\<close>

record projectionPayload =
  pp_type :: string
  pp_data :: json

record projectionEnvelope =
  pe_session_id :: string
  pe_thread_id :: string
  pe_seq :: nat
  pe_turn_id :: string
  pe_payload :: projectionPayload
  pe_topic :: "string option"
  pe_client_message_id :: "string option"
  pe_cursor :: "uiCursor option"

definition parseProjectionEnvelope :: "unknown \<Rightarrow> projectionEnvelope option" where
  "parseProjectionEnvelope v =
     (case as_record v of
        None \<Rightarrow> None
      | Some o' \<Rightarrow>
          (case as_record (fld o' ''payload'') of
             None \<Rightarrow> None
           | Some p \<Rightarrow>
               (case (as_string (fld o' ''session_id''), as_string (fld o' ''thread_id''),
                      nonneg_int (fld o' ''seq''), as_string (fld o' ''turn_id''),
                      as_string (fld p ''type''), fld p ''data'') of
                  (Some s, Some th, Some n, Some t, Some ty, Some d) \<Rightarrow>
                    if \<not> isProjectionPayloadData ty (Some d) then None
                    else (case parse_opt_cursor (fld o' ''cursor'') of
                            None \<Rightarrow> None
                          | Some c \<Rightarrow>
                              Some \<lparr>pe_session_id = s, pe_thread_id = th, pe_seq = n, pe_turn_id = t,
                                    pe_payload = \<lparr>pp_type = ty, pp_data = d\<rparr>,
                                    pe_topic = as_string (fld o' ''topic''),
                                    pe_client_message_id = as_string (fld o' ''client_message_id''),
                                    pe_cursor = c\<rparr>)
                | _ \<Rightarrow> None)))"

definition encode_envelope :: "projectionEnvelope \<Rightarrow> json" where
  "encode_envelope e = JObj
     ((''session_id'', JStr (pe_session_id e)) # (''thread_id'', JStr (pe_thread_id e))
      # (''seq'', JNum (JInt (int (pe_seq e)))) # (''turn_id'', JStr (pe_turn_id e))
      # (''payload'', JObj [(''type'', JStr (pp_type (pe_payload e))), (''data'', pp_data (pe_payload e))])
      # opt_field ''topic'' (map_option JStr (pe_topic e))
      @ opt_field ''client_message_id'' (map_option JStr (pe_client_message_id e))
      @ opt_field ''cursor'' (map_option encode_cursor (pe_cursor e)))"

definition valid_envelope :: "projectionEnvelope \<Rightarrow> bool" where
  "valid_envelope e \<longleftrightarrow> int (pe_seq e) \<le> max_safe \<and> valid_opt_cursor (pe_cursor e)
     \<and> isProjectionPayloadData (pp_type (pe_payload e)) (Some (pp_data (pe_payload e)))"

lemma parseProjectionEnvelope_Some:
  "parseProjectionEnvelope v = Some e \<longleftrightarrow>
     (\<exists>o' p. v = Some (JObj o') \<and> fld o' ''payload'' = Some (JObj p)
        \<and> fld o' ''session_id'' = Some (JStr (pe_session_id e))
        \<and> fld o' ''thread_id'' = Some (JStr (pe_thread_id e))
        \<and> nonneg_int (fld o' ''seq'') = Some (pe_seq e)
        \<and> fld o' ''turn_id'' = Some (JStr (pe_turn_id e))
        \<and> fld p ''type'' = Some (JStr (pp_type (pe_payload e)))
        \<and> fld p ''data'' = Some (pp_data (pe_payload e))
        \<and> isProjectionPayloadData (pp_type (pe_payload e)) (Some (pp_data (pe_payload e)))
        \<and> parse_opt_cursor (fld o' ''cursor'') = Some (pe_cursor e)
        \<and> pe_topic e = as_string (fld o' ''topic'')
        \<and> pe_client_message_id e = as_string (fld o' ''client_message_id''))"
  by (auto simp: parseProjectionEnvelope_def split: option.splits if_splits)

interpretation envelope_wire: wire_decoder parseProjectionEnvelope encode_envelope valid_envelope
proof unfold_locales
  show "valid_envelope x" if "parseProjectionEnvelope v = Some x" for v x
    using that
    by (auto simp: parseProjectionEnvelope_Some valid_envelope_def nonneg_int_Some
        dest: parse_opt_cursor_valid)
next
  show "parseProjectionEnvelope (Some (encode_envelope x)) = Some x" if "valid_envelope x" for x
    using that
    by (simp add: parseProjectionEnvelope_Some encode_envelope_def valid_envelope_def)
qed (simp add: parseProjectionEnvelope_def)

section \<open>Properties\<close>

text \<open>
  The envelope decoder accepts exactly the well-formed envelopes: a value is the result of some
  decoding exactly when its sequence numbers are safe integers and its payload passes the payload
  table, and exactly those are read back unchanged from their canonical rendering.
\<close>
theorem envelope_round_trip:
  "((\<exists>v. parseProjectionEnvelope v = Some e) \<longleftrightarrow> valid_envelope e)
   \<and> (valid_envelope e \<longleftrightarrow> parseProjectionEnvelope (Some (encode_envelope e)) = Some e)"
  using envelope_wire.accepts_iff_valid envelope_wire.parse_valid envelope_wire.parse_encode by blast

end
