(* ===== verification/Hydrate.thy ===== *)
theory Hydrate
  imports Projection
begin

text \<open>
  The \<open>session/hydrate\<close> result, \<open>packages/client/src/hydrate.ts\<close>: transcript rows, turns, the
  tolerant file-mutation lane, replayed envelopes, and the atomic replay checkpoint.
\<close>

section \<open>Rows and turns\<close>

record hydratedMessage =
  hm_seq :: nat
  hm_role :: string
  hm_content :: string
  hm_persisted_at :: string
  hm_media :: "string list"
  hm_turn_id :: "string option"
  hm_thread_id :: "string option"
  hm_client_message_id :: "string option"
  hm_reasoning_content :: "string option"
  hm_message_id :: "string option"
  hm_source :: "string option"

definition hydrated_media :: "unknown \<Rightarrow> string list option" where
  "hydrated_media v =
     (case v of
        None \<Rightarrow> Some []
      | Some _ \<Rightarrow>
          (case as_array v of
             None \<Rightarrow> None
           | Some xs \<Rightarrow> those (map (\<lambda>e. as_string (Some e)) xs)))"

definition parseHydratedMessage :: "unknown \<Rightarrow> hydratedMessage option" where
  "parseHydratedMessage v =
     (case as_record v of
        None \<Rightarrow> None
      | Some o' \<Rightarrow>
          (case (nonneg_int (fld o' ''seq''), as_string (fld o' ''role''),
                 as_string (fld o' ''content''), as_string (fld o' ''persisted_at'')) of
             (Some n, Some role, Some content, Some at) \<Rightarrow>
               if list_ex (bad_opt_string o')
                    [''turn_id'', ''thread_id'', ''client_message_id'', ''reasoning_content'',
                     ''message_id'', ''source'']
               then None
               else (case hydrated_media (fld o' ''media'') of
                       None \<Rightarrow> None
                     | Some media \<Rightarrow> Some \<lparr>hm_seq = n, hm_role = role, hm_content = content,
                         hm_persisted_at = at, hm_media = media,
                         hm_turn_id = as_string (fld o' ''turn_id''),
                         hm_thread_id = as_string (fld o' ''thread_id''),
                         hm_client_message_id = as_string (fld o' ''client_message_id''),
                         hm_reasoning_content = as_string (fld o' ''reasoning_content''),
                         hm_message_id = as_string (fld o' ''message_id''),
                         hm_source = as_string (fld o' ''source'')\<rparr>)
           | _ \<Rightarrow> None))"

definition encode_message :: "hydratedMessage \<Rightarrow> json" where
  "encode_message m = JObj
     ((''seq'', JNum (JInt (int (hm_seq m)))) # (''role'', JStr (hm_role m))
      # (''content'', JStr (hm_content m)) # (''persisted_at'', JStr (hm_persisted_at m))
      # (''media'', JArr (map JStr (hm_media m)))
      # opt_field ''turn_id'' (map_option JStr (hm_turn_id m))
      @ opt_field ''thread_id'' (map_option JStr (hm_thread_id m))
      @ opt_field ''client_message_id'' (map_option JStr (hm_client_message_id m))
      @ opt_field ''reasoning_content'' (map_option JStr (hm_reasoning_content m))
      @ opt_field ''message_id'' (map_option JStr (hm_message_id m))
      @ opt_field ''source'' (map_option JStr (hm_source m)))"

definition valid_message :: "hydratedMessage \<Rightarrow> bool" where
  "valid_message m = (int (hm_seq m) \<le> max_safe)"

lemma hydrated_media_encode [simp]: "hydrated_media (Some (JArr (map JStr xs))) = Some xs"
  by (simp add: hydrated_media_def those_Some comp_def)

interpretation message_wire: wire_decoder parseHydratedMessage encode_message valid_message
proof unfold_locales
  show "valid_message x" if "parseHydratedMessage v = Some x" for v x
    using that
    by (auto simp: parseHydratedMessage_def valid_message_def nonneg_int_Some
        split: option.splits if_splits)
next
  show "parseHydratedMessage (Some (encode_message x)) = Some x" if "valid_message x" for x
    using that
    by (simp add: parseHydratedMessage_def encode_message_def valid_message_def bad_opt_string_def)
qed (simp add: parseHydratedMessage_def)

record hydratedTurn =
  ht_turn_id :: string
  ht_state :: string
  ht_started_at :: "string option"
  ht_completed_at :: "string option"
  ht_thread_id :: "string option"
  ht_completed_at_durable :: "bool option"

fun as_bool :: "unknown \<Rightarrow> bool option" where
  "as_bool (Some (JBool b)) = Some b"
| "as_bool _ = None"

definition parseHydratedTurn :: "unknown \<Rightarrow> hydratedTurn option" where
  "parseHydratedTurn v =
     (case as_record v of
        None \<Rightarrow> None
      | Some o' \<Rightarrow>
          (case (as_string (fld o' ''turn_id''), as_string (fld o' ''state'')) of
             (Some t, Some st) \<Rightarrow>
               let durable = fld o' ''completed_at_durable'' in
               if list_ex (bad_opt_string o') [''started_at'', ''completed_at'', ''thread_id'']
                  \<or> (durable \<noteq> None \<and> durable \<noteq> Some JNull \<and> as_bool durable = None)
               then None
               else Some \<lparr>ht_turn_id = t, ht_state = st,
                          ht_started_at = as_string (fld o' ''started_at''),
                          ht_completed_at = as_string (fld o' ''completed_at''),
                          ht_thread_id = as_string (fld o' ''thread_id''),
                          ht_completed_at_durable = as_bool durable\<rparr>
           | _ \<Rightarrow> None))"

definition encode_turn :: "hydratedTurn \<Rightarrow> json" where
  "encode_turn t = JObj
     ((''turn_id'', JStr (ht_turn_id t)) # (''state'', JStr (ht_state t))
      # opt_field ''started_at'' (map_option JStr (ht_started_at t))
      @ opt_field ''completed_at'' (map_option JStr (ht_completed_at t))
      @ opt_field ''thread_id'' (map_option JStr (ht_thread_id t))
      @ opt_field ''completed_at_durable'' (map_option JBool (ht_completed_at_durable t)))"

lemma as_bool_JBool_option [simp]: "as_bool (map_option JBool b) = b"
  by (cases b) simp_all

interpretation turn_wire: wire_decoder parseHydratedTurn encode_turn "\<lambda>_. True"
proof unfold_locales
  show "parseHydratedTurn (Some (encode_turn x)) = Some x" for x
    by (cases "ht_completed_at_durable x")
      (auto simp: parseHydratedTurn_def encode_turn_def bad_opt_string_def Let_def)
qed (simp_all add: parseHydratedTurn_def)

section \<open>File mutations: a lane that drops what it cannot read\<close>

record hydratedFileMutation =
  hf_path :: string
  hf_operation :: mutationOperation
  hf_preview_id :: "string option"
  hf_bytes_written :: "nat option"

definition parseHydratedFileMutation :: "unknown \<Rightarrow> hydratedFileMutation option" where
  "parseHydratedFileMutation v =
     (case parseFileMutationNotice
             \<lparr>nt_method = M_PROGRESS_UPDATED,
              nt_params = Some (JObj [(''metadata'', JObj (opt_field ''file_mutation'' v))])\<rparr> of
        None \<Rightarrow> None
      | Some m \<Rightarrow> Some \<lparr>hf_path = fm_path m, hf_operation = fm_operation m,
                        hf_preview_id = fm_previewId m, hf_bytes_written = fm_bytesWritten m\<rparr>)"

definition parseHydratedFileMutations :: "unknown \<Rightarrow> hydratedFileMutation list option option" where
  "parseHydratedFileMutations v =
     (case v of
        None \<Rightarrow> Some None
      | Some _ \<Rightarrow>
          (case as_array v of
             None \<Rightarrow> None
           | Some xs \<Rightarrow>
               Some (Some (List.map_filter (\<lambda>e. parseHydratedFileMutation (Some e)) xs))))"

section \<open>Envelopes and checkpoints\<close>

definition parseHydratedEnvelope :: "unknown \<Rightarrow> string \<Rightarrow> projectionEnvelope option" where
  "parseHydratedEnvelope v sid =
     (case as_record v of
        None \<Rightarrow> None
      | Some o' \<Rightarrow>
          if fld o' ''session_id'' \<noteq> None \<and> fld o' ''session_id'' \<noteq> Some (JStr sid) then None
          else parseProjectionEnvelope (Some (JObj (map_put ''session_id'' (JStr sid) o'))))"

definition thread_entry :: "string \<times> json \<Rightarrow> (string \<times> nat) option" where
  "thread_entry kv =
     (if trim (fst kv) = [] then None
      else map_option (Pair (fst kv)) (nonneg_int (Some (snd kv))))"

definition parseThreadSequences :: "unknown \<Rightarrow> (string, nat) jsmap option option" where
  "parseThreadSequences v =
     (case v of
        None \<Rightarrow> Some None
      | Some _ \<Rightarrow>
          (case as_record v of
             None \<Rightarrow> None
           | Some o' \<Rightarrow>
               map_option (\<lambda>es. Some (map_of_entries es)) (those (map thread_entry o'))))"

text \<open>
  The loop over the replay with its \<open>seen\<close> set, whose keys are \<open>JSON.stringify([thread, seq])\<close>.
\<close>

definition replay_event_ok ::
    "(string, nat) jsmap \<Rightarrow> uiCursor \<Rightarrow> projectionEnvelope \<Rightarrow> bool" where
  "replay_event_ok checkpoints cursor e =
     ((case map_get checkpoints (pe_thread_id e) of None \<Rightarrow> False | Some c \<Rightarrow> pe_seq e \<le> c)
      \<and> (case pe_cursor e of
           None \<Rightarrow> True
         | Some c \<Rightarrow> cur_stream c = cur_stream cursor \<and> cur_seq c \<le> cur_seq cursor))"

fun replay_checkpoint_loop ::
    "(string, nat) jsmap \<Rightarrow> uiCursor \<Rightarrow> string set \<Rightarrow> projectionEnvelope list \<Rightarrow> bool" where
  "replay_checkpoint_loop cps cursor seen [] = True"
| "replay_checkpoint_loop cps cursor seen (e # es) =
     (let key = stringify_pair (pe_thread_id e) (pe_seq e)
      in if key \<in> seen then False
         else replay_event_ok cps cursor e \<and> replay_checkpoint_loop cps cursor (insert key seen) es)"

definition validReplayCheckpoint ::
    "projectionEnvelope list \<Rightarrow> (string, nat) jsmap \<Rightarrow> uiCursor \<Rightarrow> bool" where
  "validReplayCheckpoint replay checkpoints cursor =
     replay_checkpoint_loop checkpoints cursor {} replay"

lemma replay_loop_iff:
  "replay_checkpoint_loop cps cursor seen es \<longleftrightarrow>
     list_all (replay_event_ok cps cursor) es
     \<and> distinct (map (\<lambda>e. (pe_thread_id e, pe_seq e)) es)
     \<and> (\<forall>e \<in> set es. stringify_pair (pe_thread_id e) (pe_seq e) \<notin> seen)"
proof (induction es arbitrary: seen)
  case Nil
  then show ?case by simp
next
  case (Cons e es)
  have "(\<forall>x \<in> set es. stringify_pair (pe_thread_id x) (pe_seq x)
            \<notin> insert (stringify_pair (pe_thread_id e) (pe_seq e)) seen)
     \<longleftrightarrow> (pe_thread_id e, pe_seq e) \<notin> (\<lambda>x. (pe_thread_id x, pe_seq x)) ` set es
         \<and> (\<forall>x \<in> set es. stringify_pair (pe_thread_id x) (pe_seq x) \<notin> seen)"
    by (force simp: image_iff)
  then show ?case using Cons.IH by (auto simp: Let_def)
qed

lemma validReplayCheckpoint_iff:
  "validReplayCheckpoint es cps cursor \<longleftrightarrow>
     list_all (replay_event_ok cps cursor) es
     \<and> distinct (map (\<lambda>e. (pe_thread_id e, pe_seq e)) es)"
  by (simp add: validReplayCheckpoint_def replay_loop_iff)

section \<open>The result\<close>

record sessionHydrateResult =
  hr_session_id :: string
  hr_cursor :: uiCursor
  hr_context :: unknown
  hr_context_state :: unknown
  hr_messages :: "hydratedMessage list option"
  hr_file_mutations :: "hydratedFileMutation list option"
  hr_threads :: "json list option"
  hr_turns :: "hydratedTurn list option"
  hr_pending_approvals :: "json list option"
  hr_pending_questions :: "json list option"
  hr_replayed_envelopes :: "projectionEnvelope list option"
  hr_replayed_tool_envelopes :: "projectionEnvelope list option"
  hr_replayed_projection_envelopes :: "projectionEnvelope list option"
  hr_projection_thread_sequences :: "(string, nat) jsmap option"

definition isOptionalArray :: "unknown \<Rightarrow> bool" where
  "isOptionalArray v = (v = None \<or> as_array v \<noteq> None)"

text \<open>Both members of the atomic snapshot or neither, and then a valid checkpoint.\<close>

definition snapshot_ok ::
    "projectionEnvelope list option \<Rightarrow> (string, nat) jsmap option \<Rightarrow> uiCursor \<Rightarrow> bool" where
  "snapshot_ok replay seqs cursor =
     (case (replay, seqs) of
        (None, None) \<Rightarrow> True
      | (Some es, Some cps) \<Rightarrow> validReplayCheckpoint es cps cursor
      | _ \<Rightarrow> False)"

definition parseSessionHydrateResult :: "unknown \<Rightarrow> sessionHydrateResult option" where
  "parseSessionHydrateResult v =
     (case as_record v of
        None \<Rightarrow> None
      | Some o' \<Rightarrow>
          (case (as_string (fld o' ''session_id''), parseUiCursor (fld o' ''cursor'')) of
             (Some sid, Some cursor) \<Rightarrow>
               let lane = (\<lambda>k. parseOptionalArray (fld o' k) (\<lambda>e. parseHydratedEnvelope e sid)) in
               (case (parseOptionalArray (fld o' ''messages'') parseHydratedMessage,
                      parseOptionalArray (fld o' ''turns'') parseHydratedTurn,
                      parseHydratedFileMutations (fld o' ''file_mutations''),
                      lane ''replayed_envelopes'', lane ''replayed_tool_envelopes'',
                      lane ''replayed_projection_envelopes'',
                      parseThreadSequences (fld o' ''projection_thread_sequences'')) of
                  (Some messages, Some turns, Some mutations, Some replayed, Some tools,
                   Some projections, Some seqs) \<Rightarrow>
                    if \<not> snapshot_ok projections seqs cursor
                       \<or> \<not> isOptionalArray (fld o' ''threads'')
                       \<or> \<not> isOptionalArray (fld o' ''pending_approvals'')
                       \<or> \<not> isOptionalArray (fld o' ''pending_questions'')
                    then None
                    else Some \<lparr>hr_session_id = sid, hr_cursor = cursor,
                       hr_context = fld o' ''context'', hr_context_state = fld o' ''context_state'',
                       hr_messages = messages, hr_file_mutations = mutations,
                       hr_threads = as_array (fld o' ''threads''), hr_turns = turns,
                       hr_pending_approvals = as_array (fld o' ''pending_approvals''),
                       hr_pending_questions = as_array (fld o' ''pending_questions''),
                       hr_replayed_envelopes = replayed, hr_replayed_tool_envelopes = tools,
                       hr_replayed_projection_envelopes = projections,
                       hr_projection_thread_sequences = seqs\<rparr>
                | _ \<Rightarrow> None)
           | _ \<Rightarrow> None))"

lemma fld_map_put: "fld (map_put k v o') k' = (if k' = k then Some v else fld o' k')"
  using map_get_put [of k v o' k'] by (simp add: fld_def map_get_def)

lemma parseHydratedEnvelope_session:
  "parseHydratedEnvelope v sid = Some e \<Longrightarrow> pe_session_id e = sid"
  by (auto simp: parseHydratedEnvelope_def parseProjectionEnvelope_Some fld_map_put
      split: option.splits if_splits)

lemma hydrate_snapshot:
  "parseSessionHydrateResult v = Some r \<Longrightarrow>
     snapshot_ok (hr_replayed_projection_envelopes r) (hr_projection_thread_sequences r) (hr_cursor r)"
  by (auto simp: parseSessionHydrateResult_def Let_def split: option.splits if_splits)

text \<open>
  An entry of a replay lane and the envelope it is decoded to: the entry names no Session or the
  one of the result, and the envelope is its thread's, turn's and sequence number's, in that Session.
\<close>

definition lane_entry :: "string \<Rightarrow> json \<Rightarrow> projectionEnvelope \<Rightarrow> bool" where
  "lane_entry sid x e =
     (case x of
        JObj fs \<Rightarrow>
          (fld fs ''session_id'' = None \<or> fld fs ''session_id'' = Some (JStr sid))
          \<and> fld fs ''thread_id'' = Some (JStr (pe_thread_id e))
          \<and> fld fs ''turn_id'' = Some (JStr (pe_turn_id e))
          \<and> nonneg_int (fld fs ''seq'') = Some (pe_seq e) \<and> pe_session_id e = sid
      | _ \<Rightarrow> False)"

lemma parseHydratedEnvelope_entry:
  assumes "parseHydratedEnvelope (Some x) sid = Some e"
  shows "lane_entry sid x e"
proof -
  from assms obtain fs where x: "x = JObj fs"
    and own: "fld fs ''session_id'' = None \<or> fld fs ''session_id'' = Some (JStr sid)"
    and p: "parseProjectionEnvelope (Some (JObj (map_put ''session_id'' (JStr sid) fs))) = Some e"
    by (cases x) (auto simp: parseHydratedEnvelope_def split: if_splits)
  from p own show ?thesis
    by (auto simp: x lane_entry_def parseProjectionEnvelope_Some fld_map_put)
qed

lemma lane_entries:
  assumes "parseOptionalArray v (\<lambda>e. parseHydratedEnvelope e sid) = Some lane"
  shows "case (v, lane) of
           (None, None) \<Rightarrow> True
         | (Some (JArr xs), Some es) \<Rightarrow> list_all2 (lane_entry sid) xs es
         | _ \<Rightarrow> False"
proof (cases lane)
  case None
  with assms show ?thesis by (simp add: parseOptionalArray_undefined)
next
  case (Some es)
  with assms obtain xs where v: "v = Some (JArr xs)"
    and m: "map (\<lambda>x. parseHydratedEnvelope (Some x) sid) xs = map Some es"
    by (auto simp: parseOptionalArray_Some)
  from m have "list_all2 (lane_entry sid) xs es"
    by (auto simp: list_all2_conv_all_nth list_eq_iff_nth_eq intro: parseHydratedEnvelope_entry)
  with v Some show ?thesis by simp
qed

lemma parseThreadSequences_undefined: "parseThreadSequences v = Some None \<longleftrightarrow> v = None"
  by (auto simp: parseThreadSequences_def split: option.splits)

section \<open>Properties\<close>

text \<open>
  Transcript rows and turns survive the wire: arrays of well-formed rows, and arrays of turns,
  are read back entry by entry from their canonical rendering, and what the lane of rows yields is
  always well formed. One bad entry rejects the whole lane.
\<close>
theorem transcript_round_trip:
  "(parseOptionalArray (Some (JArr (map encode_message ms))) parseHydratedMessage = Some (Some ms)
      \<longleftrightarrow> list_all valid_message ms)
   \<and> parseOptionalArray (Some (JArr (map encode_turn ts))) parseHydratedTurn = Some (Some ts)
   \<and> (parseOptionalArray (Some (JArr es)) parseHydratedMessage = None \<longleftrightarrow>
        list_ex (\<lambda>e. parseHydratedMessage (Some e) = None) es)"
proof (intro conjI)
  show "parseOptionalArray (Some (JArr (map encode_message ms))) parseHydratedMessage = Some (Some ms)
      \<longleftrightarrow> list_all valid_message ms"
    using message_wire.array_valid message_wire.array_round_trip by blast
  show "parseOptionalArray (Some (JArr (map encode_turn ts))) parseHydratedTurn = Some (Some ts)"
    by (rule turn_wire.array_round_trip) (simp add: list_all_iff)
  have "those ys = None \<longleftrightarrow> None \<in> set ys" for ys :: "hydratedMessage option list"
    by (induction ys) (auto split: option.splits)
  then show "parseOptionalArray (Some (JArr es)) parseHydratedMessage = None \<longleftrightarrow>
        list_ex (\<lambda>e. parseHydratedMessage (Some e) = None) es"
    by (simp add: parseOptionalArray_def list_ex_iff image_iff eq_commute [of None])
qed

text \<open>
  C38: The checkpoint test of the replay lane is exact: a replay is accepted exactly when every
  envelope is covered by its thread's checkpoint and by the snapshot cursor on its stream, and no
  two envelopes have the same thread and sequence number, whatever characters thread ids contain.
\<close>
theorem replay_checkpoint_exact:
  "validReplayCheckpoint es cps cursor \<longleftrightarrow>
     list_all (\<lambda>e. (case map_get cps (pe_thread_id e) of None \<Rightarrow> False | Some c \<Rightarrow> pe_seq e \<le> c)
        \<and> (case pe_cursor e of None \<Rightarrow> True
           | Some c \<Rightarrow> cur_stream c = cur_stream cursor \<and> cur_seq c \<le> cur_seq cursor)) es
     \<and> distinct (map (\<lambda>e. (pe_thread_id e, pe_seq e)) es)"
  by (simp add: validReplayCheckpoint_iff replay_event_ok_def [abs_def])

text \<open>
  C37: A hydrate result takes nothing from another Session, and its atomic snapshot is whole. When an
  answer is accepted, each of its three replay lanes is absent or an array whose entries, one by
  one, name no Session or the answer's own and are decoded to envelopes of that Session with the
  entry's thread, turn and sequence number: one entry of another Session refuses the whole answer.
  The replayed projection envelopes and the thread checkpoints are both in the answer or neither.
\<close>
theorem hydrate_takes_no_foreign_envelope:
  assumes "parseSessionHydrateResult (Some (JObj o')) = Some r"
  shows "list_all (\<lambda>(key, lane). case (fld o' key, lane) of
           (None, None) \<Rightarrow> True
         | (Some (JArr xs), Some es) \<Rightarrow> list_all2 (lane_entry (hr_session_id r)) xs es
         | _ \<Rightarrow> False)
       [(''replayed_envelopes'', hr_replayed_envelopes r),
        (''replayed_tool_envelopes'', hr_replayed_tool_envelopes r),
        (''replayed_projection_envelopes'', hr_replayed_projection_envelopes r)]
     \<and> (fld o' ''replayed_projection_envelopes'' = None
          \<longleftrightarrow> fld o' ''projection_thread_sequences'' = None)"
proof -
  let ?lane = "\<lambda>k. parseOptionalArray (fld o' k) (\<lambda>e. parseHydratedEnvelope e (hr_session_id r))"
  from assms have l: "?lane ''replayed_envelopes'' = Some (hr_replayed_envelopes r)"
    "?lane ''replayed_tool_envelopes'' = Some (hr_replayed_tool_envelopes r)"
    "?lane ''replayed_projection_envelopes'' = Some (hr_replayed_projection_envelopes r)"
    and q: "parseThreadSequences (fld o' ''projection_thread_sequences'')
      = Some (hr_projection_thread_sequences r)"
    by (auto simp: parseSessionHydrateResult_def Let_def split: option.splits if_splits)
  have "hr_replayed_projection_envelopes r = None \<longleftrightarrow> hr_projection_thread_sequences r = None"
    using hydrate_snapshot [OF assms] by (auto simp: snapshot_ok_def split: option.splits)
  then have "fld o' ''replayed_projection_envelopes'' = None
      \<longleftrightarrow> fld o' ''projection_thread_sequences'' = None"
    using l(3) q by (metis parseOptionalArray_undefined parseThreadSequences_undefined option.inject)
  with lane_entries [OF l(1)] lane_entries [OF l(2)] lane_entries [OF l(3)] show ?thesis by simp
qed

definition sample_result :: json where
  "sample_result = JObj [(''session_id'', JStr ''s''),
     (''cursor'', JObj [(''stream'', JStr ''e''), (''seq'', JNum (JInt 4))]),
     (''replayed_projection_envelopes'', JArr [JObj [(''thread_id'', JStr ''t''), (''seq'', JNum (JInt 7)),
        (''turn_id'', JStr ''u''), (''payload'', JObj [(''type'', JStr ''reasoning_delta''),
          (''data'', JObj [(''text'', JStr ''x'')])]),
        (''cursor'', JObj [(''stream'', JStr ''e''), (''seq'', JNum (JInt 4))])]]),
     (''projection_thread_sequences'', JObj [(''t'', JNum (JInt 7))])]"

definition sample_parsed :: sessionHydrateResult where
  "sample_parsed = the (parseSessionHydrateResult (Some sample_result))"

lemma sample_parses: "parseSessionHydrateResult (Some sample_result) = Some sample_parsed"
proof -
  have "parseSessionHydrateResult (Some sample_result) \<noteq> None" by code_simp
  then show ?thesis by (auto simp: sample_parsed_def)
qed

lemma hydrate_takes_no_foreign_envelope_witness:
  "\<exists>o' xs es. sample_result = JObj o' \<and> fld o' ''replayed_projection_envelopes'' = Some (JArr xs)
     \<and> hr_replayed_projection_envelopes sample_parsed = Some es
     \<and> list_all2 (lane_entry (hr_session_id sample_parsed)) xs es"
proof -
  obtain o' xs where o: "sample_result = JObj o'" "fld o' ''replayed_projection_envelopes'' = Some (JArr xs)"
    by (simp add: sample_result_def fld_def)
  from hydrate_takes_no_foreign_envelope [OF sample_parses [unfolded o(1)]] o(2)
  have "case hr_replayed_projection_envelopes sample_parsed of
      None \<Rightarrow> False | Some es \<Rightarrow> list_all2 (lane_entry (hr_session_id sample_parsed)) xs es"
    by (simp split: option.splits)
  with o show ?thesis by (auto split: option.splits)
qed

end
