(* ===== verification/DurableSession.thy ===== *)
theory DurableSession
  imports SessionScope Hydrate
begin

text \<open>
  The integrity boundary of one durable Session, \<open>features/session/durable-session.ts\<close>: it decides
  whether a projection envelope may be folded into the transcript. Its state is the cursor, the
  canonical snapshot cursor, the last sequence number applied per thread, and the recovery phase.
\<close>

datatype recoveryPhase = Idle | Hydrating | Healthy | Reconnecting | Gap | Lossy | PhaseError

datatype ignoreReason = NotProjection | WrongSession | Duplicate | Stale

datatype projectionDecision =
    Apply projectionEnvelope
  | Ignore ignoreReason
  | Recover string

record durable =
  d_sessionId :: string
  d_cursor :: "uiCursor option"
  d_canonicalSnapshotCursor :: "uiCursor option"
  d_threadSeq :: "(string, nat) jsmap"
  d_phase :: recoveryPhase
  d_detail :: "string option"
  d_failureDetail :: "string option"
  d_reconnectAttempt :: nat

definition initial_durable :: durable where
  "initial_durable = \<lparr>d_sessionId = [], d_cursor = None, d_canonicalSnapshotCursor = None,
     d_threadSeq = [], d_phase = Idle, d_detail = None, d_failureDetail = None,
     d_reconnectAttempt = 0\<rparr>"

definition durable_reset :: "string \<Rightarrow> durable \<Rightarrow> durable" where
  "durable_reset sid d = d\<lparr>d_sessionId := sid, d_cursor := None, d_canonicalSnapshotCursor := None,
     d_threadSeq := [], d_phase := Idle, d_detail := None, d_failureDetail := None,
     d_reconnectAttempt := 0\<rparr>"

definition beginHydrate :: "string \<Rightarrow> durable \<Rightarrow> durable" where
  "beginHydrate sid d = d\<lparr>d_sessionId := sid, d_phase := Hydrating,
     d_detail := Some ''Restoring authoritative session state'', d_failureDetail := None\<rparr>"

text \<open>The separator of the banner is the middle dot, code unit \<open>B7\<close>.\<close>

definition middle_dot :: string where
  "middle_dot = '' '' @ [CHR 0xB7] @ '' ''"

definition truthy_text :: "string option \<Rightarrow> bool" where
  "truthy_text t = (t \<noteq> None \<and> t \<noteq> Some [])"

definition beginReconnect :: "nat \<Rightarrow> durable \<Rightarrow> durable" where
  "beginReconnect attempt d = d\<lparr>d_phase := Reconnecting, d_reconnectAttempt := attempt,
     d_detail := Some (if truthy_text (d_failureDetail d)
       then ''Connection lost'' @ middle_dot @ ''retry '' @ show_nat attempt @ middle_dot
            @ the (d_failureDetail d)
       else ''Connection lost'' @ middle_dot @ ''retry '' @ show_nat attempt)\<rparr>"

definition commitHydrate :: "sessionHydrateResult \<Rightarrow> durable \<Rightarrow> string + durable" where
  "commitHydrate r d =
     (if hr_session_id r \<noteq> d_sessionId d
      then Inl (''Hydrate returned session '' @ hr_session_id r @ '', expected '' @ d_sessionId d)
      else Inr (d\<lparr>d_cursor := Some (hr_cursor r),
        d_canonicalSnapshotCursor :=
          (if hr_projection_thread_sequences r = None then None else Some (hr_cursor r)),
        d_threadSeq :=
          (case hr_projection_thread_sequences r of None \<Rightarrow> [] | Some m \<Rightarrow> map_of_entries m),
        d_phase := Healthy, d_detail := None, d_failureDetail := None, d_reconnectAttempt := 0\<rparr>))"

definition durable_fail :: "string \<Rightarrow> durable \<Rightarrow> durable" where
  "durable_fail reason d = d\<lparr>d_phase := PhaseError, d_detail := Some reason,
     d_failureDetail := Some reason\<rparr>"

definition durable_matchesScope :: "durable \<Rightarrow> string \<Rightarrow> string option \<Rightarrow> bool" where
  "durable_matchesScope d sid topic =
     (d_sessionId d \<noteq> [] \<and> matchesSessionScope (d_sessionId d) sid topic)"

definition recover :: "recoveryPhase \<Rightarrow> string \<Rightarrow> durable \<Rightarrow> durable \<times> projectionDecision" where
  "recover ph reason d = (d\<lparr>d_phase := ph, d_detail := Some reason\<rparr>, Recover reason)"

definition dropped_detail :: "nat \<Rightarrow> string" where
  "dropped_detail n = show_nat n @ '' durable event'' @ (if n = 1 then [] else ''s'') @ '' dropped''"

definition observe_lossy :: "unknown \<Rightarrow> durable \<Rightarrow> durable \<times> projectionDecision" where
  "observe_lossy params d =
     (case parseReplayLossyEvent params of
        None \<Rightarrow> (d, Ignore WrongSession)
      | Some e \<Rightarrow>
          if \<not> durable_matchesScope d (rl_session_id e) None then (d, Ignore WrongSession)
          else recover Lossy (dropped_detail (rl_dropped_count e)) d)"

text \<open>Is the envelope already covered by the canonical snapshot, or by the hydrated transcript?\<close>

definition before_checkpoint :: "uiCursor \<Rightarrow> durable \<Rightarrow> bool" where
  "before_checkpoint c d =
     (case d_canonicalSnapshotCursor d of
        None \<Rightarrow> False
      | Some k \<Rightarrow> cur_stream c = cur_stream k \<and> cur_seq c \<le> cur_seq k)"

definition buffered_stale :: "bool \<Rightarrow> uiCursor \<Rightarrow> durable \<Rightarrow> bool" where
  "buffered_stale fromBuffer c d =
     (fromBuffer \<and> (case d_cursor d of None \<Rightarrow> False | Some k \<Rightarrow> cur_seq c \<le> cur_seq k))"

definition gap_detail :: "string \<Rightarrow> nat \<Rightarrow> nat \<Rightarrow> string" where
  "gap_detail th expected received =
     ''Projection gap in '' @ th @ '': expected '' @ show_nat expected @ '', received '' @ show_nat received"

definition apply_envelope ::
    "projectionEnvelope \<Rightarrow> uiCursor \<Rightarrow> durable \<Rightarrow> durable \<times> projectionDecision" where
  "apply_envelope e c d =
     (let d1 = d\<lparr>d_threadSeq := map_put (pe_thread_id e) (pe_seq e) (d_threadSeq d)\<rparr>;
          d2 = (case d_cursor d1 of
                  None \<Rightarrow> d1\<lparr>d_cursor := Some c\<rparr>
                | Some k \<Rightarrow> if cur_seq c > cur_seq k then d1\<lparr>d_cursor := Some c\<rparr> else d1);
          d3 = (if d_phase d2 \<noteq> Healthy
                then d2\<lparr>d_phase := Healthy, d_detail := None, d_failureDetail := None\<rparr> else d2)
      in (d3, Apply e))"

definition observe_envelope ::
    "bool \<Rightarrow> projectionEnvelope \<Rightarrow> durable \<Rightarrow> durable \<times> projectionDecision" where
  "observe_envelope fromBuffer e d =
     (if \<not> durable_matchesScope d (pe_session_id e) (pe_topic e) then (d, Ignore WrongSession)
      else case pe_cursor e of
             None \<Rightarrow> recover Gap ''Canonical envelope is missing its durable cursor'' d
           | Some c \<Rightarrow>
               if d_cursor d \<noteq> None \<and> cur_stream c \<noteq> cur_stream (the (d_cursor d))
               then recover Gap (''Cursor stream changed from '' @ cur_stream (the (d_cursor d))
                                 @ '' to '' @ cur_stream c) d
               else if before_checkpoint c d \<or> buffered_stale fromBuffer c d
               then (d, Ignore Stale)
               else (case map_get (d_threadSeq d) (pe_thread_id e) of
                       None \<Rightarrow> apply_envelope e c d
                     | Some previous \<Rightarrow>
                         if pe_seq e \<le> previous then (d, Ignore Duplicate)
                         else if pe_seq e \<noteq> previous + 1
                         then recover Gap (gap_detail (pe_thread_id e) (previous + 1) (pe_seq e)) d
                         else apply_envelope e c d))"

definition observe :: "bool \<Rightarrow> rpcNotification \<Rightarrow> durable \<Rightarrow> durable \<times> projectionDecision" where
  "observe fromBuffer n d =
     (if (nt_method n = M_REPLAY_LOSSY \<or> nt_method n = M_PROJECTION_ENVELOPE)
         \<and> \<not> notificationMatchesSessionScope n (d_sessionId d)
      then (d, Ignore WrongSession)
      else if nt_method n = M_REPLAY_LOSSY then observe_lossy (nt_params n) d
      else if nt_method n \<noteq> M_PROJECTION_ENVELOPE then (d, Ignore NotProjection)
      else case parseProjectionEnvelope (nt_params n) of
             None \<Rightarrow> recover Gap ''Malformed projection/envelope'' d
           | Some e \<Rightarrow> observe_envelope fromBuffer e d)"

record recoverySnapshot =
  rs_phase :: recoveryPhase
  rs_sessionId :: string
  rs_cursor :: "uiCursor option"
  rs_detail :: "string option"
  rs_reconnectAttempt :: nat

definition durable_snapshot :: "durable \<Rightarrow> recoverySnapshot" where
  "durable_snapshot d = \<lparr>rs_phase = d_phase d, rs_sessionId = d_sessionId d, rs_cursor = d_cursor d,
     rs_detail = (if truthy_text (d_detail d) then d_detail d else None),
     rs_reconnectAttempt = d_reconnectAttempt d\<rparr>"

section \<open>What one observation can do\<close>

text \<open>The facts that decide what may be folded: everything but the banner.\<close>

definition window :: "durable \<Rightarrow> string \<times> uiCursor option \<times> uiCursor option \<times> (string, nat) jsmap" where
  "window d = (d_sessionId d, d_cursor d, d_canonicalSnapshotCursor d, d_threadSeq d)"

lemma recover_simps [simp]:
  "window (fst (recover ph r d)) = window d" "snd (recover ph r d) = Recover r"
  "recover ph r d \<noteq> (d', Apply e)" "recover ph r d \<noteq> (d', Ignore i)"
  by (auto simp: recover_def window_def)

lemma apply_envelope_simps [simp]:
  "snd (apply_envelope e c d) = Apply e"
  "d_sessionId (fst (apply_envelope e c d)) = d_sessionId d"
  "d_canonicalSnapshotCursor (fst (apply_envelope e c d)) = d_canonicalSnapshotCursor d"
  "d_threadSeq (fst (apply_envelope e c d)) = map_put (pe_thread_id e) (pe_seq e) (d_threadSeq d)"
  by (auto simp: apply_envelope_def Let_def split: option.splits)

lemma apply_envelope_cursor:
  "d_cursor (fst (apply_envelope e c d)) =
     (case d_cursor d of None \<Rightarrow> Some c | Some k \<Rightarrow> if cur_seq c > cur_seq k then Some c else Some k)"
  by (auto simp: apply_envelope_def Let_def split: option.splits)

text \<open>The admission condition, and the two outcomes.\<close>

definition admissible :: "bool \<Rightarrow> projectionEnvelope \<Rightarrow> durable \<Rightarrow> bool" where
  "admissible fromBuffer e d \<longleftrightarrow>
     durable_matchesScope d (pe_session_id e) (pe_topic e)
     \<and> (\<exists>c. pe_cursor e = Some c
          \<and> (\<forall>k. d_cursor d = Some k \<longrightarrow> cur_stream c = cur_stream k)
          \<and> \<not> before_checkpoint c d \<and> \<not> buffered_stale fromBuffer c d)
     \<and> (\<forall>p. map_get (d_threadSeq d) (pe_thread_id e) = Some p \<longrightarrow> pe_seq e = Suc p)"

lemma observe_envelope_cases:
  "admissible fb e d \<and> observe_envelope fb e d = apply_envelope e (the (pe_cursor e)) d
   \<or> \<not> admissible fb e d \<and> window (fst (observe_envelope fb e d)) = window d
       \<and> (\<forall>x. snd (observe_envelope fb e d) \<noteq> Apply x)"
  by (auto simp: observe_envelope_def admissible_def split: option.splits)

lemma observe_cases:
  obtains (applied) e where "parseProjectionEnvelope (nt_params n) = Some e" "admissible fb e d"
      "observe fb n d = apply_envelope e (the (pe_cursor e)) d"
  | (kept) "window (fst (observe fb n d)) = window d" "\<And>x. snd (observe fb n d) \<noteq> Apply x"
proof (cases "nt_method n = M_PROJECTION_ENVELOPE \<and> notificationMatchesSessionScope n (d_sessionId d)")
  case True
  show ?thesis
  proof (cases "parseProjectionEnvelope (nt_params n)")
    case None
    with True show ?thesis by (intro kept) (auto simp: observe_def)
  next
    case (Some e)
    with True have "observe fb n d = observe_envelope fb e d" by (simp add: observe_def)
    with observe_envelope_cases [of fb e d] consider
        "admissible fb e d" "observe fb n d = apply_envelope e (the (pe_cursor e)) d"
      | "window (fst (observe fb n d)) = window d" "\<forall>x. snd (observe fb n d) \<noteq> Apply x"
      by auto
    then show ?thesis
    proof cases
      case 1
      then show ?thesis using Some by (intro applied)
    next
      case 2
      then show ?thesis by (intro kept) simp_all
    qed
  qed
next
  case False
  then show ?thesis
    by (intro kept) (auto simp: observe_def observe_lossy_def split: option.splits if_splits)
qed

lemma observe_applied:
  assumes "snd (observe fb n d) = Apply e"
  shows "parseProjectionEnvelope (nt_params n) = Some e \<and> admissible fb e d
     \<and> observe fb n d = apply_envelope e (the (pe_cursor e)) d"
proof (cases rule: observe_cases [of n fb d])
  case (applied e')
  with assms have "e' = e" by simp
  with applied show ?thesis by simp
next
  case kept
  with assms show ?thesis by simp
qed

lemma observe_not_applied:
  "\<forall>e. snd (observe fb n d) \<noteq> Apply e \<Longrightarrow> window (fst (observe fb n d)) = window d"
  by (cases rule: observe_cases [of n fb d]) auto

section \<open>Runs\<close>

text \<open>
  A run of observations, and the envelopes it applied, in order. Each notification comes with the
  flag that says whether it is drained from the recovery buffer.
\<close>

fun observe_run ::
    "durable \<Rightarrow> (bool \<times> rpcNotification) list \<Rightarrow> durable \<times> projectionEnvelope list" where
  "observe_run d [] = (d, [])"
| "observe_run d ((fb, n) # ns) =
     (let (d', dec) = observe fb n d; (d'', es) = observe_run d' ns
      in (d'', (case dec of Apply e \<Rightarrow> [e] | _ \<Rightarrow> []) @ es))"

definition thread_seqs :: "string \<Rightarrow> projectionEnvelope list \<Rightarrow> nat list" where
  "thread_seqs th es = map pe_seq (filter (\<lambda>e. pe_thread_id e = th) es)"

text \<open>Each number follows the previous one; the first follows the start, when there is one.\<close>

fun consecutive_from :: "nat option \<Rightarrow> nat list \<Rightarrow> bool" where
  "consecutive_from p [] = True"
| "consecutive_from p (n # ns) =
     ((case p of None \<Rightarrow> True | Some k \<Rightarrow> n = Suc k) \<and> consecutive_from (Some n) ns)"

lemma run_Cons:
  "observe_run d ((fb, n) # ns) =
     (fst (observe_run (fst (observe fb n d)) ns),
      (case snd (observe fb n d) of Apply e \<Rightarrow> [e] | _ \<Rightarrow> []) @ snd (observe_run (fst (observe fb n d)) ns))"
  by (simp add: case_prod_beta Let_def)

lemma run_consecutive:
  "consecutive_from (map_get (d_threadSeq d) th) (thread_seqs th (snd (observe_run d ns)))"
proof (induction ns arbitrary: d)
  case Nil
  show ?case by (simp add: thread_seqs_def)
next
  case (Cons x ns)
  obtain fb n where x: "x = (fb, n)" by (cases x)
  note IH = Cons.IH [of "fst (observe fb n d)"]
  show ?case
  proof (cases rule: observe_cases [of n fb d])
    case (applied e)
    then show ?thesis using IH x
      by (auto simp: run_Cons thread_seqs_def jsm_simps admissible_def split: option.splits
          simp del: observe_run.simps)
  next
    case kept
    then have "d_threadSeq (fst (observe fb n d)) = d_threadSeq d" by (simp add: window_def)
    moreover have "(case snd (observe fb n d) of Apply e \<Rightarrow> [e] | _ \<Rightarrow> []) = []"
      using kept(2) by (auto split: projectionDecision.splits)
    ultimately show ?thesis using IH x by (simp add: run_Cons del: observe_run.simps)
  qed
qed

lemma run_cursor_mono:
  assumes "d_cursor d = Some c"
  shows "\<exists>c'. d_cursor (fst (observe_run d ns)) = Some c'
     \<and> cur_stream c' = cur_stream c \<and> cur_seq c \<le> cur_seq c'"
  using assms
proof (induction ns arbitrary: d c)
  case Nil
  then show ?case by simp
next
  case (Cons x ns)
  obtain fb n where x: "x = (fb, n)" by (cases x)
  have "\<exists>k. d_cursor (fst (observe fb n d)) = Some k \<and> cur_stream k = cur_stream c
      \<and> cur_seq c \<le> cur_seq k"
  proof (cases rule: observe_cases [of n fb d])
    case (applied e)
    then show ?thesis using Cons.prems
      by (auto simp: apply_envelope_cursor admissible_def)
  next
    case kept
    then show ?thesis using Cons.prems by (auto simp: window_def)
  qed
  then obtain k where k: "d_cursor (fst (observe fb n d)) = Some k" "cur_stream k = cur_stream c"
      "cur_seq c \<le> cur_seq k" by blast
  from Cons.IH [OF k(1)] k(2,3) x show ?case
    by (auto simp: run_Cons simp del: observe_run.simps intro: le_trans)
qed

lemma run_frame:
  "d_sessionId (fst (observe_run d ns)) = d_sessionId d
   \<and> d_canonicalSnapshotCursor (fst (observe_run d ns)) = d_canonicalSnapshotCursor d"
proof (induction ns arbitrary: d)
  case Nil
  then show ?case by simp
next
  case (Cons x ns)
  obtain fb n where x: "x = (fb, n)" by (cases x)
  have "d_sessionId (fst (observe fb n d)) = d_sessionId d
     \<and> d_canonicalSnapshotCursor (fst (observe fb n d)) = d_canonicalSnapshotCursor d"
    by (cases rule: observe_cases [of n fb d]) (auto simp: window_def)
  with Cons.IH [of "fst (observe fb n d)"] x show ?case
    by (simp add: run_Cons del: observe_run.simps)
qed

lemma run_applied_admissible:
  assumes "e \<in> set (snd (observe_run d ns))"
  shows "\<exists>d' fb. admissible fb e d' \<and> d_sessionId d' = d_sessionId d
     \<and> d_canonicalSnapshotCursor d' = d_canonicalSnapshotCursor d"
  using assms
proof (induction ns arbitrary: d)
  case Nil
  then show ?case by simp
next
  case (Cons x ns)
  obtain fb n where x: "x = (fb, n)" by (cases x)
  have fr: "d_sessionId (fst (observe fb n d)) = d_sessionId d"
    "d_canonicalSnapshotCursor (fst (observe fb n d)) = d_canonicalSnapshotCursor d"
    using run_frame [of d "[(fb, n)]"] by (simp_all add: run_Cons del: observe_run.simps(2))
  from Cons.prems x consider "snd (observe fb n d) = Apply e"
    | "e \<in> set (snd (observe_run (fst (observe fb n d)) ns))"
    by (auto simp: run_Cons simp del: observe_run.simps split: projectionDecision.splits)
  then show ?case
  proof cases
    case 1
    then show ?thesis using observe_applied by blast
  next
    case 2
    then show ?thesis using Cons.IH fr by metis
  qed
qed

lemma consecutive_nth:
  "consecutive_from p ns \<Longrightarrow> i < length ns \<Longrightarrow> ns ! i = hd ns + i"
proof (induction ns arbitrary: p i)
  case Nil
  then show ?case by simp
next
  case (Cons n ns)
  show ?case
  proof (cases i)
    case 0
    then show ?thesis by simp
  next
    case (Suc j)
    with Cons have "ns ! j = hd ns + j" and "ns \<noteq> []" by auto
    moreover from Cons.prems \<open>ns \<noteq> []\<close> have "hd ns = Suc n" by (cases ns) auto
    ultimately show ?thesis using Suc by simp
  qed
qed

section \<open>Properties\<close>

text \<open>
  C10: The transcript is folded without gaps, repeats or reordering. Over any run of notifications,
  live or drained from the recovery buffer, the envelopes applied to one thread carry consecutive
  sequence numbers, and they continue the last number applied to that thread before the run.
\<close>
theorem applied_envelopes_consecutive:
  "let (d', applied) = observe_run d ns; seqs = thread_seqs th applied in
     seqs = map (\<lambda>i. hd seqs + i) [0..<length seqs]
     \<and> (case (map_get (d_threadSeq d) th, seqs) of
          (Some k, n # _) \<Rightarrow> n = Suc k
        | _ \<Rightarrow> True)"
proof -
  let ?s = "thread_seqs th (snd (observe_run d ns))"
  have c: "consecutive_from (map_get (d_threadSeq d) th) ?s" by (rule run_consecutive)
  have "?s = map (\<lambda>i. hd ?s + i) [0..<length ?s]"
    using consecutive_nth [OF c] by (intro nth_equalityI) simp_all
  moreover have "case (map_get (d_threadSeq d) th, ?s) of (Some k, n # _) \<Rightarrow> n = Suc k | _ \<Rightarrow> True"
    using c by (cases ?s) (auto split: option.splits)
  ultimately show ?thesis by (simp add: case_prod_beta Let_def)
qed

text \<open>
  Recovery decisions never corrupt the fold. When an observation does not apply an envelope
  (another Session, a duplicate, a stale or malformed envelope, a gap, a lossy replay), the Session,
  both cursors and every thread's last sequence number are unchanged; when it applies one, exactly
  the envelope's thread advances, to the envelope's number, in the same Session.
\<close>
theorem observation_moves_only_what_it_applies:
  "case observe fb n d of
     (d', Apply e) \<Rightarrow> d_sessionId d' = d_sessionId d
        \<and> d_canonicalSnapshotCursor d' = d_canonicalSnapshotCursor d
        \<and> map_get (d_threadSeq d') th =
            (if th = pe_thread_id e then Some (pe_seq e) else map_get (d_threadSeq d) th)
        \<and> d_phase d' = Healthy
   | (d', _) \<Rightarrow> window d' = window d"
proof (cases rule: observe_cases [of n fb d])
  case (applied e)
  have "d_phase (fst (apply_envelope e (the (pe_cursor e)) d)) = Healthy"
    by (auto simp: apply_envelope_def Let_def split: option.splits)
  with applied show ?thesis
    using apply_envelope_simps [of e "the (pe_cursor e)" d]
    by (auto simp: map_get_put simp del: apply_envelope_simps split: prod.splits)
next
  case kept
  then show ?thesis
    by (cases "observe fb n d"; cases "snd (observe fb n d)") auto
qed

text \<open>
  The durable cursor never moves back. Once the Session has a cursor, every run keeps its
  stream and only ever raises its sequence number.
\<close>
theorem cursor_never_moves_back:
  "(case d_cursor d of
      None \<Rightarrow> True
    | Some c \<Rightarrow> (case d_cursor (fst (observe_run d ns)) of
                   None \<Rightarrow> False
                 | Some c' \<Rightarrow> cur_stream c' = cur_stream c \<and> cur_seq c \<le> cur_seq c'))"
  using run_cursor_mono [of d _ ns] by (cases "d_cursor d") auto

lemma run_applied_beyond_snapshot:
  assumes "e \<in> set (snd (observe_run d ns))" and "d_cursor d = Some k"
    and "d_canonicalSnapshotCursor d = Some s"
  shows "\<exists>c. pe_cursor e = Some c \<and> cur_stream c = cur_stream k
     \<and> (cur_stream k = cur_stream s \<longrightarrow> cur_seq s < cur_seq c)"
  using assms
proof (induction ns arbitrary: d k)
  case Nil
  then show ?case by simp
next
  case (Cons x ns)
  obtain fb n where x: "x = (fb, n)" by (cases x)
  let ?d = "fst (observe fb n d)"
  from x Cons.prems(1) consider "snd (observe fb n d) = Apply e" | "e \<in> set (snd (observe_run ?d ns))"
    by (auto simp: run_Cons simp del: observe_run.simps split: projectionDecision.splits)
  then show ?case
  proof cases
    case 1
    then have "admissible fb e d" using observe_applied by blast
    with Cons.prems show ?thesis by (auto simp: admissible_def before_checkpoint_def)
  next
    case 2
    have "d_canonicalSnapshotCursor ?d = Some s"
      using run_frame [of d "[(fb, n)]"] Cons.prems(3) by (simp add: run_Cons del: observe_run.simps(2))
    moreover obtain k' where k': "d_cursor ?d = Some k'" "cur_stream k' = cur_stream k"
      using run_cursor_mono [OF Cons.prems(2), of "[(fb, n)]"]
      by (auto simp: run_Cons simp del: observe_run.simps(2))
    ultimately show ?thesis using Cons.IH [OF 2 k'(1)] by simp
  qed
qed

lemma committed_run_beyond:
  assumes "commitHydrate r d = Inr d'" and "hr_projection_thread_sequences r \<noteq> None"
    and "e \<in> set (snd (observe_run d' ns))"
  shows "\<exists>c. pe_cursor e = Some c \<and> cur_stream c = cur_stream (hr_cursor r)
     \<and> cur_seq (hr_cursor r) < cur_seq c"
proof -
  from assms(1,2) have "d_cursor d' = Some (hr_cursor r)"
    "d_canonicalSnapshotCursor d' = Some (hr_cursor r)"
    by (auto simp: commitHydrate_def split: if_splits)
  from run_applied_beyond_snapshot [OF assms(3) this] show ?thesis by simp
qed

text \<open>Without checkpoints, draining the recovery buffer still skips what the hydrate covered.\<close>

lemma run_buffered_beyond:
  assumes "e \<in> set (snd (observe_run d ns))" and "d_cursor d = Some k" and "list_all fst ns"
  shows "\<exists>c. pe_cursor e = Some c \<and> cur_stream c = cur_stream k \<and> cur_seq k < cur_seq c"
  using assms
proof (induction ns arbitrary: d k)
  case Nil
  then show ?case by simp
next
  case (Cons x ns)
  obtain n where x: "x = (True, n)" using Cons.prems(3) by (cases x) simp
  let ?d = "fst (observe True n d)"
  from x Cons.prems(1) consider "snd (observe True n d) = Apply e" | "e \<in> set (snd (observe_run ?d ns))"
    by (auto simp: run_Cons simp del: observe_run.simps split: projectionDecision.splits)
  then show ?case
  proof cases
    case 1
    then have "admissible True e d" using observe_applied by blast
    with Cons.prems show ?thesis by (auto simp: admissible_def buffered_stale_def)
  next
    case 2
    obtain k' where k': "d_cursor ?d = Some k'" "cur_stream k' = cur_stream k" "cur_seq k \<le> cur_seq k'"
      using run_cursor_mono [OF Cons.prems(2), of "[(True, n)]"]
      by (auto simp: run_Cons simp del: observe_run.simps(2))
    from Cons.IH [OF 2 k'(1)] Cons.prems(3) k'(2,3) show ?thesis by fastforce
  qed
qed

lemma committed_buffer_beyond:
  assumes "commitHydrate r d = Inr d'" and "list_all fst ns"
    and "e \<in> set (snd (observe_run d' ns))"
  shows "\<exists>c. pe_cursor e = Some c \<and> cur_stream c = cur_stream (hr_cursor r)
     \<and> cur_seq (hr_cursor r) < cur_seq c"
proof -
  from assms(1) have "d_cursor d' = Some (hr_cursor r)" by (auto simp: commitHydrate_def split: if_splits)
  from run_buffered_beyond [OF assms(3) this assms(2)] show ?thesis .
qed

text \<open>
  C11: What a canonical snapshot contains is never folded again. After a hydrate result with thread
  checkpoints is committed, every envelope that any run applies, live or buffered, is on the
  snapshot's stream and beyond the snapshot's cursor.
\<close>
theorem snapshot_contents_never_reapplied:
  assumes "commitHydrate r d = Inr d'" and "hr_projection_thread_sequences r \<noteq> None"
    and "e \<in> set (snd (observe_run d' ns))"
  shows "\<exists>c. pe_cursor e = Some c \<and> cur_stream c = cur_stream (hr_cursor r)
     \<and> cur_seq (hr_cursor r) < cur_seq c"
  by (rule committed_run_beyond [OF assms])

text \<open>A Session restored at cursor 4 of its stream, thread \<open>t\<close> at 7, and the next live envelope.\<close>

definition sample_hydrate :: sessionHydrateResult where
  "sample_hydrate = \<lparr>hr_session_id = ''s'', hr_cursor = \<lparr>cur_stream = ''e'', cur_seq = 4\<rparr>,
     hr_context = None, hr_context_state = None, hr_messages = None, hr_file_mutations = None,
     hr_threads = None, hr_turns = None, hr_pending_approvals = None, hr_pending_questions = None,
     hr_replayed_envelopes = None, hr_replayed_tool_envelopes = None,
     hr_replayed_projection_envelopes = Some [], hr_projection_thread_sequences = Some [(''t'', 7)]\<rparr>"

definition sample_envelope :: projectionEnvelope where
  "sample_envelope = \<lparr>pe_session_id = ''s'', pe_thread_id = ''t'', pe_seq = 8, pe_turn_id = ''u'',
     pe_payload = \<lparr>pp_type = ''turn_started'', pp_data = JObj []\<rparr>, pe_topic = None,
     pe_client_message_id = None, pe_cursor = Some \<lparr>cur_stream = ''e'', cur_seq = 5\<rparr>\<rparr>"

definition sample_notice :: rpcNotification where
  "sample_notice = \<lparr>nt_method = M_PROJECTION_ENVELOPE, nt_params = Some (encode_envelope sample_envelope)\<rparr>"

definition sample_session :: durable where
  "sample_session = projr (commitHydrate sample_hydrate (beginHydrate ''s'' initial_durable))"

lemma sample_commit: "commitHydrate sample_hydrate (beginHydrate ''s'' initial_durable) = Inr sample_session"
  by (simp add: sample_session_def commitHydrate_def beginHydrate_def sample_hydrate_def)

lemma sample_applied: "snd (observe_run sample_session [(False, sample_notice)]) = [sample_envelope]"
  by code_simp

lemma snapshot_contents_never_reapplied_witness:
  "\<exists>c. pe_cursor sample_envelope = Some c \<and> cur_stream c = cur_stream (hr_cursor sample_hydrate)
     \<and> cur_seq (hr_cursor sample_hydrate) < cur_seq c"
  by (rule snapshot_contents_never_reapplied [OF sample_commit, of _ "[(False, sample_notice)]"])
    (simp_all add: sample_applied sample_hydrate_def del: observe_run.simps)

text \<open>
  A hydrate result of another Session is refused with an error and leaves the Session as it
  was; the result of this Session makes the cursor, the snapshot cursor and the thread checkpoints
  exactly those of the result, and the Session healthy.
\<close>
theorem hydrate_commits_only_its_session:
  "case commitHydrate r d of
     Inl msg \<Rightarrow> hr_session_id r \<noteq> d_sessionId d
   | Inr d' \<Rightarrow> hr_session_id r = d_sessionId d \<and> d_sessionId d' = d_sessionId d
       \<and> d_cursor d' = Some (hr_cursor r) \<and> d_phase d' = Healthy
       \<and> d_canonicalSnapshotCursor d' = map_option (\<lambda>_. hr_cursor r) (hr_projection_thread_sequences r)
       \<and> (\<forall>th. map_get (d_threadSeq d') th = (case hr_projection_thread_sequences r of
            None \<Rightarrow> None | Some m \<Rightarrow> map_get (map_of_entries m) th))"
  by (auto simp: commitHydrate_def map_get_def split: option.splits)


text \<open>
  Only this Session's events are folded: every envelope that any run applies is addressed to the
  Session, by its key and topic, and a Session without an id folds nothing.
\<close>
theorem applied_envelopes_in_scope:
  "list_all (\<lambda>e. d_sessionId d \<noteq> [] \<and> matchesSessionScope (d_sessionId d) (pe_session_id e) (pe_topic e))
     (snd (observe_run d ns))"
  using run_applied_admissible by (fastforce simp: list_all_iff admissible_def durable_matchesScope_def)

end
