(* ===== verification/SessionMemory.thy ===== *)
theory SessionMemory
  imports Wire
begin

text \<open>
  What a browser tab remembers: unsent drafts, \<open>features/session/session-draft-cache.ts\<close>, and the
  Session references it has opened, \<open>features/session/known-session-registry.ts\<close>. Both are
  bounded; both read storage that anyone may have written. They are clients of the ordered map.
\<close>

section \<open>Drafts (\<open>session-draft-cache.ts\<close>)\<close>

definition max_drafts :: nat where
  "max_drafts = 50"

type_synonym draftRecord = "string \<times> string"

fun draft_entry :: "json \<Rightarrow> draftRecord option" where
  "draft_entry (JArr [JStr k, JStr t]) =
     (if k = [] \<or> length k > 16384 then None else Some (k, t))"
| "draft_entry _ = None"

definition draft_size :: "draftRecord \<Rightarrow> nat" where
  "draft_size d = length (fst d) + length (snd d)"

text \<open>The loop from the newest entry to the oldest; the first argument is the reversed array.\<close>

fun drafts_loop :: "json list \<Rightarrow> nat \<Rightarrow> string set \<Rightarrow> draftRecord list \<Rightarrow> draftRecord list" where
  "drafts_loop [] sz seen result = result"
| "drafts_loop (e # es) sz seen result =
     (case draft_entry e of
        None \<Rightarrow> drafts_loop es sz seen result
      | Some d \<Rightarrow>
          if fst d \<in> seen then drafts_loop es sz seen result
          else if sz + draft_size d > 524288 then drafts_loop es sz seen result
          else drafts_loop es (sz + draft_size d) (insert (fst d) seen) (d # result))"

definition parseSessionDrafts :: "unknown \<Rightarrow> draftRecord list" where
  "parseSessionDrafts v =
     (case as_array v of None \<Rightarrow> [] | Some xs \<Rightarrow> drafts_loop (rev xs) 0 {} [])"

type_synonym draftCache = "(string, string) jsmap"

definition new_draft_cache :: "draftRecord list \<Rightarrow> draftCache" where
  "new_draft_cache initial = map_of_entries initial"

definition draft_get :: "draftCache \<Rightarrow> string \<Rightarrow> string option" where
  "draft_get c s = map_get c s"

text \<open>The result is the new cache and the session whose draft \<open>onEvict\<close> was called with, if any.\<close>

definition draft_set :: "draftCache \<Rightarrow> string \<Rightarrow> string \<Rightarrow> draftCache \<times> string option" where
  "draft_set c s text =
     (if text = [] then (map_del s c, None)
      else let oldest = (if \<not> map_has c s \<and> length c \<ge> max_drafts then first_key c else None);
               c' = (case oldest of None \<Rightarrow> c | Some k \<Rightarrow> map_del k c)
           in (map_put s text c', oldest))"

definition draft_snapshot :: "draftCache \<Rightarrow> draftRecord list" where
  "draft_snapshot c = c"

definition draft_clear :: "draftCache \<Rightarrow> draftCache" where
  "draft_clear c = []"

text \<open>The operations as steps.\<close>

datatype draft_op = DSet string string | DClear

fun draft_step :: "draftCache \<Rightarrow> draft_op \<Rightarrow> draftCache" where
  "draft_step c (DSet s t) = fst (draft_set c s t)"
| "draft_step c DClear = draft_clear c"

definition total_size :: "draftRecord list \<Rightarrow> nat" where
  "total_size ds = sum_list (map draft_size ds)"

lemma draft_entry_Some:
  "draft_entry e = Some d \<Longrightarrow> e = JArr [JStr (fst d), JStr (snd d)] \<and> fst d \<noteq> []
     \<and> length (fst d) \<le> 16384"
  by (cases e rule: draft_entry.cases) (auto split: if_splits)

lemma drafts_loop_invariant:
  "seen = fst ` set result \<Longrightarrow> distinct (map fst result) \<Longrightarrow> sz = total_size result \<Longrightarrow> sz \<le> 524288
     \<Longrightarrow> distinct (map fst (drafts_loop es sz seen result))
       \<and> total_size (drafts_loop es sz seen result) \<le> 524288"
proof (induction es arbitrary: sz seen result)
  case Nil
  then show ?case by simp
next
  case (Cons e es)
  show ?case
  proof (cases "\<exists>d. draft_entry e = Some d \<and> fst d \<notin> seen \<and> sz + draft_size d \<le> 524288")
    case False
    then have "drafts_loop (e # es) sz seen result = drafts_loop es sz seen result"
      by (auto split: option.splits)
    with Cons show ?thesis by simp
  next
    case True
    then obtain d where d: "draft_entry e = Some d" "fst d \<notin> seen" "sz + draft_size d \<le> 524288"
      by blast
    then have "drafts_loop (e # es) sz seen result
        = drafts_loop es (sz + draft_size d) (insert (fst d) seen) (d # result)" by simp
    then show ?thesis using Cons.IH [of "insert (fst d) seen" "d # result" "sz + draft_size d"]
        Cons.prems d by (simp add: total_size_def)
  qed
qed

lemma drafts_loop_sources:
  "set (drafts_loop es sz seen result) \<subseteq> set result \<union> {d. \<exists>e \<in> set es. draft_entry e = Some d}"
proof (induction es arbitrary: sz seen result)
  case Nil
  then show ?case by simp
next
  case (Cons e es)
  show ?case
  proof (cases "draft_entry e")
    case None
    with Cons.IH [of sz seen result] show ?thesis by auto
  next
    case (Some d)
    with Cons.IH [of sz seen result] Cons.IH [of "sz + draft_size d" "insert (fst d) seen" "d # result"]
    show ?thesis by auto
  qed
qed

text \<open>Admissible drafts are read back exactly.\<close>

definition encode_draft :: "draftRecord \<Rightarrow> json" where
  "encode_draft d = JArr [JStr (fst d), JStr (snd d)]"

definition draft_ok :: "draftRecord \<Rightarrow> bool" where
  "draft_ok d \<longleftrightarrow> fst d \<noteq> [] \<and> length (fst d) \<le> 16384"

lemma drafts_loop_encoded:
  assumes "list_all draft_ok ds" and "distinct (map fst ds)" and "fst ` set ds \<inter> seen = {}"
    and "sz + total_size ds \<le> 524288"
  shows "drafts_loop (map encode_draft ds) sz seen result = rev ds @ result"
  using assms
proof (induction ds arbitrary: sz seen result)
  case Nil
  then show ?case by simp
next
  case (Cons d ds)
  have e: "draft_entry (encode_draft d) = Some d"
    using Cons.prems(1) by (simp add: encode_draft_def draft_ok_def)
  have "fst ` set ds \<inter> insert (fst d) seen = {}" using Cons.prems(2,3) by auto
  then have "drafts_loop (map encode_draft ds) (sz + draft_size d) (insert (fst d) seen) (d # result)
      = rev ds @ d # result"
    using Cons.prems by (intro Cons.IH) (auto simp: total_size_def)
  with e Cons.prems show ?case by (auto simp: total_size_def)
qed

lemma parse_drafts_encoded:
  assumes "list_all draft_ok ds" and "distinct (map fst ds)" and "total_size ds \<le> 524288"
  shows "parseSessionDrafts (Some (JArr (map encode_draft ds))) = ds"
proof -
  have "total_size (rev ds) = total_size ds" by (simp add: total_size_def rev_map [symmetric])
  then have "drafts_loop (map encode_draft (rev ds)) 0 {} [] = rev (rev ds) @ []"
    using assms by (intro drafts_loop_encoded) (simp_all add: rev_map [symmetric])
  then show ?thesis by (simp add: parseSessionDrafts_def rev_map)
qed

lemma draft_set_ok: "map_ok c \<Longrightarrow> map_ok (fst (draft_set c s t))"
  by (auto simp: draft_set_def Let_def split: option.splits)

lemma length_map_keys [simp]: "length (map_keys m) = length m"
  by (simp add: map_keys_def)

lemma first_key_None: "first_key m = None \<longleftrightarrow> m = []"
  by (auto simp: first_key_def split: list.splits)

text \<open>The client law of the ordered map: evict, then insert, stays within the bound.\<close>

lemma draft_set_bound:
  assumes "map_ok c" and "length c \<le> max_drafts"
  shows "length (fst (draft_set c s t)) \<le> max_drafts"
proof (cases "t \<noteq> [] \<and> \<not> map_has c s \<and> length c \<ge> max_drafts")
  case True
  then obtain k where k: "first_key c = Some k"
    by (cases "first_key c") (auto simp: first_key_None max_drafts_def)
  then obtain ks where "map_keys c = k # ks" using first_key_Some by metis
  from jsm.evict_then_put_bound [OF assms(1) this] assms(2)
  have "length (map_put s t (map_del k c)) \<le> max_drafts" by simp
  with True k show ?thesis by (simp add: draft_set_def)
next
  case False
  show ?thesis
  proof (cases "t = []")
    case True
    then have "length (fst (draft_set c s t)) \<le> length c"
      by (simp add: draft_set_def map_del_def)
    with assms(2) show ?thesis by simp
  next
    case t: False
    with False have "length (fst (draft_set c s t)) = length (map_keys (map_put s t c))"
      by (auto simp: draft_set_def)
    also have "\<dots> \<le> max_drafts"
      using False t assms jsm.put_size [OF assms(1), of s t]
      by (auto simp: map_has_def split: if_splits)
    finally show ?thesis .
  qed
qed

section \<open>Known sessions (\<open>known-session-registry.ts\<close>)\<close>

definition max_known_sessions :: nat where
  "max_known_sessions = 100"

record knownSessionRef =
  ks_sessionId :: string
  ks_profileId :: string
  ks_workspaceRoot :: string
  ks_lastOpenedAt :: nat

record sessionOpened =
  so_session_id :: string
  so_active_profile_id :: "string option"
  so_workspace_root :: "string option"

definition boundedText :: "unknown \<Rightarrow> nat \<Rightarrow> string option" where
  "boundedText v limit =
     (case as_string v of
        None \<Rightarrow> None
      | Some s \<Rightarrow> let text = trim s in if text \<noteq> [] \<and> length text \<le> limit then Some text else None)"

definition timestamp :: "unknown \<Rightarrow> nat option" where
  "timestamp v = nonneg_int v"

definition known_session :: "unknown \<Rightarrow> unknown \<Rightarrow> unknown \<Rightarrow> unknown \<Rightarrow> knownSessionRef option" where
  "known_session sid prof root at =
     (case (boundedText sid 1024, boundedText prof 512, boundedText root 4096, timestamp at) of
        (Some s, Some p, Some w, Some t) \<Rightarrow>
          Some \<lparr>ks_sessionId = s, ks_profileId = p, ks_workspaceRoot = w, ks_lastOpenedAt = t\<rparr>
      | _ \<Rightarrow> None)"

definition knownSessionFromOpened :: "sessionOpened \<Rightarrow> jnum \<Rightarrow> knownSessionRef option" where
  "knownSessionFromOpened opened now =
     known_session (Some (JStr (so_session_id opened)))
       (map_option JStr (so_active_profile_id opened))
       (map_option JStr (so_workspace_root opened)) (Some (JNum now))"

definition parseKnownSession :: "unknown \<Rightarrow> knownSessionRef option" where
  "parseKnownSession v =
     (case as_record v of
        None \<Rightarrow> None
      | Some o' \<Rightarrow> known_session (fld o' ''sessionId'') (fld o' ''profileId'')
                    (fld o' ''workspaceRoot'') (fld o' ''lastOpenedAt''))"

definition knownSessionKey :: "knownSessionRef \<Rightarrow> string" where
  "knownSessionKey s = stringify_strings [ks_workspaceRoot s, ks_profileId s, ks_sessionId s]"

definition by_key :: "knownSessionRef list \<Rightarrow> (string, knownSessionRef) jsmap" where
  "by_key entries =
     foldl (\<lambda>m e. case map_get m (knownSessionKey e) of
                    None \<Rightarrow> map_put (knownSessionKey e) e m
                  | Some previous \<Rightarrow>
                      if ks_lastOpenedAt e > ks_lastOpenedAt previous
                      then map_put (knownSessionKey e) e m else m)
       [] entries"

text \<open>\<open>sort\<close> is stable; the comparator is \<open>right - left\<close>, newest first.\<close>

definition sort_recency :: "knownSessionRef list \<Rightarrow> knownSessionRef list" where
  "sort_recency es = sort_key (\<lambda>e. - int (ks_lastOpenedAt e)) es"

definition canonicalize :: "knownSessionRef list \<Rightarrow> knownSessionRef list" where
  "canonicalize entries =
     (let m = by_key entries;
          expired = drop max_known_sessions (sort_recency (map_values m))
      in map_values (foldl (\<lambda>m e. map_del (knownSessionKey e) m) m expired))"

definition parseKnownSessionRegistry :: "unknown \<Rightarrow> knownSessionRef list" where
  "parseKnownSessionRegistry v =
     (case as_array v of
        None \<Rightarrow> []
      | Some xs \<Rightarrow>
          if length xs > max_known_sessions then []
          else (case those (map (\<lambda>e. parseKnownSession (Some e)) xs) of
                  None \<Rightarrow> []
                | Some es \<Rightarrow> canonicalize es))"

definition rememberKnownSession ::
    "knownSessionRef list \<Rightarrow> sessionOpened \<Rightarrow> jnum \<Rightarrow> knownSessionRef list" where
  "rememberKnownSession current opened now =
     (case knownSessionFromOpened opened now of
        None \<Rightarrow> canonicalize current
      | Some next \<Rightarrow>
          let nextKey = knownSessionKey next in
          canonicalize
            (if list_ex (\<lambda>e. knownSessionKey e = nextKey) current
             then map (\<lambda>e. if knownSessionKey e = nextKey then next else e) current
             else next # current))"

lemma knownSessionKey_eq:
  "knownSessionKey a = knownSessionKey b \<longleftrightarrow>
     ks_workspaceRoot a = ks_workspaceRoot b \<and> ks_profileId a = ks_profileId b
     \<and> ks_sessionId a = ks_sessionId b"
  by (simp add: knownSessionKey_def stringify_strings_inject)

lemma foldl_map_del: "foldl (\<lambda>m e. map_del (f e) m) m es = filter (\<lambda>kv. fst kv \<notin> f ` set es) m"
proof (induction es arbitrary: m)
  case Nil
  then show ?case by simp
next
  case (Cons e es)
  then show ?case by (auto simp: map_del_def intro: filter_cong)
qed

text \<open>What the grouping keeps: one entry per key, stored under its own key, the newest of its key.\<close>

definition grouped :: "knownSessionRef list \<Rightarrow> (string, knownSessionRef) jsmap \<Rightarrow> bool" where
  "grouped es m \<longleftrightarrow> map_ok m \<and> (\<forall>(k, e) \<in> set m. k = knownSessionKey e \<and> e \<in> set es)
     \<and> (\<forall>e \<in> set es. \<exists>e'. map_get m (knownSessionKey e) = Some e'
          \<and> ks_lastOpenedAt e \<le> ks_lastOpenedAt e')"

lemma grouped_by_key: "grouped es (by_key es)"
proof (induction es rule: rev_induct)
  case Nil
  then show ?case by (simp add: grouped_def by_key_def)
next
  case (snoc e es)
  let ?m = "by_key es" and ?k = "knownSessionKey e"
  have ok: "map_ok ?m" using snoc by (simp add: grouped_def)
  show ?case
  proof (cases "map_get ?m ?k = None \<or>
      (\<exists>p. map_get ?m ?k = Some p \<and> ks_lastOpenedAt e > ks_lastOpenedAt p)")
    case True
    then have eq: "by_key (es @ [e]) = map_put ?k e ?m" by (auto simp: by_key_def)
    have "\<forall>(k, x) \<in> set (map_put ?k e ?m). k = knownSessionKey x \<and> x \<in> set (es @ [e])"
      using snoc set_map_put [of ?k e ?m] by (fastforce simp: grouped_def)
    moreover have "\<exists>y. map_get (map_put ?k e ?m) (knownSessionKey x) = Some y
        \<and> ks_lastOpenedAt x \<le> ks_lastOpenedAt y" if "x \<in> set (es @ [e])" for x
    proof (cases "knownSessionKey x = ?k")
      case same: True
      have "ks_lastOpenedAt x \<le> ks_lastOpenedAt e" if "x \<in> set es"
        using that snoc same True by (fastforce simp: grouped_def)
      with that same show ?thesis by (auto simp: map_get_put)
    next
      case False
      with that snoc show ?thesis by (auto simp: map_get_put grouped_def)
    qed
    ultimately show ?thesis using ok eq by (simp add: grouped_def)
  next
    case False
    then obtain p where p: "map_get ?m ?k = Some p" by (cases "map_get ?m ?k") auto
    with False have le: "ks_lastOpenedAt e \<le> ks_lastOpenedAt p" by auto
    with p have "by_key (es @ [e]) = ?m" by (simp add: by_key_def)
    with snoc p le show ?thesis by (fastforce simp: grouped_def)
  qed
qed

lemma grouped_values:
  assumes "grouped es m"
  shows "map_keys m = map knownSessionKey (map_values m)"
    and "distinct (map knownSessionKey (map_values m))"
proof -
  show eq: "map_keys m = map knownSessionKey (map_values m)"
    using assms by (auto simp: grouped_def map_keys_def map_values_def)
  show "distinct (map knownSessionKey (map_values m))"
    using assms unfolding eq [symmetric] by (simp add: grouped_def map_ok_def)
qed

text \<open>The canonical list is the grouped list without the entries past the bound.\<close>

lemma canonicalize_filter:
  "canonicalize es =
     (let vs = map_values (by_key es) in
      filter (\<lambda>e. knownSessionKey e \<notin> knownSessionKey ` set (drop max_known_sessions (sort_recency vs))) vs)"
proof -
  let ?m = "by_key es"
  let ?D = "knownSessionKey ` set (drop max_known_sessions (sort_recency (map_values ?m)))"
  have "map_values (filter (\<lambda>kv. fst kv \<notin> ?D) m) =
      filter (\<lambda>e. knownSessionKey e \<notin> ?D) (map_values m)"
    if "\<forall>(k, e) \<in> set m. k = knownSessionKey e" for m
    using that by (induction m) (auto simp: map_values_def)
  moreover have "\<forall>(k, e) \<in> set ?m. k = knownSessionKey e"
    using grouped_by_key [of es] by (auto simp: grouped_def)
  ultimately show ?thesis by (simp add: canonicalize_def Let_def foldl_map_del)
qed

lemma sort_recency_set [simp]: "set (sort_recency vs) = set vs"
  by (simp add: sort_recency_def)

lemma sort_recency_length [simp]: "length (sort_recency vs) = length vs"
  by (simp add: sort_recency_def)

lemma sort_recency_distinct:
  "distinct (map knownSessionKey vs) \<Longrightarrow> distinct (map knownSessionKey (sort_recency vs))"
  by (simp add: sort_recency_def distinct_map)

lemma kept_set:
  assumes "distinct (map knownSessionKey vs)"
  shows "set (filter (\<lambda>e. knownSessionKey e \<notin> knownSessionKey ` set (drop n (sort_recency vs))) vs)
     = set (take n (sort_recency vs))"
proof -
  let ?s = "sort_recency vs"
  have d: "distinct (map knownSessionKey (take n ?s @ drop n ?s))"
    using sort_recency_distinct [OF assms] by simp
  have vs: "set vs = set (take n ?s) \<union> set (drop n ?s)"
    by (metis append_take_drop_id set_append sort_recency_set)
  show ?thesis using d vs 
    by (fastforce simp: image_iff simp del: append_take_drop_id)
qed

section \<open>Properties\<close>

lemma parsed_draft_sources:
  "d \<in> set (parseSessionDrafts v) \<Longrightarrow> \<exists>xs. v = Some (JArr xs) \<and> encode_draft d \<in> set xs \<and> draft_ok d"
proof -
  assume d: "d \<in> set (parseSessionDrafts v)"
  then obtain xs where v: "v = Some (JArr xs)"
    by (cases v rule: as_array.cases) (auto simp: parseSessionDrafts_def)
  with d have "d \<in> set (drafts_loop (rev xs) 0 {} [])" by (simp add: parseSessionDrafts_def)
  with drafts_loop_sources [of "rev xs" 0 "{}" "[]"] obtain e
    where "e \<in> set xs" "draft_entry e = Some d" by auto
  with draft_entry_Some [of e d] v show ?thesis by (auto simp: encode_draft_def draft_ok_def)
qed

text \<open>
  Whatever is in tab storage, the drafts read from it have distinct non-empty keys of bounded
  length, hold at most 524,288 code units together, and each of them is an entry of the stored
  array, unchanged: a draft is dropped whole or kept whole, never cut.
\<close>
theorem parsed_drafts_bounded:
  "distinct (map fst (parseSessionDrafts v)) \<and> total_size (parseSessionDrafts v) \<le> 524288
   \<and> list_all (\<lambda>d. draft_ok d \<and> (case as_array v of None \<Rightarrow> False | Some xs \<Rightarrow> encode_draft d \<in> set xs))
       (parseSessionDrafts v)"
proof -
  have "distinct (map fst (parseSessionDrafts v)) \<and> total_size (parseSessionDrafts v) \<le> 524288"
    using drafts_loop_invariant [of "{}" "[]" 0]
    by (auto simp: parseSessionDrafts_def total_size_def split: option.splits)
  then show ?thesis using parsed_draft_sources by (fastforce simp: list_all_iff)
qed

lemma draft_run_ok: "map_ok c \<Longrightarrow> map_ok (foldl draft_step c ops)"
proof (induction ops arbitrary: c)
  case (Cons x ops)
  then show ?case by (cases x) (simp_all add: draft_set_ok draft_clear_def)
qed simp

lemma draft_run_bound:
  "map_ok c \<Longrightarrow> length c \<le> max_drafts \<Longrightarrow> length (foldl draft_step c ops) \<le> max_drafts"
proof (induction ops arbitrary: c)
  case (Cons x ops)
  then show ?case by (cases x) (simp_all add: draft_set_ok draft_set_bound draft_clear_def)
qed simp

text \<open>
  Saved drafts survive a reload. The drafts a cache holds after any run of saves and clears,
  written to storage and parsed again, are the same drafts in the same order, as long as their keys
  are short enough to be read back and they fit the budget together.
\<close>
theorem drafts_survive_reload:
  assumes "list_all draft_ok (foldl draft_step (new_draft_cache initial) ops)"
    and "total_size (draft_snapshot (foldl draft_step (new_draft_cache initial) ops)) \<le> 524288"
  shows "new_draft_cache (parseSessionDrafts (Some (JArr (map encode_draft
       (draft_snapshot (foldl draft_step (new_draft_cache initial) ops))))))
     = foldl draft_step (new_draft_cache initial) ops"
proof -
  let ?c = "foldl draft_step (new_draft_cache initial) ops"
  have "map_ok ?c" by (intro draft_run_ok) (simp add: new_draft_cache_def map_ok_entries)
  then have d: "distinct (map fst ?c)" by (simp add: map_ok_def map_keys_def)
  with assms show ?thesis
    by (simp add: draft_snapshot_def parse_drafts_encoded new_draft_cache_def map_of_entries_distinct)
qed

lemma drafts_survive_reload_witness:
  "new_draft_cache (parseSessionDrafts (Some (JArr (map encode_draft
       (draft_snapshot (foldl draft_step (new_draft_cache [(''a'', ''x'')]) [DSet ''b'' ''y'', DSet ''a'' []]))))))
     = foldl draft_step (new_draft_cache [(''a'', ''x'')]) [DSet ''b'' ''y'', DSet ''a'' []]"
  by (rule drafts_survive_reload)
    (simp_all add: new_draft_cache_def map_of_entries_def draft_set_def map_has_def map_get_def
      max_drafts_def map_del_def draft_snapshot_def total_size_def draft_size_def draft_ok_def)

text \<open>
  Saving a draft affects that Session, and at most one other: the new text is read back, an
  empty text removes the draft, and every other Session's draft is unchanged except the one reported
  as evicted, which is the oldest and is evicted only by a new Session in a full cache.
\<close>
theorem draft_save_evicts_only_oldest:
  "let (c', evicted) = draft_set c s text in
     draft_get c' k = (if k = s then (if text = [] then None else Some text)
                       else if evicted = Some k then None else draft_get c k)
     \<and> evicted = (if text = [] \<or> draft_get c s \<noteq> None \<or> length c < max_drafts then None else first_key c)"
  by (auto simp: draft_set_def Let_def draft_get_def map_has_def jsm_simps not_less split: option.splits)

text \<open>
  The cache never holds more than fifty drafts: starting within the bound, every run of saves
  and clears stays within it.
\<close>
theorem draft_cache_bounded:
  assumes "length (new_draft_cache initial) \<le> max_drafts"
  shows "length (draft_snapshot (foldl draft_step (new_draft_cache initial) ops)) \<le> 50"
  using draft_run_bound [OF _ assms, of ops]
  by (simp add: draft_snapshot_def new_draft_cache_def map_ok_entries max_drafts_def)

lemma draft_cache_bounded_witness:
  "length (draft_snapshot (foldl draft_step (new_draft_cache [(''a'', ''x'')]) [DSet ''b'' ''y''])) \<le> 50"
  by (rule draft_cache_bounded) (simp add: new_draft_cache_def map_of_entries_def max_drafts_def)

lemma by_key_distinct:
  "distinct (map knownSessionKey es) \<Longrightarrow> by_key es = map (\<lambda>e. (knownSessionKey e, e)) es"
proof (induction es rule: rev_induct)
  case Nil
  then show ?case by (simp add: by_key_def)
next
  case (snoc e es)
  then have m: "by_key es = map (\<lambda>e. (knownSessionKey e, e)) es" by simp
  moreover from snoc.prems m have "map_get (by_key es) (knownSessionKey e) = None"
    by (auto simp: map_get_def map_of_eq_None_iff)
  moreover have "by_key (es @ [e]) = (case map_get (by_key es) (knownSessionKey e) of
      None \<Rightarrow> map_put (knownSessionKey e) e (by_key es)
    | Some p \<Rightarrow> if ks_lastOpenedAt e > ks_lastOpenedAt p then map_put (knownSessionKey e) e (by_key es)
               else by_key es)"
    unfolding by_key_def by simp
  ultimately show ?case by (simp add: map_put_absent)
qed

lemma canonical_facts:
  fixes es
  defines "vs \<equiv> map_values (by_key es)"
  shows "distinct (map knownSessionKey (canonicalize es))"
    and "set (canonicalize es) = set (take max_known_sessions (sort_recency vs))"
    and "length (canonicalize es) = min max_known_sessions (length vs)"
    and "set vs \<subseteq> set es"
proof -
  have g: "grouped es (by_key es)" by (rule grouped_by_key)
  have d: "distinct (map knownSessionKey vs)"
    unfolding vs_def by (rule grouped_values [OF g])
  have c: "canonicalize es = filter (\<lambda>e. knownSessionKey e
      \<notin> knownSessionKey ` set (drop max_known_sessions (sort_recency vs))) vs"
    by (simp add: canonicalize_filter vs_def Let_def)
  show dc: "distinct (map knownSessionKey (canonicalize es))"
    unfolding c using d by (simp add: distinct_map_filter)
  show s: "set (canonicalize es) = set (take max_known_sessions (sort_recency vs))"
    unfolding c by (rule kept_set [OF d])
  have "length (canonicalize es) = card (set (canonicalize es))"
    using dc by (simp add: distinct_map distinct_card)
  also have "\<dots> = length (take max_known_sessions (sort_recency vs))"
    unfolding s using sort_recency_distinct [OF d]
    by (intro distinct_card) (simp add: distinct_map)
  finally show "length (canonicalize es) = min max_known_sessions (length vs)" by (simp add: min.commute)
  show "set vs \<subseteq> set es" using g by (auto simp: vs_def grouped_def map_values_def)
qed

lemma canonical_id:
  assumes "distinct (map knownSessionKey es)" and "length es \<le> max_known_sessions"
  shows "canonicalize es = es"
proof -
  have v: "map_values (by_key es) = es" by (simp add: by_key_distinct [OF assms(1)] map_values_def comp_def)
  show ?thesis using assms(2) by (simp add: canonicalize_filter v Let_def)
qed

lemma sort_recency_split:
  assumes "a \<in> set (take n (sort_recency vs))" and "b \<in> set (drop n (sort_recency vs))"
  shows "ks_lastOpenedAt b \<le> ks_lastOpenedAt a"
proof -
  have "sorted (map (\<lambda>e. - int (ks_lastOpenedAt e)) (take n (sort_recency vs) @ drop n (sort_recency vs)))"
    by (simp add: sort_recency_def)
  with assms show ?thesis unfolding map_append sorted_append by fastforce
qed

text \<open>
  The registry of known Sessions is canonical: distinct identities, at most 100 of them, each
  one of the given entries, and reading it again changes nothing. An entry that is not kept was
  outranked: its identity is kept with a time at least as late, or the registry is full of entries
  opened at least as late.
\<close>
theorem registry_canonical:
  "let r = canonicalize es in
     distinct (map knownSessionKey r) \<and> length r \<le> 100 \<and> set r \<subseteq> set es \<and> canonicalize r = r
     \<and> list_all (\<lambda>e. list_ex (\<lambda>e'. knownSessionKey e' = knownSessionKey e \<and> ks_lastOpenedAt e \<le> ks_lastOpenedAt e') r
         \<or> length r = 100 \<and> list_all (\<lambda>e'. ks_lastOpenedAt e \<le> ks_lastOpenedAt e') r) es"
proof -
  let ?r = "canonicalize es" and ?vs = "map_values (by_key es)"
  note f = canonical_facts [of es]
  have len: "length ?r \<le> 100" using f(3) by (simp add: max_known_sessions_def)
  have sub: "set ?r \<subseteq> set es"
    using f(2,4) by (metis dual_order.trans set_take_subset sort_recency_set)
  have "list_ex (\<lambda>e'. knownSessionKey e' = knownSessionKey e \<and> ks_lastOpenedAt e \<le> ks_lastOpenedAt e') ?r
      \<or> length ?r = 100 \<and> list_all (\<lambda>e'. ks_lastOpenedAt e \<le> ks_lastOpenedAt e') ?r"
    if "e \<in> set es" for e
  proof -
    from that grouped_by_key [of es] obtain e' where
      e': "map_get (by_key es) (knownSessionKey e) = Some e'" "ks_lastOpenedAt e \<le> ks_lastOpenedAt e'"
      by (auto simp: grouped_def)
    then have mem: "(knownSessionKey e, e') \<in> set (by_key es)"
      using grouped_by_key [of es] by (simp add: grouped_def map_ok_member)
    then have key: "knownSessionKey e' = knownSessionKey e" using grouped_by_key [of es]
      by (auto simp: grouped_def)
    from mem have "e' \<in> set ?vs" by (force simp: map_values_def)
    then have "e' \<in> set (take max_known_sessions (sort_recency ?vs))
        \<or> e' \<in> set (drop max_known_sessions (sort_recency ?vs))"
      by (metis Un_iff append_take_drop_id set_append sort_recency_set)
    then show ?thesis
    proof
      assume "e' \<in> set (take max_known_sessions (sort_recency ?vs))"
      with f(2) e'(2) key show ?thesis by (auto simp: list_ex_iff)
    next
      assume d: "e' \<in> set (drop max_known_sessions (sort_recency ?vs))"
      then have "max_known_sessions < length ?vs"
        by (metis drop_all empty_iff list.set(1) not_le sort_recency_length)
      then have "length ?r = 100" using f(3) by (simp add: max_known_sessions_def)
      moreover have "ks_lastOpenedAt e \<le> ks_lastOpenedAt a" if "a \<in> set ?r" for a
        using that f(2) sort_recency_split [OF _ d, of a] e'(2) by simp
      ultimately show ?thesis by (simp add: list_all_iff)
    qed
  qed
  then show ?thesis
    using len sub f(1) canonical_id [OF f(1)] by (simp add: Let_def list_all_iff max_known_sessions_def)
qed

lemma newest_first_kept:
  assumes "distinct (map knownSessionKey (e # es))"
    and "\<forall>x \<in> set es. ks_lastOpenedAt x \<le> ks_lastOpenedAt e"
  shows "e \<in> set (canonicalize (e # es))"
proof -
  have v: "map_values (by_key (e # es)) = e # es"
    by (simp only: by_key_distinct [OF assms(1)] map_values_def) (simp add: comp_def)
  have "sort_recency (e # es) = e # sort_recency es"
  proof (cases "sort_recency es")
    case Nil
    then show ?thesis by (simp add: sort_recency_def)
  next
    case (Cons y ys)
    then have "y \<in> set es" by (metis list.set_intros(1) sort_recency_set)
    with assms(2) Cons show ?thesis by (simp add: sort_recency_def)
  qed
  then show ?thesis using canonical_facts(2) [of "e # es"] v by (simp add: max_known_sessions_def)
qed

text \<open>
  Opening a Session again keeps its place in the registry, with its new time; a new Session goes
  to the front, and when the registry is full it replaces one entry and is itself kept.
\<close>
theorem remember_updates_in_place:
  assumes "distinct (map knownSessionKey current)" and "length current \<le> 100"
    and "knownSessionFromOpened opened now = Some next"
    and "\<forall>x \<in> set current. ks_lastOpenedAt x \<le> ks_lastOpenedAt next"
  shows "let r = rememberKnownSession current opened now in
     if knownSessionKey next \<in> knownSessionKey ` set current
     then r = map (\<lambda>e. if knownSessionKey e = knownSessionKey next then next else e) current
     else if length current < 100 then r = next # current
     else next \<in> set r \<and> length r = 100 \<and> set r \<subseteq> insert next (set current)"
proof (cases "knownSessionKey next \<in> knownSessionKey ` set current")
  case True
  let ?u = "map (\<lambda>e. if knownSessionKey e = knownSessionKey next then next else e) current"
  have "map knownSessionKey ?u = map knownSessionKey current" by simp
  then have "canonicalize ?u = ?u"
    using assms(1,2) by (intro canonical_id) (simp_all only: length_map max_known_sessions_def)
  with True assms(3) show ?thesis by (auto simp: rememberKnownSession_def Let_def list_ex_iff)
next
  case False
  then have r: "rememberKnownSession current opened now = canonicalize (next # current)"
    using assms(3) by (auto simp: rememberKnownSession_def Let_def list_ex_iff image_iff)
  from False assms(1) have d: "distinct (map knownSessionKey (next # current))" by simp
  then have v: "map_values (by_key (next # current)) = next # current"
    by (simp only: by_key_distinct map_values_def) (simp add: comp_def)
  show ?thesis
  proof (cases "length current < 100")
    case True
    with d have "canonicalize (next # current) = next # current"
      by (intro canonical_id) (simp_all add: max_known_sessions_def)
    with False True r show ?thesis by simp
  next
    case full: False
    note f = canonical_facts [of "next # current", unfolded v]
    have "length (canonicalize (next # current)) = 100"
      using f(3) full assms(2) by (simp add: max_known_sessions_def)
    moreover have "set (canonicalize (next # current)) \<subseteq> insert next (set current)"
      using f(2) by (metis list.simps(15) set_take_subset sort_recency_set)
    ultimately show ?thesis
      using False full r newest_first_kept [OF d assms(4)] by simp
  qed
qed

definition sample_opened :: sessionOpened where
  "sample_opened = \<lparr>so_session_id = ''s'', so_active_profile_id = Some ''p'', so_workspace_root = Some ''w''\<rparr>"

definition sample_ref :: "nat \<Rightarrow> knownSessionRef" where
  "sample_ref t = \<lparr>ks_sessionId = ''s'', ks_profileId = ''p'', ks_workspaceRoot = ''w'', ks_lastOpenedAt = t\<rparr>"

lemma sample_next: "knownSessionFromOpened sample_opened (JInt 9) = Some (sample_ref 9)"
  by code_simp

lemma remember_updates_in_place_witness:
  "let r = rememberKnownSession [sample_ref 3] sample_opened (JInt 9) in
     if knownSessionKey (sample_ref 9) \<in> knownSessionKey ` set [sample_ref 3]
     then r = map (\<lambda>e. if knownSessionKey e = knownSessionKey (sample_ref 9) then sample_ref 9 else e) [sample_ref 3]
     else if length [sample_ref 3] < 100 then r = sample_ref 9 # [sample_ref 3]
     else sample_ref 9 \<in> set r \<and> length r = 100 \<and> set r \<subseteq> insert (sample_ref 9) (set [sample_ref 3])"
  by (rule remember_updates_in_place [OF _ _ sample_next]) (simp_all add: sample_ref_def)

end
