(* ===== verification/InteractionLedger.thy ===== *)
theory InteractionLedger
  imports SessionScope Lease
begin

text \<open>
  The interaction authority of a Session, \<open>features/session/session-interaction-ledger.ts\<close>: the
  approvals and questions that wait for the user, and the one response in flight. A stored record
  is a JavaScript object that the code compares by identity; the model gives each stored record a
  fresh reference \<open>ix_ref\<close>. An asynchronous response is two steps: \<open>resolve_begin\<close> runs up to the
  request, \<open>resolve_end\<close> is the rest, run when the answer arrives.

  The authority lookup is an option of the ledger, so it is an argument here.
\<close>

section \<open>State\<close>

datatype interactionKind = KApproval | KQuestion

definition kind_text :: "interactionKind \<Rightarrow> string" where
  "kind_text k = (case k of KApproval \<Rightarrow> ''approval'' | KQuestion \<Rightarrow> ''question'')"

record interactionScope =
  sc_endpoint :: string
  sc_sessionId :: string

record interactionRecord =
  ix_ref :: nat
  ix_kind :: interactionKind
  ix_sessionId :: string
  ix_endpoint :: string
  ix_generation :: nat
  ix_turnId :: string
  ix_requestId :: string
  ix_title :: string
  ix_unread :: bool
  ix_approval :: "approvalRequested option"
  ix_question :: "userQuestionRequested option"

record interactionSnapshot =
  sn_approval :: "approvalRequested option"
  sn_question :: "userQuestionRequested option"
  sn_busy :: bool
  sn_error :: "string option"

record ledger =
  lg_records :: "(string, interactionRecord) jsmap"
  lg_operation :: nat
  lg_busy :: bool
  lg_error :: "string option"
  lg_snapshot :: interactionSnapshot
  lg_next_ref :: nat

record 'c interactionAuthority =
  ia_generation :: nat
  ia_client :: 'c
  ia_sessionId :: string
  ia_capabilities :: "uiProtocolCapabilities option"
  ia_ready :: "bool option"

type_synonym 'c authorities = "string \<Rightarrow> 'c interactionAuthority option"

definition initial_ledger :: ledger where
  "initial_ledger = \<lparr>lg_records = [], lg_operation = 0, lg_busy = False, lg_error = None,
     lg_snapshot = \<lparr>sn_approval = None, sn_question = None, sn_busy = False, sn_error = None\<rparr>,
     lg_next_ref = 0\<rparr>"

section \<open>Keys and publication\<close>

definition scope_key :: "string \<Rightarrow> string \<Rightarrow> string" where
  "scope_key endpoint sid = stringify_strings [trim endpoint, trim sid]"

definition keyOf :: "interactionScope \<Rightarrow> string" where
  "keyOf c = scope_key (sc_endpoint c) (sc_sessionId c)"

definition record_key :: "interactionRecord \<Rightarrow> string" where
  "record_key r = scope_key (ix_endpoint r) (ix_sessionId r)"

definition requestKey :: "interactionRecord \<Rightarrow> string" where
  "requestKey r = stringify_strings [record_key r, kind_text (ix_kind r), ix_turnId r, ix_requestId r]"

definition ledger_view :: "ledger \<Rightarrow> interactionSnapshot" where
  "ledger_view l = \<lparr>sn_approval = first_some ix_approval (map_values (lg_records l)),
     sn_question = first_some ix_question (map_values (lg_records l)),
     sn_busy = lg_busy l, sn_error = lg_error l\<rparr>"

definition publish :: "ledger \<Rightarrow> ledger" where
  "publish l = l\<lparr>lg_snapshot := ledger_view l\<rparr>"

definition invalidate :: "ledger \<Rightarrow> ledger" where
  "invalidate l = l\<lparr>lg_operation := lg_operation l + 1, lg_busy := False, lg_error := None\<rparr>"

definition suspendTransport :: "ledger \<Rightarrow> ledger" where
  "suspendTransport l = publish (invalidate l)"

section \<open>Observation\<close>

text \<open>The fields an observation supplies; the ledger adds scope, unread flag and identity.\<close>

record observed =
  ob_kind :: interactionKind
  ob_generation :: nat
  ob_turnId :: string
  ob_requestId :: string
  ob_title :: string
  ob_approval :: "approvalRequested option"
  ob_question :: "userQuestionRequested option"

definition stored_record :: "nat \<Rightarrow> interactionScope \<Rightarrow> observed \<Rightarrow> bool \<Rightarrow> interactionRecord" where
  "stored_record ref c ob background =
     \<lparr>ix_ref = ref, ix_kind = ob_kind ob, ix_sessionId = sc_sessionId c,
      ix_endpoint = sc_endpoint c, ix_generation = ob_generation ob, ix_turnId = ob_turnId ob,
      ix_requestId = ob_requestId ob, ix_title = ob_title ob, ix_unread = background,
      ix_approval = ob_approval ob, ix_question = ob_question ob\<rparr>"

definition store :: "interactionScope \<Rightarrow> observed \<Rightarrow> bool \<Rightarrow> ledger \<Rightarrow> ledger" where
  "store c ob background l =
     (let r = stored_record (lg_next_ref l) c ob background;
          key = requestKey r
      in if map_option ix_generation (map_get (lg_records l) key) = Some (ix_generation r) then l
         else let others = filter (\<lambda>kv. \<not> (fst kv \<noteq> key \<and> ix_kind (snd kv) = ix_kind r
                                          \<and> record_key (snd kv) = record_key r)) (lg_records l)
              in (invalidate l)\<lparr>lg_records := map_put key r others,
                                 lg_next_ref := Suc (lg_next_ref l)\<rparr>)"

definition ledger_observe :: "interactionScope \<Rightarrow> observed \<Rightarrow> bool \<Rightarrow> ledger \<Rightarrow> ledger" where
  "ledger_observe c ob background l = publish (store c ob background l)"

definition approval_observed :: "nat \<Rightarrow> approvalRequested \<Rightarrow> observed" where
  "approval_observed g a = \<lparr>ob_kind = KApproval, ob_generation = g, ob_turnId = ap_turnId a,
     ob_requestId = ap_approvalId a, ob_title = ap_title a, ob_approval = Some a,
     ob_question = None\<rparr>"

definition question_observed :: "nat \<Rightarrow> userQuestionRequested \<Rightarrow> observed" where
  "question_observed g q = \<lparr>ob_kind = KQuestion, ob_generation = g, ob_turnId = qr_turnId q,
     ob_requestId = qr_questionId q, ob_title = qr_title q, ob_approval = None,
     ob_question = Some q\<rparr>"

definition approval_admitted ::
    "uiProtocolCapabilities option \<Rightarrow> interactionScope \<Rightarrow> approvalRequested \<Rightarrow> bool" where
  "approval_admitted caps c a \<longleftrightarrow> ap_approvalId a \<noteq> [] \<and> ap_turnId a \<noteq> []
     \<and> matchesSessionScope (sc_sessionId c) (ap_sessionId a) (ap_topic a)
     \<and> supportsMethod caps M_APPROVAL_RESPOND"

definition question_admitted ::
    "uiProtocolCapabilities option \<Rightarrow> interactionScope \<Rightarrow> userQuestionRequested \<Rightarrow> bool" where
  "question_admitted caps c q \<longleftrightarrow> qr_questionId q \<noteq> [] \<and> qr_turnId q \<noteq> []
     \<and> matchesSessionScope (sc_sessionId c) (qr_sessionId q) (qr_topic q)
     \<and> supportsMethod caps M_USER_QUESTION_RESPOND
     \<and> supportsFeature caps F_USER_QUESTION_V1"

text \<open>The record a decided, auto-resolved or cancelled approval removes: the first that matches.\<close>

definition resolved_by ::
    "interactionScope \<Rightarrow> nat \<Rightarrow> string \<Rightarrow> fields \<Rightarrow> interactionRecord \<Rightarrow> bool" where
  "resolved_by c g approvalId params r \<longleftrightarrow> record_key r = keyOf c \<and> ix_kind r = KApproval
     \<and> ix_requestId r = approvalId \<and> ix_generation r = g
     \<and> (fld params ''turn_id'' = None \<or> fld params ''turn_id'' = Some (JStr (ix_turnId r)))"

definition observe_resolution ::
    "interactionScope \<Rightarrow> nat \<Rightarrow> rpcNotification \<Rightarrow> ledger \<Rightarrow> ledger \<times> bool" where
  "observe_resolution c g n l =
     (case (approvalResolutionId n, as_record (nt_params n)) of
        (Some approvalId, Some params) \<Rightarrow>
          (case as_string (fld params ''session_id'') of
             None \<Rightarrow> (l, False)
           | Some sid \<Rightarrow>
               if approvalId = [] \<or>
                  \<not> matchesSessionScope (sc_sessionId c) sid (as_string (fld params ''topic''))
               then (l, False)
               else (case find (\<lambda>kv. resolved_by c g approvalId params (snd kv)) (lg_records l) of
                       None \<Rightarrow> (l, False)
                     | Some kv \<Rightarrow>
                         (invalidate (l\<lparr>lg_records := map_del (fst kv) (lg_records l)\<rparr>), True)))
      | _ \<Rightarrow> (l, False))"

definition observe_one ::
    "'c authorities \<Rightarrow> interactionScope \<Rightarrow> nat \<Rightarrow> bool \<Rightarrow> rpcNotification \<Rightarrow> ledger \<Rightarrow> ledger \<times> bool"
where
  "observe_one auth c g background n l =
     (let caps = (case auth (sc_sessionId c) of None \<Rightarrow> None | Some a \<Rightarrow> ia_capabilities a)
      in case parseApprovalRequested n of
           Some a \<Rightarrow>
             if approval_admitted caps c a
             then (store c (approval_observed g a) background l, True)
             else observe_resolution c g n l
         | None \<Rightarrow>
             (case parseUserQuestionRequested n of
                Some q \<Rightarrow>
                  if question_admitted caps c q
                  then (store c (question_observed g q) background l, True)
                  else observe_resolution c g n l
              | None \<Rightarrow> observe_resolution c g n l))"

definition observeNotification ::
    "'c authorities \<Rightarrow> interactionScope \<Rightarrow> nat \<Rightarrow> bool \<Rightarrow> rpcNotification \<Rightarrow> ledger \<Rightarrow> ledger \<times> bool"
where
  "observeNotification auth c g background n l =
     (let (l', changed) = observe_one auth c g background n l
      in (if changed then publish l' else l', changed))"

definition hydrate_notice :: "string \<Rightarrow> json \<Rightarrow> rpcNotification" where
  "hydrate_notice m p = \<lparr>nt_method = m, nt_params = Some p\<rparr>"

definition restoreFromHydrate ::
    "'c authorities \<Rightarrow> interactionScope \<Rightarrow> nat \<Rightarrow> json list option \<Rightarrow> json list option \<Rightarrow> bool
      \<Rightarrow> ledger \<Rightarrow> ledger" where
  "restoreFromHydrate auth c g approvals questions background l =
     (let notices = map (hydrate_notice M_APPROVAL_REQUESTED) (case approvals of None \<Rightarrow> [] | Some xs \<Rightarrow> xs)
                  @ map (hydrate_notice M_USER_QUESTION_REQUESTED) (case questions of None \<Rightarrow> [] | Some xs \<Rightarrow> xs);
          l1 = invalidate l;
          l2 = l1\<lparr>lg_records := filter (\<lambda>kv. record_key (snd kv) \<noteq> keyOf c) (lg_records l1)\<rparr>
      in publish (foldl (\<lambda>l n. fst (observe_one auth c g background n l)) l2 notices))"

definition settleTurn :: "interactionScope \<Rightarrow> string \<Rightarrow> ledger \<Rightarrow> ledger" where
  "settleTurn c t l =
     (let hit = (\<lambda>kv. record_key (snd kv) = keyOf c \<and> ix_turnId (snd kv) = t)
      in if \<not> list_ex hit (lg_records l) then l
         else publish (invalidate (l\<lparr>lg_records := filter (\<lambda>kv. \<not> hit kv) (lg_records l)\<rparr>)))"

definition ledger_current :: "interactionScope \<Rightarrow> ledger \<Rightarrow> interactionRecord option" where
  "ledger_current c l = find (\<lambda>r. record_key r = keyOf c) (map_values (lg_records l))"

definition markRead :: "interactionScope \<Rightarrow> ledger \<Rightarrow> ledger" where
  "markRead c l =
     (let hit = (\<lambda>r. record_key r = keyOf c \<and> ix_unread r);
          l' = l\<lparr>lg_records := map (\<lambda>kv. (fst kv, if hit (snd kv) then (snd kv)\<lparr>ix_unread := False\<rparr>
                                                  else snd kv)) (lg_records l)\<rparr>
      in if list_ex hit (map_values (lg_records l)) then publish l' else l)"

definition waitingSnapshot :: "ledger \<Rightarrow> interactionRecord list" where
  "waitingSnapshot l = map_values (lg_records l)"

definition ledger_clear :: "ledger \<Rightarrow> ledger" where
  "ledger_clear l = publish ((invalidate l)\<lparr>lg_records := []\<rparr>)"

section \<open>Responses\<close>

record resolution =
  rz_decision :: "string option"
  rz_approvalScope :: "string option"
  rz_clientNote :: "string option"
  rz_answer :: "json option"
  rz_answers :: "json list option"

datatype respondCall =
    RespondApproval string string string "string option" "string option"
  | RespondQuestion string string "json list" "string option"

text \<open>What the closure of a started response remembers.\<close>

record 'c inFlight =
  fl_operation :: nat
  fl_key :: string
  fl_record :: interactionRecord
  fl_authority :: "'c interactionAuthority"

definition is_stored :: "ledger \<Rightarrow> string \<Rightarrow> interactionRecord \<Rightarrow> bool" where
  "is_stored l key r = (map_option ix_ref (map_get (lg_records l) key) = Some (ix_ref r))"

definition authority_matches :: "'c interactionAuthority option \<Rightarrow> ledger \<Rightarrow> interactionRecord \<Rightarrow> bool" where
  "authority_matches a l r =
     (case a of
        None \<Rightarrow> False
      | Some au \<Rightarrow> ia_ready au \<noteq> Some False \<and> ia_sessionId au = ix_sessionId r
                \<and> ia_generation au = ix_generation r \<and> is_stored l (requestKey r) r)"

definition nonempty_opt :: "string option \<Rightarrow> string option" where
  "nonempty_opt s = (if s = Some [] then None else s)"

text \<open>The call a resolution asks for, or the message of the error it raises.\<close>

definition respond_call :: "interactionRecord \<Rightarrow> resolution \<Rightarrow> string + respondCall" where
  "respond_call r z =
     (case ix_kind r of
        KApproval \<Rightarrow>
          (case nonempty_opt (rz_decision z) of
             None \<Rightarrow> Inl ''Approval resolution requires a decision''
           | Some d \<Rightarrow> Inr (RespondApproval (ix_sessionId r) (ix_requestId r) d
                             (nonempty_opt (rz_approvalScope z)) (nonempty_opt (rz_clientNote z))))
      | KQuestion \<Rightarrow>
          (case (rz_answers z, rz_answer z) of
             (Some as, _) \<Rightarrow> Inr (RespondQuestion (ix_sessionId r) (ix_requestId r) as
                               (nonempty_opt (rz_clientNote z)))
           | (None, Some a) \<Rightarrow> Inr (RespondQuestion (ix_sessionId r) (ix_requestId r) [a]
                               (nonempty_opt (rz_clientNote z)))
           | (None, None) \<Rightarrow> Inl ''Question resolution requires answers''))"

text \<open>
  The outcome of the synchronous part: a stale record raises, a busy ledger returns, otherwise the
  call is sent (\<open>Sent\<close>) or raises before it is (\<open>Unsent\<close>).
\<close>

datatype 'c resolveStart = StaleGeneration | AlreadyBusy | Sent "'c inFlight" respondCall | Unsent string

definition resolve_begin ::
    "'c authorities \<Rightarrow> interactionRecord \<Rightarrow> resolution \<Rightarrow> ledger \<Rightarrow> ledger \<times> 'c resolveStart" where
  "resolve_begin auth r z l =
     (case auth (ix_sessionId r) of
        None \<Rightarrow> (l, StaleGeneration)
      | Some au \<Rightarrow>
          if \<not> authority_matches (Some au) l r then (l, StaleGeneration)
          else if lg_busy l then (l, AlreadyBusy)
          else let op = lg_operation l + 1;
                   l1 = publish (l\<lparr>lg_operation := op, lg_busy := True, lg_error := None\<rparr>)
               in case respond_call r z of
                    Inr call \<Rightarrow> (l1, Sent \<lparr>fl_operation = op, fl_key = requestKey r, fl_record = r,
                                          fl_authority = au\<rparr> call)
                  | Inl msg \<Rightarrow> (publish (l1\<lparr>lg_error := Some msg, lg_busy := False\<rparr>), Unsent msg))"

definition still_current :: "'c authorities \<Rightarrow> 'c inFlight \<Rightarrow> ledger \<Rightarrow> bool" where
  "still_current auth f l \<longleftrightarrow> lg_operation l = fl_operation f \<and> is_stored l (fl_key f) (fl_record f)
     \<and> (case auth (ix_sessionId (fl_record f)) of
          None \<Rightarrow> False
        | Some latest \<Rightarrow> ia_client latest = ia_client (fl_authority f) \<and> ia_ready latest \<noteq> Some False
            \<and> ia_generation latest = ia_generation (fl_authority f)
            \<and> ia_sessionId latest = ia_sessionId (fl_authority f))"

text \<open>The answer of the call: a decoded result, or a rejection with its message.\<close>

datatype answer = Resolved unknown | Failed string

definition answer_error :: "interactionRecord \<Rightarrow> answer \<Rightarrow> string option" where
  "answer_error r a =
     (case a of
        Failed msg \<Rightarrow> Some msg
      | Resolved v \<Rightarrow>
          (case as_record v of
             None \<Rightarrow> Some ''The server rejected the response''
           | Some o' \<Rightarrow>
               if fld o' ''accepted'' \<noteq> Some (JBool True) then Some ''The server rejected the response''
               else if fld o' (case ix_kind r of KApproval \<Rightarrow> ''approval_id'' | KQuestion \<Rightarrow> ''question_id'')
                       \<noteq> Some (JStr (ix_requestId r))
               then Some ''The server responded for another interaction''
               else None))"

text \<open>The rest of \<open>resolve\<close>: the body after the await, \<open>catch\<close> and \<open>finally\<close>.\<close>

definition resolve_end :: "'c authorities \<Rightarrow> 'c inFlight \<Rightarrow> answer \<Rightarrow> ledger \<Rightarrow> ledger" where
  "resolve_end auth f a l =
     (let l1 = (if \<not> still_current auth f l then l
                else case answer_error (fl_record f) a of
                       None \<Rightarrow> l\<lparr>lg_records := map_del (fl_key f) (lg_records l)\<rparr>
                     | Some msg \<Rightarrow> l\<lparr>lg_error := Some msg\<rparr>)
      in if lg_operation l1 = fl_operation f then publish (l1\<lparr>lg_busy := False\<rparr>) else l1)"

text \<open>
  \<open>respondApproval\<close> and \<open>respondQuestion\<close>: the first waiting record of the kind, unless a response
  is in flight; a stale preflight of a record that is still stored shows its message.
\<close>

definition stale_message :: string where
  "stale_message = ''This interaction no longer belongs to the current Session generation.''"

definition respond ::
    "'c authorities \<Rightarrow> interactionRecord \<Rightarrow> resolution \<Rightarrow> ledger \<Rightarrow> ledger \<times> 'c resolveStart" where
  "respond auth r z l =
     (let (l', st) = resolve_begin auth r z l
      in case st of
           StaleGeneration \<Rightarrow>
             (if is_stored l' (requestKey r) r then publish (l'\<lparr>lg_error := Some stale_message\<rparr>) else l', st)
         | _ \<Rightarrow> (l', st))"

definition respondApproval ::
    "'c authorities \<Rightarrow> string \<Rightarrow> string option \<Rightarrow> string option \<Rightarrow> ledger \<Rightarrow> ledger \<times> 'c resolveStart option"
where
  "respondApproval auth decision scope note l =
     (case find (\<lambda>r. ix_approval r \<noteq> None) (map_values (lg_records l)) of
        None \<Rightarrow> (l, None)
      | Some r \<Rightarrow>
          if lg_busy l then (l, None)
          else let (l', st) = respond auth r \<lparr>rz_decision = Some decision, rz_approvalScope = scope,
                     rz_clientNote = note, rz_answer = None, rz_answers = None\<rparr> l
               in (l', Some st))"

definition respondQuestion ::
    "'c authorities \<Rightarrow> json list \<Rightarrow> string option \<Rightarrow> ledger \<Rightarrow> ledger \<times> 'c resolveStart option" where
  "respondQuestion auth answers note l =
     (case find (\<lambda>r. ix_question r \<noteq> None) (map_values (lg_records l)) of
        None \<Rightarrow> (l, None)
      | Some r \<Rightarrow>
          if lg_busy l then (l, None)
          else let (l', st) = respond auth r \<lparr>rz_decision = None, rz_approvalScope = None,
                     rz_clientNote = note, rz_answer = None, rz_answers = Some answers\<rparr> l
               in (l', Some st))"

section \<open>Steps\<close>

datatype ledger_op =
    LgSuspend
  | LgHydrate interactionScope nat "json list option" "json list option" bool
  | LgObserve interactionScope observed bool
  | LgNotify interactionScope nat bool rpcNotification
  | LgSettle interactionScope string
  | LgMarkRead interactionScope
  | LgApprove string "string option" "string option"
  | LgAnswer "json list" "string option"
  | LgClear

text \<open>
  A public operation of the ledger, under the authorities of that moment. A completion is a step
  of its own.
\<close>

fun ledger_step :: "ledger \<Rightarrow> 'c authorities \<times> ledger_op \<Rightarrow> ledger" where
  "ledger_step l (auth, LgSuspend) = suspendTransport l"
| "ledger_step l (auth, LgHydrate c g as qs b) = restoreFromHydrate auth c g as qs b l"
| "ledger_step l (auth, LgObserve c ob b) = ledger_observe c ob b l"
| "ledger_step l (auth, LgNotify c g b n) = fst (observeNotification auth c g b n l)"
| "ledger_step l (auth, LgSettle c t) = settleTurn c t l"
| "ledger_step l (auth, LgMarkRead c) = markRead c l"
| "ledger_step l (auth, LgApprove d s n) = fst (respondApproval auth d s n l)"
| "ledger_step l (auth, LgAnswer as n) = fst (respondQuestion auth as n l)"
| "ledger_step l (auth, LgClear) = ledger_clear l"

datatype 'c ledger_event = Op "'c authorities" ledger_op | Answered "'c authorities" "'c inFlight" answer

fun ledger_event_step :: "ledger \<Rightarrow> 'c ledger_event \<Rightarrow> ledger" where
  "ledger_event_step l (Op auth x) = ledger_step l (auth, x)"
| "ledger_event_step l (Answered auth f a) = resolve_end auth f a l"

section \<open>The invariant\<close>

text \<open>
  Every record is stored under its own request key, identities are distinct and below the next
  one, and a Session has at most one waiting record of each kind.
\<close>

definition records_ok :: "nat \<Rightarrow> (string, interactionRecord) jsmap \<Rightarrow> bool" where
  "records_ok n m \<longleftrightarrow> map_ok m
     \<and> (\<forall>kv \<in> set m. fst kv = requestKey (snd kv) \<and> ix_ref (snd kv) < n)
     \<and> distinct (map (\<lambda>kv. ix_ref (snd kv)) m)
     \<and> (\<forall>a \<in> set m. \<forall>b \<in> set m. ix_kind (snd a) = ix_kind (snd b)
          \<and> record_key (snd a) = record_key (snd b) \<longrightarrow> a = b)"

definition ledger_ok :: "ledger \<Rightarrow> bool" where
  "ledger_ok l = records_ok (lg_next_ref l) (lg_records l)"

definition ledger_published :: "ledger \<Rightarrow> bool" where
  "ledger_published l = (lg_snapshot l = ledger_view l)"

lemma publish_simps [simp]:
  "lg_records (publish l) = lg_records l" "lg_operation (publish l) = lg_operation l"
  "lg_busy (publish l) = lg_busy l" "lg_error (publish l) = lg_error l"
  "lg_next_ref (publish l) = lg_next_ref l" "ledger_published (publish l)"
  by (simp_all add: publish_def ledger_published_def ledger_view_def)

lemma invalidate_simps [simp]:
  "lg_records (invalidate l) = lg_records l" "lg_operation (invalidate l) = lg_operation l + 1"
  "lg_busy (invalidate l) = False" "lg_error (invalidate l) = None"
  "lg_next_ref (invalidate l) = lg_next_ref l"
  by (simp_all add: invalidate_def)

lemma records_ok_filter: "records_ok n m \<Longrightarrow> records_ok n (filter P m)"
  by (auto simp: records_ok_def map_ok_filter distinct_map_filter)

lemma records_ok_del: "records_ok n m \<Longrightarrow> records_ok n (map_del k m)"
  unfolding map_del_def by (rule records_ok_filter)

lemma distinct_refs_put:
  "distinct (map (\<lambda>kv. ix_ref (snd kv)) m) \<Longrightarrow> \<forall>kv \<in> set m. ix_ref (snd kv) < ix_ref r
     \<Longrightarrow> distinct (map (\<lambda>kv. ix_ref (snd kv)) (map_put k r m))"
proof (induction k r m rule: map_put.induct)
  case (1 k v)
  then show ?case by simp
next
  case (2 k v k' v' m)
  have "ix_ref v' \<noteq> ix_ref (snd kv)" if "kv \<in> set (map_put k v m)" for kv
    using that set_map_put [of k v m] "2.prems" by fastforce
  with 2 show ?case by auto
qed

lemma records_ok_put:
  assumes m: "records_ok n m" and r: "ix_ref r = n"
    and free: "\<forall>kv \<in> set m. ix_kind (snd kv) = ix_kind r \<and> record_key (snd kv) = record_key r
                 \<longrightarrow> fst kv = requestKey r"
  shows "records_ok (Suc n) (map_put (requestKey r) r m)"
proof -
  let ?m = "map_put (requestKey r) r m"
  have ok: "map_ok ?m" using m by (simp add: records_ok_def)
  have sub: "kv \<in> set ?m \<Longrightarrow> kv = (requestKey r, r) \<or> kv \<in> set m \<and> fst kv \<noteq> requestKey r" for kv
    using set_map_put [of "requestKey r" r m] map_ok_member [OF ok, of "fst kv" "snd kv"]
    by (cases kv) (auto simp: map_get_put)
  have "distinct (map (\<lambda>kv. ix_ref (snd kv)) ?m)"
    using m r by (intro distinct_refs_put) (auto simp: records_ok_def)
  moreover have "fst kv = requestKey (snd kv) \<and> ix_ref (snd kv) < Suc n" if "kv \<in> set ?m" for kv
    using sub [OF that] m r by (auto simp: records_ok_def less_Suc_eq)
  moreover have "a = b" if "a \<in> set ?m" "b \<in> set ?m" "ix_kind (snd a) = ix_kind (snd b)"
      "record_key (snd a) = record_key (snd b)" for a b
    using sub [OF that(1)] sub [OF that(2)] that(3,4) m free
    unfolding records_ok_def by (metis snd_conv)
  ultimately show ?thesis using ok by (simp add: records_ok_def)
qed

lemma store_ok: "ledger_ok l \<Longrightarrow> ledger_ok (store c ob b l)"
proof -
  assume ok: "ledger_ok l"
  let ?r = "stored_record (lg_next_ref l) c ob b"
  let ?o = "filter (\<lambda>kv. \<not> (fst kv \<noteq> requestKey ?r \<and> ix_kind (snd kv) = ix_kind ?r
      \<and> record_key (snd kv) = record_key ?r)) (lg_records l)"
  have "records_ok (Suc (lg_next_ref l)) (map_put (requestKey ?r) ?r ?o)"
    using ok by (intro records_ok_put records_ok_filter) (auto simp: ledger_ok_def stored_record_def)
  with ok show ?thesis by (simp add: store_def Let_def ledger_ok_def)
qed

lemma observe_resolution_ok: "ledger_ok l \<Longrightarrow> ledger_ok (fst (observe_resolution c g n l))"
  by (auto simp: observe_resolution_def ledger_ok_def records_ok_del split: option.splits)

lemma observe_one_ok: "ledger_ok l \<Longrightarrow> ledger_ok (fst (observe_one auth c g b n l))"
  by (auto simp: observe_one_def Let_def store_ok observe_resolution_ok split: option.splits)

lemma observe_many_ok:
  "ledger_ok l \<Longrightarrow> ledger_ok (foldl (\<lambda>l n. fst (observe_one auth c g b n l)) l ns)"
  by (induction ns arbitrary: l) (simp_all add: observe_one_ok)

lemma ledger_ok_publish [simp]: "ledger_ok (publish l) = ledger_ok l"
  by (simp add: ledger_ok_def)

lemma ledger_ok_invalidate [simp]: "ledger_ok (invalidate l) = ledger_ok l"
  by (simp add: ledger_ok_def)

lemma requestKey_unread [simp]: "requestKey (r\<lparr>ix_unread := u\<rparr>) = requestKey r"
  and record_key_unread [simp]: "record_key (r\<lparr>ix_unread := u\<rparr>) = record_key r"
  by (simp_all add: requestKey_def record_key_def)

lemma records_ok_map:
  assumes "records_ok n m"
    and "\<And>r. requestKey (f r) = requestKey r \<and> ix_ref (f r) = ix_ref r \<and> ix_kind (f r) = ix_kind r
           \<and> record_key (f r) = record_key r"
  shows "records_ok n (map (\<lambda>kv. (fst kv, f (snd kv))) m)"
  using assms unfolding records_ok_def map_ok_def map_keys_def
  by (auto simp: comp_def)

lemma markRead_ok: "ledger_ok l \<Longrightarrow> ledger_ok (markRead c l)"
proof -
  assume "ledger_ok l"
  then have "records_ok (lg_next_ref l) (map (\<lambda>kv. (fst kv,
      if record_key (snd kv) = keyOf c \<and> ix_unread (snd kv) then (snd kv)\<lparr>ix_unread := False\<rparr>
      else snd kv)) (lg_records l))"
    unfolding ledger_ok_def
    by (rule records_ok_map [where f = "\<lambda>r. if record_key r = keyOf c \<and> ix_unread r
      then r\<lparr>ix_unread := False\<rparr> else r"]) auto
  with \<open>ledger_ok l\<close> show ?thesis by (simp add: markRead_def Let_def ledger_ok_def)
qed

lemma resolve_begin_frame [simp]:
  "lg_records (fst (resolve_begin auth r z l)) = lg_records l"
  "lg_next_ref (fst (resolve_begin auth r z l)) = lg_next_ref l"
  by (auto simp: resolve_begin_def Let_def split: option.splits sum.splits)

lemma respond_frame [simp]:
  "lg_records (fst (respond auth r z l)) = lg_records l"
  "lg_next_ref (fst (respond auth r z l)) = lg_next_ref l"
  using resolve_begin_frame [of auth r z l]
  by (auto simp: respond_def Let_def case_prod_beta split: resolveStart.splits)

lemma respondApproval_frame [simp]:
  "lg_records (fst (respondApproval auth d sc nt l)) = lg_records l"
  "lg_next_ref (fst (respondApproval auth d sc nt l)) = lg_next_ref l"
  by (auto simp: respondApproval_def Let_def case_prod_beta split: option.splits)

lemma respondQuestion_frame [simp]:
  "lg_records (fst (respondQuestion auth as nt l)) = lg_records l"
  "lg_next_ref (fst (respondQuestion auth as nt l)) = lg_next_ref l"
  by (auto simp: respondQuestion_def Let_def case_prod_beta split: option.splits)

lemma resolve_end_ok: "ledger_ok l \<Longrightarrow> ledger_ok (resolve_end auth f a l)"
  by (auto simp: resolve_end_def Let_def ledger_ok_def records_ok_del split: option.splits)

lemma ledger_step_ok: "ledger_ok l \<Longrightarrow> ledger_ok (ledger_step l (auth, x))"
proof (cases x)
  case (LgHydrate c g as qs b)
  then show "ledger_ok l \<Longrightarrow> ?thesis"
    by (auto simp: restoreFromHydrate_def Let_def ledger_ok_def records_ok_filter
        intro!: observe_many_ok [unfolded ledger_ok_def])
qed (auto simp: suspendTransport_def ledger_observe_def store_ok observeNotification_def
    case_prod_beta Let_def observe_one_ok settleTurn_def markRead_ok ledger_clear_def
    ledger_ok_def records_ok_filter records_ok_def [of _ "[]"]
    simp del: ledger_ok_publish intro: store_ok [unfolded ledger_ok_def]
    observe_one_ok [unfolded ledger_ok_def] markRead_ok [unfolded ledger_ok_def])

lemma ledger_event_ok: "ledger_ok l \<Longrightarrow> ledger_ok (ledger_event_step l e)"
  by (cases e) (simp_all add: ledger_step_ok resolve_end_ok del: ledger_step.simps)

lemma ledger_run_ok: "ledger_ok l \<Longrightarrow> ledger_ok (foldl ledger_event_step l es)"
  by (induction es arbitrary: l) (simp_all add: ledger_event_ok del: ledger_event_step.simps)

lemma initial_ledger_ok: "ledger_ok initial_ledger"
  by (simp add: ledger_ok_def initial_ledger_def records_ok_def)

section \<open>Responses as ownership\<close>

text \<open>
  A response in flight owns the ledger while its operation number is the latest. Every operation
  that replaces what the user sees raises the number, so this is an instance of \<open>ownership\<close>.
\<close>

definition ledger_owns :: "ledger \<Rightarrow> nat \<Rightarrow> bool" where
  "ledger_owns l t = (lg_operation l = t)"

definition ledger_issued :: "ledger \<Rightarrow> nat \<Rightarrow> bool" where
  "ledger_issued l t = (t \<le> lg_operation l)"

lemma store_operation: "lg_operation l \<le> lg_operation (store c ob b l)"
  by (simp add: store_def Let_def)

lemma observe_one_operation: "lg_operation l \<le> lg_operation (fst (observe_one auth c g b n l))"
  using store_operation
  by (auto simp: observe_one_def observe_resolution_def Let_def split: option.splits)

lemma observe_many_operation:
  "lg_operation l \<le> lg_operation (foldl (\<lambda>l n. fst (observe_one auth c g b n l)) l ns)"
proof (induction ns arbitrary: l)
  case Nil
  then show ?case by simp
next
  case (Cons n ns)
  show ?case using Cons [of "fst (observe_one auth c g b n l)"]
      observe_one_operation [of l auth c g b n] by simp
qed

lemma respond_operation: "lg_operation l \<le> lg_operation (fst (respond auth r z l))"
  by (auto simp: respond_def resolve_begin_def Let_def split: option.splits sum.splits)

lemma resolve_end_operation [simp]: "lg_operation (resolve_end auth f a l) = lg_operation l"
  by (auto simp: resolve_end_def Let_def split: option.splits)

lemma ledger_step_operation: "lg_operation l \<le> lg_operation (ledger_step l (auth, x))"
proof (cases x)
  case (LgHydrate c g as qs b)
  have "lg_operation (invalidate l) \<le> lg_operation (restoreFromHydrate auth c g as qs b l)"
    unfolding restoreFromHydrate_def Let_def publish_simps
    by (rule order_trans [OF _ observe_many_operation]) simp
  with LgHydrate show ?thesis by simp
next
  case (LgNotify c g b n)
  then show ?thesis using observe_one_operation [of l auth c g b n]
    by (simp add: observeNotification_def case_prod_beta)
next
  case (LgApprove d s n)
  then show ?thesis using respond_operation
    by (auto simp: respondApproval_def case_prod_beta Let_def split: option.splits)
next
  case (LgAnswer as n)
  then show ?thesis using respond_operation
    by (auto simp: respondQuestion_def case_prod_beta Let_def split: option.splits)
qed (auto simp: suspendTransport_def ledger_observe_def store_operation settleTurn_def markRead_def
    ledger_clear_def Let_def)

lemma ledger_event_operation: "lg_operation l \<le> lg_operation (ledger_event_step l e)"
  by (cases e) (simp_all add: ledger_step_operation del: ledger_step.simps)

interpretation response: ownership ledger_event_step ledger_owns ledger_issued "\<lambda>_. True"
proof unfold_locales
  show "ledger_issued (ledger_event_step s x) a" if "ledger_issued s a"
    for s a and x :: "'c ledger_event"
    using that ledger_event_operation [of s x] by (simp add: ledger_issued_def)
  show "\<not> ledger_owns (ledger_event_step s x) a" if "ledger_issued s a" "\<not> ledger_owns s a"
    for s a and x :: "'c ledger_event"
    using that ledger_event_operation [of s x] by (simp add: ledger_issued_def ledger_owns_def)
qed (auto simp: ledger_owns_def ledger_issued_def)

lemma resolve_end_superseded: "\<not> ledger_owns l (fl_operation f) \<Longrightarrow> resolve_end auth f a l = l"
  by (simp add: resolve_end_def still_current_def ledger_owns_def)

section \<open>The snapshot is always published\<close>

lemma observe_one_unchanged: "\<not> snd (observe_one auth c g b n l) \<Longrightarrow> fst (observe_one auth c g b n l) = l"
  by (auto simp: observe_one_def observe_resolution_def Let_def split: option.splits if_splits)

lemma resolve_begin_published:
  "ledger_published l \<Longrightarrow> ledger_published (fst (resolve_begin auth r z l))"
  by (auto simp: resolve_begin_def Let_def split: option.splits sum.splits)

lemma respond_published: "ledger_published l \<Longrightarrow> ledger_published (fst (respond auth r z l))"
  using resolve_begin_published [of l auth r z]
  by (auto simp: respond_def case_prod_beta Let_def split: resolveStart.splits)

lemma ledger_step_published: "ledger_published l \<Longrightarrow> ledger_published (ledger_step l (auth, x))"
proof (cases x)
  case (LgNotify c g b n)
  then show "ledger_published l \<Longrightarrow> ?thesis"
    using observe_one_unchanged [of auth c g b n l]
    by (cases "snd (observe_one auth c g b n l)") (simp_all add: observeNotification_def case_prod_beta)
next
  case (LgApprove d s n)
  then show "ledger_published l \<Longrightarrow> ?thesis" using respond_published
    by (auto simp: respondApproval_def case_prod_beta Let_def split: option.splits)
next
  case (LgAnswer as n)
  then show "ledger_published l \<Longrightarrow> ?thesis" using respond_published
    by (auto simp: respondQuestion_def case_prod_beta Let_def split: option.splits)
qed (auto simp: suspendTransport_def restoreFromHydrate_def ledger_observe_def settleTurn_def
    markRead_def ledger_clear_def Let_def)

lemma resolve_end_published: "ledger_published l \<Longrightarrow> ledger_published (resolve_end auth f a l)"
proof (cases "lg_operation l = fl_operation f")
  case True
  have "ledger_published (resolve_end auth f a l)"
    using True by (auto simp: resolve_end_def Let_def split: option.splits)
  then show ?thesis .
next
  case False
  then have "resolve_end auth f a l = l" by (simp add: resolve_end_superseded ledger_owns_def)
  then show "ledger_published l \<Longrightarrow> ?thesis" by simp
qed

lemma ledger_event_published: "ledger_published l \<Longrightarrow> ledger_published (ledger_event_step l e)"
  by (cases e) (simp_all add: ledger_step_published resolve_end_published del: ledger_step.simps)

lemma ledger_run_published:
  "ledger_published l \<Longrightarrow> ledger_published (foldl ledger_event_step l es)"
  by (induction es arbitrary: l) (simp_all add: ledger_event_published del: ledger_event_step.simps)

lemma initial_ledger_published: "ledger_published initial_ledger"
  by (simp add: ledger_published_def initial_ledger_def ledger_view_def map_values_def)

lemma records_ok_kinds:
  assumes "records_ok n m"
  shows "distinct (map (\<lambda>r. (ix_kind r, record_key r)) (map_values m))"
proof -
  have "distinct m" using assms by (simp add: records_ok_def distinct_map)
  moreover have "inj_on (\<lambda>kv. (ix_kind (snd kv), record_key (snd kv))) (set m)"
    using assms by (auto simp: records_ok_def inj_on_def)
  ultimately show ?thesis by (simp add: map_values_def comp_def distinct_map)
qed

section \<open>Properties\<close>

text \<open>
  C18: Through any interleaving of observations, hydrates, answers, completions and suspensions, a
  Session has at most one waiting interaction of each kind, every record is found under its own
  request key, and what the UI was last shown is exactly what the ledger holds.
\<close>
theorem waiting_interactions_unique:
  "let l = foldl ledger_event_step initial_ledger es in
     distinct (map (\<lambda>r. (ix_kind r, record_key r)) (waitingSnapshot l))
     \<and> map_keys (lg_records l) = map requestKey (waitingSnapshot l)
     \<and> lg_snapshot l = ledger_view l"
proof -
  let ?l = "foldl ledger_event_step initial_ledger es"
  have ok: "records_ok (lg_next_ref ?l) (lg_records ?l)"
    using ledger_run_ok [OF initial_ledger_ok, of es] by (simp add: ledger_ok_def)
  have "lg_snapshot ?l = ledger_view ?l"
    using ledger_run_published [OF initial_ledger_published, of es] by (simp add: ledger_published_def)
  moreover have "map_keys (lg_records ?l) = map requestKey (waitingSnapshot ?l)"
    using ok by (simp add: records_ok_def map_keys_def waitingSnapshot_def map_values_def)
  ultimately show ?thesis using records_ok_kinds [OF ok] by (simp add: Let_def waitingSnapshot_def)
qed

text \<open>
  An approval is sent at most once at a time and only by its owner: \<open>respondApproval\<close> sends a
  call only when no response is in flight, for the first waiting approval, under an authority of
  that record's Session and generation that is not marked unready; the ledger is busy afterwards.
\<close>
theorem approval_single_flight:
  assumes "respondApproval auth d sc nt l = (l', Some (Sent f call))"
  shows "\<not> lg_busy l \<and> lg_busy l' \<and> ledger_owns l' (fl_operation f)
     \<and> lg_records l' = lg_records l
     \<and> find (\<lambda>r. ix_approval r \<noteq> None) (waitingSnapshot l) = Some (fl_record f)
     \<and> auth (ix_sessionId (fl_record f)) = Some (fl_authority f)
     \<and> ia_generation (fl_authority f) = ix_generation (fl_record f)
     \<and> ia_ready (fl_authority f) \<noteq> Some False
     \<and> respondApproval auth' d' sc' nt' l' = (l', None)"
  using assms
  by (auto simp: respondApproval_def respond_def resolve_begin_def authority_matches_def Let_def
      ledger_owns_def waitingSnapshot_def split: option.splits sum.splits if_splits prod.splits)

text \<open>One Session with one waiting approval, its authority, and the response in flight.\<close>

definition sample_scope :: interactionScope where
  "sample_scope = \<lparr>sc_endpoint = ''local'', sc_sessionId = ''s''\<rparr>"

definition sample_observed :: observed where
  "sample_observed = approval_observed 1 \<lparr>ap_sessionId = ''s'', ap_approvalId = ''a'', ap_turnId = ''t'',
       ap_toolName = ''shell'', ap_title = ''Run'', ap_body = ''ls'', ap_topic = None,
       ap_approvalKind = None, ap_risk = None, ap_typedDetails = None, ap_renderHints = None\<rparr>"

definition sample_ledger :: ledger where
  "sample_ledger = ledger_observe sample_scope sample_observed False initial_ledger"

definition sample_auth :: "nat authorities" where
  "sample_auth = (\<lambda>s. if s = ''s'' then Some \<lparr>ia_generation = 1, ia_client = 0, ia_sessionId = ''s'',
     ia_capabilities = None, ia_ready = None\<rparr> else None)"

definition sample_record :: interactionRecord where
  "sample_record = stored_record 0 sample_scope sample_observed False"

definition sample_flight :: "nat inFlight" where
  "sample_flight = \<lparr>fl_operation = 2, fl_key = requestKey sample_record, fl_record = sample_record,
     fl_authority = the (sample_auth ''s'')\<rparr>"

definition sample_sent :: ledger where
  "sample_sent = fst (respondApproval sample_auth ''approve'' None None sample_ledger)"

lemma sample_sends:
  "respondApproval sample_auth ''approve'' None None sample_ledger
     = (sample_sent, Some (Sent sample_flight (RespondApproval ''s'' ''a'' ''approve'' None None)))"
proof -
  have "snd (respondApproval sample_auth ''approve'' None None sample_ledger)
      = Some (Sent sample_flight (RespondApproval ''s'' ''a'' ''approve'' None None))"
    by code_simp
  then show ?thesis by (simp add: sample_sent_def prod_eq_iff)
qed

lemma approval_single_flight_witness:
  "\<not> lg_busy sample_ledger \<and> lg_busy sample_sent \<and> ledger_owns sample_sent (fl_operation sample_flight)
     \<and> lg_records sample_sent = lg_records sample_ledger
     \<and> find (\<lambda>r. ix_approval r \<noteq> None) (waitingSnapshot sample_ledger) = Some (fl_record sample_flight)
     \<and> sample_auth (ix_sessionId (fl_record sample_flight)) = Some (fl_authority sample_flight)
     \<and> ia_generation (fl_authority sample_flight) = ix_generation (fl_record sample_flight)
     \<and> ia_ready (fl_authority sample_flight) \<noteq> Some False
     \<and> respondApproval sample_auth ''deny'' None None sample_sent = (sample_sent, None)"
  by (rule approval_single_flight [OF sample_sends])

text \<open>The operations that replace the waiting set whole.\<close>

fun supersedes :: "ledger_op \<Rightarrow> bool" where
  "supersedes LgSuspend = True"
| "supersedes LgClear = True"
| "supersedes (LgHydrate c g as qs b) = True"
| "supersedes _ = False"

lemma supersedes_raises: "supersedes x \<Longrightarrow> lg_operation l < lg_operation (ledger_step l (auth, x))"
proof (cases x)
  case (LgHydrate c g as qs b)
  have "lg_operation (invalidate l) \<le> lg_operation (restoreFromHydrate auth c g as qs b l)"
    unfolding restoreFromHydrate_def Let_def publish_simps
    by (rule order_trans [OF _ observe_many_operation]) simp
  with LgHydrate show ?thesis by simp
qed (simp_all add: suspendTransport_def ledger_clear_def)

text \<open>
  C19: The answer to a response, to an approval or to a question, that arrives after the transport
  was suspended, the Session rehydrated or the ledger cleared is discarded: whatever happens in
  between, it removes no interaction, shows no error and does not end the busy state of a newer
  response.
\<close>
theorem superseded_answer_discarded:
  assumes "(l1, Some (Sent f call)) \<in> {respondApproval auth d sc nt l, respondQuestion auth answers nt l}"
    and "supersedes x"
  shows "let l3 = foldl ledger_event_step (ledger_step l1 (auth', x)) later
         in resolve_end auth'' f a l3 = l3"
proof -
  have "lg_operation l1 = fl_operation f"
    using assms(1) by (auto simp: respondApproval_def respondQuestion_def respond_def resolve_begin_def
        Let_def split: option.splits sum.splits if_splits prod.splits)
  then have "\<not> ledger_owns (ledger_step l1 (auth', x)) (fl_operation f)"
    "ledger_issued (ledger_step l1 (auth', x)) (fl_operation f)"
    using supersedes_raises [OF assms(2), of l1 auth'] by (auto simp: ledger_owns_def ledger_issued_def)
  then have "\<not> ledger_owns (foldl ledger_event_step (ledger_step l1 (auth', x)) later) (fl_operation f)"
    by (intro response.stale_forever) simp_all
  then show ?thesis by (simp add: resolve_end_superseded)
qed

text \<open>The same Session with one waiting question, and its answer sent.\<close>

definition sample_question :: ledger where
  "sample_question = ledger_observe sample_scope
     (question_observed 1 \<lparr>qr_sessionId = ''s'', qr_questionId = ''q'', qr_turnId = ''t'',
        qr_title = ''Pick'', qr_body = [], qr_questions = [], qr_topic = None\<rparr>) False initial_ledger"

definition answer_sent :: "ledger \<times> nat resolveStart option" where
  "answer_sent = respondQuestion sample_auth [JStr ''yes''] None sample_question"

definition question_flight :: "nat inFlight" where
  "question_flight = (case snd answer_sent of Some (Sent f call) \<Rightarrow> f | _ \<Rightarrow> sample_flight)"

lemma answer_sends:
  "(fst answer_sent, Some (Sent question_flight (RespondQuestion ''s'' ''q'' [JStr ''yes''] None)))
     = respondQuestion sample_auth [JStr ''yes''] None sample_question"
proof -
  have "(case snd answer_sent of
      Some (Sent f call) \<Rightarrow> call = RespondQuestion ''s'' ''q'' [JStr ''yes''] None | _ \<Rightarrow> False)"
    by code_simp
  then show ?thesis
    unfolding answer_sent_def [symmetric]
    by (auto simp: question_flight_def prod_eq_iff split: option.splits resolveStart.splits)
qed

lemma superseded_answer_discarded_witness:
  "let later = [Op sample_auth (LgObserve sample_scope sample_observed True)];
       l3 = foldl ledger_event_step (ledger_step sample_sent (sample_auth, LgSuspend)) later;
       l4 = foldl ledger_event_step (ledger_step (fst answer_sent) (sample_auth, LgClear)) later
   in resolve_end sample_auth sample_flight (Resolved (Some (JObj [(''accepted'', JBool True),
        (''approval_id'', JStr ''a'')]))) l3 = l3
      \<and> resolve_end sample_auth question_flight (Failed ''offline'') l4 = l4"
  using superseded_answer_discarded [of sample_sent sample_flight
      "RespondApproval ''s'' ''a'' ''approve'' None None" sample_auth "''approve''" None None sample_ledger
      "[]" LgSuspend sample_auth "[Op sample_auth (LgObserve sample_scope sample_observed True)]"]
    superseded_answer_discarded [of "fst answer_sent" question_flight
      "RespondQuestion ''s'' ''q'' [JStr ''yes''] None" sample_auth "''approve''" None None sample_question
      "[JStr ''yes'']" LgClear sample_auth "[Op sample_auth (LgObserve sample_scope sample_observed True)]"]
    sample_sends answer_sends
  by (simp add: Let_def del: ledger_step.simps foldl_Cons foldl_Nil foldl.simps)

text \<open>Does the answer accept this interaction?\<close>

definition accepts :: "interactionRecord \<Rightarrow> answer \<Rightarrow> bool" where
  "accepts r a = (case a of
     Resolved (Some (JObj o')) \<Rightarrow> fld o' ''accepted'' = Some (JBool True)
       \<and> fld o' (case ix_kind r of KApproval \<Rightarrow> ''approval_id'' | KQuestion \<Rightarrow> ''question_id'')
           = Some (JStr (ix_requestId r))
   | _ \<Rightarrow> False)"

lemma accepts_iff: "accepts r a \<longleftrightarrow> answer_error r a = None"
  by (auto simp: accepts_def answer_error_def split: answer.splits option.splits json.splits)

text \<open>
  The answer to the current response settles exactly its interaction. If the server accepted it
  and names this interaction, that record and no other is removed and no error remains; on a
  rejection, a failure or an answer for another interaction nothing is removed and an error is
  shown; either way the ledger is free for the next response.
\<close>
theorem answer_settles_its_interaction:
  assumes "respondApproval auth d sc nt l = (l1, Some (Sent f call))"
  shows "let l2 = resolve_end auth f a l1 in
     lg_records l2 = (if accepts (fl_record f) a then map_del (requestKey (fl_record f)) (lg_records l)
                      else lg_records l)
     \<and> (lg_error l2 = None \<longleftrightarrow> accepts (fl_record f) a)
     \<and> \<not> lg_busy l2 \<and> lg_snapshot l2 = ledger_view l2"
proof -
  have f: "lg_operation l1 = fl_operation f" "lg_records l1 = lg_records l" "lg_error l1 = None"
    "fl_key f = requestKey (fl_record f)" "is_stored l (fl_key f) (fl_record f)"
    "auth (ix_sessionId (fl_record f)) = Some (fl_authority f)" "ia_ready (fl_authority f) \<noteq> Some False"
    using assms by (auto simp: respondApproval_def respond_def resolve_begin_def authority_matches_def
        Let_def split: option.splits sum.splits if_splits prod.splits)
  then have "still_current auth f l1" by (simp add: still_current_def is_stored_def)
  with f show ?thesis
    by (cases "answer_error (fl_record f) a")
      (auto simp: resolve_end_def Let_def accepts_iff publish_def ledger_view_def)
qed

lemma answer_settles_its_interaction_witness:
  "let l2 = resolve_end sample_auth sample_flight (Failed ''offline'') sample_sent in
     lg_records l2 = (if accepts (fl_record sample_flight) (Failed ''offline'')
                      then map_del (requestKey (fl_record sample_flight)) (lg_records sample_ledger)
                      else lg_records sample_ledger)
     \<and> (lg_error l2 = None \<longleftrightarrow> accepts (fl_record sample_flight) (Failed ''offline''))
     \<and> \<not> lg_busy l2 \<and> lg_snapshot l2 = ledger_view l2"
  by (rule answer_settles_its_interaction [OF sample_sends])

end
