(* ===== verification/TimelineEntries.thy ===== *)
theory TimelineEntries
  imports Projection
begin

text \<open>
  The rows of the transcript: \<open>features/timeline/entry-model.ts\<close> (the row, \<open>upsert\<close>, the terminal
  test, notice ids, the activity label) and \<open>features/timeline/artifact-tools.ts\<close> (the file path a
  tool call names).
\<close>

section \<open>The row\<close>

datatype timelineKind = KUser | KAssistant | KReasoning | KTool | KSystem

datatype timelineStatus = Running | Complete | ErrorStatus | Info

text \<open>
  Optional properties are options, \<open>true\<close>-only ones booleans. Wall-clock times are whole
  milliseconds. \<open>attachmentSizes\<close> is an object used as a map from paths to sizes.
\<close>

record timelineEntry =
  te_id :: string
  te_kind :: timelineKind
  te_title :: string
  te_serverTitle :: bool
  te_body :: string
  te_status :: timelineStatus
  te_statusLabel :: "string option"
  te_turnId :: "string option"
  te_messageId :: "string option"
  te_streamId :: "string option"
  te_turnSettled :: bool
  te_toolSettled :: bool
  te_latestTurnOutcome :: "string option"
  te_turnUsage :: "(jnum \<times> jnum) option"
  te_toolArguments :: "string option"
  te_textTerminal :: "string option"
  te_omittedCount :: "nat option"
  te_media :: "string list option"
  te_attachmentSizes :: "(string, jnum) jsmap option"
  te_artifactPath :: "string option"
  te_turnStartedAtMs :: "int option"
  te_turnEndedAtMs :: "int option"
  te_startedAtMs :: "int option"
  te_endedAtMs :: "int option"

text \<open>An object literal with the mandatory properties only.\<close>

definition entry :: "string \<Rightarrow> timelineKind \<Rightarrow> string \<Rightarrow> string \<Rightarrow> timelineStatus \<Rightarrow> timelineEntry" where
  "entry i k title body st = \<lparr>te_id = i, te_kind = k, te_title = title, te_serverTitle = False,
     te_body = body, te_status = st, te_statusLabel = None, te_turnId = None, te_messageId = None,
     te_streamId = None, te_turnSettled = False, te_toolSettled = False, te_latestTurnOutcome = None,
     te_turnUsage = None, te_toolArguments = None, te_textTerminal = None, te_omittedCount = None,
     te_media = None, te_attachmentSizes = None, te_artifactPath = None, te_turnStartedAtMs = None,
     te_turnEndedAtMs = None, te_startedAtMs = None, te_endedAtMs = None\<rparr>"

lemma entry_simps [simp]:
  "te_id (entry i k t b st) = i" "te_kind (entry i k t b st) = k" "te_body (entry i k t b st) = b"
  "te_status (entry i k t b st) = st" "te_turnId (entry i k t b st) = None"
  "te_messageId (entry i k t b st) = None" "te_streamId (entry i k t b st) = None"
  "te_turnSettled (entry i k t b st) = False" "te_toolSettled (entry i k t b st) = False"
  "te_textTerminal (entry i k t b st) = None" "te_toolArguments (entry i k t b st) = None"
  "te_artifactPath (entry i k t b st) = None" "te_title (entry i k t b st) = t"
  by (simp_all add: entry_def)

type_synonym timeline = "timelineEntry list"

text \<open>\<open>v !== undefined\<close> for a string that the code tests for truth.\<close>

definition truthy :: "string option \<Rightarrow> bool" where
  "truthy v = (v \<noteq> None \<and> v \<noteq> Some [])"

section \<open>\<open>entry-model.ts\<close>\<close>

definition find_entry :: "string \<Rightarrow> timeline \<Rightarrow> timelineEntry option" where
  "find_entry i es = find (\<lambda>e. te_id e = i) es"

text \<open>The replaced row: a hydrated terminal fence survives a later refinement of the row.\<close>

definition refined :: "timelineEntry \<Rightarrow> timelineEntry \<Rightarrow> timelineEntry" where
  "refined previous new =
     (if te_textTerminal previous \<noteq> None \<and> te_turnId previous = te_turnId new \<and> te_textTerminal new = None
      then new\<lparr>te_textTerminal := te_textTerminal previous\<rparr> else new)"

definition upsert :: "timeline \<Rightarrow> timelineEntry \<Rightarrow> timeline" where
  "upsert es new =
     (case find_index (\<lambda>e. te_id e = te_id new) es of
        None \<Rightarrow> es @ [new]
      | Some k \<Rightarrow> es[k := refined (es ! k) new])"

definition addSystemMessage ::
    "timeline \<Rightarrow> string \<Rightarrow> string \<Rightarrow> string \<Rightarrow> timelineStatus \<Rightarrow> timeline" where
  "addSystemMessage es i title body st = upsert es (entry i KSystem title body st)"

definition terminal_id :: "string \<Rightarrow> string" where
  "terminal_id t = ''terminal:'' @ t"

definition hasTerminal :: "timeline \<Rightarrow> string \<Rightarrow> bool" where
  "hasTerminal es t =
     list_ex (\<lambda>e. te_id e = terminal_id t
        \<or> te_turnId e = Some t \<and> (te_turnSettled e \<or> te_textTerminal e \<noteq> None)) es"

text \<open>The label of the running turn, one constructor per label.\<close>

datatype activity = RunningTool string | Thinking | Writing | Preparing | Working

definition find_last :: "('a \<Rightarrow> bool) \<Rightarrow> 'a list \<Rightarrow> 'a option" where
  "find_last P xs = find P (rev xs)"

definition timelineActivity :: "timeline \<Rightarrow> string option \<Rightarrow> activity option" where
  "timelineActivity es active =
     (case active of
        None \<Rightarrow> None
      | Some t \<Rightarrow>
          if t = [] \<or> hasTerminal es t then None
          else let turn = filter (\<lambda>e. te_turnId e = Some t) es;
                   tool = find_last (\<lambda>e. te_kind e = KTool \<and> te_status e = Running) turn;
                   current = find_last (\<lambda>e. te_kind e = KAssistant \<or> te_kind e = KReasoning) turn
               in case tool of
                    Some e \<Rightarrow> Some (RunningTool (te_title e))
                  | None \<Rightarrow>
                      if map_option te_status current = Some Running
                      then Some (if te_kind (the current) = KReasoning then Thinking else Writing)
                      else Some (if list_ex (\<lambda>e. te_kind e = KTool) turn then Preparing else Working))"

abbreviation "M_TURN_STARTED \<equiv> ''turn/started''"
abbreviation "M_TURN_COMPLETED \<equiv> ''turn/completed''"
abbreviation "M_TURN_ERROR \<equiv> ''turn/error''"
abbreviation "M_MESSAGE_DELTA \<equiv> ''message/delta''"
abbreviation "M_MESSAGE_REASONING_DELTA \<equiv> ''message/reasoning_delta''"
abbreviation "M_TOOL_STARTED \<equiv> ''tool/started''"
abbreviation "M_TOOL_PROGRESS \<equiv> ''tool/progress''"
abbreviation "M_TOOL_COMPLETED \<equiv> ''tool/completed''"
abbreviation "M_WARNING \<equiv> ''warning''"

definition params_turn :: "rpcNotification \<Rightarrow> string option" where
  "params_turn n =
     (case as_record (nt_params n) of None \<Rightarrow> None | Some o' \<Rightarrow> as_string (fld o' ''turn_id''))"

definition terminalTurnId :: "rpcNotification \<Rightarrow> string option" where
  "terminalTurnId n =
     (if nt_method n = M_TURN_COMPLETED \<or> nt_method n = M_TURN_ERROR then params_turn n
      else if nt_method n \<noteq> M_PROJECTION_ENVELOPE then None
      else case parseProjectionEnvelope (nt_params n) of
             None \<Rightarrow> None
           | Some e \<Rightarrow> if pp_type (pe_payload e) = ''turn_terminal'' then Some (pe_turn_id e) else None)"

text \<open>The loop of \<open>nextNoticeId\<close>, which ends because ids of different ordinals differ.\<close>

definition notice_id :: "string \<Rightarrow> nat \<Rightarrow> string" where
  "notice_id prefix n = prefix @ '':'' @ show_nat n"

lemma notice_id_inject [simp]: "notice_id p m = notice_id p n \<longleftrightarrow> m = n"
  by (simp add: notice_id_def)

definition taken_ordinals :: "timeline \<Rightarrow> string \<Rightarrow> nat \<Rightarrow> nat set" where
  "taken_ordinals es p n = {k. n \<le> k \<and> list_ex (\<lambda>e. te_id e = notice_id p k) es}"

lemma finite_taken: "finite (taken_ordinals es p n)"
proof -
  have "finite (notice_id p -` (te_id ` set es))"
    by (rule finite_vimageI) (simp_all add: inj_def)
  then show ?thesis by (rule rev_finite_subset) (force simp: taken_ordinals_def list_ex_iff intro: rev_image_eqI [OF _ sym])
qed

function notice_search :: "timeline \<Rightarrow> string \<Rightarrow> nat \<Rightarrow> nat" where
  "notice_search es p n =
     (if list_ex (\<lambda>e. te_id e = notice_id p n) es then notice_search es p (Suc n) else n)"
  by pat_completeness auto
termination
proof (relation "measure (\<lambda>(es, p, n). card (taken_ordinals es p n))")
  fix es :: timeline and p n
  assume "list_ex (\<lambda>e. te_id e = notice_id p n) es"
  then have "n \<in> taken_ordinals es p n" by (simp add: taken_ordinals_def)
  moreover have "n \<notin> taken_ordinals es p (Suc n)" "taken_ordinals es p (Suc n) \<subseteq> taken_ordinals es p n"
    by (auto simp: taken_ordinals_def)
  ultimately have "taken_ordinals es p (Suc n) \<subset> taken_ordinals es p n" by blast
  then show "((es, p, Suc n), (es, p, n)) \<in> measure (\<lambda>(es, p, n). card (taken_ordinals es p n))"
    by (simp add: psubset_card_mono finite_taken)
qed simp

declare notice_search.simps [simp del]

definition nextNoticeId :: "timeline \<Rightarrow> string \<Rightarrow> string" where
  "nextNoticeId es prefix = notice_id prefix (notice_search es prefix (length es))"

lemma notice_search_fresh: "notice_id p (notice_search es p n) \<notin> te_id ` set es"
proof (induction es p n rule: notice_search.induct)
  case (1 es p n)
  show ?case
  proof (cases "list_ex (\<lambda>e. te_id e = notice_id p n) es")
    case True
    with 1 show ?thesis by (simp add: notice_search.simps [of es p n])
  next
    case False
    then show ?thesis by (force simp: notice_search.simps [of es p n] list_ex_iff)
  qed
qed

lemma notice_search_le: "n \<le> notice_search es p n"
proof (induction es p n rule: notice_search.induct)
  case (1 es p n)
  then show ?case by (auto simp: notice_search.simps [of es p n])
qed

section \<open>\<open>artifact-tools.ts\<close>\<close>

definition slashes :: "string \<Rightarrow> string" where
  "slashes s = map (\<lambda>c. if c = CHR 0x5C then CHR ''/'' else c) s"

definition validPath :: "unknown \<Rightarrow> string option" where
  "validPath v =
     (case as_string v of
        None \<Rightarrow> None
      | Some s \<Rightarrow>
          if trim s = [] \<or> list_ex js_control s \<or> length s > 16384 then None
          else let normalized = slashes s in
               if ''..'' \<notin> set (split_on CHR ''/'' normalized) \<and> \<not> starts_with normalized ''up/''
                  \<and> \<not> starts_with normalized ''pf/''
               then Some normalized else None)"

definition write_tools :: "string list" where
  "write_tools = [''write_file'', ''edit_file'']"

definition or_empty :: "string option \<Rightarrow> string" where
  "or_empty v = (case v of None \<Rightarrow> [] | Some s \<Rightarrow> s)"

definition structuredWritePath :: "string \<Rightarrow> unknown \<Rightarrow> string" where
  "structuredWritePath tool v = (if tool \<in> set write_tools then or_empty (validPath v) else [])"

text \<open>
  The regular expression of the fallback. After the key, an optional quote, a colon and a string
  literal; \<open>literal_body\<close> is the literal without its opening quote.
\<close>

fun literal_body :: "string \<Rightarrow> string option" where
  "literal_body [] = None"
| "literal_body (c # s) =
     (if c = CHR 0x22 then Some [c]
      else if c = CHR 0x5C
      then (case s of
              [] \<Rightarrow> None
            | d # t \<Rightarrow> if d = CHR 0x0A \<or> d = CHR 0x0D then None
                      else map_option (\<lambda>r. c # d # r) (literal_body t))
      else map_option (\<lambda>r. c # r) (literal_body s))"

definition opt_quote :: "string \<Rightarrow> string" where
  "opt_quote s = (if s \<noteq> [] \<and> hd s = CHR 0x22 then tl s else s)"

definition value_literal :: "string \<Rightarrow> string option" where
  "value_literal s =
     (case dropWhile js_space s of
        [] \<Rightarrow> None
      | c # r \<Rightarrow>
          if c \<noteq> CHR '':'' then None
          else (case dropWhile js_space r of
                  [] \<Rightarrow> None
                | q # b \<Rightarrow> if q = CHR 0x22 then map_option (\<lambda>l. q # l) (literal_body b) else None))"

definition path_keys :: "string list" where
  "path_keys = [''path'', ''file_path'', ''filepath'', ''filePath'', ''file'']"

definition key_literal :: "string \<Rightarrow> string option" where
  "key_literal s =
     first_some (\<lambda>k. if starts_with s k then value_literal (opt_quote (drop (length k) s)) else None)
       path_keys"

fun field_scan :: "bool \<Rightarrow> string \<Rightarrow> string option" where
  "field_scan at_start [] = (if at_start then key_literal (opt_quote []) else None)"
| "field_scan at_start (c # s) =
     (case (if at_start then key_literal (opt_quote (c # s)) else None) of
        Some r \<Rightarrow> Some r
      | None \<Rightarrow>
          (case (if c = CHR '','' \<or> c = CHR ''{''
                 then key_literal (opt_quote (dropWhile js_space s)) else None) of
             Some r \<Rightarrow> Some r
           | None \<Rightarrow> field_scan False s))"

text \<open>\<open>parse\<close> is \<open>JSON.parse\<close>, \<open>None\<close> when it throws.\<close>

definition writtenArtifactPath :: "(string \<Rightarrow> json option) \<Rightarrow> string \<Rightarrow> string \<Rightarrow> string" where
  "writtenArtifactPath parse tool arguments =
     (if tool \<notin> set write_tools then []
      else case parse arguments of
             Some parsed \<Rightarrow>
               (case as_record (Some parsed) of
                  None \<Rightarrow> []
                | Some row \<Rightarrow> or_empty (first_some (\<lambda>k. validPath (fld row k)) path_keys))
           | None \<Rightarrow>
               (case field_scan True arguments of
                  None \<Rightarrow> []
                | Some literal \<Rightarrow> or_empty (validPath (parse literal))))"

section \<open>Properties\<close>

text \<open>What a path that the transcript may offer to open must look like.\<close>

definition safe_path :: "string \<Rightarrow> bool" where
  "safe_path p \<longleftrightarrow> trim p \<noteq> [] \<and> length p \<le> 16384 \<and> CHR 0x5C \<notin> set p \<and> \<not> list_ex js_control p
     \<and> ''..'' \<notin> set (split_on CHR ''/'' p) \<and> \<not> starts_with p ''up/'' \<and> \<not> starts_with p ''pf/''"

lemma js_space_slash: "\<not> js_space CHR ''/''" "\<not> js_space CHR 0x5C" "\<not> js_control CHR ''/''"
  by code_simp+

lemma slashes_simps [simp]: "length (slashes s) = length s" "CHR 0x5C \<notin> set (slashes s)"
  by (auto simp: slashes_def)

lemma trim_Nil: "trim s = [] \<longleftrightarrow> list_all js_space s"
proof -
  have "trim s = [] \<longleftrightarrow> (\<forall>c \<in> set (dropWhile js_space s). js_space c)"
    by (simp add: trim_def dropWhile_eq_Nil_conv)
  also have "\<dots> \<longleftrightarrow> list_all js_space s"
    by (induction s) auto
  finally show ?thesis .
qed

lemma slashes_blank: "trim (slashes s) = [] \<longleftrightarrow> trim s = []"
proof -
  have "list_all js_space (slashes s) = list_all js_space s"
    by (induction s) (auto simp: slashes_def js_space_slash)
  then show ?thesis by (simp add: trim_Nil)
qed

lemma slashes_control: "list_ex js_control (slashes s) \<Longrightarrow> list_ex js_control s"
  by (auto simp: list_ex_iff slashes_def js_space_slash split: if_splits)

lemma validPath_safe: "validPath v = Some p \<Longrightarrow> safe_path p"
  using slashes_control slashes_blank
  by (auto simp: validPath_def safe_path_def Let_def split: option.splits if_splits)

lemma first_some_Some: "first_some f xs = Some y \<Longrightarrow> \<exists>x \<in> set xs. f x = Some y"
  by (induction xs) (auto split: option.splits)

lemma or_empty_validPath: "or_empty (validPath v) = [] \<or> safe_path (or_empty (validPath v))"
  using validPath_safe by (cases "validPath v") (auto simp: or_empty_def)

text \<open>
  C40: A file path shown for a tool call is empty or safe: from the structured field, from parsed
  arguments and from the text of truncated arguments alike, whatever \<open>JSON.parse\<close> makes of them, it
  has no parent segment, no backslash, no control character, no reserved prefix and bounded length;
  and only the two file-writing tools have one.
\<close>
theorem artifact_paths_safe:
  "(structuredWritePath tool v = [] \<or> safe_path (structuredWritePath tool v) \<and> tool \<in> set write_tools)
   \<and> (writtenArtifactPath parse tool arguments = []
      \<or> safe_path (writtenArtifactPath parse tool arguments) \<and> tool \<in> set write_tools)"
proof (intro conjI)
  show "structuredWritePath tool v = [] \<or> safe_path (structuredWritePath tool v) \<and> tool \<in> set write_tools"
    using or_empty_validPath by (auto simp: structuredWritePath_def)
  have first: "or_empty (first_some (\<lambda>k. validPath (f k)) ks) = []
      \<or> safe_path (or_empty (first_some (\<lambda>k. validPath (f k)) ks))" for f and ks :: "string list"
    using validPath_safe first_some_Some [of "\<lambda>k. validPath (f k)" ks]
    by (cases "first_some (\<lambda>k. validPath (f k)) ks") (auto simp: or_empty_def)
  show "writtenArtifactPath parse tool arguments = []
      \<or> safe_path (writtenArtifactPath parse tool arguments) \<and> tool \<in> set write_tools"
    using or_empty_validPath first by (auto simp: writtenArtifactPath_def split: option.splits)
qed

end
