(* ===== verification/TimelineFold.thy ===== *)
theory TimelineFold
  imports TimelineEntries
begin

text \<open>
  The transcript fold, \<open>features/timeline/model.ts\<close>: every notification of the server becomes an
  update of the list of rows. The live fold (\<open>foldNotification\<close> and everything it calls) is
  modelled whole; the transcript that a hydrate result restores is theory \<open>TimelineRestore\<close>.

  What the fold reads from the JavaScript runtime is the record \<open>runtime\<close>: the clock (one reading
  per notification, whose fold is synchronous), \<open>Date.parse\<close> (\<open>None\<close> for \<open>NaN\<close>), \<open>JSON.parse\<close>
  (\<open>None\<close> when it throws) and the decimal rendering of a double.
\<close>

record runtime =
  rt_now :: int
  rt_date_parse :: "string \<Rightarrow> int option"
  rt_json_parse :: "string \<Rightarrow> json option"
  rt_show_number :: "jnum \<Rightarrow> string"

section \<open>Reading values\<close>

definition stringOf :: "unknown \<Rightarrow> string \<Rightarrow> string" where
  "stringOf v fallback = (case as_string v of None \<Rightarrow> fallback | Some s \<Rightarrow> s)"

definition textOf :: "fields \<Rightarrow> string" where
  "textOf o' = stringOf (fld o' ''text'') []"

text \<open>The operator \<open>??\<close>.\<close>

definition coalesce :: "unknown \<Rightarrow> unknown \<Rightarrow> unknown" where
  "coalesce v w = (if v = None \<or> v = Some JNull then w else v)"

definition mediaOf :: "unknown \<Rightarrow> string list" where
  "mediaOf v =
     (case as_array v of None \<Rightarrow> [] | Some xs \<Rightarrow> List.map_filter (\<lambda>e. as_string (Some e)) xs)"

definition withMedia :: "string list \<Rightarrow> timelineEntry \<Rightarrow> timelineEntry" where
  "withMedia media e = (if media = [] then e else e\<lparr>te_media := Some media\<rparr>)"

text \<open>\<open>JSON.stringify(value, null, 2)\<close>, at an indentation.\<close>

definition new_line :: "nat \<Rightarrow> string" where
  "new_line d = CHR 0x0A # replicate d CHR '' ''"

fun pretty_json :: "(jnum \<Rightarrow> string) \<Rightarrow> nat \<Rightarrow> json \<Rightarrow> string"
  and pretty_items :: "(jnum \<Rightarrow> string) \<Rightarrow> nat \<Rightarrow> json list \<Rightarrow> string list"
  and pretty_fields :: "(jnum \<Rightarrow> string) \<Rightarrow> nat \<Rightarrow> (string \<times> json) list \<Rightarrow> string list" where
  "pretty_json sn d JNull = ''null''"
| "pretty_json sn d (JBool b) = (if b then ''true'' else ''false'')"
| "pretty_json sn d (JNum n) = (case n of JInf _ \<Rightarrow> ''null'' | _ \<Rightarrow> sn n)"
| "pretty_json sn d (JStr s) = json_quote s"
| "pretty_json sn d (JArr xs) =
     (if xs = [] then ''[]''
      else ''['' @ new_line (d + 2) @ join ('','' @ new_line (d + 2)) (pretty_items sn (d + 2) xs)
           @ new_line d @ '']'')"
| "pretty_json sn d (JObj fs) =
     (if fs = [] then ''{}''
      else ''{'' @ new_line (d + 2) @ join ('','' @ new_line (d + 2)) (pretty_fields sn (d + 2) fs)
           @ new_line d @ ''}'')"
| "pretty_items sn d [] = []"
| "pretty_items sn d (x # xs) = pretty_json sn d x # pretty_items sn d xs"
| "pretty_fields sn d [] = []"
| "pretty_fields sn d ((k, v) # fs) =
     (json_quote k @ '': '' @ pretty_json sn d v) # pretty_fields sn d fs"

definition pretty :: "runtime \<Rightarrow> unknown \<Rightarrow> string" where
  "pretty rt v =
     (case v of
        None \<Rightarrow> []
      | Some j \<Rightarrow> (case as_string v of Some s \<Rightarrow> s | None \<Rightarrow> pretty_json (rt_show_number rt) 0 j))"

definition terminalErrorText :: "unknown \<Rightarrow> string" where
  "terminalErrorText v =
     (case as_string v of
        Some s \<Rightarrow> s
      | None \<Rightarrow>
          (case as_record v of
             None \<Rightarrow> []
           | Some o' \<Rightarrow>
               let message = trim (stringOf (fld o' ''message'') []);
                   code = trim (stringOf (fld o' ''code'') [])
               in if message \<noteq> [] then message
                  else if code \<noteq> [] then ''Server error ('' @ code @ '').''
                  else ''The server could not complete this turn.''))"

definition usage_parts :: "unknown \<Rightarrow> unknown \<Rightarrow> (jnum \<times> jnum) option" where
  "usage_parts i out =
     (case (as_number i, as_number out) of
        (None, None) \<Rightarrow> None
      | (a, b) \<Rightarrow> Some (case a of None \<Rightarrow> JInt 0 | Some n \<Rightarrow> n, case b of None \<Rightarrow> JInt 0 | Some n \<Rightarrow> n))"

definition legacyUsageParts :: "fields \<Rightarrow> (jnum \<times> jnum) option" where
  "legacyUsageParts o' = usage_parts (fld o' ''tokens_in'') (fld o' ''tokens_out'')"

definition projectionUsageParts :: "unknown \<Rightarrow> (jnum \<times> jnum) option" where
  "projectionUsageParts v =
     (case as_record v of
        None \<Rightarrow> None
      | Some o' \<Rightarrow> usage_parts (fld o' ''input_tokens'') (fld o' ''output_tokens''))"

definition usageText :: "runtime \<Rightarrow> fields \<Rightarrow> string" where
  "usageText rt o' =
     (case legacyUsageParts o' of
        None \<Rightarrow> ''The server settled this turn.''
      | Some (i, out) \<Rightarrow> rt_show_number rt i @ '' in '' @ [CHR 0xB7] @ '' '' @ rt_show_number rt out @ '' out'')"

section \<open>Updating rows\<close>

text \<open>\<open>startedAtMs !== undefined ? \{ endedAtMs: endedAtMs ?? now \} : \{\}\<close>.\<close>

definition close_timing :: "runtime \<Rightarrow> timelineEntry \<Rightarrow> timelineEntry" where
  "close_timing rt e =
     (if te_startedAtMs e = None then e
      else e\<lparr>te_endedAtMs := Some (case te_endedAtMs e of None \<Rightarrow> rt_now rt | Some t \<Rightarrow> t)\<rparr>)"

definition settleReasoning :: "runtime \<Rightarrow> timeline \<Rightarrow> string \<Rightarrow> timeline" where
  "settleReasoning rt es t =
     map (\<lambda>e. if te_turnId e = Some t \<and> te_kind e = KReasoning \<and> te_status e = Running
              then close_timing rt (e\<lparr>te_status := Complete\<rparr>) else e) es"

definition reasoningSegment :: "timeline \<Rightarrow> string \<Rightarrow> nat" where
  "reasoningSegment es t =
     length (filter (\<lambda>e. te_turnId e = Some t \<and> starts_with (te_id e) ''tool:'') es)"

definition appendText ::
    "runtime \<Rightarrow> timeline \<Rightarrow> string \<Rightarrow> timelineKind \<Rightarrow> string \<Rightarrow> unknown \<Rightarrow> string \<Rightarrow> timeline" where
  "appendText rt es i k title v t =
     (case as_string v of
        None \<Rightarrow> es
      | Some text \<Rightarrow>
          let existing = find (\<lambda>e. te_id e = i \<or> te_streamId e = Some i) es;
              settled = (case existing of None \<Rightarrow> False
                         | Some e \<Rightarrow> te_status e = Complete \<or> te_status e = ErrorStatus);
              body = (case existing of None \<Rightarrow> [] | Some e \<Rightarrow> te_body e);
              started = (case existing of None \<Rightarrow> None | Some e \<Rightarrow> te_startedAtMs e)
          in if text = [] \<or> k = KAssistant \<and> settled then es
             else upsert es ((entry i k title (body @ text) Running)
               \<lparr>te_turnId := Some t,
                te_startedAtMs := Some (case started of None \<Rightarrow> rt_now rt | Some n \<Rightarrow> n),
                te_endedAtMs := Some (rt_now rt)\<rparr>))"

text \<open>The sweep of a settled turn: \<open>None\<close> drops the row.\<close>

definition persisted_bodies :: "timeline \<Rightarrow> string \<Rightarrow> string list" where
  "persisted_bodies es t =
     map (\<lambda>e. trim (te_body e))
       (filter (\<lambda>e. te_turnId e = Some t \<and> te_kind e = KAssistant \<and> te_status e = Complete) es)"

definition sweepable :: "string \<Rightarrow> timelineEntry \<Rightarrow> bool" where
  "sweepable t e \<longleftrightarrow> te_turnId e = Some t \<and> te_status e = Running
     \<and> (te_kind e = KAssistant \<or> te_kind e = KReasoning \<or> te_kind e = KTool)"

definition swept_row :: "runtime \<Rightarrow> string \<Rightarrow> timelineEntry \<Rightarrow> timelineEntry" where
  "swept_row rt outcome e =
     (let e1 = close_timing rt e;
          e2 = e1\<lparr>te_status :=
                 (if te_kind e = KTool
                  then if outcome = ''completed'' \<or> outcome = ''interrupted'' then Info else ErrorStatus
                  else Complete)\<rparr>
      in if te_kind e = KTool
         then e2\<lparr>te_statusLabel := Some (if outcome = ''completed'' then ''Finished'' else ''Stopped'')\<rparr>
         else e2)"

definition sweepTurnStreamtails :: "runtime \<Rightarrow> timeline \<Rightarrow> string \<Rightarrow> string \<Rightarrow> timeline" where
  "sweepTurnStreamtails rt es t outcome =
     (let persisted = persisted_bodies es t
      in List.map_filter (\<lambda>e.
           if \<not> sweepable t e then Some e
           else if te_kind e = KAssistant
                   \<and> (trim (te_body e) = []
                      \<or> list_ex (\<lambda>full. includes_str full (trim (te_body e))) persisted)
           then None
           else Some (swept_row rt outcome e)) es)"

definition least :: "int list \<Rightarrow> int option" where
  "least xs = (case xs of [] \<Rightarrow> None | x # r \<Rightarrow> Some (foldl min x r))"

definition known_times :: "timelineEntry \<Rightarrow> int list" where
  "known_times e = List.map_filter (\<lambda>v. v) [te_turnStartedAtMs e, te_startedAtMs e]"

definition outcome_title :: "string \<Rightarrow> string" where
  "outcome_title outcome =
     (if outcome = ''completed'' then ''Turn complete''
      else if outcome = ''interrupted'' then ''Turn stopped''
      else if outcome = ''rate_limited'' then ''Turn rate limited'' else ''Turn failed'')"

definition outcome_status :: "string \<Rightarrow> timelineStatus" where
  "outcome_status outcome =
     (if outcome = ''completed'' then Complete
      else if outcome = ''rate_limited'' \<or> outcome = ''interrupted'' then Info else ErrorStatus)"

definition settleTimelineTurn ::
    "runtime \<Rightarrow> timeline \<Rightarrow> string \<Rightarrow> string \<Rightarrow> string \<Rightarrow> (jnum \<times> jnum) option \<Rightarrow> timeline" where
  "settleTimelineTurn rt es t outcome body usage =
     (let previous = find_entry (terminal_id t) es;
          durableStart = (case previous of None \<Rightarrow> None | Some e \<Rightarrow> te_turnStartedAtMs e);
          durableEnd = (case previous of None \<Rightarrow> None | Some e \<Rightarrow> te_turnEndedAtMs e);
          started = least (concat (map known_times (filter (\<lambda>e. te_turnId e = Some t) es)))
      in upsert (sweepTurnStreamtails rt es t outcome)
           ((entry (terminal_id t) KSystem (outcome_title outcome) body (outcome_status outcome))
             \<lparr>te_turnId := Some t, te_latestTurnOutcome := Some outcome,
              te_turnStartedAtMs := durableStart, te_turnEndedAtMs := durableEnd,
              te_startedAtMs := Some (case durableStart of Some n \<Rightarrow> n
                | None \<Rightarrow> (case started of Some n \<Rightarrow> n | None \<Rightarrow> rt_now rt)),
              te_endedAtMs := Some (case durableEnd of Some n \<Rightarrow> n | None \<Rightarrow> rt_now rt),
              te_turnUsage := usage\<rparr>))"

section \<open>Tools\<close>

definition toolEntryId :: "string \<Rightarrow> unknown \<Rightarrow> string" where
  "toolEntryId t call = ''tool:'' @ t @ '':'' @ stringOf call t"

definition tool_settled :: "string \<Rightarrow> timeline \<Rightarrow> bool" where
  "tool_settled i es = (case find_entry i es of None \<Rightarrow> False | Some e \<Rightarrow> te_toolSettled e)"

definition startTool :: "timeline \<Rightarrow> timelineEntry \<Rightarrow> timeline" where
  "startTool es e0 =
     (let e1 = e0\<lparr>te_toolArguments :=
                 Some (case te_toolArguments e0 of None \<Rightarrow> te_body e0 | Some a \<Rightarrow> a)\<rparr>;
          previous = (case find_entry (te_id e1) es of None \<Rightarrow> None | Some p \<Rightarrow> te_artifactPath p);
          e2 = (if truthy previous \<and> \<not> truthy (te_artifactPath e1)
                then e1\<lparr>te_artifactPath := previous\<rparr> else e1)
      in if tool_settled (te_id e1) es then es
         else upsert es
           (if truthy (te_turnId e2) \<and> hasTerminal es (the (te_turnId e2))
            then e2\<lparr>te_status := Info, te_statusLabel := Some ''Background'', te_turnSettled := True\<rparr>
            else e2))"

text \<open>A patch of a row: absent members leave the row's own.\<close>

record entryPatch =
  pa_body :: "string option"
  pa_status :: "timelineStatus option"
  pa_statusLabel :: "string option"
  pa_endedAtMs :: "int option"

definition patched :: "entryPatch \<Rightarrow> timelineEntry \<Rightarrow> timelineEntry" where
  "patched p e = e\<lparr>te_body := (case pa_body p of None \<Rightarrow> te_body e | Some b \<Rightarrow> b),
     te_status := (case pa_status p of None \<Rightarrow> te_status e | Some s \<Rightarrow> s),
     te_statusLabel := or_else (pa_statusLabel p) (te_statusLabel e),
     te_endedAtMs := or_else (pa_endedAtMs p) (te_endedAtMs e)\<rparr>"

definition patchEntry :: "timeline \<Rightarrow> string \<Rightarrow> entryPatch \<Rightarrow> timeline" where
  "patchEntry es i p = map (\<lambda>e. if te_id e = i then patched p e else e) es"

definition progressTool :: "timeline \<Rightarrow> string \<Rightarrow> string option \<Rightarrow> timeline" where
  "progressTool es i body =
     (let turn = (case find_entry i es of None \<Rightarrow> None | Some e \<Rightarrow> te_turnId e);
          background = (truthy turn \<and> hasTerminal es (the turn))
      in if tool_settled i es then es
         else patchEntry es i \<lparr>pa_body = body, pa_status = (if background then Some Info else None),
                pa_statusLabel = (if background then Some ''Background'' else None),
                pa_endedAtMs = None\<rparr>)"

definition completeTool ::
    "runtime \<Rightarrow> timeline \<Rightarrow> string \<Rightarrow> unknown \<Rightarrow> string option \<Rightarrow> timelineStatus \<Rightarrow> string \<Rightarrow> timeline" where
  "completeTool rt es t call body st label =
     (case as_string call of
        None \<Rightarrow> es
      | Some c \<Rightarrow>
          if trim c = [] then es
          else let i = toolEntryId t call;
                   existing = find_entry i es;
                   base = (case existing of Some e \<Rightarrow> e
                           | None \<Rightarrow> (entry i KTool ''Tool output'' [] st)\<lparr>te_turnId := Some t\<rparr>);
                   timed = (case existing of None \<Rightarrow> False | Some e \<Rightarrow> te_startedAtMs e \<noteq> None)
               in upsert es (base\<lparr>te_body := (case body of None \<Rightarrow> te_body base | Some b \<Rightarrow> b),
                    te_status := st, te_statusLabel := Some label,
                    te_endedAtMs := (if timed then Some (rt_now rt) else te_endedAtMs base),
                    te_toolSettled := True,
                    te_turnSettled := (te_turnSettled base \<or> hasTerminal es t)\<rparr>))"

section \<open>User rows\<close>

definition insert_at :: "nat \<Rightarrow> 'a \<Rightarrow> 'a list \<Rightarrow> 'a list" where
  "insert_at n x xs = take n xs @ x # drop n xs"

definition is_reply :: "string option \<Rightarrow> timelineEntry \<Rightarrow> bool" where
  "is_reply t e \<longleftrightarrow> te_turnId e = t
     \<and> (te_kind e = KReasoning \<or> te_kind e = KTool \<or> te_kind e = KAssistant)"

definition upsertUser :: "timeline \<Rightarrow> timelineEntry \<Rightarrow> timeline" where
  "upsertUser es user =
     (let existing = find_index (\<lambda>e. te_id e = te_id user) es;
          previous = map_option (\<lambda>k. es ! k) existing;
          kept_sizes = (case previous of None \<Rightarrow> None | Some p \<Rightarrow> te_attachmentSizes p);
          kept_media = (case previous of None \<Rightarrow> None | Some p \<Rightarrow> te_media p);
          nextUser = user\<lparr>te_attachmentSizes := or_else (te_attachmentSizes user) kept_sizes,
                          te_media := or_else (te_media user) kept_media\<rparr>
      in case find_index (is_reply (te_turnId user)) es of
           None \<Rightarrow> upsert es nextUser
         | Some firstReply \<Rightarrow>
             if (case existing of None \<Rightarrow> False | Some k \<Rightarrow> k < firstReply)
             then upsert es nextUser
             else insert_at firstReply nextUser (filter (\<lambda>e. te_id e \<noteq> te_id user) es))"

text \<open>An array entry of \<open>files\<close> with a string path, and its size when it is a number.\<close>

definition landed_file :: "json \<Rightarrow> (string \<times> jnum option) option" where
  "landed_file j =
     (case as_record (Some j) of
        None \<Rightarrow> None
      | Some o' \<Rightarrow> (case as_string (fld o' ''path'') of
                     None \<Rightarrow> None
                   | Some p \<Rightarrow> Some (p, as_number (fld o' ''size_bytes''))))"

definition landed_files :: "unknown \<Rightarrow> (string \<times> jnum option) list" where
  "landed_files v = (case as_array v of None \<Rightarrow> [] | Some xs \<Rightarrow> List.map_filter landed_file xs)"

definition canonicalUserFiles :: "unknown \<Rightarrow> timelineEntry option \<Rightarrow> timelineEntry \<Rightarrow> timelineEntry" where
  "canonicalUserFiles files optimistic user =
     (let landed = landed_files files
      in if landed = []
         then (case optimistic of None \<Rightarrow> user
               | Some p \<Rightarrow> (if te_media p = None then user else user\<lparr>te_media := te_media p\<rparr>))
         else user\<lparr>te_media := Some (map fst landed),
                   te_attachmentSizes := Some (map_of_entries
                     (List.map_filter (\<lambda>(p, n). map_option (Pair p) n) landed))\<rparr>)"

definition upsertCanonicalUser ::
    "timeline \<Rightarrow> string \<Rightarrow> string \<Rightarrow> string \<Rightarrow> unknown \<Rightarrow> timeline" where
  "upsertCanonicalUser es t eventId text files =
     (let replayed = find (\<lambda>e. te_streamId e = Some eventId) es;
          users = filter (\<lambda>e. te_kind e = KUser \<and> te_turnId e = Some t) es;
          optimistic = find (\<lambda>e. te_id e = ''user:'' @ t \<and> \<not> truthy (te_streamId e) \<and> te_body e = text) users;
          source = or_else replayed optimistic;
          i = (case source of Some e \<Rightarrow> te_id e
               | None \<Rightarrow> if users \<noteq> [] then eventId else ''user:'' @ t);
          user = (entry i KUser ''You'' text Complete)
            \<lparr>te_turnId := Some t, te_streamId := Some eventId,
             te_turnStartedAtMs := (case source of None \<Rightarrow> None | Some e \<Rightarrow> te_turnStartedAtMs e),
             te_attachmentSizes := (case optimistic of None \<Rightarrow> None | Some e \<Rightarrow> te_attachmentSizes e)\<rparr>;
          row = canonicalUserFiles files optimistic user
      in if users \<noteq> [] then upsert es row else upsertUser es row)"

definition addOptimisticUser ::
    "timeline \<Rightarrow> string \<Rightarrow> string \<Rightarrow> (string \<times> jnum) list \<Rightarrow> timeline" where
  "addOptimisticUser es t text media =
     (let row = (entry (''user:'' @ t) KUser ''You'' text Complete)\<lparr>te_turnId := Some t\<rparr>
      in upsertUser es
           (if media = [] then row
            else row\<lparr>te_media := Some (map fst media),
                     te_attachmentSizes := Some (map_of_entries media)\<rparr>))"

section \<open>The fold\<close>

definition assistant_stream :: "string \<Rightarrow> fields \<Rightarrow> string" where
  "assistant_stream t data =
     ''assistant:'' @ t @ '':'' @ stringOf (fld data ''assistant_segment_id'') ''default''"

text \<open>A row id: the id of the found row, or else the fallback.\<close>

definition id_or :: "timelineEntry option \<Rightarrow> string \<Rightarrow> string" where
  "id_or e i = (case e of None \<Rightarrow> i | Some x \<Rightarrow> te_id x)"

definition tool_start_row ::
    "runtime \<Rightarrow> string \<Rightarrow> unknown \<Rightarrow> string \<Rightarrow> string \<Rightarrow> string \<Rightarrow> timelineEntry" where
  "tool_start_row rt t call name body path =
     (entry (toolEntryId t call) KTool name body Running)
       \<lparr>te_turnId := Some t, te_startedAtMs := Some (rt_now rt),
        te_artifactPath := (if path = [] then None else Some path)\<rparr>"

definition fold_persisted :: "runtime \<Rightarrow> timeline \<Rightarrow> string \<Rightarrow> fields \<Rightarrow> timeline" where
  "fold_persisted rt es t data =
     (let meta = as_record (fld data ''meta'');
          messageId = (case meta of None \<Rightarrow> None | Some m \<Rightarrow> as_string (fld m ''message_id''));
          hydrated = (if truthy messageId then find (\<lambda>e. te_messageId e = messageId) es else None);
          media = (case meta of None \<Rightarrow> [] | Some m \<Rightarrow> mediaOf (fld m ''media''));
          row = withMedia media
            (entry (id_or hydrated (assistant_stream t data)) KAssistant ''Octos'' (textOf data) Complete)
      in upsert (settleReasoning rt es t)
           (row\<lparr>te_turnId := Some t, te_streamId := Some (assistant_stream t data),
                te_turnSettled := hasTerminal es t,
                te_messageId := (if truthy messageId then messageId else None)\<rparr>))"

definition fold_spawn :: "timeline \<Rightarrow> string \<Rightarrow> fields \<Rightarrow> timeline" where
  "fold_spawn es t data =
     (let messageId = stringOf (fld data ''message_id'') [];
          hydrated = (if messageId = [] then None
                      else find (\<lambda>e. te_kind e = KAssistant \<and> te_messageId e = Some messageId) es);
          row = withMedia (mediaOf (fld data ''media''))
            (entry (id_or hydrated (''background:'' @ stringOf (fld data ''task_id'') t)) KAssistant
              ''Background agent'' (stringOf (fld data ''content'') ''Background task completed.'') Complete)
      in upsert es
           (row\<lparr>te_turnId := Some t, te_messageId := (if messageId = [] then None else Some messageId),
                te_turnSettled := hasTerminal es t\<rparr>))"

definition fold_file :: "timeline \<Rightarrow> string \<Rightarrow> fields \<Rightarrow> timeline" where
  "fold_file es t data =
     (let path = stringOf (fld data ''path'') [];
          name = last (split_on CHR ''/'' path);
          fileName = (if name \<noteq> [] then name else if path \<noteq> [] then path else ''unknown'')
      in upsert es ((entry (''file-attached:'' @ t @ '':'' @ path) KSystem ''File attached'' fileName Info)
           \<lparr>te_turnId := Some t,
            te_attachmentSizes :=
              (case nonneg_int (fld data ''size_bytes'') of
                 None \<Rightarrow> None
               | Some n \<Rightarrow> if path = [] then None else Some [(path, JInt (int n))])\<rparr>))"

definition tool_end_status :: "unknown \<Rightarrow> timelineStatus \<times> string" where
  "tool_end_status v =
     (if v = Some (JStr ''complete'') then (Complete, ''Done'')
      else if v = Some (JStr ''skipped'') then (Info, ''Skipped'')
      else if v = Some (JStr ''aborted'') then (ErrorStatus, ''Stopped'')
      else (ErrorStatus, ''Failed''))"

definition foldProjection :: "runtime \<Rightarrow> timeline \<Rightarrow> string \<Rightarrow> string \<Rightarrow> unknown \<Rightarrow> timeline" where
  "foldProjection rt es t type v =
     (case as_record v of
        None \<Rightarrow> es
      | Some data \<Rightarrow>
          if hasTerminal es t \<and> (type = ''assistant_delta'' \<or> type = ''reasoning_delta'') then es
          else if type = ''assistant_delta''
          then appendText rt (settleReasoning rt es t) (assistant_stream t data) KAssistant ''Octos''
                 (fld data ''text'') t
          else if type = ''assistant_persisted'' then fold_persisted rt es t data
          else if type = ''reasoning_delta''
          then appendText rt es (''reasoning:'' @ t @ '':'' @ show_nat (reasoningSegment es t)) KReasoning
                 ''Reasoning'' (fld data ''text'') t
          else if type = ''tool_start''
          then let name = stringOf (fld data ''name'') ''Tool''
               in startTool (settleReasoning rt es t)
                    (tool_start_row rt t (fld data ''tool_call_id'') name
                       (stringOf (fld data ''arguments_preview'') [])
                       (structuredWritePath name (fld data ''write_path'')))
          else if type = ''tool_progress''
          then progressTool es (toolEntryId t (fld data ''tool_call_id''))
                 (Some (stringOf (fld data ''message'') []))
          else if type = ''tool_end''
          then completeTool rt es t (fld data ''tool_call_id'')
                 (Some (stringOf (coalesce (coalesce (fld data ''output_preview'') (fld data ''error''))
                                           (fld data ''reason'')) []))
                 (fst (tool_end_status (fld data ''status''))) (snd (tool_end_status (fld data ''status'')))
          else if type = ''turn_terminal''
          then settleTimelineTurn rt es t (stringOf (fld data ''outcome'') ''errored'')
                 (terminalErrorText (fld data ''error'')) (projectionUsageParts (fld data ''token_usage''))
          else if type = ''background/spawn_complete'' then fold_spawn es t data
          else if type = ''file_attached'' then fold_file es t data
          else es)"

definition fold_envelope :: "runtime \<Rightarrow> timeline \<Rightarrow> unknown \<Rightarrow> timeline" where
  "fold_envelope rt es params =
     (case parseProjectionEnvelope params of
        None \<Rightarrow> addSystemMessage es (nextNoticeId es ''invalid-projection'') ''Protocol frame rejected''
                  ''projection/envelope did not match the negotiated v2 shape.'' ErrorStatus
      | Some e \<Rightarrow>
          (case as_record (Some (pp_data (pe_payload e))) of
             Some data \<Rightarrow>
               if pp_type (pe_payload e) = ''user_message''
               then upsertCanonicalUser es (pe_turn_id e)
                      (''user-event:'' @ stringify_pair (pe_thread_id e) (pe_seq e))
                      (textOf data) (fld data ''files'')
               else foldProjection rt es (pe_turn_id e) (pp_type (pe_payload e)) (Some (JObj data))
           | None \<Rightarrow> foldProjection rt es (pe_turn_id e) (pp_type (pe_payload e))
                       (Some (pp_data (pe_payload e)))))"

definition fold_turn_started :: "runtime \<Rightarrow> timeline \<Rightarrow> string \<Rightarrow> fields \<Rightarrow> timeline" where
  "fold_turn_started rt es t params =
     (case (case as_string (fld params ''timestamp'') of None \<Rightarrow> None | Some s \<Rightarrow> rt_date_parse rt s) of
        None \<Rightarrow> es
      | Some at \<Rightarrow>
          map (\<lambda>e. if te_turnId e = Some t \<and> te_turnStartedAtMs e = None
                   then e\<lparr>te_turnStartedAtMs := Some at\<rparr> else e) es)"

definition fold_legacy :: "runtime \<Rightarrow> timeline \<Rightarrow> string \<Rightarrow> string \<Rightarrow> fields \<Rightarrow> timeline" where
  "fold_legacy rt es m t params =
     (if m = M_MESSAGE_DELTA
      then appendText rt (settleReasoning rt es t) (''assistant:'' @ t) KAssistant ''Octos''
             (fld params ''text'') t
      else if m = M_MESSAGE_REASONING_DELTA
      then appendText rt es (''reasoning:'' @ t) KReasoning ''Reasoning'' (fld params ''text'') t
      else if m = M_TOOL_STARTED
      then let name = stringOf (fld params ''tool_name'') ''Tool'';
               arguments = pretty rt (fld params ''arguments'')
           in startTool (settleReasoning rt es t)
                (tool_start_row rt t (fld params ''tool_call_id'') name arguments
                   (writtenArtifactPath (rt_json_parse rt) name arguments))
      else if m = M_TOOL_PROGRESS
      then progressTool es (toolEntryId t (fld params ''tool_call_id'')) (as_string (fld params ''message''))
      else if m = M_TOOL_COMPLETED
      then let failed = (fld params ''success'' = Some (JBool False))
           in completeTool rt es t (fld params ''tool_call_id'') (as_string (fld params ''output_preview''))
                (if failed then ErrorStatus else Complete) (if failed then ''Failed'' else ''Done'')
      else if m = M_TURN_COMPLETED
      then settleTimelineTurn rt es t ''completed'' (usageText rt params) (legacyUsageParts params)
      else if m = M_TURN_ERROR
      then settleTimelineTurn rt es t ''errored'' (stringOf (fld params ''message'') ''Unknown server error'') None
      else if m = M_TURN_STARTED then fold_turn_started rt es t params
      else if m = M_WARNING
      then addSystemMessage es (nextNoticeId es M_WARNING) (stringOf (fld params ''code'') ''Warning'')
             (stringOf (fld params ''message'') ''The server reported a warning.'') ErrorStatus
      else es)"

definition foldNotification :: "runtime \<Rightarrow> timeline \<Rightarrow> rpcNotification \<Rightarrow> timeline" where
  "foldNotification rt es n =
     (if nt_method n = M_PROJECTION_ENVELOPE then fold_envelope rt es (nt_params n)
      else case as_record (nt_params n) of
             None \<Rightarrow> es
           | Some params \<Rightarrow>
               let t = stringOf (fld params ''turn_id'') ''unscoped''
               in if hasTerminal es t
                     \<and> (nt_method n = M_MESSAGE_DELTA \<or> nt_method n = M_MESSAGE_REASONING_DELTA)
                  then es else fold_legacy rt es (nt_method n) t params)"

section \<open>What a notification is about\<close>

definition notificationTurnId :: "rpcNotification \<Rightarrow> string option" where
  "notificationTurnId n =
     (if nt_method n = M_PROJECTION_ENVELOPE
      then map_option pe_turn_id (parseProjectionEnvelope (nt_params n))
      else params_turn n)"

datatype turnOutcome = OutcomeCompleted | OutcomeFailed

definition terminalTurnOutcome :: "rpcNotification \<Rightarrow> turnOutcome option" where
  "terminalTurnOutcome n =
     (if nt_method n = M_TURN_COMPLETED then Some OutcomeCompleted
      else if nt_method n = M_TURN_ERROR then Some OutcomeFailed
      else if nt_method n \<noteq> M_PROJECTION_ENVELOPE then None
      else case parseProjectionEnvelope (nt_params n) of
             None \<Rightarrow> None
           | Some e \<Rightarrow>
               if pp_type (pe_payload e) \<noteq> ''turn_terminal'' then None
               else (case as_record (Some (pp_data (pe_payload e))) of
                       None \<Rightarrow> None
                     | Some data \<Rightarrow>
                         Some (if fld data ''outcome'' = Some (JStr ''completed'')
                               then OutcomeCompleted else OutcomeFailed)))"

end
