(* ===== verification/TimelineLaws.thy ===== *)
theory TimelineLaws
  imports TimelineFold
begin

text \<open>
  What the transcript fold guarantees over whole runs. Two prefixes of row ids are reserved: a row
  \<open>terminal:t\<close> is a system row and a row \<open>tool:t:c\<close> is a tool row, and neither carries a message or
  stream identity, so no later row can take its place. The interface \<open>row_step\<close> states what every
  update of the list of rows promises; its client lemmas lift the promises to runs.
\<close>

section \<open>The interface\<close>

definition row_ok :: "timelineEntry \<Rightarrow> bool" where
  "row_ok e \<longleftrightarrow>
     (starts_with (te_id e) ''terminal:''
        \<longrightarrow> te_kind e = KSystem \<and> te_messageId e = None \<and> te_streamId e = None)
     \<and> (starts_with (te_id e) ''tool:''
        \<longrightarrow> te_kind e = KTool \<and> te_messageId e = None \<and> te_streamId e = None)"

definition timeline_ok :: "timeline \<Rightarrow> bool" where
  "timeline_ok es \<longleftrightarrow> distinct (map te_id es) \<and> list_all row_ok es"

text \<open>A terminal row, and a settled tool row: the two facts that are never taken back.\<close>

definition terminal_row :: "timeline \<Rightarrow> string \<Rightarrow> bool" where
  "terminal_row es t = list_ex (\<lambda>e. te_id e = terminal_id t) es"

definition settled_tool :: "timeline \<Rightarrow> string \<Rightarrow> bool" where
  "settled_tool es i = list_ex (\<lambda>e. te_id e = i \<and> te_toolSettled e) es"

locale row_step =
  fixes step :: "timeline \<Rightarrow> 'op \<Rightarrow> timeline"
  assumes step_ok: "timeline_ok es \<Longrightarrow> timeline_ok (step es x)"
    and step_terminal: "timeline_ok es \<Longrightarrow> terminal_row es t \<Longrightarrow> terminal_row (step es x) t"
    and step_settled: "timeline_ok es \<Longrightarrow> starts_with i ''tool:'' \<Longrightarrow> settled_tool es i
      \<Longrightarrow> settled_tool (step es x) i"
begin

lemma run_ok: "timeline_ok es \<Longrightarrow> timeline_ok (foldl step es xs)"
  by (induction xs arbitrary: es) (simp_all add: step_ok)

lemma run_terminal: "timeline_ok es \<Longrightarrow> terminal_row es t \<Longrightarrow> terminal_row (foldl step es xs) t"
  by (induction xs arbitrary: es) (simp_all add: step_ok step_terminal)

lemma run_settled:
  "timeline_ok es \<Longrightarrow> starts_with i ''tool:'' \<Longrightarrow> settled_tool es i \<Longrightarrow> settled_tool (foldl step es xs) i"
  by (induction xs arbitrary: es) (simp_all add: step_ok step_settled)

end

section \<open>The updates\<close>

text \<open>
  \<open>keeps\<close> bundles what one update promises, so that each update needs one lemma.
\<close>

definition keeps :: "timeline \<Rightarrow> timeline \<Rightarrow> bool" where
  "keeps es es' \<longleftrightarrow> timeline_ok es'
     \<and> (\<forall>t. terminal_row es t \<longrightarrow> terminal_row es' t)
     \<and> (\<forall>i. starts_with i ''tool:'' \<longrightarrow> settled_tool es i \<longrightarrow> settled_tool es' i)"

lemma keeps_refl: "timeline_ok es \<Longrightarrow> keeps es es"
  by (simp add: keeps_def)

lemma keeps_trans: "keeps a b \<Longrightarrow> keeps b c \<Longrightarrow> keeps a c"
  by (simp add: keeps_def)

lemma keeps_ok: "keeps a b \<Longrightarrow> timeline_ok b"
  by (simp add: keeps_def)

lemma refined_simps [simp]:
  "te_id (refined p e) = te_id e" "te_kind (refined p e) = te_kind e"
  "te_messageId (refined p e) = te_messageId e" "te_streamId (refined p e) = te_streamId e"
  "te_toolSettled (refined p e) = te_toolSettled e" "te_body (refined p e) = te_body e"
  "te_status (refined p e) = te_status e" "te_turnId (refined p e) = te_turnId e"
  "te_turnSettled (refined p e) = te_turnSettled e" "row_ok (refined p e) = row_ok e"
  "te_latestTurnOutcome (refined p e) = te_latestTurnOutcome e"
  by (simp_all add: refined_def row_ok_def)

lemma upsert_cases:
  obtains (appended) "\<forall>e \<in> set es. te_id e \<noteq> te_id new" "upsert es new = es @ [new]"
  | (replaced) ys x zs where "es = ys @ x # zs" "te_id x = te_id new"
      "\<forall>e \<in> set ys. te_id e \<noteq> te_id new" "upsert es new = ys @ refined x new # zs"
proof (cases "find_index (\<lambda>e. te_id e = te_id new) es")
  case None
  then have "\<forall>e \<in> set es. te_id e \<noteq> te_id new" by (simp add: find_index_None)
  with None show ?thesis by (intro appended) (simp_all add: upsert_def)
next
  case (Some k)
  from find_index_splitD [OF Some] obtain ys x zs
    where s: "es = ys @ x # zs" "length ys = k" "te_id x = te_id new" "\<forall>e \<in> set ys. te_id e \<noteq> te_id new"
    by auto
  with Some have "upsert es new = ys @ refined x new # zs" by (auto simp: upsert_def)
  with s show ?thesis by (intro replaced)
qed

lemma upsert_ids: "set (map te_id (upsert es new)) = insert (te_id new) (set (map te_id es))"
  by (cases rule: upsert_cases [of es new]) auto

lemma upsert_ok:
  assumes "timeline_ok es" and "row_ok new"
  shows "timeline_ok (upsert es new)"
proof (cases rule: upsert_cases [of es new])
  case appended
  with assms show ?thesis by (auto simp: timeline_ok_def)
next
  case (replaced ys x zs)
  with assms show ?thesis by (auto simp: timeline_ok_def image_iff)
qed

text \<open>A row under a tool id may replace a settled one only if it is settled itself.\<close>

definition settles :: "timeline \<Rightarrow> timelineEntry \<Rightarrow> bool" where
  "settles es new \<longleftrightarrow> (starts_with (te_id new) ''tool:'' \<longrightarrow> settled_tool es (te_id new)
     \<longrightarrow> te_toolSettled new)"

lemma upsert_keeps:
  assumes "timeline_ok es" and "row_ok new" and "settles es new"
  shows "keeps es (upsert es new)"
proof (cases rule: upsert_cases [of es new])
  case appended
  with assms upsert_ok [OF assms(1,2)] show ?thesis
    by (auto simp: keeps_def terminal_row_def settled_tool_def)
next
  case (replaced ys x zs)
  with assms upsert_ok [OF assms(1,2)] show ?thesis
    by (auto simp: keeps_def terminal_row_def settled_tool_def settles_def)
qed

text \<open>Updates row by row that keep the identity of every row.\<close>

definition same_row :: "timelineEntry \<Rightarrow> timelineEntry \<Rightarrow> bool" where
  "same_row e e' \<longleftrightarrow> te_id e' = te_id e \<and> te_kind e' = te_kind e \<and> te_messageId e' = te_messageId e
     \<and> te_streamId e' = te_streamId e \<and> te_toolSettled e' = te_toolSettled e"

lemma same_row_refl [simp]: "same_row e e"
  by (simp add: same_row_def)

lemma same_row_ok: "same_row e e' \<Longrightarrow> row_ok e' = row_ok e"
  by (simp add: same_row_def row_ok_def)

lemma map_keeps:
  assumes "timeline_ok es" and "\<And>e. same_row e (f e)"
  shows "keeps es (map f es)"
proof -
  have "map te_id (map f es) = map te_id es" using assms(2) by (simp add: same_row_def)
  moreover have "list_all row_ok (map f es)"
    using assms same_row_ok by (auto simp: timeline_ok_def list_all_iff)
  ultimately show ?thesis using assms
    by (auto simp: keeps_def timeline_ok_def terminal_row_def settled_tool_def list_ex_iff same_row_def
        comp_def)
qed

lemma map_filter_ids: "(\<And>e e'. f e = Some e' \<Longrightarrow> te_id e' = te_id e)
   \<Longrightarrow> map te_id (List.map_filter f es) = map te_id (filter (\<lambda>e. f e \<noteq> None) es)"
  by (induction es) (auto simp: List.map_filter_simps split: option.splits)

lemma set_map_filter_iff: "y \<in> set (List.map_filter f xs) \<longleftrightarrow> (\<exists>x \<in> set xs. f x = Some y)"
  by (induction xs) (auto simp: List.map_filter_simps split: option.splits)

lemma map_filter_keeps:
  assumes ok: "timeline_ok es" and same: "\<And>e e'. f e = Some e' \<Longrightarrow> same_row e e'"
    and kept: "\<And>e. f e = None \<Longrightarrow> te_kind e = KAssistant"
  shows "keeps es (List.map_filter f es)"
proof -
  let ?r = "List.map_filter f es"
  have ids: "map te_id ?r = map te_id (filter (\<lambda>e. f e \<noteq> None) es)"
    by (rule map_filter_ids) (use same in \<open>auto simp: same_row_def\<close>)
  have rows: "list_all row_ok ?r"
    using ok same same_row_ok by (fastforce simp: timeline_ok_def list_all_iff set_map_filter_iff)
  have stay: "\<exists>e' \<in> set ?r. same_row e e'" if "e \<in> set es" "te_kind e \<noteq> KAssistant" for e
  proof -
    from kept that(2) obtain e' where e': "f e = Some e'" by (cases "f e") auto
    with that(1) have "e' \<in> set ?r" by (auto simp: set_map_filter_iff)
    then show ?thesis using same [OF e'] by blast
  qed
  have "distinct (map te_id ?r)"
    unfolding ids using ok by (simp add: timeline_ok_def distinct_map_filter)
  moreover have "terminal_row ?r t" if "terminal_row es t" for t
  proof -
    from that obtain e where e: "e \<in> set es" "te_id e = terminal_id t"
      by (auto simp: terminal_row_def list_ex_iff)
    then have "te_kind e = KSystem"
      using ok by (auto simp: timeline_ok_def list_all_iff row_ok_def terminal_id_def)
    with stay [OF e(1)] e(2) show ?thesis by (auto simp: terminal_row_def list_ex_iff same_row_def)
  qed
  moreover have "settled_tool ?r i" if "starts_with i ''tool:''" "settled_tool es i" for i
  proof -
    from that(2) obtain e where e: "e \<in> set es" "te_id e = i" "te_toolSettled e"
      by (auto simp: settled_tool_def list_ex_iff)
    then have "te_kind e = KTool"
      using ok that(1) by (auto simp: timeline_ok_def list_all_iff row_ok_def)
    with stay [OF e(1)] e(2,3) show ?thesis by (auto simp: settled_tool_def list_ex_iff same_row_def)
  qed
  ultimately show ?thesis using rows by (simp add: keeps_def timeline_ok_def)
qed

section \<open>Every update of the fold\<close>

lemma close_timing_same [simp]: "same_row e (close_timing rt (e\<lparr>te_status := st\<rparr>))"
  by (simp add: close_timing_def same_row_def)

lemma swept_row_same: "same_row e (swept_row rt oc e)"
  by (simp add: swept_row_def Let_def close_timing_def same_row_def)

lemma settleReasoning_keeps: "timeline_ok es \<Longrightarrow> keeps es (settleReasoning rt es t)"
  unfolding settleReasoning_def by (rule map_keeps) simp_all

lemma patchEntry_keeps: "timeline_ok es \<Longrightarrow> keeps es (patchEntry es i p)"
  unfolding patchEntry_def by (rule map_keeps) (simp_all add: patched_def same_row_def)

lemma progressTool_keeps: "timeline_ok es \<Longrightarrow> keeps es (progressTool es i b)"
  by (simp add: progressTool_def Let_def keeps_refl patchEntry_keeps)

lemma sweep_keeps: "timeline_ok es \<Longrightarrow> keeps es (sweepTurnStreamtails rt es t oc)"
  unfolding sweepTurnStreamtails_def Let_def
  by (rule map_filter_keeps) (auto simp: swept_row_same split: if_splits)

text \<open>The rows the fold creates.\<close>

lemma toolEntryId_prefix [simp]:
  "starts_with (toolEntryId t c) ''tool:''" "\<not> starts_with (toolEntryId t c) ''terminal:''"
  by (simp_all add: toolEntryId_def)

lemma terminal_id_prefix [simp]:
  "starts_with (terminal_id t) ''terminal:''" "\<not> starts_with (terminal_id t) ''tool:''"
  by (simp_all add: terminal_id_def)

text \<open>A row outside both prefixes is always fine.\<close>

definition plain_id :: "string \<Rightarrow> bool" where
  "plain_id i \<longleftrightarrow> \<not> starts_with i ''terminal:'' \<and> \<not> starts_with i ''tool:''"

lemma plain_row [simp]: "plain_id (te_id e) \<Longrightarrow> row_ok e" "plain_id (te_id e) \<Longrightarrow> settles es e"
  by (simp_all add: plain_id_def row_ok_def settles_def)

text \<open>Neither reserved prefix starts another one: all other ids start with another letter.\<close>

lemma plain_Cons [simp]: "c \<noteq> CHR ''t'' \<Longrightarrow> plain_id (c # s)"
  by (simp add: plain_id_def)

lemma plain_notice [simp]:
  "plain_id (notice_id M_WARNING n)" "plain_id (notice_id ''invalid-projection'' n)"
  by (simp_all add: notice_id_def)

lemma plain_upsert_keeps: "timeline_ok es \<Longrightarrow> plain_id (te_id e) \<Longrightarrow> keeps es (upsert es e)"
  by (simp add: upsert_keeps)

text \<open>A row with a message or stream identity, and a user row, has a plain id.\<close>

lemma identified_plain:
  "timeline_ok es \<Longrightarrow> e \<in> set es \<Longrightarrow> te_messageId e \<noteq> None \<or> te_streamId e \<noteq> None \<or> te_kind e = KUser
     \<or> te_kind e = KAssistant \<Longrightarrow> plain_id (te_id e)"
  by (auto simp: timeline_ok_def list_all_iff row_ok_def plain_id_def)

lemma find_member: "find P es = Some e \<Longrightarrow> e \<in> set es \<and> P e"
  by (auto simp: find_Some_iff)

lemma find_entry_SomeD: "find_entry i es = Some e \<Longrightarrow> e \<in> set es \<and> te_id e = i"
  unfolding find_entry_def by (rule find_member)

lemma find_entry_NoneD: "find_entry i es = None \<Longrightarrow> e \<in> set es \<Longrightarrow> te_id e \<noteq> i"
  by (auto simp: find_entry_def find_None_iff)

lemma appendText_keeps:
  assumes "timeline_ok es" and "plain_id i"
  shows "keeps es (appendText rt es i k title v t)"
  using assms by (auto simp: appendText_def Let_def keeps_refl plain_upsert_keeps split: option.splits)

lemma settleTimelineTurn_keeps:
  assumes "timeline_ok es"
  shows "keeps es (settleTimelineTurn rt es t oc b u)"
proof -
  have "keeps (sweepTurnStreamtails rt es t oc) (settleTimelineTurn rt es t oc b u)"
    unfolding settleTimelineTurn_def Let_def
    by (rule upsert_keeps) (simp_all add: keeps_ok [OF sweep_keeps [OF assms]] row_ok_def settles_def)
  then show ?thesis using sweep_keeps [OF assms] keeps_trans by blast
qed

lemma settled_tool_find:
  "timeline_ok es \<Longrightarrow> settled_tool es i \<longleftrightarrow> tool_settled i es"
proof -
  assume ok: "timeline_ok es"
  show ?thesis
  proof (cases "find_entry i es")
    case None
    with find_entry_NoneD [OF None] show ?thesis
      by (auto simp: settled_tool_def tool_settled_def list_ex_iff)
  next
    case (Some e)
    then have e: "e \<in> set es" "te_id e = i" using find_entry_SomeD by auto
    have u: "e' = e" if "e' \<in> set es" "te_id e' = i" for e'
    proof (rule inj_onD [of te_id "set es"])
      show "inj_on te_id (set es)" using ok by (simp add: timeline_ok_def distinct_map)
    qed (use e that in simp_all)
    have "settled_tool es i \<longleftrightarrow> te_toolSettled e"
      unfolding settled_tool_def list_ex_iff using u e by blast
    with Some show ?thesis by (simp add: tool_settled_def)
  qed
qed

lemma startTool_keeps:
  assumes "timeline_ok es" and "te_kind e = KTool" "te_messageId e = None" "te_streamId e = None"
    and "\<not> starts_with (te_id e) ''terminal:''"
  shows "keeps es (startTool es e)"
proof (cases "tool_settled (te_id e) es")
  case True
  with assms show ?thesis by (simp add: startTool_def Let_def keeps_refl)
next
  case False
  with assms have "\<not> settled_tool es (te_id e)" by (simp add: settled_tool_find)
  with False assms show ?thesis
    unfolding startTool_def Let_def
    by (auto simp: row_ok_def settles_def intro!: upsert_keeps)
qed

lemma completeTool_keeps:
  assumes "timeline_ok es"
  shows "keeps es (completeTool rt es t c b st l)"
proof (cases "find_entry (toolEntryId t c) es")
  case None
  with assms show ?thesis
    by (auto simp: completeTool_def Let_def keeps_refl row_ok_def settles_def intro!: upsert_keeps
        split: option.splits)
next
  case (Some e)
  then have "e \<in> set es" "te_id e = toolEntryId t c" using find_entry_SomeD by auto
  moreover from this assms have "row_ok e" by (simp add: timeline_ok_def list_all_iff)
  ultimately show ?thesis using assms Some
    by (auto simp: completeTool_def Let_def keeps_refl row_ok_def settles_def intro!: upsert_keeps
        split: option.splits)
qed

lemma insert_at_set [simp]: "set (insert_at n x xs) = insert x (set xs)"
proof -
  have "set (insert_at n x xs) = insert x (set (take n xs @ drop n xs))"
    unfolding insert_at_def set_append by simp
  then show ?thesis by simp
qed

lemma insert_at_distinct:
  assumes "distinct (map f xs)" and "f x \<notin> f ` set xs"
  shows "distinct (map f (insert_at n x xs))"
proof -
  have d: "distinct (map f (take n xs) @ map f (drop n xs))"
    using assms(1) by (simp flip: map_append)
  moreover have "f x \<notin> f ` set (take n xs)" "f x \<notin> f ` set (drop n xs)"
    using assms(2) by (auto dest: in_set_takeD in_set_dropD)
  ultimately show ?thesis by (auto simp: insert_at_def)
qed

lemma upsertUser_keeps:
  assumes ok: "timeline_ok es" and p: "plain_id (te_id u)"
  shows "keeps es (upsertUser es u)"
proof -
  have ins: "keeps es (insert_at n v (filter (\<lambda>e. te_id e \<noteq> te_id u) es))"
    if v: "te_id v = te_id u" for n v
  proof -
    let ?f = "filter (\<lambda>e. te_id e \<noteq> te_id u) es"
    have "distinct (map te_id (insert_at n v ?f))"
      using ok v by (intro insert_at_distinct) (auto simp: timeline_ok_def distinct_map_filter)
    moreover have "list_all row_ok (insert_at n v ?f)"
      using ok p v plain_row(1) [of v] by (auto simp: timeline_ok_def list_all_iff)
    moreover have "te_id u \<noteq> terminal_id t" for t using p by (auto simp: plain_id_def terminal_id_def)
    moreover have "te_id u \<noteq> i" if "starts_with i ''tool:''" for i
      using p that by (auto simp: plain_id_def)
    ultimately show ?thesis
      by (fastforce simp: keeps_def timeline_ok_def terminal_row_def settled_tool_def list_ex_iff)
  qed
  show ?thesis
    using ok p by (auto simp: upsertUser_def Let_def intro!: plain_upsert_keeps ins split: option.splits)
qed

lemma canonicalUserFiles_id [simp]: "te_id (canonicalUserFiles f o' u) = te_id u"
  by (simp add: canonicalUserFiles_def Let_def split: option.splits)

lemma withMedia_id [simp]: "te_id (withMedia m e) = te_id e"
  by (simp add: withMedia_def)

lemma or_else_cases: "or_else a b = Some x \<Longrightarrow> a = Some x \<or> b = Some x"
  by (cases a) simp_all

lemma upsertCanonicalUser_keeps:
  assumes ok: "timeline_ok es" and i: "plain_id i"
  shows "keeps es (upsertCanonicalUser es t i text files)"
proof -
  let ?users = "filter (\<lambda>e. te_kind e = KUser \<and> te_turnId e = Some t) es"
  let ?opt = "find (\<lambda>e. te_id e = ''user:'' @ t \<and> \<not> truthy (te_streamId e) \<and> te_body e = text) ?users"
  let ?src = "or_else (find (\<lambda>e. te_streamId e = Some i) es) ?opt"
  have src: "plain_id (te_id e)" if "?src = Some e" for e
  proof -
    from or_else_cases [OF that] have "e \<in> set es \<and> (te_streamId e \<noteq> None \<or> te_kind e = KUser)"
      by (auto dest!: find_member)
    then show ?thesis using identified_plain [OF ok] by blast
  qed
  have row: "plain_id (case ?src of Some e \<Rightarrow> te_id e | None \<Rightarrow> if ?users \<noteq> [] then i else ''user:'' @ t)"
    using src i by (auto split: option.splits)
  show ?thesis
    unfolding upsertCanonicalUser_def Let_def
    using row ok by (cases "?users = []") (simp_all add: plain_upsert_keeps upsertUser_keeps)
qed

lemma id_or_plain:
  assumes "timeline_ok es" and "plain_id i"
    and "\<And>e. x = Some e \<Longrightarrow> e \<in> set es \<and> (te_messageId e \<noteq> None \<or> te_kind e = KAssistant)"
  shows "plain_id (id_or x i)"
  using assms identified_plain [OF assms(1)] by (cases x) (auto simp: id_or_def)

lemma settleReasoning_ids: "e \<in> set (settleReasoning rt es t) \<Longrightarrow> \<exists>e' \<in> set es. te_id e' = te_id e"
  by (auto simp: settleReasoning_def close_timing_def)

lemma fold_persisted_keeps:
  assumes ok: "timeline_ok es"
  shows "keeps es (fold_persisted rt es t data)"
proof -
  have s: "keeps es (settleReasoning rt es t)" by (rule settleReasoning_keeps [OF ok])
  have p: "plain_id (id_or (if truthy m then find (\<lambda>e. te_messageId e = m) es else None)
      (assistant_stream t data))" for m
    by (rule id_or_plain [OF ok])
      (auto simp: assistant_stream_def truthy_def split: if_splits dest!: find_member)
  have "keeps (settleReasoning rt es t) (fold_persisted rt es t data)"
    unfolding fold_persisted_def Let_def
    by (rule plain_upsert_keeps [OF keeps_ok [OF s]]) (use p in simp)
  then show ?thesis using s keeps_trans by blast
qed

lemma fold_spawn_keeps:
  assumes ok: "timeline_ok es"
  shows "keeps es (fold_spawn es t data)"
proof -
  have p: "plain_id (id_or (if m = [] then None else find (\<lambda>e. te_kind e = KAssistant \<and> te_messageId e = Some m) es)
      (''background:'' @ x))" for m x
    by (rule id_or_plain [OF ok]) (auto split: if_splits dest!: find_member)
  show ?thesis
    unfolding fold_spawn_def Let_def by (rule plain_upsert_keeps [OF ok]) (use p in simp)
qed

lemma fold_file_keeps: "timeline_ok es \<Longrightarrow> keeps es (fold_file es t data)"
  unfolding fold_file_def Let_def by (rule plain_upsert_keeps) simp_all

lemma tool_start_keeps:
  assumes "timeline_ok es"
  shows "keeps es (startTool (settleReasoning rt es t) (tool_start_row rt t c name body path))"
proof -
  note s = settleReasoning_keeps [OF assms, of rt t]
  have "keeps (settleReasoning rt es t)
      (startTool (settleReasoning rt es t) (tool_start_row rt t c name body path))"
    by (rule startTool_keeps [OF keeps_ok [OF s]]) (simp_all add: tool_start_row_def)
  then show ?thesis using s keeps_trans by blast
qed

lemma delta_keeps:
  assumes "timeline_ok es" and "plain_id i"
  shows "keeps es (appendText rt (settleReasoning rt es t) i k title v t)"
  using keeps_trans [OF settleReasoning_keeps [OF assms(1)]
      appendText_keeps [OF keeps_ok [OF settleReasoning_keeps [OF assms(1)]] assms(2)]] .

lemma foldProjection_keeps: "timeline_ok es \<Longrightarrow> keeps es (foldProjection rt es t type v)"
  unfolding foldProjection_def Let_def
  by (auto simp: keeps_refl delta_keeps appendText_keeps fold_persisted_keeps tool_start_keeps
      progressTool_keeps completeTool_keeps settleTimelineTurn_keeps fold_spawn_keeps fold_file_keeps
      assistant_stream_def split: option.splits)

lemma fold_envelope_keeps: "timeline_ok es \<Longrightarrow> keeps es (fold_envelope rt es p)"
  unfolding fold_envelope_def addSystemMessage_def nextNoticeId_def
  by (auto simp: plain_upsert_keeps upsertCanonicalUser_keeps foldProjection_keeps split: option.splits)

lemma fold_turn_started_keeps: "timeline_ok es \<Longrightarrow> keeps es (fold_turn_started rt es t p)"
  unfolding fold_turn_started_def
  by (auto simp: keeps_refl same_row_def split: option.splits intro!: map_keeps)

lemma fold_legacy_keeps: "timeline_ok es \<Longrightarrow> keeps es (fold_legacy rt es m t p)"
  unfolding fold_legacy_def Let_def addSystemMessage_def nextNoticeId_def
  by (auto simp: keeps_refl delta_keeps appendText_keeps tool_start_keeps progressTool_keeps
      completeTool_keeps settleTimelineTurn_keeps fold_turn_started_keeps plain_upsert_keeps)

lemma foldNotification_keeps: "timeline_ok es \<Longrightarrow> keeps es (foldNotification rt es n)"
  by (auto simp: foldNotification_def Let_def fold_envelope_keeps keeps_refl fold_legacy_keeps
      split: option.splits)

section \<open>The fold provides the interface\<close>

definition fold_step :: "timeline \<Rightarrow> runtime \<times> rpcNotification \<Rightarrow> timeline" where
  "fold_step es x = foldNotification (fst x) es (snd x)"

interpretation transcript: row_step fold_step
  using foldNotification_keeps
  by unfold_locales (auto simp: fold_step_def keeps_def)

lemma timeline_ok_Nil [simp]: "timeline_ok []"
  by (simp add: timeline_ok_def)

lemma terminal_row_hasTerminal: "terminal_row es t \<Longrightarrow> hasTerminal es t"
  by (auto simp: terminal_row_def hasTerminal_def list_ex_iff)

lemma upsert_terminal: "te_id new = terminal_id t \<Longrightarrow> terminal_row (upsert es new) t"
  by (cases rule: upsert_cases [of es new]) (simp_all add: terminal_row_def)

lemma upsert_settled: "te_id new = i \<Longrightarrow> te_toolSettled new \<Longrightarrow> settled_tool (upsert es new) i"
  by (cases rule: upsert_cases [of es new]) (simp_all add: settled_tool_def)

lemma settleTimelineTurn_terminal: "terminal_row (settleTimelineTurn rt es t oc b u) t"
  unfolding settleTimelineTurn_def Let_def by (rule upsert_terminal) simp

section \<open>Properties\<close>

abbreviation fold_run :: "timeline \<Rightarrow> (runtime \<times> rpcNotification) list \<Rightarrow> timeline" where
  "fold_run \<equiv> foldl fold_step"

text \<open>
  The transcript never shows two rows under one id: whatever notifications arrive, in whatever
  order and at whatever times, row ids stay distinct, rows under the reserved terminal and tool ids
  stay terminal and tool rows.
\<close>
theorem transcript_rows_distinct:
  "distinct (map te_id (fold_run [] ns)) \<and> list_all row_ok (fold_run [] ns)"
  using transcript.run_ok [OF timeline_ok_Nil] by (simp add: timeline_ok_def)

text \<open>The turn of a streamed text delta.\<close>

definition deltaTurnId :: "rpcNotification \<Rightarrow> string option" where
  "deltaTurnId n =
     (if nt_method n = M_MESSAGE_DELTA \<or> nt_method n = M_MESSAGE_REASONING_DELTA then params_turn n
      else if nt_method n \<noteq> M_PROJECTION_ENVELOPE then None
      else case parseProjectionEnvelope (nt_params n) of
             None \<Rightarrow> None
           | Some e \<Rightarrow> if pp_type (pe_payload e) \<in> {''assistant_delta'', ''reasoning_delta''}
                      then Some (pe_turn_id e) else None)"

lemma terminal_payload_record:
  "isProjectionPayloadData ''turn_terminal'' v \<Longrightarrow> \<exists>o'. v = Some (JObj o')"
  by (auto simp: isProjectionPayloadData_def split: option.splits)

lemma terminal_notification_settles:
  assumes "terminalTurnId n = Some t"
  shows "terminal_row (foldNotification rt es n) t"
proof (cases "nt_method n = M_PROJECTION_ENVELOPE")
  case True
  with assms obtain e where e: "parseProjectionEnvelope (nt_params n) = Some e"
      "pp_type (pe_payload e) = ''turn_terminal''" "pe_turn_id e = t"
    by (auto simp: terminalTurnId_def split: option.splits if_splits)
  then obtain o' where "pp_data (pe_payload e) = JObj o'"
    using terminal_payload_record [of "Some (pp_data (pe_payload e))"]
    by (auto simp: parseProjectionEnvelope_Some)
  with True e show ?thesis
    by (simp add: foldNotification_def fold_envelope_def foldProjection_def settleTimelineTurn_terminal)
next
  case False
  with assms have "nt_method n = M_TURN_COMPLETED \<or> nt_method n = M_TURN_ERROR" "params_turn n = Some t"
    by (auto simp: terminalTurnId_def split: if_splits)
  then show ?thesis
    by (auto simp: params_turn_def foldNotification_def fold_legacy_def stringOf_def Let_def
        settleTimelineTurn_terminal split: option.splits)
qed

lemma foldProjection_blocked:
  "hasTerminal es t \<Longrightarrow> type \<in> {''assistant_delta'', ''reasoning_delta''} \<Longrightarrow> foldProjection rt es t type v = es"
  by (auto simp: foldProjection_def split: option.splits)

lemma terminal_blocks_deltas:
  assumes "hasTerminal es t" and "deltaTurnId n = Some t"
  shows "foldNotification rt es n = es"
proof (cases "nt_method n = M_PROJECTION_ENVELOPE")
  case True
  with assms(2) obtain e where e: "parseProjectionEnvelope (nt_params n) = Some e" "pe_turn_id e = t"
      "pp_type (pe_payload e) \<in> {''assistant_delta'', ''reasoning_delta''}"
    by (auto simp: deltaTurnId_def split: option.splits if_splits)
  then have "pp_type (pe_payload e) \<noteq> ''user_message''" by auto
  with True e foldProjection_blocked [OF assms(1) e(3)] show ?thesis
    by (cases "as_record (Some (pp_data (pe_payload e)))")
      (simp_all add: foldNotification_def fold_envelope_def del: as_record_Some)
next
  case False
  with assms(2) have m: "nt_method n = M_MESSAGE_DELTA \<or> nt_method n = M_MESSAGE_REASONING_DELTA"
    and "params_turn n = Some t" by (auto simp: deltaTurnId_def split: if_splits)
  then obtain o' where "nt_params n = Some (JObj o')" "fld o' ''turn_id'' = Some (JStr t)"
    by (auto simp: params_turn_def split: option.splits)
  with m assms(1) False show ?thesis by (simp add: foldNotification_def stringOf_def)
qed

text \<open>
  C12: A finished turn receives no more text. Once a terminal of the turn is folded, in the v2 or the
  legacy form, no delta of that turn that arrives later, after any other notifications, changes the
  transcript.
\<close>
theorem finished_turn_ignores_deltas:
  assumes "terminalTurnId n = Some t" and "deltaTurnId n' = Some t"
  shows "let es = fold_run (fold_step (fold_run [] before) (rt, n)) between
         in fold_step es (rt', n') = es"
proof -
  let ?es = "fold_step (fold_run [] before) (rt, n)"
  have "terminal_row ?es t"
    using terminal_notification_settles [OF assms(1)] by (simp add: fold_step_def)
  moreover have "timeline_ok ?es"
    by (intro transcript.step_ok transcript.run_ok timeline_ok_Nil)
  ultimately have "hasTerminal (fold_run ?es between) t"
    by (intro terminal_row_hasTerminal transcript.run_terminal)
  then show ?thesis using terminal_blocks_deltas [OF _ assms(2)] by (simp add: fold_step_def)
qed

text \<open>A runtime and two notifications for the witnesses.\<close>

definition sample_runtime :: runtime where
  "sample_runtime = \<lparr>rt_now = 0, rt_date_parse = (\<lambda>_. None), rt_json_parse = (\<lambda>_. None),
     rt_show_number = (\<lambda>_. [])\<rparr>"

definition sample_completed :: rpcNotification where
  "sample_completed = \<lparr>nt_method = M_TURN_COMPLETED, nt_params = Some (JObj [(''turn_id'', JStr ''u'')])\<rparr>"

definition sample_delta :: rpcNotification where
  "sample_delta = \<lparr>nt_method = M_MESSAGE_DELTA,
     nt_params = Some (JObj [(''turn_id'', JStr ''u''), (''text'', JStr ''late'')])\<rparr>"

lemma finished_turn_ignores_deltas_witness:
  "let es = fold_run (fold_step (fold_run [] [(sample_runtime, sample_delta)]) (sample_runtime, sample_completed)) []
   in fold_step es (sample_runtime, sample_delta) = es"
  by (rule finished_turn_ignores_deltas)
    (simp_all add: terminalTurnId_def deltaTurnId_def params_turn_def sample_completed_def sample_delta_def)

lemma settled_tool_quiet:
  assumes "timeline_ok es" and "settled_tool es (toolEntryId t c)"
  shows "startTool es (tool_start_row rt t c name body path) = es"
    and "progressTool es (toolEntryId t c) b = es"
  using assms settled_tool_find [OF assms(1)]
  by (simp_all add: startTool_def progressTool_def tool_start_row_def Let_def)

lemma completeTool_settles:
  "trim c \<noteq> [] \<Longrightarrow> settled_tool (completeTool rt es t (Some (JStr c)) b st l) (toolEntryId t (Some (JStr c)))"
  unfolding completeTool_def Let_def
  by (auto intro!: upsert_settled split: option.splits dest: find_entry_SomeD)

text \<open>
  A tool result is final. After the result of a tool call is folded, replayed or reordered
  starts and progress messages of the same call leave the transcript as it is, whatever came in
  between; the call stays settled.
\<close>
theorem tool_result_final:
  assumes "trim c \<noteq> []"
  shows "let es0 = fold_run [] before;
             es = fold_run (completeTool rt es0 t (Some (JStr c)) body st label) between
         in settled_tool es (toolEntryId t (Some (JStr c)))
            \<and> startTool es (tool_start_row rt' t (Some (JStr c)) name args path) = es
            \<and> progressTool es (toolEntryId t (Some (JStr c))) message = es"
proof -
  let ?es1 = "completeTool rt (fold_run [] before) t (Some (JStr c)) body st label"
  have ok: "timeline_ok ?es1"
    by (rule keeps_ok [OF completeTool_keeps [OF transcript.run_ok [OF timeline_ok_Nil]]])
  have s: "settled_tool (fold_run ?es1 between) (toolEntryId t (Some (JStr c)))"
    by (rule transcript.run_settled [OF ok _ completeTool_settles [OF assms]]) simp
  show ?thesis
    using s settled_tool_quiet [OF transcript.run_ok [OF ok] s] by (simp add: Let_def)
qed

lemma tool_result_final_witness:
  "let es0 = fold_run [] [(sample_runtime, sample_delta)];
       es = fold_run (completeTool sample_runtime es0 ''u'' (Some (JStr ''c'')) (Some ''out'') Complete ''Done'')
              [(sample_runtime, sample_completed)]
   in settled_tool es (toolEntryId ''u'' (Some (JStr ''c'')))
      \<and> startTool es (tool_start_row sample_runtime ''u'' (Some (JStr ''c'')) ''shell'' ''ls'' []) = es
      \<and> progressTool es (toolEntryId ''u'' (Some (JStr ''c''))) (Some ''late'') = es"
  by (rule tool_result_final) code_simp

text \<open>
  A notice never overwrites a row: the search for a free ordinal ends, and a warning or a
  rejected frame is appended as a new last row under an id no row has.
\<close>
theorem notices_append:
  "addSystemMessage es (nextNoticeId es prefix) title body st
     = es @ [entry (nextNoticeId es prefix) KSystem title body st]
   \<and> find_entry (nextNoticeId es prefix) es = None"
proof -
  have f: "nextNoticeId es prefix \<notin> te_id ` set es"
    unfolding nextNoticeId_def by (rule notice_search_fresh)
  then have "\<forall>e \<in> set es. te_id e \<noteq> nextNoticeId es prefix" by (metis imageI)
  then have "find_index (\<lambda>e. te_id e = nextNoticeId es prefix) es = None"
    "find_entry (nextNoticeId es prefix) es = None"
    by (simp_all add: find_index_None find_entry_def find_None_iff)
  then show ?thesis by (simp add: addSystemMessage_def upsert_def)
qed

lemma sweep_member:
  "e' \<in> set (sweepTurnStreamtails rt es t oc) \<longleftrightarrow>
     (\<exists>e \<in> set es. \<not> sweepable t e \<and> e' = e
        \<or> sweepable t e \<and> e' = swept_row rt oc e
          \<and> \<not> (te_kind e = KAssistant \<and> (trim (te_body e) = []
               \<or> list_ex (\<lambda>full. includes_str full (trim (te_body e))) (persisted_bodies es t))))"
  unfolding sweepTurnStreamtails_def Let_def set_map_filter_iff by (auto split: if_splits)

lemma swept_row_simps [simp]:
  "te_id (swept_row rt oc e) = te_id e" "te_body (swept_row rt oc e) = te_body e"
  "te_status (swept_row rt oc e) \<noteq> Running"
  by (simp_all add: swept_row_def Let_def close_timing_def)

text \<open>
  C13: The sweep at the end of a turn loses no text. Every row before it is still there with its text,
  or it was an unfinished assistant row of that turn whose text is blank or is contained in the text
  of a row that remains.
\<close>
theorem sweep_loses_no_text:
  "let es' = sweepTurnStreamtails rt es t outcome in
     list_all (\<lambda>e. list_ex (\<lambda>e'. te_id e' = te_id e \<and> te_body e' = te_body e) es'
       \<or> te_kind e = KAssistant \<and> te_turnId e = Some t \<and> te_status e = Running
          \<and> (trim (te_body e) = []
             \<or> list_ex (\<lambda>e'. te_turnId e' = Some t \<and> includes_str (trim (te_body e')) (trim (te_body e))) es')) es"
proof -
  let ?es' = "sweepTurnStreamtails rt es t outcome"
  have "(\<exists>e' \<in> set ?es'. te_id e' = te_id e \<and> te_body e' = te_body e)
      \<or> te_kind e = KAssistant \<and> te_turnId e = Some t \<and> te_status e = Running
         \<and> (trim (te_body e) = []
            \<or> (\<exists>e' \<in> set ?es'. te_turnId e' = Some t \<and> includes_str (trim (te_body e')) (trim (te_body e))))"
    if e: "e \<in> set es" for e
  proof (cases "sweepable t e \<and> te_kind e = KAssistant \<and> (trim (te_body e) = []
      \<or> list_ex (\<lambda>full. includes_str full (trim (te_body e))) (persisted_bodies es t))")
    case False
    have "(if sweepable t e then swept_row rt outcome e else e) \<in> set ?es'"
      using e False unfolding sweep_member by auto
    then show ?thesis by (intro disjI1 bexI [of _ "if sweepable t e then swept_row rt outcome e else e"]) auto
  next
    case True
    have "\<exists>e' \<in> set ?es'. te_turnId e' = Some t \<and> includes_str (trim (te_body e')) (trim (te_body e))"
      if "list_ex (\<lambda>full. includes_str full (trim (te_body e))) (persisted_bodies es t)"
    proof -
      from that obtain p where p: "p \<in> set es" "te_turnId p = Some t" "te_status p = Complete"
          "includes_str (trim (te_body p)) (trim (te_body e))"
        by (auto simp: persisted_bodies_def list_ex_iff)
      then have "p \<in> set ?es'" unfolding sweep_member by (auto simp: sweepable_def)
      with p show ?thesis by blast
    qed
    with True show ?thesis by (auto simp: sweepable_def)
  qed
  then show ?thesis by (simp add: Let_def list_all_iff list_ex_iff)
qed

text \<open>
  Settling a turn leaves nothing of it running: no assistant, reasoning or tool row of the turn
  is unfinished afterwards, the turn has a terminal, and its terminal row carries the outcome.
\<close>
theorem settled_turn_has_no_running_row:
  "let es' = settleTimelineTurn rt es t outcome body usage in
     \<not> list_ex (sweepable t) es' \<and> hasTerminal es' t
     \<and> list_ex (\<lambda>e. te_id e = terminal_id t \<and> te_latestTurnOutcome e = Some outcome
          \<and> te_status e = outcome_status outcome) es'"
proof -
  let ?s = "sweepTurnStreamtails rt es t outcome" and ?es' = "settleTimelineTurn rt es t outcome body usage"
  have clean: "\<not> sweepable t e" if "e \<in> set ?s" for e
    using that unfolding sweep_member by (auto simp: sweepable_def)
  have "\<exists>new. ?es' = upsert ?s new \<and> te_id new = terminal_id t \<and> te_kind new = KSystem
      \<and> te_latestTurnOutcome new = Some outcome \<and> te_status new = outcome_status outcome"
    unfolding settleTimelineTurn_def Let_def by (intro exI conjI, rule refl) simp_all
  then obtain new where new: "?es' = upsert ?s new" "te_id new = terminal_id t" "te_kind new = KSystem"
      "te_latestTurnOutcome new = Some outcome" "te_status new = outcome_status outcome" by blast
  have "\<not> list_ex (sweepable t) ?es'
     \<and> list_ex (\<lambda>e. te_id e = terminal_id t \<and> te_latestTurnOutcome e = Some outcome
          \<and> te_status e = outcome_status outcome) ?es'"
    unfolding new(1)
    by (cases rule: upsert_cases [of ?s new])
      (use clean new in \<open>auto simp: list_ex_iff sweepable_def\<close>)
  moreover have "hasTerminal ?es' t" by (intro terminal_row_hasTerminal settleTimelineTurn_terminal)
  ultimately show ?thesis by (simp add: Let_def)
qed

lemma takeWhile_upsert:
  "te_id new = i \<Longrightarrow> set (takeWhile (\<lambda>e. te_id e \<noteq> i) (upsert es new)) \<subseteq> set es"
  by (cases rule: upsert_cases [of es new]) (auto simp: takeWhile_append dest: set_takeWhileD)

lemma find_index_before:
  "find_index P es = Some k \<Longrightarrow> j < k \<Longrightarrow> \<not> P (es ! j)"
  using find_index_Some by blast

text \<open>
  A prompt is shown above its own activity. After a user row is placed, no reasoning, tool or
  assistant row of its turn stands before it, even when the replies arrived first.
\<close>
theorem prompt_precedes_replies:
  "list_all (\<lambda>e. \<not> is_reply (te_turnId u) e) (takeWhile (\<lambda>e. te_id e \<noteq> te_id u) (upsertUser es u))"
proof (cases "find_index (is_reply (te_turnId u)) es")
  case None
  then have "\<forall>e \<in> set es. \<not> is_reply (te_turnId u) e" by (simp add: find_index_None)
  moreover have "\<exists>v. upsertUser es u = upsert es v \<and> te_id v = te_id u"
    using None by (auto simp: upsertUser_def Let_def)
  ultimately show ?thesis using takeWhile_upsert by (fastforce simp: list_all_iff)
next
  case (Some n)
  then obtain as r bs where s: "es = as @ r # bs" "length as = n" "\<forall>e \<in> set as. \<not> is_reply (te_turnId u) e"
    using find_index_splitD [OF Some] by auto
  show ?thesis
  proof (cases "find_index (\<lambda>e. te_id e = te_id u) es")
    case None
    then have "filter (\<lambda>e. te_id e \<noteq> te_id u) es = es" by (auto simp: find_index_None filter_id_conv)
    with None Some obtain v where "upsertUser es u = insert_at n v es" "te_id v = te_id u"
      by (auto simp: upsertUser_def Let_def)
    with s show ?thesis by (auto simp: insert_at_def list_all_iff takeWhile_append dest: set_takeWhileD)
  next
    case e: (Some k)
    then obtain ys x zs where y: "es = ys @ x # zs" "length ys = k" "te_id x = te_id u"
        "\<forall>e \<in> set ys. te_id e \<noteq> te_id u"
      using find_index_splitD [OF e] by auto
    show ?thesis
    proof (cases "k < n")
      case True
      with e Some obtain v where v: "upsertUser es u = upsert es v" "te_id v = te_id u"
        by (auto simp: upsertUser_def Let_def)
      have "upsert es v = ys @ refined x v # zs" using v(2) e unfolding y(1) y(2) [symmetric] by (simp add: upsert_def)
      moreover have "set ys \<subseteq> set as"
      proof -
        have "ys = take k es" "as = take n es" using y(1,2) s(1,2) by (metis append_eq_conv_conj)+
        then have "ys = take k as" using True by (simp add: min_def)
        then show ?thesis by (auto dest: in_set_takeD)
      qed
      ultimately show ?thesis using v y(4) s(3) by (auto simp: list_all_iff takeWhile_append)
    next
      case False
      with e Some obtain v where v: "upsertUser es u = insert_at n v (filter (\<lambda>e. te_id e \<noteq> te_id u) es)"
          "te_id v = te_id u"
        by (auto simp: upsertUser_def Let_def)
      have "\<forall>e \<in> set as. te_id e \<noteq> te_id u"
      proof -
        have "ys = take k es" "as = take n es" using y(1,2) s(1,2) by (metis append_eq_conv_conj)+
        then have "as = take n ys" using False by (simp add: min_def)
        then show ?thesis using y(4) by (auto dest: in_set_takeD)
      qed
      then have "filter (\<lambda>e. te_id e \<noteq> te_id u) es = as @ filter (\<lambda>e. te_id e \<noteq> te_id u) (r # bs)"
        using s(1) by (simp add: filter_id_conv)
      with v s show ?thesis by (auto simp: insert_at_def list_all_iff takeWhile_append dest: set_takeWhileD)
    qed
  qed
qed

text \<open>The streaming row of a segment, and the fold of its text pieces.\<close>

definition delta_data :: "string \<Rightarrow> string \<Rightarrow> json" where
  "delta_data seg text = JObj [(''text'', JStr text), (''assistant_segment_id'', JStr seg)]"

definition segment_id :: "string \<Rightarrow> string \<Rightarrow> string" where
  "segment_id t seg = ''assistant:'' @ t @ '':'' @ seg"

definition stream_deltas :: "runtime \<Rightarrow> string \<Rightarrow> string \<Rightarrow> timeline \<Rightarrow> string list \<Rightarrow> timeline" where
  "stream_deltas rt t seg =
     foldl (\<lambda>es text. foldProjection rt es t ''assistant_delta'' (Some (delta_data seg text)))"

abbreviation on_stream :: "string \<Rightarrow> timelineEntry \<Rightarrow> bool" where
  "on_stream i e \<equiv> te_id e = i \<or> te_streamId e = Some i"

definition streaming :: "timeline \<Rightarrow> string \<Rightarrow> string \<Rightarrow> bool" where
  "streaming es i b =
     (case find (on_stream i) es of
        None \<Rightarrow> b = []
      | Some e \<Rightarrow> te_id e = i \<and> te_body e = b \<and> te_status e = Running \<and> te_kind e = KAssistant)"

lemma find_append: "find P (xs @ ys) = (case find P xs of None \<Rightarrow> find P ys | Some x \<Rightarrow> Some x)"
  by (induction xs) auto

lemma find_split:
  "find P xs = Some x \<Longrightarrow> \<exists>ys zs. xs = ys @ x # zs \<and> (\<forall>y \<in> set ys. \<not> P y)"
proof (induction xs)
  case Nil
  then show ?case by simp
next
  case (Cons a xs)
  show ?case
  proof (cases "P a")
    case True
    with Cons.prems show ?thesis by (intro exI [of _ "[]"] exI [of _ xs]) simp
  next
    case False
    with Cons obtain ys zs where "xs = ys @ x # zs" "\<forall>y \<in> set ys. \<not> P y" by auto
    with False show ?thesis by (intro exI [of _ "a # ys"] exI [of _ zs]) simp
  qed
qed

lemma find_map_inv: "(\<And>e. P (f e) = P e) \<Longrightarrow> find P (map f es) = map_option f (find P es)"
  by (induction es) auto

lemma settleReasoning_streaming: "streaming es i b \<Longrightarrow> streaming (settleReasoning rt es t) i b"
proof -
  let ?f = "\<lambda>e. if te_turnId e = Some t \<and> te_kind e = KReasoning \<and> te_status e = Running
    then close_timing rt (e\<lparr>te_status := Complete\<rparr>) else e"
  have "find (on_stream i) (map ?f es) = map_option ?f (find (on_stream i) es)"
    by (rule find_map_inv) (simp add: close_timing_def)
  then show "streaming es i b \<Longrightarrow> ?thesis"
    by (auto simp: streaming_def settleReasoning_def split: option.splits)
qed

lemma list_ex_map_inv: "(\<And>e. P (f e) = P e) \<Longrightarrow> list_ex P (map f es) = list_ex P es"
  by (induction es) auto

lemma settleReasoning_terminal [simp]: "hasTerminal (settleReasoning rt es t) t' = hasTerminal es t'"
  unfolding hasTerminal_def settleReasoning_def
  by (rule list_ex_map_inv) (simp add: close_timing_def)

lemma upsert_not_terminal:
  assumes "\<not> hasTerminal es t" and "te_id new \<noteq> terminal_id t"
    and "\<not> te_turnSettled new" and "te_textTerminal new = None"
  shows "\<not> hasTerminal (upsert es new) t"
proof (cases rule: upsert_cases [of es new])
  case appended
  with assms show ?thesis by (simp add: hasTerminal_def)
next
  case (replaced ys x zs)
  with assms show ?thesis by (auto simp: hasTerminal_def refined_def)
qed

lemma delta_step:
  fixes rt piece
  assumes "\<not> hasTerminal es t" and s: "streaming es (segment_id t seg) b"
  defines "es' \<equiv> foldProjection rt es t ''assistant_delta'' (Some (delta_data seg piece))"
  shows "\<not> hasTerminal es' t" and "streaming es' (segment_id t seg) (b @ piece)"
proof -
  let ?i = "segment_id t seg" and ?es = "settleReasoning rt es t"
  have es': "es' = appendText rt ?es ?i KAssistant ''Octos'' (Some (JStr piece)) t"
    using assms(1) by (simp add: es'_def foldProjection_def delta_data_def assistant_stream_def
        segment_id_def stringOf_def)
  have s': "streaming ?es ?i b" by (rule settleReasoning_streaming [OF s])
  have i: "?i \<noteq> terminal_id t" by (simp add: segment_id_def terminal_id_def)
  have "\<not> hasTerminal es' t \<and> streaming es' ?i (b @ piece)"
  proof (cases "piece = []")
    case True
    then show ?thesis using s' assms(1) by (simp add: es' appendText_def)
  next
    case False
    show ?thesis
    proof (cases "find (on_stream ?i) ?es")
      case None
      then have b: "b = []" using s' by (simp add: streaming_def)
      from None have free: "\<forall>e \<in> set ?es. te_id e \<noteq> ?i" by (auto simp: find_None_iff)
      obtain new where new: "es' = upsert ?es new" "te_id new = ?i" "te_body new = piece"
          "te_status new = Running" "te_kind new = KAssistant" "\<not> te_turnSettled new" "te_textTerminal new = None"
        using False None by (auto simp: es' appendText_def)
      have "es' = ?es @ [new]"
        using free new(1,2) by (auto simp: upsert_def find_index_None split: option.splits dest: find_index_Some)
      moreover have "find (on_stream ?i) (?es @ [new]) = Some new"
        using None new(2) by (simp add: find_append)
      ultimately show ?thesis
        using new b upsert_not_terminal [of ?es t new] assms(1) i by (simp add: streaming_def)
    next
      case (Some e)
      then have e: "te_id e = ?i" "te_body e = b" "te_status e = Running" "te_kind e = KAssistant"
        using s' by (auto simp: streaming_def)
      obtain new where new: "es' = upsert ?es new" "te_id new = ?i" "te_body new = b @ piece"
          "te_status new = Running" "te_kind new = KAssistant" "\<not> te_turnSettled new" "te_textTerminal new = None"
        using False Some e by (auto simp: es' appendText_def)
      from Some obtain ys zs where y: "?es = ys @ e # zs" "\<forall>x \<in> set ys. \<not> on_stream ?i x"
        using find_split [OF Some] by blast
      have "es' = ys @ refined e new # zs"
        using new(1,2) e(1) y(2) unfolding y(1) by (simp add: upsert_def)
      moreover have "find (on_stream ?i) (ys @ refined e new # zs) = Some (refined e new)"
      proof -
        have "find (on_stream ?i) ys = None" using y(2) by (auto simp: find_None_iff)
        then show ?thesis using new(2) by (simp add: find_append)
      qed
      ultimately show ?thesis
        using new upsert_not_terminal [of ?es t new] assms(1) i by (simp add: streaming_def)
    qed
  qed
  then show "\<not> hasTerminal es' t" "streaming es' ?i (b @ piece)" by simp_all
qed

lemma stream_deltas_streaming:
  "\<not> hasTerminal es t \<Longrightarrow> streaming es (segment_id t seg) b
     \<Longrightarrow> streaming (stream_deltas rt t seg es xs) (segment_id t seg) (b @ concat xs)"
proof (induction xs arbitrary: es b)
  case Nil
  then show ?case by (simp add: stream_deltas_def)
next
  case (Cons x xs)
  note d = delta_step [OF Cons.prems, of rt x]
  from Cons.IH [OF d] show ?case by (simp add: stream_deltas_def)
qed

text \<open>
  Streamed text is shown as it was sent. Folding the pieces of a new segment of an unfinished
  turn, in order, leaves one first row of that segment, still running, whose text is exactly the
  concatenation of the pieces.
\<close>
theorem streamed_text_is_concatenated:
  assumes "\<not> hasTerminal es t" and "list_all (\<lambda>e. \<not> on_stream (segment_id t seg) e) es" and "concat pieces \<noteq> []"
  shows "map_option (\<lambda>e. (te_id e, te_body e, te_status e))
       (find (on_stream (segment_id t seg)) (stream_deltas rt t seg es pieces))
     = Some (segment_id t seg, concat pieces, Running)"
proof -
  have "streaming es (segment_id t seg) []"
    using assms(2) by (auto simp: streaming_def find_Some_iff list_all_iff split: option.splits)
  from stream_deltas_streaming [OF assms(1) this, of rt pieces] assms(3) show ?thesis
    by (auto simp: streaming_def split: option.splits)
qed

lemma streamed_text_is_concatenated_witness:
  "map_option (\<lambda>e. (te_id e, te_body e, te_status e))
       (find (on_stream (segment_id ''u'' ''1'')) (stream_deltas sample_runtime ''u'' ''1'' [] [''Hel'', ''lo'']))
     = Some (segment_id ''u'' ''1'', concat [''Hel'', ''lo''], Running)"
  by (rule streamed_text_is_concatenated) (simp_all add: hasTerminal_def)

end
