(* ===== verification/VimEdit.thy ===== *)
theory VimEdit
  imports JsPrelude "HOL-Library.Word"
begin

text \<open>
  The composer's Vim subset (\<open>features/composer/vim-edit.ts\<close>): one pure reducer from an edit
  snapshot and a key to the next snapshot. The browser's offsets count UTF-16 code units, so the
  text is a list of 16-bit words here, surrogates included; the theorems show that no operation
  splits a surrogate pair, that a Normal-mode key never types, and which lines and words the
  operators act on.
\<close>

section \<open>Text and offsets\<close>

type_synonym utf16 = "16 word list"

definition ascii :: "string \<Rightarrow> utf16" where
  "ascii s = map (\<lambda>c. word_of_nat (code_unit c)) s"

definition newline :: "16 word" where
  "newline = 10"

definition isHighSurrogate :: "16 word \<Rightarrow> bool" where
  "isHighSurrogate value = (0xd800 \<le> value \<and> value \<le> 0xdbff)"

definition isLowSurrogate :: "16 word \<Rightarrow> bool" where
  "isLowSurrogate value = (0xdc00 \<le> value \<and> value \<le> 0xdfff)"

text \<open>Unicode \<open>White_Space\<close>; every such scalar is one code unit.\<close>

definition white_space :: "16 word \<Rightarrow> bool" where
  "white_space u =
     (9 \<le> u \<and> u \<le> 13 \<or> u = 0x20 \<or> u = 0x85 \<or> u = 0xa0 \<or> u = 0x1680 \<or> 0x2000 \<le> u \<and> u \<le> 0x200a
      \<or> u = 0x2028 \<or> u = 0x2029 \<or> u = 0x202f \<or> u = 0x205f \<or> u = 0x3000)"

text \<open>
  A \<open>number\<close> offset handed in by the browser: the double \<open>m / 2 ^ k\<close>, or one that
  \<open>Number.isFinite\<close> refuses. \<open>Math.trunc\<close> rounds towards zero.
\<close>

datatype offset_number = Finite int nat | NotFinite

definition math_trunc :: "int \<Rightarrow> nat \<Rightarrow> int" where
  "math_trunc m k = (if 0 \<le> m then m div 2 ^ k else - ((- m) div 2 ^ k))"

definition offset_at :: "nat \<Rightarrow> offset_number" where
  "offset_at n = Finite (int n) 0"

definition scalarBoundary :: "utf16 \<Rightarrow> offset_number \<Rightarrow> nat" where
  "scalarBoundary t value =
     (let offset = (case value of
                      Finite m k \<Rightarrow> nat (max 0 (min (int (length t)) (math_trunc m k)))
                    | NotFinite \<Rightarrow> length t)
      in if offset > 0 \<and> offset < length t
            \<and> isHighSurrogate (t ! (offset - 1)) \<and> isLowSurrogate (t ! offset)
         then offset - 1 else offset)"

text \<open>\<open>codePointAt(cursor) > 0xffff\<close>: a high surrogate followed by a low one.\<close>

definition astral_at :: "utf16 \<Rightarrow> nat \<Rightarrow> bool" where
  "astral_at t i = (Suc i < length t \<and> isHighSurrogate (t ! i) \<and> isLowSurrogate (t ! Suc i))"

definition previousScalar :: "utf16 \<Rightarrow> nat \<Rightarrow> nat" where
  "previousScalar t cursor = scalarBoundary t (offset_at (cursor - 1))"

definition nextScalar :: "utf16 \<Rightarrow> nat \<Rightarrow> nat" where
  "nextScalar t cursor =
     (if cursor \<ge> length t then length t else cursor + (if astral_at t cursor then 2 else 1))"

text \<open>\<open>text.slice(i, j)\<close> for offsets that are not negative.\<close>

definition slice :: "'a list \<Rightarrow> nat \<Rightarrow> nat \<Rightarrow> 'a list" where
  "slice xs i j = take (j - i) (drop i xs)"

text \<open>\<open>lastIndexOf("\n") + 1\<close> is what is left before the trailing newline-free part.\<close>

definition lineStart :: "utf16 \<Rightarrow> nat \<Rightarrow> nat" where
  "lineStart t cursor = length (dropWhile (\<lambda>u. u \<noteq> newline) (rev (take cursor t)))"

definition lineEnd :: "utf16 \<Rightarrow> nat \<Rightarrow> nat" where
  "lineEnd t cursor =
     (case index_of newline (drop cursor t) of
        None \<Rightarrow> length t
      | Some i \<Rightarrow> cursor + i)"

text \<open>\<open>Array.from(text)\<close>: the string iterator joins a surrogate pair and nothing else.\<close>

fun scalars :: "utf16 \<Rightarrow> utf16 list" where
  "scalars (u # v # us) =
     (if isHighSurrogate u \<and> isLowSurrogate v then [u, v] # scalars us else [u] # scalars (v # us))"
| "scalars us = map (\<lambda>u. [u]) us"

definition columnOffset :: "utf16 \<Rightarrow> nat \<Rightarrow> nat \<Rightarrow> nat \<Rightarrow> nat" where
  "columnOffset t start finish column =
     start + length (concat (take column (scalars (slice t start finish))))"

section \<open>Words\<close>

definition whitespace :: "utf16 \<Rightarrow> nat \<Rightarrow> bool" where
  "whitespace t cursor = list_ex white_space (slice t cursor (nextScalar t cursor))"

lemma nextScalar_more: "i < length t \<Longrightarrow> i < nextScalar t i \<and> nextScalar t i \<le> length t"
  by (auto simp: nextScalar_def astral_at_def)

lemma scalarBoundary_at:
  "scalarBoundary t (offset_at n) =
     (if 0 < min (length t) n \<and> n < length t
         \<and> isHighSurrogate (t ! (n - 1)) \<and> isLowSurrogate (t ! n)
      then n - 1 else min (length t) n)"
proof -
  have "nat (max 0 (min (int (length t)) (math_trunc (int n) 0))) = min (length t) n"
    by (simp add: math_trunc_def min_def)
  then show ?thesis by (auto simp: scalarBoundary_def offset_at_def Let_def min_def)
qed

lemma scalarBoundary_le: "scalarBoundary t v \<le> length t"
  by (cases v) (auto simp: scalarBoundary_def Let_def)

lemma previousScalar_less: "0 < i \<Longrightarrow> previousScalar t i < i"
  by (auto simp: previousScalar_def scalarBoundary_at min_def)

text \<open>The two loops of the word motions, one per direction and per kind of scalar.\<close>

function skip_forward :: "(utf16 \<Rightarrow> nat \<Rightarrow> bool) \<Rightarrow> utf16 \<Rightarrow> nat \<Rightarrow> nat" where
  "skip_forward P t i = (if i < length t \<and> P t i then skip_forward P t (nextScalar t i) else i)"
  by pat_completeness auto
termination
  by (relation "measure (\<lambda>(P, t, i). length t - i)") (use nextScalar_more in \<open>auto intro: diff_less_mono2\<close>)

function skip_backward :: "(utf16 \<Rightarrow> nat \<Rightarrow> bool) \<Rightarrow> utf16 \<Rightarrow> nat \<Rightarrow> nat" where
  "skip_backward P t i =
     (if 0 < i \<and> P t (previousScalar t i) then skip_backward P t (previousScalar t i) else i)"
  by pat_completeness auto
termination
  by (relation "measure (\<lambda>(P, t, i). i)") (auto simp: previousScalar_less)

declare skip_forward.simps [simp del] skip_backward.simps [simp del]

definition not_whitespace :: "utf16 \<Rightarrow> nat \<Rightarrow> bool" where
  "not_whitespace t i = (\<not> whitespace t i)"

definition wordForward :: "utf16 \<Rightarrow> nat \<Rightarrow> nat" where
  "wordForward t cursor = skip_forward whitespace t (skip_forward not_whitespace t cursor)"

definition wordBackward :: "utf16 \<Rightarrow> nat \<Rightarrow> nat" where
  "wordBackward t cursor = skip_backward not_whitespace t (skip_backward whitespace t cursor)"

text \<open>The last loop of \<open>wordEnd\<close> looks one scalar ahead.\<close>

function to_word_end :: "utf16 \<Rightarrow> nat \<Rightarrow> nat" where
  "to_word_end t i =
     (if nextScalar t i < length t \<and> \<not> whitespace t (nextScalar t i)
      then to_word_end t (nextScalar t i) else i)"
  by pat_completeness auto
termination
proof (relation "measure (\<lambda>(t, i). length t - i)")
  fix t i assume *: "nextScalar t i < length t \<and> \<not> whitespace t (nextScalar t i)"
  then have "i < length t" by (cases "i < length t") (auto simp: nextScalar_def)
  with nextScalar_more [of i t] * show "((t, nextScalar t i), t, i) \<in> measure (\<lambda>(t, i). length t - i)"
    by (simp add: diff_less_mono2)
qed simp

declare to_word_end.simps [simp del]

definition wordEnd :: "utf16 \<Rightarrow> nat \<Rightarrow> nat" where
  "wordEnd t cursor =
     (let i = skip_forward whitespace t (nextScalar t cursor)
      in if i \<ge> length t then length t else to_word_end t i)"

section \<open>The reducer\<close>

datatype vimMode = Insert | Normal

datatype operator = OpG | OpD | OpC

datatype selectionDirection = Forward | Backward | NoDirection

record vimEditSnapshot =
  vs_enabled :: bool
  vs_text :: utf16
  vs_selectionStart :: offset_number
  vs_selectionEnd :: offset_number
  vs_selectionDirection :: "selectionDirection option"
  vs_mode :: vimMode
  vs_pending :: "operator option"

record vimKey =
  vk_key :: utf16
  vk_isComposing :: bool
  vk_ctrlKey :: bool
  vk_metaKey :: bool
  vk_altKey :: bool

record vimEditResult =
  vr_text :: utf16
  vr_selectionStart :: nat
  vr_selectionEnd :: nat
  vr_selectionDirection :: selectionDirection
  vr_mode :: vimMode
  vr_pending :: "operator option"
  vr_consumed :: bool

definition resetVimMode :: "vimMode \<times> operator option" where
  "resetVimMode = (Insert, None)"

definition clearVimPending :: "vimMode \<times> operator option \<Rightarrow> vimMode \<times> operator option" where
  "clearVimPending state = (fst state, None)"

text \<open>A one-letter key, as \<open>case "h":\<close> compares it.\<close>

definition is_key :: "string \<Rightarrow> utf16 \<Rightarrow> bool" where
  "is_key s k = (k = ascii s)"

definition vim_move :: "nat \<Rightarrow> vimEditResult \<Rightarrow> vimEditResult" where
  "vim_move position r =
     (let p = scalarBoundary (vr_text r) (offset_at position)
      in r\<lparr>vr_selectionStart := p, vr_selectionEnd := p, vr_selectionDirection := NoDirection\<rparr>)"

definition vim_replace :: "utf16 \<Rightarrow> nat \<Rightarrow> nat \<Rightarrow> utf16 \<Rightarrow> vimEditResult \<Rightarrow> vimEditResult" where
  "vim_replace t start finish inserted r =
     vim_move (start + length inserted) (r\<lparr>vr_text := take start t @ inserted @ drop finish t\<rparr>)"

text \<open>The closed operator set: \<open>gg dw dd cc\<close>; any other pair is swallowed.\<close>

definition vim_operator :: "utf16 \<Rightarrow> nat \<Rightarrow> operator \<Rightarrow> utf16 \<Rightarrow> vimEditResult \<Rightarrow> vimEditResult" where
  "vim_operator t cursor pending key r =
     (let start = lineStart t cursor; finish = lineEnd t cursor
      in if pending = OpG \<and> is_key ''g'' key then vim_move 0 r
         else if pending = OpD \<and> is_key ''w'' key then vim_replace t cursor (wordForward t cursor) [] r
         else if pending = OpD \<and> is_key ''d'' key
           then (if finish < length t then vim_replace t start (finish + 1) [] r
                 else if start > 0 then vim_replace t (start - 1) finish [] r
                 else vim_replace t 0 finish [] r)
         else if pending = OpC \<and> is_key ''c'' key
           then (vim_replace t start finish [] r)\<lparr>vr_mode := Insert\<rparr>
         else r)"

definition vim_vertical :: "utf16 \<Rightarrow> nat \<Rightarrow> utf16 \<Rightarrow> vimEditResult \<Rightarrow> vimEditResult" where
  "vim_vertical t cursor key r =
     (let start = lineStart t cursor; finish = lineEnd t cursor;
          column = length (scalars (slice t start cursor))
      in if is_key ''k'' key \<and> start > 0
         then vim_move (columnOffset t (lineStart t (start - 1)) (start - 1) column) r
         else if is_key ''j'' key \<and> finish < length t
         then vim_move (columnOffset t (finish + 1) (lineEnd t (finish + 1)) column) r
         else r)"

definition vim_simple :: "utf16 \<Rightarrow> nat \<Rightarrow> utf16 \<Rightarrow> vimEditResult \<Rightarrow> vimEditResult" where
  "vim_simple t cursor key r =
     (let start = lineStart t cursor; finish = lineEnd t cursor
      in if is_key ''h'' key then vim_move (previousScalar t cursor) r
         else if is_key ''l'' key then vim_move (nextScalar t cursor) r
         else if is_key ''j'' key \<or> is_key ''k'' key then vim_vertical t cursor key r
         else if is_key ''0'' key then vim_move start r
         else if is_key ''I'' key then (vim_move start r)\<lparr>vr_mode := Insert\<rparr>
         else if is_key ''$'' key then vim_move finish r
         else if is_key ''A'' key then (vim_move finish r)\<lparr>vr_mode := Insert\<rparr>
         else if is_key ''w'' key then vim_move (wordForward t cursor) r
         else if is_key ''b'' key then vim_move (wordBackward t cursor) r
         else if is_key ''e'' key then vim_move (wordEnd t cursor) r
         else if is_key ''G'' key then vim_move (length t) r
         else if is_key ''x'' key then vim_replace t cursor (nextScalar t cursor) [] r
         else if is_key ''g'' key then r\<lparr>vr_pending := Some OpG\<rparr>
         else if is_key ''d'' key then r\<lparr>vr_pending := Some OpD\<rparr>
         else if is_key ''c'' key then r\<lparr>vr_pending := Some OpC\<rparr>
         else if is_key ''i'' key then (vim_move cursor r)\<lparr>vr_mode := Insert\<rparr>
         else if is_key ''a'' key then (vim_move (nextScalar t cursor) r)\<lparr>vr_mode := Insert\<rparr>
         else if is_key ''o'' key then (vim_replace t finish finish [newline] r)\<lparr>vr_mode := Insert\<rparr>
         else if is_key ''O'' key
           then (vim_move start (vim_replace t start start [newline] r))\<lparr>vr_mode := Insert\<rparr>
         else r)"

definition vim_initial :: "vimEditSnapshot \<Rightarrow> vimEditResult" where
  "vim_initial s =
     (let first = scalarBoundary (vs_text s) (vs_selectionStart s);
          final = scalarBoundary (vs_text s) (vs_selectionEnd s)
      in \<lparr>vr_text = vs_text s, vr_selectionStart = min first final, vr_selectionEnd = max first final,
          vr_selectionDirection = (case vs_selectionDirection s of Some d \<Rightarrow> d | None \<Rightarrow> NoDirection),
          vr_mode = vs_mode s, vr_pending = vs_pending s, vr_consumed = False\<rparr>)"

text \<open>The key belongs to the browser: Vim off, composition, a modifier or a dead key.\<close>

definition native_key :: "vimEditSnapshot \<Rightarrow> vimKey \<Rightarrow> bool" where
  "native_key s k =
     (\<not> vs_enabled s \<or> vk_isComposing k \<or> vk_ctrlKey k \<or> vk_metaKey k \<or> vk_altKey k
      \<or> vk_key k \<in> set (map ascii [''Process'', ''Dead'', ''Unidentified'']))"

text \<open>The caret an operation acts at: the active edge of the selection.\<close>

definition active_edge :: "vimEditResult \<Rightarrow> nat" where
  "active_edge r =
     (if vr_selectionDirection r = Backward then vr_selectionStart r else vr_selectionEnd r)"

definition vim_normal :: "utf16 \<Rightarrow> utf16 \<Rightarrow> vimEditResult \<Rightarrow> vimEditResult" where
  "vim_normal t key r0 =
     (let cursor = active_edge r0; r = r0\<lparr>vr_consumed := True, vr_pending := None\<rparr>
      in case vr_pending r0 of
           Some operator \<Rightarrow> vim_operator t cursor operator key r
         | None \<Rightarrow>
             if is_key ''!'' key \<and> t = [] then r\<lparr>vr_mode := Insert, vr_consumed := False\<rparr>
             else vim_simple t cursor key r)"

definition reduceVimEdit :: "vimEditSnapshot \<Rightarrow> vimKey \<Rightarrow> vimEditResult" where
  "reduceVimEdit s k =
     (let r = vim_initial s; key = vk_key k
      in if native_key s k then r\<lparr>vr_pending := None\<rparr>
         else if vr_mode r = Insert
         then (if is_key ''Escape'' key
               then r\<lparr>vr_mode := Normal, vr_pending := None, vr_consumed := True\<rparr> else r)
         else if is_key ''Enter'' key then r\<lparr>vr_pending := None\<rparr>
         else if is_key ''Escape'' key
         then r\<lparr>vr_consumed := (vr_pending r \<noteq> None), vr_pending := None\<rparr>
         else if length (scalars key) \<noteq> 1 then r\<lparr>vr_pending := None\<rparr>
         else vim_normal (vs_text s) key r)"

section \<open>Well-formed text and cuts between scalars\<close>

text \<open>Every surrogate belongs to a pair.\<close>

fun wf_utf16 :: "utf16 \<Rightarrow> bool" where
  "wf_utf16 [] = True"
| "wf_utf16 [u] = (\<not> isHighSurrogate u \<and> \<not> isLowSurrogate u)"
| "wf_utf16 (u # v # us) =
     (if isHighSurrogate u then isLowSurrogate v \<and> wf_utf16 us
      else \<not> isLowSurrogate u \<and> wf_utf16 (v # us))"

text \<open>The offset does not stand inside a surrogate pair.\<close>

definition cut :: "utf16 \<Rightarrow> nat \<Rightarrow> bool" where
  "cut t n = (n \<le> length t
     \<and> \<not> (0 < n \<and> n < length t \<and> isHighSurrogate (t ! (n - 1)) \<and> isLowSurrogate (t ! n)))"

lemma high_not_low: "isHighSurrogate u \<Longrightarrow> \<not> isLowSurrogate u"
  by (auto simp: isHighSurrogate_def isLowSurrogate_def word_le_nat_alt)

lemma newline_plain [simp]: "\<not> isHighSurrogate newline" "\<not> isLowSurrogate newline"
  by (simp_all add: isHighSurrogate_def isLowSurrogate_def newline_def word_le_nat_alt)

lemma wf_append: "wf_utf16 a \<Longrightarrow> wf_utf16 b \<Longrightarrow> wf_utf16 (a @ b)"
proof (induction a rule: wf_utf16.induct)
  case (2 u)
  then show ?case by (cases b) auto
qed (auto split: if_splits)

lemma wf_cut: "wf_utf16 t \<Longrightarrow> cut t n \<Longrightarrow> wf_utf16 (take n t) \<and> wf_utf16 (drop n t)"
proof (induction t arbitrary: n rule: wf_utf16.induct)
  case (2 u)
  then show ?case by (cases n) (auto simp: cut_def)
next
  case (3 u v us)
  show ?case
  proof (cases "isHighSurrogate u")
    case True
    consider "n = 0" | "n = 1" | m where "n = Suc (Suc m)" by (metis One_nat_def old.nat.exhaust)
    then show ?thesis
    proof cases
      case 2
      with 3 True show ?thesis by (simp add: cut_def)
    next
      case (3 m)
      have "cut us m"
        using "3.prems" \<open>n = Suc (Suc m)\<close> by (cases m) (auto simp: cut_def)
      with "3.IH"(1) [OF True] "3.prems" True \<open>n = Suc (Suc m)\<close> show ?thesis by simp
    qed (use 3 in simp)
  next
    case False
    show ?thesis
    proof (cases n)
      case (Suc m)
      have "cut (v # us) m"
        using "3.prems" Suc by (cases m) (auto simp: cut_def)
      with "3.IH"(2) [OF False] "3.prems" False
      have "wf_utf16 (take m (v # us)) \<and> wf_utf16 (drop m (v # us))" by simp
      with Suc False "3.prems" show ?thesis by (cases m) auto
    qed (use 3 in simp)
  qed
qed (simp add: cut_def)

lemma scalarBoundary_cut [simp]: "cut t (scalarBoundary t v)"
  by (cases v) (auto simp: scalarBoundary_def Let_def cut_def dest: high_not_low)

lemma nextScalar_cut [simp]: "cut t (nextScalar t i)"
  by (auto simp: nextScalar_def astral_at_def cut_def dest: high_not_low)

lemma skip_forward_cut: "cut t i \<Longrightarrow> cut t (skip_forward P t i)"
proof (induction P t i rule: skip_forward.induct)
  case (1 P t i)
  then show ?case by (subst skip_forward.simps) simp
qed

lemma skip_forward_ge: "i \<le> length t \<Longrightarrow> i \<le> skip_forward P t i \<and> skip_forward P t i \<le> length t"
proof (induction P t i rule: skip_forward.induct)
  case (1 P t i)
  show ?case
  proof (cases "i < length t \<and> P t i")
    case True
    with 1 nextScalar_more [of i t]
    have "nextScalar t i \<le> skip_forward P t (nextScalar t i)
            \<and> skip_forward P t (nextScalar t i) \<le> length t" by blast
    with True nextScalar_more [of i t] show ?thesis by (subst (1 2) skip_forward.simps) simp
  next
    case False
    with "1.prems" show ?thesis by (subst (1 2) skip_forward.simps) auto
  qed
qed

lemma wordForward_cut: "cut t i \<Longrightarrow> cut t (wordForward t i)"
  by (simp add: wordForward_def skip_forward_cut)

lemma wordForward_ge: "i \<le> length t \<Longrightarrow> i \<le> wordForward t i \<and> wordForward t i \<le> length t"
  unfolding wordForward_def
  using skip_forward_ge [of i t not_whitespace]
    skip_forward_ge [of "skip_forward not_whitespace t i" t whitespace] by simp

section \<open>Lines\<close>

text \<open>The text around the line of an offset.\<close>

definition around_line :: "utf16 \<Rightarrow> nat \<Rightarrow> utf16 \<Rightarrow> utf16 \<Rightarrow> utf16 \<Rightarrow> bool" where
  "around_line t c before line rest =
     (t = before @ line @ rest \<and> newline \<notin> set line
      \<and> (before = [] \<or> last before = newline) \<and> (rest = [] \<or> hd rest = newline)
      \<and> length before \<le> c \<and> c \<le> length before + length line)"

lemma index_of_takeWhile:
  "index_of x xs = (if x \<in> set xs then Some (length (takeWhile (\<lambda>y. y \<noteq> x) xs)) else None)"
  by (induction xs) auto

lemma around_line_offsets:
  assumes "around_line t c before line rest"
  shows "lineStart t c = length before" and "lineEnd t c = length before + length line"
proof -
  from assms have t: "t = before @ line @ rest" and l: "newline \<notin> set line"
    and b: "before = [] \<or> last before = newline" and r: "rest = [] \<or> hd rest = newline"
    and c: "length before \<le> c" "c \<le> length before + length line"
    by (auto simp: around_line_def)
  define d where "d = c - length before"
  have "take c t = before @ take d line" using t c by (simp add: d_def)
  moreover have "newline \<notin> set (take d line)" using l in_set_takeD by metis
  then have "dropWhile (\<lambda>u. u \<noteq> newline) (rev (take d line) @ rev before) = rev before"
    using b by (subst dropWhile_append2) (auto simp: hd_rev dropWhile_eq_self_iff)
  ultimately show "lineStart t c = length before" by (simp add: lineStart_def)
  have dr: "drop c t = drop d line @ rest" using t c by (simp add: d_def)
  have nl: "newline \<notin> set (drop d line)" using l in_set_dropD by metis
  show "lineEnd t c = length before + length line"
  proof (cases rest)
    case Nil
    with nl t dr show ?thesis by (simp add: lineEnd_def index_of_takeWhile)
  next
    case (Cons u us)
    with r have "u = newline" by simp
    with Cons nl have "takeWhile (\<lambda>y. y \<noteq> newline) (drop d line @ rest) = drop d line"
      by (subst takeWhile_append2) auto
    with Cons \<open>u = newline\<close> dr c show ?thesis
      by (simp add: lineEnd_def index_of_takeWhile d_def)
  qed
qed

lemma around_line_exists:
  assumes "c \<le> length t"
  shows "\<exists>before line rest. around_line t c before line rest"
proof -
  let ?P = "\<lambda>u. u \<noteq> newline"
  define before where "before = rev (dropWhile ?P (rev (take c t)))"
  define front where "front = rev (takeWhile ?P (rev (take c t)))"
  define behind where "behind = takeWhile ?P (drop c t)"
  define rest where "rest = dropWhile ?P (drop c t)"
  have tk: "take c t = before @ front"
    unfolding before_def front_def by (simp flip: rev_append)
  have dr: "drop c t = behind @ rest" unfolding behind_def rest_def by simp
  have "t = before @ (front @ behind) @ rest"
    using append_take_drop_id [of c t] unfolding tk dr by simp
  moreover have "newline \<notin> set (front @ behind)"
    unfolding front_def behind_def by (auto dest: set_takeWhileD)
  moreover have "before = [] \<or> last before = newline"
    unfolding before_def using hd_dropWhile [of ?P "rev (take c t)"]
    by (auto simp: last_rev)
  moreover have "rest = [] \<or> hd rest = newline"
    unfolding rest_def using hd_dropWhile [of ?P "drop c t"] by auto
  moreover have "length before + length front = c"
    using assms arg_cong [OF tk, of length] by simp
  ultimately have "around_line t c before (front @ behind) rest"
    unfolding around_line_def by auto
  then show ?thesis by blast
qed

lemma lineStart_cut:
  assumes "c \<le> length t"
  shows "cut t (lineStart t c)" and "cut t (lineEnd t c)"
    and "lineStart t c \<le> c" and "c \<le> lineEnd t c" and "lineEnd t c \<le> length t"
    and "0 < lineStart t c \<Longrightarrow> cut t (lineStart t c - 1)"
    and "lineEnd t c < length t \<Longrightarrow> cut t (lineEnd t c + 1)"
proof -
  from around_line_exists [OF assms] obtain before line rest where a: "around_line t c before line rest"
    by blast
  note o = around_line_offsets [OF a]
  from a have t: "t = before @ line @ rest" and c: "length before \<le> c" "c \<le> length before + length line"
    and b: "before = [] \<or> last before = newline" and r: "rest = [] \<or> hd rest = newline"
    by (auto simp: around_line_def)
  have left: "t ! (length before - 1) = newline" if "before \<noteq> []"
    using b that t by (simp add: nth_append last_conv_nth)
  have right: "t ! (length before + length line) = newline" if "rest \<noteq> []"
    using r that t by (simp add: nth_append hd_conv_nth)
  show "cut t (lineStart t c)" using left t o by (cases "before = []") (auto simp: cut_def)
  show "cut t (lineEnd t c)" using right t o by (cases "rest = []") (auto simp: cut_def)
  show "lineStart t c \<le> c" "c \<le> lineEnd t c" "lineEnd t c \<le> length t" using o c t by auto
  show "cut t (lineStart t c - 1)" if "0 < lineStart t c"
    using left that t o by (cases "before = []") (auto simp: cut_def)
  show "cut t (lineEnd t c + 1)" if "lineEnd t c < length t"
    using right that t o by (cases rest) (auto simp: cut_def)
qed

section \<open>What one key may do to the text\<close>

text \<open>
  The text after the key is the text before it, less one range of whole scalars, or with one
  newline at a scalar boundary; the selection ends stand at scalar boundaries.
\<close>

definition one_edit :: "utf16 \<Rightarrow> utf16 \<Rightarrow> bool" where
  "one_edit t t' = (\<exists>a b x. a \<le> b \<and> cut t a \<and> cut t b \<and> t' = take a t @ x @ drop b t
                       \<and> (x = [] \<or> x = [newline] \<and> a = b))"

definition edit_ok :: "utf16 \<Rightarrow> vimEditResult \<Rightarrow> bool" where
  "edit_ok t r = (one_edit t (vr_text r) \<and> cut (vr_text r) (vr_selectionStart r)
     \<and> cut (vr_text r) (vr_selectionEnd r) \<and> vr_selectionStart r \<le> vr_selectionEnd r)"

lemma edit_ok_update [simp]:
  "edit_ok t (r\<lparr>vr_mode := m\<rparr>) = edit_ok t r"
  "edit_ok t (r\<lparr>vr_pending := p\<rparr>) = edit_ok t r"
  "edit_ok t (r\<lparr>vr_consumed := c\<rparr>) = edit_ok t r"
  by (simp_all add: edit_ok_def)

lemma one_edit_refl [simp]: "one_edit t t"
  unfolding one_edit_def by (intro exI [of _ 0] exI [of _ "[]"]) (simp add: cut_def)

lemma one_edit_delete:
  "a \<le> b \<Longrightarrow> cut t a \<Longrightarrow> cut t b \<Longrightarrow> one_edit t (take a t @ drop b t)"
  unfolding one_edit_def by (intro exI [of _ a] exI [of _ b] exI [of _ "[]"]) simp

lemma one_edit_insert: "cut t a \<Longrightarrow> one_edit t (take a t @ newline # drop a t)"
  unfolding one_edit_def by (intro exI [of _ a] exI [of _ "[newline]"]) simp

lemma vim_move_simps [simp]:
  "vr_text (vim_move p r) = vr_text r" "vr_mode (vim_move p r) = vr_mode r"
  "vr_pending (vim_move p r) = vr_pending r" "vr_consumed (vim_move p r) = vr_consumed r"
  by (simp_all add: vim_move_def Let_def)

lemma vim_move_ok [simp]: "one_edit t (vr_text r) \<Longrightarrow> edit_ok t (vim_move p r)"
  by (simp add: edit_ok_def vim_move_def Let_def)

lemma vim_replace_simps [simp]:
  "vr_text (vim_replace t a b x r) = take a t @ x @ drop b t"
  "vr_mode (vim_replace t a b x r) = vr_mode r" "vr_pending (vim_replace t a b x r) = vr_pending r"
  "vr_consumed (vim_replace t a b x r) = vr_consumed r"
  by (simp_all add: vim_replace_def)

lemma vim_delete_ok: "a \<le> b \<Longrightarrow> cut t a \<Longrightarrow> cut t b \<Longrightarrow> edit_ok t (vim_replace t a b [] r)"
  by (simp add: vim_replace_def one_edit_delete)

lemma vim_insert_ok: "cut t a \<Longrightarrow> edit_ok t (vim_replace t a a [newline] r)"
  by (simp add: vim_replace_def one_edit_insert)

lemma edit_ok_text [simp]: "edit_ok t r \<Longrightarrow> one_edit t (vr_text r)"
  by (simp add: edit_ok_def)

lemma vim_initial_ok: "edit_ok (vs_text s) (vim_initial s)" "vr_text (vim_initial s) = vs_text s"
  by (simp_all add: edit_ok_def vim_initial_def Let_def min_def max_def)

lemma vim_operator_ok:
  assumes c: "cut t c" and r: "vr_text r = t" "edit_ok t r"
  shows "edit_ok t (vim_operator t c p key r)"
proof -
  from c have le: "c \<le> length t" by (simp add: cut_def)
  note l = lineStart_cut [OF le]
  note w = wordForward_ge [OF le] wordForward_cut [OF c]
  have "cut t 0" by (simp add: cut_def)
  then show ?thesis
    using l w c r by (auto simp: vim_operator_def Let_def intro!: vim_delete_ok)
qed

lemma vim_simple_ok:
  assumes c: "cut t c" and r: "vr_text r = t" "edit_ok t r"
  shows "edit_ok t (vim_simple t c key r)"
proof -
  from c have le: "c \<le> length t" by (simp add: cut_def)
  note l = lineStart_cut [OF le]
  have "c \<le> nextScalar t c" using nextScalar_more [of c t] le by (auto simp: nextScalar_def)
  then have x: "edit_ok t (vim_replace t c (nextScalar t c) [] r)"
    using c by (intro vim_delete_ok) auto
  have v: "edit_ok t (vim_vertical t c key r)"
    using r by (simp add: vim_vertical_def Let_def)
  have i: "one_edit t (take a t @ newline # drop a t)" if "cut t a" for a
    using that by (rule one_edit_insert)
  from l x v i r show ?thesis
    by (simp add: vim_simple_def Let_def vim_insert_ok del: vim_replace_simps(1))
qed

lemma active_edge_cut: "edit_ok t r \<Longrightarrow> vr_text r = t \<Longrightarrow> cut t (active_edge r)"
  by (simp add: edit_ok_def active_edge_def)

lemma reduce_ok: "edit_ok (vs_text s) (reduceVimEdit s k)"
proof -
  let ?r = "vim_initial s" and ?t = "vs_text s"
  have ok: "edit_ok ?t ?r" "vr_text ?r = ?t" by (rule vim_initial_ok)+
  then have c: "cut ?t (active_edge ?r)" by (rule active_edge_cut)
  have "edit_ok ?t (vim_normal ?t (vk_key k) ?r)"
    unfolding vim_normal_def Let_def
    using vim_operator_ok [OF c] vim_simple_ok [OF c] ok by (auto split: option.split)
  with ok show ?thesis by (simp add: reduceVimEdit_def Let_def)
qed

section \<open>Lines and words as lists\<close>

lemma split_on_append_sep: "split_on x (a @ x # b) = split_on x a @ split_on x b"
  by (induction a) (auto split: list.splits)

lemma split_on_free: "x \<notin> set a \<Longrightarrow> split_on x a = [a]"
  by (induction a) auto

lemma split_on_join: "x \<notin> set b \<Longrightarrow> split_on x (b @ x # c) = b # split_on x c"
  by (simp add: split_on_append_sep split_on_free)

lemma length_split_on_count: "length (split_on x a) = Suc (count_list a x)"
  by (induction a) (auto split: list.splits)

lemma split_on_last: "split_on x (a @ [x]) = split_on x a @ [[]]"
  using split_on_append_sep [of x a "[]"] by simp

text \<open>
  The lines before and after the line of an offset; what replaces that line is split between them.
\<close>

lemma around_line_lines:
  assumes "around_line t c before line rest"
  obtains xs ys where
    "\<And>m. split_on newline (before @ m @ rest) = xs @ split_on newline m @ ys"
    "split_on newline t = xs @ line # ys" "count_list (take c t) newline = length xs"
    "before = [] \<and> xs = [] \<or> (\<exists>b. before = b @ [newline] \<and> xs = split_on newline b)"
    "rest = [] \<and> ys = [] \<or> (\<exists>r. rest = newline # r \<and> ys = split_on newline r)"
proof -
  from assms have t: "t = before @ line @ rest" and l: "newline \<notin> set line"
    and b: "before = [] \<or> last before = newline" and r: "rest = [] \<or> hd rest = newline"
    and c: "length before \<le> c" "c \<le> length before + length line"
    by (auto simp: around_line_def)
  define xs where "xs = (if before = [] then [] else split_on newline (butlast before))"
  define ys where "ys = (if rest = [] then [] else split_on newline (tl rest))"
  have b': "before = [] \<and> xs = [] \<or> (\<exists>b. before = b @ [newline] \<and> xs = split_on newline b)"
    using b by (cases before rule: rev_cases) (auto simp: xs_def)
  have r': "rest = [] \<and> ys = [] \<or> (\<exists>r. rest = newline # r \<and> ys = split_on newline r)"
    using r by (cases rest) (auto simp: ys_def)
  have m: "split_on newline (before @ m @ rest) = xs @ split_on newline m @ ys" for m
    using b' r' by (auto simp: split_on_append_sep)
  have "take c t = before @ take (c - length before) line" using t c by simp
  moreover have "newline \<notin> set (take (c - length before) line)" using l in_set_takeD by metis
  ultimately have "count_list (take c t) newline = count_list before newline"
    by (simp add: count_list_append count_list_0_iff)
  also have "\<dots> = length xs"
    using b' by (auto simp: length_split_on_count count_list_append)
  finally show thesis
    using that [of xs ys] m b' r' t l split_on_free [OF l] by auto
qed

lemma white_not_surrogate: "white_space u \<Longrightarrow> \<not> isHighSurrogate u \<and> \<not> isLowSurrogate u"
  by (auto simp: white_space_def isHighSurrogate_def isLowSurrogate_def word_le_nat_alt)

lemma slice_scalar:
  "i < length t \<Longrightarrow> slice t i (nextScalar t i) = (if astral_at t i then [t ! i, t ! Suc i] else [t ! i])"
  by (auto simp: slice_def nextScalar_def astral_at_def Cons_nth_drop_Suc [symmetric])

lemma whitespace_unit: "i < length t \<Longrightarrow> whitespace t i = white_space (t ! i)"
  by (auto simp: whitespace_def slice_scalar astral_at_def dest: white_not_surrogate)

lemma skip_white: "skip_forward whitespace t i = i + length (takeWhile white_space (drop i t))"
proof (induction "whitespace" t i rule: skip_forward.induct)
  case (1 t i)
  show ?case
  proof (cases "i < length t \<and> white_space (t ! i)")
    case True
    then have "nextScalar t i = Suc i"
      by (auto simp: nextScalar_def astral_at_def dest: white_not_surrogate)
    with True 1 show ?thesis
      by (subst skip_forward.simps) (simp add: whitespace_unit Cons_nth_drop_Suc [symmetric])
  next
    case False
    then show ?thesis
      by (subst skip_forward.simps)
        (cases "i < length t", auto simp: whitespace_unit Cons_nth_drop_Suc [symmetric])
  qed
qed

lemma skip_word:
  "skip_forward not_whitespace t i = i + length (takeWhile (\<lambda>u. \<not> white_space u) (drop i t))"
proof (induction "not_whitespace" t i rule: skip_forward.induct)
  case (1 t i)
  show ?case
  proof (cases "i < length t \<and> \<not> white_space (t ! i)")
    case True
    show ?thesis
    proof (cases "astral_at t i")
      case False
      then have "nextScalar t i = Suc i" using True by (simp add: nextScalar_def)
      with True 1 show ?thesis
        by (subst skip_forward.simps)
          (simp add: not_whitespace_def whitespace_unit Cons_nth_drop_Suc [symmetric])
    next
      case astral: True
      then have n: "nextScalar t i = Suc (Suc i)" and d: "drop i t = t ! i # t ! Suc i # drop (Suc (Suc i)) t"
        using True by (auto simp: nextScalar_def astral_at_def Cons_nth_drop_Suc)
      have "\<not> white_space (t ! Suc i)" using astral white_not_surrogate by (auto simp: astral_at_def)
      with True 1 n d show ?thesis
        by (subst skip_forward.simps) (simp add: not_whitespace_def whitespace_unit)
    qed
  next
    case False
    then show ?thesis
      by (subst skip_forward.simps)
        (cases "i < length t", auto simp: not_whitespace_def whitespace_unit Cons_nth_drop_Suc [symmetric])
  qed
qed

text \<open>What is left after the word and the blanks at an offset.\<close>

lemma drop_wordForward:
  "drop (wordForward t c) t = dropWhile white_space (dropWhile (\<lambda>u. \<not> white_space u) (drop c t))"
  unfolding wordForward_def skip_white skip_word
  by (simp add: dropWhile_eq_drop add.commute)

lemma previousScalar_eq:
  "0 < i \<Longrightarrow> i \<le> length t \<Longrightarrow>
     previousScalar t i = (if 2 \<le> i \<and> isHighSurrogate (t ! (i - 2)) \<and> isLowSurrogate (t ! (i - 1))
                           then i - 2 else i - 1)"
  by (auto simp: previousScalar_def scalarBoundary_at min_def numeral_2_eq_2)

lemma take_pred: "0 < i \<Longrightarrow> i \<le> length t \<Longrightarrow> take i t = take (i - 1) t @ [t ! (i - 1)]"
  by (metis Suc_pred' less_eq_Suc_le take_Suc_conv_app_nth)

lemma takeWhile_length_le: "length (takeWhile P xs) \<le> length xs"
  by (rule length_takeWhile_le)

lemma skip_white_backward:
  "i \<le> length t \<Longrightarrow>
     rev (take (skip_backward whitespace t i) t) = dropWhile white_space (rev (take i t))"
proof (induction "whitespace" t i rule: skip_backward.induct)
  case (1 t i)
  show ?case
  proof (cases "0 < i")
    case True
    with "1.prems" have i: "i - 1 < length t" by simp
    note tk = take_pred [OF True "1.prems"]
    show ?thesis
    proof (cases "white_space (t ! (i - 1))")
      case white: True
      then have p: "previousScalar t i = i - 1"
        using True "1.prems" by (auto simp: previousScalar_eq dest: white_not_surrogate)
      with white i True 1 tk show ?thesis
        by (subst skip_backward.simps) (simp add: whitespace_unit)
    next
      case black: False
      have "\<not> whitespace t (previousScalar t i)"
        using True "1.prems" black i
        by (auto simp: previousScalar_eq whitespace_unit dest: white_not_surrogate)
      with black tk show ?thesis by (subst skip_backward.simps) simp
    qed
  next
    case False
    then show ?thesis by (subst skip_backward.simps) simp
  qed
qed

lemma skip_word_backward:
  "i \<le> length t \<Longrightarrow>
     rev (take (skip_backward not_whitespace t i) t)
       = dropWhile (\<lambda>u. \<not> white_space u) (rev (take i t))"
proof (induction "not_whitespace" t i rule: skip_backward.induct)
  case (1 t i)
  show ?case
  proof (cases "0 < i")
    case True
    with "1.prems" have i: "i - 1 < length t" by simp
    note tk = take_pred [OF True "1.prems"]
    show ?thesis
    proof (cases "2 \<le> i \<and> isHighSurrogate (t ! (i - 2)) \<and> isLowSurrogate (t ! (i - 1))")
      case pair: True
      then have p: "previousScalar t i = i - 2" using True "1.prems" by (simp add: previousScalar_eq)
      have n: "not_whitespace t (i - 2)" "\<not> white_space (t ! (i - 2))" "\<not> white_space (t ! (i - 1))"
        using pair i white_not_surrogate by (auto simp: not_whitespace_def whitespace_unit)
      have "take (i - 1) t = take (i - 2) t @ [t ! (i - 2)]"
        using take_pred [of "i - 1" t] pair i by (simp add: numeral_2_eq_2)
      with tk p n True pair 1 show ?thesis by (subst skip_backward.simps) simp
    next
      case False
      then have p: "previousScalar t i = i - 1" using True "1.prems" by (auto simp: previousScalar_eq)
      with i True 1 tk show ?thesis
        by (subst skip_backward.simps) (simp add: not_whitespace_def whitespace_unit)
    qed
  next
    case False
    then show ?thesis by (subst skip_backward.simps) simp
  qed
qed

lemma skip_backward_le: "skip_backward P t i \<le> i"
proof (induction P t i rule: skip_backward.induct)
  case (1 P t i)
  show ?case
    using 1 previousScalar_less [of i t] by (subst skip_backward.simps) (auto split: if_splits)
qed

lemma take_wordBackward:
  "c \<le> length t \<Longrightarrow>
     rev (take (wordBackward t c) t)
       = dropWhile (\<lambda>u. \<not> white_space u) (dropWhile white_space (rev (take c t)))"
  unfolding wordBackward_def
  using skip_backward_le [of whitespace t c] by (simp add: skip_word_backward skip_white_backward)

lemma skip_backward_cut: "cut t i \<Longrightarrow> cut t (skip_backward P t i)"
proof (induction P t i rule: skip_backward.induct)
  case (1 P t i)
  then show ?case by (subst skip_backward.simps) (simp add: previousScalar_def)
qed

lemma wordBackward_cut: "cut t i \<Longrightarrow> cut t (wordBackward t i)"
  by (simp add: wordBackward_def skip_backward_cut)

section \<open>Properties\<close>

text \<open>A plain key press: no modifier, no composition.\<close>

definition plain_key :: "string \<Rightarrow> vimKey" where
  "plain_key s = \<lparr>vk_key = ascii s, vk_isComposing = False, vk_ctrlKey = False,
                  vk_metaKey = False, vk_altKey = False\<rparr>"

text \<open>Which keys the reducer consumes.\<close>

lemma vim_consumed [simp]:
  "vr_consumed (vim_operator t c p key r) = vr_consumed r"
  "vr_consumed (vim_simple t c key r) = vr_consumed r"
  by (simp_all add: vim_operator_def vim_simple_def vim_vertical_def Let_def)

lemma vim_normal_consumed:
  "vr_consumed (vim_normal t key r) \<longleftrightarrow> \<not> (vr_pending r = None \<and> is_key ''!'' key \<and> t = [])"
  by (simp add: vim_normal_def Let_def split: option.split)

lemma single_key: "length (scalars key) = 1 \<Longrightarrow> \<not> is_key ''Enter'' key \<and> \<not> is_key ''Escape'' key"
proof -
  have "length (scalars (ascii ''Enter'')) \<noteq> 1" "length (scalars (ascii ''Escape'')) \<noteq> 1" by code_simp+
  then show "length (scalars key) = 1 \<Longrightarrow> \<not> is_key ''Enter'' key \<and> \<not> is_key ''Escape'' key"
    by (auto simp: is_key_def)
qed

lemma normal_key_consumed:
  assumes "vs_mode s = Normal" and "\<not> native_key s k" and "length (scalars (vk_key k)) = 1"
  shows "vr_consumed (reduceVimEdit s k)
     \<or> vs_pending s = None \<and> is_key ''!'' (vk_key k) \<and> vs_text s = [] \<and> vr_mode (reduceVimEdit s k) = Insert"
  using assms single_key [OF assms(3)]
  by (auto simp: reduceVimEdit_def Let_def vim_normal_consumed vim_initial_def) (simp add: vim_normal_def)

lemma unconsumed_keeps_text: "\<not> vr_consumed (reduceVimEdit s k) \<Longrightarrow> vr_text (reduceVimEdit s k) = vs_text s"
  by (auto simp: reduceVimEdit_def Let_def vim_normal_consumed vim_initial_ok split: if_splits)
    (simp_all add: vim_normal_def vim_initial_ok Let_def)

text \<open>
  C31: Whatever key arrives, with the caret or selection wherever the browser put it: a text without
  lone surrogates keeps none, both selection ends stay outside every surrogate pair and in order,
  and the reducer changes the text at most by the removal of one range of whole scalars or by one
  newline, and only for a key that it consumes. In Normal mode it consumes every key of one
  character that is not the browser's own, so none types itself into the draft, with one exception:
  \<open>!\<close> on an empty draft with no operator pending is typed, in Insert mode.
\<close>
theorem vim_keeps_scalars_whole:
  fixes k :: vimKey
  assumes "wf_utf16 (vs_text s)"
  defines "r \<equiv> reduceVimEdit s k"
  shows "wf_utf16 (vr_text r) \<and> cut (vr_text r) (vr_selectionStart r)
         \<and> cut (vr_text r) (vr_selectionEnd r) \<and> vr_selectionStart r \<le> vr_selectionEnd r
         \<and> one_edit (vs_text s) (vr_text r) \<and> (vr_consumed r \<or> vr_text r = vs_text s)
         \<and> (vs_mode s = Normal \<and> \<not> native_key s k \<and> length (scalars (vk_key k)) = 1 \<longrightarrow>
              vr_consumed r
              \<or> vs_pending s = None \<and> is_key ''!'' (vk_key k) \<and> vs_text s = [] \<and> vr_mode r = Insert)"
proof -
  from reduce_ok [of s k] have ok: "edit_ok (vs_text s) r" by (simp add: r_def)
  then obtain a b x where "cut (vs_text s) a" "cut (vs_text s) b" "x = [] \<or> x = [newline]"
    "vr_text r = take a (vs_text s) @ x @ drop b (vs_text s)"
    by (auto simp: edit_ok_def one_edit_def)
  with wf_cut [OF assms(1)] have "wf_utf16 (vr_text r)" by (auto intro!: wf_append)
  moreover have "vr_consumed r \<or> vr_text r = vs_text s"
    using unconsumed_keeps_text unfolding r_def by blast
  ultimately show ?thesis
    using ok normal_key_consumed [of s k] unfolding r_def [symmetric] by (simp add: edit_ok_def)
qed

text \<open>The draft \<open>A\<close>, an emoji and \<open>B\<close>, with the caret inside the emoji's surrogate pair.\<close>

definition emoji_draft :: vimEditSnapshot where
  "emoji_draft = \<lparr>vs_enabled = True, vs_text = [65, 0xd83d, 0xde00, 66],
     vs_selectionStart = offset_at 2, vs_selectionEnd = offset_at 2, vs_selectionDirection = None,
     vs_mode = Normal, vs_pending = None\<rparr>"

lemma vim_keeps_scalars_whole_witness:
  "wf_utf16 (vr_text (reduceVimEdit emoji_draft (plain_key ''x'')))
   \<and> vr_consumed (reduceVimEdit emoji_draft (plain_key ''x''))
   \<and> vr_text (reduceVimEdit emoji_draft (plain_key ''x'')) = [65, 66]"
proof (intro conjI)
  have w: "wf_utf16 (vs_text emoji_draft)" by code_simp
  have "vs_text emoji_draft \<noteq> []" "vs_mode emoji_draft = Normal" by (simp_all add: emoji_draft_def)
  moreover have "\<not> native_key emoji_draft (plain_key ''x'')"
    "length (scalars (vk_key (plain_key ''x''))) = 1" by code_simp+
  ultimately show "wf_utf16 (vr_text (reduceVimEdit emoji_draft (plain_key ''x'')))"
    "vr_consumed (reduceVimEdit emoji_draft (plain_key ''x''))"
    using vim_keeps_scalars_whole [OF w, of "plain_key ''x''"] by blast+
  show "vr_text (reduceVimEdit emoji_draft (plain_key ''x'')) = [65, 66]" by code_simp
qed

text \<open>Normal mode with Vim on, ready for the second key of an operator or the first of another.\<close>

definition ready :: "vimEditSnapshot \<Rightarrow> operator option \<Rightarrow> bool" where
  "ready s p = (vs_enabled s \<and> vs_mode s = Normal \<and> vs_pending s = p)"

definition caret_of :: "vimEditSnapshot \<Rightarrow> nat" where
  "caret_of s = active_edge (vim_initial s)"

definition press :: "vimEditSnapshot \<Rightarrow> string \<Rightarrow> vimEditResult" where
  "press s key = reduceVimEdit s (plain_key key)"

lemma caret_cut: "cut (vs_text s) (caret_of s)"
  unfolding caret_of_def by (rule active_edge_cut) (rule vim_initial_ok)+

lemma press_normal:
  assumes "ready s p" and "key \<in> {''w'', ''b'', ''d'', ''c'', ''o'', ''O''}"
  shows "press s key = vim_normal (vs_text s) (ascii key) (vim_initial s)"
proof -
  have k: "\<not> is_key ''Enter'' (ascii key)" "\<not> is_key ''Escape'' (ascii key)"
    "length (scalars (ascii key)) = 1"
    "ascii key \<notin> set (map ascii [''Process'', ''Dead'', ''Unidentified''])"
    using assms(2) by (elim insertE emptyE; clarify; code_simp)+
  have "vr_mode (vim_initial s) = Normal" using assms(1) by (simp add: ready_def vim_initial_def Let_def)
  with k assms(1) show ?thesis
    by (simp add: press_def plain_key_def reduceVimEdit_def native_key_def ready_def Let_def)
qed

lemma press_operator:
  assumes "ready s (Some p)" and "key \<in> {''w'', ''d'', ''c''}"
  shows "press s key = vim_operator (vs_text s) (caret_of s) p (ascii key)
           ((vim_initial s)\<lparr>vr_consumed := True, vr_pending := None\<rparr>)"
  using assms press_normal [of s "Some p" key]
  by (auto simp: vim_normal_def ready_def caret_of_def vim_initial_def Let_def)

lemma press_simple:
  assumes "ready s None" and "key \<in> {''w'', ''b'', ''o'', ''O''}"
  shows "press s key = vim_simple (vs_text s) (caret_of s) (ascii key)
           ((vim_initial s)\<lparr>vr_consumed := True, vr_pending := None\<rparr>)"
proof -
  have "\<not> is_key ''!'' (ascii key)" using assms(2) by (elim insertE emptyE; clarify; code_simp)+
  with assms press_normal [of s None key] show ?thesis
    by (auto simp: vim_normal_def ready_def caret_of_def vim_initial_def Let_def)
qed

lemmas key_tests = is_key_def ascii_def code_unit_def

text \<open>
  C32: The line operators edit the list of lines: \<open>dd\<close> removes the caret's line (the last one leaves
  an empty draft), \<open>cc\<close> empties it, \<open>o\<close> and \<open>O\<close> insert an empty line below and above it; no
  other line changes.
\<close>
theorem line_operators_edit_lines:
  fixes s :: vimEditSnapshot
  defines "ls \<equiv> split_on newline (vs_text s)"
    and "n \<equiv> count_list (take (caret_of s) (vs_text s)) newline"
  shows "(ready s (Some OpD) \<longrightarrow> split_on newline (vr_text (press s ''d''))
            = (if length ls = 1 then [[]] else remove_at n ls))
    \<and> (ready s (Some OpC) \<longrightarrow> split_on newline (vr_text (press s ''c'')) = ls[n := []])
    \<and> (ready s None \<longrightarrow>
         split_on newline (vr_text (press s ''o'')) = take (Suc n) ls @ [] # drop (Suc n) ls
         \<and> split_on newline (vr_text (press s ''O'')) = take n ls @ [] # drop n ls)"
proof -
  let ?t = "vs_text s" and ?c = "caret_of s"
  from caret_cut [of s] have "?c \<le> length ?t" by (simp add: cut_def)
  from around_line_exists [OF this] obtain before line rest
    where a: "around_line ?t ?c before line rest" by blast
  note o' = around_line_offsets [OF a]
  from a have t: "?t = before @ line @ rest" and free: "newline \<notin> set line"
    by (auto simp: around_line_def)
  obtain xs ys where m: "\<And>m. split_on newline (before @ m @ rest) = xs @ split_on newline m @ ys"
    and ls: "split_on newline ?t = xs @ line # ys" and n: "count_list (take ?c ?t) newline = length xs"
    and b: "before = [] \<and> xs = [] \<or> (\<exists>b. before = b @ [newline] \<and> xs = split_on newline b)"
    and r: "rest = [] \<and> ys = [] \<or> (\<exists>r. rest = newline # r \<and> ys = split_on newline r)"
    by (rule around_line_lines [OF a]) blast
  have line: "ls = xs @ line # ys" "n = length xs" using ls n by (simp_all add: ls_def n_def)
  have dd: "split_on newline (vr_text (press s ''d'')) = (if xs @ ys = [] then [[]] else xs @ ys)"
    if d: "ready s (Some OpD)"
  proof -
    have "vr_text (press s ''d'') =
        (if rest \<noteq> [] then before @ tl rest else if before \<noteq> [] then butlast before else [])"
      using d o' t
      by (cases rest) (auto simp: press_operator vim_operator_def key_tests Let_def butlast_conv_take)
    with b r show ?thesis by (auto simp: split_on_append_sep)
  qed
  have cc: "split_on newline (vr_text (press s ''c'')) = xs @ [[]] @ ys" if c: "ready s (Some OpC)"
    using c o' t m [of "[]"] by (simp add: press_operator vim_operator_def key_tests Let_def)
  have oo: "split_on newline (vr_text (press s ''o'')) = xs @ [line, []] @ ys"
    "split_on newline (vr_text (press s ''O'')) = xs @ [[], line] @ ys" if c: "ready s None"
    using c o' t m [of "line @ [newline]"] m [of "newline # line"] free
    by (simp_all add: press_simple vim_simple_def key_tests Let_def split_on_last split_on_free)
  have "(if xs @ ys = [] then [[]] else xs @ ys) = (if length ls = 1 then [[]] else remove_at n ls)"
    by (auto simp: line)
  moreover have "xs @ [[]] @ ys = ls[n := []]" by (simp add: line)
  moreover have "xs @ [line, []] @ ys = take (Suc n) ls @ [] # drop (Suc n) ls"
    "xs @ [[], line] @ ys = take n ls @ [] # drop n ls" by (simp_all add: line)
  ultimately show ?thesis using dd cc oo by (intro conjI impI) simp_all
qed

text \<open>Two lines, with the caret in the second.\<close>

definition two_lines :: "operator option \<Rightarrow> vimEditSnapshot" where
  "two_lines p = \<lparr>vs_enabled = True, vs_text = ascii ''ab'' @ newline # ascii ''cd'',
     vs_selectionStart = offset_at 4, vs_selectionEnd = offset_at 4, vs_selectionDirection = None,
     vs_mode = Normal, vs_pending = p\<rparr>"

lemma line_operators_edit_lines_witness:
  "split_on newline (vr_text (press (two_lines (Some OpD)) ''d'')) = [ascii ''ab'']"
proof -
  have "ready (two_lines (Some OpD)) (Some OpD)" by code_simp
  then have "split_on newline (vr_text (press (two_lines (Some OpD)) ''d''))
      = (let ls = split_on newline (vs_text (two_lines (Some OpD)));
             n = count_list (take (caret_of (two_lines (Some OpD))) (vs_text (two_lines (Some OpD)))) newline
         in if length ls = 1 then [[]] else remove_at n ls)"
    using line_operators_edit_lines [of "two_lines (Some OpD)"] by (simp add: Let_def)
  also have "\<dots> = [ascii ''ab'']" by code_simp
  finally show ?thesis .
qed

text \<open>
  The word operators agree with the list reading of a word: \<open>w\<close> moves past the rest of the word
  and the blanks after it, \<open>dw\<close> deletes exactly what \<open>w\<close> crosses, and \<open>b\<close> moves back over
  blanks and then to the start of the word before them.
\<close>
theorem word_operators_follow_words:
  fixes s :: vimEditSnapshot
  defines "front \<equiv> take (caret_of s) (vs_text s)" and "behind \<equiv> drop (caret_of s) (vs_text s)"
  shows "(ready s None \<longrightarrow>
           drop (vr_selectionEnd (press s ''w'')) (vs_text s)
             = dropWhile white_space (dropWhile (\<lambda>u. \<not> white_space u) behind)
         \<and> rev (take (vr_selectionEnd (press s ''b'')) (vs_text s))
             = dropWhile (\<lambda>u. \<not> white_space u) (dropWhile white_space (rev front)))
    \<and> (ready s (Some OpD) \<longrightarrow>
         vr_text (press s ''w'') = front @ dropWhile white_space (dropWhile (\<lambda>u. \<not> white_space u) behind))"
proof -
  let ?t = "vs_text s" and ?c = "caret_of s"
  have c: "cut ?t ?c" by (rule caret_cut)
  then have le: "?c \<le> length ?t" by (simp add: cut_def)
  have fixed: "scalarBoundary ?t (offset_at n) = n" if "cut ?t n" for n
    using that by (auto simp: scalarBoundary_at cut_def)
  have end': "vr_selectionEnd (vim_move n r) = n" if "cut ?t n" "vr_text r = ?t" for n r
    using that by (simp add: vim_move_def fixed Let_def)
  note ends = end' [OF wordForward_cut [OF c]] end' [OF wordBackward_cut [OF c]]
  have same: "vr_text (vim_initial s) = ?t" by (rule vim_initial_ok)
  show ?thesis
    using drop_wordForward [of ?t ?c] take_wordBackward [OF le] ends same
    by (simp add: press_simple press_operator vim_simple_def vim_operator_def key_tests Let_def
        front_def behind_def)
qed

lemma word_operators_follow_words_witness:
  "vr_text (press (two_lines (Some OpD)) ''w'') = ascii ''ab'' @ newline # ascii ''c''"
proof -
  let ?s = "two_lines (Some OpD)"
  have "ready ?s (Some OpD)" by code_simp
  then have "vr_text (press ?s ''w'') = take (caret_of ?s) (vs_text ?s)
      @ dropWhile white_space (dropWhile (\<lambda>u. \<not> white_space u) (drop (caret_of ?s) (vs_text ?s)))"
    using word_operators_follow_words [of ?s] by simp
  also have "\<dots> = ascii ''ab'' @ newline # ascii ''c''" by code_simp
  finally show ?thesis .
qed

end
