(* ===== verification/HistoryResults.thy ===== *)
theory HistoryResults
  imports Hydrate
begin

text \<open>
  The history commands of \<open>packages/client/src/history.ts\<close> (workspace snapshots, rewind, fork,
  native review): the decoders of their results, the requests they build, and the checks around
  the call. The transport is not modelled: a command is what it sends and what it makes of the
  answer.
\<close>

abbreviation "M_SNAPSHOT_LIST \<equiv> ''snapshot/list''"
abbreviation "M_SNAPSHOT_RESTORE \<equiv> ''snapshot/restore''"
abbreviation "M_SESSION_OPEN \<equiv> ''session/open''"
abbreviation "M_SESSION_HYDRATE \<equiv> ''session/hydrate''"
abbreviation "M_SESSION_ROLLBACK \<equiv> ''session/rollback''"
abbreviation "M_SESSION_FORK \<equiv> ''session/fork''"
abbreviation "M_REVIEW_START \<equiv> ''review/start''"
abbreviation "F_REVIEW_START_V1 \<equiv> ''review.start.v1''"

section \<open>Results\<close>

record workspaceSnapshot =
  ws_id :: string
  ws_label :: string
  ws_timestamp_unix :: nat
  ws_turn_id :: "string option"

record snapshotList =
  sl_session_id :: string
  sl_enabled :: bool
  sl_available :: bool
  sl_snapshots :: "workspaceSnapshot list"

record snapshotRestore =
  sr_session_id :: string
  sr_restored :: string
  sr_snapshots :: "workspaceSnapshot list"

record rollbackResult =
  rb_dropped_turns :: nat
  rb_thread :: sessionHydrateResult

record forkResult =
  fk_new_session_id :: string
  fk_parent_session_id :: string
  fk_copied_messages :: nat

record reviewStartResult =
  rv_accepted :: bool
  rv_session_id :: string
  rv_turn_id :: string
  rv_agent_count :: nat

definition u32 :: "nat \<Rightarrow> bool" where
  "u32 n = (n \<le> 0xffffffff)"

text \<open>The bytes \<open>TextEncoder\<close> makes of code units below 256.\<close>

definition utf8_length :: "string \<Rightarrow> nat" where
  "utf8_length s = sum_list (map (\<lambda>c. if code_unit c < 128 then 1 else 2) s)"

definition validForkChatId :: "string \<Rightarrow> bool" where
  "validForkChatId value =
     (length value > 0 \<and> utf8_length value \<le> 50
      \<and> \<not> list_ex (\<lambda>c. c \<in> set ''#:/'' \<or> js_control c) value
      \<and> to_lower value \<noteq> ''default'')"

definition bounded_id :: "unknown \<Rightarrow> string option" where
  "bounded_id v =
     (case as_string v of
        None \<Rightarrow> None
      | Some s \<Rightarrow> if length s > 0 \<and> length s \<le> 2048 then Some s else None)"

definition snapshot_row :: "json \<Rightarrow> workspaceSnapshot option" where
  "snapshot_row row =
     (case as_record (Some row) of
        None \<Rightarrow> None
      | Some o' \<Rightarrow>
          (case (bounded_id (fld o' ''id''), as_string (fld o' ''label''),
                 nonneg_int (fld o' ''timestamp_unix'')) of
             (Some i, Some label, Some t) \<Rightarrow>
               if fld o' ''turn_id'' \<noteq> None \<and> bounded_id (fld o' ''turn_id'') = None then None
               else Some \<lparr>ws_id = i, ws_label = take 512 label, ws_timestamp_unix = t,
                          ws_turn_id = as_string (fld o' ''turn_id'')\<rparr>
           | _ \<Rightarrow> None))"

text \<open>The loop: an invalid row refuses the list, a repeated id is skipped.\<close>

fun snapshot_loop :: "json list \<Rightarrow> string set \<Rightarrow> workspaceSnapshot list option" where
  "snapshot_loop [] ids = Some []"
| "snapshot_loop (row # rest) ids =
     (case snapshot_row row of
        None \<Rightarrow> None
      | Some r \<Rightarrow>
          if ws_id r \<in> ids then snapshot_loop rest ids
          else map_option (\<lambda>rows. r # rows) (snapshot_loop rest (insert (ws_id r) ids)))"

definition snapshotRows :: "unknown \<Rightarrow> workspaceSnapshot list option" where
  "snapshotRows value =
     (case as_array value of
        None \<Rightarrow> None
      | Some rows \<Rightarrow> if length rows > 10000 then None else snapshot_loop rows {})"

definition parseSnapshotList :: "unknown \<Rightarrow> string \<Rightarrow> snapshotList option" where
  "parseSnapshotList value sessionId =
     (case as_record value of
        None \<Rightarrow> None
      | Some o' \<Rightarrow>
          if fld o' ''session_id'' \<noteq> Some (JStr sessionId) then None
          else (case (as_bool (fld o' ''enabled''), as_bool (fld o' ''available''),
                      snapshotRows (fld o' ''snapshots'')) of
                  (Some e, Some a, Some rows) \<Rightarrow>
                    Some \<lparr>sl_session_id = sessionId, sl_enabled = e, sl_available = a,
                          sl_snapshots = rows\<rparr>
                | _ \<Rightarrow> None))"

definition parseSnapshotRestore :: "unknown \<Rightarrow> string \<Rightarrow> string \<Rightarrow> snapshotRestore option" where
  "parseSnapshotRestore value sessionId snapshotId =
     (case as_record value of
        None \<Rightarrow> None
      | Some o' \<Rightarrow>
          if fld o' ''session_id'' \<noteq> Some (JStr sessionId)
             \<or> fld o' ''restored'' \<noteq> Some (JStr snapshotId) then None
          else map_option (\<lambda>rows. \<lparr>sr_session_id = sessionId, sr_restored = snapshotId,
                                     sr_snapshots = rows\<rparr>)
                 (snapshotRows (fld o' ''snapshots'')))"

definition parseRollbackResult :: "unknown \<Rightarrow> string \<Rightarrow> rollbackResult option" where
  "parseRollbackResult value sessionId =
     (case as_record value of
        None \<Rightarrow> None
      | Some o' \<Rightarrow>
          (case (nonneg_int (fld o' ''dropped_turns''),
                 parseSessionHydrateResult (fld o' ''thread'')) of
             (Some n, Some thread) \<Rightarrow>
               if hr_session_id thread = sessionId
               then Some \<lparr>rb_dropped_turns = n, rb_thread = thread\<rparr> else None
           | _ \<Rightarrow> None))"

definition parseForkResult :: "unknown \<Rightarrow> string \<Rightarrow> forkResult option" where
  "parseForkResult value sessionId =
     (case as_record value of
        None \<Rightarrow> None
      | Some o' \<Rightarrow>
          if fld o' ''parent_session_id'' \<noteq> Some (JStr sessionId) then None
          else (case (bounded_id (fld o' ''new_session_id''), nonneg_int (fld o' ''copied_messages'')) of
                  (Some new, Some n) \<Rightarrow>
                    if new = sessionId then None
                    else Some \<lparr>fk_new_session_id = new, fk_parent_session_id = sessionId,
                               fk_copied_messages = n\<rparr>
                | _ \<Rightarrow> None))"

definition parseReviewStartResult :: "unknown \<Rightarrow> string \<Rightarrow> string \<Rightarrow> reviewStartResult option" where
  "parseReviewStartResult value sessionId turnId =
     (case as_record value of
        None \<Rightarrow> None
      | Some o' \<Rightarrow>
          if fld o' ''session_id'' \<noteq> Some (JStr sessionId) \<or> fld o' ''turn_id'' \<noteq> Some (JStr turnId)
             \<or> fld o' ''workflow'' \<noteq> Some (JStr ''code_review'')
             \<or> fld o' ''backend'' \<noteq> Some (JStr ''native'') then None
          else (case (as_bool (fld o' ''accepted''), nonneg_int (fld o' ''agent_count'')) of
                  (Some a, Some n) \<Rightarrow>
                    Some \<lparr>rv_accepted = a, rv_session_id = sessionId, rv_turn_id = turnId,
                          rv_agent_count = n\<rparr>
                | _ \<Rightarrow> None))"

section \<open>Commands\<close>

text \<open>
  What a command sends: its method and parameters, or the message of the error it throws before
  anything is sent. \<open>validate\<close> is what it does with the decoded answer.
\<close>

type_synonym outgoing = "string + (string \<times> json)"

definition validate :: "'a option \<Rightarrow> string + 'a" where
  "validate result =
     (case result of
        None \<Rightarrow> Inl ''Invalid or wrong-session history result''
      | Some r \<Rightarrow> Inr r)"

definition available :: "uiProtocolCapabilities \<Rightarrow> string \<Rightarrow> outgoing \<Rightarrow> outgoing" where
  "available caps method request =
     (if supportsMethod (Some caps) method then request
      else Inl (method @ '' is not advertised by this server''))"

definition listSnapshots_request :: "uiProtocolCapabilities \<Rightarrow> string \<Rightarrow> outgoing" where
  "listSnapshots_request caps sessionId =
     available caps M_SNAPSHOT_LIST
       (Inr (M_SNAPSHOT_LIST, JObj [(''session_id'', JStr sessionId)]))"

definition listSnapshots_result :: "string \<Rightarrow> unknown \<Rightarrow> string + snapshotList" where
  "listSnapshots_result sessionId answer = validate (parseSnapshotList answer sessionId)"

definition restoreSnapshot_request :: "uiProtocolCapabilities \<Rightarrow> string \<Rightarrow> string \<Rightarrow> outgoing" where
  "restoreSnapshot_request caps sessionId snapshotId =
     available caps M_SNAPSHOT_RESTORE
       (if bounded_id (Some (JStr snapshotId)) = None then Inl ''A snapshot is required''
        else Inr (M_SNAPSHOT_RESTORE,
                  JObj [(''session_id'', JStr sessionId), (''snapshot_id'', JStr snapshotId)]))"

definition restoreSnapshot_result :: "string \<Rightarrow> string \<Rightarrow> unknown \<Rightarrow> string + snapshotRestore" where
  "restoreSnapshot_result sessionId snapshotId answer =
     validate (parseSnapshotRestore answer sessionId snapshotId)"

definition rewind_request :: "uiProtocolCapabilities \<Rightarrow> string \<Rightarrow> jnum \<Rightarrow> outgoing" where
  "rewind_request caps sessionId numTurns =
     available caps M_SESSION_ROLLBACK
       (case nonneg_int (Some (JNum numTurns)) of
          None \<Rightarrow> Inl ''Rewind requires a positive turn count''
        | Some n \<Rightarrow>
            if \<not> u32 n \<or> n = 0 then Inl ''Rewind requires a positive turn count''
            else Inr (M_SESSION_ROLLBACK,
                      JObj [(''session_id'', JStr sessionId), (''num_turns'', JNum numTurns)]))"

definition rewind_result :: "string \<Rightarrow> unknown \<Rightarrow> string + rollbackResult" where
  "rewind_result sessionId answer = validate (parseRollbackResult answer sessionId)"

definition fork_request :: "uiProtocolCapabilities \<Rightarrow> string \<Rightarrow> string \<Rightarrow> jnum option \<Rightarrow> outgoing" where
  "fork_request caps sessionId newChatId copyMessages =
     available caps M_SESSION_FORK
       (let copies = map_option JNum copyMessages;
            bad = (copyMessages \<noteq> None
                   \<and> (case nonneg_int copies of None \<Rightarrow> True | Some n \<Rightarrow> \<not> u32 n))
        in if \<not> validForkChatId newChatId \<or> bad then Inl ''Invalid conversation branch request''
           else Inr (M_SESSION_FORK,
                     JObj ([(''session_id'', JStr sessionId), (''new_chat_id'', JStr newChatId)]
                           @ opt_field ''copy_messages'' copies)))"

definition fork_result :: "string \<Rightarrow> unknown \<Rightarrow> string + forkResult" where
  "fork_result sessionId answer = validate (parseForkResult answer sessionId)"

definition startReview_request ::
  "uiProtocolCapabilities \<Rightarrow> string \<Rightarrow> string \<Rightarrow> string option \<Rightarrow> outgoing" where
  "startReview_request caps sessionId turnId prompt =
     available caps M_REVIEW_START
       (if \<not> supportsFeature (Some caps) F_REVIEW_START_V1
        then Inl ''Native review is not advertised by this server''
        else if \<not> isProtocolUuid (Some (JStr turnId)) then Inl ''Review requires a protocol turn UUID''
        else Inr (M_REVIEW_START,
                  JObj ([(''session_id'', JStr sessionId), (''turn_id'', JStr turnId),
                         (''delivery'', JStr ''inline'')]
                        @ opt_field ''prompt'' (map_option JStr prompt))))"

definition startReview_result :: "string \<Rightarrow> string \<Rightarrow> unknown \<Rightarrow> string + reviewStartResult" where
  "startReview_result sessionId turnId answer =
     validate (parseReviewStartResult answer sessionId turnId)"

section \<open>Snapshot rows\<close>

text \<open>The rows Core listed, each id at its first place: the reference for the loop.\<close>

fun first_rows :: "string set \<Rightarrow> workspaceSnapshot list \<Rightarrow> workspaceSnapshot list" where
  "first_rows ids [] = []"
| "first_rows ids (r # rs) =
     (if ws_id r \<in> ids then first_rows ids rs else r # first_rows (insert (ws_id r) ids) rs)"

lemma snapshot_loop_eq:
  "snapshot_loop rows ids = map_option (first_rows ids) (those (map snapshot_row rows))"
  by (induction rows ids rule: snapshot_loop.induct)
    (auto split: option.splits simp: option.map_comp comp_def)

lemma first_rows_distinct:
  "distinct (map ws_id (first_rows ids rs)) \<and> ws_id ` set (first_rows ids rs) \<inter> ids = {}"
proof (induction ids rs rule: first_rows.induct)
  case (2 ids r rs)
  then show ?case by (cases "ws_id r \<in> ids") auto
qed simp

lemma first_rows_ids: "ws_id ` set (first_rows ids rs) = ws_id ` set rs - ids"
  by (induction ids rs rule: first_rows.induct) auto

lemma first_rows_length: "length (first_rows ids rs) \<le> length rs"
  by (induction ids rs rule: first_rows.induct) auto

lemma first_rows_set: "set (first_rows ids rs) \<subseteq> set rs"
  by (induction ids rs rule: first_rows.induct) auto

text \<open>The first row with an id is the row the list keeps for it.\<close>

lemma find_first_rows:
  "i \<notin> ids \<Longrightarrow> find (\<lambda>r. ws_id r = i) (first_rows ids rs) = find (\<lambda>r. ws_id r = i) rs"
proof (induction ids rs rule: first_rows.induct)
  case (2 ids r rs)
  then show ?case by (cases "ws_id r \<in> ids"; cases "ws_id r = i") auto
qed simp

definition listed_row_ok :: "workspaceSnapshot \<Rightarrow> bool" where
  "listed_row_ok r = (0 < length (ws_id r) \<and> length (ws_id r) \<le> 2048 \<and> length (ws_label r) \<le> 512)"

definition rows_ok :: "workspaceSnapshot list \<Rightarrow> bool" where
  "rows_ok rs = (distinct (map ws_id rs) \<and> length rs \<le> 10000 \<and> list_all listed_row_ok rs)"

lemma snapshot_row_ok: "snapshot_row row = Some r \<Longrightarrow> listed_row_ok r"
  by (auto simp: snapshot_row_def listed_row_ok_def bounded_id_def split: option.splits if_splits)

lemma snapshotRows_Some:
  "snapshotRows v = Some rs \<longleftrightarrow>
     (\<exists>rows all. v = Some (JArr rows) \<and> length rows \<le> 10000 \<and> map snapshot_row rows = map Some all
        \<and> rs = first_rows {} all)"
  by (auto simp: snapshotRows_def snapshot_loop_eq those_Some split: option.splits if_splits)

lemma snapshotRows_ok:
  assumes "snapshotRows v = Some rs"
  shows "rows_ok rs"
proof -
  from assms obtain rows all where rows: "length rows \<le> 10000" "map snapshot_row rows = map Some all"
    "rs = first_rows {} all" by (auto simp: snapshotRows_Some)
  have "listed_row_ok r" if "r \<in> set all" for r
  proof -
    from that have "Some r \<in> set (map Some all)" by simp
    with rows(2) have "Some r \<in> set (map snapshot_row rows)" by simp
    then show ?thesis using snapshot_row_ok by (auto dest: sym)
  qed
  moreover have "length all \<le> 10000" using rows(1,2) by (metis length_map)
  ultimately show ?thesis
    using rows(3) first_rows_distinct [of "{}" all] first_rows_length [of "{}" all]
      first_rows_set [of "{}" all]
    by (auto simp: rows_ok_def list_all_iff)
qed

text \<open>
  An accepted \<open>snapshot/list\<close> belongs to the asked Session and lists every id once: the ids are
  those of the rows Core sent, and each is listed with the first row that names it.
\<close>
theorem snapshot_list_keeps_first_rows:
  assumes "parseSnapshotList (Some (JObj o')) sid = Some l"
  shows "\<exists>rows all. fld o' ''snapshots'' = Some (JArr rows) \<and> map snapshot_row rows = map Some all
      \<and> sl_session_id l = sid \<and> rows_ok (sl_snapshots l)
      \<and> ws_id ` set (sl_snapshots l) = ws_id ` set all
      \<and> (\<forall>i. find (\<lambda>r. ws_id r = i) (sl_snapshots l) = find (\<lambda>r. ws_id r = i) all)"
proof -
  from assms have s: "snapshotRows (fld o' ''snapshots'') = Some (sl_snapshots l)" "sl_session_id l = sid"
    by (auto simp: parseSnapshotList_def split: option.splits if_splits)
  from s(1) obtain rows all where "fld o' ''snapshots'' = Some (JArr rows)"
    "map snapshot_row rows = map Some all" "sl_snapshots l = first_rows {} all"
    by (auto simp: snapshotRows_Some)
  with s(2) snapshotRows_ok [OF s(1)] show ?thesis
    by (intro exI [of _ rows] exI [of _ all]) (simp add: first_rows_ids find_first_rows)
qed

definition sample_snapshots :: fields where
  "sample_snapshots = [(''session_id'', JStr ''s''), (''enabled'', JBool True), (''available'', JBool True),
     (''snapshots'', JArr
        [JObj [(''id'', JStr ''b''), (''label'', JStr ''pre-restore''), (''timestamp_unix'', JNum (JInt 2))],
         JObj [(''id'', JStr ''a''), (''label'', JStr ''pre-turn t''), (''timestamp_unix'', JNum (JInt 1)),
               (''turn_id'', JStr ''t'')],
         JObj [(''id'', JStr ''b''), (''label'', JStr ''again''), (''timestamp_unix'', JNum (JInt 0))]])]"

definition sample_snapshot_list :: snapshotList where
  "sample_snapshot_list = the (parseSnapshotList (Some (JObj sample_snapshots)) ''s'')"

lemma snapshot_list_keeps_first_rows_witness:
  "map ws_id (sl_snapshots sample_snapshot_list) = [''b'', ''a''] \<and> rows_ok (sl_snapshots sample_snapshot_list)"
proof -
  have "parseSnapshotList (Some (JObj sample_snapshots)) ''s'' = Some sample_snapshot_list" by code_simp
  from snapshot_list_keeps_first_rows [OF this] have "rows_ok (sl_snapshots sample_snapshot_list)" by blast
  moreover have "map ws_id (sl_snapshots sample_snapshot_list) = [''b'', ''a'']" by code_simp
  ultimately show ?thesis by simp
qed

end
