(* ===== verification/TurnUndo.thy ===== *)
theory TurnUndo
  imports HistoryResults
begin

text \<open>
  ``Undo this turn'', \<open>features/history/turn-undo.ts\<close>: the controller of the latest turn's
  undo and redo. Its asynchronous methods are cut at every \<open>await\<close> (the binding, its commands,
  the list, the restore, the refresh): a pending run is a \<open>runPhase\<close>, a pending load a
  \<open>loadPhase\<close>, and an answer is an event that carries what the awaited promise returned or threw
  and what the synchronous code after it reads from the binding (the lease's currency, the blocked
  reason).

  The tab's storage holds a parsed JSON value (\<open>None\<close>: no item, or one that \<open>JSON.parse\<close>
  refuses); other pages and controllers may replace it between any two events. The scopes it is
  keyed by are themselves JSON texts, so the key order of a JavaScript object is insertion order.
\<close>

section \<open>Types\<close>

datatype undoAction = Undo | Redo

datatype failureKind =
  Blocked | Gone | Moved | Unsent | Conflict | Running | Refused | Uncertain | Refresh

record undoFailure =
  uf_action :: undoAction
  uf_kind :: failureKind
  uf_detail :: string

datatype undoStatus = SChecking | SHidden | SMissing | SReady | SUndone | SMoved

datatype redoState = RedoOk | RedoGone | RedoUnclear

record turnUndoView =
  uv_status :: undoStatus
  uv_busy :: "undoAction option"
  uv_failure :: "undoFailure option"
  uv_done :: "undoAction option"
  uv_redo :: redoState

text \<open>\<open>tr_undone\<close>: \<open>None\<close> is \<open>null\<close>, \<open>Some back\<close> an undone turn with its way back, if known.\<close>

record turnRecord =
  tr_turnId :: string
  tr_undone :: "string option option"
  tr_own :: "string list"

definition max_records :: nat where
  "max_records = 50"

definition initial_view :: turnUndoView where
  "initial_view = \<lparr>uv_status = SChecking, uv_busy = None, uv_failure = None, uv_done = None,
                   uv_redo = RedoOk\<rparr>"

text \<open>What a \<open>catch\<close> receives: a protocol error with its \<open>data\<close>, another \<open>Error\<close>, or a value.\<close>

datatype cause = ProtocolError string unknown | PlainError string | OtherValue

definition errorText :: "cause \<Rightarrow> string" where
  "errorText c = take 512
     (case c of
        ProtocolError m _ \<Rightarrow> m
      | PlainError m \<Rightarrow> m
      | OtherValue \<Rightarrow> ''The request failed.'')"

definition refusalKind :: "unknown \<Rightarrow> failureKind" where
  "refusalKind data =
     (let reason = (case as_record data of None \<Rightarrow> None | Some o' \<Rightarrow> fld o' ''reason'')
      in if reason = Some (JStr ''files_edited'') then Conflict
         else if reason = Some (JStr ''turn_running'') then Running
         else Refused)"

section \<open>The tab's records\<close>

definition nonEmpty :: "unknown \<Rightarrow> string option" where
  "nonEmpty v = (case as_string v of None \<Rightarrow> None | Some s \<Rightarrow> if s = [] then None else Some s)"

definition own_points :: "unknown \<Rightarrow> string list" where
  "own_points v =
     (case as_array v of
        None \<Rightarrow> []
      | Some xs \<Rightarrow> List.map_filter (\<lambda>e. nonEmpty (Some e)) xs)"

definition undone_of :: "unknown \<Rightarrow> string option option" where
  "undone_of v =
     (case v of
        Some (JObj o') \<Rightarrow> Some (nonEmpty (fld o' ''back''))
      | Some (JArr _) \<Rightarrow> Some None
      | _ \<Rightarrow> None)"

text \<open>An array has none of the properties read here, so only an object can be a record.\<close>

definition turnRecord_of :: "unknown \<Rightarrow> turnRecord option" where
  "turnRecord_of value =
     (case as_record value of
        None \<Rightarrow> None
      | Some raw \<Rightarrow>
          (case nonEmpty (fld raw ''turnId'') of
             None \<Rightarrow> None
           | Some t \<Rightarrow>
               (case nonEmpty (fld raw ''back'') of
                  Some b \<Rightarrow> Some \<lparr>tr_turnId = t, tr_undone = Some (Some b), tr_own = [b]\<rparr>
                | None \<Rightarrow> Some \<lparr>tr_turnId = t, tr_undone = undone_of (fld raw ''undone''),
                                 tr_own = own_points (fld raw ''own'')\<rparr>)))"

type_synonym turnRecords = "(string, turnRecord) jsmap"

record tabStorage =
  st_item :: unknown
  st_writable :: bool

definition readRecords :: "tabStorage \<Rightarrow> turnRecords" where
  "readRecords st =
     (case as_record (st_item st) of
        None \<Rightarrow> []
      | Some es \<Rightarrow>
          map_of_entries (List.map_filter (\<lambda>(scope, value).
             map_option (\<lambda>r. (scope, r)) (turnRecord_of (Some value))) es))"

definition encode_nullable :: "string option \<Rightarrow> json" where
  "encode_nullable v = (case v of None \<Rightarrow> JNull | Some s \<Rightarrow> JStr s)"

definition encode_record :: "turnRecord \<Rightarrow> json" where
  "encode_record r =
     JObj [(''turnId'', JStr (tr_turnId r)),
           (''undone'', (case tr_undone r of
                           None \<Rightarrow> JNull
                         | Some back \<Rightarrow> JObj [(''back'', encode_nullable back)])),
           (''own'', JArr (map JStr (tr_own r)))]"

text \<open>A full or denied store keeps what it had.\<close>

definition writeRecords :: "tabStorage \<Rightarrow> turnRecords \<Rightarrow> tabStorage" where
  "writeRecords st records =
     (if \<not> st_writable st then st
      else st\<lparr>st_item := (if records = [] then None
                           else Some (JObj (map (\<lambda>kv. (fst kv, encode_record (snd kv))) records)))\<rparr>)"

definition recall :: "string \<Rightarrow> string \<Rightarrow> tabStorage \<Rightarrow> turnRecord option" where
  "recall scope turnId st =
     (case map_get (readRecords st) scope of
        None \<Rightarrow> None
      | Some r \<Rightarrow> if tr_turnId r = turnId then Some r else None)"

text \<open>\<open>Object.entries(records).slice(-(MAX_RECORDS - 1))\<close>, then the scope's own entry.\<close>

definition last_entries :: "nat \<Rightarrow> 'a list \<Rightarrow> 'a list" where
  "last_entries n xs = drop (length xs - n) xs"

definition remember :: "string \<Rightarrow> turnRecord \<Rightarrow> tabStorage \<Rightarrow> tabStorage" where
  "remember scope r st =
     (let records = map_del scope (readRecords st);
          kept = last_entries (max_records - 1) records
      in writeRecords st (map_put scope r (map_of_entries kept)))"

section \<open>What Core's list allows\<close>

text \<open>An empty string is as false as \<open>null\<close>.\<close>

definition nonblank :: "string option \<Rightarrow> string option" where
  "nonblank v = (if v = Some [] then None else v)"

definition undo_point :: "string \<Rightarrow> snapshotList \<Rightarrow> string option" where
  "undo_point turnId l =
     nonblank (map_option ws_id (find (\<lambda>s. ws_turn_id s = Some turnId) (sl_snapshots l)))"

definition tool_point :: "workspaceSnapshot \<Rightarrow> bool" where
  "tool_point s = starts_with (ws_label s) ''pre-tool:''"

definition rows_above :: "string option \<Rightarrow> workspaceSnapshot list \<Rightarrow> workspaceSnapshot list option" where
  "rows_above anchor rows =
     map_option (\<lambda>i. take i rows) (find_index (\<lambda>s. Some (ws_id s) = anchor) rows)"

text \<open>A missing anchor leaves nothing above it (\<open>Math.max(0, index)\<close>).\<close>

definition foreignAbove :: "snapshotList \<Rightarrow> string \<Rightarrow> string list \<Rightarrow> bool" where
  "foreignAbove l anchor own =
     (case rows_above (Some anchor) (sl_snapshots l) of
        None \<Rightarrow> False
      | Some newer \<Rightarrow> list_ex (\<lambda>s. ws_id s \<notin> set own \<and> \<not> tool_point s) newer)"

definition takenPoint :: "snapshotList \<Rightarrow> workspaceSnapshot list \<Rightarrow> string option" where
  "takenPoint before after =
     (let newest = (case sl_snapshots before of [] \<Rightarrow> None | s # _ \<Rightarrow> Some (ws_id s));
          newer = filter (\<lambda>s. ws_label s = ''pre-restore'')
                    (case rows_above newest after of None \<Rightarrow> after | Some rows \<Rightarrow> rows)
      in (case newer of [s] \<Rightarrow> Some (ws_id s) | _ \<Rightarrow> None))"

definition undo_state :: "string \<Rightarrow> turnRecord option \<Rightarrow> snapshotList \<Rightarrow> undoStatus \<times> redoState" where
  "undo_state turnId record l =
     (let own = (case record of None \<Rightarrow> [] | Some r \<Rightarrow> tr_own r);
          point = undo_point turnId l;
          undone = (case record of None \<Rightarrow> None | Some r \<Rightarrow> tr_undone r)
      in if \<not> sl_enabled l \<or> \<not> sl_available l then (SHidden, RedoOk)
         else if (case point of None \<Rightarrow> False | Some p \<Rightarrow> foreignAbove l p own) then (SMoved, RedoOk)
         else (case undone of
                 Some None \<Rightarrow> (SUndone, RedoUnclear)
               | Some (Some back) \<Rightarrow>
                   if \<not> list_ex (\<lambda>s. ws_id s = back) (sl_snapshots l) then (SUndone, RedoGone)
                   else if foreignAbove l back own then (SMoved, RedoOk) else (SUndone, RedoOk)
               | None \<Rightarrow> (if point \<noteq> None then SReady else SMissing, RedoOk)))"

section \<open>The controller\<close>

text \<open>
  The suspended runs: waiting for the binding, for its commands and for Core's list (the lease is
  held), for the answer to a restore that was sent, and for the refresh after it. After an answer
  that never came \<open>WaitRecover\<close> waits for a refresh; then, as after a refusal, the list is read
  again (\<open>WaitReread\<close>: the binding, its commands, the list), after a refusal with the list the
  request was checked against.
\<close>

datatype rereadStep = RSource | RCommands | RList

datatype runPhase =
    WaitSource undoAction
  | WaitCommands undoAction
  | WaitList undoAction
  | WaitRestore undoAction snapshotList "turnRecord option" string
  | WaitRefresh undoAction
  | WaitRecover undoFailure
  | WaitReread rereadStep "snapshotList option" undoFailure

text \<open>The suspended loads wait for the binding, its commands, the list.\<close>

datatype loadPhase = LSource | LCommands | LList

record undoController =
  uc_scope :: string
  uc_turnId :: string
  uc_storage :: tabStorage
  uc_attached :: bool
  uc_ticket :: nat
  uc_loads :: "(nat \<times> loadPhase) list"
  uc_view :: turnUndoView
  uc_run :: "runPhase option"

definition new_controller :: "string \<Rightarrow> string \<Rightarrow> tabStorage \<Rightarrow> undoController" where
  "new_controller scope turnId st =
     \<lparr>uc_scope = scope, uc_turnId = turnId, uc_storage = st, uc_attached = False, uc_ticket = 0,
      uc_loads = [], uc_view = initial_view, uc_run = None\<rparr>"

text \<open>
  What a load awaited: a binding without the methods, a binding that has them or its commands
  (\<open>Reached\<close>), the list, or a rejection.
\<close>

datatype loadAnswer = Unsupported | Reached | Listed snapshotList | LoadFailed

datatype sourceAnswer = SourceFailed cause | AcquireFailed cause | Acquired

text \<open>
  \<open>ERecovered\<close> and \<open>EReread\<close> carry whether the refresh, the binding or the commands arrived (what
  they throw is swallowed), \<open>ERelisted\<close> the list if it arrived. \<open>EListed\<close> carries whether the lease is current and the binding's blocked reason when the list
  arrives, \<open>ERestored\<close> whether the lease is current when the answer arrives.
\<close>

datatype undoEvent =
    EAttach
  | ELoad
  | ELoaded nat loadAnswer
  | ERun undoAction
  | ESource sourceAnswer
  | ECommands "cause option"
  | EListed "cause + snapshotList" bool "string option"
  | ERestored "cause + workspaceSnapshot list" bool
  | ERefreshed "cause option"
  | ERecovered bool
  | EReread bool
  | ERelisted "snapshotList option"
  | EStorage tabStorage

datatype undoEffect = Lease | Send string | Release | Settled

definition my_record :: "undoController \<Rightarrow> turnRecord option" where
  "my_record c = recall (uc_scope c) (uc_turnId c) (uc_storage c)"

definition undone_in_tab :: "undoController \<Rightarrow> bool" where
  "undone_in_tab c = (case my_record c of None \<Rightarrow> False | Some r \<Rightarrow> tr_undone r \<noteq> None)"

definition show_state :: "undoController \<Rightarrow> snapshotList \<Rightarrow> undoController" where
  "show_state c l =
     (let s = undo_state (uc_turnId c) (my_record c) l
      in c\<lparr>uc_view := (uc_view c)\<lparr>uv_status := fst s, uv_redo := snd s\<rparr>\<rparr>)"

definition attach :: "undoController \<Rightarrow> undoController" where
  "attach c = c\<lparr>uc_attached := True\<rparr>"

definition load_begin :: "undoController \<Rightarrow> undoController" where
  "load_begin c =
     (if uv_busy (uc_view c) \<noteq> None \<or> \<not> uc_attached c then c
      else c\<lparr>uc_ticket := uc_ticket c + 1, uc_loads := (uc_ticket c + 1, LSource) # uc_loads c\<rparr>)"

definition hide :: "undoController \<Rightarrow> undoController" where
  "hide c = c\<lparr>uc_view := (uc_view c)\<lparr>uv_status := SHidden\<rparr>\<rparr>"

text \<open>The answer a suspended load waits for.\<close>

fun load_awaits :: "loadPhase \<Rightarrow> loadAnswer \<Rightarrow> bool" where
  "load_awaits LSource (Listed _) = False"
| "load_awaits LCommands (Listed _) = False"
| "load_awaits LCommands Unsupported = False"
| "load_awaits LList Unsupported = False"
| "load_awaits LList Reached = False"
| "load_awaits _ _ = True"

definition load_end :: "undoController \<Rightarrow> nat \<Rightarrow> loadAnswer \<Rightarrow> undoController" where
  "load_end c0 ticket answer =
     (case map_of (uc_loads c0) ticket of
        None \<Rightarrow> c0
      | Some phase \<Rightarrow>
          if \<not> load_awaits phase answer then c0
          else let rest = filter (\<lambda>l. fst l \<noteq> ticket) (uc_loads c0);
                   c = c0\<lparr>uc_loads := rest\<rparr>;
                   current = (ticket = uc_ticket c)
               in case answer of
                    Unsupported \<Rightarrow> if current then hide c else c
                  | Reached \<Rightarrow>
                      c0\<lparr>uc_loads := (ticket, if phase = LSource then LCommands else LList) # rest\<rparr>
                  | Listed l \<Rightarrow>
                      if current \<and> uv_busy (uc_view c) = None then show_state c l else c
                  | LoadFailed \<Rightarrow>
                      if current \<and> uv_busy (uc_view c) = None then hide c else c)"

definition run_begin :: "undoController \<Rightarrow> undoAction \<Rightarrow> undoController" where
  "run_begin c action =
     (if uv_busy (uc_view c) \<noteq> None \<or> \<not> uc_attached c then c
      else if (case action of Undo \<Rightarrow> uv_status (uc_view c) \<noteq> SReady
                            | Redo \<Rightarrow> uv_status (uc_view c) \<noteq> SUndone) then c
      else c\<lparr>uc_ticket := uc_ticket c + 1,
             uc_view := (uc_view c)\<lparr>uv_busy := Some action, uv_failure := None, uv_done := None\<rparr>,
             uc_run := Some (WaitSource action)\<rparr>)"

text \<open>
  \<open>Send id\<close> is the call of \<open>restoreSnapshot(id)\<close>, with \<open>submitted\<close> set just before it. The
  \<open>finally\<close> block: \<open>held\<close> when a lease was acquired, \<open>sent\<close> when
  \<open>submitted\<close>.
\<close>

definition run_finally ::
  "undoController \<Rightarrow> undoFailure option \<Rightarrow> bool \<Rightarrow> bool \<Rightarrow> undoController \<times> undoEffect list" where
  "run_finally c failure held sent =
     (c\<lparr>uc_view := (uc_view c)\<lparr>uv_busy := None, uv_failure := failure\<rparr>, uc_run := None\<rparr>,
      (if held then [Release] else []) @ (if sent then [Settled] else []))"

definition failed :: "undoAction \<Rightarrow> failureKind \<Rightarrow> string \<Rightarrow> undoFailure option" where
  "failed action kind detail =
     Some \<lparr>uf_action = action, uf_kind = kind, uf_detail = detail\<rparr>"

definition moved_detail :: string where
  "moved_detail = ''Not sent: Core lists newer saved states than this page made, so the files may not be what this page last saw. No files were changed.''"

definition gone_detail :: "undoAction \<Rightarrow> string" where
  "gone_detail action =
     (case action of
        Undo \<Rightarrow> ''This turn's undo point is no longer on the server. No files were changed.''
      | Redo \<Rightarrow> ''The state before the undo is no longer on the server. No files were changed.'')"

definition restore_target :: "undoAction \<Rightarrow> undoController \<Rightarrow> snapshotList \<Rightarrow> string option" where
  "restore_target action c l =
     (let s = undo_state (uc_turnId c) (my_record c) l
      in case action of
           Undo \<Rightarrow> (if fst s = SReady then undo_point (uc_turnId c) l else None)
         | Redo \<Rightarrow> (if s = (SUndone, RedoOk)
                     then nonblank (case my_record c of
                                    None \<Rightarrow> None
                                  | Some r \<Rightarrow> (case tr_undone r of None \<Rightarrow> None | Some back \<Rightarrow> back))
                     else None))"

definition run_listed ::
  "undoController \<Rightarrow> undoAction \<Rightarrow> cause + snapshotList \<Rightarrow> bool \<Rightarrow> string option
     \<Rightarrow> undoController \<times> undoEffect list" where
  "run_listed c action answer current blocked =
     (case answer of
        Inl e \<Rightarrow> run_finally c (failed action Unsent (errorText e)) True False
      | Inr l \<Rightarrow>
          if \<not> current
          then run_finally c (failed action Unsent ''The Session changed. Try again.'') True False
          else (case restore_target action c l of
                  None \<Rightarrow>
                    run_finally (show_state c l)
                      (if fst (undo_state (uc_turnId c) (my_record c) l) = SMoved
                       then failed action Moved moved_detail
                       else failed action Gone (gone_detail action)) True False
                | Some target \<Rightarrow>
                    (case nonblank blocked of
                       Some reason \<Rightarrow> run_finally c (failed action Blocked reason) True False
                     | None \<Rightarrow>
                         (c\<lparr>uc_run := Some (WaitRestore action l (my_record c) target)\<rparr>,
                          [Send target]))))"

definition record_restore ::
  "undoController \<Rightarrow> undoAction \<Rightarrow> snapshotList \<Rightarrow> turnRecord option \<Rightarrow> workspaceSnapshot list
     \<Rightarrow> undoController" where
  "record_restore c action fresh record rows =
     (let taken = nonblank (takenPoint fresh rows);
          own = (case record of None \<Rightarrow> [] | Some r \<Rightarrow> tr_own r)
                @ (case taken of None \<Rightarrow> [] | Some t \<Rightarrow> [t]);
          r = \<lparr>tr_turnId = uc_turnId c,
               tr_undone = (case action of Undo \<Rightarrow> Some (takenPoint fresh rows) | Redo \<Rightarrow> None),
               tr_own = own\<rparr>
      in c\<lparr>uc_storage := remember (uc_scope c) r (uc_storage c),
           uc_view := (uc_view c)\<lparr>
             uv_status := (case action of Undo \<Rightarrow> SUndone | Redo \<Rightarrow> SReady),
             uv_redo := (if action = Undo \<and> taken = None then RedoUnclear else RedoOk),
             uv_done := Some action\<rparr>\<rparr>)"

definition run_restored ::
  "undoController \<Rightarrow> undoAction \<Rightarrow> snapshotList \<Rightarrow> turnRecord option
     \<Rightarrow> cause + workspaceSnapshot list \<Rightarrow> bool \<Rightarrow> undoController \<times> undoEffect list" where
  "run_restored c action fresh record answer current =
     (case answer of
        Inr rows \<Rightarrow>
          ((record_restore c action fresh record rows)\<lparr>uc_run := Some (WaitRefresh action)\<rparr>, [])
      | Inl e \<Rightarrow>
          (case e of
             ProtocolError _ data \<Rightarrow>
               (c\<lparr>uc_run := Some (WaitReread RSource (Some fresh)
                    \<lparr>uf_action = action, uf_kind = refusalKind data, uf_detail = errorText e\<rparr>)\<rparr>, [])
           | _ \<Rightarrow>
               let f = \<lparr>uf_action = action, uf_kind = Uncertain, uf_detail = errorText e\<rparr>
               in if current then (c\<lparr>uc_run := Some (WaitRecover f)\<rparr>, [])
                  else run_finally c (Some f) True True))"

text \<open>
  The list read again. After a refusal the point Core recorded before refusing is this tab's own
  (\<open>#adoptRefused\<close>; a run only starts attached, so its first test holds); after an answer that
  never came the list is only shown.
\<close>

definition adopt_refused :: "undoController \<Rightarrow> snapshotList \<Rightarrow> snapshotList \<Rightarrow> undoController" where
  "adopt_refused c before after =
     (let taken = nonblank (takenPoint before (sl_snapshots after));
          record = my_record c;
          c' = (case taken of
                  None \<Rightarrow> c
                | Some t \<Rightarrow>
                    c\<lparr>uc_storage := remember (uc_scope c)
                        \<lparr>tr_turnId = uc_turnId c,
                         tr_undone = (case record of None \<Rightarrow> None | Some r \<Rightarrow> tr_undone r),
                         tr_own = (case record of None \<Rightarrow> [] | Some r \<Rightarrow> tr_own r) @ [t]\<rparr>
                        (uc_storage c)\<rparr>)
      in show_state c' after)"

definition run_reread ::
  "undoController \<Rightarrow> rereadStep \<Rightarrow> snapshotList option \<Rightarrow> undoFailure \<Rightarrow> bool
     \<Rightarrow> undoController \<times> undoEffect list" where
  "run_reread c at_step before f arrived =
     (if arrived
      then (c\<lparr>uc_run := Some (WaitReread (if at_step = RSource then RCommands else RList) before f)\<rparr>, [])
      else run_finally c (Some f) True True)"

definition run_relisted ::
  "undoController \<Rightarrow> snapshotList option \<Rightarrow> undoFailure \<Rightarrow> snapshotList option
     \<Rightarrow> undoController \<times> undoEffect list" where
  "run_relisted c before f answer =
     run_finally
       (case answer of
          None \<Rightarrow> c
        | Some after \<Rightarrow>
            (case before of None \<Rightarrow> show_state c after | Some b \<Rightarrow> adopt_refused c b after))
       (Some f) True True"

definition undo_step :: "undoController \<Rightarrow> undoEvent \<Rightarrow> undoController \<times> undoEffect list" where
  "undo_step c e =
     (case e of
        EAttach \<Rightarrow> (attach c, [])
      | ELoad \<Rightarrow> (load_begin c, [])
      | ELoaded ticket answer \<Rightarrow> (load_end c ticket answer, [])
      | ERun action \<Rightarrow> (run_begin c action, [])
      | EStorage st \<Rightarrow> (c\<lparr>uc_storage := st\<rparr>, [])
      | ESource answer \<Rightarrow>
          (case uc_run c of
             Some (WaitSource action) \<Rightarrow>
               (case answer of
                  SourceFailed x \<Rightarrow> run_finally c (failed action Unsent (errorText x)) False False
                | AcquireFailed x \<Rightarrow> run_finally c (failed action Blocked (errorText x)) False False
                | Acquired \<Rightarrow> (c\<lparr>uc_run := Some (WaitCommands action)\<rparr>, [Lease]))
           | _ \<Rightarrow> (c, []))
      | ECommands answer \<Rightarrow>
          (case uc_run c of
             Some (WaitCommands action) \<Rightarrow>
               (case answer of
                  Some x \<Rightarrow> run_finally c (failed action Unsent (errorText x)) True False
                | None \<Rightarrow> (c\<lparr>uc_run := Some (WaitList action)\<rparr>, []))
           | _ \<Rightarrow> (c, []))
      | EListed answer current blocked \<Rightarrow>
          (case uc_run c of
             Some (WaitList action) \<Rightarrow> run_listed c action answer current blocked
           | _ \<Rightarrow> (c, []))
      | ERestored answer current \<Rightarrow>
          (case uc_run c of
             Some (WaitRestore action fresh record target) \<Rightarrow>
               run_restored c action fresh record answer current
           | _ \<Rightarrow> (c, []))
      | ERefreshed answer \<Rightarrow>
          (case uc_run c of
             Some (WaitRefresh action) \<Rightarrow>
               run_finally c (case answer of
                                None \<Rightarrow> None
                              | Some x \<Rightarrow> failed action Refresh (errorText x)) True True
           | _ \<Rightarrow> (c, []))
      | ERecovered arrived \<Rightarrow>
          (case uc_run c of
             Some (WaitRecover f) \<Rightarrow>
               if arrived then (c\<lparr>uc_run := Some (WaitReread RSource None f)\<rparr>, [])
               else run_finally c (Some f) True True
           | _ \<Rightarrow> (c, []))
      | EReread arrived \<Rightarrow>
          (case uc_run c of
             Some (WaitReread at_step before f) \<Rightarrow>
               if at_step = RList then (c, []) else run_reread c at_step before f arrived
           | _ \<Rightarrow> (c, []))
      | ERelisted answer \<Rightarrow>
          (case uc_run c of
             Some (WaitReread RList before f) \<Rightarrow> run_relisted c before f answer
           | _ \<Rightarrow> (c, [])))"

text \<open>A run of events with all its effects.\<close>

fun undo_run :: "undoController \<Rightarrow> undoEvent list \<Rightarrow> undoController \<times> undoEffect list" where
  "undo_run c [] = (c, [])"
| "undo_run c (e # es) =
     (let (c', out) = undo_step c e; (c'', outs) = undo_run c' es in (c'', out @ outs))"

section \<open>Facts about the list\<close>

lemma rows_above_Some:
  "rows_above (Some i) rows = Some xs \<Longrightarrow>
     \<exists>s ys. rows = xs @ s # ys \<and> ws_id s = i \<and> (\<forall>x \<in> set xs. ws_id x \<noteq> i)"
  by (auto simp: rows_above_def dest!: find_index_splitD)

lemma rows_above_None: "rows_above (Some i) rows = None \<longleftrightarrow> i \<notin> ws_id ` set rows"
  by (auto simp: rows_above_def find_index_None)

lemma rows_above_append:
  "\<forall>x \<in> set xs. ws_id x \<noteq> i \<Longrightarrow> ws_id s = i \<Longrightarrow> rows_above (Some i) (xs @ s # ys) = Some xs"
  by (subst rows_above_def, subst find_index_split) auto

text \<open>A listed anchor with nothing foreign above it, spelled out.\<close>

definition unmoved :: "snapshotList \<Rightarrow> string \<Rightarrow> string list \<Rightarrow> bool" where
  "unmoved l i own = (\<exists>xs s ys. sl_snapshots l = xs @ s # ys \<and> ws_id s = i
      \<and> list_all (\<lambda>x. ws_id x \<in> set own \<or> tool_point x) xs)"

lemma not_foreign_unmoved:
  "\<not> foreignAbove l i own \<Longrightarrow> i \<in> ws_id ` set (sl_snapshots l) \<Longrightarrow> unmoved l i own"
proof -
  assume f: "\<not> foreignAbove l i own" and i: "i \<in> ws_id ` set (sl_snapshots l)"
  from i obtain xs where xs: "rows_above (Some i) (sl_snapshots l) = Some xs"
    by (cases "rows_above (Some i) (sl_snapshots l)") (auto simp: rows_above_None)
  with rows_above_Some [OF xs] f show "unmoved l i own"
    by (auto simp: unmoved_def foreignAbove_def list_ex_iff list_all_iff)
qed

lemma nonblank_Some: "nonblank v = Some x \<longleftrightarrow> v = Some x \<and> x \<noteq> []"
  by (auto simp: nonblank_def)

lemma undo_point_listed:
  "undo_point t l = Some i \<Longrightarrow> i \<noteq> [] \<and>
     (\<exists>s. find (\<lambda>s. ws_turn_id s = Some t) (sl_snapshots l) = Some s \<and> ws_id s = i)"
  by (auto simp: undo_point_def nonblank_Some)

lemma find_listed: "find P xs = Some s \<Longrightarrow> s \<in> set xs \<and> P s"
  by (auto simp: find_Some_iff)

definition own_of :: "turnRecord option \<Rightarrow> string list" where
  "own_of record = (case record of None \<Rightarrow> [] | Some r \<Rightarrow> tr_own r)"

text \<open>When an action has a target, the list shows the turn's state unmoved.\<close>

lemma restore_target_Some:
  assumes "restore_target action c l = Some i"
  shows "sl_enabled l \<and> sl_available l \<and> unmoved l i (own_of (my_record c))
    \<and> (case action of
         Undo \<Rightarrow> undo_point (uc_turnId c) l = Some i
       | Redo \<Rightarrow> map_option tr_undone (my_record c) = Some (Some (Some i)))"
proof (cases action)
  case Undo
  with assms have s: "fst (undo_state (uc_turnId c) (my_record c) l) = SReady"
    and p: "undo_point (uc_turnId c) l = Some i"
    by (auto simp: restore_target_def Let_def split: if_splits)
  have "i \<in> ws_id ` set (sl_snapshots l)"
    using undo_point_listed [OF p] by (auto dest!: find_listed)
  moreover from s p have "\<not> foreignAbove l i (own_of (my_record c))" "sl_enabled l" "sl_available l"
    by (auto simp: undo_state_def own_of_def Let_def split: if_splits option.splits)
  ultimately show ?thesis using Undo p not_foreign_unmoved by simp
next
  case Redo
  with assms have s: "undo_state (uc_turnId c) (my_record c) l = (SUndone, RedoOk)"
    and r: "map_option tr_undone (my_record c) = Some (Some (Some i))"
    by (auto simp: restore_target_def Let_def nonblank_Some split: if_splits option.splits)
  from r obtain rec where rec: "my_record c = Some rec" "tr_undone rec = Some (Some i)" by auto
  from s rec have "\<not> foreignAbove l i (own_of (my_record c))" "i \<in> ws_id ` set (sl_snapshots l)"
    "sl_enabled l" "sl_available l"
    by (auto simp: undo_state_def own_of_def Let_def list_ex_iff split: if_splits option.splits)
  with Redo r not_foreign_unmoved show ?thesis by simp
qed

section \<open>Frames of the steps\<close>

lemma show_state_frame [simp]:
  "uc_run (show_state c l) = uc_run c" "uv_busy (uc_view (show_state c l)) = uv_busy (uc_view c)"
  "uv_failure (uc_view (show_state c l)) = uv_failure (uc_view c)"
  "uc_storage (show_state c l) = uc_storage c" "uc_turnId (show_state c l) = uc_turnId c"
  "uc_scope (show_state c l) = uc_scope c" "uc_attached (show_state c l) = uc_attached c"
  by (simp_all add: show_state_def Let_def)

lemma load_frame [simp]:
  "uc_run (load_begin c) = uc_run c" "uv_busy (uc_view (load_begin c)) = uv_busy (uc_view c)"
  "uc_run (load_end c t a) = uc_run c" "uv_busy (uc_view (load_end c t a)) = uv_busy (uc_view c)"
  "uc_run (attach c) = uc_run c" "uv_busy (uc_view (attach c)) = uv_busy (uc_view c)"
  by (auto simp: load_begin_def load_end_def hide_def attach_def Let_def
      split: loadAnswer.splits option.splits)

lemma adopt_frame [simp]: "uc_run (adopt_refused c b a) = uc_run c"
  by (auto simp: adopt_refused_def Let_def split: option.splits)

lemma run_relisted_frame [simp]:
  "uc_run (fst (run_relisted c b f a)) = None"
  "uv_busy (uc_view (fst (run_relisted c b f a))) = None"
  "uv_failure (uc_view (fst (run_relisted c b f a))) = Some f"
  "snd (run_relisted c b f a) = [Release, Settled]"
  by (simp_all add: run_relisted_def run_finally_def)

fun phase_action :: "runPhase \<Rightarrow> undoAction" where
  "phase_action (WaitSource a) = a"
| "phase_action (WaitCommands a) = a"
| "phase_action (WaitList a) = a"
| "phase_action (WaitRestore a _ _ _) = a"
| "phase_action (WaitRefresh a) = a"
| "phase_action (WaitRecover f) = uf_action f"
| "phase_action (WaitReread _ _ f) = uf_action f"

fun phase_sent :: "runPhase \<Rightarrow> bool" where
  "phase_sent (WaitSource _) = False"
| "phase_sent (WaitCommands _) = False"
| "phase_sent (WaitList _) = False"
| "phase_sent _ = True"

fun phase_held :: "runPhase \<Rightarrow> bool" where
  "phase_held (WaitSource _) = False"
| "phase_held _ = True"

text \<open>The promise a phase waits for, and the one an answer settles.\<close>

datatype promise = PSource | PCommands | PList | PRestore | PRefresh | PRecover | PReread | PRelist

fun phase_promise :: "runPhase \<Rightarrow> promise" where
  "phase_promise (WaitSource _) = PSource"
| "phase_promise (WaitCommands _) = PCommands"
| "phase_promise (WaitList _) = PList"
| "phase_promise (WaitRestore _ _ _ _) = PRestore"
| "phase_promise (WaitRefresh _) = PRefresh"
| "phase_promise (WaitRecover _) = PRecover"
| "phase_promise (WaitReread at_step _ _) = (if at_step = RList then PRelist else PReread)"

fun answer_promise :: "undoEvent \<Rightarrow> promise option" where
  "answer_promise (ESource _) = Some PSource"
| "answer_promise (ECommands _) = Some PCommands"
| "answer_promise (EListed _ _ _) = Some PList"
| "answer_promise (ERestored _ _) = Some PRestore"
| "answer_promise (ERefreshed _) = Some PRefresh"
| "answer_promise (ERecovered _) = Some PRecover"
| "answer_promise (EReread _) = Some PReread"
| "answer_promise (ERelisted _) = Some PRelist"
| "answer_promise _ = None"

abbreviation awaited :: "runPhase \<Rightarrow> undoEvent \<Rightarrow> bool" where
  "awaited p e \<equiv> answer_promise e = Some (phase_promise p)"

definition awaits :: "undoController \<Rightarrow> undoEvent \<Rightarrow> bool" where
  "awaits c e = (case uc_run c of None \<Rightarrow> False | Some p \<Rightarrow> awaited p e)"

fun phase_rank :: "runPhase \<Rightarrow> nat" where
  "phase_rank (WaitSource _) = 8"
| "phase_rank (WaitCommands _) = 7"
| "phase_rank (WaitList _) = 6"
| "phase_rank (WaitRestore _ _ _ _) = 5"
| "phase_rank (WaitRecover _) = 4"
| "phase_rank (WaitReread RSource _ _) = 3"
| "phase_rank (WaitReread RCommands _ _) = 2"
| "phase_rank (WaitReread RList _ _) = 1"
| "phase_rank (WaitRefresh _) = 1"

definition rank :: "undoController \<Rightarrow> nat" where
  "rank c = (case uc_run c of None \<Rightarrow> 0 | Some p \<Rightarrow> phase_rank p)"

text \<open>What one step does to the run in progress, case by case.\<close>

lemmas step_defs = undo_step_def run_listed_def run_restored_def run_finally_def run_begin_def
  failed_def Let_def

lemma step_other:
  "\<not> awaits c e \<Longrightarrow> (\<forall>a. e \<noteq> ERun a) \<Longrightarrow>
     uc_run (fst (undo_step c e)) = uc_run c \<and> snd (undo_step c e) = []
     \<and> uv_busy (uc_view (fst (undo_step c e))) = uv_busy (uc_view c)"
  by (cases e; cases "uc_run c" rule: option.exhaust)
    (auto simp: awaits_def undo_step_def split: runPhase.splits rereadStep.splits)

lemma step_run: "undo_step c (ERun a) = (run_begin c a, [])"
  by (simp add: undo_step_def)

text \<open>An awaited answer moves the run to a lower phase of the same action, or ends it.\<close>

definition run_after :: "runPhase \<Rightarrow> undoController \<Rightarrow> undoEffect list \<Rightarrow> bool" where
  "run_after p c out =
     (case uc_run c of
        None \<Rightarrow> uv_busy (uc_view c) = None
           \<and> out = (if phase_held p then [Release] else []) @ (if phase_sent p then [Settled] else [])
      | Some q \<Rightarrow> phase_rank q < phase_rank p \<and> phase_action q = phase_action p
           \<and> (phase_sent p \<longrightarrow> phase_sent q) \<and> (phase_held p \<longrightarrow> phase_held q)
           \<and> out = (if phase_held q \<and> \<not> phase_held p then [Lease] else [])
                @ (case q of WaitRestore _ _ _ i \<Rightarrow> [Send i] | _ \<Rightarrow> [])
           \<and> (phase_sent q \<and> \<not> phase_sent p \<longrightarrow> (\<exists>a l r i. q = WaitRestore a l r i)))"

lemma run_finally_simps [simp]:
  "uc_run (fst (run_finally c f h s)) = None" "uv_busy (uc_view (fst (run_finally c f h s))) = None"
  "uv_failure (uc_view (fst (run_finally c f h s))) = f"
  "snd (run_finally c f h s) = (if h then [Release] else []) @ (if s then [Settled] else [])"
  by (simp_all add: run_finally_def)

lemma step_answer:
  assumes p: "uc_run c = Some p" and a: "awaited p e"
  shows "run_after p (fst (undo_step c e)) (snd (undo_step c e))"
proof (cases p)
  case (WaitSource x)
  with a obtain ans where "e = ESource ans" by (cases e) auto
  with p WaitSource show ?thesis
    by (cases ans) (simp_all add: undo_step_def run_after_def)
next
  case (WaitCommands x)
  with a obtain ans where "e = ECommands ans" by (cases e) auto
  with p WaitCommands show ?thesis
    by (cases ans) (simp_all add: undo_step_def run_after_def failed_def)
next
  case (WaitList x)
  with a obtain ans cur b where "e = EListed ans cur b" by (cases e) auto
  with p WaitList show ?thesis
    by (auto simp: undo_step_def run_listed_def run_after_def failed_def split: sum.split option.split)
next
  case (WaitRestore x l r i)
  with a obtain ans cur where "e = ERestored ans cur" by (cases e) auto
  with p WaitRestore show ?thesis
    by (auto simp: undo_step_def run_restored_def run_after_def Let_def split: sum.split cause.split)
next
  case (WaitRefresh x)
  with a obtain ans where "e = ERefreshed ans" by (cases e) auto
  with p WaitRefresh show ?thesis by (simp add: undo_step_def run_after_def)
next
  case (WaitRecover f)
  with a obtain ok where "e = ERecovered ok" by (cases e) auto
  with p WaitRecover show ?thesis by (simp add: undo_step_def run_after_def)
next
  case (WaitReread at_step b f)
  show ?thesis
  proof (cases at_step)
    case RList
    with a WaitReread obtain ans where "e = ERelisted ans" by (cases e) auto
    with p WaitReread RList show ?thesis by (simp add: undo_step_def run_after_def)
  next
    case RSource
    with a WaitReread obtain ok where "e = EReread ok" by (cases e) auto
    with p WaitReread RSource show ?thesis by (simp add: undo_step_def run_reread_def run_after_def)
  next
    case RCommands
    with a WaitReread obtain ok where "e = EReread ok" by (cases e) auto
    with p WaitReread RCommands show ?thesis by (simp add: undo_step_def run_reread_def run_after_def)
  qed
qed

text \<open>The view is busy exactly while a run is suspended, with that run's action.\<close>

definition busy_ok :: "undoController \<Rightarrow> bool" where
  "busy_ok c = (uv_busy (uc_view c) = map_option phase_action (uc_run c))"

lemma restored_busy:
  "uv_busy (uc_view (fst (run_restored c a l r ans cur)))
     = (if uc_run (fst (run_restored c a l r ans cur)) = None then None else uv_busy (uc_view c))"
  by (auto simp: run_restored_def record_restore_def Let_def split: sum.split cause.split)

lemma step_busy_answer:
  assumes "uc_run c = Some p" and "awaited p e" and "uc_run (fst (undo_step c e)) = Some q"
  shows "uv_busy (uc_view (fst (undo_step c e))) = uv_busy (uc_view c)"
  using assms
  by (cases p; cases e)
    (auto simp: undo_step_def run_listed_def run_reread_def restored_busy failed_def
      split: sourceAnswer.splits sum.splits option.splits if_splits rereadStep.splits)

lemma step_busy_ok:
  assumes "busy_ok c"
  shows "busy_ok (fst (undo_step c e))"
proof (cases "awaits c e")
  case True
  then obtain p where p: "uc_run c = Some p" "awaited p e" by (auto simp: awaits_def split: option.splits)
  show ?thesis
    using step_answer [OF p] step_busy_answer [OF p] assms p(1)
    by (auto simp: run_after_def busy_ok_def split: option.splits)
next
  case False
  show ?thesis
  proof (cases "\<exists>a. e = ERun a")
    case True
    with assms show ?thesis by (auto simp: step_run run_begin_def busy_ok_def)
  next
    case False
    with step_other [of c e] \<open>\<not> awaits c e\<close> assms show ?thesis by (simp add: busy_ok_def)
  qed
qed

text \<open>Counting effects.\<close>

fun is_send :: "undoEffect \<Rightarrow> bool" where
  "is_send (Send _) = True"
| "is_send _ = False"

definition sends :: "undoEffect list \<Rightarrow> nat" where
  "sends out = length (filter is_send out)"

definition held :: "undoController \<Rightarrow> nat" where
  "held c = (case uc_run c of None \<Rightarrow> 0 | Some p \<Rightarrow> if phase_held p then 1 else 0)"

definition in_doubt :: "undoController \<Rightarrow> nat" where
  "in_doubt c = (case uc_run c of None \<Rightarrow> 0 | Some p \<Rightarrow> if phase_sent p then 1 else 0)"

lemma run_begin_run:
  "busy_ok c \<Longrightarrow> run_begin c a \<noteq> c \<Longrightarrow> uc_run c = None \<and> uc_run (run_begin c a) = Some (WaitSource a)"
  by (auto simp: run_begin_def busy_ok_def split: if_splits)

lemma phase_sent_rank: "phase_sent p \<Longrightarrow> phase_rank p \<le> 5"
  by (cases p rule: phase_rank.cases) simp_all

lemma step_effects:
  assumes "busy_ok c"
  shows "sends (snd (undo_step c e)) + in_doubt c
           = count_list (snd (undo_step c e)) Settled + in_doubt (fst (undo_step c e))
    \<and> count_list (snd (undo_step c e)) Lease + held c
           = count_list (snd (undo_step c e)) Release + held (fst (undo_step c e))"
proof (cases "awaits c e")
  case True
  then obtain p where p: "uc_run c = Some p" "awaited p e" by (auto simp: awaits_def split: option.splits)
  show ?thesis
    using step_answer [OF p] p(1) phase_sent_rank [of p]
    by (auto simp: run_after_def sends_def in_doubt_def held_def
        split: option.splits runPhase.splits if_splits)
next
  case False
  show ?thesis
  proof (cases "\<exists>a. e = ERun a")
    case True
    then obtain a where e: "e = ERun a" by blast
    with assms show ?thesis
      using run_begin_run [OF assms, of a]
      by (cases "run_begin c a = c") (auto simp: step_run sends_def in_doubt_def held_def)
  next
    case other: False
    with step_other [of c e] False show ?thesis by (simp add: sends_def in_doubt_def held_def)
  qed
qed

lemma undo_run_Cons [simp]:
  "fst (undo_run c (e # es)) = fst (undo_run (fst (undo_step c e)) es)"
  "snd (undo_run c (e # es)) = snd (undo_step c e) @ snd (undo_run (fst (undo_step c e)) es)"
  by (simp_all add: Let_def split: prod.split)

declare undo_run.simps(2) [simp del]

lemma undo_run_busy_ok: "busy_ok c \<Longrightarrow> busy_ok (fst (undo_run c es))"
proof (induction es arbitrary: c)
  case (Cons e es)
  with step_busy_ok [OF Cons.prems, of e] show ?case by simp
qed simp

lemma new_controller_ok: "busy_ok (new_controller s t st)"
  by (simp add: busy_ok_def new_controller_def initial_view_def)

lemma run_effects:
  "busy_ok c \<Longrightarrow>
     sends (snd (undo_run c es)) + in_doubt c
       = count_list (snd (undo_run c es)) Settled + in_doubt (fst (undo_run c es))
   \<and> count_list (snd (undo_run c es)) Lease + held c
       = count_list (snd (undo_run c es)) Release + held (fst (undo_run c es))"
proof (induction es arbitrary: c)
  case Nil
  then show ?case by (simp add: sends_def)
next
  case (Cons e es)
  from step_effects [OF Cons.prems, of e] Cons.IH [OF step_busy_ok [OF Cons.prems, of e]]
  show ?case by (simp add: sends_def count_list_append)
qed

section \<open>Properties\<close>

text \<open>
  C26: Nothing is restored on a guess. A request to restore leaves the page only as the answer to a
  list it has just read, under a lease that is still current and with nothing blocking it: the
  restored point is in that list, everything listed above it is a point this tab's own restores
  took or one Core takes before a tool call, and it is the turn's own undo point (undo) or the
  way back this tab recorded (redo).
\<close>
theorem restore_sends_only_an_unmoved_point:
  assumes "Send i \<in> set (snd (undo_step c e))"
  shows "\<exists>action l blocked. uc_run c = Some (WaitList action) \<and> e = EListed (Inr l) True blocked
     \<and> nonblank blocked = None \<and> sl_enabled l \<and> sl_available l \<and> unmoved l i (own_of (my_record c))
     \<and> (case action of
          Undo \<Rightarrow> undo_point (uc_turnId c) l = Some i
        | Redo \<Rightarrow> map_option tr_undone (my_record c) = Some (Some (Some i)))"
proof -
  have "awaits c e"
  proof (rule ccontr)
    assume "\<not> awaits c e"
    with assms step_other [of c e] show False
      by (cases "\<exists>a. e = ERun a") (auto simp: step_run)
  qed
  then obtain p where p: "uc_run c = Some p" "awaited p e" by (auto simp: awaits_def split: option.splits)
  from step_answer [OF p] assms obtain a l' r
    where "uc_run (fst (undo_step c e)) = Some (WaitRestore a l' r i)"
    by (auto simp: run_after_def split: option.splits runPhase.splits if_splits)
  with p obtain action l blocked where e: "p = WaitList action" "e = EListed (Inr l) True blocked"
    "restore_target action c l = Some i" "nonblank blocked = None"
    by (cases p; cases e)
      (auto simp: undo_step_def run_listed_def run_restored_def run_reread_def Let_def failed_def
        split: sourceAnswer.splits sum.splits option.splits if_splits cause.splits rereadStep.splits)
  with p(1) restore_target_Some [OF e(3)] show ?thesis by blast
qed

text \<open>Another page's list, Core's two points and a controller that has asked for the list.\<close>

definition point_row :: "string \<Rightarrow> string \<Rightarrow> string option \<Rightarrow> workspaceSnapshot" where
  "point_row i label t = \<lparr>ws_id = i, ws_label = label, ws_timestamp_unix = 0, ws_turn_id = t\<rparr>"

definition listing :: "workspaceSnapshot list \<Rightarrow> snapshotList" where
  "listing rows = \<lparr>sl_session_id = ''s'', sl_enabled = True, sl_available = True, sl_snapshots = rows\<rparr>"

definition before_undo :: snapshotList where
  "before_undo = listing [point_row ''k'' ''pre-tool: edit'' None, point_row ''p'' ''pre-turn t'' (Some ''t'')]"

definition fresh_controller :: undoController where
  "fresh_controller = new_controller ''scope'' ''t'' \<lparr>st_item = None, st_writable = True\<rparr>"

definition loaded :: "undoEvent list" where
  "loaded = [EAttach, ELoad, ELoaded 1 Reached, ELoaded 1 Reached, ELoaded 1 (Listed before_undo)]"

definition asked :: undoController where
  "asked = fst (undo_run fresh_controller (loaded @ [ERun Undo, ESource Acquired, ECommands None]))"

lemma restore_sends_only_an_unmoved_point_witness:
  "Send ''p'' \<in> set (snd (undo_step asked (EListed (Inr before_undo) True None)))
   \<and> unmoved before_undo ''p'' (own_of (my_record asked))"
proof -
  have "Send ''p'' \<in> set (snd (undo_step asked (EListed (Inr before_undo) True None)))" by code_simp
  with restore_sends_only_an_unmoved_point [OF this] show ?thesis by auto
qed

text \<open>
  Over any sequence of events, other pages' writes and answers that never come included: every
  restore that was sent is settled once and at most one is in doubt at a time; every lease that
  was acquired is released once; and the view is busy exactly while a run is suspended.
\<close>
theorem restores_settle_and_leases_return:
  fixes es :: "undoEvent list" and scope t :: string and st :: tabStorage
  defines "r \<equiv> undo_run (new_controller scope t st) es"
  shows "sends (snd r) = count_list (snd r) Settled + in_doubt (fst r)
    \<and> count_list (snd r) Lease = count_list (snd r) Release + held (fst r)
    \<and> uv_busy (uc_view (fst r)) = map_option phase_action (uc_run (fst r))"
proof -
  have "in_doubt (new_controller scope t st) = 0" "held (new_controller scope t st) = 0"
    by (simp_all add: in_doubt_def held_def new_controller_def)
  with run_effects [OF new_controller_ok, of scope t st es]
    undo_run_busy_ok [OF new_controller_ok, of scope t st es]
  show ?thesis by (simp add: r_def busy_ok_def)
qed

text \<open>The answers a suspended run received.\<close>

fun answered :: "undoController \<Rightarrow> undoEvent list \<Rightarrow> nat" where
  "answered c [] = 0"
| "answered c (e # es) = (if awaits c e then 1 else 0) + answered (fst (undo_step c e)) es"

lemma rank_step:
  assumes "busy_ok c" and "uc_run c \<noteq> None"
  shows "rank (fst (undo_step c e)) \<le> rank c - (if awaits c e then 1 else 0)"
proof (cases "awaits c e")
  case True
  then obtain p where p: "uc_run c = Some p" "awaited p e" by (auto simp: awaits_def split: option.splits)
  show ?thesis
    using step_answer [OF p] p(1) True by (auto simp: run_after_def rank_def split: option.splits)
next
  case False
  show ?thesis
  proof (cases "\<exists>a. e = ERun a")
    case True
    with assms False show ?thesis by (auto simp: step_run run_begin_def busy_ok_def)
  next
    case other: False
    with step_other [of c e] False show ?thesis by (simp add: rank_def)
  qed
qed

lemma phase_rank_bounds: "1 \<le> phase_rank p \<and> phase_rank p \<le> 8"
  by (cases p rule: phase_rank.cases) simp_all

lemma rank_0: "rank c = 0 \<longleftrightarrow> uc_run c = None"
proof (cases "uc_run c")
  case (Some p)
  with phase_rank_bounds [of p] show ?thesis by (simp add: rank_def)
qed (simp add: rank_def)

lemma rank_le: "rank c \<le> 8"
  using phase_rank_bounds by (auto simp: rank_def split: option.splits)

lemma run_ends:
  "busy_ok c \<Longrightarrow> rank c \<le> answered c es \<Longrightarrow>
     \<exists>us vs. es = us @ vs \<and> uc_run (fst (undo_run c us)) = None"
proof (induction es arbitrary: c)
  case Nil
  then show ?case by (simp add: rank_0)
next
  case (Cons e es)
  show ?case
  proof (cases "uc_run c = None")
    case True
    then show ?thesis by (intro exI [of _ "[]"] exI [of _ "e # es"]) simp
  next
    case False
    let ?c = "fst (undo_step c e)"
    have "rank ?c \<le> answered ?c es"
      using rank_step [OF Cons.prems(1) False, of e] Cons.prems(2) by (auto split: if_splits)
    from Cons.IH [OF step_busy_ok [OF Cons.prems(1)] this] obtain us vs
      where "es = us @ vs" "uc_run (fst (undo_run ?c us)) = None" by blast
    then show ?thesis by (intro exI [of _ "e # us"] exI [of _ vs]) simp
  qed
qed

text \<open>
  C27: No click hangs. A run awaits at most eight promises (the binding, its commands, the list, the
  restore and, when that answer never came, the refresh, the binding, its commands and the list):
  from any state of a controller, eight answers to what its run waits for, in whatever way each
  fails and whatever happens between them, end the run and clear the busy mark.
\<close>
theorem eight_answers_end_a_run:
  fixes history :: "undoEvent list" and scope t :: string and st :: tabStorage
  defines "c \<equiv> fst (undo_run (new_controller scope t st) history)"
  assumes "8 \<le> answered c es"
  shows "\<exists>us vs. es = us @ vs \<and> uc_run (fst (undo_run c us)) = None
      \<and> uv_busy (uc_view (fst (undo_run c us))) = None"
proof -
  have ok: "busy_ok c" unfolding c_def by (rule undo_run_busy_ok) (rule new_controller_ok)
  have "rank c \<le> answered c es" using rank_le [of c] assms by simp
  from run_ends [OF ok this] obtain us vs where u: "es = us @ vs" "uc_run (fst (undo_run c us)) = None"
    by blast
  with undo_run_busy_ok [OF ok, of us] show ?thesis by (auto simp: busy_ok_def)
qed

text \<open>The longest run: the restore's answer never comes, and the list is read again.\<close>

definition unanswered_restore :: "undoEvent list" where
  "unanswered_restore =
     [ESource Acquired, ELoad, ECommands None, EListed (Inr before_undo) True None,
      EStorage \<lparr>st_item = None, st_writable = False\<rparr>, ERestored (Inl OtherValue) True,
      ERecovered True, EReread True, EReread True]"

lemma eight_answers_end_a_run_witness:
  "\<exists>us vs. unanswered_restore @ [ERelisted None] = us @ vs
      \<and> uc_run (fst (undo_run (fst (undo_run fresh_controller (loaded @ [ERun Undo]))) us)) = None"
proof -
  have "8 \<le> answered (fst (undo_run fresh_controller (loaded @ [ERun Undo])))
      (unanswered_restore @ [ERelisted None])" by code_simp
  from eight_answers_end_a_run [OF this [unfolded fresh_controller_def]]
  show ?thesis unfolding fresh_controller_def by blast
qed

text \<open>Seven are not always enough.\<close>

lemma seven_answers_may_leave_a_run:
  "answered (fst (undo_run fresh_controller (loaded @ [ERun Undo]))) unanswered_restore = 7
   \<and> uc_run (fst (undo_run fresh_controller (loaded @ [ERun Undo] @ unanswered_restore))) \<noteq> None"
  by code_simp

section \<open>Failures say whether anything was sent\<close>

definition sent_kinds :: "failureKind list" where
  "sent_kinds = [Conflict, Running, Refused, Uncertain, Refresh]"

fun phase_kind_ok :: "runPhase \<Rightarrow> bool" where
  "phase_kind_ok (WaitRecover f) = (uf_kind f \<in> set sent_kinds)"
| "phase_kind_ok (WaitReread _ _ f) = (uf_kind f \<in> set sent_kinds)"
| "phase_kind_ok _ = True"

definition kinds_ok :: "undoController \<Rightarrow> bool" where
  "kinds_ok c = (case uc_run c of None \<Rightarrow> True | Some p \<Rightarrow> phase_kind_ok p)"

lemma refusalKind_sent: "refusalKind d \<in> set sent_kinds"
  by (simp add: refusalKind_def sent_kinds_def Let_def)

lemma step_kinds_ok:
  assumes "kinds_ok c"
  shows "kinds_ok (fst (undo_step c e))"
proof (cases "awaits c e")
  case True
  then obtain p where p: "uc_run c = Some p" "awaited p e" by (auto simp: awaits_def split: option.splits)
  then show ?thesis
    using assms refusalKind_sent
    by (cases p; cases e)
      (auto simp: undo_step_def run_listed_def run_restored_def run_reread_def record_restore_def Let_def failed_def
        kinds_ok_def sent_kinds_def
        split: sourceAnswer.splits sum.splits option.splits cause.splits if_splits)
next
  case False
  show ?thesis
  proof (cases "\<exists>a. e = ERun a")
    case True
    with assms show ?thesis by (auto simp: step_run run_begin_def kinds_ok_def)
  next
    case other: False
    with step_other [of c e] False assms show ?thesis by (simp add: kinds_ok_def)
  qed
qed

lemma undo_run_kinds_ok: "kinds_ok c \<Longrightarrow> kinds_ok (fst (undo_run c es))"
proof (induction es arbitrary: c)
  case (Cons e es)
  with step_kinds_ok [OF Cons.prems, of e] show ?case by simp
qed simp

definition report :: "undoController \<Rightarrow> failureKind option" where
  "report c = map_option uf_kind (uv_failure (uc_view c))"

text \<open>
  What the page says about a failed click is true: a run that ends before its restore was sent
  reports \<open>blocked\<close>, \<open>gone\<close>, \<open>moved\<close> or \<open>unsent\<close>, and one that ends after reports success or
  \<open>conflict\<close>, \<open>running\<close>, \<open>refused\<close>, \<open>uncertain\<close> or \<open>refresh\<close>.
\<close>
theorem report_tells_whether_sent:
  fixes es :: "undoEvent list" and scope t :: string and st :: tabStorage
  defines "c \<equiv> fst (undo_run (new_controller scope t st) es)"
  assumes "uc_run c = Some p" and "uc_run (fst (undo_step c e)) = None"
  shows "if phase_sent p then report (fst (undo_step c e)) \<in> {None} \<union> Some ` set sent_kinds
         else report (fst (undo_step c e)) \<in> Some ` {Blocked, Gone, Moved, Unsent}"
proof -
  have "kinds_ok (new_controller scope t st)" by (simp add: kinds_ok_def new_controller_def)
  then have ok: "busy_ok c" "kinds_ok c"
    unfolding c_def by (intro undo_run_busy_ok new_controller_ok, intro undo_run_kinds_ok)
  have "awaits c e"
  proof (rule ccontr)
    assume n: "\<not> awaits c e"
    with assms ok step_other [of c e] show False
      by (cases "\<exists>a. e = ERun a") (auto simp: step_run run_begin_def busy_ok_def split: if_splits)
  qed
  with assms(2) have "awaited p e" by (simp add: awaits_def)
  with assms(2,3) ok(2) show ?thesis
    by (cases p; cases e)
      (auto simp: undo_step_def run_listed_def run_restored_def Let_def failed_def report_def
        run_reread_def kinds_ok_def sent_kinds_def
        split: sourceAnswer.splits sum.splits option.splits cause.splits if_splits rereadStep.splits)
qed

lemma report_tells_whether_sent_witness:
  "report (fst (undo_step asked (EListed (Inr (listing [point_row ''x'' ''pre-turn u'' (Some ''u''),
      point_row ''p'' ''pre-turn t'' (Some ''t'')])) True None))) = Some Moved"
  (is "report (fst (undo_step asked ?e)) = _")
proof -
  have r: "uc_run asked = Some (WaitList Undo)" by code_simp
  have n: "uc_run (fst (undo_step asked ?e)) = None" by code_simp
  note report_tells_whether_sent
    [OF r [unfolded asked_def fresh_controller_def] n [unfolded asked_def fresh_controller_def],
     folded fresh_controller_def, folded asked_def]
  then have "report (fst (undo_step asked ?e)) \<in> Some ` {Blocked, Gone, Moved, Unsent}" by simp
  moreover have "report (fst (undo_step asked ?e)) = Some Moved" by code_simp
  ultimately show ?thesis by simp
qed

section \<open>The tab's memory\<close>

definition record_ok :: "turnRecord \<Rightarrow> bool" where
  "record_ok r = (tr_turnId r \<noteq> [] \<and> tr_undone r \<noteq> Some (Some []) \<and> [] \<notin> set (tr_own r))"

lemma nonEmpty_Some: "nonEmpty v = Some s \<longleftrightarrow> v = Some (JStr s) \<and> s \<noteq> []"
  by (auto simp: nonEmpty_def split: option.splits)

lemma own_points_nonempty: "[] \<notin> set (own_points v)"
proof (cases "as_array v")
  case (Some xs)
  have "[] \<notin> set (List.map_filter (\<lambda>e. nonEmpty (Some e)) xs)"
    by (induction xs) (auto simp: nonEmpty_Some split: option.split)
  with Some show ?thesis by (simp add: own_points_def)
qed (simp add: own_points_def)

lemma own_points_encode: "[] \<notin> set xs \<Longrightarrow> own_points (Some (JArr (map JStr xs))) = xs"
  by (induction xs) (auto simp: own_points_def map_filter_def nonEmpty_def)

lemma undone_of_ok: "undone_of v \<noteq> Some (Some [])"
  by (auto simp: undone_of_def nonEmpty_Some split: option.splits json.splits)

lemma undone_of_encode:
  "u \<noteq> Some (Some []) \<Longrightarrow>
     undone_of (Some (case u of None \<Rightarrow> JNull | Some b \<Rightarrow> JObj [(''back'', encode_nullable b)])) = u"
  by (auto simp: undone_of_def encode_nullable_def nonEmpty_def split: option.splits)

interpretation record_wire: wire_decoder turnRecord_of encode_record record_ok
proof unfold_locales
  show "record_ok x" if "turnRecord_of v = Some x" for v x
    using that own_points_nonempty undone_of_ok
    by (auto simp: turnRecord_of_def record_ok_def nonEmpty_Some split: option.splits)
next
  show "turnRecord_of (Some (encode_record x)) = Some x" if x: "record_ok x" for x
  proof -
    have "nonEmpty (Some (JStr (tr_turnId x))) = Some (tr_turnId x)" "nonEmpty None = None"
      using x by (simp_all add: nonEmpty_def record_ok_def)
    with x show ?thesis
      by (simp add: turnRecord_of_def encode_record_def record_ok_def own_points_encode undone_of_encode)
  qed
qed (simp add: turnRecord_of_def)

lemma map_put_values: "set (map_put k v m) \<subseteq> {(k, v)} \<union> set m"
  by (induction k v m rule: map_put.induct) auto

lemma map_of_entries_values: "set (map_of_entries es) \<subseteq> set es"
proof -
  have "set (foldl (\<lambda>m kv. map_put (fst kv) (snd kv) m) m es) \<subseteq> set m \<union> set es" for m
  proof (induction es arbitrary: m)
    case (Cons e es)
    from Cons [of "map_put (fst e) (snd e) m"] map_put_values [of "fst e" "snd e" m] show ?case by auto
  qed simp
  from this [of "[]"] show ?thesis by (simp add: map_of_entries_def)
qed

lemma readRecords_ok: "map_ok (readRecords st) \<and> list_all (\<lambda>kv. record_ok (snd kv)) (readRecords st)"
proof (cases "as_record (st_item st)")
  case None
  then show ?thesis by (simp add: readRecords_def)
next
  case (Some es)
  let ?ks = "List.map_filter (\<lambda>(scope, value). map_option (\<lambda>r. (scope, r)) (turnRecord_of (Some value))) es"
  have "record_ok (snd kv)" if "kv \<in> set ?ks" for kv
    using that record_wire.parse_valid by (auto simp: map_filter_def)
  with Some map_of_entries_values [of ?ks] show ?thesis
    by (auto simp: readRecords_def map_ok_entries list_all_iff)
qed

lemma read_write:
  assumes "st_writable st" and "map_ok rs" and "list_all (\<lambda>kv. record_ok (snd kv)) rs"
  shows "readRecords (writeRecords st rs) = rs"
proof (cases "rs = []")
  case True
  with assms(1) show ?thesis by (simp add: readRecords_def writeRecords_def)
next
  case False
  have "List.map_filter (\<lambda>(scope, value). map_option (\<lambda>r. (scope, r)) (turnRecord_of (Some value)))
      (map (\<lambda>kv. (fst kv, encode_record (snd kv))) rs) = rs"
    using assms(3) by (induction rs) (auto simp: map_filter_def record_wire.parse_encode)
  with False assms(1,2) show ?thesis
    by (simp add: readRecords_def writeRecords_def map_of_entries_distinct map_ok_def map_keys_def)
qed

lemma last_entries_set: "set (last_entries n xs) \<subseteq> set xs"
  by (auto simp: last_entries_def dest: in_set_dropD)

lemma last_entries_ok: "map_ok m \<Longrightarrow> map_ok (last_entries n m)"
  by (simp add: map_ok_def map_keys_def last_entries_def drop_map [symmetric])

lemma remembered:
  assumes "st_writable st" and "record_ok r"
  shows "readRecords (remember scope r st)
           = last_entries (max_records - 1) (map_del scope (readRecords st)) @ [(scope, r)]"
proof -
  let ?old = "map_del scope (readRecords st)"
  let ?kept = "last_entries (max_records - 1) ?old"
  have ok: "map_ok ?kept"
    using readRecords_ok [of st] by (intro last_entries_ok) simp
  have "map_get ?kept scope = None"
  proof -
    have "scope \<notin> fst ` set ?kept"
      using last_entries_set [of "max_records - 1" ?old] by (auto simp: map_del_def)
    then show ?thesis by (simp add: map_get_def map_of_eq_None_iff)
  qed
  then have put: "map_put scope r (map_of_entries ?kept) = ?kept @ [(scope, r)]"
    using ok by (simp add: map_of_entries_distinct map_ok_def map_keys_def map_put_absent)
  have "map_ok (?kept @ [(scope, r)])"
    unfolding put [symmetric] by (simp add: map_ok_entries)
  moreover have "list_all (\<lambda>kv. record_ok (snd kv)) (?kept @ [(scope, r)])"
    using assms(2) readRecords_ok [of st] last_entries_set [of "max_records - 1" ?old]
    by (auto simp: list_all_iff map_del_def)
  ultimately show ?thesis
    using read_write [OF assms(1)] put by (simp add: remember_def Let_def)
qed

lemma recall_remember:
  assumes "st_writable st" and "record_ok r"
  shows "recall scope (tr_turnId r) (remember scope r st) = Some r"
proof -
  have "map_ok (last_entries (max_records - 1) (map_del scope (readRecords st)) @ [(scope, r)])"
    unfolding remembered [OF assms, symmetric] using readRecords_ok by blast
  then have "map_get (readRecords (remember scope r st)) scope = Some r"
    by (auto simp: remembered [OF assms] map_get_def map_ok_def map_keys_def map_add_def
        dest: map_of_SomeD split: option.split intro: rev_image_eqI)
  then show ?thesis by (simp add: recall_def)
qed

text \<open>
  C28: A restore survives a reload: what the tab wrote for a scope is what the next page reads for its
  turn; the store holds at most 50 scopes, the newest last, and loses only the oldest.
\<close>
theorem restores_survive_reload:
  assumes "st_writable st" and "record_ok r"
  shows "recall scope (tr_turnId r) (remember scope r st) = Some r
    \<and> length (readRecords (remember scope r st)) \<le> max_records
    \<and> readRecords (remember scope r st)
        = last_entries (max_records - 1) (map_del scope (readRecords st)) @ [(scope, r)]"
  using recall_remember [OF assms] remembered [OF assms]
  by (simp add: last_entries_def max_records_def)

definition way_back :: turnRecord where
  "way_back = \<lparr>tr_turnId = ''t'', tr_undone = Some (Some ''r''), tr_own = [''r'']\<rparr>"

lemma restores_survive_reload_witness:
  "recall ''scope'' ''t'' (remember ''scope'' way_back \<lparr>st_item = None, st_writable = True\<rparr>)
     = Some way_back"
proof -
  have "record_ok way_back" by code_simp
  from restores_survive_reload [OF _ this, of "\<lparr>st_item = None, st_writable = True\<rparr>" "''scope''"]
  show ?thesis by (simp add: way_back_def)
qed

section \<open>The way back
\<close>
lemma my_record_own: "my_record c = Some r \<Longrightarrow> record_ok r"
  using readRecords_ok [of "uc_storage c"]
  by (auto simp: my_record_def recall_def list_all_iff map_get_def
      dest!: map_of_SomeD split: option.splits if_splits)

lemma own_of_nonempty: "[] \<notin> set (own_of (my_record c))"
  using my_record_own [of c] by (auto simp: own_of_def record_ok_def split: option.splits)

lemma takenPoint_new:
  assumes "sl_snapshots l \<noteq> []" and "ws_id new \<notin> ws_id ` set (sl_snapshots l)"
    and "ws_label new = ''pre-restore''"
  shows "takenPoint l (new # sl_snapshots l) = Some (ws_id new)"
proof -
  obtain s rows where s: "sl_snapshots l = s # rows" using assms(1) by (cases "sl_snapshots l") auto
  with assms(2) have "rows_above (Some (ws_id s)) (new # sl_snapshots l) = Some [new]"
    by (auto simp: rows_above_def)
  with s assms(3) show ?thesis by (simp add: takenPoint_def Let_def)
qed

definition after_restore :: "snapshotList \<Rightarrow> workspaceSnapshot \<Rightarrow> snapshotList" where
  "after_restore l new = l\<lparr>sl_snapshots := new # sl_snapshots l\<rparr>"

text \<open>After the undo, Core's list shows the turn undone, with its way back unmoved.\<close>

lemma undone_state:
  assumes l: "sl_enabled l" "sl_available l"
    and p: "undo_point t l = Some p" "unmoved l p own" "ws_turn_id new \<noteq> Some t"
    and own: "p \<noteq> ws_id new"
    and r: "tr_undone r = Some (Some (ws_id new))" "tr_own r = own @ [ws_id new]"
  shows "undo_state t (Some r) (after_restore l new) = (SUndone, RedoOk)"
proof -
  let ?l = "after_restore l new"
  have point: "undo_point t ?l = Some p"
    using p(1,3) by (simp add: undo_point_def after_restore_def)
  have np: "\<not> foreignAbove ?l p (tr_own r)"
  proof -
    from p(2) obtain xs s ys where x: "sl_snapshots l = xs @ s # ys" "ws_id s = p"
      "list_all (\<lambda>x. ws_id x \<in> set own \<or> tool_point x) xs" by (auto simp: unmoved_def)
    have "list_all (\<lambda>x. ws_id x \<in> set own \<or> tool_point x) zs"
      if "rows_above (Some p) (sl_snapshots l) = Some zs" for zs
    proof -
      from rows_above_Some [OF that] obtain s' ys' where z: "sl_snapshots l = zs @ s' # ys'"
        "\<forall>x \<in> set zs. ws_id x \<noteq> p" by blast
      have "length zs \<le> length xs"
      proof (rule ccontr)
        assume "\<not> length zs \<le> length xs"
        then have "(zs @ s' # ys') ! length xs \<in> set zs" by (simp add: nth_append)
        moreover have "(zs @ s' # ys') ! length xs = s" using x(1) z(1) by (metis nth_append_length)
        ultimately show False using z(2) x(2) by blast
      qed
      then have "zs = take (length zs) xs"
        using arg_cong [OF trans [OF z(1) [symmetric] x(1)], of "take (length zs)"] by simp
      with x(3) show ?thesis by (metis list_all_iff in_set_takeD)
    qed
    then show ?thesis
      using own r(2) by (auto simp: foreignAbove_def after_restore_def rows_above_def list_ex_iff
          list_all_iff split: option.splits)
  qed
  have nb: "\<not> foreignAbove ?l (ws_id new) (tr_own r)"
    by (simp add: foreignAbove_def after_restore_def rows_above_def)
  from l point np nb r(1) show ?thesis
    by (simp add: undo_state_def Let_def) (simp add: after_restore_def)
qed

text \<open>
  The way back works. An undo that Core answered with one new \<open>pre-restore\<close> point is followed by
  a redo that sends exactly that point, provided Core's list has not changed in between; the turn
  shows as undone until then.
\<close>
theorem redo_sends_the_undo_point:
  fixes cur :: bool
  assumes undo: "uc_run c = Some (WaitList Undo)" "Send p \<in> set (snd (undo_step c (EListed (Inr l) True None)))"
    and tab: "uc_attached c" "uc_turnId c \<noteq> []" "st_writable (uc_storage c)"
    and new: "ws_label new = ''pre-restore''" "ws_turn_id new \<noteq> Some (uc_turnId c)" "ws_id new \<noteq> []"
      "ws_id new \<notin> ws_id ` set (sl_snapshots l)"
  defines "d \<equiv> fst (undo_run c [EListed (Inr l) True None, ERestored (Inr (new # sl_snapshots l)) cur,
                               ERefreshed None])"
  shows "uv_status (uc_view d) = SUndone \<and> uv_busy (uc_view d) = None
    \<and> snd (undo_run d [ERun Redo, ESource Acquired, ECommands None, EListed (Inr (after_restore l new)) True None])
        = [Lease, Send (ws_id new)]"
proof -
  let ?rec = "my_record c"
  from restore_sends_only_an_unmoved_point [OF undo(2)] undo(1)
  have p: "sl_enabled l" "sl_available l" "unmoved l p (own_of ?rec)" "undo_point (uc_turnId c) l = Some p"
    by auto
  obtain q where "restore_target Undo c l = Some q"
    using undo by (auto simp: undo_step_def run_listed_def split: option.splits)
  with undo have s1: "undo_step c (EListed (Inr l) True None)
      = (c\<lparr>uc_run := Some (WaitRestore Undo l ?rec p)\<rparr>, [Send p])"
    by (auto simp: undo_step_def run_listed_def nonblank_def split: option.splits)
  have pl: "p \<in> ws_id ` set (sl_snapshots l)" using p(3) by (auto simp: unmoved_def)
  then have "sl_snapshots l \<noteq> []" by auto
  from takenPoint_new [OF this new(4,1)] have t: "takenPoint l (new # sl_snapshots l) = Some (ws_id new)" .
  define r where "r = \<lparr>tr_turnId = uc_turnId c, tr_undone = Some (Some (ws_id new)),
                       tr_own = own_of ?rec @ [ws_id new]\<rparr>"
  have ok: "record_ok r" using new(3) tab(2) own_of_nonempty [of c] by (simp add: r_def record_ok_def)
  have d0: "d = fst (undo_step (fst (undo_step (c\<lparr>uc_run := Some (WaitRestore Undo l ?rec p)\<rparr>)
      (ERestored (Inr (new # sl_snapshots l)) cur))) (ERefreshed None))"
    by (simp add: d_def s1)
  have d: "uc_run d = None" "uv_status (uc_view d) = SUndone" "uv_busy (uc_view d) = None"
    "uc_attached d" "uc_turnId d = uc_turnId c"
    "my_record d = recall (uc_scope c) (uc_turnId c) (remember (uc_scope c) r (uc_storage c))"
    using tab(1) new(3) t
    by (simp_all add: d0 undo_step_def run_restored_def record_restore_def run_finally_def Let_def
        nonblank_def r_def own_of_def my_record_def)
  have rec: "my_record d = Some r"
    using recall_remember [OF tab(3) ok, of "uc_scope c"] d(6) by (simp add: r_def)
  have "undo_state (uc_turnId d) (my_record d) (after_restore l new) = (SUndone, RedoOk)"
    unfolding rec d(5)
    using pl new(4) by (intro undone_state [OF p(1,2,4,3) new(2)]) (metis, simp_all add: r_def)
  moreover have "my_record (fst (undo_run d [ERun Redo, ESource Acquired, ECommands None])) = my_record d"
    "uc_turnId (fst (undo_run d [ERun Redo, ESource Acquired, ECommands None])) = uc_turnId d"
    "uc_run (fst (undo_run d [ERun Redo, ESource Acquired, ECommands None])) = Some (WaitList Redo)"
    using d by (simp_all add: undo_step_def run_begin_def my_record_def)
  ultimately show ?thesis
    using d rec new(3)
    by (simp add: undo_step_def run_begin_def run_listed_def restore_target_def r_def nonblank_def
        my_record_def Let_def)
qed

lemma redo_sends_the_undo_point_witness:
  "snd (undo_run (fst (undo_run asked [EListed (Inr before_undo) True None,
        ERestored (Inr (point_row ''r'' ''pre-restore'' None # sl_snapshots before_undo)) True,
        ERefreshed None]))
      [ERun Redo, ESource Acquired, ECommands None,
       EListed (Inr (after_restore before_undo (point_row ''r'' ''pre-restore'' None))) True None])
   = [Lease, Send ''r'']"
proof -
  let ?new = "point_row ''r'' ''pre-restore'' None"
  have a: "uc_run asked = Some (WaitList Undo)" "uc_attached asked" "uc_turnId asked = ''t''"
    "st_writable (uc_storage asked)" by code_simp+
  have s: "Send ''p'' \<in> set (snd (undo_step asked (EListed (Inr before_undo) True None)))" by code_simp
  have n: "ws_label ?new = ''pre-restore''" "ws_id ?new = ''r''" "ws_turn_id ?new = None"
    "''r'' \<notin> ws_id ` set (sl_snapshots before_undo)" by code_simp+
  from redo_sends_the_undo_point [OF a(1) s a(2) _ a(4) n(1), of True] a(3) n(2-4)
  show ?thesis by simp
qed

end
