(* ===== verification/Checkpoints.thy ===== *)
theory Checkpoints
  imports HistoryResults
begin

text \<open>
  The conversation checkpoints of \<open>features/history/checkpoints.ts\<close>: the user turns of a hydrated
  thread, offered newest first, and the recomputation of a selected one from fresh history before
  a rewind. A checkpoint is found again by a key that names its first message.
\<close>

record conversationCheckpoint =
  cc_key :: string
  cc_checkpoint :: nat
  cc_preview :: string
  cc_prefill :: string
  cc_mediaCount :: nat
  cc_userMessageCount :: nat

text \<open>A message that starts or continues a user turn, with its thread.\<close>

definition user_thread :: "hydratedMessage \<Rightarrow> string option" where
  "user_thread m = (if to_lower (hm_role m) \<noteq> ''user'' then None else hm_thread_id m)"

definition add_to_group ::
  "(string, hydratedMessage list) jsmap \<Rightarrow> hydratedMessage \<Rightarrow> (string, hydratedMessage list) jsmap"
  where
  "add_to_group groups m =
     (case user_thread m of
        None \<Rightarrow> groups
      | Some t \<Rightarrow>
          map_put t ((case map_get groups t of None \<Rightarrow> [] | Some g \<Rightarrow> g) @ [m]) groups)"

definition userTurns :: "sessionHydrateResult \<Rightarrow> hydratedMessage list list" where
  "userTurns thread =
     map_values (foldl add_to_group []
       (sort_key hm_seq (case hr_messages thread of None \<Rightarrow> [] | Some ms \<Rightarrow> ms)))"

definition or_empty_string :: "string option \<Rightarrow> string" where
  "or_empty_string v = (case v of None \<Rightarrow> [] | Some s \<Rightarrow> s)"

text \<open>\<open>JSON.stringify\<close> of an array of two strings, a number and a string.\<close>

definition messageKey :: "hydratedMessage \<Rightarrow> string" where
  "messageKey m =
     ''['' @ json_quote (or_empty_string (hm_thread_id m)) @ '',''
     @ json_quote (or_empty_string (or_else (hm_message_id m) (hm_client_message_id m))) @ '',''
     @ show_nat (hm_seq m) @ '','' @ json_quote (or_empty_string (hm_turn_id m)) @ '']''"

text \<open>\<open>content.replace(/\s+/g, " ")\<close>.\<close>

fun collapse_spaces :: "bool \<Rightarrow> string \<Rightarrow> string" where
  "collapse_spaces inside [] = []"
| "collapse_spaces inside (c # s) =
     (if js_space c then (if inside then [] else [CHR '' '']) @ collapse_spaces True s
      else c # collapse_spaces False s)"

definition checkpoint_of :: "nat \<Rightarrow> hydratedMessage list \<Rightarrow> conversationCheckpoint" where
  "checkpoint_of index messages =
     \<lparr>cc_key = messageKey (hd messages), cc_checkpoint = index + 1,
      cc_preview = take 180 (collapse_spaces False (hm_content (hd messages))),
      cc_prefill = hm_content (hd messages),
      cc_mediaCount = sum_list (map (\<lambda>m. length (hm_media m)) messages),
      cc_userMessageCount = length messages\<rparr>"

definition conversationCheckpoints :: "sessionHydrateResult \<Rightarrow> conversationCheckpoint list" where
  "conversationCheckpoints thread =
     (let turns = userTurns thread
      in rev (map (\<lambda>i. checkpoint_of i (turns ! i)) [0..<length turns]))"

text \<open>\<open>None\<close>: the history changed. The result is the number of turns to drop and the draft.\<close>

definition resolveCheckpoint ::
  "sessionHydrateResult \<Rightarrow> conversationCheckpoint \<Rightarrow> (nat \<times> string) option" where
  "resolveCheckpoint thread selected =
     (let users = map hd (userTurns thread)
      in case find_index (\<lambda>m. messageKey m = cc_key selected) users of
           None \<Rightarrow> None
         | Some i \<Rightarrow>
             if hm_content (users ! i) \<noteq> cc_prefill selected then None
             else Some (length users - i, cc_prefill selected))"

section \<open>The groups\<close>

text \<open>Every group is a non-empty list of messages of its thread.\<close>

definition groups_ok :: "(string, hydratedMessage list) jsmap \<Rightarrow> bool" where
  "groups_ok groups = (map_ok groups
     \<and> list_all (\<lambda>kv. snd kv \<noteq> [] \<and> list_all (\<lambda>m. user_thread m = Some (fst kv)) (snd kv)) groups)"

lemma map_put_pairs: "kv \<in> set (map_put k v m) \<Longrightarrow> kv = (k, v) \<or> kv \<in> set m"
  by (induction k v m rule: map_put.induct) (auto split: if_splits)

lemma map_get_pair: "map_get m k = Some v \<Longrightarrow> (k, v) \<in> set m"
  by (auto simp: map_get_def dest: map_of_SomeD)

lemma add_to_group_ok:
  assumes "groups_ok gs"
  shows "groups_ok (add_to_group gs m)"
proof (cases "user_thread m")
  case None
  with assms show ?thesis by (simp add: add_to_group_def)
next
  case (Some t)
  let ?g = "(case map_get gs t of None \<Rightarrow> [] | Some g \<Rightarrow> g) @ [m]"
  have "list_all (\<lambda>x. user_thread x = Some t) ?g"
  proof (cases "map_get gs t")
    case None
    with Some show ?thesis by simp
  next
    case g: (Some g)
    with assms map_get_pair [OF g] Some show ?thesis by (auto simp: groups_ok_def list_all_iff)
  qed
  with assms Some map_put_pairs show ?thesis
    by (fastforce simp: add_to_group_def groups_ok_def list_all_iff)
qed

lemma foldl_groups_ok: "groups_ok gs \<Longrightarrow> groups_ok (foldl add_to_group gs ms)"
  by (induction ms arbitrary: gs) (simp_all add: add_to_group_ok)

lemma userTurns_groups:
  obtains gs where "userTurns thread = map snd gs" "groups_ok gs"
proof
  let ?gs = "foldl add_to_group [] (sort_key hm_seq (case hr_messages thread of None \<Rightarrow> [] | Some ms \<Rightarrow> ms))"
  show "userTurns thread = map snd ?gs" by (simp add: userTurns_def map_values_def)
  show "groups_ok ?gs" by (rule foldl_groups_ok) (simp add: groups_ok_def)
qed

lemma messageKey_thread: "messageKey m = messageKey n \<Longrightarrow>
    or_empty_string (hm_thread_id m) = or_empty_string (hm_thread_id n)"
proof -
  assume "messageKey m = messageKey n"
  then have "json_quote (or_empty_string (hm_thread_id m)) @ ('','' @
       json_quote (or_empty_string (or_else (hm_message_id m) (hm_client_message_id m))) @ '',''
       @ show_nat (hm_seq m) @ '','' @ json_quote (or_empty_string (hm_turn_id m)) @ '']'')
    = json_quote (or_empty_string (hm_thread_id n)) @ ('','' @
       json_quote (or_empty_string (or_else (hm_message_id n) (hm_client_message_id n))) @ '',''
       @ show_nat (hm_seq n) @ '','' @ json_quote (or_empty_string (hm_turn_id n)) @ '']'')"
    by (simp add: messageKey_def)
  from json_quote_inject [OF this] show ?thesis by simp
qed

text \<open>Each user turn has its own thread, so the keys of the first messages differ.\<close>

lemma first_keys_distinct: "distinct (map messageKey (map hd (userTurns thread)))"
proof -
  obtain gs where gs: "userTurns thread = map snd gs" "groups_ok gs" by (rule userTurns_groups)
  have thread: "or_empty_string (hm_thread_id (hd (snd kv))) = fst kv" if "kv \<in> set gs" for kv
    using gs(2) that
    by (cases "snd kv") (auto simp: groups_ok_def list_all_iff user_thread_def or_empty_string_def
        split: if_splits)
  have "inj_on (\<lambda>kv. messageKey (hd (snd kv))) (set gs)"
  proof (rule inj_onI)
    fix a b assume ab: "a \<in> set gs" "b \<in> set gs" "messageKey (hd (snd a)) = messageKey (hd (snd b))"
    from messageKey_thread [OF ab(3)] thread ab(1,2) have "fst a = fst b" by simp
    moreover have "distinct (map fst gs)" using gs(2) by (simp add: groups_ok_def map_ok_def map_keys_def)
    ultimately show "a = b" using ab(1,2) by (metis eq_key_imp_eq_value prod.collapse)
  qed
  moreover have "distinct gs"
    using gs(2) by (simp add: groups_ok_def map_ok_def map_keys_def distinct_map)
  ultimately show ?thesis by (simp add: gs(1) distinct_map comp_def)
qed

lemma find_index_distinct:
  "distinct (map f xs) \<Longrightarrow> i < length xs \<Longrightarrow> find_index (\<lambda>x. f x = f (xs ! i)) xs = Some i"
proof (induction xs arbitrary: i)
  case (Cons x xs)
  then show ?case
    by (cases i) (auto dest!: in_set_conv_nth [THEN iffD2, of _ "map f xs"] simp: image_iff)
qed simp

text \<open>
  A rewind drops what the picker showed: each checkpoint of a thread resolves, against the same
  history, to its own position from the end and to its own text, so that dropping that many turns
  leaves exactly the turns before it.
\<close>
theorem checkpoint_resolves_to_its_turn:
  assumes "c \<in> set (conversationCheckpoints thread)"
  shows "resolveCheckpoint thread c
           = Some (length (userTurns thread) + 1 - cc_checkpoint c, cc_prefill c)
    \<and> 1 \<le> cc_checkpoint c \<and> cc_checkpoint c \<le> length (userTurns thread)
    \<and> cc_prefill c = hm_content (hd (userTurns thread ! (cc_checkpoint c - 1)))"
proof -
  from assms obtain i where i: "i < length (userTurns thread)" "c = checkpoint_of i (userTurns thread ! i)"
    by (auto simp: conversationCheckpoints_def Let_def)
  let ?us = "map hd (userTurns thread)"
  have "find_index (\<lambda>m. messageKey m = messageKey (?us ! i)) ?us = Some i"
    using first_keys_distinct [of thread] i(1) by (intro find_index_distinct) simp_all
  with i show ?thesis by (simp add: resolveCheckpoint_def checkpoint_of_def Let_def)
qed

definition user_message :: "nat \<Rightarrow> string \<Rightarrow> string \<Rightarrow> hydratedMessage" where
  "user_message n t content = \<lparr>hm_seq = n, hm_role = ''User'', hm_content = content, hm_persisted_at = [],
     hm_media = [], hm_turn_id = None, hm_thread_id = Some t, hm_client_message_id = None,
     hm_reasoning_content = None, hm_message_id = None, hm_source = None\<rparr>"

definition two_turns :: sessionHydrateResult where
  "two_turns = sample_parsed\<lparr>hr_messages := Some
     [user_message 4 ''b'' ''second'', user_message 1 ''a'' ''first'', user_message 2 ''a'' ''more'']\<rparr>"

lemma checkpoint_resolves_to_its_turn_witness:
  "resolveCheckpoint two_turns (conversationCheckpoints two_turns ! 1) = Some (2, ''first'')"
proof -
  have l: "length (conversationCheckpoints two_turns) = 2" by code_simp
  then have "conversationCheckpoints two_turns ! 1 \<in> set (conversationCheckpoints two_turns)" by simp
  from checkpoint_resolves_to_its_turn [OF this]
  have "resolveCheckpoint two_turns (conversationCheckpoints two_turns ! 1)
    = Some (length (userTurns two_turns) + 1 - cc_checkpoint (conversationCheckpoints two_turns ! 1),
        cc_prefill (conversationCheckpoints two_turns ! 1))" by blast
  moreover have "length (userTurns two_turns) + 1 - cc_checkpoint (conversationCheckpoints two_turns ! 1) = 2"
    "cc_prefill (conversationCheckpoints two_turns ! 1) = ''first''" by code_simp+
  ultimately show ?thesis by simp
qed

end
