(* ===== verification/HistoryCoordinator.thy ===== *)
theory HistoryCoordinator
  imports Checkpoints
begin

text \<open>
  The history dialog's coordinator, \<open>features/history/history-coordinator.ts\<close>: loading, applying
  one restore, rewind or fork, and reconciling an accepted change. As in \<open>TurnUndo\<close>, its
  asynchronous methods are cut at their \<open>await\<close>s. An event carries the answer of the awaited call
  and what the binding says at that moment (\<open>host\<close>): whether the binding and the lease are
  current, and the blocked reason. A failure is the text \<open>errorText\<close> made of its cause. A dialog has one
  coordinator.
\<close>

section \<open>State\<close>

datatype historyMode = MUndo | MRewind | MFork

record historySnapshot =
  hs_loading :: bool
  hs_mutating :: bool
  hs_blockedReason :: "string option"
  hs_snapshots :: "snapshotList option"
  hs_checkpoints :: "conversationCheckpoint list"
  hs_error :: "string option"
  hs_notice :: "string option"
  hs_completed :: bool
  hs_uncertain :: bool
  hs_canRetryRefresh :: bool
  hs_prefill :: "string option"
  hs_prefillApplied :: bool
  hs_forkedSessionId :: "string option"

datatype historySelection =
    SelUndo string
  | SelRewind conversationCheckpoint
  | SelFork string

fun selection_mode :: "historySelection \<Rightarrow> historyMode" where
  "selection_mode (SelUndo _) = MUndo"
| "selection_mode (SelRewind _) = MRewind"
| "selection_mode (SelFork _) = MFork"

text \<open>The accepted change; its lease is the one the coordinator holds.\<close>

record acceptedChange =
  ac_prefill :: "string option"
  ac_forkedSessionId :: "string option"

text \<open>
  The suspended mutation: waiting for the commands module, for the fresh list or thread, for the
  answer of the change that was sent, for the canonical refresh, for the fork to open, and for the
  refresh after a change whose outcome is unknown. The flag of the last two reconciling phases
  tells \<open>retryRefresh\<close> from \<open>apply\<close>.
\<close>

datatype mutationPhase =
    PCommands historySelection
  | PFreshList string
  | PRestoring string snapshotList
  | PFreshThread conversationCheckpoint
  | PRewinding "nat \<times> string"
  | PForking
  | PRehydrating bool
  | POpeningFork bool sessionHydrateResult
  | PRecovering string

datatype loadPhase = LCommands | LList | LThread

record coordinator_state =
  hc_session :: string
  hc_mode :: historyMode
  hc_listeners :: nat
  hc_loadGeneration :: nat
  hc_loads :: "(nat \<times> loadPhase) list"
  hc_accepted :: "acceptedChange option"
  hc_phase :: "mutationPhase option"
  hc_snapshot :: historySnapshot

record host =
  ho_binding :: bool
  ho_lease :: bool
  ho_blocked :: "string option"

text \<open>
  The three changes and their arguments, as handed to \<open>restoreSnapshot\<close>, \<open>rewind\<close> and \<open>fork\<close> of the
  history commands.
\<close>

datatype historyChange = RestoreSnapshot string | Rewind nat | Fork string

datatype historyEffect = HLease | HSend historyChange | HRelease

definition new_coordinator :: "string \<Rightarrow> historyMode \<Rightarrow> string option \<Rightarrow> coordinator_state" where
  "new_coordinator session mode blocked =
     \<lparr>hc_session = session, hc_mode = mode, hc_listeners = 0, hc_loadGeneration = 0, hc_loads = [],
      hc_accepted = None, hc_phase = None,
      hc_snapshot = \<lparr>hs_loading = False, hs_mutating = False, hs_blockedReason = blocked,
        hs_snapshots = None, hs_checkpoints = [], hs_error = None, hs_notice = None,
        hs_completed = False, hs_uncertain = False, hs_canRetryRefresh = False, hs_prefill = None,
        hs_prefillApplied = False, hs_forkedSessionId = None\<rparr>\<rparr>"

definition patch :: "(historySnapshot \<Rightarrow> historySnapshot) \<Rightarrow> coordinator_state \<Rightarrow> coordinator_state" where
  "patch f c = c\<lparr>hc_snapshot := f (hc_snapshot c)\<rparr>"

text \<open>The messages the code throws or shows.\<close>

definition authority_changed :: string where
  "authority_changed = ''History Session authority changed.''"

definition lease_changed :: string where
  "lease_changed = ''History mutation authority changed.''"

definition unknown_outcome :: "string \<Rightarrow> string" where
  "unknown_outcome e =
     ''History request outcome is unknown. Inspect server history before trying again. '' @ e"

definition refresh_failed :: "string \<Rightarrow> string" where
  "refresh_failed e =
     ''The server accepted the history change, but local reconciliation failed. Retry refresh without repeating the change. '' @ e"

definition completed_notice :: "historyMode \<Rightarrow> string" where
  "completed_notice mode =
     (case mode of
        MUndo \<Rightarrow> ''Workspace snapshot restored. Conversation history was not changed.''
      | MRewind \<Rightarrow> ''Conversation rewound. Workspace files were not restored.''
      | MFork \<Rightarrow> ''Conversation fork opened in the background. Your selection was not changed.'')"

section \<open>Checks\<close>

definition assertCurrent :: "host \<Rightarrow> string option" where
  "assertCurrent h = (if ho_binding h then None else Some authority_changed)"

definition assertLease :: "host \<Rightarrow> string option" where
  "assertLease h =
     (case assertCurrent h of
        Some e \<Rightarrow> Some e
      | None \<Rightarrow> if ho_lease h then None else Some lease_changed)"

text \<open>An empty reason blocks nothing.\<close>

definition assertIdle :: "host \<Rightarrow> string option" where
  "assertIdle h = (if ho_blocked h = Some [] then None else ho_blocked h)"

definition assertThread :: "coordinator_state \<Rightarrow> sessionHydrateResult \<Rightarrow> string option" where
  "assertThread c thread =
     (if hr_session_id thread = hc_session c then None else Some ''History belongs to another Session.'')"

section \<open>Releasing and finishing\<close>

definition releaseAccepted :: "coordinator_state \<Rightarrow> coordinator_state \<times> historyEffect list" where
  "releaseAccepted c =
     (let c' = c\<lparr>hc_accepted := None\<rparr>
      in (if hs_canRetryRefresh (hc_snapshot c)
          then patch (\<lambda>s. s\<lparr>hs_canRetryRefresh := False\<rparr>) c' else c',
          if hc_accepted c = None then [] else [HRelease]))"

text \<open>
  The \<open>finally\<close> of \<open>apply\<close> (with \<open>held\<close> its lease, when it was acquired) and of \<open>retryRefresh\<close>:
  the lease of an accepted change is kept, and nothing is kept once the dialog is gone.
\<close>

definition finish ::
  "coordinator_state \<Rightarrow> host \<Rightarrow> bool \<Rightarrow> coordinator_state \<times> historyEffect list" where
  "finish c h held =
     (let (c', out) = (if hc_listeners c \<noteq> 0 then (c, []) else releaseAccepted c)
      in (patch (\<lambda>s. s\<lparr>hs_mutating := False, hs_blockedReason := ho_blocked h\<rparr>) (c'\<lparr>hc_phase := None\<rparr>),
          (if held \<and> hc_accepted c = None then [HRelease] else []) @ out))"

text \<open>The \<open>catch\<close> of \<open>apply\<close>.\<close>

definition apply_failed ::
  "coordinator_state \<Rightarrow> host \<Rightarrow> bool \<Rightarrow> bool \<Rightarrow> string \<Rightarrow> coordinator_state \<times> historyEffect list" where
  "apply_failed c h held submitted e =
     (if \<not> ho_binding h then finish c h held
      else if \<not> submitted then finish (patch (\<lambda>s. s\<lparr>hs_error := Some e\<rparr>) c) h held
      else if ho_lease h then (c\<lparr>hc_phase := Some (PRecovering e)\<rparr>, [])
      else finish (patch (\<lambda>s. s\<lparr>hs_uncertain := True, hs_error := Some (unknown_outcome e)\<rparr>) c) h held)"

text \<open>The \<open>catch\<close> of \<open>reconcileAccepted\<close>, followed by the caller's \<open>finally\<close>.\<close>

definition reconcile_failed ::
  "coordinator_state \<Rightarrow> host \<Rightarrow> bool \<Rightarrow> string \<Rightarrow> coordinator_state \<times> historyEffect list" where
  "reconcile_failed c h retry e =
     (if ho_lease h
      then finish (patch (\<lambda>s. s\<lparr>hs_canRetryRefresh := True, hs_error := Some (refresh_failed e)\<rparr>) c)
             h (\<not> retry)
      else let (c', out) = releaseAccepted c; (c'', outs) = finish c' h (\<not> retry)
           in (c'', out @ outs))"

text \<open>
  \<open>applyPrefill\<close> is the owning draft's: \<open>prefill_answer\<close> is what it returned, \<open>None\<close> when it threw.
\<close>

definition reconcile_done ::
  "coordinator_state \<Rightarrow> host \<Rightarrow> bool \<Rightarrow> sessionHydrateResult \<Rightarrow> acceptedChange \<Rightarrow> bool option
     \<Rightarrow> coordinator_state \<times> historyEffect list" where
  "reconcile_done c h retry thread a prefill_answer =
     (let applied = (ac_prefill a \<noteq> None \<and> prefill_answer = Some True);
          d = patch (\<lambda>s. s\<lparr>hs_completed := True, hs_canRetryRefresh := False,
                           hs_checkpoints := conversationCheckpoints thread,
                           hs_prefill := ac_prefill a, hs_prefillApplied := applied,
                           hs_notice := Some (completed_notice (hc_mode c))\<rparr>) c;
          (c', out) = releaseAccepted d; (c'', outs) = finish c' h (\<not> retry)
      in (c'', out @ outs))"

text \<open>\<open>reconcileAccepted\<close> up to its first \<open>await\<close>.\<close>

definition reconcile_begin ::
  "coordinator_state \<Rightarrow> host \<Rightarrow> bool \<Rightarrow> coordinator_state \<times> historyEffect list" where
  "reconcile_begin c h retry =
     (case assertLease h of
        Some e \<Rightarrow> reconcile_failed c h retry e
      | None \<Rightarrow> (c\<lparr>hc_phase := Some (PRehydrating retry)\<rparr>, []))"

section \<open>Loading\<close>

definition cancelLoad :: "coordinator_state \<Rightarrow> coordinator_state" where
  "cancelLoad c = c\<lparr>hc_loadGeneration := hc_loadGeneration c + 1\<rparr>"

text \<open>The \<open>catch\<close> and \<open>finally\<close> of \<open>load\<close>.\<close>

definition load_done ::
  "coordinator_state \<Rightarrow> nat \<Rightarrow> host \<Rightarrow> string option \<Rightarrow> coordinator_state" where
  "load_done c ticket h failure =
     (let own = (ticket = hc_loadGeneration c);
          c' = (if own \<and> ho_binding h \<and> failure \<noteq> None
                then patch (\<lambda>s. s\<lparr>hs_error := failure\<rparr>) c else c)
      in (if own then patch (\<lambda>s. s\<lparr>hs_loading := False\<rparr>) c' else c'))"

definition load_wait :: "nat \<Rightarrow> loadPhase \<Rightarrow> coordinator_state \<Rightarrow> coordinator_state" where
  "load_wait ticket p c = c\<lparr>hc_loads := (ticket, p) # hc_loads c\<rparr>"

definition history_load :: "coordinator_state \<Rightarrow> host \<Rightarrow> coordinator_state" where
  "history_load c h =
     (if hs_mutating (hc_snapshot c) \<or> hc_accepted c \<noteq> None then c
      else let ticket = hc_loadGeneration c + 1;
               c' = patch (\<lambda>s. s\<lparr>hs_loading := True, hs_error := None\<rparr>)
                      (c\<lparr>hc_loadGeneration := ticket\<rparr>)
           in case assertCurrent h of
                Some e \<Rightarrow> load_done c' ticket h (Some e)
              | None \<Rightarrow>
                  (case hc_mode c of
                     MUndo \<Rightarrow> load_wait ticket LCommands c'
                   | MRewind \<Rightarrow> load_wait ticket LThread c'
                   | MFork \<Rightarrow> load_done c' ticket h None))"

datatype loadAnswer =
    AFailed string
  | ACommands
  | AList snapshotList
  | AThread sessionHydrateResult

definition load_answer ::
  "coordinator_state \<Rightarrow> nat \<Rightarrow> host \<Rightarrow> loadAnswer \<Rightarrow> coordinator_state" where
  "load_answer c0 ticket h answer =
     (case map_of (hc_loads c0) ticket of
        None \<Rightarrow> c0
      | Some p \<Rightarrow>
          let c = c0\<lparr>hc_loads := filter (\<lambda>l. fst l \<noteq> ticket) (hc_loads c0)\<rparr>;
              current = (ticket = hc_loadGeneration c \<and> ho_binding h)
          in (case (p, answer) of
                (_, AFailed e) \<Rightarrow> load_done c ticket h (Some e)
              | (LCommands, ACommands) \<Rightarrow>
                  (if current then load_wait ticket LList c else load_done c ticket h None)
              | (LList, AList l) \<Rightarrow>
                  (if \<not> current then load_done c ticket h None
                   else if sl_session_id l \<noteq> hc_session c
                   then load_done c ticket h (Some ''Snapshots belong to another Session.'')
                   else load_done (patch (\<lambda>s. s\<lparr>hs_snapshots := Some l\<rparr>) c) ticket h None)
              | (LThread, AThread t) \<Rightarrow>
                  (if \<not> current then load_done c ticket h None
                   else case assertThread c t of
                          Some e \<Rightarrow> load_done c ticket h (Some e)
                        | None \<Rightarrow> load_done (patch (\<lambda>s. s\<lparr>hs_checkpoints := conversationCheckpoints t\<rparr>) c)
                                    ticket h None)
              | _ \<Rightarrow> c0))"

section \<open>Applying a change\<close>

definition apply_begin ::
  "coordinator_state \<Rightarrow> host \<Rightarrow> historySelection \<Rightarrow> string option
     \<Rightarrow> coordinator_state \<times> historyEffect list" where
  "apply_begin c h selection acquire_error =
     (if selection_mode selection \<noteq> hc_mode c \<or> hs_mutating (hc_snapshot c)
         \<or> hs_completed (hc_snapshot c) \<or> hs_uncertain (hc_snapshot c) \<or> hc_accepted c \<noteq> None
      then (c, [])
      else let c' = patch (\<lambda>s. s\<lparr>hs_loading := False, hs_mutating := True, hs_error := None,
                                  hs_notice := None\<rparr>) (cancelLoad c)
           in case acquire_error of
                Some e \<Rightarrow> apply_failed c' h False False e
              | None \<Rightarrow> (c'\<lparr>hc_phase := Some (PCommands selection)\<rparr>, [HLease]))"

text \<open>The first check that fails, in the code's order.\<close>

fun first_error :: "string option list \<Rightarrow> string option" where
  "first_error [] = None"
| "first_error (Some e # es) = Some e"
| "first_error (None # es) = first_error es"

definition fails_when :: "bool \<Rightarrow> string \<Rightarrow> string option" where
  "fails_when b e = (if b then Some e else None)"

definition on_commands ::
  "coordinator_state \<Rightarrow> host \<Rightarrow> historySelection \<Rightarrow> coordinator_state \<times> historyEffect list" where
  "on_commands c h selection =
     (case assertLease h of
        Some e \<Rightarrow> apply_failed c h True False e
      | None \<Rightarrow>
          (case selection of
             SelUndo i \<Rightarrow> (c\<lparr>hc_phase := Some (PFreshList i)\<rparr>, [])
           | SelRewind cp \<Rightarrow> (c\<lparr>hc_phase := Some (PFreshThread cp)\<rparr>, [])
           | SelFork name \<Rightarrow>
               (case first_error [fails_when (\<not> validForkChatId name) ''Choose a valid conversation name.'',
                                  assertIdle h] of
                  Some e \<Rightarrow> apply_failed c h True False e
                | None \<Rightarrow> (c\<lparr>hc_phase := Some PForking\<rparr>, [HSend (Fork name)]))))"

definition on_fresh_list ::
  "coordinator_state \<Rightarrow> host \<Rightarrow> string \<Rightarrow> snapshotList \<Rightarrow> coordinator_state \<times> historyEffect list" where
  "on_fresh_list c h i fresh =
     (case first_error
             [assertLease h,
              fails_when (sl_session_id fresh \<noteq> hc_session c \<or> \<not> sl_available fresh
                          \<or> \<not> list_ex (\<lambda>s. ws_id s = i) (sl_snapshots fresh))
                ''The selected snapshot is no longer available. Reload history.'',
              assertIdle h] of
        Some e \<Rightarrow> apply_failed c h True False e
      | None \<Rightarrow> (c\<lparr>hc_phase := Some (PRestoring i fresh)\<rparr>, [HSend (RestoreSnapshot i)]))"

definition on_restored ::
  "coordinator_state \<Rightarrow> host \<Rightarrow> string \<Rightarrow> snapshotList \<Rightarrow> snapshotRestore
     \<Rightarrow> coordinator_state \<times> historyEffect list" where
  "on_restored c h i fresh response =
     (case first_error
             [assertLease h,
              fails_when (sr_session_id response \<noteq> hc_session c \<or> sr_restored response \<noteq> i)
                ''Snapshot restoration returned another target.''] of
        Some e \<Rightarrow> apply_failed c h True True e
      | None \<Rightarrow>
          reconcile_begin
            (patch (\<lambda>s. s\<lparr>hs_snapshots := Some (fresh\<lparr>sl_snapshots := sr_snapshots response\<rparr>)\<rparr>)
              (c\<lparr>hc_accepted := Some \<lparr>ac_prefill = None, ac_forkedSessionId = None\<rparr>\<rparr>)) h False)"

definition active_turn :: "sessionHydrateResult \<Rightarrow> bool" where
  "active_turn thread =
     (case hr_turns thread of
        None \<Rightarrow> False
      | Some ts \<Rightarrow> list_ex (\<lambda>t. ht_state t = ''active'') ts)"

definition on_fresh_thread ::
  "coordinator_state \<Rightarrow> host \<Rightarrow> conversationCheckpoint \<Rightarrow> sessionHydrateResult
     \<Rightarrow> coordinator_state \<times> historyEffect list" where
  "on_fresh_thread c h cp fresh =
     (case first_error
             [assertLease h, assertThread c fresh, assertIdle h,
              fails_when (active_turn fresh) ''The Session became active. Wait before rewinding.''] of
        Some e \<Rightarrow> apply_failed c h True False e
      | None \<Rightarrow>
          (case resolveCheckpoint fresh cp of
             None \<Rightarrow> apply_failed c h True False ''History changed. Reload the checkpoint picker.''
           | Some target \<Rightarrow> (c\<lparr>hc_phase := Some (PRewinding target)\<rparr>, [HSend (Rewind (fst target))])))"

definition on_rewound ::
  "coordinator_state \<Rightarrow> host \<Rightarrow> nat \<times> string \<Rightarrow> rollbackResult
     \<Rightarrow> coordinator_state \<times> historyEffect list" where
  "on_rewound c h target response =
     (case first_error [assertLease h, assertThread c (rb_thread response)] of
        Some e \<Rightarrow> apply_failed c h True True e
      | None \<Rightarrow>
          reconcile_begin
            (c\<lparr>hc_accepted := Some \<lparr>ac_prefill = Some (snd target), ac_forkedSessionId = None\<rparr>\<rparr>) h False)"

definition on_forked ::
  "coordinator_state \<Rightarrow> host \<Rightarrow> forkResult \<Rightarrow> coordinator_state \<times> historyEffect list" where
  "on_forked c h response =
     (let new = fk_new_session_id response
      in case first_error
                [assertLease h,
                 fails_when (fk_parent_session_id response \<noteq> hc_session c \<or> new = [] \<or> new = hc_session c)
                   ''The fork response belongs to another Session.''] of
           Some e \<Rightarrow> apply_failed c h True True e
         | None \<Rightarrow>
             reconcile_begin
               (patch (\<lambda>s. s\<lparr>hs_forkedSessionId := Some new\<rparr>)
                 (c\<lparr>hc_accepted := Some \<lparr>ac_prefill = None, ac_forkedSessionId = Some new\<rparr>\<rparr>)) h False)"

definition on_rehydrated ::
  "coordinator_state \<Rightarrow> host \<Rightarrow> bool \<Rightarrow> acceptedChange \<Rightarrow> sessionHydrateResult \<Rightarrow> bool option
     \<Rightarrow> coordinator_state \<times> historyEffect list" where
  "on_rehydrated c h retry a thread prefill_answer =
     (case first_error [assertLease h, assertThread c thread] of
        Some e \<Rightarrow> reconcile_failed c h retry e
      | None \<Rightarrow>
          if ac_forkedSessionId a = None \<or> ac_forkedSessionId a = Some []
          then reconcile_done c h retry thread a prefill_answer
          else (c\<lparr>hc_phase := Some (POpeningFork retry thread)\<rparr>, []))"

definition retryRefresh :: "coordinator_state \<Rightarrow> host \<Rightarrow> coordinator_state \<times> historyEffect list" where
  "retryRefresh c h =
     (if hs_mutating (hc_snapshot c) \<or> hc_accepted c = None then (c, [])
      else reconcile_begin (patch (\<lambda>s. s\<lparr>hs_mutating := True, hs_error := None\<rparr>) c) h True)"

text \<open>What the awaited call of a suspended mutation answered.\<close>

datatype mutationAnswer =
    XFailed string
  | XCommands
  | XList snapshotList
  | XRestored snapshotRestore
  | XThread sessionHydrateResult
  | XRewound rollbackResult
  | XForked forkResult
  | XRehydrated sessionHydrateResult "bool option"
  | XOpened "bool option"

definition phase_answer ::
  "coordinator_state \<Rightarrow> host \<Rightarrow> mutationPhase \<Rightarrow> mutationAnswer
     \<Rightarrow> coordinator_state \<times> historyEffect list" where
  "phase_answer c h p answer =
     (case (p, answer) of
        (PCommands s, XFailed e) \<Rightarrow> apply_failed c h True False e
      | (PCommands s, XCommands) \<Rightarrow> on_commands c h s
      | (PFreshList i, XFailed e) \<Rightarrow> apply_failed c h True False e
      | (PFreshList i, XList l) \<Rightarrow> on_fresh_list c h i l
      | (PFreshThread cp, XFailed e) \<Rightarrow> apply_failed c h True False e
      | (PFreshThread cp, XThread t) \<Rightarrow> on_fresh_thread c h cp t
      | (PRestoring i l, XFailed e) \<Rightarrow> apply_failed c h True True e
      | (PRestoring i l, XRestored r) \<Rightarrow> on_restored c h i l r
      | (PRewinding t, XFailed e) \<Rightarrow> apply_failed c h True True e
      | (PRewinding t, XRewound r) \<Rightarrow> on_rewound c h t r
      | (PForking, XFailed e) \<Rightarrow> apply_failed c h True True e
      | (PForking, XForked r) \<Rightarrow> on_forked c h r
      | (PRehydrating retry, XFailed e) \<Rightarrow> reconcile_failed c h retry e
      | (PRehydrating retry, XRehydrated t pre) \<Rightarrow>
          (case hc_accepted c of
             None \<Rightarrow> finish c h (\<not> retry)
           | Some a \<Rightarrow> on_rehydrated c h retry a t pre)
      | (POpeningFork retry t, XFailed e) \<Rightarrow> reconcile_failed c h retry e
      | (POpeningFork retry t, XOpened pre) \<Rightarrow>
          (case assertLease h of
             Some e \<Rightarrow> reconcile_failed c h retry e
           | None \<Rightarrow>
               (case hc_accepted c of
                  None \<Rightarrow> finish c h (\<not> retry)
                | Some a \<Rightarrow> reconcile_done c h retry t a pre))
      | (PRecovering e, _) \<Rightarrow>
          finish (if ho_binding h
                  then patch (\<lambda>s. s\<lparr>hs_uncertain := True, hs_error := Some (unknown_outcome e)\<rparr>) c
                  else c) h True
      | _ \<Rightarrow> (c, []))"

section \<open>Listeners and events\<close>

definition history_subscribe :: "coordinator_state \<Rightarrow> coordinator_state" where
  "history_subscribe c = c\<lparr>hc_listeners := hc_listeners c + 1\<rparr>"

definition history_unsubscribe :: "coordinator_state \<Rightarrow> coordinator_state \<times> historyEffect list" where
  "history_unsubscribe c =
     (let c' = c\<lparr>hc_listeners := hc_listeners c - 1\<rparr>
      in if hc_listeners c' \<noteq> 0 then (c', [])
         else if hs_mutating (hc_snapshot c) then (cancelLoad c', [])
         else releaseAccepted (cancelLoad c'))"

text \<open>The binding's own notification, heard while the dialog listens.\<close>

definition binding_changed :: "coordinator_state \<Rightarrow> host \<Rightarrow> coordinator_state \<times> historyEffect list" where
  "binding_changed c h =
     (if hc_listeners c = 0 then (c, [])
      else let (c', out) = (if \<not> hs_mutating (hc_snapshot c) \<and> \<not> ho_binding h
                            then releaseAccepted c else (c, []))
           in (patch (\<lambda>s. s\<lparr>hs_blockedReason := ho_blocked h\<rparr>) c', out))"

datatype historyEvent =
    VSubscribe
  | VUnsubscribe
  | VBinding host
  | VLoad host
  | VLoaded nat host loadAnswer
  | VApply host historySelection "string option"
  | VRetry host
  | VAnswer host mutationAnswer

definition history_step ::
  "coordinator_state \<Rightarrow> historyEvent \<Rightarrow> coordinator_state \<times> historyEffect list" where
  "history_step c e =
     (case e of
        VSubscribe \<Rightarrow> (history_subscribe c, [])
      | VUnsubscribe \<Rightarrow> history_unsubscribe c
      | VBinding h \<Rightarrow> binding_changed c h
      | VLoad h \<Rightarrow> (history_load c h, [])
      | VLoaded t h a \<Rightarrow> (load_answer c t h a, [])
      | VApply h s a \<Rightarrow> apply_begin c h s a
      | VRetry h \<Rightarrow> retryRefresh c h
      | VAnswer h a \<Rightarrow> (case hc_phase c of None \<Rightarrow> (c, []) | Some p \<Rightarrow> phase_answer c h p a))"

fun history_run ::
  "coordinator_state \<Rightarrow> historyEvent list \<Rightarrow> coordinator_state \<times> historyEffect list" where
  "history_run c [] = (c, [])"
| "history_run c (e # es) =
     (let (c', out) = history_step c e; (c'', outs) = history_run c' es in (c'', out @ outs))"

lemma history_run_Cons [simp]:
  "fst (history_run c (e # es)) = fst (history_run (fst (history_step c e)) es)"
  "snd (history_run c (e # es)) = snd (history_step c e) @ snd (history_run (fst (history_step c e)) es)"
  by (simp_all add: Let_def split: prod.split)

declare history_run.simps(2) [simp del]

section \<open>The invariant of a dialog\<close>

definition settled :: "coordinator_state \<Rightarrow> bool" where
  "settled c = (hs_completed (hc_snapshot c) \<or> hs_uncertain (hc_snapshot c))"

fun reconciling :: "mutationPhase \<Rightarrow> bool" where
  "reconciling (PRehydrating _) = True"
| "reconciling (POpeningFork _ _) = True"
| "reconciling _ = False"

text \<open>
  A change is accepted exactly in the reconciling phases and while a failed refresh may be
  retried; a settled dialog neither waits nor holds anything.
\<close>

definition dialog_ok :: "coordinator_state \<Rightarrow> bool" where
  "dialog_ok c = (hs_mutating (hc_snapshot c) = (hc_phase c \<noteq> None)
     \<and> (case hc_phase c of None \<Rightarrow> True | Some p \<Rightarrow> reconciling p = (hc_accepted c \<noteq> None))
     \<and> (settled c \<longrightarrow> hc_phase c = None \<and> hc_accepted c = None))"

lemma patch_simps [simp]:
  "hc_phase (patch f c) = hc_phase c" "hc_accepted (patch f c) = hc_accepted c"
  "hc_listeners (patch f c) = hc_listeners c" "hc_snapshot (patch f c) = f (hc_snapshot c)"
  "hc_mode (patch f c) = hc_mode c" "hc_session (patch f c) = hc_session c"
  "hc_loadGeneration (patch f c) = hc_loadGeneration c"
  by (simp_all add: patch_def)

lemma releaseAccepted_simps [simp]:
  "hc_accepted (fst (releaseAccepted c)) = None" "hc_phase (fst (releaseAccepted c)) = hc_phase c"
  "hs_mutating (hc_snapshot (fst (releaseAccepted c))) = hs_mutating (hc_snapshot c)"
  "settled (fst (releaseAccepted c)) = settled c"
  "hc_listeners (fst (releaseAccepted c)) = hc_listeners c"
  "snd (releaseAccepted c) = (if hc_accepted c = None then [] else [HRelease])"
  by (simp_all add: releaseAccepted_def settled_def Let_def)

lemma finish_simps [simp]:
  "hc_phase (fst (finish c h b)) = None" "hs_mutating (hc_snapshot (fst (finish c h b))) = False"
  "hc_accepted (fst (finish c h b)) = (if hc_listeners c = 0 then None else hc_accepted c)"
  "settled (fst (finish c h b)) = settled c"
  "snd (finish c h b) = (if b \<and> hc_accepted c = None then [HRelease] else [])
     @ (if hc_listeners c \<noteq> 0 \<or> hc_accepted c = None then [] else [HRelease])"
  by (auto simp: finish_def settled_def Let_def split: prod.split)
    (auto simp: releaseAccepted_def Let_def split: if_splits)

text \<open>What a trace of effects does to the lease: one at a time, and requests only under it.\<close>

fun lease_track :: "bool \<Rightarrow> historyEffect list \<Rightarrow> bool option" where
  "lease_track held [] = Some held"
| "lease_track held (HLease # out) = (if held then None else lease_track True out)"
| "lease_track held (HSend _ # out) = (if held then lease_track held out else None)"
| "lease_track held (HRelease # out) = lease_track False out"

lemma lease_track_append:
  "lease_track b (xs @ ys) = (case lease_track b xs of None \<Rightarrow> None | Some b' \<Rightarrow> lease_track b' ys)"
  by (induction b xs rule: lease_track.induct) auto

definition holding :: "coordinator_state \<Rightarrow> bool" where
  "holding c = (hc_phase c \<noteq> None \<or> hc_accepted c \<noteq> None)"

text \<open>
  What every step keeps: the invariant, the lease, and a settled dialog that stays settled and
  sends nothing.
\<close>

definition sends_none :: "historyEffect list \<Rightarrow> bool" where
  "sends_none out = list_all (\<lambda>x. case x of HSend _ \<Rightarrow> False | _ \<Rightarrow> True) out"

definition good_step :: "coordinator_state \<Rightarrow> coordinator_state \<times> historyEffect list \<Rightarrow> bool" where
  "good_step c r = (dialog_ok (fst r) \<and> lease_track (holding c) (snd r) = Some (holding (fst r))
     \<and> (settled c \<longrightarrow> settled (fst r) \<and> sends_none (snd r)))"

lemma good_stepI:
  "dialog_ok c' \<Longrightarrow> lease_track (holding c) out = Some (holding c') \<Longrightarrow>
     (settled c \<Longrightarrow> settled c' \<and> sends_none out) \<Longrightarrow> good_step c (c', out)"
  by (simp add: good_step_def)

lemma good_refl: "dialog_ok c \<Longrightarrow> good_step c (c, [])"
  by (rule good_stepI) (simp_all add: sends_none_def)

lemma settled_simps [simp]:
  "settled (c\<lparr>hc_phase := p\<rparr>) = settled c" "settled (c\<lparr>hc_accepted := a\<rparr>) = settled c"
  "settled (c\<lparr>hc_loads := l\<rparr>) = settled c" "settled (c\<lparr>hc_loadGeneration := g\<rparr>) = settled c"
  "settled (c\<lparr>hc_listeners := n\<rparr>) = settled c"
  by (simp_all add: settled_def)

text \<open>
  A step out of a suspended, unsettled dialog needs only the invariant afterwards and the lease
  accounted for.
\<close>

definition closes :: "coordinator_state \<times> historyEffect list \<Rightarrow> bool" where
  "closes r = (dialog_ok (fst r) \<and> lease_track True (snd r) = Some (holding (fst r)))"

lemma closes_good: "closes r \<Longrightarrow> holding c \<Longrightarrow> \<not> settled c \<Longrightarrow> good_step c r"
  by (simp add: closes_def good_step_def)

lemma finish_closes:
  "(hc_accepted d = None \<longrightarrow> b) \<Longrightarrow> (settled d \<longrightarrow> hc_accepted d = None) \<Longrightarrow> closes (finish d h b)"
  by (auto simp: closes_def dialog_ok_def holding_def)

lemma release_finish_closes:
  "hc_accepted d \<noteq> None \<Longrightarrow>
     closes (case releaseAccepted d of (c', out) \<Rightarrow>
       case finish c' h b of (c'', outs) \<Rightarrow> (c'', out @ outs))"
  by (auto simp: closes_def dialog_ok_def holding_def case_prod_beta)

lemma apply_failed_closes:
  "hc_accepted d = None \<Longrightarrow> hs_mutating (hc_snapshot d) \<Longrightarrow> \<not> settled d \<Longrightarrow>
     closes (apply_failed d h True s e)"
  by (auto simp: apply_failed_def intro!: finish_closes)
    (simp add: closes_def dialog_ok_def holding_def)

lemma reconcile_failed_closes:
  "hc_accepted d \<noteq> None \<Longrightarrow> \<not> settled d \<Longrightarrow> closes (reconcile_failed d h retry e)"
  unfolding reconcile_failed_def
  by (auto simp: settled_def intro!: finish_closes release_finish_closes)

lemma reconcile_done_closes:
  "hc_accepted d \<noteq> None \<Longrightarrow> closes (reconcile_done d h retry t a pre)"
  unfolding reconcile_done_def Let_def by (rule release_finish_closes) simp

lemma reconcile_begin_closes:
  "hc_accepted d \<noteq> None \<Longrightarrow> hs_mutating (hc_snapshot d) \<Longrightarrow> \<not> settled d \<Longrightarrow>
     closes (reconcile_begin d h retry)"
  by (auto simp: reconcile_begin_def intro!: reconcile_failed_closes split: option.split)
    (simp_all add: closes_def dialog_ok_def holding_def)

text \<open>A waiting dialog: before acceptance, and while the accepted change is reconciled.\<close>

definition waiting :: "coordinator_state \<Rightarrow> bool" where
  "waiting c = (hs_mutating (hc_snapshot c) \<and> \<not> settled c \<and> hc_accepted c = None)"

lemma waiting_closes:
  "waiting c \<Longrightarrow> \<not> reconciling p \<Longrightarrow> closes (c\<lparr>hc_phase := Some p\<rparr>, [])"
  "waiting c \<Longrightarrow> \<not> reconciling p \<Longrightarrow> closes (c\<lparr>hc_phase := Some p\<rparr>, [HSend m])"
  by (simp_all add: closes_def waiting_def dialog_ok_def holding_def)

lemma waiting_failed: "waiting c \<Longrightarrow> closes (apply_failed c h True s e)"
  by (simp add: waiting_def apply_failed_closes)

lemma waiting_accepts:
  "waiting c \<Longrightarrow> closes (reconcile_begin (c\<lparr>hc_accepted := Some a\<rparr>) h b)"
  "waiting c \<Longrightarrow> (\<And>s. hs_mutating (f s) = hs_mutating s \<and> hs_completed (f s) = hs_completed s
      \<and> hs_uncertain (f s) = hs_uncertain s) \<Longrightarrow>
     closes (reconcile_begin (patch f (c\<lparr>hc_accepted := Some a\<rparr>)) h b)"
  by (intro reconcile_begin_closes; simp add: waiting_def settled_def)+

lemmas waiting_rules = waiting_failed waiting_closes waiting_accepts

lemma on_answers_close:
  assumes "waiting c"
  shows "closes (on_commands c h s)" "closes (on_fresh_list c h i l)" "closes (on_restored c h i l r)"
    "closes (on_fresh_thread c h cp t)" "closes (on_rewound c h tg rb)" "closes (on_forked c h fk)"
  using assms
  by (auto simp: on_commands_def on_fresh_list_def on_restored_def on_fresh_thread_def on_rewound_def
      on_forked_def Let_def intro!: waiting_rules split: option.split historySelection.split)

lemma on_rehydrated_closes:
  "hc_accepted c \<noteq> None \<Longrightarrow> hs_mutating (hc_snapshot c) \<Longrightarrow> \<not> settled c \<Longrightarrow>
     closes (on_rehydrated c h retry a t pre)"
  by (auto simp: on_rehydrated_def intro!: reconcile_failed_closes reconcile_done_closes split: option.split)
    (simp_all add: closes_def dialog_ok_def holding_def)

lemma phase_answer_closes:
  assumes "dialog_ok c" and p: "hc_phase c = Some p"
  shows "closes (phase_answer c h p a)"
proof -
  from assms have m: "hs_mutating (hc_snapshot c)" "\<not> settled c" "reconciling p = (hc_accepted c \<noteq> None)"
    by (auto simp: dialog_ok_def)
  have idle: "closes (c, [])"
    using assms by (simp add: closes_def holding_def)
  show ?thesis
  proof (cases "reconciling p")
    case True
    with m have acc: "hc_accepted c \<noteq> None" by simp
    note rules = reconcile_failed_closes [OF acc m(2)] reconcile_done_closes [OF acc]
      on_rehydrated_closes [OF acc m(1,2)]
    from True acc show ?thesis
      by (cases p; cases a)
        (auto simp: phase_answer_def intro!: rules idle split: option.split)
  next
    case False
    with m have w: "waiting c" by (simp add: waiting_def)
    have rec: "closes (finish (if ho_binding h then patch (\<lambda>s. s\<lparr>hs_uncertain := True, hs_error := e\<rparr>) c
        else c) h True)" for e
      using w by (intro finish_closes) (auto simp: waiting_def)
    from False show ?thesis
      by (cases p; cases a)
        (simp_all add: phase_answer_def idle rec waiting_failed [OF w] on_answers_close [OF w])
  qed
qed

lemma load_quiet:
  "hc_phase (load_done c t h f) = hc_phase c" "hc_accepted (load_done c t h f) = hc_accepted c"
  "hs_mutating (hc_snapshot (load_done c t h f)) = hs_mutating (hc_snapshot c)"
  "settled (load_done c t h f) = settled c"
  "hc_phase (load_wait t p c) = hc_phase c" "hc_accepted (load_wait t p c) = hc_accepted c"
  "hs_mutating (hc_snapshot (load_wait t p c)) = hs_mutating (hc_snapshot c)"
  "settled (load_wait t p c) = settled c"
  by (auto simp: load_done_def load_wait_def settled_def Let_def)

text \<open>Loads and notifications leave the mutation alone.\<close>

definition same_mutation :: "coordinator_state \<Rightarrow> coordinator_state \<Rightarrow> bool" where
  "same_mutation c d = (hc_phase d = hc_phase c \<and> hc_accepted d = hc_accepted c
     \<and> hs_mutating (hc_snapshot d) = hs_mutating (hc_snapshot c) \<and> settled d = settled c)"

lemma same_mutation_good: "dialog_ok c \<Longrightarrow> same_mutation c d \<Longrightarrow> good_step c (d, [])"
  by (cases "hc_phase c") (simp_all add: good_step_def dialog_ok_def holding_def same_mutation_def sends_none_def)

lemma settled_patch: "settled (patch f c) = (hs_completed (f (hc_snapshot c)) \<or> hs_uncertain (f (hc_snapshot c)))"
  by (simp add: settled_def)

lemma settled_snapshot: "hs_completed (hc_snapshot c) \<or> hs_uncertain (hc_snapshot c) \<longleftrightarrow> settled c"
  by (simp add: settled_def)

lemma history_load_same: "same_mutation c (history_load c h)"
  by (auto simp: history_load_def same_mutation_def Let_def load_quiet settled_patch settled_snapshot
      split: option.split historyMode.split)

lemma load_answer_same: "same_mutation c (load_answer c t h a)"
  by (cases a)
    (auto simp: load_answer_def same_mutation_def Let_def load_quiet settled_patch settled_snapshot
      split: option.split loadPhase.split)

lemma release_good:
  "dialog_ok c \<Longrightarrow> \<not> hs_mutating (hc_snapshot c) \<Longrightarrow> same_mutation c d \<Longrightarrow> good_step c (releaseAccepted d)"
  by (cases "hc_phase c")
    (auto simp: good_step_def dialog_ok_def holding_def same_mutation_def sends_none_def)

lemma patch_good: "good_step c r \<Longrightarrow> same_mutation (fst r) d \<Longrightarrow> good_step c (d, snd r)"
  by (cases "hc_phase (fst r)") (auto simp: good_step_def dialog_ok_def holding_def same_mutation_def)

lemma apply_begin_good:
  assumes "dialog_ok c"
  shows "good_step c (apply_begin c h s a)"
proof (cases "selection_mode s \<noteq> hc_mode c \<or> hs_mutating (hc_snapshot c)
         \<or> hs_completed (hc_snapshot c) \<or> hs_uncertain (hc_snapshot c) \<or> hc_accepted c \<noteq> None")
  case True
  then have "apply_begin c h s a = (c, [])" by (simp only: apply_begin_def if_True)
  with assms show ?thesis by (simp add: good_refl)
next
  case False
  then have c: "\<not> settled c" "hc_accepted c = None" "hc_phase c = None"
    using assms by (auto simp: dialog_ok_def settled_def)
  from False have u: "\<not> hs_completed (hc_snapshot c)" "\<not> hs_uncertain (hc_snapshot c)" by auto
  from c False u show ?thesis
    by (cases a)
      (auto simp: apply_begin_def apply_failed_def good_step_def dialog_ok_def holding_def sends_none_def
        cancelLoad_def settled_patch Let_def)
qed

lemma retryRefresh_good:
  assumes "dialog_ok c"
  shows "good_step c (retryRefresh c h)"
proof (cases "hs_mutating (hc_snapshot c) \<or> hc_accepted c = None")
  case True
  then have "retryRefresh c h = (c, [])" by (simp only: retryRefresh_def if_True)
  with assms show ?thesis by (simp add: good_refl)
next
  case False
  with assms have "\<not> settled c" "holding c" by (auto simp: dialog_ok_def holding_def)
  moreover from False \<open>\<not> settled c\<close> have "closes (retryRefresh c h)"
    unfolding retryRefresh_def by (auto intro!: reconcile_begin_closes simp: settled_def)
  ultimately show ?thesis by (intro closes_good)
qed

lemma history_step_good:
  assumes "dialog_ok c"
  shows "good_step c (history_step c e)"
proof (cases e)
  case VSubscribe
  with assms show ?thesis
    by (auto simp: history_step_def history_subscribe_def same_mutation_def intro!: same_mutation_good)
next
  case VUnsubscribe
  with assms show ?thesis
    by (auto simp: history_step_def history_unsubscribe_def same_mutation_def cancelLoad_def Let_def
        intro!: same_mutation_good release_good)
next
  case (VBinding h)
  let ?r = "if \<not> hs_mutating (hc_snapshot c) \<and> \<not> ho_binding h then releaseAccepted c else (c, [])"
  have "good_step c ?r"
    using assms release_good [OF assms] by (simp add: good_refl same_mutation_def)
  then have "good_step c (patch (\<lambda>s. s\<lparr>hs_blockedReason := ho_blocked h\<rparr>) (fst ?r), snd ?r)"
    by (rule patch_good) (simp add: same_mutation_def settled_patch settled_snapshot)
  with VBinding assms show ?thesis
    by (simp add: history_step_def binding_changed_def good_refl case_prod_beta)
next
  case (VAnswer h a)
  show ?thesis
  proof (cases "hc_phase c")
    case None
    with VAnswer assms show ?thesis by (simp add: history_step_def good_refl)
  next
    case (Some p)
    with assms have "holding c" "\<not> settled c" by (auto simp: holding_def dialog_ok_def)
    with closes_good [OF phase_answer_closes [OF assms Some]] VAnswer Some show ?thesis
      by (simp add: history_step_def)
  qed
qed (use assms in \<open>auto simp: history_step_def apply_begin_good retryRefresh_good
    intro!: same_mutation_good history_load_same load_answer_same\<close>)

lemma history_run_good:
  "dialog_ok c \<Longrightarrow> dialog_ok (fst (history_run c es))
     \<and> lease_track (holding c) (snd (history_run c es)) = Some (holding (fst (history_run c es)))
     \<and> (settled c \<longrightarrow> sends_none (snd (history_run c es)))"
proof (induction es arbitrary: c)
  case Nil
  then show ?case by (simp add: sends_none_def)
next
  case (Cons e es)
  from history_step_good [OF Cons.prems, of e] have g: "dialog_ok (fst (history_step c e))"
    "lease_track (holding c) (snd (history_step c e)) = Some (holding (fst (history_step c e)))"
    "settled c \<longrightarrow> settled (fst (history_step c e)) \<and> sends_none (snd (history_step c e))"
    by (auto simp: good_step_def)
  from Cons.IH [OF g(1)] g(2,3) show ?case
    by (simp add: lease_track_append sends_none_def)
qed

lemma new_dialog_ok: "dialog_ok (new_coordinator s m b) \<and> \<not> holding (new_coordinator s m b)"
  by (simp add: dialog_ok_def holding_def settled_def new_coordinator_def)

section \<open>Properties\<close>

text \<open>
  C29: A change is never repeated behind the user's back: once a dialog has shown its change as
  completed, or its outcome as unknown, nothing that happens afterwards makes it send another
  one.
\<close>
theorem settled_dialog_never_sends_again:
  assumes "settled (fst (history_run (new_coordinator s m b) us))"
  shows "sends_none (snd (history_run (fst (history_run (new_coordinator s m b) us)) vs))"
proof -
  from new_dialog_ok [of s m b] have "dialog_ok (fst (history_run (new_coordinator s m b) us))"
    using history_run_good by blast
  from history_run_good [OF this, of vs] assms show ?thesis by blast
qed

definition idle_host :: host where
  "idle_host = \<lparr>ho_binding = True, ho_lease = True, ho_blocked = None\<rparr>"

definition restore_point :: snapshotList where
  "restore_point = \<lparr>sl_session_id = ''s'', sl_enabled = True, sl_available = True,
     sl_snapshots = [\<lparr>ws_id = ''p'', ws_label = ''pre-turn t'', ws_timestamp_unix = 0, ws_turn_id = Some ''t''\<rparr>]\<rparr>"

definition lost_answer :: "historyEvent list" where
  "lost_answer = [VSubscribe, VApply idle_host (SelUndo ''p'') None, VAnswer idle_host XCommands,
     VAnswer idle_host (XList restore_point), VAnswer idle_host (XFailed ''offline''),
     VAnswer idle_host (XFailed ''offline'')]"

lemma settled_dialog_never_sends_again_witness:
  "snd (history_run (new_coordinator ''s'' MUndo None) lost_answer) = [HLease, HSend (RestoreSnapshot ''p''), HRelease]
   \<and> sends_none (snd (history_run (fst (history_run (new_coordinator ''s'' MUndo None) lost_answer))
        lost_answer))"
proof
  have "settled (fst (history_run (new_coordinator ''s'' MUndo None) lost_answer))" by code_simp
  then show "sends_none (snd (history_run (fst (history_run (new_coordinator ''s'' MUndo None) lost_answer))
        lost_answer))"
    by (rule settled_dialog_never_sends_again)
  show "snd (history_run (new_coordinator ''s'' MUndo None) lost_answer)
      = [HLease, HSend (RestoreSnapshot ''p''), HRelease]" by code_simp
qed

text \<open>
  Over any events: a dialog holds at most one lease at a time, asks Core for a change only under
  it, gives it back before it takes another, and holds one at the end exactly when a change is
  still suspended or accepted and not yet refreshed.
\<close>
theorem one_lease_per_dialog:
  "lease_track False (snd (history_run (new_coordinator s m b) es))
     = Some (holding (fst (history_run (new_coordinator s m b) es)))"
  using history_run_good [of "new_coordinator s m b" es] new_dialog_ok [of s m b] by simp

lemma first_error_None: "first_error es = None \<longleftrightarrow> (\<forall>e \<in> set es. e = None)"
  by (induction es rule: first_error.induct) auto

lemma assertLease_None: "assertLease h = None \<longleftrightarrow> ho_binding h \<and> ho_lease h"
  by (simp add: assertLease_def assertCurrent_def)

text \<open>No effect of finishing or failing is a request.\<close>

lemma finish_no_send: "HSend x \<notin> set (snd (finish c h b))"
  by simp

lemma quiet_no_send:
  "HSend x \<notin> set (snd (apply_failed c h b s e))" "HSend x \<notin> set (snd (reconcile_failed c h r e))"
  "HSend x \<notin> set (snd (reconcile_done c h r t a pre))" "HSend x \<notin> set (snd (reconcile_begin c h r))"
  by (auto simp: apply_failed_def reconcile_failed_def reconcile_done_def reconcile_begin_def Let_def
      case_prod_beta split: option.splits)

lemmas no_send = finish_no_send quiet_no_send

lemma fresh_thread_send:
  assumes "HSend x \<in> set (snd (on_fresh_thread c h cp t))"
  shows "\<exists>r. on_fresh_thread c h cp t = (c\<lparr>hc_phase := Some (PRewinding r)\<rparr>, [HSend (Rewind (fst r))])
        \<and> x = Rewind (fst r) \<and> resolveCheckpoint t cp = Some r \<and> ho_binding h \<and> ho_lease h
        \<and> assertIdle h = None \<and> hr_session_id t = hc_session c \<and> \<not> active_turn t"
proof -
  define checks where "checks = first_error [assertLease h, assertThread c t, assertIdle h,
        fails_when (active_turn t) ''The Session became active. Wait before rewinding.'']"
  have "checks = None" "\<exists>r. resolveCheckpoint t cp = Some r"
    using assms no_send by (auto simp: on_fresh_thread_def checks_def [symmetric] split: option.splits)
  then obtain r where r: "on_fresh_thread c h cp t
      = (c\<lparr>hc_phase := Some (PRewinding r)\<rparr>, [HSend (Rewind (fst r))])" "resolveCheckpoint t cp = Some r"
    by (auto simp: on_fresh_thread_def checks_def [symmetric])
  from \<open>checks = None\<close> have "ho_binding h \<and> ho_lease h \<and> assertIdle h = None
      \<and> hr_session_id t = hc_session c \<and> \<not> active_turn t"
    by (auto simp: checks_def first_error_None assertLease_None fails_when_def assertThread_def
        split: if_splits)
  with r assms show ?thesis by (intro exI [of _ r]) auto
qed

text \<open>What a suspended mutation was asked to do, until its request is sent.\<close>

fun phase_selection :: "mutationPhase \<Rightarrow> historySelection option" where
  "phase_selection (PCommands s) = Some s"
| "phase_selection (PFreshList i) = Some (SelUndo i)"
| "phase_selection (PFreshThread cp) = Some (SelRewind cp)"
| "phase_selection _ = None"

definition pending_selection :: "coordinator_state \<Rightarrow> historySelection option" where
  "pending_selection c = Option.bind (hc_phase c) phase_selection"

lemma pending_simps [simp]:
  "pending_selection (patch f c) = pending_selection c"
  "pending_selection (c\<lparr>hc_accepted := a\<rparr>) = pending_selection c"
  "pending_selection (c\<lparr>hc_phase := Some p\<rparr>) = phase_selection p"
  "pending_selection (c\<lparr>hc_listeners := n\<rparr>) = pending_selection c"
  "pending_selection (fst (releaseAccepted c)) = pending_selection c"
  "pending_selection (fst (finish c h b)) = None"
  by (simp_all add: pending_selection_def)

lemma nothing_pending:
  "pending_selection (fst (apply_failed c h b s e)) = None" "pending_selection (fst (reconcile_failed c h r e)) = None"
  "pending_selection (fst (reconcile_done c h r t a pre)) = None" "pending_selection (fst (reconcile_begin c h r)) = None"
  by (auto simp: apply_failed_def reconcile_failed_def reconcile_done_def reconcile_begin_def Let_def
      case_prod_beta split: option.splits)

lemma same_mutation_pending: "same_mutation c d \<Longrightarrow> pending_selection d = pending_selection c"
  by (simp add: same_mutation_def pending_selection_def)

lemma answer_pending:
  assumes "pending_selection (fst (phase_answer c h p a)) = Some s" "hc_phase c = Some p"
  shows "pending_selection c = Some s"
proof -
  have "pending_selection c = phase_selection p" using assms(2) by (simp add: pending_selection_def)
  with assms show ?thesis
    by (cases p; cases a)
      (auto simp: phase_answer_def on_commands_def on_fresh_list_def on_restored_def on_fresh_thread_def
        on_rewound_def on_forked_def on_rehydrated_def nothing_pending Let_def
        split: option.splits historySelection.splits if_splits)
qed

text \<open>A selection comes from a call of \<open>apply\<close> whose lease was acquired.\<close>

lemma step_pending:
  assumes "pending_selection (fst (history_step c e)) = Some s"
  shows "pending_selection c = Some s \<or> (\<exists>h. e = VApply h s None)"
proof (cases e)
  case (VAnswer h a)
  show ?thesis
  proof (cases "hc_phase c")
    case None
    with VAnswer assms show ?thesis by (simp add: history_step_def)
  next
    case (Some p)
    with VAnswer assms have "pending_selection (fst (phase_answer c h p a)) = Some s"
      by (simp add: history_step_def)
    from answer_pending [OF this Some] show ?thesis by simp
  qed
next
  case (VApply h s' a)
  with assms show ?thesis
    by (auto simp: history_step_def apply_begin_def nothing_pending Let_def split: if_splits option.splits)
next
  case (VRetry h)
  with assms show ?thesis
    by (auto simp: history_step_def retryRefresh_def nothing_pending split: if_splits)
next
  case (VBinding h)
  with assms show ?thesis
    by (auto simp: history_step_def binding_changed_def case_prod_beta split: if_splits)
next
  case VUnsubscribe
  with assms show ?thesis
    by (auto simp: history_step_def history_unsubscribe_def cancelLoad_def pending_selection_def Let_def
        split: if_splits)
qed (use assms in \<open>auto simp: history_step_def history_subscribe_def
    same_mutation_pending [OF history_load_same] same_mutation_pending [OF load_answer_same]\<close>)

lemma run_pending:
  "pending_selection (fst (history_run c es)) = Some s \<Longrightarrow>
     pending_selection c = Some s \<or> (\<exists>h. VApply h s None \<in> set es)"
proof (induction es arbitrary: c)
  case (Cons e es)
  then have "pending_selection (fst (history_run (fst (history_step c e)) es)) = Some s" by simp
  from Cons.IH [OF this] step_pending [of c e s] show ?case by auto
qed simp

lemma new_pending [simp]: "pending_selection (new_coordinator session m b) = None"
  by (simp add: pending_selection_def new_coordinator_def)

text \<open>Which request a step makes, and of what.\<close>

lemma send_on_fresh_history:
  assumes "HSend x \<in> set (snd (history_step c e))"
  shows "\<exists>h. ho_binding h \<and> ho_lease h \<and> assertIdle h = None
    \<and> ((\<exists>i l. x = RestoreSnapshot i \<and> pending_selection c = Some (SelUndo i) \<and> e = VAnswer h (XList l)
            \<and> sl_session_id l = hc_session c \<and> sl_available l \<and> i \<in> ws_id ` set (sl_snapshots l))
       \<or> (\<exists>cp t n prefill. x = Rewind n \<and> pending_selection c = Some (SelRewind cp) \<and> e = VAnswer h (XThread t)
            \<and> hr_session_id t = hc_session c \<and> \<not> active_turn t \<and> resolveCheckpoint t cp = Some (n, prefill))
       \<or> (\<exists>name. x = Fork name \<and> pending_selection c = Some (SelFork name)
            \<and> e = VAnswer h XCommands \<and> validForkChatId name))"
proof -
  have "\<exists>h a p. e = VAnswer h a \<and> hc_phase c = Some p"
    using assms no_send
    by (cases e; cases "hc_phase c")
      (auto simp: history_step_def history_unsubscribe_def binding_changed_def apply_begin_def
        retryRefresh_def Let_def case_prod_beta split: option.splits if_splits)
  then obtain h a p where e: "e = VAnswer h a" "hc_phase c = Some p" by blast
  then have pending: "pending_selection c = phase_selection p" by (simp add: pending_selection_def)
  from e assms have s: "HSend x \<in> set (snd (phase_answer c h p a))" by (simp add: history_step_def)
  then have "(\<exists>i l. p = PFreshList i \<and> a = XList l \<and> HSend x \<in> set (snd (on_fresh_list c h i l)))
      \<or> (\<exists>cp t. p = PFreshThread cp \<and> a = XThread t \<and> HSend x \<in> set (snd (on_fresh_thread c h cp t)))
      \<or> (\<exists>s. p = PCommands s \<and> a = XCommands \<and> HSend x \<in> set (snd (on_commands c h s)))"
    using no_send
    by (cases p; cases a)
      (auto simp: phase_answer_def on_restored_def on_rewound_def on_forked_def on_rehydrated_def Let_def
        split: option.splits if_splits)
  then consider i l where "p = PFreshList i" "a = XList l" "HSend x \<in> set (snd (on_fresh_list c h i l))"
    | cp t where "p = PFreshThread cp" "a = XThread t" "HSend x \<in> set (snd (on_fresh_thread c h cp t))"
    | s where "p = PCommands s" "a = XCommands" "HSend x \<in> set (snd (on_commands c h s))"
    by blast
  then show ?thesis
  proof cases
    case 1
    with e pending no_send show ?thesis
      by (intro exI [of _ h])
        (auto simp: on_fresh_list_def first_error_None assertLease_None fails_when_def list_ex_iff
          split: option.splits if_splits)
  next
    case 2
    from fresh_thread_send [OF 2(3)] e pending 2(1,2) show ?thesis
      by (intro exI [of _ h]) (auto simp: history_step_def phase_answer_def)
  next
    case 3
    with e pending no_send show ?thesis
      by (intro exI [of _ h])
        (auto simp: on_commands_def first_error_None assertLease_None fails_when_def
          split: option.splits if_splits historySelection.splits)
  qed
qed

text \<open>
  C30: Over any run of a dialog, each change that leaves is one the user asked \<open>apply\<close> for, under a
  current lease, with nothing blocking it, and with the arguments of history just read: the snapshot
  restored is the selected one and is in the available fresh list of this Session, the rewind drops
  exactly the number of turns that a fresh thread of this Session, with no turn active, resolves the
  selected checkpoint to, and the fork carries the selected, valid name.
\<close>
theorem change_is_sent_on_fresh_history:
  assumes "c = fst (history_run (new_coordinator session m b) es)"
    and "HSend x \<in> set (snd (history_step c e))"
  shows "\<exists>h h'. ho_binding h \<and> ho_lease h \<and> assertIdle h = None
    \<and> ((\<exists>i l. x = RestoreSnapshot i \<and> VApply h' (SelUndo i) None \<in> set es \<and> e = VAnswer h (XList l)
            \<and> sl_session_id l = hc_session c \<and> sl_available l \<and> i \<in> ws_id ` set (sl_snapshots l))
       \<or> (\<exists>cp t n prefill. x = Rewind n \<and> VApply h' (SelRewind cp) None \<in> set es \<and> e = VAnswer h (XThread t)
            \<and> hr_session_id t = hc_session c \<and> \<not> active_turn t \<and> resolveCheckpoint t cp = Some (n, prefill))
       \<or> (\<exists>name. x = Fork name \<and> VApply h' (SelFork name) None \<in> set es
            \<and> e = VAnswer h XCommands \<and> validForkChatId name))"
proof -
  have asked: "\<exists>h'. VApply h' s None \<in> set es" if "pending_selection c = Some s" for s
    using that run_pending [of "new_coordinator session m b" es s] assms(1) by auto
  from send_on_fresh_history [OF assms(2)] obtain h where h: "ho_binding h" "ho_lease h" "assertIdle h = None"
    and kinds: "(\<exists>i l. x = RestoreSnapshot i \<and> pending_selection c = Some (SelUndo i) \<and> e = VAnswer h (XList l)
          \<and> sl_session_id l = hc_session c \<and> sl_available l \<and> i \<in> ws_id ` set (sl_snapshots l))
      \<or> (\<exists>cp t n prefill. x = Rewind n \<and> pending_selection c = Some (SelRewind cp) \<and> e = VAnswer h (XThread t)
          \<and> hr_session_id t = hc_session c \<and> \<not> active_turn t \<and> resolveCheckpoint t cp = Some (n, prefill))
      \<or> (\<exists>name. x = Fork name \<and> pending_selection c = Some (SelFork name)
          \<and> e = VAnswer h XCommands \<and> validForkChatId name)"
    by (elim exE conjE) (rule that; assumption)
  from kinds show ?thesis
  proof (elim disjE exE conjE)
    fix i l
    assume "pending_selection c = Some (SelUndo i)" and rest: "x = RestoreSnapshot i" "e = VAnswer h (XList l)"
      "sl_session_id l = hc_session c" "sl_available l" "i \<in> ws_id ` set (sl_snapshots l)"
    from asked [OF this(1)] obtain h' where "VApply h' (SelUndo i) None \<in> set es" by blast
    with h rest show ?thesis by - (rule exI [of _ h], rule exI [of _ h'], auto)
  next
    fix cp t n prefill
    assume "pending_selection c = Some (SelRewind cp)" and rest: "x = Rewind n" "e = VAnswer h (XThread t)"
      "hr_session_id t = hc_session c" "\<not> active_turn t" "resolveCheckpoint t cp = Some (n, prefill)"
    from asked [OF this(1)] obtain h' where "VApply h' (SelRewind cp) None \<in> set es" by blast
    with h rest show ?thesis by - (rule exI [of _ h], rule exI [of _ h'], auto)
  next
    fix name
    assume "pending_selection c = Some (SelFork name)" and rest: "x = Fork name" "e = VAnswer h XCommands"
      "validForkChatId name"
    from asked [OF this(1)] obtain h' where "VApply h' (SelFork name) None \<in> set es" by blast
    with h rest show ?thesis by - (rule exI [of _ h], rule exI [of _ h'], auto)
  qed
qed

lemma change_is_sent_on_fresh_history_witness:
  "HSend (RestoreSnapshot ''p'') \<in> set (snd (history_step
      (fst (history_run (new_coordinator ''s'' MUndo None) (take 3 lost_answer)))
      (VAnswer idle_host (XList restore_point))))
   \<and> ''p'' \<in> ws_id ` set (sl_snapshots restore_point)"
proof
  let ?c = "fst (history_run (new_coordinator ''s'' MUndo None) (take 3 lost_answer))"
  show s: "HSend (RestoreSnapshot ''p'') \<in> set (snd (history_step ?c (VAnswer idle_host (XList restore_point))))"
    by code_simp
  from change_is_sent_on_fresh_history [OF refl s]
  show "''p'' \<in> ws_id ` set (sl_snapshots restore_point)" by auto
qed

end
