(* ===== verification/Transport.thy ===== *)
theory Transport
  imports Wire "HOL-Library.Multiset"
begin

text \<open>
  The RPC transport of \<open>packages/client/src/client.ts\<close>: connection status, request bookkeeping and
  frame dispatch. Sockets are numbered in the order \<open>connect\<close> makes them; what a socket, a timer or
  a caller does is an event, and what the client does to them is an effect. The typed wrappers
  (\<open>openSession\<close>, \<open>hydrateSession\<close>, ...) are \<open>validatedRequest\<close> with a method name and a decoder.
\<close>

section \<open>State\<close>

datatype connectionStatus = StIdle | StConnecting | StConnected | StDisconnected | StError

datatype transportError =
    PlainFailure string
  | TimedOut string
  | ConnectionClosed "nat option" "string option"
  | ProtocolFailure rpcError

text \<open>A connection attempt: whether its promise is settled and whether its timer still runs.\<close>

record attempt =
  at_settled :: bool
  at_timer :: bool

record transport =
  tp_status :: connectionStatus
  tp_socket :: "nat option"
  tp_attempts :: "(nat, attempt) jsmap"
  tp_pending :: "(string, string) jsmap"
  tp_settledIds :: "string list"
  tp_settledOrder :: "string list"
  tp_nextRequestId :: nat

text \<open>
  \<open>tp_pending\<close> maps a request id to its method; the promise and the timer of the request are known
  by the same id. \<open>tp_settledIds\<close> is the \<open>Set\<close> of ids whose answer may still come.
\<close>

definition new_transport :: transport where
  "new_transport = \<lparr>tp_status = StIdle, tp_socket = None, tp_attempts = [], tp_pending = [],
     tp_settledIds = [], tp_settledOrder = [], tp_nextRequestId = 1\<rparr>"

datatype transportEffect =
    StatusChanged connectionStatus
  | ErrorShown string
  | Notified rpcNotification
  | Sent nat rpcRequest
  | SocketClosed nat
  | ConnectDone nat
  | ConnectFailed "nat option" transportError
  | Resolved string json
  | Rejected string transportError
  | Refused transportError

type_synonym 'a effectful = "'a \<times> transportEffect list"

section \<open>Bookkeeping\<close>

definition setStatus :: "connectionStatus \<Rightarrow> transport \<Rightarrow> transport effectful" where
  "setStatus s t = (if s = tp_status t then (t, []) else (t\<lparr>tp_status := s\<rparr>, [StatusChanged s]))"

text \<open>The loop of \<open>markRequestSettled\<close>: forget the oldest ids beyond 128.\<close>

fun expire :: "string list \<Rightarrow> string list \<Rightarrow> string list \<times> string list" where
  "expire ids [] = (ids, [])"
| "expire ids (i # order) =
     (if length (i # order) > 128 then expire (filter (\<lambda>x. x \<noteq> i) ids) order else (ids, i # order))"

text \<open>\<open>if (expired)\<close> is always true: an id is a decimal numeral, never the empty string.\<close>

definition markRequestSettled :: "string \<Rightarrow> transport \<Rightarrow> transport" where
  "markRequestSettled i t =
     (let ids = (if i \<in> set (tp_settledIds t) then tp_settledIds t else tp_settledIds t @ [i]);
          r = expire ids (tp_settledOrder t @ [i])
      in t\<lparr>tp_settledIds := fst r, tp_settledOrder := snd r\<rparr>)"

definition rejectPending :: "transportError \<Rightarrow> transport \<Rightarrow> transport effectful" where
  "rejectPending e t =
     (let ids = map_keys (tp_pending t)
      in ((foldl (\<lambda>t i. markRequestSettled i t) t ids)\<lparr>tp_pending := []\<rparr>,
          map (\<lambda>i. Rejected i e) ids))"

section \<open>Connecting\<close>

definition not_ready :: transportError where
  "not_ready = PlainFailure ''Octos UI Protocol connection is not ready''"

definition connect_timed_out :: string where
  "connect_timed_out = ''Connection timed out. Check that Octos is running and the server address is reachable.''"

definition could_not_open :: string where
  "could_not_open = ''Could not open the Octos UI Protocol connection''"

text \<open>
  The socket is numbered by the caller. \<open>buildUiProtocolUrl\<close> may throw on a bad endpoint, before the
  guarded call of the socket factory, and the factory itself may throw; both carry the message.
\<close>

datatype socketStart = Started | UrlThrew string | FactoryThrew string

definition connect_begin :: "transport \<Rightarrow> nat \<Rightarrow> socketStart \<Rightarrow> transport effectful" where
  "connect_begin t k start =
     (if tp_socket t \<noteq> None
      then (t, [ConnectFailed None (PlainFailure ''Octos UI client is already connected'')])
      else let (t1, out1) = setStatus StConnecting t
           in case start of
                UrlThrew m \<Rightarrow> (t1, out1 @ [ConnectFailed None (PlainFailure m)])
              | FactoryThrew m \<Rightarrow>
                  (let (t2, out2) = setStatus StError t1
                   in (t2, out1 @ out2 @ [ErrorShown m, ConnectFailed None (PlainFailure m)]))
              | Started \<Rightarrow>
                  (t1\<lparr>tp_socket := Some k,
                      tp_attempts := map_put k \<lparr>at_settled = False, at_timer = True\<rparr> (tp_attempts t1)\<rparr>,
                   out1))"

definition settle_attempt :: "nat \<Rightarrow> transport \<Rightarrow> transport" where
  "settle_attempt k t =
     t\<lparr>tp_attempts := map_put k \<lparr>at_settled = True, at_timer = False\<rparr> (tp_attempts t)\<rparr>"

text \<open>Reject the attempt's promise unless it is settled; the timer is cleared in any case.\<close>

definition reject_attempt :: "nat \<Rightarrow> transportError \<Rightarrow> attempt \<Rightarrow> transportEffect list" where
  "reject_attempt k e a = (if at_settled a then [] else [ConnectFailed (Some k) e])"

definition on_connect_timeout :: "transport \<Rightarrow> nat \<Rightarrow> transport effectful" where
  "on_connect_timeout t k =
     (case map_get (tp_attempts t) k of
        None \<Rightarrow> (t, [])
      | Some a \<Rightarrow>
          if \<not> at_timer a then (t, [])
          else if at_settled a
          then (t\<lparr>tp_attempts := map_put k (a\<lparr>at_timer := False\<rparr>) (tp_attempts t)\<rparr>, [])
          else let t1 = settle_attempt k t; failed = [ConnectFailed (Some k) (PlainFailure connect_timed_out)]
               in if tp_socket t1 \<noteq> Some k then (t1, failed)
                  else let (t2, out) = setStatus StError (t1\<lparr>tp_socket := None\<rparr>)
                       in (t2, failed @ [ErrorShown connect_timed_out] @ out @ [SocketClosed k]))"

definition on_open :: "transport \<Rightarrow> nat \<Rightarrow> transport effectful" where
  "on_open t k =
     (case map_get (tp_attempts t) k of
        None \<Rightarrow> (t, [])
      | Some a \<Rightarrow>
          let t1 = settle_attempt k t
          in if at_settled a then (t1, [])
             else if tp_socket t \<noteq> Some k
             then (t1, [ConnectFailed (Some k) (PlainFailure ''Octos UI Protocol connection replaced'')])
             else let (t2, out) = setStatus StConnected t1 in (t2, out @ [ConnectDone k]))"

definition on_error :: "transport \<Rightarrow> nat \<Rightarrow> transport effectful" where
  "on_error t k =
     (case map_get (tp_attempts t) k of
        None \<Rightarrow> (t, [])
      | Some a \<Rightarrow>
          let t1 = settle_attempt k t; failed = reject_attempt k (PlainFailure could_not_open) a
          in if tp_socket t \<noteq> Some k then (t1, failed)
             else let (t2, out) = setStatus StError t1 in (t2, [ErrorShown could_not_open] @ out @ failed))"

definition on_close :: "transport \<Rightarrow> nat \<Rightarrow> nat option \<Rightarrow> string option \<Rightarrow> transport effectful" where
  "on_close t k code reason =
     (case map_get (tp_attempts t) k of
        None \<Rightarrow> (t, [])
      | Some a \<Rightarrow>
          let e = ConnectionClosed code reason; t1 = settle_attempt k t; failed = reject_attempt k e a
          in if tp_socket t \<noteq> Some k then (t1, failed)
             else let (t2, out) = rejectPending e (t1\<lparr>tp_socket := None\<rparr>)
                  in if \<not> at_settled a
                     then let (t3, out3) = setStatus StError t2 in (t3, out @ out3 @ failed)
                     else if tp_status t2 \<noteq> StError
                     then let (t3, out3) = setStatus StDisconnected t2 in (t3, out @ out3)
                     else (t2, out))"

text \<open>\<open>open_enough\<close>: the socket's \<open>readyState\<close> is below \<open>CLOSING\<close>.\<close>

definition disconnect :: "transport \<Rightarrow> bool \<Rightarrow> transport effectful" where
  "disconnect t open_enough =
     (let (t1, out) = rejectPending (PlainFailure ''Octos UI Protocol client disconnected'')
                        (t\<lparr>tp_socket := None\<rparr>);
          closing = (case tp_socket t of None \<Rightarrow> [] | Some k \<Rightarrow> if open_enough then [SocketClosed k] else []);
          (t2, out2) = setStatus StDisconnected t1
      in (t2, out @ closing @ out2))"

section \<open>Requests and frames\<close>

text \<open>
  \<open>ready\<close>: the socket's \<open>readyState\<close> is \<open>OPEN\<close>; \<open>send_error\<close>: the message of what \<open>send\<close> threw.
\<close>

definition request ::
  "transport \<Rightarrow> string \<Rightarrow> unknown \<Rightarrow> bool \<Rightarrow> string option \<Rightarrow> transport effectful" where
  "request t method params ready send_error =
     (case tp_socket t of
        None \<Rightarrow> (t, [Refused not_ready])
      | Some k \<Rightarrow>
          if tp_status t \<noteq> StConnected \<or> \<not> ready then (t, [Refused not_ready])
          else let i = show_nat (tp_nextRequestId t);
                   t1 = t\<lparr>tp_nextRequestId := tp_nextRequestId t + 1,
                          tp_pending := map_put i method (tp_pending t)\<rparr>
               in case send_error of
                    None \<Rightarrow> (t1, [Sent k (createRequest i method params)])
                  | Some m \<Rightarrow> (t1\<lparr>tp_pending := map_del i (tp_pending t1)\<rparr>, [Refused (PlainFailure m)]))"

text \<open>The request's timer; it was cleared when the request is no longer pending.\<close>

definition on_request_timeout :: "transport \<Rightarrow> string \<Rightarrow> transport effectful" where
  "on_request_timeout t i =
     (case map_get (tp_pending t) i of
        None \<Rightarrow> (t, [])
      | Some method \<Rightarrow>
          (markRequestSettled i (t\<lparr>tp_pending := map_del i (tp_pending t)\<rparr>), [Rejected i (TimedOut method)]))"

definition frame_response ::
  "transport \<Rightarrow> string option \<Rightarrow> string \<Rightarrow> (string \<Rightarrow> transportEffect) \<Rightarrow> transport effectful" where
  "frame_response t rid missing settle =
     (case rid of
        None \<Rightarrow> (t, [ErrorShown missing])
      | Some i \<Rightarrow>
          (case map_get (tp_pending t) i of
             None \<Rightarrow>
               if i \<in> set (tp_settledIds t)
               then (t\<lparr>tp_settledIds := filter (\<lambda>x. x \<noteq> i) (tp_settledIds t)\<rparr>, [])
               else (t, [ErrorShown (''Received response for unknown request '' @ i)])
           | Some _ \<Rightarrow> (t\<lparr>tp_pending := map_del i (tp_pending t)\<rparr>, [settle i])))"

text \<open>A message is text, already parsed (\<open>None\<close> when \<open>JSON.parse\<close> threw), or not text at all.\<close>

datatype frameData = Binary | Text unknown

definition handleMessage :: "transport \<Rightarrow> frameData \<Rightarrow> transport effectful" where
  "handleMessage t data =
     (case data of
        Binary \<Rightarrow> (t, [ErrorShown ''Octos UI Protocol sent a non-text frame''])
      | Text source \<Rightarrow>
          (case parseIncomingFrame source of
             FInvalid reason \<Rightarrow> (t, [ErrorShown (''Rejected protocol frame: '' @ reason)])
           | FNotification n \<Rightarrow> (t, [Notified n])
           | FSuccess i result \<Rightarrow>
               frame_response t (Some i) ''Protocol response is missing a request id'' (\<lambda>i. Resolved i result)
           | FFailure rid e \<Rightarrow>
               frame_response t rid (err_message e) (\<lambda>i. Rejected i (ProtocolFailure e))))"

definition on_message :: "transport \<Rightarrow> nat \<Rightarrow> frameData \<Rightarrow> transport effectful" where
  "on_message t k data = (if tp_socket t = Some k then handleMessage t data else (t, []))"

text \<open>\<open>validatedRequest\<close>: what a settled request gives its caller, through its decoder.\<close>

definition validated :: "string \<Rightarrow> (unknown \<Rightarrow> 'a option) \<Rightarrow> json \<Rightarrow> transportError + 'a" where
  "validated method parse result =
     (case parse (Some result) of
        None \<Rightarrow> Inl (PlainFailure (method @ '' returned an invalid result''))
      | Some v \<Rightarrow> Inr v)"

section \<open>Events\<close>

datatype transportEvent =
    Connect nat socketStart
  | Disconnect bool
  | Request string unknown bool "string option"
  | ConnectTimer nat
  | Opened nat
  | Errored nat
  | Closed nat "nat option" "string option"
  | RequestTimer string
  | Message nat frameData

definition transport_step :: "transport \<Rightarrow> transportEvent \<Rightarrow> transport effectful" where
  "transport_step t e =
     (case e of
        Connect k f \<Rightarrow> connect_begin t k f
      | Disconnect b \<Rightarrow> disconnect t b
      | Request m p r s \<Rightarrow> request t m p r s
      | ConnectTimer k \<Rightarrow> on_connect_timeout t k
      | Opened k \<Rightarrow> on_open t k
      | Errored k \<Rightarrow> on_error t k
      | Closed k c r \<Rightarrow> on_close t k c r
      | RequestTimer i \<Rightarrow> on_request_timeout t i
      | Message k d \<Rightarrow> on_message t k d)"

fun transport_run :: "transport \<Rightarrow> transportEvent list \<Rightarrow> transport effectful" where
  "transport_run t [] = (t, [])"
| "transport_run t (e # es) =
     (let (t', out) = transport_step t e; (t'', outs) = transport_run t' es in (t'', out @ outs))"

lemma transport_run_Cons [simp]:
  "fst (transport_run t (e # es)) = fst (transport_run (fst (transport_step t e)) es)"
  "snd (transport_run t (e # es))
     = snd (transport_step t e) @ snd (transport_run (fst (transport_step t e)) es)"
  by (simp_all add: Let_def split: prod.split)

declare transport_run.simps(2) [simp del]

section \<open>Bookkeeping facts\<close>

lemma setStatus_simps [simp]:
  "tp_pending (fst (setStatus s t)) = tp_pending t" "tp_socket (fst (setStatus s t)) = tp_socket t"
  "tp_attempts (fst (setStatus s t)) = tp_attempts t" "tp_settledIds (fst (setStatus s t)) = tp_settledIds t"
  "tp_settledOrder (fst (setStatus s t)) = tp_settledOrder t"
  "tp_nextRequestId (fst (setStatus s t)) = tp_nextRequestId t" "tp_status (fst (setStatus s t)) = s"
  "snd (setStatus s t) = (if s = tp_status t then [] else [StatusChanged s])"
  by (simp_all add: setStatus_def)

lemma mark_simps [simp]:
  "tp_pending (markRequestSettled i t) = tp_pending t" "tp_socket (markRequestSettled i t) = tp_socket t"
  "tp_attempts (markRequestSettled i t) = tp_attempts t" "tp_status (markRequestSettled i t) = tp_status t"
  "tp_nextRequestId (markRequestSettled i t) = tp_nextRequestId t"
  by (simp_all add: markRequestSettled_def Let_def)

lemma marks_simps [simp]:
  "tp_pending (foldl (\<lambda>t i. markRequestSettled i t) t is) = tp_pending t"
  "tp_socket (foldl (\<lambda>t i. markRequestSettled i t) t is) = tp_socket t"
  "tp_attempts (foldl (\<lambda>t i. markRequestSettled i t) t is) = tp_attempts t"
  "tp_status (foldl (\<lambda>t i. markRequestSettled i t) t is) = tp_status t"
  "tp_nextRequestId (foldl (\<lambda>t i. markRequestSettled i t) t is) = tp_nextRequestId t"
  by (induction "is" arbitrary: t) simp_all

lemma rejectPending_simps [simp]:
  "tp_pending (fst (rejectPending e t)) = []" "tp_socket (fst (rejectPending e t)) = tp_socket t"
  "tp_attempts (fst (rejectPending e t)) = tp_attempts t" "tp_status (fst (rejectPending e t)) = tp_status t"
  "tp_nextRequestId (fst (rejectPending e t)) = tp_nextRequestId t"
  "snd (rejectPending e t) = map (\<lambda>i. Rejected i e) (map_keys (tp_pending t))"
  by (simp_all add: rejectPending_def Let_def)

lemma settle_simps [simp]:
  "tp_pending (settle_attempt k t) = tp_pending t" "tp_socket (settle_attempt k t) = tp_socket t"
  "tp_status (settle_attempt k t) = tp_status t"
  "tp_nextRequestId (settle_attempt k t) = tp_nextRequestId t"
  "tp_settledIds (settle_attempt k t) = tp_settledIds t"
  "tp_settledOrder (settle_attempt k t) = tp_settledOrder t"
  "map_get (tp_attempts (settle_attempt k t)) k' =
     (if k' = k then Some \<lparr>at_settled = True, at_timer = False\<rparr> else map_get (tp_attempts t) k')"
  by (simp_all add: settle_attempt_def map_get_put)

text \<open>Which requests a trace dispatched, and which promises it settled.\<close>

fun sent_id :: "transportEffect \<Rightarrow> string option" where
  "sent_id (Sent _ r) = Some (rq_id r)"
| "sent_id _ = None"

fun settled_id :: "transportEffect \<Rightarrow> string option" where
  "settled_id (Resolved i _) = Some i"
| "settled_id (Rejected i _) = Some i"
| "settled_id _ = None"

definition dispatched :: "transportEffect list \<Rightarrow> string list" where
  "dispatched out = List.map_filter sent_id out"

definition answered_ids :: "transportEffect list \<Rightarrow> string list" where
  "answered_ids out = List.map_filter settled_id out"

lemma ids_simps [simp]:
  "dispatched [] = []" "answered_ids [] = []"
  "dispatched (x # out) = (case sent_id x of None \<Rightarrow> dispatched out | Some i \<Rightarrow> i # dispatched out)"
  "answered_ids (x # out) = (case settled_id x of None \<Rightarrow> answered_ids out | Some i \<Rightarrow> i # answered_ids out)"
  "dispatched (a @ b) = dispatched a @ dispatched b"
  "answered_ids (a @ b) = answered_ids a @ answered_ids b"
  by (simp_all add: dispatched_def answered_ids_def map_filter_def split: option.split)

lemma rejected_ids [simp]:
  "dispatched (map (\<lambda>i. Rejected i e) is) = []" "answered_ids (map (\<lambda>i. Rejected i e) is) = is"
  by (induction "is") simp_all

text \<open>Ids are numerals below the counter, so a new one is fresh.\<close>

definition ids_ok :: "transport \<Rightarrow> bool" where
  "ids_ok t = (map_ok (tp_pending t)
     \<and> set (map_keys (tp_pending t)) \<subseteq> show_nat ` {..<tp_nextRequestId t})"

lemma mset_filter_neq:
  "distinct xs \<Longrightarrow> k \<in> set xs \<Longrightarrow> mset xs = {#k#} + mset (filter (\<lambda>x. x \<noteq> k) xs)"
proof (induction xs)
  case (Cons x xs)
  show ?case
  proof (cases "x = k")
    case True
    with Cons.prems have "filter (\<lambda>x. x \<noteq> k) (x # xs) = xs" by (auto simp: filter_id_conv)
    with True show ?thesis by (simp del: filter.simps)
  next
    case False
    with Cons show ?thesis by simp
  qed
qed simp

lemma mset_del:
  "map_ok m \<Longrightarrow> map_get m k = Some v \<Longrightarrow> mset (map_keys m) = {#k#} + mset (map_keys (map_del k m))"
  using mset_filter_neq [of "map_keys m" k] map_keys_get [of k m]
  by (simp add: map_keys_del map_ok_def)

text \<open>A step dispatches, answers or keeps every request.\<close>

definition balanced :: "transport \<Rightarrow> transport effectful \<Rightarrow> bool" where
  "balanced t r = (ids_ok (fst r) \<and> tp_nextRequestId t \<le> tp_nextRequestId (fst r)
     \<and> mset (map_keys (tp_pending t)) + mset (dispatched (snd r))
         = mset (answered_ids (snd r)) + mset (map_keys (tp_pending (fst r)))
     \<and> set (dispatched (snd r)) \<subseteq> show_nat ` {tp_nextRequestId t..<tp_nextRequestId (fst r)}
     \<and> distinct (dispatched (snd r)))"

lemma balanced_same:
  "ids_ok t \<Longrightarrow> tp_pending t' = tp_pending t \<Longrightarrow> tp_nextRequestId t' = tp_nextRequestId t \<Longrightarrow>
     dispatched out = [] \<Longrightarrow> answered_ids out = [] \<Longrightarrow> balanced t (t', out)"
  by (simp add: balanced_def ids_ok_def)

lemma balanced_cleared:
  "ids_ok t \<Longrightarrow> tp_pending t' = [] \<Longrightarrow> tp_nextRequestId t' = tp_nextRequestId t \<Longrightarrow>
     dispatched out = [] \<Longrightarrow> answered_ids out = map_keys (tp_pending t) \<Longrightarrow> balanced t (t', out)"
  by (simp add: balanced_def ids_ok_def map_keys_def map_ok_def)

lemma balanced_answered:
  assumes "ids_ok t" and "map_get (tp_pending t) i = Some m" and "tp_pending t' = map_del i (tp_pending t)"
    and "tp_nextRequestId t' = tp_nextRequestId t" and "dispatched out = []" and "answered_ids out = [i]"
  shows "balanced t (t', out)"
  using assms mset_del [OF _ assms(2)]
  by (auto simp: balanced_def ids_ok_def map_keys_del)

lemma rejections_quiet [simp]:
  "dispatched (reject_attempt k e a) = []" "answered_ids (reject_attempt k e a) = []"
  by (simp_all add: reject_attempt_def)

lemma frame_response_balanced:
  assumes "ids_ok t" and settle: "\<And>i. sent_id (settle i) = None" "\<And>i. settled_id (settle i) = Some i"
  shows "balanced t (frame_response t rid m settle)"
proof (cases rid)
  case None
  with assms show ?thesis by (auto simp: frame_response_def intro: balanced_same)
next
  case (Some i)
  show ?thesis
  proof (cases "map_get (tp_pending t) i")
    case None
    with assms Some show ?thesis by (auto simp: frame_response_def intro: balanced_same)
  next
    case p: (Some v)
    have "balanced t (t\<lparr>tp_pending := map_del i (tp_pending t)\<rparr>, [settle i])"
      by (rule balanced_answered [OF assms(1) p]) (simp_all add: settle)
    with Some p show ?thesis by (simp add: frame_response_def)
  qed
qed

lemma request_balanced:
  assumes "ids_ok t"
  shows "balanced t (request t m p r s)"
proof -
  let ?i = "show_nat (tp_nextRequestId t)"
  have "map_get (tp_pending t) ?i = None"
    using assms map_keys_get [of ?i "tp_pending t"] by (auto simp: ids_ok_def)
  then have new: "map_put ?i m (tp_pending t) = tp_pending t @ [(?i, m)]" by (simp add: map_put_absent)
  have keys: "?i \<notin> set (map_keys (tp_pending t))"
    using assms by (auto simp: ids_ok_def)
  have "fst kv \<noteq> ?i" if "kv \<in> set (tp_pending t)" for kv
    using keys that unfolding map_keys_def set_map by (metis imageI)
  then have del: "map_del ?i (tp_pending t @ [(?i, m)]) = tp_pending t"
    by (simp add: map_del_def filter_id_conv)
  have "ids_ok (t\<lparr>tp_nextRequestId := Suc (tp_nextRequestId t), tp_pending := tp_pending t @ [(?i, m)]\<rparr>)"
    using assms keys by (auto simp: ids_ok_def map_ok_def map_keys_def less_Suc_eq)
  moreover have "ids_ok (t\<lparr>tp_nextRequestId := Suc (tp_nextRequestId t)\<rparr>)"
    using assms by (force simp: ids_ok_def less_Suc_eq)
  ultimately show ?thesis
    using assms new del keys
    by (auto simp: request_def Let_def balanced_def createRequest_def map_keys_def split: option.split)
qed

lemma connection_balanced:
  assumes "ids_ok t"
  shows "balanced t (connect_begin t k f)" "balanced t (on_open t k)" "balanced t (on_error t k)"
    "balanced t (on_connect_timeout t k)" "balanced t (disconnect t b)" "balanced t (on_close t k c r)"
proof -
  show "balanced t (connect_begin t k f)"
    using assms
    by (auto simp: connect_begin_def Let_def case_prod_beta intro!: balanced_same split: socketStart.split)
  show "balanced t (on_open t k)" "balanced t (on_error t k)" "balanced t (on_connect_timeout t k)"
    using assms
    by (auto simp: on_open_def on_error_def on_connect_timeout_def Let_def case_prod_beta
        intro!: balanced_same split: option.split)
  show "balanced t (disconnect t b)"
    using assms
    by (auto simp: disconnect_def Let_def case_prod_beta intro!: balanced_cleared split: option.split)
  show "balanced t (on_close t k c r)"
  proof (cases "map_get (tp_attempts t) k")
    case None
    with assms show ?thesis by (auto simp: on_close_def intro: balanced_same)
  next
    case (Some a)
    show ?thesis
    proof (cases "tp_socket t = Some k")
      case True
      with Some assms show ?thesis
        by (auto simp: on_close_def Let_def case_prod_beta intro!: balanced_cleared)
    next
      case False
      with Some assms show ?thesis
        by (auto simp: on_close_def Let_def case_prod_beta intro!: balanced_same)
    qed
  qed
qed

lemma timeout_balanced:
  assumes "ids_ok t"
  shows "balanced t (on_request_timeout t i)"
proof (cases "map_get (tp_pending t) i")
  case None
  with assms show ?thesis by (auto simp: on_request_timeout_def intro: balanced_same)
next
  case (Some m)
  have "balanced t (markRequestSettled i (t\<lparr>tp_pending := map_del i (tp_pending t)\<rparr>), [Rejected i (TimedOut m)])"
    by (rule balanced_answered [OF assms Some]) simp_all
  with Some show ?thesis by (simp add: on_request_timeout_def)
qed

lemma message_balanced:
  assumes "ids_ok t"
  shows "balanced t (on_message t k d)"
proof (cases d)
  case Binary
  with assms show ?thesis by (auto simp: on_message_def handleMessage_def intro: balanced_same)
next
  case (Text source)
  show ?thesis
  proof (cases "parseIncomingFrame source")
    case (FSuccess i r)
    with Text assms frame_response_balanced [OF assms] balanced_same [OF assms] show ?thesis
      by (simp add: on_message_def handleMessage_def)
  next
    case (FFailure i e)
    with Text assms frame_response_balanced [OF assms] balanced_same [OF assms] show ?thesis
      by (simp add: on_message_def handleMessage_def)
  qed (use Text assms balanced_same [OF assms] in \<open>simp_all add: on_message_def handleMessage_def\<close>)
qed

lemma step_balanced: "ids_ok t \<Longrightarrow> balanced t (transport_step t e)"
  by (cases e)
    (simp_all add: transport_step_def connection_balanced timeout_balanced message_balanced request_balanced)

lemma run_balanced:
  "ids_ok t \<Longrightarrow> balanced t (transport_run t es)"
proof (induction es arbitrary: t)
  case Nil
  then show ?case by (simp add: balanced_same)
next
  case (Cons e es)
  let ?t = "fst (transport_step t e)"
  from step_balanced [OF Cons.prems, of e] have s: "ids_ok ?t" "balanced t (transport_step t e)"
    by (simp_all add: balanced_def)
  from Cons.IH [OF s(1)] s(2)
  have d: "set (dispatched (snd (transport_step t e)))
      \<subseteq> show_nat ` {tp_nextRequestId t..<tp_nextRequestId ?t}"
    and d': "set (dispatched (snd (transport_run ?t es)))
      \<subseteq> show_nat ` {tp_nextRequestId ?t..<tp_nextRequestId (fst (transport_run ?t es))}"
    and n: "tp_nextRequestId t \<le> tp_nextRequestId ?t"
      "tp_nextRequestId ?t \<le> tp_nextRequestId (fst (transport_run ?t es))"
    by (simp_all add: balanced_def)
  have "set (dispatched (snd (transport_step t e))) \<inter> set (dispatched (snd (transport_run ?t es))) = {}"
    using d d' by fastforce
  moreover have "set (dispatched (snd (transport_step t e))) \<union> set (dispatched (snd (transport_run ?t es)))
      \<subseteq> show_nat ` {tp_nextRequestId t..<tp_nextRequestId (fst (transport_run ?t es))}"
    using d d' n by force
  moreover have "mset (map_keys (tp_pending t)) + mset (dispatched (snd (transport_run t (e # es))))
      = mset (answered_ids (snd (transport_run t (e # es))))
        + mset (map_keys (tp_pending (fst (transport_run t (e # es)))))"
  proof -
    have sum: "p + (d1 + d2) = a1 + a2 + q" if "p + d1 = a1 + m" and "m + d2 = a2 + q"
      for p d1 d2 a1 a2 m q :: "string multiset"
      using that by (metis add.assoc)
    from Cons.IH [OF s(1)] s(2) show ?thesis
      by (simp add: balanced_def sum [where m = "mset (map_keys (tp_pending ?t))"])
  qed
  ultimately show ?case
    using Cons.IH [OF s(1)] s(2) n by (simp add: balanced_def)
qed

lemma new_transport_ids: "ids_ok new_transport"
  by (simp add: ids_ok_def new_transport_def map_keys_def)

section \<open>The connection invariant\<close>

text \<open>
  A connected client has a socket whose attempt is settled, and requests wait only on such a
  socket.
\<close>

definition conn_ok :: "transport \<Rightarrow> bool" where
  "conn_ok t = (tp_status t = StConnected \<or> tp_pending t \<noteq> [] \<longrightarrow>
     (\<exists>k a. tp_socket t = Some k \<and> map_get (tp_attempts t) k = Some a \<and> at_settled a))"

lemma conn_ok_quiet:
  "tp_pending t = [] \<Longrightarrow> tp_status t \<noteq> StConnected \<Longrightarrow> conn_ok t"
  by (simp add: conn_ok_def)

lemma conn_ok_same:
  "conn_ok t \<Longrightarrow> tp_status t' = tp_status t \<Longrightarrow> (tp_pending t = [] \<Longrightarrow> tp_pending t' = []) \<Longrightarrow>
     tp_socket t' = tp_socket t \<Longrightarrow> tp_attempts t' = tp_attempts t \<Longrightarrow> conn_ok t'"
  by (auto simp: conn_ok_def)

lemma map_del_Nil [simp]: "map_del k [] = []"
  by (simp add: map_del_def)

lemma open_conn_ok: "conn_ok t \<Longrightarrow> conn_ok (fst (on_open t k))"
  by (auto simp: on_open_def Let_def case_prod_beta conn_ok_def split: option.split)

lemma error_conn_ok: "conn_ok t \<Longrightarrow> conn_ok (fst (on_error t k))"
  by (auto simp: on_error_def Let_def case_prod_beta conn_ok_def split: option.split)

lemma close_conn_ok: "conn_ok t \<Longrightarrow> conn_ok (fst (on_close t k c r))"
  by (auto simp: on_close_def Let_def case_prod_beta conn_ok_def split: option.split)

lemma timeout_conn_ok: "conn_ok t \<Longrightarrow> conn_ok (fst (on_connect_timeout t k))"
  by (auto simp: on_connect_timeout_def Let_def case_prod_beta conn_ok_def map_get_put
      split: option.split)

lemma connect_conn_ok: "conn_ok t \<Longrightarrow> conn_ok (fst (connect_begin t k f))"
  by (auto simp: connect_begin_def Let_def case_prod_beta conn_ok_def split: socketStart.split)

lemma disconnect_conn_ok: "conn_ok (fst (disconnect t b))"
  by (simp add: disconnect_def Let_def case_prod_beta conn_ok_def)

lemma frame_response_frame:
  "tp_status (fst (frame_response t rid m s)) = tp_status t"
  "tp_socket (fst (frame_response t rid m s)) = tp_socket t"
  "tp_attempts (fst (frame_response t rid m s)) = tp_attempts t"
  "tp_pending t = [] \<Longrightarrow> tp_pending (fst (frame_response t rid m s)) = []"
  by (auto simp: frame_response_def split: option.split)

lemma message_frame:
  "tp_status (fst (on_message t k d)) = tp_status t" "tp_socket (fst (on_message t k d)) = tp_socket t"
  "tp_attempts (fst (on_message t k d)) = tp_attempts t"
  "tp_pending t = [] \<Longrightarrow> tp_pending (fst (on_message t k d)) = []"
  by (auto simp: on_message_def handleMessage_def frame_response_frame
      split: frameData.split incomingFrame.split)

lemma request_conn_ok: "conn_ok t \<Longrightarrow> conn_ok (fst (request t m p r s))"
  by (auto simp: request_def Let_def conn_ok_def split: option.split)

lemma request_timeout_conn_ok: "conn_ok t \<Longrightarrow> conn_ok (fst (on_request_timeout t i))"
  by (auto simp: on_request_timeout_def intro: conn_ok_same split: option.split)

lemma step_conn_ok: "conn_ok t \<Longrightarrow> conn_ok (fst (transport_step t e))"
  by (cases e)
    (auto simp: transport_step_def open_conn_ok error_conn_ok close_conn_ok timeout_conn_ok
      connect_conn_ok disconnect_conn_ok request_conn_ok request_timeout_conn_ok message_frame
      intro: conn_ok_same)

lemma run_conn_ok: "conn_ok t \<Longrightarrow> conn_ok (fst (transport_run t es))"
  by (induction es arbitrary: t) (simp_all add: step_conn_ok)

section \<open>Late answers\<close>

definition order_ok :: "transport \<Rightarrow> bool" where
  "order_ok t = (length (tp_settledOrder t) \<le> 128 \<and> set (tp_settledIds t) \<subseteq> set (tp_settledOrder t)
     \<and> distinct (tp_settledIds t))"

lemma expire_facts:
  "set ids \<subseteq> set order \<Longrightarrow> distinct ids \<Longrightarrow>
     length (snd (expire ids order)) \<le> 128
     \<and> set (fst (expire ids order)) \<subseteq> set (snd (expire ids order)) \<and> distinct (fst (expire ids order))"
proof (induction ids order rule: expire.induct)
  case (2 ids i order)
  show ?case
  proof (cases "length (i # order) > 128")
    case True
    with 2 show ?thesis by auto
  next
    case False
    with 2 show ?thesis by auto
  qed
qed auto

lemma mark_order_ok:
  assumes "order_ok t"
  shows "order_ok (markRequestSettled i t)"
proof -
  let ?ids = "if i \<in> set (tp_settledIds t) then tp_settledIds t else tp_settledIds t @ [i]"
  have "set ?ids \<subseteq> set (tp_settledOrder t @ [i])" "distinct ?ids"
    using assms by (auto simp: order_ok_def)
  from expire_facts [OF this] show ?thesis
    by (simp add: order_ok_def markRequestSettled_def Let_def)
qed

lemma reject_order_ok: "order_ok t \<Longrightarrow> order_ok (fst (rejectPending e t))"
proof -
  have "order_ok t \<Longrightarrow> order_ok (foldl (\<lambda>t i. markRequestSettled i t) t is)" for t "is"
    by (induction "is" arbitrary: t) (simp_all add: mark_order_ok)
  then show "order_ok t \<Longrightarrow> order_ok (fst (rejectPending e t))"
    by (simp add: rejectPending_def Let_def order_ok_def)
qed

lemma order_ok_same:
  "order_ok t \<Longrightarrow> tp_settledIds t' = tp_settledIds t \<Longrightarrow> tp_settledOrder t' = tp_settledOrder t \<Longrightarrow> order_ok t'"
  by (simp add: order_ok_def)

lemma close_order_ok:
  assumes "order_ok t"
  shows "order_ok (fst (on_close t k c r))" "order_ok (fst (disconnect t b))"
proof -
  have r: "order_ok (fst (rejectPending e t'))" if "tp_settledIds t' = tp_settledIds t"
    "tp_settledOrder t' = tp_settledOrder t" for e t'
    by (rule reject_order_ok [OF order_ok_same [OF assms that]])
  have s: "order_ok (fst (setStatus s t'))" if "order_ok t'" for s t'
    using that by (simp add: order_ok_def)
  show "order_ok (fst (disconnect t b))"
    by (simp add: disconnect_def Let_def case_prod_beta r s)
  show "order_ok (fst (on_close t k c r))"
    using assms by (auto simp: on_close_def Let_def case_prod_beta r s intro: order_ok_same split: option.split)
qed

lemma step_order_ok: "order_ok t \<Longrightarrow> order_ok (fst (transport_step t e))"
proof (cases e)
  case (RequestTimer i)
  assume "order_ok t"
  with RequestTimer show ?thesis
    by (auto simp: transport_step_def on_request_timeout_def intro!: mark_order_ok intro: order_ok_same
        split: option.split)
next
  case (Message k d)
  assume o: "order_ok t"
  have "order_ok (fst (frame_response t rid m s))" for rid m s
    using o by (auto simp: frame_response_def order_ok_def split: option.split)
  with o Message show ?thesis
    by (auto simp: transport_step_def on_message_def handleMessage_def split: frameData.split incomingFrame.split)
qed (auto simp: transport_step_def close_order_ok connect_begin_def on_open_def on_error_def
  on_connect_timeout_def request_def Let_def case_prod_beta intro: order_ok_same split: option.split socketStart.split)

lemma run_order_ok: "order_ok t \<Longrightarrow> order_ok (fst (transport_run t es))"
  by (induction es arbitrary: t) (simp_all add: step_order_ok)


text \<open>The loop in closed form: what lies beyond the last 128 ids is forgotten.\<close>

lemma expire_closed:
  "expire ids order = (filter (\<lambda>x. x \<notin> set (take (length order - 128) order)) ids,
     drop (length order - 128) order)"
proof (induction ids order rule: expire.induct)
  case (2 ids i order)
  show ?case
  proof (cases "length (i # order) > 128")
    case True
    then have "length (i # order) - 128 = Suc (length order - 128)" by simp
    with True 2 show ?thesis by (auto intro!: filter_cong)
  qed simp
qed simp

lemma settledOrder_mark:
  "tp_settledOrder (markRequestSettled i t)
     = drop (length (tp_settledOrder t) - 127) (tp_settledOrder t @ [i])"
  by (simp add: markRequestSettled_def Let_def expire_closed)

lemma settled_after_mark:
  assumes "order_ok t" and "i \<notin> set (tp_settledOrder t)"
  shows "i \<in> set (tp_settledIds (markRequestSettled i t))"
proof -
  from assms(1) have "length (tp_settledOrder t) - 127 \<le> length (tp_settledOrder t)" by simp
  with assms(2) have "i \<notin> set (take (length (tp_settledOrder t) - 127) (tp_settledOrder t @ [i]))"
    by (auto dest: in_set_takeD)
  then show ?thesis by (simp add: markRequestSettled_def Let_def expire_closed)
qed

text \<open>A remembered id was dispatched and waits no more.\<close>

definition late_ok :: "transport \<Rightarrow> bool" where
  "late_ok t = (distinct (tp_settledOrder t @ map_keys (tp_pending t))
     \<and> set (tp_settledOrder t) \<subseteq> show_nat ` {..<tp_nextRequestId t})"

lemma mark_distinct:
  assumes "distinct (tp_settledOrder t @ i # is)"
  shows "distinct (tp_settledOrder (markRequestSettled i t) @ is)"
    and "set (tp_settledOrder (markRequestSettled i t)) \<subseteq> insert i (set (tp_settledOrder t))"
proof -
  have s: "set (drop n (tp_settledOrder t @ [i])) \<subseteq> set (tp_settledOrder t @ [i])" for n
    by (rule set_drop_subset)
  show "set (tp_settledOrder (markRequestSettled i t)) \<subseteq> insert i (set (tp_settledOrder t))"
    using s by (fastforce simp: settledOrder_mark simp del: drop_append)
  have "distinct (drop n (tp_settledOrder t @ [i]))" for n
    using assms by (intro distinct_drop) auto
  then show "distinct (tp_settledOrder (markRequestSettled i t) @ is)"
    using assms s by (fastforce simp: settledOrder_mark simp del: drop_append)
qed

lemma marks_distinct:
  "distinct (tp_settledOrder t @ is) \<Longrightarrow>
     distinct (tp_settledOrder (foldl (\<lambda>t i. markRequestSettled i t) t is))
     \<and> set (tp_settledOrder (foldl (\<lambda>t i. markRequestSettled i t) t is)) \<subseteq> set is \<union> set (tp_settledOrder t)"
proof (induction "is" arbitrary: t)
  case (Cons i "is")
  from Cons.IH [OF mark_distinct(1) [OF Cons.prems]] mark_distinct(2) [OF Cons.prems]
  show ?case by auto
qed simp

lemma late_ok_same:
  "late_ok t \<Longrightarrow> tp_settledOrder t' = tp_settledOrder t \<Longrightarrow> tp_pending t' = tp_pending t \<Longrightarrow>
     tp_nextRequestId t' = tp_nextRequestId t \<Longrightarrow> late_ok t'"
  by (simp add: late_ok_def)

lemma reject_late_ok:
  assumes "ids_ok t" and "late_ok t"
  shows "late_ok (fst (rejectPending e t))"
proof -
  have "distinct (tp_settledOrder t @ map_keys (tp_pending t))" using assms(2) by (simp add: late_ok_def)
  note marks = marks_distinct [OF this]
  have "set (map_keys (tp_pending t)) \<union> set (tp_settledOrder t) \<subseteq> show_nat ` {..<tp_nextRequestId t}"
    using assms by (simp add: ids_ok_def late_ok_def)
  from subset_trans [OF conjunct2 [OF marks] this] conjunct1 [OF marks] show ?thesis
    by (simp add: late_ok_def rejectPending_def Let_def map_keys_def)
qed

lemma timeout_late_ok:
  assumes "ids_ok t" and "late_ok t"
  shows "late_ok (fst (on_request_timeout t i))"
proof (cases "map_get (tp_pending t) i")
  case None
  with assms show ?thesis by (simp add: on_request_timeout_def)
next
  case (Some m)
  let ?t = "t\<lparr>tp_pending := map_del i (tp_pending t)\<rparr>"
  have i: "i \<in> set (map_keys (tp_pending t))" using Some map_keys_get [of i "tp_pending t"] by simp
  have "distinct (tp_settledOrder ?t @ i # map_keys (tp_pending ?t))"
    using assms(2) i by (auto simp: late_ok_def map_keys_del)
  from mark_distinct [OF this] assms i Some show ?thesis
    by (auto simp: late_ok_def ids_ok_def on_request_timeout_def map_keys_del)
qed

lemma close_late_ok:
  assumes "ids_ok t" and "late_ok t"
  shows "late_ok (fst (on_close t k c r))" "late_ok (fst (disconnect t b))"
proof -
  have r: "late_ok (fst (rejectPending e t'))" if "tp_settledOrder t' = tp_settledOrder t"
    "tp_pending t' = tp_pending t" "tp_nextRequestId t' = tp_nextRequestId t" for e t'
    by (rule reject_late_ok) (use that assms in \<open>simp_all add: ids_ok_def late_ok_def\<close>)
  have s: "late_ok (fst (setStatus s t'))" if "late_ok t'" for s t'
    using that by (simp add: late_ok_def)
  show "late_ok (fst (disconnect t b))"
    by (simp add: disconnect_def Let_def case_prod_beta r s)
  show "late_ok (fst (on_close t k c r))"
    using assms by (auto simp: on_close_def Let_def case_prod_beta r s intro: late_ok_same split: option.split)
qed

lemma request_late_ok:
  assumes "ids_ok t" and "late_ok t"
  shows "late_ok (fst (request t m p r s))"
proof -
  let ?i = "show_nat (tp_nextRequestId t)"
  have new: "?i \<notin> set (map_keys (tp_pending t))" "?i \<notin> set (tp_settledOrder t)"
    using assms by (auto simp: ids_ok_def late_ok_def)
  then have "map_put ?i m (tp_pending t) = tp_pending t @ [(?i, m)]"
    using map_keys_get [of ?i "tp_pending t"] by (simp add: map_put_absent)
  moreover from new(1) have "map_del ?i (tp_pending t @ [(?i, m)]) = tp_pending t"
    unfolding map_keys_def set_map map_del_def by (simp add: filter_id_conv) (metis imageI)
  moreover have "show_nat ` {..<tp_nextRequestId t} \<subseteq> show_nat ` {..<Suc (tp_nextRequestId t)}" by auto
  ultimately show ?thesis
    using assms new
    by (auto simp: request_def Let_def late_ok_def map_keys_def split: option.split)
qed

lemma step_late_ok: "ids_ok t \<Longrightarrow> late_ok t \<Longrightarrow> late_ok (fst (transport_step t e))"
proof (cases e)
  case (Message k d)
  assume o: "late_ok t"
  have "late_ok (fst (frame_response t rid m s))" for rid m s
    using o by (auto simp: frame_response_def late_ok_def map_keys_del split: option.split)
  with o Message show ?thesis
    by (auto simp: transport_step_def on_message_def handleMessage_def split: frameData.split incomingFrame.split)
qed (auto simp: transport_step_def close_late_ok timeout_late_ok request_late_ok connect_begin_def on_open_def
  on_error_def on_connect_timeout_def Let_def case_prod_beta intro: late_ok_same split: option.split socketStart.split)

text \<open>The invariant of a client that started new.\<close>

definition transport_ok :: "transport \<Rightarrow> bool" where
  "transport_ok t = (ids_ok t \<and> conn_ok t \<and> order_ok t \<and> late_ok t)"

lemma run_transport_ok: "transport_ok t \<Longrightarrow> transport_ok (fst (transport_run t es))"
proof (induction es arbitrary: t)
  case (Cons e es)
  with step_balanced [of t e] show ?case
    by (simp add: transport_ok_def step_conn_ok step_order_ok step_late_ok balanced_def)
qed simp

lemma new_transport_ok: "transport_ok new_transport"
  by (simp add: transport_ok_def ids_ok_def conn_ok_def order_ok_def late_ok_def new_transport_def map_keys_def)

section \<open>Properties\<close>

text \<open>
  C34: Every request is answered once. Whatever sockets, timers and callers do to a new client, no
  two requests it sends have the same id, and each of them either had its promise settled exactly
  once or is still pending; nothing else is ever settled.
\<close>
theorem requests_answered_once:
  "distinct (dispatched (snd (transport_run new_transport es)))
   \<and> mset (dispatched (snd (transport_run new_transport es)))
     = mset (answered_ids (snd (transport_run new_transport es)))
       + mset (map_keys (tp_pending (fst (transport_run new_transport es))))"
  using run_balanced [OF new_transport_ids, of es]
  by (simp_all add: balanced_def) (simp add: new_transport_def map_keys_def)

text \<open>
  Requests wait only where an answer can come. In every state a client reaches, being connected
  or having pending requests means that it holds a socket whose connection attempt succeeded or
  failed already, and the ids remembered for late answers are at most 128, none of them pending.
\<close>
theorem requests_wait_on_a_live_socket:
  fixes es defines "t \<equiv> fst (transport_run new_transport es)"
  assumes "tp_status t = StConnected \<or> tp_pending t \<noteq> []"
  shows "(\<exists>k a. tp_socket t = Some k \<and> map_get (tp_attempts t) k = Some a \<and> at_settled a)
    \<and> length (tp_settledOrder t) \<le> 128 \<and> set (tp_settledIds t) \<subseteq> set (tp_settledOrder t)
    \<and> set (tp_settledIds t) \<inter> set (map_keys (tp_pending t)) = {}"
proof -
  have ok: "transport_ok t" unfolding t_def by (rule run_transport_ok [OF new_transport_ok])
  with assms(2) have "\<exists>k a. tp_socket t = Some k \<and> map_get (tp_attempts t) k = Some a \<and> at_settled a"
    by (simp add: transport_ok_def conn_ok_def)
  moreover from ok have "length (tp_settledOrder t) \<le> 128" "set (tp_settledIds t) \<subseteq> set (tp_settledOrder t)"
    "set (tp_settledIds t) \<inter> set (map_keys (tp_pending t)) = {}"
    by (auto simp: transport_ok_def order_ok_def late_ok_def)
  ultimately show ?thesis by blast
qed

definition sample_events :: "transportEvent list" where
  "sample_events = [Connect 0 Started, Opened 0, Request ''session/open'' None True None,
     Request ''turn/start'' None True None]"

lemma requests_wait_on_a_live_socket_witness:
  "set (tp_settledIds (fst (transport_run new_transport sample_events)))
     \<inter> set (map_keys (tp_pending (fst (transport_run new_transport sample_events)))) = {}"
proof -
  have "tp_status (fst (transport_run new_transport sample_events)) = StConnected" by code_simp
  with requests_wait_on_a_live_socket [of sample_events] show ?thesis by blast
qed

text \<open>
  C35: A socket the client let go of is inert. What it reports later, be it an opening, an error, a
  close, a message or its connection timer, changes neither the status nor the current socket nor
  any request; at most its own connect promise is rejected.
\<close>
theorem released_socket_inert:
  assumes "tp_socket t \<noteq> Some k"
    and "e \<in> {Opened k, Errored k, Closed k c r, Message k d, ConnectTimer k}"
  shows "set (snd (transport_step t e)) \<subseteq> range (ConnectFailed (Some k))
    \<and> (fst (transport_step t e))\<lparr>tp_attempts := tp_attempts t\<rparr> = t"
proof -
  note defs = transport_step_def on_open_def on_error_def on_close_def on_message_def on_connect_timeout_def
    reject_attempt_def settle_attempt_def Let_def
  have "set (snd (transport_step t e)) \<subseteq> range (ConnectFailed (Some k))"
    using assms by (cases "map_get (tp_attempts t) k") (auto simp: defs split: if_splits)
  moreover have "(fst (transport_step t e))\<lparr>tp_attempts := tp_attempts t\<rparr> = t"
    using assms by (cases "map_get (tp_attempts t) k") (auto simp: defs)
  ultimately show ?thesis ..
qed

lemma released_socket_inert_witness:
  "(fst (transport_step new_transport (Closed 3 None None)))\<lparr>tp_attempts := []\<rparr> = new_transport"
  using released_socket_inert [of new_transport 3 "Closed 3 None None" None None Binary]
  by (simp add: new_transport_def)

text \<open>
  A late answer is swallowed once. When the timer of a pending request runs out its caller gets
  a timeout that names the method; the answer of the server, if it still comes, settles nothing and
  raises no protocol error, and only a second answer under the same id is reported as unknown.
\<close>
theorem late_answer_swallowed_once:
  fixes es defines "t \<equiv> fst (transport_run new_transport es)"
  assumes "map_get (tp_pending t) i = Some m" and "parseIncomingFrame f = FSuccess i v"
  shows "snd (on_request_timeout t i) = [Rejected i (TimedOut m)]
    \<and> snd (handleMessage (fst (on_request_timeout t i)) (Text f)) = []
    \<and> tp_pending (fst (handleMessage (fst (on_request_timeout t i)) (Text f))) = map_del i (tp_pending t)
    \<and> snd (handleMessage (fst (handleMessage (fst (on_request_timeout t i)) (Text f))) (Text f))
           = [ErrorShown (''Received response for unknown request '' @ i)]"
proof -
  let ?t = "t\<lparr>tp_pending := map_del i (tp_pending t)\<rparr>"
  have ok: "transport_ok t" unfolding t_def by (rule run_transport_ok [OF new_transport_ok])
  have "i \<in> set (map_keys (tp_pending t))" using assms(2) map_keys_get [of i "tp_pending t"] by simp
  with ok have "order_ok ?t" "i \<notin> set (tp_settledOrder ?t)"
    by (auto simp: transport_ok_def order_ok_def late_ok_def)
  from settled_after_mark [OF this] have late: "i \<in> set (tp_settledIds (markRequestSettled i ?t))" .
  have gone: "map_get (map_del i (tp_pending t)) i = None" by (simp add: map_get_del)
  show ?thesis
    using assms(2,3) late gone by (simp add: on_request_timeout_def handleMessage_def frame_response_def)
qed

definition late_frame :: unknown where
  "late_frame = Some (JObj [(''jsonrpc'', JStr ''2.0''), (''id'', JStr ''1''), (''result'', JNull)])"

lemma late_answer_swallowed_once_witness:
  "snd (handleMessage (fst (on_request_timeout (fst (transport_run new_transport sample_events)) ''1''))
     (Text late_frame)) = []"
proof -
  have "map_get (tp_pending (fst (transport_run new_transport sample_events))) ''1'' = Some ''session/open''"
    "parseIncomingFrame late_frame = FSuccess ''1'' JNull" by code_simp+
  from late_answer_swallowed_once [OF this] show ?thesis by blast
qed

text \<open>
  A bad endpoint: the promise of \<open>connect\<close> is rejected, but the status was already \<open>connecting\<close> and
  stays so, without a socket, a timer or an error event that would ever change it.
\<close>
lemma bad_endpoint_stays_connecting:
  "connect_begin new_transport k (UrlThrew m)
     = (new_transport\<lparr>tp_status := StConnecting\<rparr>,
        [StatusChanged StConnecting, ConnectFailed None (PlainFailure m)])"
  by (simp add: connect_begin_def setStatus_def new_transport_def)

end
