(* ===== verification/TurnController.thy ===== *)
theory TurnController
  imports TurnQueue TimelineFold Transport HistoryResults SessionScope
begin

text \<open>
  The turn controller of one Session, \<open>createQueueBackedTurnController\<close> of
  \<open>features/composer/use-turn-controller.ts\<close>: admission, dispatch of the queue head, native review,
  steering, interrupt, lifecycle recovery and reconciliation with a hydrate. Every awaited call is a
  pending operation of the state and its answer an event; what the controller does to the outside is
  an effect. The dependencies of the record are read when an event happens (\<open>host_view\<close>).
\<close>

section \<open>State\<close>

record lease =
  le_client :: nat
  le_sessionId :: string
  le_turnId :: string

datatype ownerState = OwnRunning | OwnWaiting | OwnCompleted | OwnFailed

datatype recoveryPhase = Checking | OutcomeUnknown | Unavailable | RecoveryError string

record turnRecovery =
  rv_turnId :: string
  rv_phase :: recoveryPhase

record steerEntry =
  se_id :: nat
  se_turn :: promptTurn
  se_ownerTurnId :: string
  se_sent :: bool
  se_returned :: bool
  se_accepted :: bool

text \<open>
  Where a start waits: for the driver seat, for the review command (and whether it crossed the
  wire), for the answer of \<open>turn/start\<close>.
\<close>

datatype startPhase = AtSeat | AtReview bool | AtStart

record startOp =
  so_request :: "nat requestAuthority"
  so_turn :: promptTurn
  so_phase :: startPhase

record turnOp =
  to_request :: "nat requestAuthority"
  to_turnId :: string

record steerOp =
  sp_epoch :: nat
  sp_client :: nat
  sp_sessionId :: string
  sp_entry :: steerEntry

record controller =
  tc_queue :: turnQueue
  tc_startRequests :: "nat gate"
  tc_interruptRequests :: "nat gate"
  tc_recoveryRequests :: "nat gate"
  tc_locallyStarted :: "lease option"
  tc_acceptedOwner :: "(lease \<times> ownerState) option"
  tc_interrupting :: "string option"
  tc_dispatching :: "string option"
  tc_recovery :: "turnRecovery option"
  tc_hydratedActive :: "(string \<times> bool) option"
  tc_timedOutStart :: "string option"
  tc_attempted :: "string set"
  tc_preflight :: "string option"
  tc_steeringEnabled :: bool
  tc_steerEpoch :: nat
  tc_steerInFlight :: bool
  tc_steerUnknown :: bool
  tc_terminalReceipts :: "string list"
  tc_steerAdmitted :: "string set"
  tc_retained :: "steerEntry list"
  tc_starts :: "(nat, startOp) jsmap"
  tc_interrupts :: "(nat, turnOp) jsmap"
  tc_lookups :: "(nat, turnOp) jsmap"
  tc_steers :: "(nat, steerOp) jsmap"
  tc_nextEntry :: nat

text \<open>
  Clients are numbered. A pending operation is found by the generation of its request authority, a
  steer by the number of its entry, which stands for the entry object. \<open>tc_hydratedActive\<close> holds
  whether the turn is interrupting.
\<close>

definition new_controller :: controller where
  "new_controller = \<lparr>tc_queue = new_queue, tc_startRequests = initial_gate,
     tc_interruptRequests = initial_gate, tc_recoveryRequests = initial_gate,
     tc_locallyStarted = None, tc_acceptedOwner = None, tc_interrupting = None,
     tc_dispatching = None, tc_recovery = None, tc_hydratedActive = None,
     tc_timedOutStart = None, tc_attempted = {}, tc_preflight = None, tc_steeringEnabled = True,
     tc_steerEpoch = 0, tc_steerInFlight = False, tc_steerUnknown = False,
     tc_terminalReceipts = [], tc_steerAdmitted = {}, tc_retained = [], tc_starts = [],
     tc_interrupts = [], tc_lookups = [], tc_steers = [], tc_nextEntry = 0\<rparr>"

record host_view =
  hv_client :: "nat option"
  hv_sessionId :: string
  hv_canEnqueue :: bool
  hv_canStart :: bool
  hv_canInterrupt :: bool
  hv_canGetTurnState :: bool
  hv_seatGate :: bool
  hv_startReview :: bool
  hv_steer :: bool
  hv_canSteer :: bool
  hv_sentHere :: "string set"
  hv_reasoningEffort :: "string option"
  hv_uuid :: string

text \<open>
  \<open>hv_seatGate\<close>, \<open>hv_startReview\<close> and \<open>hv_steer\<close>: the optional dependency is present;
  \<open>hv_canSteer\<close>: \<open>canSteer?.() !== false\<close>; \<open>hv_uuid\<close>: what \<open>randomUUID\<close> returns.
\<close>

datatype dispatchState = Dispatching | Accepted | RejectedDispatch | CancelledDispatch

datatype turnEffect =
    DispatchState dispatchState lease
  | ShowUser promptTurn
  | ShowSystem string string string timelineStatus
  | SettleRows string string
  | MarkUnconfirmed string
  | AskSeat lease
  | AskReview lease promptTurn
  | TurnSent string
  | SendTurn lease promptTurn
  | SendReview lease promptTurn
  | AskSteer lease promptTurn
  | SendSteer lease promptTurn
  | SendInterrupt lease
  | AskTurnState lease
  | NotSentRestore promptTurn string
  | InterruptPromptRestore pendingInterruptRestore
  | ConnectionError string
  | RecoveredTerminal string

type_synonym outcome_result = "controller \<times> turnEffect list"

definition andthen :: "outcome_result \<Rightarrow> (controller \<Rightarrow> outcome_result) \<Rightarrow> outcome_result" where
  "andthen r f = (let r' = f (fst r) in (fst r', snd r @ snd r'))"

lemma andthen_simps [simp]:
  "fst (andthen r f) = fst (f (fst r))" "snd (andthen r f) = snd r @ snd (f (fst r))"
  by (simp_all add: andthen_def Let_def)

text \<open>The message of a rejected call, and the test for a protocol error.\<close>

fun failure_message :: "transportError \<Rightarrow> string" where
  "failure_message (PlainFailure m) = m"
| "failure_message (TimedOut m) = m @ '' timed out''"
| "failure_message (ConnectionClosed _ _) = ''Octos UI Protocol connection closed''"
| "failure_message (ProtocolFailure e) = err_message e"

fun protocol_failure :: "transportError \<Rightarrow> bool" where
  "protocol_failure (ProtocolFailure _) = True"
| "protocol_failure _ = False"

fun request_timeout :: "transportError \<Rightarrow> bool" where
  "request_timeout (TimedOut _) = True"
| "request_timeout _ = False"

text \<open>\<open>turn-collision.ts\<close>: the turn that occupies the session, when the refusal names it.\<close>

definition turnCollisionFrom :: "transportError \<Rightarrow> string option" where
  "turnCollisionFrom reason =
     (case reason of
        ProtocolFailure e \<Rightarrow>
          (case as_record (err_data e) of
             None \<Rightarrow> None
           | Some data \<Rightarrow>
               if fld data ''kind'' = Some (JStr ''turn_in_progress'') \<and> isProtocolUuid (fld data ''turn_id'')
               then as_string (fld data ''turn_id'') else None)
      | _ \<Rightarrow> None)"

text \<open>\<open>boundedTurnAdmissionError\<close> of \<open>composer-seat-handover.ts\<close>.\<close>

definition boundedTurnAdmissionError :: "string \<Rightarrow> string" where
  "boundedTurnAdmissionError m =
     (if includes_str m ''ExternalMasterHeld'' then ''Another app is using this session'' else m)"

section \<open>Recovery, acceptance and retirement of a dispatch\<close>

definition lease_current :: "host_view \<Rightarrow> lease \<Rightarrow> bool" where
  "lease_current h l = (hv_client h = Some (le_client l) \<and> le_sessionId l = hv_sessionId h)"

definition active_id :: "controller \<Rightarrow> string option" where
  "active_id c = map_option pt_turnId (q_active (tc_queue c))"

definition recovering :: "controller \<Rightarrow> string \<Rightarrow> bool" where
  "recovering c t = (map_option rv_turnId (tc_recovery c) = Some t)"

definition locally_started :: "controller \<Rightarrow> string \<Rightarrow> bool" where
  "locally_started c t = (map_option le_turnId (tc_locallyStarted c) = Some t)"

definition owner_of_turn :: "controller \<Rightarrow> string \<Rightarrow> bool" where
  "owner_of_turn c t = (map_option (le_turnId \<circ> fst) (tc_acceptedOwner c) = Some t)"

definition clearRecovery :: "controller \<Rightarrow> controller" where
  "clearRecovery c =
     c\<lparr>tc_recoveryRequests := gate_invalidate (tc_recoveryRequests c), tc_recovery := None\<rparr>"

definition clearDispatchingTurn :: "string \<Rightarrow> controller \<Rightarrow> controller" where
  "clearDispatchingTurn t c = (if tc_dispatching c \<noteq> Some t then c else c\<lparr>tc_dispatching := None\<rparr>)"

definition accepts_dispatch :: "host_view \<Rightarrow> string \<Rightarrow> controller \<Rightarrow> bool" where
  "accepts_dispatch h t c =
     (case tc_locallyStarted c of None \<Rightarrow> False | Some l \<Rightarrow> le_turnId l = t \<and> lease_current h l)"

definition forget_preflight :: "string \<Rightarrow> controller \<Rightarrow> controller" where
  "forget_preflight t c = (if tc_preflight c = Some t then c\<lparr>tc_preflight := None\<rparr> else c)"

definition acceptLocalDispatch ::
  "host_view \<Rightarrow> string \<Rightarrow> ownerState \<Rightarrow> controller \<Rightarrow> outcome_result" where
  "acceptLocalDispatch h t st c =
     (if \<not> accepts_dispatch h t c then (c, [])
      else let l = the (tc_locallyStarted c);
               c1 = (if recovering c t then clearRecovery c else c);
               c2 = (if tc_timedOutStart c1 = Some t then c1\<lparr>tc_timedOutStart := None\<rparr> else c1);
               c3 = forget_preflight t (c2\<lparr>tc_acceptedOwner := Some (l, st)\<rparr>);
               c4 = clearDispatchingTurn t (c3\<lparr>tc_locallyStarted := None\<rparr>)
           in (c4, [DispatchState Accepted l]))"

definition retireLocalDispatch :: "string \<Rightarrow> dispatchState \<Rightarrow> controller \<Rightarrow> outcome_result" where
  "retireLocalDispatch t st c =
     (case tc_locallyStarted c of
        None \<Rightarrow> (c, [])
      | Some l \<Rightarrow>
          if le_turnId l \<noteq> t then (c, [])
          else (clearDispatchingTurn t ((forget_preflight t c)\<lparr>tc_locallyStarted := None\<rparr>),
                [DispatchState st l]))"

definition observedTurn :: "host_view \<Rightarrow> string \<Rightarrow> promptTurn" where
  "observedTurn h t =
     \<lparr>pt_turnId = t, pt_text = [], pt_review = False,
      pt_origin = Some (if t \<in> hv_sentHere h then Local else Adopted),
      pt_reasoningEffort = None, pt_media = None\<rparr>"

text \<open>The server's foreground turn takes the active slot and is never dispatched from here.\<close>

definition adopt_active :: "host_view \<Rightarrow> string \<Rightarrow> controller \<Rightarrow> controller" where
  "adopt_active h t c =
     c\<lparr>tc_attempted := insert t (tc_attempted c),
       tc_queue := fst (restoreActive (tc_queue c) (observedTurn h t) True)\<rparr>"

section \<open>Settling a turn\<close>

definition remember_terminal :: "string \<Rightarrow> string list \<Rightarrow> string list" where
  "remember_terminal t receipts =
     (let rs = (if t \<in> set receipts then receipts else receipts @ [t])
      in if length rs > 256 then tl rs else rs)"

definition inconclusive :: "controller \<Rightarrow> steerEntry \<Rightarrow> bool" where
  "inconclusive c e = (se_sent e \<and> \<not> se_returned e \<and> \<not> se_accepted e \<and> \<not> tc_steerUnknown c)"

definition settle_steers :: "string \<Rightarrow> controller \<Rightarrow> outcome_result" where
  "settle_steers t c =
     (if tc_steerInFlight c then (c, [])
      else (c\<lparr>tc_retained := filter (\<lambda>e. se_ownerTurnId e \<noteq> t) (tc_retained c)\<rparr>,
            map (\<lambda>(i, e). ShowSystem (''steer-inconclusive:'' @ t @ '':'' @ show_nat i)
                    ''Steering delivery not confirmed''
                    (''The turn finished without confirming delivery. Check the final response before deciding whether to send this text again; it was not resent automatically: '' @ pt_text (se_turn e))
                    Info)
              (filter (\<lambda>(i, e). se_ownerTurnId e = t \<and> inconclusive c e)
                (rev (enumerate 0 (tc_retained c))))))"

definition set_owner_state :: "string \<Rightarrow> ownerState \<Rightarrow> controller \<Rightarrow> controller" where
  "set_owner_state t st c =
     (if owner_of_turn c t then c\<lparr>tc_acceptedOwner := Some (fst (the (tc_acceptedOwner c)), st)\<rparr> else c)"

definition owner_outcome :: "turnOutcome \<Rightarrow> ownerState" where
  "owner_outcome o' = (case o' of OutcomeCompleted \<Rightarrow> OwnCompleted | OutcomeFailed \<Rightarrow> OwnFailed)"

text \<open>\<open>settleTurn\<close> up to \<open>releaseQueueTurn\<close>.\<close>

definition settle_marks :: "string \<Rightarrow> turnOutcome \<Rightarrow> controller \<Rightarrow> outcome_result" where
  "settle_marks t outcome c =
     (let c1 = (if recovering c t then clearRecovery c else c);
          c2 = (if map_option fst (tc_hydratedActive c1) = Some t
                then c1\<lparr>tc_hydratedActive := None\<rparr> else c1);
          c3 = (if tc_timedOutStart c2 = Some t then c2\<lparr>tc_timedOutStart := None\<rparr> else c2);
          c4 = c3\<lparr>tc_terminalReceipts := remember_terminal t (tc_terminalReceipts c3)\<rparr>
      in andthen (settle_steers t c4) (\<lambda>c5.
         retireLocalDispatch t CancelledDispatch (set_owner_state t (owner_outcome outcome) c5)))"

definition invalidate_requests :: "controller \<Rightarrow> controller" where
  "invalidate_requests c =
     c\<lparr>tc_startRequests := gate_invalidate (tc_startRequests c),
       tc_interruptRequests := gate_invalidate (tc_interruptRequests c)\<rparr>"

definition give_prompt_back :: "string \<Rightarrow> controller \<Rightarrow> outcome_result" where
  "give_prompt_back t c =
     (let r = takeInterruptPrompt (tc_queue c) t
      in (c\<lparr>tc_queue := fst r\<rparr>,
          case snd r of None \<Rightarrow> [] | Some p \<Rightarrow> [InterruptPromptRestore p]))"

text \<open>The second result is the turn that is started next.\<close>

definition release_settled ::
  "string \<Rightarrow> controller \<Rightarrow> outcome_result \<times> promptTurn option" where
  "release_settled t c =
     (let r = settle (tc_queue c) t
      in if \<not> qt_settled (snd r) then ((c, []), None)
         else let c1 = invalidate_requests (c\<lparr>tc_queue := fst r\<rparr>);
                  c2 = (if tc_interrupting c1 = Some t then c1\<lparr>tc_interrupting := None\<rparr> else c1)
              in (give_prompt_back t c2, qt_next (snd r)))"

definition releaseQueueTurn ::
  "host_view \<Rightarrow> string \<Rightarrow> controller \<Rightarrow> outcome_result \<times> promptTurn option" where
  "releaseQueueTurn h t c =
     (case tc_hydratedActive c of
        Some (other, interrupting) \<Rightarrow>
          if other \<noteq> t \<and> active_id c = Some t
          then (let c1 = invalidate_requests c;
                    c2 = adopt_active h other (c1\<lparr>tc_queue := fst (settle (tc_queue c1) t)\<rparr>);
                    c3 = c2\<lparr>tc_interrupting := if interrupting then Some other else None\<rparr>
                in (give_prompt_back t c3, None))
          else release_settled t c
      | None \<Rightarrow> release_settled t c)"


section \<open>Starting a turn\<close>

definition lease_of :: "startOp \<Rightarrow> lease" where
  "lease_of op = \<lparr>le_client = au_client (so_request op), le_sessionId = au_sessionId (so_request op),
     le_turnId = pt_turnId (so_turn op)\<rparr>"

definition start_current :: "host_view \<Rightarrow> startOp \<Rightarrow> controller \<Rightarrow> bool" where
  "start_current h op c =
     (gate_isCurrent (tc_startRequests c) (so_request op) (hv_client h) (hv_sessionId h)
      \<and> active_id c = Some (pt_turnId (so_turn op)))"

definition start_key :: "startOp \<Rightarrow> nat" where
  "start_key op = au_generation (so_request op)"

definition await_start :: "startOp \<Rightarrow> controller \<Rightarrow> controller" where
  "await_start op c = c\<lparr>tc_starts := map_put (start_key op) op (tc_starts c)\<rparr>"

definition finish_start :: "startOp \<Rightarrow> controller \<Rightarrow> controller" where
  "finish_start op c = c\<lparr>tc_startRequests := fst (gate_finish (tc_startRequests c) (so_request op))\<rparr>"

text \<open>The frame leaves: from here on the turn is never offered again.\<close>

definition send_turn :: "startOp \<Rightarrow> controller \<Rightarrow> outcome_result" where
  "send_turn op c =
     (await_start (op\<lparr>so_phase := AtStart\<rparr>) (c\<lparr>tc_preflight := None\<rparr>),
      [TurnSent (pt_turnId (so_turn op)), SendTurn (lease_of op) (so_turn op)])"

definition may_start :: "host_view \<Rightarrow> string \<Rightarrow> controller \<Rightarrow> bool" where
  "may_start h t c =
     (hv_client h \<noteq> None \<and> hv_sessionId h \<noteq> [] \<and> tc_recovery c = None \<and> hv_canStart h
      \<and> \<not> tc_steerInFlight c \<and> \<not> tc_steerUnknown c \<and> active_id c = Some t
      \<and> t \<notin> tc_attempted c)"

definition claim_start :: "host_view \<Rightarrow> promptTurn \<Rightarrow> controller \<Rightarrow> controller \<times> startOp" where
  "claim_start h t c =
     (let i = pt_turnId t;
          (g, a) = gate_begin (tc_startRequests c) (the (hv_client h)) (hv_sessionId h);
          l = \<lparr>le_client = the (hv_client h), le_sessionId = hv_sessionId h, le_turnId = i\<rparr>
      in (c\<lparr>tc_attempted := insert i (tc_attempted c), tc_preflight := Some i,
            tc_locallyStarted := Some l, tc_dispatching := Some i, tc_startRequests := g\<rparr>,
          \<lparr>so_request = a, so_turn = t, so_phase = AtSeat\<rparr>))"

definition show_request :: "promptTurn \<Rightarrow> turnEffect" where
  "show_request t =
     (if pt_review t
      then ShowSystem (''review-request:'' @ pt_turnId t) ''Native code review''
             (if pt_text t = [] then ''Review requested for current project changes.'' else pt_text t) Info
      else ShowUser t)"

text \<open>
  The synchronous part of \<open>startTurn\<close>. The last result is the start whose review command is not
  there, which fails before anything is awaited.
\<close>

definition start_begin ::
  "host_view \<Rightarrow> string \<Rightarrow> controller \<Rightarrow> outcome_result \<times> startOp option" where
  "start_begin h i c =
     (if \<not> may_start h i c then ((c, []), None)
      else let t = the (q_active (tc_queue c));
               (c1, op) = claim_start h t c;
               shown = [DispatchState Dispatching (lease_of op), show_request t]
           in if pt_review t
              then if hv_startReview h
                   then ((await_start (op\<lparr>so_phase := AtReview False\<rparr>) c1,
                          shown @ [AskReview (lease_of op) t]), None)
                   else ((c1, shown), Some op)
              else if hv_seatGate h
              then ((await_start op c1, shown @ [AskSeat (lease_of op)]), None)
              else (andthen (c1, shown) (send_turn op), None))"

text \<open>A start that failed without being sent, or was refused: the row of its error.\<close>

definition refuse_start :: "startOp \<Rightarrow> string \<Rightarrow> string \<Rightarrow> controller \<Rightarrow> outcome_result" where
  "refuse_start op title message c =
     andthen (retireLocalDispatch (pt_turnId (so_turn op)) RejectedDispatch c) (\<lambda>c.
       (c, (if pt_review (so_turn op) then []
            else [NotSentRestore (so_turn op) (au_sessionId (so_request op))])
           @ [ShowSystem (''send-error:'' @ pt_turnId (so_turn op)) title message ErrorStatus]))"

definition failed_settle ::
  "host_view \<Rightarrow> startOp \<Rightarrow> string \<Rightarrow> string \<Rightarrow> controller \<Rightarrow> outcome_result \<times> promptTurn option" where
  "failed_settle h op title message c =
     (let i = pt_turnId (so_turn op);
          r = andthen (refuse_start op title message c) (settle_marks i OutcomeFailed);
          (r', next) = releaseQueueTurn h i (fst r)
      in ((fst r', snd r @ snd r'), next))"

definition review_missing :: string where
  "review_missing = ''Native review is unavailable for this Session.''"

section \<open>The queue under these steps\<close>

lemma queue_frame [simp]:
  "tc_queue (clearRecovery c) = tc_queue c" "tc_queue (clearDispatchingTurn t c) = tc_queue c"
  "tc_queue (forget_preflight t c) = tc_queue c" "tc_queue (set_owner_state t st c) = tc_queue c"
  "tc_queue (invalidate_requests c) = tc_queue c" "tc_queue (finish_start op c) = tc_queue c"
  "tc_queue (await_start op c) = tc_queue c"
  by (simp_all add: clearRecovery_def clearDispatchingTurn_def forget_preflight_def set_owner_state_def
      invalidate_requests_def finish_start_def await_start_def)

lemma accept_queue [simp]: "tc_queue (fst (acceptLocalDispatch h t st c)) = tc_queue c"
  by (simp add: acceptLocalDispatch_def Let_def)

lemma retire_queue [simp]: "tc_queue (fst (retireLocalDispatch t ds c)) = tc_queue c"
  by (simp add: retireLocalDispatch_def split: option.split)

lemma settle_steers_queue [simp]: "tc_queue (fst (settle_steers t c)) = tc_queue c"
  by (simp add: settle_steers_def)

lemma settle_marks_queue [simp]: "tc_queue (fst (settle_marks t oc c)) = tc_queue c"
  by (simp add: settle_marks_def Let_def)

lemma refuse_start_queue [simp]: "tc_queue (fst (refuse_start op ti m c)) = tc_queue c"
  by (simp add: refuse_start_def)

lemma settle_next_shorter:
  "qt_next (snd (settle q t)) = Some n \<Longrightarrow>
     length (queue_items (fst (settle q t))) < length (queue_items q)"
  by (auto simp: settle_def queue_items_def split: if_splits list.splits option.splits)

lemma take_items [simp]: "queue_items (fst (takeInterruptPrompt q t)) = queue_items q"
  by (simp add: takeInterruptPrompt_def queue_items_def split: option.split)

lemma give_back_items [simp]:
  "queue_items (tc_queue (fst (give_prompt_back t c))) = queue_items (tc_queue c)"
  by (simp add: give_prompt_back_def Let_def)

lemma release_settled_shorter:
  "snd (release_settled t c) = Some n \<Longrightarrow>
     length (queue_items (tc_queue (fst (fst (release_settled t c))))) < length (queue_items (tc_queue c))"
  using settle_next_shorter [of "tc_queue c" t n]
  by (auto simp: release_settled_def Let_def split: if_splits)

lemma release_shorter:
  "snd (releaseQueueTurn h t c) = Some n \<Longrightarrow>
     length (queue_items (tc_queue (fst (fst (releaseQueueTurn h t c))))) < length (queue_items (tc_queue c))"
  by (auto simp: releaseQueueTurn_def Let_def release_settled_shorter split: option.splits if_splits)

lemma start_begin_queue [simp]: "tc_queue (fst (fst (start_begin h i c))) = tc_queue c"
  by (simp add: start_begin_def claim_start_def send_turn_def Let_def case_prod_beta)

lemma failed_settle_shorter:
  "snd (failed_settle h op ti m c) = Some n \<Longrightarrow>
     length (queue_items (tc_queue (fst (fst (failed_settle h op ti m c))))) < length (queue_items (tc_queue c))"
  using release_shorter [of h "pt_turnId (so_turn op)" _ n]
  by (fastforce simp: failed_settle_def Let_def case_prod_beta)

definition with_result :: "(controller \<Rightarrow> controller) \<Rightarrow> outcome_result \<Rightarrow> outcome_result" where
  "with_result f r = (f (fst r), snd r)"

lemma with_result_simps [simp]: "fst (with_result f r) = f (fst r)" "snd (with_result f r) = snd r"
  by (simp_all add: with_result_def)

section \<open>Starting and settling, until a turn waits\<close>

lemma start_turn_shorter:
  assumes "start_begin h i c = (r, Some op)"
    and "failed_settle h op ti m (fst r) = (r', Some n)"
  shows "length (queue_items (tc_queue (fst r'))) < length (queue_items (tc_queue c))"
proof -
  have "tc_queue (fst r) = tc_queue c"
    using start_begin_queue [of h i c] unfolding assms(1) by (simp only: fst_conv)
  moreover have "length (queue_items (tc_queue (fst r'))) < length (queue_items (tc_queue (fst r)))"
    using failed_settle_shorter [of h op ti m "fst r" n] unfolding assms(2)
    by (simp only: fst_conv snd_conv simp_thms)
  ultimately show ?thesis by (simp only:)
qed

text \<open>
  A review whose command is missing fails at once and the next turn is tried, so the recursion is
  bounded by the queue.
\<close>

function start_turn :: "host_view \<Rightarrow> string \<Rightarrow> controller \<Rightarrow> outcome_result" where
  "start_turn h i c =
     (case start_begin h i c of
        (r, None) \<Rightarrow> r
      | (r, Some op) \<Rightarrow>
          (case failed_settle h op ''Native review rejected'' review_missing (fst r) of
             (r', None) \<Rightarrow> (finish_start op (fst r'), snd r @ snd r')
           | (r', Some n) \<Rightarrow>
               (let r'' = start_turn h (pt_turnId n) (fst r')
                in (finish_start op (fst r''), snd r @ snd r' @ snd r''))))"
  by pat_completeness auto

termination
  by (relation "measure (\<lambda>(h, i, c). length (queue_items (tc_queue c)))")
    (rule wf_measure, simp only: in_measure case_prod_conv, rule start_turn_shorter, erule sym, erule sym)

declare start_turn.simps [simp del]

text \<open>The same equation over projections, by which it is evaluated.\<close>

lemma start_turn_code [code]:
  "start_turn h i c =
     (case snd (start_begin h i c) of
        None \<Rightarrow> fst (start_begin h i c)
      | Some op \<Rightarrow>
          (let r = fst (start_begin h i c);
               f = failed_settle h op ''Native review rejected'' review_missing (fst r)
           in case snd f of
                None \<Rightarrow> (finish_start op (fst (fst f)), snd r @ snd (fst f))
              | Some n \<Rightarrow> with_result (finish_start op)
                  (andthen (fst (fst f), snd r @ snd (fst f)) (start_turn h (pt_turnId n)))))"
  by (subst start_turn.simps)
    (simp add: case_prod_beta Let_def with_result_def andthen_def split: option.split)

definition start_next :: "host_view \<Rightarrow> outcome_result \<times> promptTurn option \<Rightarrow> outcome_result" where
  "start_next h r =
     (case snd r of None \<Rightarrow> fst r | Some n \<Rightarrow> andthen (fst r) (start_turn h (pt_turnId n)))"

definition settleTurn :: "host_view \<Rightarrow> string \<Rightarrow> turnOutcome \<Rightarrow> controller \<Rightarrow> outcome_result" where
  "settleTurn h t outcome c =
     andthen (settle_marks t outcome c) (\<lambda>c. start_next h (releaseQueueTurn h t c))"

definition start_active :: "host_view \<Rightarrow> controller \<Rightarrow> outcome_result" where
  "start_active h c = (case active_id c of None \<Rightarrow> (c, []) | Some i \<Rightarrow> start_turn h i c)"

section \<open>The answers a start waits for\<close>

definition take_start :: "nat \<Rightarrow> controller \<Rightarrow> controller" where
  "take_start k c = c\<lparr>tc_starts := map_del k (tc_starts c)\<rparr>"

text \<open>
  The seat gate resolved: \<open>None\<close> when the seat was released, otherwise why it was not. A stale start
  returns before the \<open>try\<close>, so it does not even finish its request.
\<close>

definition seat_answer :: "host_view \<Rightarrow> nat \<Rightarrow> string option \<Rightarrow> controller \<Rightarrow> outcome_result" where
  "seat_answer h k refusal c =
     (case map_get (tc_starts c) k of
        None \<Rightarrow> (c, [])
      | Some op \<Rightarrow>
          if so_phase op \<noteq> AtSeat then (c, [])
          else let i = pt_turnId (so_turn op); c1 = take_start k c
               in if \<not> start_current h op c then (c1, [])
                  else if \<not> hv_canStart h
                  then with_result (finish_start op)
                         (retireLocalDispatch i CancelledDispatch
                            (c1\<lparr>tc_attempted := tc_attempted c1 - {i}, tc_preflight := None\<rparr>))
                  else (case refusal of
                          Some m \<Rightarrow>
                            with_result (finish_start op)
                              (start_next h (failed_settle h op ''Turn not sent''
                                               (boundedTurnAdmissionError m) c1))
                        | None \<Rightarrow> send_turn op c1))"

text \<open>\<open>markSent\<close> of a review; where it throws, the command does not send.\<close>

definition review_mark :: "host_view \<Rightarrow> nat \<Rightarrow> controller \<Rightarrow> outcome_result" where
  "review_mark h k c =
     (case map_get (tc_starts c) k of
        None \<Rightarrow> (c, [])
      | Some op \<Rightarrow>
          if so_phase op \<noteq> AtReview False \<or> \<not> start_current h op c \<or> \<not> hv_canStart h then (c, [])
          else (await_start (op\<lparr>so_phase := AtReview True\<rparr>) (c\<lparr>tc_preflight := None\<rparr>),
                [TurnSent (pt_turnId (so_turn op)), SendReview (lease_of op) (so_turn op)]))"

definition start_accepted :: "host_view \<Rightarrow> startOp \<Rightarrow> controller \<Rightarrow> outcome_result" where
  "start_accepted h op c =
     (if start_current h op c then acceptLocalDispatch h (pt_turnId (so_turn op)) OwnRunning c else (c, []))"

definition start_failed ::
  "host_view \<Rightarrow> startOp \<Rightarrow> string \<Rightarrow> controller \<Rightarrow> outcome_result" where
  "start_failed h op message c =
     start_next h (failed_settle h op
       (if pt_review (so_turn op) then ''Native review rejected'' else ''Turn rejected'') message c)"

text \<open>
  The occupied session: the prompt goes back to its author, and the occupier becomes the active turn
  unless its terminal already came.
\<close>

definition start_collided ::
  "host_view \<Rightarrow> startOp \<Rightarrow> string \<Rightarrow> controller \<Rightarrow> outcome_result" where
  "start_collided h op occupier c =
     (let i = pt_turnId (so_turn op);
          r1 = retireLocalDispatch i RejectedDispatch c;
          c1 = (fst r1)\<lparr>tc_startRequests := gate_invalidate (tc_startRequests (fst r1))\<rparr>;
          q = settle (tc_queue c1) i;
          c2 = c1\<lparr>tc_queue := fst q\<rparr>;
          occupied = occupier \<notin> set (tc_terminalReceipts c2);
          c3 = (if occupied then adopt_active h occupier c2 else c2);
          shown = snd r1 @ [NotSentRestore (so_turn op) (au_sessionId (so_request op)),
                   ShowSystem (''send-busy:'' @ i) ''Session busy''
                     ''Another client was working in this session, so this message was not sent. It was kept for retry and will return when the composer is empty. Send it again when the running turn finishes, or Stop that turn to take over.''
                     Info]
      in start_next h ((c3, shown), if occupied then None else qt_next (snd q)))"

definition start_answer ::
  "host_view \<Rightarrow> nat \<Rightarrow> transportError option \<Rightarrow> controller \<Rightarrow> outcome_result" where
  "start_answer h k failure c =
     (case map_get (tc_starts c) k of
        None \<Rightarrow> (c, [])
      | Some op \<Rightarrow>
          if so_phase op \<noteq> AtStart then (c, [])
          else let i = pt_turnId (so_turn op); c1 = take_start k c
               in with_result (finish_start op)
                 (case failure of
                    None \<Rightarrow> start_accepted h op c1
                  | Some reason \<Rightarrow>
                      if \<not> start_current h op c1 then (c1, [])
                      else if \<not> protocol_failure reason
                      then if \<not> locally_started c1 i then (c1, [])
                           else (c1\<lparr>tc_timedOutStart := Some i\<rparr>,
                                 [ShowSystem (''send-timeout:'' @ i)
                                    (if request_timeout reason then ''Turn start timed out''
                                     else ''Turn start unconfirmed'')
                                    ''The server did not acknowledge the turn. It may still be running -- do not resubmit; check its status after reconnecting.''
                                    ErrorStatus])
                      else (case turnCollisionFrom reason of
                              Some occupier \<Rightarrow> start_collided h op occupier c1
                            | None \<Rightarrow> start_failed h op (failure_message reason) c1)))"

text \<open>
  The review command settled. Its result type fixes the workflow and the backend; the session and
  the turn are checked again.
\<close>

definition review_answer ::
  "host_view \<Rightarrow> nat \<Rightarrow> transportError + reviewStartResult \<Rightarrow> controller \<Rightarrow> outcome_result" where
  "review_answer h k answer c =
     (case map_get (tc_starts c) k of
        None \<Rightarrow> (c, [])
      | Some op \<Rightarrow>
          (case so_phase op of
             AtReview sent \<Rightarrow>
               (let c1 = take_start k c;
                    uncertain = (\<lambda>m. (c1, [ShowSystem (''review-uncertain:'' @ pt_turnId (so_turn op))
                      ''Native review outcome unknown''
                      (''The request may have started. Wait for Session recovery; it will not be sent again. '' @ m)
                      ErrorStatus]))
                in with_result (finish_start op)
                  (if \<not> start_current h op c1 then (c1, [])
                   else (case answer of
                           Inl reason \<Rightarrow>
                             if sent \<and> \<not> protocol_failure reason then uncertain (failure_message reason)
                             else start_failed h op (failure_message reason) c1
                         | Inr r \<Rightarrow>
                             if rv_session_id r \<noteq> au_sessionId (so_request op)
                                 \<or> rv_turn_id r \<noteq> pt_turnId (so_turn op)
                             then (if sent then uncertain ''Native review returned another turn or workflow.''
                                   else start_failed h op ''Native review returned another turn or workflow.'' c1)
                             else if \<not> rv_accepted r
                             then start_failed h op ''The server did not accept native review.'' c1
                             else start_accepted h op c1)))
           | _ \<Rightarrow> (c, [])))"

section \<open>Admission\<close>

definition has_media :: "promptTurn \<Rightarrow> bool" where
  "has_media t = (case pt_media t of None \<Rightarrow> False | Some ms \<Rightarrow> ms \<noteq> [])"

definition blank :: "string \<Rightarrow> bool" where
  "blank s = (trim s = [])"

definition in_queue :: "string \<Rightarrow> controller \<Rightarrow> bool" where
  "in_queue i c = (active_id c = Some i \<or> i \<in> pt_turnId ` set (q_pending (tc_queue c)))"

definition enqueue_refused :: "host_view \<Rightarrow> promptTurn \<Rightarrow> controller \<Rightarrow> bool" where
  "enqueue_refused h t c =
     (tc_recovery c \<noteq> None \<or> \<not> hv_canEnqueue h \<or> blank (pt_turnId t)
      \<or> (\<not> pt_review t \<and> blank (pt_text t) \<and> \<not> has_media t)
      \<or> (pt_review t \<and> (\<not> hv_startReview h \<or> \<not> hv_canStart h
           \<or> \<not> isProtocolUuid (Some (JStr (pt_turnId t))) \<or> queue_items (tc_queue c) \<noteq> []
           \<or> has_media t \<or> pt_reasoningEffort t \<noteq> None))
      \<or> pt_turnId t \<in> tc_attempted c \<or> pt_turnId t \<in> tc_steerAdmitted c \<or> in_queue (pt_turnId t) c)"

definition enqueueTurn :: "host_view \<Rightarrow> promptTurn \<Rightarrow> controller \<Rightarrow> outcome_result" where
  "enqueueTurn h t c =
     (if enqueue_refused h t c then (c, [])
      else let r = enqueue (tc_queue c) (t\<lparr>pt_text := trim (pt_text t)\<rparr>);
               c1 = c\<lparr>tc_queue := fst r\<rparr>
           in if snd r then start_turn h (pt_turnId t) c1 else (c1, []))"

definition enqueuePrompt :: "host_view \<Rightarrow> string \<Rightarrow> controller \<Rightarrow> outcome_result" where
  "enqueuePrompt h s c =
     (if tc_recovery c \<noteq> None \<or> \<not> hv_canEnqueue h \<or> blank s then (c, [])
      else enqueueTurn h \<lparr>pt_turnId = hv_uuid h, pt_text = trim s, pt_review = False, pt_origin = None,
             pt_reasoningEffort = (if truthy (hv_reasoningEffort h) then hv_reasoningEffort h else None),
             pt_media = None\<rparr> c)"

definition cancelQueuedPrompt :: "string \<Rightarrow> controller \<Rightarrow> controller" where
  "cancelQueuedPrompt i c = c\<lparr>tc_queue := fst (removePending (tc_queue c) i)\<rparr>"

section \<open>Steering\<close>

definition restage :: "promptTurn list \<Rightarrow> controller \<Rightarrow> controller" where
  "restage ts c = c\<lparr>tc_queue := restageSteers (tc_queue c) (tc_attempted c) ts\<rparr>"

definition reportSteer :: "promptTurn \<Rightarrow> string \<Rightarrow> string \<Rightarrow> turnEffect" where
  "reportSteer t title body =
     ShowSystem (''steer:'' @ pt_turnId t) title body
       (if includes_str title ''unknown'' then ErrorStatus else Info)"

definition canSteerText :: "host_view \<Rightarrow> string option \<Rightarrow> controller \<Rightarrow> bool" where
  "canSteerText h effort c =
     (tc_steeringEnabled c \<and> tc_recovery c = None \<and> hv_steer h \<and> hv_canSteer h
      \<and> hv_client h \<noteq> None \<and> hv_sessionId h \<noteq> []
      \<and> (case q_active (tc_queue c) of
           None \<Rightarrow> False
         | Some a \<Rightarrow> pt_turnId a \<in> tc_attempted c \<and> effort = pt_reasoningEffort a)
      \<and> tc_dispatching c = None \<and> hv_canStart h \<and> q_pending (tc_queue c) = []
      \<and> (tc_interrupting c = None \<or> tc_interrupting c = Some [])
      \<and> \<not> tc_steerInFlight c \<and> \<not> tc_steerUnknown c)"

definition uuid :: "string \<Rightarrow> bool" where
  "uuid s = isProtocolUuid (Some (JStr s))"

definition submitTurn :: "host_view \<Rightarrow> promptTurn \<Rightarrow> controller \<Rightarrow> outcome_result" where
  "submitTurn h t c =
     (if pt_review t \<or> has_media t \<or> \<not> canSteerText h (pt_reasoningEffort t) c
      then enqueueTurn h t c
      else let active = the (active_id c); i = pt_turnId t
           in if \<not> hv_canEnqueue h \<or> blank (pt_text t) \<or> \<not> uuid active \<or> \<not> uuid i
                 \<or> i \<in> tc_attempted c \<or> i \<in> tc_steerAdmitted c
                 \<or> list_ex (\<lambda>e. pt_turnId (se_turn e) = i) (tc_retained c)
              then (c, [])
              else let t' = t\<lparr>pt_text := trim (pt_text t)\<rparr>; n = tc_nextEntry c;
                       e = \<lparr>se_id = n, se_turn = t', se_ownerTurnId = active,
                            se_sent = False, se_returned = False, se_accepted = False\<rparr>;
                       cl = the (hv_client h)
                   in (c\<lparr>tc_steerAdmitted := insert i (tc_steerAdmitted c),
                         tc_retained := tc_retained c @ [e], tc_steerInFlight := True,
                         tc_steers := map_put n \<lparr>sp_epoch = tc_steerEpoch c, sp_client = cl,
                           sp_sessionId = hv_sessionId h, sp_entry = e\<rparr> (tc_steers c),
                         tc_nextEntry := Suc n\<rparr>,
                       [AskSteer \<lparr>le_client = cl, le_sessionId = hv_sessionId h, le_turnId = active\<rparr> t']))"

text \<open>An entry object is shared by the list of retained steers and the steer in flight.\<close>

definition change_entry :: "nat \<Rightarrow> (steerEntry \<Rightarrow> steerEntry) \<Rightarrow> controller \<Rightarrow> controller" where
  "change_entry n f c =
     c\<lparr>tc_retained := map (\<lambda>e. if se_id e = n then f e else e) (tc_retained c),
       tc_steers := map (\<lambda>(k, p). (k, if k = n then p\<lparr>sp_entry := f (sp_entry p)\<rparr> else p)) (tc_steers c)\<rparr>"

definition drop_entry :: "nat \<Rightarrow> controller \<Rightarrow> controller" where
  "drop_entry n c = c\<lparr>tc_retained := filter (\<lambda>e. se_id e \<noteq> n) (tc_retained c)\<rparr>"

definition steer_current :: "host_view \<Rightarrow> steerOp \<Rightarrow> controller \<Rightarrow> bool" where
  "steer_current h p c =
     (sp_epoch p = tc_steerEpoch c \<and> hv_client h = Some (sp_client p) \<and> hv_sessionId h = sp_sessionId p)"

definition steer_owner :: "steerOp \<Rightarrow> string" where
  "steer_owner p = se_ownerTurnId (sp_entry p)"

definition steer_mark :: "host_view \<Rightarrow> nat \<Rightarrow> controller \<Rightarrow> outcome_result" where
  "steer_mark h n c =
     (case map_get (tc_steers c) n of
        None \<Rightarrow> (c, [])
      | Some p \<Rightarrow>
          if se_sent (sp_entry p) \<or> \<not> steer_current h p c \<or> \<not> hv_canStart h
             \<or> active_id c \<noteq> Some (steer_owner p)
             \<or> \<not> (tc_interrupting c = None \<or> tc_interrupting c = Some [])
          then (c, [])
          else (change_entry n (\<lambda>e. e\<lparr>se_sent := True\<rparr>) c,
                [SendSteer \<lparr>le_client = sp_client p, le_sessionId = sp_sessionId p,
                            le_turnId = steer_owner p\<rparr> (se_turn (sp_entry p))]))"

text \<open>The \<open>finally\<close> of a current steer: the queue head that waited behind it is started.\<close>

definition steer_finally :: "host_view \<Rightarrow> steerOp \<Rightarrow> controller \<Rightarrow> outcome_result" where
  "steer_finally h p c =
     (let c1 = c\<lparr>tc_steerInFlight := False\<rparr>;
          c2 = (if \<not> tc_steerUnknown c1 \<and> steer_owner p \<in> set (tc_terminalReceipts c1)
                then c1\<lparr>tc_retained := filter (\<lambda>e. se_ownerTurnId e \<noteq> steer_owner p) (tc_retained c1)\<rparr>
                else c1)
      in start_active h c2)"

definition steer_unknown :: "steerOp \<Rightarrow> controller \<Rightarrow> outcome_result" where
  "steer_unknown p c =
     (c\<lparr>tc_steerUnknown := True\<rparr>,
      [reportSteer (se_turn (sp_entry p)) ''Steering outcome unknown''
         (''The request may have been consumed or started a new turn. It will not be resent automatically. Use the Retry queued delivery control above -- or reconnect from Settings to restore queued prompt delivery. Submitted text: ''
          @ pt_text (se_turn (sp_entry p)))])"

definition steer_rejected :: "steerOp \<Rightarrow> bool \<Rightarrow> controller \<Rightarrow> outcome_result" where
  "steer_rejected p protocol c =
     (let e = sp_entry p
      in if se_returned e then (c, [])
         else if \<not> se_sent e \<or> protocol
         then (restage [se_turn e] (drop_entry (se_id e) c),
               [reportSteer (se_turn e) ''Steering queued''
                  ''Steering was not admitted. The text remains ahead of later pending prompts.''])
         else steer_unknown p c)"

text \<open>Core's fallback started the steered text as a new turn: adopt it without sending it again.\<close>

definition steer_started :: "steerOp \<Rightarrow> string \<Rightarrow> controller \<Rightarrow> outcome_result" where
  "steer_started p i c =
     (let e = sp_entry p; owner = steer_owner p;
          c1 = (drop_entry (se_id e) c)\<lparr>tc_attempted := insert i (tc_attempted c)\<rparr>;
          report = reportSteer (se_turn e) ''Native steering started a new turn''
            ''The prior turn ended before admission. Core started the submitted text as a new turn.'';
          prior = active_id c1
      in if i \<in> set (tc_terminalReceipts c1) then (c1, [report])
         else if (case prior of None \<Rightarrow> False
                  | Some a \<Rightarrow> a \<noteq> owner \<and> a \<noteq> i \<and> a \<in> tc_attempted c1)
         then steer_rejected p False c1
         else let q1 = (if prior = Some owner then fst (settle (tc_queue c1) owner) else tc_queue c1)
              in (c1\<lparr>tc_queue := fst (restoreActive q1 ((se_turn e)\<lparr>pt_turnId := i\<rparr>) True),
                     tc_acceptedOwner := Some (\<lparr>le_client = sp_client p, le_sessionId = sp_sessionId p,
                                                le_turnId = i\<rparr>, OwnRunning)\<rparr>, [report]))"

definition steering_accepted :: string where
  "steering_accepted = ''Steering accepted''"

text \<open>The receipt is the turn's id and whether it was steered; the command rejects with a reason.\<close>

definition steer_answer ::
  "host_view \<Rightarrow> nat \<Rightarrow> transportError + string \<times> bool \<Rightarrow> controller \<Rightarrow> outcome_result" where
  "steer_answer h n answer c =
     (case map_get (tc_steers c) n of
        None \<Rightarrow> (c, [])
      | Some p \<Rightarrow>
          let c1 = c\<lparr>tc_steers := map_del n (tc_steers c)\<rparr>; e = sp_entry p
          in if \<not> steer_current h p c1 then (c1, [])
             else andthen
               (case answer of
                  Inl reason \<Rightarrow> steer_rejected p (protocol_failure reason) c1
                | Inr (i, steered) \<Rightarrow>
                    if \<not> se_sent e \<or> \<not> uuid i \<or> (steered \<and> i \<noteq> steer_owner p)
                    then steer_rejected p False c1
                    else if se_returned e then (c1, [])
                    else if \<not> steered then steer_started p i c1
                    else (change_entry n (\<lambda>e. e\<lparr>se_accepted := True\<rparr>) c1,
                          [reportSteer (se_turn e) steering_accepted (pt_text (se_turn e))]))
               (steer_finally h p))"

definition setSteeringEnabled :: "bool \<Rightarrow> controller \<Rightarrow> controller" where
  "setSteeringEnabled b c = c\<lparr>tc_steeringEnabled := b\<rparr>"

definition retrySteerDelivery :: "host_view \<Rightarrow> controller \<Rightarrow> outcome_result" where
  "retrySteerDelivery h c =
     (if \<not> tc_steerUnknown c then (c, [])
      else start_active h (c\<lparr>tc_steerEpoch := tc_steerEpoch c + 1, tc_steerUnknown := False,
                             tc_steerInFlight := False\<rparr>))"

section \<open>Observed notifications\<close>

abbreviation "M_TURN_STEER_DROPPED \<equiv> ''turn/steer_dropped''"

definition confirmTurnAccepted :: "host_view \<Rightarrow> string \<Rightarrow> controller \<Rightarrow> outcome_result" where
  "confirmTurnAccepted h t c =
     andthen (acceptLocalDispatch h t OwnRunning c) (\<lambda>c'.
       (c', if accepts_dispatch h t c \<and> tc_timedOutStart c = Some t
            then [ShowSystem (''send-timeout:'' @ t) ''Turn start timed out''
                    ''The server had accepted the turn after all -- no resubmission needed.'' Info]
            else []))"

definition adoptObservedTurn :: "host_view \<Rightarrow> string \<Rightarrow> controller \<Rightarrow> controller" where
  "adoptObservedTurn h t c =
     (if t \<in> tc_attempted c \<or> locally_started c t \<or> active_id c \<noteq> None \<or> in_queue t c then c
      else adopt_active h t c)"

definition max_inputs :: nat where
  "max_inputs = 10000"

definition dropped_inputs :: "rpcNotification \<Rightarrow> (string \<times> string list) option" where
  "dropped_inputs n =
     (case as_record (nt_params n) of
        None \<Rightarrow> None
      | Some o' \<Rightarrow>
          (case (as_string (fld o' ''session_id''), as_string (fld o' ''turn_id''),
                 as_string (fld o' ''reason''), as_array (fld o' ''inputs'')) of
             (Some s, Some t, Some _, Some inputs) \<Rightarrow>
               if s = [] \<or> \<not> uuid t \<or> length inputs > max_inputs then None
               else map_option (Pair t) (those (map (as_string \<circ> Some) inputs))
           | _ \<Rightarrow> None))"

definition returns_entry :: "string \<Rightarrow> string \<Rightarrow> steerEntry \<Rightarrow> bool" where
  "returns_entry t input e =
     (se_sent e \<and> \<not> se_returned e \<and> se_ownerTurnId e = t \<and> pt_text (se_turn e) = input)"

text \<open>The loop over the returned inputs; it collects the turns that come back, in order.\<close>

fun return_inputs ::
  "string \<Rightarrow> string list \<Rightarrow> controller \<Rightarrow> controller \<times> promptTurn list" where
  "return_inputs t [] c = (c, [])"
| "return_inputs t (input # inputs) c =
     (case find (returns_entry t input) (tc_retained c) of
        None \<Rightarrow> return_inputs t inputs c
      | Some e \<Rightarrow>
          (let (c', ts) = return_inputs t inputs
                 (drop_entry (se_id e) (change_entry (se_id e) (\<lambda>e. e\<lparr>se_returned := True\<rparr>) c))
           in (c', se_turn e # ts)))"

definition return_steers :: "rpcNotification \<Rightarrow> controller \<Rightarrow> outcome_result" where
  "return_steers n c =
     (case dropped_inputs n of
        None \<Rightarrow> (c, [])
      | Some (t, inputs) \<Rightarrow>
          (let (c1, ts) = return_inputs t inputs c;
               c2 = (if ts = [] then c1 else c1\<lparr>tc_steerUnknown := False\<rparr>)
           in (restage ts c2,
               map (\<lambda>t. reportSteer t ''Steering returned to queue'' (pt_text t)) ts)))"

definition observeSteerDropped :: "host_view \<Rightarrow> rpcNotification \<Rightarrow> controller \<Rightarrow> outcome_result" where
  "observeSteerDropped h n c =
     (if \<not> notificationMatchesSessionScope n (hv_sessionId h) then (c, [])
      else andthen
        (case notificationTurnId n of
           None \<Rightarrow> (c, [])
         | Some t \<Rightarrow>
             if t = [] then (c, [])
             else andthen (confirmTurnAccepted h t c)
               (\<lambda>c. (if nt_method n = M_TURN_STARTED then adoptObservedTurn h t c else c, [])))
        (if nt_method n = M_TURN_STEER_DROPPED then return_steers n else (\<lambda>c. (c, []))))"

section \<open>Interrupt\<close>

definition arm_restore :: "host_view \<Rightarrow> promptTurn \<Rightarrow> bool \<Rightarrow> controller \<Rightarrow> controller" where
  "arm_restore h t restorePrompt c =
     (if restorePrompt \<and> (\<not> blank (pt_text t) \<or> has_media t)
      then c\<lparr>tc_queue := stashInterruptPrompt (tc_queue c) (hv_sessionId h) (pt_turnId t) (pt_text t)
                            (case pt_media t of None \<Rightarrow> [] | Some ms \<Rightarrow> ms)\<rparr>
      else if \<not> restorePrompt
      then c\<lparr>tc_queue := fst (takeInterruptPrompt (tc_queue c) (pt_turnId t))\<rparr>
      else c)"

definition interrupt :: "host_view \<Rightarrow> bool \<Rightarrow> controller \<Rightarrow> outcome_result" where
  "interrupt h restorePrompt c =
     (if tc_recovery c \<noteq> None \<or> \<not> hv_canInterrupt h then (c, [])
      else case (hv_client h, q_active (tc_queue c)) of
        (Some cl, Some t) \<Rightarrow>
          let i = pt_turnId t; l = \<lparr>le_client = cl, le_sessionId = hv_sessionId h, le_turnId = i\<rparr>
          in if hv_sessionId h = []
             then (c, [ShowSystem (''nothing-to-stop:'' @ hv_uuid h) ''Nothing to stop''
                         ''There is no active foreground turn, so no server command was sent.'' Info])
             else if tc_locallyStarted c = Some l
             then (c, [ShowSystem (''still-starting:'' @ i) ''Turn is still starting''
                         ''Octos has not accepted this turn yet, so no interrupt was sent.'' Info])
             else if tc_interrupting c = Some i then (c, [])
             else let c1 = arm_restore h t restorePrompt c;
                      (g, a) = gate_begin (tc_interruptRequests c1) cl (hv_sessionId h)
                  in (c1\<lparr>tc_interrupting := Some i, tc_interruptRequests := g,
                        tc_interrupts := map_put (au_generation a)
                          \<lparr>to_request = a, to_turnId = i\<rparr> (tc_interrupts c1)\<rparr>,
                      [SendInterrupt l])
      | _ \<Rightarrow> (c, [ShowSystem (''nothing-to-stop:'' @ hv_uuid h) ''Nothing to stop''
                   ''There is no active foreground turn, so no server command was sent.'' Info]))"

definition op_current :: "nat gate \<Rightarrow> host_view \<Rightarrow> turnOp \<Rightarrow> controller \<Rightarrow> bool" where
  "op_current g h op c =
     (gate_isCurrent g (to_request op) (hv_client h) (hv_sessionId h)
      \<and> active_id c = Some (to_turnId op))"

definition interrupt_answer ::
  "host_view \<Rightarrow> nat \<Rightarrow> transportError option \<Rightarrow> controller \<Rightarrow> outcome_result" where
  "interrupt_answer h k failure c =
     (case map_get (tc_interrupts c) k of
        None \<Rightarrow> (c, [])
      | Some op \<Rightarrow>
          let c1 = c\<lparr>tc_interrupts := map_del k (tc_interrupts c)\<rparr>;
              current = op_current (tc_interruptRequests c1) h op c1;
              shown = (case failure of
                         Some reason \<Rightarrow> if current then [ConnectionError (failure_message reason)] else []
                       | None \<Rightarrow> []);
              accepted = (failure = None \<and> current);
              f = gate_finish (tc_interruptRequests c1) (to_request op);
              c2 = c1\<lparr>tc_interruptRequests := fst f\<rparr>
          in (if snd f \<and> \<not> accepted \<and> tc_interrupting c2 = Some (to_turnId op)
              then c2\<lparr>tc_interrupting := None\<rparr> else c2, shown))"

definition canSendPendingNow :: "host_view \<Rightarrow> controller \<Rightarrow> bool" where
  "canSendPendingNow h c =
     (case active_id c of
        None \<Rightarrow> False
      | Some i \<Rightarrow>
          hv_client h \<noteq> None \<and> hv_sessionId h \<noteq> [] \<and> hv_canInterrupt h \<and> tc_recovery c = None
          \<and> \<not> tc_steerUnknown c \<and> \<not> tc_steerInFlight c
          \<and> (tc_interrupting c = None \<or> tc_interrupting c = Some [])
          \<and> tc_dispatching c \<noteq> Some i
          \<and> (q_pending (tc_queue c) \<noteq> []
             \<or> list_ex (\<lambda>e. se_sent e \<and> \<not> se_returned e \<and> se_ownerTurnId e = i) (tc_retained c)))"

definition sendPendingNow :: "host_view \<Rightarrow> controller \<Rightarrow> outcome_result" where
  "sendPendingNow h c = (if canSendPendingNow h c then interrupt h False c else (c, []))"

section \<open>Lifecycle recovery\<close>

definition retryTurnRecovery :: "host_view \<Rightarrow> controller \<Rightarrow> outcome_result" where
  "retryTurnRecovery h c =
     (case (hv_client h, active_id c) of
        (Some cl, Some i) \<Rightarrow>
          if hv_sessionId h = [] \<or> i = [] \<or> map_option rv_phase (tc_recovery c) = Some Checking
          then (c, [])
          else if \<not> hv_canGetTurnState h
          then (c\<lparr>tc_recovery := Some \<lparr>rv_turnId = i, rv_phase = Unavailable\<rparr>\<rparr>, [])
          else let (g, a) = gate_begin (tc_recoveryRequests c) cl (hv_sessionId h)
               in (c\<lparr>tc_recoveryRequests := g,
                     tc_recovery := Some \<lparr>rv_turnId = i, rv_phase = Checking\<rparr>,
                     tc_lookups := map_put (au_generation a) \<lparr>to_request = a, to_turnId = i\<rparr> (tc_lookups c)\<rparr>,
                   [AskTurnState \<lparr>le_client = cl, le_sessionId = hv_sessionId h, le_turnId = i\<rparr>])
      | _ \<Rightarrow> (c, []))"

definition live_state :: "string \<Rightarrow> bool" where
  "live_state s = (s = ''active'' \<or> s = ''interrupting'')"

definition lifecycle_owner :: "string \<Rightarrow> ownerState" where
  "lifecycle_owner s =
     (if s = ''completed'' then OwnCompleted else if live_state s then OwnRunning else OwnFailed)"

definition lifecycle_outcome :: "string \<Rightarrow> turnOutcome" where
  "lifecycle_outcome s = (if s = ''completed'' then OutcomeCompleted else OutcomeFailed)"

definition applyRecoveredState :: "host_view \<Rightarrow> string \<Rightarrow> string \<Rightarrow> controller \<Rightarrow> outcome_result" where
  "applyRecoveredState h i s c =
     (let c1 = clearRecovery c;
          c2 = c1\<lparr>tc_startRequests := gate_invalidate (tc_startRequests c1)\<rparr>
      in andthen (acceptLocalDispatch h i (lifecycle_owner s) c2) (\<lambda>c3.
         let c4 = c3\<lparr>tc_interruptRequests := gate_invalidate (tc_interruptRequests c3),
                     tc_interrupting := if s = ''interrupting'' then Some i else None\<rparr>
         in if live_state s then (c4, [])
            else andthen (set_owner_state i (owner_outcome (lifecycle_outcome s)) c4,
                          [SettleRows i s, RecoveredTerminal i])
                   (settleTurn h i (lifecycle_outcome s))))"

definition recovery_answer ::
  "host_view \<Rightarrow> nat \<Rightarrow> transportError + turnStateGetResult \<Rightarrow> controller \<Rightarrow> outcome_result" where
  "recovery_answer h k answer c =
     (case map_get (tc_lookups c) k of
        None \<Rightarrow> (c, [])
      | Some op \<Rightarrow>
          let c1 = c\<lparr>tc_lookups := map_del k (tc_lookups c)\<rparr>;
              i = to_turnId op;
              publish = (\<lambda>p. (c1\<lparr>tc_recovery := Some \<lparr>rv_turnId = i, rv_phase = p\<rparr>\<rparr>, []))
          in with_result
               (\<lambda>c. c\<lparr>tc_recoveryRequests := fst (gate_finish (tc_recoveryRequests c) (to_request op))\<rparr>)
               (if \<not> op_current (tc_recoveryRequests c1) h op c1 then (c1, [])
                else case answer of
                  Inl reason \<Rightarrow> publish (RecoveryError (failure_message reason))
                | Inr r \<Rightarrow>
                    if ts_session_id r \<noteq> au_sessionId (to_request op) \<or> ts_turn_id r \<noteq> i
                       \<or> \<not> isTurnLifecycleState (Some (JStr (ts_state r)))
                    then publish (RecoveryError ''The server returned status for a different or invalid turn.'')
                    else if ts_state r = ''unknown'' then publish OutcomeUnknown
                    else applyRecoveredState h i (ts_state r) c1))"

definition continueWithoutTurn :: "host_view \<Rightarrow> controller \<Rightarrow> outcome_result" where
  "continueWithoutTurn h c =
     (case (active_id c, tc_recovery c) of
        (Some i, Some r) \<Rightarrow>
          if rv_phase r = Checking \<or> i = [] \<or> rv_turnId r \<noteq> i then (c, [])
          else let c1 = (clearRecovery c)\<lparr>tc_timedOutStart := None\<rparr>
               in andthen (retireLocalDispatch i CancelledDispatch c1) (\<lambda>c2.
                  let c3 = (if owner_of_turn c2 i then c2\<lparr>tc_acceptedOwner := None\<rparr> else c2);
                      c4 = c3\<lparr>tc_queue := fst (takeInterruptPrompt (tc_queue c3) i)\<rparr>
                  in andthen (c4, [MarkUnconfirmed i,
                       ShowSystem (''turn-unresolved:'' @ i) ''Response outcome unknown''
                         ''Continued without confirming this response. No stop request or resubmission was sent.''
                         Info])
                       (\<lambda>c5. start_next h (releaseQueueTurn h i c5)))
      | _ \<Rightarrow> (c, []))"

section \<open>Reconciliation with a hydrate\<close>

definition drop_lease :: "controller \<Rightarrow> outcome_result" where
  "drop_lease c =
     (case tc_locallyStarted c of
        None \<Rightarrow> (c, [])
      | Some l \<Rightarrow> if le_turnId l = [] then (c, []) else retireLocalDispatch (le_turnId l) CancelledDispatch c)"

definition reconcile_ownership :: "host_view \<Rightarrow> bool \<Rightarrow> controller \<Rightarrow> outcome_result" where
  "reconcile_ownership h preserve c =
     (if \<not> preserve
      then with_result (\<lambda>c. c\<lparr>tc_acceptedOwner := None\<rparr>) (drop_lease c)
      else let keep = (case tc_locallyStarted c of None \<Rightarrow> False | Some l \<Rightarrow> lease_current h l)
           in with_result
                (\<lambda>c. case tc_acceptedOwner c of
                        None \<Rightarrow> c
                      | Some (l, _) \<Rightarrow> if lease_current h l then c else c\<lparr>tc_acceptedOwner := None\<rparr>)
                (if keep then (c, []) else drop_lease c))"

definition server_turns :: "sessionHydrateResult \<Rightarrow> hydratedTurn list" where
  "server_turns r = (case hr_turns r of None \<Rightarrow> [] | Some ts \<Rightarrow> ts)"

definition server_active :: "sessionHydrateResult \<Rightarrow> hydratedTurn option" where
  "server_active r = find (\<lambda>t. live_state (ht_state t)) (server_turns r)"

definition interrupting_turn :: "hydratedTurn option \<Rightarrow> string option" where
  "interrupting_turn sa =
     (case sa of None \<Rightarrow> None
      | Some t \<Rightarrow> if ht_state t = ''interrupting'' then Some (ht_turn_id t) else None)"

text \<open>The part before the queue is looked at.\<close>

definition reconcile_marks :: "host_view \<Rightarrow> sessionHydrateResult \<Rightarrow> bool \<Rightarrow> controller \<Rightarrow> outcome_result" where
  "reconcile_marks h r preserve c =
     with_result
       (\<lambda>c. c\<lparr>tc_hydratedActive := map_option (\<lambda>t. (ht_turn_id t, ht_state t = ''interrupting'')) (server_active r),
              tc_interruptRequests := gate_invalidate (tc_interruptRequests c),
              tc_interrupting := interrupting_turn (server_active r)\<rparr>)
       (reconcile_ownership h preserve (clearRecovery (c\<lparr>tc_steerUnknown := False\<rparr>)))"

definition known_state :: "hydratedTurn \<Rightarrow> bool" where
  "known_state t = (isTurnLifecycleState (Some (JStr (ht_state t))) \<and> ht_state t \<noteq> ''unknown'')"

text \<open>
  The active turn was attempted. An explicit state of the server supersedes the pending start; a
  terminal one settles the turn; otherwise its outcome is looked up. The turn returned is the next
  of the queue, which the record's ready drain starts.
\<close>

definition reconcile_attempted ::
  "host_view \<Rightarrow> sessionHydrateResult \<Rightarrow> string \<Rightarrow> controller \<Rightarrow> outcome_result \<times> promptTurn option" where
  "reconcile_attempted h r i c =
     (case find (\<lambda>t. ht_turn_id t = i) (server_turns r) of
        None \<Rightarrow> (retryTurnRecovery h c, None)
      | Some t \<Rightarrow>
          if \<not> known_state t then (retryTurnRecovery h c, None)
          else let c1 = c\<lparr>tc_attempted := insert i (tc_attempted c),
                          tc_startRequests := gate_invalidate (tc_startRequests c)\<rparr>;
                   r2 = acceptLocalDispatch h i (lifecycle_owner (ht_state t)) c1;
                   c2 = fst r2
               in if live_state (ht_state t) then (r2, None)
                  else let c3 = set_owner_state i (owner_outcome (lifecycle_outcome (ht_state t))) c2;
                           q = settle (tc_queue c3) i;
                           c4 = c3\<lparr>tc_queue := fst q\<rparr>
                       in (case server_active r of
                             Some sa \<Rightarrow>
                               if ht_turn_id sa \<noteq> i
                               then ((adopt_active h (ht_turn_id sa) c4, snd r2), None)
                               else ((c4, snd r2), qt_next (snd q))
                           | None \<Rightarrow> ((c4, snd r2), qt_next (snd q))))"

definition reconcileFromHydrate ::
  "host_view \<Rightarrow> sessionHydrateResult \<Rightarrow> bool \<Rightarrow> controller \<Rightarrow> outcome_result \<times> promptTurn option" where
  "reconcileFromHydrate h r preserve c =
     (if hr_session_id r \<noteq> hv_sessionId h then ((c, []), None)
      else let m = reconcile_marks h r preserve c; c1 = fst m;
               foreign = (case server_active r of
                            None \<Rightarrow> None
                          | Some sa \<Rightarrow>
                              if active_id c1 \<noteq> Some (ht_turn_id sa)
                                 \<and> (case active_id c1 of None \<Rightarrow> True | Some i \<Rightarrow> i \<notin> tc_attempted c1)
                              then Some (ht_turn_id sa) else None)
           in case foreign of
                Some t \<Rightarrow>
                  ((adopt_active h t (c1\<lparr>tc_startRequests := gate_invalidate (tc_startRequests c1)\<rparr>), snd m), None)
              | None \<Rightarrow>
                  (case q_active (tc_queue c1) of
                     None \<Rightarrow> (m, None)
                   | Some a \<Rightarrow>
                       if pt_turnId a \<notin> tc_attempted c1 then (m, Some a)
                       else let (r', next) = reconcile_attempted h r (pt_turnId a) c1
                            in ((fst r', snd m @ snd r'), next)))"

section \<open>Transport ownership, suspension and reset\<close>

definition clearTransportOwnership :: "controller \<Rightarrow> controller" where
  "clearTransportOwnership c =
     c\<lparr>tc_locallyStarted := None, tc_acceptedOwner := None, tc_dispatching := None\<rparr>"

definition setAcceptedOwnerInteraction ::
  "host_view \<Rightarrow> bool \<Rightarrow> string option \<Rightarrow> controller \<Rightarrow> controller" where
  "setAcceptedOwnerInteraction h waiting t c =
     (case tc_acceptedOwner c of
        None \<Rightarrow> c
      | Some (l, st) \<Rightarrow>
          if \<not> lease_current h l \<or> (t \<noteq> None \<and> Some (le_turnId l) \<noteq> t)
             \<or> st = OwnCompleted \<or> st = OwnFailed
          then c
          else c\<lparr>tc_acceptedOwner := Some (l, if waiting then OwnWaiting else OwnRunning)\<rparr>)"

definition restoreTransportOwnership :: "host_view \<Rightarrow> string \<Rightarrow> ownerState \<Rightarrow> controller \<Rightarrow> controller" where
  "restoreTransportOwnership h t st c =
     (case hv_client h of
        None \<Rightarrow> c
      | Some cl \<Rightarrow>
          if hv_sessionId h = [] \<or> t = [] then c
          else c\<lparr>tc_locallyStarted := None, tc_dispatching := None,
                 tc_acceptedOwner := Some (\<lparr>le_client = cl, le_sessionId = hv_sessionId h,
                                            le_turnId = t\<rparr>, st)\<rparr>)"

definition interruptibleNow :: "host_view \<Rightarrow> controller \<Rightarrow> bool" where
  "interruptibleNow h c =
     (active_id c \<noteq> None \<and> tc_recovery c = None \<and> tc_dispatching c \<noteq> active_id c \<and> hv_canInterrupt h)"

definition backgroundHandoffTurn :: "host_view \<Rightarrow> controller \<Rightarrow> (string \<times> ownerState) option" where
  "backgroundHandoffTurn h c =
     (case tc_acceptedOwner c of
        None \<Rightarrow> None
      | Some (l, st) \<Rightarrow> if lease_current h l then Some (le_turnId l, st) else None)"

datatype turnOwnership = OwnedNone | OwnedDispatching | OwnedLocal | OwnedObserved

definition activeTurnOwnership :: "host_view \<Rightarrow> controller \<Rightarrow> turnOwnership" where
  "activeTurnOwnership h c =
     (if (case tc_locallyStarted c of None \<Rightarrow> False | Some l \<Rightarrow> lease_current h l) then OwnedDispatching
      else if (case tc_acceptedOwner c of None \<Rightarrow> False | Some (l, _) \<Rightarrow> lease_current h l) then OwnedLocal
      else if active_id c \<noteq> None then OwnedObserved else OwnedNone)"

definition suspendTransport :: "controller \<Rightarrow> outcome_result" where
  "suspendTransport c =
     (let unsent = map se_turn (filter (\<lambda>e. \<not> se_sent e) (tc_retained c));
          lost = filter (\<lambda>e. se_sent e \<and> \<not> se_returned e) (tc_retained c);
          c1 = restage unsent (c\<lparr>tc_steerEpoch := tc_steerEpoch c + 1, tc_retained := [],
                 tc_steerInFlight := False, tc_steerUnknown := False\<rparr>);
          c2 = (case tc_preflight c1 of None \<Rightarrow> c1
                | Some i \<Rightarrow> if i = [] then c1 else c1\<lparr>tc_attempted := tc_attempted c1 - {i}\<rparr>)
      in ((invalidate_requests c2)\<lparr>tc_preflight := None, tc_locallyStarted := None,
            tc_acceptedOwner := None, tc_dispatching := None, tc_interrupting := None\<rparr>,
          map (\<lambda>e. reportSteer (se_turn e) ''Steering outcome unknown''
                 (''Transport changed before consumption could be confirmed. This text will not be resent automatically: ''
                  @ pt_text (se_turn e))) lost))"

definition reset :: "controller \<Rightarrow> controller" where
  "reset c =
     (invalidate_requests (clearRecovery c))\<lparr>tc_hydratedActive := None, tc_timedOutStart := None,
        tc_steerEpoch := tc_steerEpoch c + 1, tc_steerInFlight := False, tc_steerUnknown := False,
        tc_retained := [], tc_terminalReceipts := [], tc_steerAdmitted := {},
        tc_queue := clear (tc_queue c), tc_attempted := {}, tc_preflight := None,
        tc_locallyStarted := None, tc_acceptedOwner := None, tc_dispatching := None,
        tc_interrupting := None\<rparr>"

section \<open>Events\<close>

datatype turnEvent =
    Enqueue promptTurn
  | Prompt string
  | Submit promptTurn
  | Cancel string
  | SeatAnswered nat "string option"
  | ReviewMarked nat
  | ReviewAnswered nat "transportError + reviewStartResult"
  | StartAnswered nat "transportError option"
  | SteerMarked nat
  | SteerAnswered nat "transportError + string \<times> bool"
  | Observed rpcNotification
  | Terminal string turnOutcome
  | Stop
  | SendNow
  | InterruptAnswered nat "transportError option"
  | RetryRecovery
  | RecoveryAnswered nat "transportError + turnStateGetResult"
  | Continue
  | Hydrated sessionHydrateResult bool
  | Resume
  | RetrySteer
  | SteeringEnabled bool
  | OwnerInteraction bool "string option"
  | RestoreOwnership string ownerState
  | ClearOwnership
  | Suspend
  | Reset

definition turn_step :: "controller \<Rightarrow> host_view \<times> turnEvent \<Rightarrow> outcome_result" where
  "turn_step c he =
     (let h = fst he
      in case snd he of
           Enqueue t \<Rightarrow> enqueueTurn h t c
         | Prompt s \<Rightarrow> enqueuePrompt h s c
         | Submit t \<Rightarrow> submitTurn h t c
         | Cancel i \<Rightarrow> (cancelQueuedPrompt i c, [])
         | SeatAnswered k a \<Rightarrow> seat_answer h k a c
         | ReviewMarked k \<Rightarrow> review_mark h k c
         | ReviewAnswered k a \<Rightarrow> review_answer h k a c
         | StartAnswered k a \<Rightarrow> start_answer h k a c
         | SteerMarked n \<Rightarrow> steer_mark h n c
         | SteerAnswered n a \<Rightarrow> steer_answer h n a c
         | Observed n \<Rightarrow> observeSteerDropped h n c
         | Terminal t oc \<Rightarrow> settleTurn h t oc c
         | Stop \<Rightarrow> interrupt h True c
         | SendNow \<Rightarrow> sendPendingNow h c
         | InterruptAnswered k a \<Rightarrow> interrupt_answer h k a c
         | RetryRecovery \<Rightarrow> retryTurnRecovery h c
         | RecoveryAnswered k a \<Rightarrow> recovery_answer h k a c
         | Continue \<Rightarrow> continueWithoutTurn h c
         | Hydrated r p \<Rightarrow> fst (reconcileFromHydrate h r p c)
         | Resume \<Rightarrow> start_active h c
         | RetrySteer \<Rightarrow> retrySteerDelivery h c
         | SteeringEnabled b \<Rightarrow> (setSteeringEnabled b c, [])
         | OwnerInteraction b t \<Rightarrow> (setAcceptedOwnerInteraction h b t c, [])
         | RestoreOwnership t st \<Rightarrow> (restoreTransportOwnership h t st c, [])
         | ClearOwnership \<Rightarrow> (clearTransportOwnership c, [])
         | Suspend \<Rightarrow> suspendTransport c
         | Reset \<Rightarrow> (reset c, []))"

fun turn_run :: "controller \<Rightarrow> (host_view \<times> turnEvent) list \<Rightarrow> outcome_result" where
  "turn_run c [] = (c, [])"
| "turn_run c (e # es) =
     (let r = turn_step c e; r' = turn_run (fst r) es in (fst r', snd r @ snd r'))"

end
