(* ===== verification/TurnDispatch.thy ===== *)
theory TurnDispatch
  imports TurnController
begin

text \<open>
  What the turn controller of \<open>TurnController\<close> guarantees of the frames it sends: no turn is sent
  twice, whatever answers, notifications, hydrates and user actions come in whatever order.
\<close>

section \<open>At most one dispatch per turn\<close>

fun sent_turn :: "turnEffect \<Rightarrow> string option" where
  "sent_turn (SendTurn l t) = Some (pt_turnId t)"
| "sent_turn (SendReview l t) = Some (pt_turnId t)"
| "sent_turn _ = None"

definition sent_turns :: "turnEffect list \<Rightarrow> string list" where
  "sent_turns out = List.map_filter sent_turn out"

lemma sent_turns_simps [simp]:
  "sent_turns [] = []"
  "sent_turns (x # out) = (case sent_turn x of None \<Rightarrow> sent_turns out | Some i \<Rightarrow> i # sent_turns out)"
  "sent_turns (a @ b) = sent_turns a @ sent_turns b"
  by (simp_all add: sent_turns_def map_filter_def split: option.split)

lemma sent_turns_none: "list_all (\<lambda>x. sent_turn x = None) out \<Longrightarrow> sent_turns out = []"
  by (induction out) auto

definition unsent_phase :: "startPhase \<Rightarrow> bool" where
  "unsent_phase p = (p = AtSeat \<or> p = AtReview False)"

text \<open>
  With \<open>S\<close> the turns whose frame has left: they stay attempted, none of them is in preflight, and the
  start that owns the gate and has not sent yet is not of them.
\<close>

definition dispatch_ok :: "string set \<Rightarrow> controller \<Rightarrow> bool" where
  "dispatch_ok S c = (S \<subseteq> tc_attempted c \<and> (\<forall>t. tc_preflight c = Some t \<longrightarrow> t \<notin> S)
     \<and> gate_ok (tc_startRequests c)
     \<and> (\<forall>k op. map_get (tc_starts c) k = Some op \<longrightarrow>
          start_key op = k \<and> gate_issued (tc_startRequests c) (so_request op)
          \<and> (gate_owns (tc_startRequests c) (so_request op) \<and> unsent_phase (so_phase op)
             \<longrightarrow> pt_turnId (so_turn op) \<in> tc_attempted c - S)))"

text \<open>A step that starts nothing: requests only get older, pending starts only go away.\<close>

definition calmer :: "controller \<Rightarrow> controller \<Rightarrow> bool" where
  "calmer c c' = (tc_attempted c \<subseteq> tc_attempted c'
     \<and> (tc_preflight c' = None \<or> tc_preflight c' = tc_preflight c)
     \<and> (\<forall>k op. map_get (tc_starts c') k = Some op \<longrightarrow> map_get (tc_starts c) k = Some op)
     \<and> gate_generation (tc_startRequests c) \<le> gate_generation (tc_startRequests c')
     \<and> (gate_owner (tc_startRequests c') = None
        \<or> gate_owner (tc_startRequests c') = gate_owner (tc_startRequests c)))"

lemma calmer_refl [simp, intro]: "calmer c c"
  by (simp add: calmer_def)

lemma calmer_trans: "calmer a b \<Longrightarrow> calmer b c \<Longrightarrow> calmer a c"
  unfolding calmer_def by (metis le_trans subset_trans)

lemma calmer_ok:
  assumes "dispatch_ok S c" and "calmer c c'"
  shows "dispatch_ok S c'"
proof -
  let ?g = "tc_startRequests c" and ?g' = "tc_startRequests c'"
  from assms have gen: "gate_generation ?g \<le> gate_generation ?g'"
    and owner: "gate_owner ?g' = None \<or> gate_owner ?g' = gate_owner ?g"
    and attempted: "tc_attempted c \<subseteq> tc_attempted c'"
    and starts: "\<And>k op. map_get (tc_starts c') k = Some op \<Longrightarrow> map_get (tc_starts c) k = Some op"
    by (auto simp: calmer_def)
  have issued: "gate_issued ?g' a" if "gate_issued ?g a" for a
    using that gen by (auto simp: gate_issued_def)
  have owns: "gate_owns ?g a" if "gate_owns ?g' a" for a
    using that owner by (auto simp: gate_owns_def)
  have "gate_ok ?g'"
    using assms(1) owner issued by (auto simp: dispatch_ok_def gate_ok_def)
  moreover have "start_key op = k \<and> gate_issued ?g' (so_request op)
      \<and> (gate_owns ?g' (so_request op) \<and> unsent_phase (so_phase op) \<longrightarrow> pt_turnId (so_turn op) \<in> tc_attempted c' - S)"
    if "map_get (tc_starts c') k = Some op" for k op
  proof -
    from assms(1) starts [OF that] have "start_key op = k \<and> gate_issued ?g (so_request op)
      \<and> (gate_owns ?g (so_request op) \<and> unsent_phase (so_phase op) \<longrightarrow> pt_turnId (so_turn op) \<in> tc_attempted c - S)"
      by (simp add: dispatch_ok_def)
    with issued owns attempted show ?thesis by blast
  qed
  moreover have "S \<subseteq> tc_attempted c'" "\<forall>t. tc_preflight c' = Some t \<longrightarrow> t \<notin> S"
    using assms by (auto simp: dispatch_ok_def calmer_def)
  ultimately show ?thesis unfolding dispatch_ok_def by blast
qed

lemma calmer_same:
  "tc_attempted c' = tc_attempted c \<Longrightarrow> tc_preflight c' = tc_preflight c \<Longrightarrow>
     tc_starts c' = tc_starts c \<Longrightarrow> tc_startRequests c' = tc_startRequests c \<Longrightarrow> calmer c c'"
  by (simp add: calmer_def)

definition quiet :: "controller \<Rightarrow> outcome_result \<Rightarrow> bool" where
  "quiet c r = (calmer c (fst r) \<and> sent_turns (snd r) = [])"

definition sends :: "string set \<Rightarrow> outcome_result \<Rightarrow> bool" where
  "sends S r = (dispatch_ok (S \<union> set (sent_turns (snd r))) (fst r)
     \<and> distinct (sent_turns (snd r)) \<and> set (sent_turns (snd r)) \<inter> S = {})"

lemma quiet_sends: "dispatch_ok S c \<Longrightarrow> quiet c r \<Longrightarrow> sends S r"
  by (simp add: sends_def quiet_def calmer_ok)

lemma quiet_refl [simp, intro]: "quiet c (c, [])"
  by (simp add: quiet_def)

lemma quiet_andthen: "quiet c r \<Longrightarrow> (\<And>c'. quiet c' (f c')) \<Longrightarrow> quiet c (andthen r f)"
  by (auto simp: quiet_def intro: calmer_trans)

lemma sends_andthen:
  assumes "sends S r" and "\<And>S' c'. dispatch_ok S' c' \<Longrightarrow> sends S' (f c')"
  shows "sends S (andthen r f)"
  using assms(1) assms(2) [of "S \<union> set (sent_turns (snd r))" "fst r"]
  by (auto simp: sends_def Un_assoc)

lemma quiet_before: "calmer c c' \<Longrightarrow> quiet c' r \<Longrightarrow> quiet c r"
  by (auto simp: quiet_def intro: calmer_trans)

lemma quiet_with_result: "quiet c r \<Longrightarrow> (\<And>c'. calmer c' (f c')) \<Longrightarrow> quiet c (with_result f r)"
  by (auto simp: quiet_def intro: calmer_trans)

lemma sends_with_result: "sends S r \<Longrightarrow> (\<And>c'. calmer c' (f c')) \<Longrightarrow> sends S (with_result f r)"
  by (auto simp: sends_def intro: calmer_ok)

section \<open>Steps that start nothing\<close>

lemma calmer_starts:
  "tc_starts c' = tc_starts c \<Longrightarrow> tc_attempted c \<subseteq> tc_attempted c' \<Longrightarrow>
     tc_preflight c' = None \<or> tc_preflight c' = tc_preflight c \<Longrightarrow>
     tc_startRequests c' \<in> {tc_startRequests c, gate_invalidate (tc_startRequests c)} \<Longrightarrow> calmer c c'"
  by (auto simp: calmer_def gate_invalidate_def)

lemma calm_marks:
  "calmer c (clearRecovery c)" "calmer c (clearDispatchingTurn t c)" "calmer c (forget_preflight t c)"
  "calmer c (set_owner_state t st c)" "calmer c (invalidate_requests c)" "calmer c (adopt_active h t c)"
  "calmer c (restage ts c)" "calmer c (drop_entry n c)" "calmer c (change_entry n f c)"
  "calmer c (clearTransportOwnership c)" "calmer c (setAcceptedOwnerInteraction h b t' c)"
  "calmer c (restoreTransportOwnership h t st c)" "calmer c (setSteeringEnabled b c)"
  "calmer c (cancelQueuedPrompt t c)" "calmer c (arm_restore h tu b c)"
  "calmer c (adoptObservedTurn h t c)"
  by (auto intro!: calmer_starts simp: clearRecovery_def clearDispatchingTurn_def forget_preflight_def
      set_owner_state_def invalidate_requests_def adopt_active_def restage_def drop_entry_def
      change_entry_def clearTransportOwnership_def setAcceptedOwnerInteraction_def
      restoreTransportOwnership_def setSteeringEnabled_def cancelQueuedPrompt_def arm_restore_def
      adoptObservedTurn_def split: option.split)

lemma calm_finish: "calmer c (finish_start op c)"
  by (auto simp: calmer_def finish_start_def gate_finish_def)

lemma calm_take: "calmer c (take_start k c)"
  by (auto simp: calmer_def take_start_def map_get_del split: if_splits)

lemma accept_fields:
  "tc_starts (fst (acceptLocalDispatch h t st c)) = tc_starts c"
  "tc_attempted (fst (acceptLocalDispatch h t st c)) = tc_attempted c"
  "tc_startRequests (fst (acceptLocalDispatch h t st c)) = tc_startRequests c"
  "tc_preflight (fst (acceptLocalDispatch h t st c)) = None
   \<or> tc_preflight (fst (acceptLocalDispatch h t st c)) = tc_preflight c"
  "sent_turns (snd (acceptLocalDispatch h t st c)) = []"
  by (auto simp: acceptLocalDispatch_def Let_def clearRecovery_def forget_preflight_def clearDispatchingTurn_def)

lemma quiet_accept: "quiet c (acceptLocalDispatch h t st c)"
  unfolding quiet_def using accept_fields [of h t st c] by (auto intro: calmer_starts)

lemma quiet_retire: "quiet c (retireLocalDispatch t ds c)"
  by (auto simp: quiet_def retireLocalDispatch_def forget_preflight_def clearDispatchingTurn_def
      intro!: calmer_starts split: option.split)

lemma settle_steers_sent: "sent_turns (snd (settle_steers t c)) = []"
  by (rule sent_turns_none) (auto simp: settle_steers_def list_all_iff)

lemma quiet_settle_steers: "quiet c (settle_steers t c)"
  by (simp add: quiet_def settle_steers_sent) (simp add: settle_steers_def calmer_same)

lemma quiet_settle_marks: "quiet c (settle_marks t oc c)"
proof -
  define c1 where "c1 = (if recovering c t then clearRecovery c else c)"
  define c2 where "c2 = (if map_option fst (tc_hydratedActive c1) = Some t
    then c1\<lparr>tc_hydratedActive := None\<rparr> else c1)"
  define c3 where "c3 = (if tc_timedOutStart c2 = Some t then c2\<lparr>tc_timedOutStart := None\<rparr> else c2)"
  define c4 where "c4 = c3\<lparr>tc_terminalReceipts := remember_terminal t (tc_terminalReceipts c3)\<rparr>"
  have "calmer c c1" by (simp add: c1_def calm_marks)
  moreover have "calmer c1 c4" by (simp add: c4_def c3_def c2_def calmer_same)
  ultimately have "calmer c c4" by (rule calmer_trans)
  moreover have "settle_marks t oc c = andthen (settle_steers t c4) (\<lambda>c5.
      retireLocalDispatch t CancelledDispatch (set_owner_state t (owner_outcome oc) c5))"
    by (simp add: settle_marks_def c1_def c2_def c3_def c4_def Let_def)
  ultimately show ?thesis
    using quiet_before quiet_andthen [OF quiet_settle_steers] quiet_before [OF calm_marks(4) quiet_retire] by metis
qed

lemma quiet_give_back: "quiet c (give_prompt_back t c)"
  by (auto simp: quiet_def give_prompt_back_def Let_def intro!: calmer_same split: option.split)

lemma quiet_release_settled: "quiet c (fst (release_settled t c))"
proof -
  have "calmer c (c\<lparr>tc_queue := q\<rparr>)" for q by (simp add: calmer_same)
  moreover have "calmer c' (c'\<lparr>tc_interrupting := None\<rparr>)" for c' by (simp add: calmer_same)
  ultimately show ?thesis
    by (simp add: release_settled_def Let_def)
      (meson calm_marks(5) calmer_trans quiet_before quiet_give_back)
qed

lemma quiet_release: "quiet c (fst (releaseQueueTurn h t c))"
proof (cases "\<exists>other b. tc_hydratedActive c = Some (other, b) \<and> other \<noteq> t \<and> active_id c = Some t")
  case False
  then show ?thesis by (auto simp: releaseQueueTurn_def quiet_release_settled split: option.split)
next
  case True
  then obtain other b where o: "tc_hydratedActive c = Some (other, b)" "other \<noteq> t" "active_id c = Some t" by blast
  let ?c1 = "invalidate_requests c"
  let ?c2 = "adopt_active h other (?c1\<lparr>tc_queue := fst (settle (tc_queue ?c1) t)\<rparr>)"
  have "calmer c ?c1" by (rule calm_marks)
  moreover have "calmer ?c1 (?c1\<lparr>tc_queue := q\<rparr>)" for q by (simp add: calmer_same)
  moreover have "calmer ?c2 (?c2\<lparr>tc_interrupting := i\<rparr>)" for i by (simp add: calmer_same)
  ultimately have "calmer c (?c2\<lparr>tc_interrupting := i\<rparr>)" for i
    by (meson calm_marks(6) calmer_trans)
  with o show ?thesis by (simp add: releaseQueueTurn_def Let_def quiet_before [OF _ quiet_give_back])
qed

lemma quiet_refuse: "quiet c (refuse_start op ti m c)"
  by (simp add: quiet_def refuse_start_def quiet_retire [unfolded quiet_def])

lemma quiet_failed_settle: "quiet c (fst (failed_settle h op ti m c))"
proof -
  have "quiet c (andthen (andthen (refuse_start op ti m c) (settle_marks (pt_turnId (so_turn op)) OutcomeFailed))
    (\<lambda>c. fst (releaseQueueTurn h (pt_turnId (so_turn op)) c)))"
    by (intro quiet_andthen quiet_refuse quiet_settle_marks quiet_release)
  then show ?thesis by (simp add: quiet_def failed_settle_def Let_def case_prod_beta)
qed

section \<open>Steps that start a turn\<close>

lemma ok_started:
  "dispatch_ok S c \<Longrightarrow> map_get (tc_starts c) k = Some op \<Longrightarrow>
     start_key op = k \<and> gate_issued (tc_startRequests c) (so_request op)
     \<and> (gate_owns (tc_startRequests c) (so_request op) \<and> unsent_phase (so_phase op)
        \<longrightarrow> pt_turnId (so_turn op) \<in> tc_attempted c - S)"
  by (simp add: dispatch_ok_def)

lemma await_ok:
  assumes "dispatch_ok S c" and "gate_issued (tc_startRequests c) (so_request op)"
    and "unsent_phase (so_phase op) \<Longrightarrow> pt_turnId (so_turn op) \<in> tc_attempted c - S"
  shows "dispatch_ok S (await_start op c)"
  using assms unfolding dispatch_ok_def await_start_def by (auto simp: map_get_put)

text \<open>A frame leaves for a turn that was not sent: the one moment the sent set grows.\<close>

lemma crossing_sends:
  assumes ok: "dispatch_ok S c" and owns: "gate_owns (tc_startRequests c) (so_request op)"
    and fresh: "pt_turnId (so_turn op) \<in> tc_attempted c - S" and phase: "\<not> unsent_phase p"
    and out: "sent_turns out = [pt_turnId (so_turn op)]"
  shows "sends S (await_start (op\<lparr>so_phase := p\<rparr>) (c\<lparr>tc_preflight := None\<rparr>), out)"
proof -
  let ?i = "pt_turnId (so_turn op)" and ?g = "tc_startRequests c"
  let ?c = "await_start (op\<lparr>so_phase := p\<rparr>) (c\<lparr>tc_preflight := None\<rparr>)"
  have frame: "tc_startRequests ?c = ?g" "tc_attempted ?c = tc_attempted c" "tc_preflight ?c = None"
    "tc_starts ?c = map_put (start_key op) (op\<lparr>so_phase := p\<rparr>) (tc_starts c)"
    by (simp_all add: await_start_def start_key_def)
  have issued: "gate_issued ?g (so_request op)"
    using ok owns by (auto simp: dispatch_ok_def gate_ok_def gate_owns_def)
  have "start_key op' = k \<and> gate_issued ?g (so_request op')
      \<and> (gate_owns ?g (so_request op') \<and> unsent_phase (so_phase op')
         \<longrightarrow> pt_turnId (so_turn op') \<in> tc_attempted c - insert ?i S)"
    if "map_get (tc_starts ?c) k = Some op'" for k op'
  proof (cases "k = start_key op")
    case True
    with that phase issued show ?thesis by (auto simp: frame map_get_put start_key_def)
  next
    case False
    with that have "map_get (tc_starts c) k = Some op'" by (simp add: frame map_get_put)
    note old = ok_started [OF ok this]
    have "\<not> gate_owns ?g (so_request op')"
      using old owns False by (auto simp: gate_owns_def start_key_def)
    with old show ?thesis by blast
  qed
  with ok fresh have "dispatch_ok (insert ?i S) ?c"
    unfolding dispatch_ok_def frame by auto
  with fresh show ?thesis by (simp add: sends_def out)
qed

lemma claim_facts:
  assumes "dispatch_ok S c" and "pt_turnId t \<notin> tc_attempted c" and "claim_start h t c = (c1, op)"
  shows "dispatch_ok S c1" "gate_owns (tc_startRequests c1) (so_request op)"
    "gate_issued (tc_startRequests c1) (so_request op)"
    "so_turn op = t" "so_phase op = AtSeat" "pt_turnId t \<in> tc_attempted c1 - S"
proof -
  let ?g = "tc_startRequests c" and ?i = "pt_turnId t"
  have c1: "tc_startRequests c1 = fst (gate_begin ?g (the (hv_client h)) (hv_sessionId h))"
    "so_request op = snd (gate_begin ?g (the (hv_client h)) (hv_sessionId h))"
    "tc_attempted c1 = insert ?i (tc_attempted c)" "tc_preflight c1 = Some ?i"
    "tc_starts c1 = tc_starts c" "so_turn op = t" "so_phase op = AtSeat"
    using assms(3) by (auto simp: claim_start_def Let_def gate_begin_def)
  have S: "?i \<notin> S" using assms(1,2) by (auto simp: dispatch_ok_def)
  show "gate_owns (tc_startRequests c1) (so_request op)"
    "gate_issued (tc_startRequests c1) (so_request op)"
    by (simp_all add: c1 gate_simps)
  show "so_turn op = t" "so_phase op = AtSeat" "?i \<in> tc_attempted c1 - S"
    using S by (simp_all add: c1)
  have "start_key op' = k \<and> gate_issued (tc_startRequests c1) (so_request op')
      \<and> (gate_owns (tc_startRequests c1) (so_request op') \<and> unsent_phase (so_phase op')
         \<longrightarrow> pt_turnId (so_turn op') \<in> tc_attempted c1 - S)"
    if "map_get (tc_starts c1) k = Some op'" for k op'
  proof -
    have "map_get (tc_starts c) k = Some op'" using that by (simp add: c1)
    from ok_started [OF assms(1) this]
    have old: "start_key op' = k" "au_generation (so_request op') \<le> gate_generation ?g"
      by (simp_all add: gate_issued_def)
    have "au_generation (so_request op) = Suc (gate_generation ?g)" by (simp add: c1 gate_simps)
    with old(2) have "so_request op \<noteq> so_request op'" by auto
    with old show ?thesis by (auto simp: c1 gate_simps)
  qed
  moreover have "S \<subseteq> tc_attempted c1" "gate_ok (tc_startRequests c1)"
    "\<forall>t. tc_preflight c1 = Some t \<longrightarrow> t \<notin> S"
    using assms(1) S by (auto simp: dispatch_ok_def c1 gate_simps)
  ultimately show "dispatch_ok S c1" unfolding dispatch_ok_def by blast
qed

lemma shown_quiet [simp]:
  "sent_turns [DispatchState d l, show_request t] = []" "sent_turn (show_request t) = None"
  by (simp_all add: show_request_def)

lemma start_begin_sends:
  assumes "dispatch_ok S c"
  shows "sends S (fst (start_begin h i c))"
proof (cases "may_start h i c")
  case False
  with assms show ?thesis by (simp add: start_begin_def quiet_sends)
next
  case True
  then obtain t where t: "q_active (tc_queue c) = Some t" "pt_turnId t \<notin> tc_attempted c"
    by (auto simp: may_start_def active_id_def)
  obtain c1 op where claim: "claim_start h t c = (c1, op)" by force
  note f = claim_facts [OF assms t(2) claim]
  have "sends S (await_start (op\<lparr>so_phase := p\<rparr>) c1, out)" if "sent_turns out = []" for p out
    using await_ok [OF f(1), of "op\<lparr>so_phase := p\<rparr>"] f that by (simp add: sends_def)
  moreover from this [of _ AtSeat] have "sends S (await_start op c1, out)" if "sent_turns out = []" for out
    using f(5) that by (metis (full_types) startOp.surjective startOp.update_convs(3) startOp.select_convs(3))
  moreover have "sends S (c1, out)" if "sent_turns out = []" for out
    using f(1) that by (simp add: sends_def)
  moreover have "sends S (send_turn op c1)"
    unfolding send_turn_def using f by (intro crossing_sends) (simp_all add: unsent_phase_def)
  moreover from this have "sends S (andthen (c1, shown) (send_turn op))" if "sent_turns shown = []" for shown
    using that by (simp add: sends_def)
  ultimately show ?thesis
    using True t(1) claim by (simp add: start_begin_def Let_def)
qed

lemma start_turn_sends: "dispatch_ok S c \<Longrightarrow> sends S (start_turn h i c)"
proof (induction h i c arbitrary: S rule: start_turn.induct)
  case (1 h i c)
  obtain r o' where b: "start_begin h i c = (r, o')" by (rule prod.exhaust)
  have r: "sends S r" using start_begin_sends [OF 1(2), of h i] b by simp
  show ?case
  proof (cases o')
    case None
    with b r show ?thesis by (simp add: start_turn.simps [of h i c])
  next
    case (Some op)
    obtain r' next' where f: "failed_settle h op ''Native review rejected'' review_missing (fst r) = (r', next')"
      by (rule prod.exhaust)
    have q: "quiet (fst r) r'"
      using quiet_failed_settle [of "fst r" h op "''Native review rejected''" review_missing] f by simp
    have rr: "sends S (fst r', snd r @ snd r')"
      using r q by (auto simp: sends_def quiet_def intro: calmer_ok)
    show ?thesis
    proof (cases next')
      case None
      from sends_with_result [OF rr calm_finish] b Some f None show ?thesis
        by (simp add: start_turn.simps [of h i c] with_result_def)
    next
      case n: (Some n)
      have "sends (S \<union> set (sent_turns (snd r @ snd r'))) (start_turn h (pt_turnId n) (fst r'))"
        using rr by (intro 1(1) [OF b [symmetric] Some f [symmetric] n]) (simp add: sends_def)
      with rr have "sends S (andthen (fst r', snd r @ snd r') (start_turn h (pt_turnId n)))"
        by (auto simp: sends_def Un_assoc)
      from sends_with_result [OF this calm_finish] b Some f n show ?thesis
        by (simp add: start_turn.simps [of h i c] with_result_def andthen_def Let_def)
    qed
  qed
qed

lemma start_next_sends: "sends S (fst r) \<Longrightarrow> sends S (start_next h r)"
  by (auto simp: start_next_def intro: sends_andthen start_turn_sends split: option.split)

lemma start_active_sends: "dispatch_ok S c \<Longrightarrow> sends S (start_active h c)"
  by (auto simp: start_active_def sends_def start_turn_sends [unfolded sends_def] split: option.split)

lemma settleTurn_sends: "dispatch_ok S c \<Longrightarrow> sends S (settleTurn h t oc c)"
  unfolding settleTurn_def
  by (intro sends_andthen quiet_sends [OF _ quiet_settle_marks] start_next_sends
      quiet_sends [OF _ quiet_release])

lemma failed_settle_sends: "dispatch_ok S c \<Longrightarrow> sends S (start_next h (failed_settle h op ti m c))"
  by (rule start_next_sends, rule quiet_sends [OF _ quiet_failed_settle])

lemma start_failed_sends: "dispatch_ok S c \<Longrightarrow> sends S (start_failed h op m c)"
  by (simp add: start_failed_def failed_settle_sends)

section \<open>Answers\<close>

lemma sends_same: "dispatch_ok S c \<Longrightarrow> calmer c c' \<Longrightarrow> sent_turns out = [] \<Longrightarrow> sends S (c', out)"
  by (simp add: sends_def calmer_ok)

lemma seat_answer_sends:
  assumes "dispatch_ok S c"
  shows "sends S (seat_answer h k a c)"
proof (cases "map_get (tc_starts c) k")
  case None
  with assms show ?thesis by (simp add: seat_answer_def sends_same)
next
  case (Some op)
  let ?i = "pt_turnId (so_turn op)" and ?c = "take_start k c"
  have ok: "dispatch_ok S ?c" by (rule calmer_ok [OF assms calm_take])
  show ?thesis
  proof (cases "so_phase op = AtSeat \<and> start_current h op c")
    case False
    with Some ok assms show ?thesis by (simp add: seat_answer_def sends_same)
  next
    case True
    then have owns: "gate_owns (tc_startRequests c) (so_request op)"
      by (simp add: start_current_def gate_isCurrent_def)
    have fresh: "?i \<in> tc_attempted c - S"
      using ok_started [OF assms Some] owns True by (simp add: unsent_phase_def)
    have take: "tc_startRequests ?c = tc_startRequests c" "tc_attempted ?c = tc_attempted c"
      "tc_starts ?c = map_del k (tc_starts c)"
      by (simp_all add: take_start_def)
    have sent: "sends S (send_turn op ?c)"
      unfolding send_turn_def
      using ok owns fresh by (intro crossing_sends) (simp_all add: take unsent_phase_def)
    have cancelled: "sends S (with_result (finish_start op) (retireLocalDispatch ?i CancelledDispatch
        (?c\<lparr>tc_attempted := tc_attempted ?c - {?i}, tc_preflight := None\<rparr>)))"
    proof -
      let ?d = "?c\<lparr>tc_attempted := tc_attempted ?c - {?i}, tc_preflight := None\<rparr>"
      have "start_key op' = k' \<and> gate_issued (tc_startRequests c) (so_request op')
          \<and> (gate_owns (tc_startRequests c) (so_request op') \<and> unsent_phase (so_phase op')
             \<longrightarrow> pt_turnId (so_turn op') \<in> tc_attempted c - {?i} - S)"
        if "map_get (tc_starts ?d) k' = Some op'" for k' op'
      proof -
        have o': "map_get (tc_starts c) k' = Some op'" "k' \<noteq> k"
          using that by (auto simp: take map_get_del split: if_splits)
        have "\<not> gate_owns (tc_startRequests c) (so_request op')"
          using ok_started [OF assms o'(1)] ok_started [OF assms Some] owns o'(2)
          by (auto simp: gate_owns_def start_key_def)
        with ok_started [OF assms o'(1)] show ?thesis by blast
      qed
      with assms fresh have "dispatch_ok S ?d"
        unfolding dispatch_ok_def by (auto simp: take)
      then show ?thesis
        by (intro sends_with_result calm_finish quiet_sends [OF _ quiet_retire])
    qed
    have refused: "sends S (with_result (finish_start op) (start_next h (failed_settle h op ti m ?c)))" for ti m
      using ok by (intro sends_with_result calm_finish failed_settle_sends)
    from True Some sent cancelled refused show ?thesis
      by (simp add: seat_answer_def Let_def split: option.split)
  qed
qed

lemma review_mark_sends:
  assumes "dispatch_ok S c"
  shows "sends S (review_mark h k c)"
proof (cases "map_get (tc_starts c) k")
  case None
  with assms show ?thesis by (simp add: review_mark_def sends_same)
next
  case (Some op)
  show ?thesis
  proof (cases "so_phase op = AtReview False \<and> start_current h op c \<and> hv_canStart h")
    case False
    with Some assms show ?thesis by (auto simp: review_mark_def intro: sends_same)
  next
    case True
    then have "gate_owns (tc_startRequests c) (so_request op)"
      by (simp add: start_current_def gate_isCurrent_def)
    with ok_started [OF assms Some] True assms
    have "sends S (await_start (op\<lparr>so_phase := AtReview True\<rparr>) (c\<lparr>tc_preflight := None\<rparr>),
        [TurnSent (pt_turnId (so_turn op)), SendReview (lease_of op) (so_turn op)])"
      by (intro crossing_sends) (simp_all add: unsent_phase_def)
    with True Some show ?thesis by (simp add: review_mark_def)
  qed
qed

lemma sends_stop: "dispatch_ok S c \<Longrightarrow> sent_turns out = [] \<Longrightarrow> sends S (c, out)"
  by (simp add: sends_def)

lemma start_accepted_quiet: "quiet c (start_accepted h op c)"
  by (auto simp: start_accepted_def quiet_accept)

lemma calm_retire: "calmer c (fst (retireLocalDispatch t ds c))"
  using quiet_retire by (simp add: quiet_def)

lemma start_collided_sends:
  assumes "dispatch_ok S c"
  shows "sends S (start_collided h op occupier c)"
proof -
  let ?r = "retireLocalDispatch (pt_turnId (so_turn op)) RejectedDispatch c"
  let ?c1 = "(fst ?r)\<lparr>tc_startRequests := gate_invalidate (tc_startRequests (fst ?r))\<rparr>"
  have "calmer (fst ?r) ?c1" by (rule calmer_starts) auto
  with calm_retire have c1: "calmer c ?c1" by (rule calmer_trans)
  have "calmer ?c1 (?c1\<lparr>tc_queue := q\<rparr>)" for q by (simp add: calmer_same)
  with c1 have c2: "calmer c (?c1\<lparr>tc_queue := q\<rparr>)" for q using calmer_trans by blast
  then have c3: "calmer c (adopt_active h i (?c1\<lparr>tc_queue := q\<rparr>))" for q i
    using calmer_trans calm_marks(6) by blast
  have out: "sent_turns (snd ?r @ [NotSentRestore t s, ShowSystem a b d e]) = []" for t s a b d e
    using quiet_retire by (simp add: quiet_def)
  show ?thesis
    unfolding start_collided_def Let_def
    using assms c2 c3 out by (intro start_next_sends) (simp add: sends_def calmer_ok)
qed

lemma start_answer_sends:
  assumes "dispatch_ok S c"
  shows "sends S (start_answer h k failure c)"
proof (cases "map_get (tc_starts c) k")
  case None
  with assms show ?thesis by (simp add: start_answer_def sends_same)
next
  case (Some op)
  let ?c = "take_start k c"
  have ok: "dispatch_ok S ?c" by (rule calmer_ok [OF assms calm_take])
  have timed: "dispatch_ok S (?c\<lparr>tc_timedOutStart := x\<rparr>)" for x
    by (rule calmer_ok [OF ok]) (simp add: calmer_same)
  have "sends S (with_result (finish_start op) r)" if "sends S r" for r
    using that by (rule sends_with_result) (rule calm_finish)
  moreover have "sends S (start_accepted h op ?c)" using ok by (rule quiet_sends) (rule start_accepted_quiet)
  moreover have "sends S (?c, [])" using ok by (rule sends_same) simp_all
  moreover have "sends S (?c\<lparr>tc_timedOutStart := x\<rparr>, [ShowSystem a b d e])" for x a b d e
    using timed by (rule sends_stop) simp
  moreover have "sends S (start_collided h op occupier ?c)" for occupier
    using ok by (rule start_collided_sends)
  moreover have "sends S (start_failed h op m ?c)" for m using ok by (rule start_failed_sends)
  ultimately show ?thesis
    using Some assms by (auto simp: start_answer_def Let_def intro: sends_same split: option.split)
qed

lemma review_answer_sends:
  assumes "dispatch_ok S c"
  shows "sends S (review_answer h k answer c)"
proof (cases "map_get (tc_starts c) k")
  case None
  with assms show ?thesis by (simp add: review_answer_def sends_same)
next
  case (Some op)
  let ?c = "take_start k c"
  have ok: "dispatch_ok S ?c" by (rule calmer_ok [OF assms calm_take])
  have "sends S (with_result (finish_start op) r)" if "sends S r" for r
    using that by (rule sends_with_result) (rule calm_finish)
  moreover have "sends S (start_accepted h op ?c)" using ok by (rule quiet_sends) (rule start_accepted_quiet)
  moreover have "sends S (?c, [])" using ok by (rule sends_same) simp_all
  moreover have "sends S (?c, [ShowSystem a b d e])" for a b d e using ok by (rule sends_same) simp_all
  moreover have "sends S (start_failed h op m ?c)" for m using ok by (rule start_failed_sends)
  ultimately show ?thesis
    using Some assms
    by (auto simp: review_answer_def Let_def intro: sends_same split: startPhase.split sum.split)
qed

section \<open>Admission, steering and interrupts\<close>

lemma enqueueTurn_sends:
  assumes "dispatch_ok S c"
  shows "sends S (enqueueTurn h t c)"
proof -
  have "dispatch_ok S (c\<lparr>tc_queue := q\<rparr>)" for q
    by (rule calmer_ok [OF assms]) (simp add: calmer_same)
  then show ?thesis
    using assms by (auto simp: enqueueTurn_def Let_def case_prod_beta intro: start_turn_sends sends_stop)
qed

lemma enqueuePrompt_sends: "dispatch_ok S c \<Longrightarrow> sends S (enqueuePrompt h s c)"
  by (auto simp: enqueuePrompt_def enqueueTurn_sends intro: sends_same)

lemma submitTurn_sends: "dispatch_ok S c \<Longrightarrow> sends S (submitTurn h t c)"
  by (auto simp: submitTurn_def Let_def intro!: enqueueTurn_sends sends_same calmer_same)

lemma steer_mark_quiet: "quiet c (steer_mark h n c)"
  by (auto simp: quiet_def steer_mark_def calm_marks split: option.split)

lemma report_not_sent [simp]: "sent_turn (reportSteer t a b) = None"
  by (simp add: reportSteer_def)

lemma steer_rejected_quiet: "quiet c (steer_rejected p b c)"
proof -
  have "calmer c (restage ts (drop_entry n c))" for ts n
    by (rule calmer_trans [OF calm_marks(8) calm_marks(7)])
  then show ?thesis
    by (simp add: quiet_def steer_rejected_def steer_unknown_def Let_def calmer_same)
qed

lemma steer_started_quiet: "quiet c (steer_started p i c)"
proof -
  let ?c = "(drop_entry (se_id (sp_entry p)) c)\<lparr>tc_attempted := insert i (tc_attempted c)\<rparr>"
  have "calmer c ?c" by (rule calmer_starts) (auto simp: drop_entry_def)
  moreover have "calmer ?c (?c\<lparr>tc_queue := q, tc_acceptedOwner := l\<rparr>)" for q l by (simp add: calmer_same)
  ultimately show ?thesis
    unfolding steer_started_def Let_def
    by (auto simp: quiet_def quiet_before [OF _ steer_rejected_quiet, unfolded quiet_def] intro: calmer_trans)
qed

lemma steer_answer_sends:
  assumes "dispatch_ok S c"
  shows "sends S (steer_answer h n answer c)"
proof (cases "map_get (tc_steers c) n")
  case None
  with assms show ?thesis by (simp add: steer_answer_def sends_same)
next
  case (Some p)
  let ?c = "c\<lparr>tc_steers := map_del n (tc_steers c)\<rparr>"
  have ok: "dispatch_ok S ?c" by (rule calmer_ok [OF assms]) (simp add: calmer_same)
  have "dispatch_ok S' (c'\<lparr>tc_steerInFlight := False\<rparr>)"
    "dispatch_ok S' (c'\<lparr>tc_steerInFlight := False, tc_retained := es\<rparr>)" if "dispatch_ok S' c'" for S' c' es
    using calmer_ok [OF that] by (simp_all add: calmer_same)
  then have fin: "sends S' (steer_finally h p c')" if "dispatch_ok S' c'" for S' c'
    using that by (simp add: steer_finally_def Let_def start_active_sends)
  have q: "sends S r" if "quiet ?c r" for r using ok that by (rule quiet_sends)
  have "quiet ?c (change_entry n f ?c, [reportSteer t a b])" for f t a b
    by (simp add: quiet_def calm_marks)
  with q have "sends S (change_entry n f ?c, [reportSteer t a b])" for f t a b by blast
  moreover have "sends S (?c, [])" using ok by (rule sends_same) simp_all
  moreover have "sends S (steer_rejected p b ?c)" "sends S (steer_started p i ?c)" for b i
    using q steer_rejected_quiet steer_started_quiet by blast+
  ultimately have "sends S (case answer of
      Inl reason \<Rightarrow> steer_rejected p (protocol_failure reason) ?c
    | Inr (i, steered) \<Rightarrow>
        if \<not> se_sent (sp_entry p) \<or> \<not> uuid i \<or> (steered \<and> i \<noteq> steer_owner p)
        then steer_rejected p False ?c
        else if se_returned (sp_entry p) then (?c, [])
        else if \<not> steered then steer_started p i ?c
        else (change_entry n (\<lambda>e. e\<lparr>se_accepted := True\<rparr>) ?c,
              [reportSteer (se_turn (sp_entry p)) steering_accepted (pt_text (se_turn (sp_entry p)))]))"
    by (auto split: sum.split)
  from sends_andthen [OF this fin] Some \<open>sends S (?c, [])\<close> show ?thesis
    by (simp add: steer_answer_def Let_def)
qed

section \<open>Notifications, recovery and reconciliation\<close>

lemma quiet_confirm: "quiet c (confirmTurnAccepted h t c)"
proof -
  have "quiet c' (c', if b then [ShowSystem i ti m st] else [])" for c' b i ti m st
    by (simp add: quiet_def)
  then show ?thesis unfolding confirmTurnAccepted_def by (intro quiet_andthen quiet_accept)
qed

lemma calm_return_inputs: "calmer c (fst (return_inputs t inputs c))"
proof (induction t inputs c rule: return_inputs.induct)
  case (2 t input inputs c)
  show ?case
  proof (cases "find (returns_entry t input) (tc_retained c)")
    case None
    with 2 show ?thesis by simp
  next
    case (Some e)
    let ?c = "drop_entry (se_id e) (change_entry (se_id e) (\<lambda>e. e\<lparr>se_returned := True\<rparr>) c)"
    have "calmer c ?c" by (rule calmer_trans [OF calm_marks(9) calm_marks(8)])
    with 2(2) [OF Some] have "calmer c (fst (return_inputs t inputs ?c))" by (blast intro: calmer_trans)
    with Some show ?thesis by (simp add: case_prod_beta)
  qed
qed simp

lemma quiet_return_steers: "quiet c (return_steers n c)"
proof (cases "dropped_inputs n")
  case None
  then show ?thesis by (simp add: return_steers_def)
next
  case (Some ti)
  obtain t inputs where ti: "ti = (t, inputs)" by (rule prod.exhaust)
  obtain c1 ts where r: "return_inputs t inputs c = (c1, ts)" by (rule prod.exhaust)
  have "calmer c c1" using calm_return_inputs [of c t inputs] r by simp
  moreover have "calmer c1 (c1\<lparr>tc_steerUnknown := False\<rparr>)" by (simp add: calmer_same)
  ultimately have "calmer c (if ts = [] then c1 else c1\<lparr>tc_steerUnknown := False\<rparr>)"
    using calmer_trans by auto
  then have "calmer c (restage ts (if ts = [] then c1 else c1\<lparr>tc_steerUnknown := False\<rparr>))"
    using calm_marks(7) by (rule calmer_trans)
  moreover have "sent_turns (map (\<lambda>t. reportSteer t a (pt_text t)) ts) = []" for a
    by (rule sent_turns_none) (simp add: list_all_iff)
  moreover have "return_steers n c = (restage ts (if ts = [] then c1 else c1\<lparr>tc_steerUnknown := False\<rparr>),
      map (\<lambda>t. reportSteer t ''Steering returned to queue'' (pt_text t)) ts)"
    by (simp only: return_steers_def Some ti r Let_def option.case prod.case)
  ultimately show ?thesis by (simp only: quiet_def fst_conv snd_conv)
qed

lemma quiet_observe: "quiet c (observeSteerDropped h n c)"
proof -
  have "quiet c' (if b then adoptObservedTurn h t c' else c', [])" for c' b t
    by (simp add: quiet_def calm_marks)
  then have "quiet c (andthen (confirmTurnAccepted h t c)
      (\<lambda>c. (if nt_method n = M_TURN_STARTED then adoptObservedTurn h t c else c, [])))" for t
    by (intro quiet_andthen quiet_confirm)
  then have "quiet c (case notificationTurnId n of None \<Rightarrow> (c, [])
     | Some t \<Rightarrow> if t = [] then (c, []) else andthen (confirmTurnAccepted h t c)
         (\<lambda>c. (if nt_method n = M_TURN_STARTED then adoptObservedTurn h t c else c, [])))"
    by (auto split: option.split)
  moreover have "quiet c' ((if nt_method n = M_TURN_STEER_DROPPED then return_steers n else (\<lambda>c. (c, []))) c')" for c'
    by (simp add: quiet_return_steers)
  ultimately have both: "quiet c (andthen
      (case notificationTurnId n of None \<Rightarrow> (c, [])
       | Some t \<Rightarrow> if t = [] then (c, []) else andthen (confirmTurnAccepted h t c)
           (\<lambda>c. (if nt_method n = M_TURN_STARTED then adoptObservedTurn h t c else c, [])))
      (if nt_method n = M_TURN_STEER_DROPPED then return_steers n else (\<lambda>c. (c, []))))"
    by (rule quiet_andthen)
  show ?thesis
  proof (cases "notificationMatchesSessionScope n (hv_sessionId h)")
    case True
    from both show ?thesis unfolding observeSteerDropped_def by (simp only: True not_True_eq_False if_False)
  next
    case False
    show ?thesis unfolding observeSteerDropped_def if_P [OF False] by (rule quiet_refl)
  qed
qed

lemma quiet_interrupt: "quiet c (interrupt h b c)"
proof -
  have "calmer (arm_restore h t b c) ((arm_restore h t b c)\<lparr>tc_interrupting := i, tc_interruptRequests := g,
      tc_interrupts := m\<rparr>)" for t i g m
    by (simp add: calmer_same)
  then have "calmer c ((arm_restore h t b c)\<lparr>tc_interrupting := i, tc_interruptRequests := g,
      tc_interrupts := m\<rparr>)" for t i g m
    using calm_marks(15) calmer_trans by blast
  then show ?thesis
    by (auto simp: quiet_def interrupt_def Let_def case_prod_beta split: option.split)
qed

lemma quiet_interrupt_answer: "quiet c (interrupt_answer h k f c)"
  by (auto simp: quiet_def interrupt_answer_def Let_def intro!: calmer_same split: option.split)

lemma quiet_recovery: "quiet c (retryTurnRecovery h c)"
  by (auto simp: quiet_def retryTurnRecovery_def Let_def case_prod_beta intro!: calmer_same split: option.split)

lemma applyRecoveredState_sends:
  assumes "dispatch_ok S c"
  shows "sends S (applyRecoveredState h i s c)"
proof -
  let ?c1 = "clearRecovery c"
  let ?c2 = "?c1\<lparr>tc_startRequests := gate_invalidate (tc_startRequests ?c1)\<rparr>"
  have "calmer ?c1 ?c2" by (rule calmer_starts) auto
  with calm_marks(1) have "calmer c ?c2" by (rule calmer_trans)
  with assms have "dispatch_ok S ?c2" by (rule calmer_ok)
  then have accepted: "sends S (acceptLocalDispatch h i (lifecycle_owner s) ?c2)"
    using quiet_accept by (rule quiet_sends)
  have "sends S' (let c4 = c3\<lparr>tc_interruptRequests := gate_invalidate (tc_interruptRequests c3),
                     tc_interrupting := if s = ''interrupting'' then Some i else None\<rparr>
         in if live_state s then (c4, [])
            else andthen (set_owner_state i (owner_outcome (lifecycle_outcome s)) c4,
                          [SettleRows i s, RecoveredTerminal i])
                   (settleTurn h i (lifecycle_outcome s)))" if "dispatch_ok S' c3" for S' c3
  proof -
    let ?c4 = "c3\<lparr>tc_interruptRequests := gate_invalidate (tc_interruptRequests c3),
                  tc_interrupting := if s = ''interrupting'' then Some i else None\<rparr>"
    have c4: "dispatch_ok S' ?c4" by (rule calmer_ok [OF that]) (simp add: calmer_same)
    then have "sends S' (set_owner_state i (owner_outcome (lifecycle_outcome s)) ?c4,
        [SettleRows i s, RecoveredTerminal i])"
      by (intro sends_stop calmer_ok [OF c4 calm_marks(4)]) simp
    then have "sends S' (andthen (set_owner_state i (owner_outcome (lifecycle_outcome s)) ?c4,
        [SettleRows i s, RecoveredTerminal i]) (settleTurn h i (lifecycle_outcome s)))"
      using settleTurn_sends by (rule sends_andthen)
    with c4 show ?thesis by (simp add: Let_def sends_stop)
  qed
  then show ?thesis
    unfolding applyRecoveredState_def Let_def by (intro sends_andthen [OF accepted]) (simp add: Let_def)
qed

lemma recovery_answer_sends:
  assumes "dispatch_ok S c"
  shows "sends S (recovery_answer h k answer c)"
proof (cases "map_get (tc_lookups c) k")
  case None
  with assms show ?thesis by (simp add: recovery_answer_def sends_stop)
next
  case (Some op)
  let ?c = "c\<lparr>tc_lookups := map_del k (tc_lookups c)\<rparr>"
  have ok: "dispatch_ok S ?c" by (rule calmer_ok [OF assms]) (simp add: calmer_same)
  have "dispatch_ok S (?c\<lparr>tc_recovery := x\<rparr>)" for x by (rule calmer_ok [OF ok]) (simp add: calmer_same)
  then have publish: "sends S (?c\<lparr>tc_recovery := x\<rparr>, [])" for x by (intro sends_stop) simp_all
  have "calmer c' (c'\<lparr>tc_recoveryRequests := g\<rparr>)" for c' g by (simp add: calmer_same)
  then have "sends S (with_result (\<lambda>c. c\<lparr>tc_recoveryRequests := fst (gate_finish (tc_recoveryRequests c) a)\<rparr>) r)"
    if "sends S r" for r a
    using that by (intro sends_with_result) simp_all
  moreover have "sends S (?c, [])" using ok by (rule sends_stop) simp
  moreover have "sends S (applyRecoveredState h i s ?c)" for i s using ok by (rule applyRecoveredState_sends)
  ultimately show ?thesis
    using Some publish by (auto simp: recovery_answer_def Let_def split: sum.split)
qed

lemma continue_sends:
  assumes "dispatch_ok S c"
  shows "sends S (continueWithoutTurn h c)"
proof -
  have "calmer (clearRecovery c) ((clearRecovery c)\<lparr>tc_timedOutStart := None\<rparr>)" by (simp add: calmer_same)
  with calm_marks(1) have "calmer c ((clearRecovery c)\<lparr>tc_timedOutStart := None\<rparr>)" by (rule calmer_trans)
  with assms have c1: "dispatch_ok S ((clearRecovery c)\<lparr>tc_timedOutStart := None\<rparr>)" by (rule calmer_ok)
  have "dispatch_ok S' (c3\<lparr>tc_queue := q\<rparr>)" "dispatch_ok S' (c3\<lparr>tc_acceptedOwner := None, tc_queue := q\<rparr>)"
    if "dispatch_ok S' c3" for S' c3 q
    using calmer_ok [OF that] by (simp_all add: calmer_same)
  then have "sends S' (andthen ((if b then c3\<lparr>tc_acceptedOwner := None\<rparr> else c3)\<lparr>tc_queue := q\<rparr>,
      [MarkUnconfirmed i, ShowSystem x t m st]) (\<lambda>c5. start_next h (releaseQueueTurn h i c5)))"
    if "dispatch_ok S' c3" for S' c3 b q i x t m st
    using that
    by (intro sends_andthen start_next_sends quiet_sends [OF _ quiet_release] sends_stop) simp_all
  then have "sends S (andthen (retireLocalDispatch i CancelledDispatch ((clearRecovery c)\<lparr>tc_timedOutStart := None\<rparr>))
    (\<lambda>c2. let c3 = (if owner_of_turn c2 i then c2\<lparr>tc_acceptedOwner := None\<rparr> else c2);
              c4 = c3\<lparr>tc_queue := fst (takeInterruptPrompt (tc_queue c3) i)\<rparr>
          in andthen (c4, [MarkUnconfirmed i, ShowSystem x t m st])
               (\<lambda>c5. start_next h (releaseQueueTurn h i c5))))" for i x t m st
    unfolding Let_def by (intro sends_andthen [OF quiet_sends [OF c1 quiet_retire]]) simp
  with assms show ?thesis
    by (auto simp: continueWithoutTurn_def Let_def intro: sends_stop split: option.split)
qed

lemma quiet_drop_lease: "quiet c (drop_lease c)"
  by (simp add: drop_lease_def quiet_retire split: option.split)

lemma quiet_reconcile_ownership: "quiet c (reconcile_ownership h b c)"
proof -
  have kept: "calmer c' (case tc_acceptedOwner c' of None \<Rightarrow> c'
      | Some (l, _) \<Rightarrow> if lease_current h l then c' else c'\<lparr>tc_acceptedOwner := None\<rparr>)" for c'
    by (simp add: calmer_same split: option.split prod.split)
  have cleared: "calmer c' (c'\<lparr>tc_acceptedOwner := None\<rparr>)" for c' by (simp add: calmer_same)
  have "quiet c (if b' then (c, []) else drop_lease c)" for b' by (simp add: quiet_drop_lease)
  then show ?thesis
    unfolding reconcile_ownership_def Let_def
    using quiet_with_result [OF _ kept] quiet_with_result [OF quiet_drop_lease cleared] by simp
qed

lemma quiet_reconcile_marks: "quiet c (reconcile_marks h r b c)"
proof -
  let ?c = "clearRecovery (c\<lparr>tc_steerUnknown := False\<rparr>)"
  have "calmer c (c\<lparr>tc_steerUnknown := False\<rparr>)" by (simp add: calmer_same)
  then have "calmer c ?c" using calm_marks(1) by (rule calmer_trans)
  then have "quiet c (reconcile_ownership h b ?c)" using quiet_reconcile_ownership by (rule quiet_before)
  then show ?thesis
    unfolding reconcile_marks_def by (rule quiet_with_result) (simp add: calmer_same)
qed

lemma quiet_reconcile_attempted: "quiet c (fst (reconcile_attempted h r i c))"
proof -
  let ?c1 = "c\<lparr>tc_attempted := insert i (tc_attempted c),
    tc_startRequests := gate_invalidate (tc_startRequests c)\<rparr>"
  have "calmer c ?c1" by (rule calmer_starts) auto
  then have acc: "quiet c (acceptLocalDispatch h i st ?c1)" for st using quiet_accept by (rule quiet_before)
  have settled: "calmer c' ((set_owner_state i st c')\<lparr>tc_queue := q\<rparr>)" for c' st q
    using calm_marks(4) [where t = i and st = st] by (rule calmer_trans) (simp add: calmer_same)
  then have "calmer c' (adopt_active h j ((set_owner_state i st c')\<lparr>tc_queue := q\<rparr>))" for c' st q j
    using calm_marks(6) by (rule calmer_trans)
  with acc settled have
    "quiet c ((set_owner_state i st (fst (acceptLocalDispatch h i st' ?c1)))\<lparr>tc_queue := q\<rparr>,
       snd (acceptLocalDispatch h i st' ?c1))"
    "quiet c (adopt_active h j ((set_owner_state i st (fst (acceptLocalDispatch h i st' ?c1)))\<lparr>tc_queue := q\<rparr>),
       snd (acceptLocalDispatch h i st' ?c1))" for st st' q j
    unfolding quiet_def fst_conv snd_conv using calmer_trans by blast+
  then show ?thesis
    using acc by (auto simp: reconcile_attempted_def Let_def quiet_recovery split: option.split)
qed

lemma quiet_reconcile: "quiet c (fst (reconcileFromHydrate h r b c))"
proof -
  let ?m = "reconcile_marks h r b c"
  have m: "calmer c (fst ?m)" "sent_turns (snd ?m) = []" using quiet_reconcile_marks by (simp_all add: quiet_def)
  have "calmer (fst ?m) ((fst ?m)\<lparr>tc_startRequests := gate_invalidate (tc_startRequests (fst ?m))\<rparr>)"
    by (rule calmer_starts) auto
  with m(1) have "calmer c (adopt_active h t
      ((fst ?m)\<lparr>tc_startRequests := gate_invalidate (tc_startRequests (fst ?m))\<rparr>))" for t
    using calm_marks(6) calmer_trans by blast
  then have "quiet c (adopt_active h t
      ((fst ?m)\<lparr>tc_startRequests := gate_invalidate (tc_startRequests (fst ?m))\<rparr>), snd ?m)" for t
    using m(2) by (simp add: quiet_def)
  moreover have "quiet c ?m" by (rule quiet_reconcile_marks)
  moreover have "quiet c (fst (fst (reconcile_attempted h r i (fst ?m))),
      snd ?m @ snd (fst (reconcile_attempted h r i (fst ?m))))" for i
    using m quiet_reconcile_attempted [of "fst ?m" h r i] by (auto simp: quiet_def intro: calmer_trans)
  ultimately show ?thesis
    by (auto simp: reconcileFromHydrate_def Let_def case_prod_beta split: option.split)
qed

lemma suspend_sends:
  assumes "dispatch_ok S c"
  shows "sends S (suspendTransport c)"
proof -
  let ?c = "fst (suspendTransport c)"
  have f: "tc_starts ?c = tc_starts c" "tc_startRequests ?c = gate_invalidate (tc_startRequests c)"
    "tc_preflight ?c = None"
    "tc_attempted ?c = tc_attempted c - (case tc_preflight c of None \<Rightarrow> {} | Some i \<Rightarrow> if i = [] then {} else {i})"
    by (simp_all add: suspendTransport_def Let_def restage_def invalidate_requests_def split: option.split)
  have "S \<subseteq> tc_attempted ?c"
    using assms by (auto simp: dispatch_ok_def f split: option.splits if_splits)
  moreover have "start_key op = k \<and> gate_issued (tc_startRequests ?c) (so_request op)
      \<and> \<not> gate_owns (tc_startRequests ?c) (so_request op)"
    if "map_get (tc_starts ?c) k = Some op" for k op
    using ok_started [OF assms that [unfolded f]] by (auto simp: f gate_simps)
  ultimately have "dispatch_ok S ?c"
    unfolding dispatch_ok_def by (auto simp: f gate_ok_def gate_invalidate_def)
  moreover have "sent_turns (snd (suspendTransport c)) = []"
    by (rule sent_turns_none) (simp add: suspendTransport_def Let_def list_all_iff)
  ultimately show ?thesis by (simp add: sends_def)
qed

lemma retrySteer_sends:
  assumes "dispatch_ok S c"
  shows "sends S (retrySteerDelivery h c)"
proof -
  have "dispatch_ok S (c\<lparr>tc_steerEpoch := n, tc_steerUnknown := False, tc_steerInFlight := False\<rparr>)" for n
    by (rule calmer_ok [OF assms]) (simp add: calmer_same)
  with assms show ?thesis by (simp add: retrySteerDelivery_def start_active_sends sends_stop)
qed

section \<open>Every event\<close>

lemma turn_step_sends:
  assumes "dispatch_ok S c" and "e \<noteq> Reset"
  shows "sends S (turn_step c (h, e))"
proof -
  have calm: "sends S (c', [])" if "calmer c c'" for c'
    using calmer_ok [OF assms(1) that] by (rule sends_stop) simp
  have quiet: "sends S r" if "quiet c r" for r using assms(1) that by (rule quiet_sends)
  show ?thesis
  proof (cases e)
    case SendNow
    with assms(1) quiet quiet_interrupt show ?thesis
      by (auto simp: turn_step_def sendPendingNow_def intro: sends_stop)
  qed (use assms calm quiet in \<open>simp_all add: turn_step_def enqueueTurn_sends enqueuePrompt_sends
    submitTurn_sends calm_marks seat_answer_sends review_mark_sends review_answer_sends
    start_answer_sends steer_mark_quiet steer_answer_sends quiet_observe settleTurn_sends quiet_interrupt
    quiet_interrupt_answer quiet_recovery recovery_answer_sends continue_sends quiet_reconcile
    start_active_sends retrySteer_sends suspend_sends\<close>)
qed

lemma turn_run_sends:
  "dispatch_ok S c \<Longrightarrow> list_all (\<lambda>e. snd e \<noteq> Reset) es \<Longrightarrow> sends S (turn_run c es)"
proof (induction es arbitrary: S c)
  case (Cons e es)
  then have e: "snd e \<noteq> Reset" "list_all (\<lambda>e. snd e \<noteq> Reset) es" by simp_all
  have "sends S (turn_step c e)" using turn_step_sends [OF Cons.prems(1) e(1), of "fst e"] by simp
  then have "sends S (andthen (turn_step c e) (\<lambda>c. turn_run c es))"
    by (rule sends_andthen) (use Cons.IH e(2) in blast)
  then show ?case by (simp add: andthen_def Let_def)
qed (simp add: sends_stop)

lemma new_controller_dispatch_ok: "dispatch_ok {} new_controller"
  by (simp add: dispatch_ok_def new_controller_def gate_ok_initial map_get_def)

section \<open>Properties\<close>

text \<open>
  C20: A turn is sent at most once. Whatever the user submits, stops and continues, whatever Core
  answers, reports late or never, whatever hydrates and suspensions of the transport come between,
  no turn id crosses the wire twice, as \<open>turn/start\<close> or as \<open>review/start\<close>, until the controller is
  reset with its record.
\<close>
theorem turn_sent_at_most_once:
  assumes "list_all (\<lambda>e. snd e \<noteq> Reset) es"
  shows "distinct (sent_turns (snd (turn_run new_controller es)))"
  using turn_run_sends [OF new_controller_dispatch_ok assms] by (simp add: sends_def)

definition ready_host :: host_view where
  "ready_host = \<lparr>hv_client = Some 0, hv_sessionId = ''s'', hv_canEnqueue = True, hv_canStart = True,
     hv_canInterrupt = True, hv_canGetTurnState = True, hv_seatGate = False, hv_startReview = True,
     hv_steer = False, hv_canSteer = True, hv_sentHere = {}, hv_reasoningEffort = None, hv_uuid = ''u''\<rparr>"

definition sample_turn :: "string \<Rightarrow> promptTurn" where
  "sample_turn i = \<lparr>pt_turnId = i, pt_text = ''fix it'', pt_review = False, pt_origin = None,
     pt_reasoningEffort = None, pt_media = None\<rparr>"

text \<open>A start whose answer is lost, a suspension, a resumption, and the turn's terminal.\<close>

definition lost_answer :: "(host_view \<times> turnEvent) list" where
  "lost_answer = map (Pair ready_host)
     [Enqueue (sample_turn ''a''), Enqueue (sample_turn ''b''), StartAnswered 1 (Some (TimedOut ''turn/start'')),
      Suspend, Resume, Terminal ''a'' OutcomeCompleted]"

lemma turn_sent_at_most_once_witness:
  "sent_turns (snd (turn_run new_controller lost_answer)) = [''a'', ''b'']
   \<and> distinct (sent_turns (snd (turn_run new_controller lost_answer)))"
proof -
  have "list_all (\<lambda>e. snd e \<noteq> Reset) lost_answer" by (simp add: lost_answer_def)
  moreover have "sent_turns (snd (turn_run new_controller lost_answer)) = [''a'', ''b'']" by code_simp
  ultimately show ?thesis using turn_sent_at_most_once by blast
qed

end
