(* ===== verification/TurnLaws.thy ===== *)
theory TurnLaws
  imports TurnDispatch
begin

text \<open>
  Further laws of the turn controller: for which turn a frame leaves, that an unresolved turn holds
  the queue, that a terminal starts the next prompt, and what a collision with another client does.
\<close>

section \<open>For which turn a frame leaves\<close>

definition fair :: "host_view \<Rightarrow> outcome_result \<Rightarrow> bool" where
  "fair h r = (\<forall>l t. SendTurn l t \<in> set (snd r) \<longrightarrow>
     lease_current h l \<and> le_turnId l = pt_turnId t \<and> hv_canStart h \<and> active_id (fst r) = Some (pt_turnId t))"

lemma sent_member: "SendTurn l t \<in> set out \<Longrightarrow> sent_turns out \<noteq> []"
  by (induction out) (auto split: option.split)

lemma fair_silent: "sent_turns (snd r) = [] \<Longrightarrow> fair h r"
  using sent_member by (force simp: fair_def)

lemma fair_quiet: "quiet c r \<Longrightarrow> fair h r"
  by (simp add: quiet_def fair_silent)

lemma fair_andthen: "sent_turns (snd r) = [] \<Longrightarrow> fair h (f (fst r)) \<Longrightarrow> fair h (andthen r f)"
  using sent_member by (fastforce simp: fair_def)

lemma fair_with_result: "fair h r \<Longrightarrow> (\<And>c. tc_queue (f c) = tc_queue c) \<Longrightarrow> fair h (with_result f r)"
  by (simp add: fair_def active_id_def)

lemma fair_send:
  assumes "start_current h op c" and "hv_canStart h"
  shows "fair h (send_turn op c)"
  using assms
  by (auto simp: fair_def send_turn_def start_current_def gate_isCurrent_def lease_current_def lease_of_def
      active_id_def)

lemma fair_start_begin: "fair h (fst (start_begin h i c))"
proof (cases "may_start h i c")
  case False
  then show ?thesis by (simp add: start_begin_def fair_silent)
next
  case True
  let ?t = "the (q_active (tc_queue c))"
  let ?c1 = "fst (claim_start h ?t c)" and ?op = "snd (claim_start h ?t c)"
  have "start_current h ?op ?c1"
    using True by (auto simp: start_current_def claim_start_def Let_def gate_begin_def gate_isCurrent_def
        gate_owns_def may_start_def active_id_def)
  then have "fair h (andthen (?c1, [DispatchState d l, show_request t]) (send_turn ?op))" for d l t
    using True by (intro fair_andthen fair_send) (simp_all add: may_start_def)
  then show ?thesis
    using True by (auto simp: start_begin_def Let_def case_prod_beta intro: fair_silent)
qed

lemma fair_start_turn: "fair h (start_turn h i c)"
proof (induction h i c rule: start_turn.induct)
  case (1 h i c)
  obtain r o' where b: "start_begin h i c = (r, o')" by (rule prod.exhaust)
  show ?case
  proof (cases o')
    case None
    with b fair_start_begin [of h i c] show ?thesis by (simp add: start_turn.simps [of h i c])
  next
    case (Some op)
    obtain r' next' where f: "failed_settle h op ''Native review rejected'' review_missing (fst r) = (r', next')"
      by (rule prod.exhaust)
    have r: "sent_turns (snd r) = []"
      using b Some by (auto simp: start_begin_def Let_def case_prod_beta split: if_splits)
    have r': "sent_turns (snd r') = []"
      using quiet_failed_settle [of "fst r" h op "''Native review rejected''" review_missing] f
      by (simp add: quiet_def)
    show ?thesis
    proof (cases next')
      case None
      with r r' b Some f show ?thesis by (simp add: start_turn.simps [of h i c] fair_silent)
    next
      case n: (Some n)
      have "fair h (start_turn h (pt_turnId n) (fst r'))"
        by (rule 1 [OF b [symmetric] Some f [symmetric] n])
      then have "fair h (with_result (finish_start op)
          (andthen (fst r', snd r @ snd r') (start_turn h (pt_turnId n))))"
        using r r' by (intro fair_with_result fair_andthen) simp_all
      with b Some f n show ?thesis
        by (simp add: start_turn.simps [of h i c] with_result_def andthen_def Let_def)
    qed
  qed
qed

lemma fair_start_next: "sent_turns (snd (fst r)) = [] \<Longrightarrow> fair h (start_next h r)"
  by (auto simp: start_next_def fair_silent intro: fair_andthen fair_start_turn split: option.split)

lemma fair_start_active: "fair h (start_active h c)"
  by (simp add: start_active_def fair_start_turn fair_silent split: option.split)

lemma quiet_silent: "quiet c r \<Longrightarrow> sent_turns (snd r) = []"
  by (simp add: quiet_def)

lemma fair_settleTurn: "fair h (settleTurn h t oc c)"
  unfolding settleTurn_def
  by (intro fair_andthen fair_start_next quiet_silent [OF quiet_settle_marks] quiet_silent [OF quiet_release])

lemma fair_start_failed: "fair h (start_failed h op m c)"
  unfolding start_failed_def by (intro fair_start_next quiet_silent [OF quiet_failed_settle])

lemma fair_seat_answer: "fair h (seat_answer h k a c)"
proof (cases "map_get (tc_starts c) k")
  case None
  then show ?thesis by (simp add: seat_answer_def fair_silent)
next
  case (Some op)
  have "start_current h op (take_start k c)" if "start_current h op c"
    using that by (simp add: start_current_def active_id_def take_start_def)
  then have "fair h (send_turn op (take_start k c))" if "start_current h op c" "hv_canStart h"
    using that fair_send by blast
  moreover have "fair h (with_result (finish_start op) (start_next h (failed_settle h op ti m (take_start k c))))" for ti m
    by (intro fair_with_result fair_start_next quiet_silent [OF quiet_failed_settle]) simp
  moreover have "fair h (with_result (finish_start op) (retireLocalDispatch i d c'))" for i d c'
    by (rule fair_silent) (simp add: quiet_silent [OF quiet_retire])
  ultimately show ?thesis
    using Some by (auto simp: seat_answer_def Let_def intro: fair_silent split: option.split)
qed

lemma fair_start_answer: "fair h (start_answer h k failure c)"
proof (cases "map_get (tc_starts c) k")
  case None
  then show ?thesis by (simp add: start_answer_def fair_silent)
next
  case (Some op)
  let ?c = "take_start k c"
  have "fair h (start_accepted h op ?c)" by (rule fair_quiet [OF start_accepted_quiet])
  moreover have "fair h (?c, [])" "fair h (?c\<lparr>tc_timedOutStart := x\<rparr>, [ShowSystem a b d e])" for x a b d e
    by (simp_all add: fair_silent)
  moreover have "fair h (start_collided h op i ?c)" for i
    unfolding start_collided_def Let_def
    by (intro fair_start_next) (simp add: quiet_silent [OF quiet_retire])
  ultimately have "fair h (case failure of None \<Rightarrow> start_accepted h op ?c
      | Some reason \<Rightarrow> if \<not> start_current h op ?c then (?c, [])
          else if \<not> protocol_failure reason
          then if \<not> locally_started ?c (pt_turnId (so_turn op)) then (?c, [])
               else (?c\<lparr>tc_timedOutStart := Some (pt_turnId (so_turn op))\<rparr>,
                     [ShowSystem (''send-timeout:'' @ pt_turnId (so_turn op))
                        (if request_timeout reason then ''Turn start timed out''
                         else ''Turn start unconfirmed'')
                        ''The server did not acknowledge the turn. It may still be running -- do not resubmit; check its status after reconnecting.''
                        ErrorStatus])
          else (case turnCollisionFrom reason of
                  Some occupier \<Rightarrow> start_collided h op occupier ?c
                | None \<Rightarrow> start_failed h op (failure_message reason) ?c))"
    by (simp add: fair_start_failed split: option.split)
  then show ?thesis
    using Some by (simp add: start_answer_def Let_def fair_silent fair_with_result)
qed

lemma fair_review_answer: "fair h (review_answer h k answer c)"
proof (cases "map_get (tc_starts c) k")
  case None
  then show ?thesis by (simp add: review_answer_def fair_silent)
next
  case (Some op)
  let ?c = "take_start k c"
  have "fair h (with_result (finish_start op) (start_accepted h op ?c))"
    "fair h (with_result (finish_start op) (start_failed h op m ?c))"
    "fair h (with_result (finish_start op) (?c, []))"
    "fair h (with_result (finish_start op) (?c, [ShowSystem a b d e]))" for m a b d e
    by (intro fair_with_result fair_quiet [OF start_accepted_quiet] fair_start_failed; simp add: fair_silent)+
  with Some show ?thesis
    by (auto simp: review_answer_def Let_def fair_silent split: startPhase.split sum.split)
qed

lemma fair_steer_answer: "fair h (steer_answer h n answer c)"
proof (cases "map_get (tc_steers c) n")
  case None
  then show ?thesis by (simp add: steer_answer_def fair_silent)
next
  case (Some p)
  have "fair h (andthen r (steer_finally h p))" if "sent_turns (snd r) = []" for r
    using that by (rule fair_andthen) (simp add: steer_finally_def Let_def fair_start_active)
  with Some show ?thesis
    by (auto simp: steer_answer_def Let_def fair_silent quiet_silent [OF steer_rejected_quiet]
        quiet_silent [OF steer_started_quiet] split: sum.split)
qed

lemma fair_recovery_answer: "fair h (recovery_answer h k answer c)"
proof (cases "map_get (tc_lookups c) k")
  case None
  then show ?thesis by (simp add: recovery_answer_def fair_silent)
next
  case (Some op)
  have "fair h (applyRecoveredState h i s c')" for i s c'
    unfolding applyRecoveredState_def Let_def
    by (rule fair_andthen [OF quiet_silent [OF quiet_accept]])
      (auto intro!: fair_andthen fair_settleTurn simp: fair_silent)
  with Some show ?thesis
    by (auto simp: recovery_answer_def Let_def fair_silent intro!: fair_with_result split: sum.split)
qed

lemma fair_continue: "fair h (continueWithoutTurn h c)"
proof -
  have "fair h (andthen (c', [MarkUnconfirmed i, ShowSystem a b d e])
      (\<lambda>c. start_next h (releaseQueueTurn h j c)))" for c' i a b d e j
    by (intro fair_andthen fair_start_next quiet_silent [OF quiet_release]) simp
  then have "fair h (andthen (retireLocalDispatch i ds c') (\<lambda>c2. let c3 = f c2; c4 = g c3
      in andthen (c4, [MarkUnconfirmed i, ShowSystem a b d e]) (\<lambda>c. start_next h (releaseQueueTurn h i c))))"
    for i ds c' f g a b d e
    unfolding Let_def by (intro fair_andthen [OF quiet_silent [OF quiet_retire]])
  then show ?thesis
    by (auto simp: continueWithoutTurn_def Let_def fair_silent split: option.split)
qed

lemma fair_enqueue: "fair h (enqueueTurn h t c)"
  by (simp add: enqueueTurn_def Let_def fair_start_turn fair_silent)

lemma fair_step: "fair h (turn_step c (h, e))"
proof (cases e)
  case Suspend
  have "sent_turns (snd (suspendTransport c)) = []"
    by (rule sent_turns_none) (simp add: suspendTransport_def Let_def list_all_iff)
  with Suspend show ?thesis by (simp add: turn_step_def fair_silent)
next
  case (ReviewMarked k)
  have "\<forall>x \<in> set (snd (review_mark h k c)). \<forall>l t. x \<noteq> SendTurn l t"
    by (simp add: review_mark_def split: option.split)
  with ReviewMarked show ?thesis by (auto simp: turn_step_def fair_def)
next
  case RetrySteer
  then show ?thesis
    by (simp add: turn_step_def retrySteerDelivery_def fair_start_active fair_silent)
qed (auto simp: turn_step_def fair_enqueue enqueuePrompt_def submitTurn_def Let_def fair_silent
  fair_seat_answer fair_review_answer fair_start_answer fair_quiet [OF steer_mark_quiet] fair_steer_answer
  fair_quiet [OF quiet_observe] fair_settleTurn fair_quiet [OF quiet_interrupt] sendPendingNow_def
  fair_quiet [OF quiet_interrupt_answer] fair_quiet [OF quiet_recovery] fair_recovery_answer fair_continue
  fair_quiet [OF quiet_reconcile] fair_start_active)

text \<open>
  C21: A prompt leaves only as the active turn, where it belongs. Whenever a step sends a
  \<open>turn/start\<close>, the record may start turns at that moment, the frame goes to the connection and the
  Session the record has at that moment, even if the start waited for the driver seat meanwhile,
  and the turn is the active one of the queue.
\<close>
theorem prompt_leaves_as_active_turn:
  assumes "SendTurn l t \<in> set (snd (turn_step c (h, e)))"
  shows "hv_canStart h \<and> hv_client h = Some (le_client l) \<and> hv_sessionId h = le_sessionId l
    \<and> le_turnId l = pt_turnId t \<and> active_id (fst (turn_step c (h, e))) = Some (pt_turnId t)"
  using assms fair_step [of h c e] by (auto simp: fair_def lease_current_def)

definition seated_host :: host_view where
  "seated_host = ready_host\<lparr>hv_seatGate := True\<rparr>"

definition waiting_for_seat :: controller where
  "waiting_for_seat = fst (turn_step new_controller (seated_host, Enqueue (sample_turn ''a'')))"

lemma prompt_leaves_as_active_turn_witness:
  "active_id (fst (turn_step waiting_for_seat (seated_host, SeatAnswered 1 None))) = Some ''a''"
proof -
  have "SendTurn \<lparr>le_client = 0, le_sessionId = ''s'', le_turnId = ''a''\<rparr> (sample_turn ''a'')
      \<in> set (snd (turn_step waiting_for_seat (seated_host, SeatAnswered 1 None)))" by code_simp
  from prompt_leaves_as_active_turn [OF this] show ?thesis by (simp add: sample_turn_def)
qed

section \<open>An unresolved turn holds the queue\<close>

text \<open>Events that bring no evidence of a turn's outcome and no answer.\<close>

fun no_evidence :: "turnEvent \<Rightarrow> bool" where
  "no_evidence (Enqueue _) = True"
| "no_evidence (Prompt _) = True"
| "no_evidence (Submit _) = True"
| "no_evidence (Cancel _) = True"
| "no_evidence (SteerMarked _) = True"
| "no_evidence Stop = True"
| "no_evidence SendNow = True"
| "no_evidence (InterruptAnswered _ _) = True"
| "no_evidence RetryRecovery = True"
| "no_evidence Resume = True"
| "no_evidence RetrySteer = True"
| "no_evidence (SteeringEnabled _) = True"
| "no_evidence (OwnerInteraction _ _) = True"
| "no_evidence ClearOwnership = True"
| "no_evidence Suspend = True"
| "no_evidence _ = False"

definition held :: "string \<Rightarrow> controller \<Rightarrow> bool" where
  "held i c = (active_id c = Some i \<and> i \<in> tc_attempted c \<and> tc_preflight c \<noteq> Some i)"

lemma held_same:
  "held i c \<Longrightarrow> active_id c' = active_id c \<Longrightarrow> tc_attempted c' = tc_attempted c \<Longrightarrow>
     tc_preflight c' = tc_preflight c \<Longrightarrow> held i c'"
  by (simp add: held_def)

lemma held_start: "held i c \<Longrightarrow> start_turn h j c = (c, [])"
proof -
  assume "held i c"
  then have "\<not> may_start h j c" by (auto simp: may_start_def held_def)
  then show ?thesis by (simp add: start_turn.simps [of h j c] start_begin_def)
qed

lemma held_start_active: "held i c \<Longrightarrow> start_active h c = (c, [])"
  by (simp add: start_active_def held_start split: option.split)

lemma held_enqueue:
  assumes "held i c"
  shows "held i (fst (enqueueTurn h t c))" "sent_turns (snd (enqueueTurn h t c)) = []"
proof -
  have "\<not> snd (enqueue (tc_queue c) t')"
    "active_id (c\<lparr>tc_queue := fst (enqueue (tc_queue c) t')\<rparr>) = active_id c" for t'
    using assms by (auto simp: held_def active_id_def enqueue_def)
  with assms show "held i (fst (enqueueTurn h t c))" "sent_turns (snd (enqueueTurn h t c)) = []"
    by (simp_all add: enqueueTurn_def Let_def held_def)
qed

lemma held_submit:
  assumes "held i c"
  shows "held i (fst (submitTurn h t c))" "sent_turns (snd (submitTurn h t c)) = []"
  using assms held_enqueue [OF assms, of h t]
  by (auto simp: submitTurn_def Let_def intro!: held_same [OF assms] simp: active_id_def)

lemma held_steer_mark:
  assumes "held i c"
  shows "held i (fst (steer_mark h n c))" "sent_turns (snd (steer_mark h n c)) = []"
  using assms
  by (auto simp: steer_mark_def change_entry_def intro!: held_same [OF assms] simp: active_id_def
      split: option.split)

lemma held_cancel: "held i c \<Longrightarrow> held i (cancelQueuedPrompt j c)"
  by (rule held_same, assumption)
    (auto simp: cancelQueuedPrompt_def active_id_def removePending_def Let_def split: option.split)

lemma held_interrupt:
  assumes "held i c"
  shows "held i (fst (interrupt h b c))"
proof -
  have "active_id ((arm_restore h t b c)\<lparr>tc_interrupting := x, tc_interruptRequests := g, tc_interrupts := m\<rparr>)
      = active_id c" for t x g m
    by (auto simp: arm_restore_def active_id_def stashInterruptPrompt_def takeInterruptPrompt_def Let_def
        split: option.split)
  moreover have "tc_attempted (arm_restore h t b c) = tc_attempted c"
    "tc_preflight (arm_restore h t b c) = tc_preflight c" for t
    by (simp_all add: arm_restore_def)
  ultimately have "held i ((arm_restore h t b c)\<lparr>tc_interrupting := x, tc_interruptRequests := g,
      tc_interrupts := m\<rparr>)" for t x g m
    using assms by (simp add: held_def)
  with assms show ?thesis
    by (auto simp: interrupt_def Let_def case_prod_beta split: option.split)
qed

lemma held_suspend:
  assumes "held i c"
  shows "held i (fst (suspendTransport c))" "sent_turns (snd (suspendTransport c)) = []"
proof -
  let ?c0 = "c\<lparr>tc_steerEpoch := tc_steerEpoch c + 1, tc_retained := [], tc_steerInFlight := False,
    tc_steerUnknown := False\<rparr>"
  let ?c1 = "restage (map se_turn (filter (\<lambda>e. \<not> se_sent e) (tc_retained c))) ?c0"
  have restaged: "active_id (restage ts c') = Some i" if "active_id c' = Some i" "i \<in> tc_attempted c'" for ts c'
    using that by (cases ts) (auto simp: restage_def active_id_def restageSteers_def prependPending_def)
  have "active_id ?c1 = Some i"
    using assms by (intro restaged) (simp_all add: held_def active_id_def)
  moreover have "tc_queue (fst (suspendTransport c)) = tc_queue ?c1"
    by (simp add: suspendTransport_def Let_def invalidate_requests_def split: option.split)
  ultimately have "active_id (fst (suspendTransport c)) = Some i" by (simp add: active_id_def)
  with assms show "held i (fst (suspendTransport c))"
    by (auto simp: held_def suspendTransport_def Let_def restage_def invalidate_requests_def split: option.split)
  show "sent_turns (snd (suspendTransport c)) = []"
    by (rule sent_turns_none) (simp add: suspendTransport_def Let_def list_all_iff)
qed

lemma held_step:
  assumes "held i c" and "no_evidence e"
  shows "held i (fst (turn_step c (h, e))) \<and> sent_turns (snd (turn_step c (h, e))) = []"
proof -
  have retry: "retrySteerDelivery h c = (c, [])
      \<or> (\<exists>n. fst (retrySteerDelivery h c)
              = c\<lparr>tc_steerEpoch := n, tc_steerUnknown := False, tc_steerInFlight := False\<rparr>
            \<and> snd (retrySteerDelivery h c) = [])"
  proof -
    have "held i (c\<lparr>tc_steerEpoch := n, tc_steerUnknown := False, tc_steerInFlight := False\<rparr>)" for n
      using assms(1) by (rule held_same) (simp_all add: active_id_def)
    from held_start_active [OF this] show ?thesis by (auto simp: retrySteerDelivery_def)
  qed
  show ?thesis
  proof (cases e)
    case RetrySteer
    with retry assms(1) show ?thesis
      by (auto simp: turn_step_def intro: held_same simp: active_id_def)
  qed (use assms in \<open>auto simp: turn_step_def held_enqueue held_submit held_steer_mark held_cancel enqueuePrompt_def held_interrupt sendPendingNow_def
    quiet_silent [OF quiet_interrupt] quiet_silent [OF quiet_interrupt_answer] quiet_silent [OF quiet_recovery]
    held_start_active held_suspend interrupt_answer_def retryTurnRecovery_def setSteeringEnabled_def
    setAcceptedOwnerInteraction_def clearTransportOwnership_def Let_def case_prod_beta
    intro!: held_same [OF assms(1)] simp: active_id_def split: option.split\<close>)
qed

lemma held_run:
  "held i c \<Longrightarrow> list_all (\<lambda>e. no_evidence (snd e)) es \<Longrightarrow>
     held i (fst (turn_run c es)) \<and> sent_turns (snd (turn_run c es)) = []"
proof (induction es arbitrary: c)
  case (Cons e es)
  with held_step [of i c "snd e" "fst e"] show ?case by (simp add: Let_def)
qed simp

text \<open>
  C22: An unresolved turn holds the queue. While the active turn was sent and nothing has told its
  outcome, no submission (queued, or steered into the turn), cancellation, stop, resumption,
  suspension or status request sends another turn or takes the turn out of the active slot: later
  prompts wait behind it.
\<close>
theorem unresolved_turn_holds_the_queue:
  assumes "active_id c = Some i" and "i \<in> tc_attempted c" and "tc_preflight c \<noteq> Some i"
    and "list_all (\<lambda>e. no_evidence (snd e)) es"
  shows "active_id (fst (turn_run c es)) = Some i \<and> sent_turns (snd (turn_run c es)) = []"
  using held_run [of i c es] assms by (simp add: held_def)

definition unacknowledged :: controller where
  "unacknowledged = fst (turn_run new_controller [(ready_host, Enqueue (sample_turn ''a'')),
     (ready_host, StartAnswered 1 (Some (TimedOut ''turn/start'')))])"

lemma unresolved_turn_holds_the_queue_witness:
  "active_id (fst (turn_run unacknowledged (map (Pair ready_host)
     [Prompt ''next'', Suspend, Resume, RetryRecovery, Stop]))) = Some ''a''"
proof -
  have "active_id unacknowledged = Some ''a''" "''a'' \<in> tc_attempted unacknowledged"
    "tc_preflight unacknowledged \<noteq> Some ''a''" by code_simp+
  from unresolved_turn_holds_the_queue [OF this, of "map (Pair ready_host)
     [Prompt ''next'', Suspend, Resume, RetryRecovery, Stop]"] show ?thesis by simp
qed

section \<open>The next prompt, and a session that is occupied
\<close>
lemma retire_fields [simp]:
  "tc_steerInFlight (fst (retireLocalDispatch t st c)) = tc_steerInFlight c"
  "tc_steerUnknown (fst (retireLocalDispatch t st c)) = tc_steerUnknown c"
  "tc_attempted (fst (retireLocalDispatch t st c)) = tc_attempted c"
  "tc_recovery (fst (retireLocalDispatch t st c)) = tc_recovery c"
  "tc_hydratedActive (fst (retireLocalDispatch t st c)) = tc_hydratedActive c"
  "tc_queue (fst (retireLocalDispatch t st c)) = tc_queue c"
  "tc_terminalReceipts (fst (retireLocalDispatch t st c)) = tc_terminalReceipts c"
  by (simp_all add: retireLocalDispatch_def clearDispatchingTurn_def forget_preflight_def split: option.split)

lemma owner_state_fields [simp]:
  "tc_steerInFlight (set_owner_state t st c) = tc_steerInFlight c"
  "tc_steerUnknown (set_owner_state t st c) = tc_steerUnknown c"
  "tc_attempted (set_owner_state t st c) = tc_attempted c"
  "tc_recovery (set_owner_state t st c) = tc_recovery c"
  "tc_hydratedActive (set_owner_state t st c) = tc_hydratedActive c"
  by (simp_all add: set_owner_state_def)

lemma settle_steers_fields [simp]:
  "tc_steerInFlight (fst (settle_steers t c)) = tc_steerInFlight c"
  "tc_steerUnknown (fst (settle_steers t c)) = tc_steerUnknown c"
  "tc_attempted (fst (settle_steers t c)) = tc_attempted c"
  "tc_recovery (fst (settle_steers t c)) = tc_recovery c"
  "tc_hydratedActive (fst (settle_steers t c)) = tc_hydratedActive c"
  by (simp_all add: settle_steers_def)

lemma settle_marks_fields:
  "tc_steerInFlight (fst (settle_marks t oc c)) = tc_steerInFlight c"
  "tc_steerUnknown (fst (settle_marks t oc c)) = tc_steerUnknown c"
  "tc_attempted (fst (settle_marks t oc c)) = tc_attempted c"
  "tc_recovery (fst (settle_marks t oc c)) = (if recovering c t then None else tc_recovery c)"
  "map_option fst (tc_hydratedActive c) \<in> {None, Some t} \<Longrightarrow>
     tc_hydratedActive (fst (settle_marks t oc c)) = None"
  by (simp_all add: settle_marks_def Let_def clearRecovery_def split del: option.split) auto

lemma release_settled_next:
  assumes "q_active (tc_queue c) = Some t" and "q_pending (tc_queue c) = n # rest"
  shows "snd (release_settled (pt_turnId t) c) = Some n"
    and "q_active (tc_queue (fst (fst (release_settled (pt_turnId t) c)))) = Some n"
    and "q_pending (tc_queue (fst (fst (release_settled (pt_turnId t) c)))) = rest"
    and "tc_steerInFlight (fst (fst (release_settled (pt_turnId t) c))) = tc_steerInFlight c"
    and "tc_steerUnknown (fst (fst (release_settled (pt_turnId t) c))) = tc_steerUnknown c"
    and "tc_attempted (fst (fst (release_settled (pt_turnId t) c))) = tc_attempted c"
    and "tc_recovery (fst (fst (release_settled (pt_turnId t) c))) = tc_recovery c"
  using assms
  by (simp_all add: release_settled_def settle_def Let_def give_prompt_back_def invalidate_requests_def
      takeInterruptPrompt_def split: option.split)

text \<open>Starting a prompt: at once, or by asking for the driver seat first.\<close>

lemma start_turn_claims_prompt:
  assumes "may_start h (pt_turnId n) c" and "q_active (tc_queue c) = Some n" and "\<not> pt_review n"
    and "hv_client h = Some cl"
  defines "r \<equiv> start_turn h (pt_turnId n) c"
    and "l \<equiv> \<lparr>le_client = cl, le_sessionId = hv_sessionId h, le_turnId = pt_turnId n\<rparr>"
  shows "if hv_seatGate h
     then AskSeat l \<in> set (snd r) \<and> (\<exists>k op. map_get (tc_starts (fst r)) k = Some op \<and> so_phase op = AtSeat
       \<and> so_turn op = n \<and> lease_of op = l
       \<and> (\<forall>h'. hv_client h' = Some cl \<and> hv_sessionId h' = hv_sessionId h \<longrightarrow> start_current h' op (fst r)))
     else SendTurn l n \<in> set (snd r)"
    and "tc_queue (fst r) = tc_queue c"
proof -
  let ?c1 = "fst (claim_start h n c)" and ?op = "snd (claim_start h n c)"
  have op: "lease_of ?op = l" "so_turn ?op = n" "so_phase ?op = AtSeat" "tc_queue ?c1 = tc_queue c"
    "active_id ?c1 = Some (pt_turnId n)"
    using assms(2,4) by (simp_all add: claim_start_def Let_def gate_begin_def lease_of_def l_def active_id_def)
  have current: "start_current h' ?op (await_start ?op ?c1)"
    if "hv_client h' = Some cl" "hv_sessionId h' = hv_sessionId h" for h'
    using that op assms(4)
    by (simp add: start_current_def await_start_def claim_start_def Let_def gate_begin_def
        gate_isCurrent_def gate_owns_def active_id_def)
  have stored: "map_get (tc_starts (await_start ?op ?c1)) (start_key ?op) = Some ?op"
    by (simp add: await_start_def map_get_put)
  have r: "r = (if hv_seatGate h
      then (await_start ?op ?c1, [DispatchState Dispatching (lease_of ?op), show_request n, AskSeat l])
      else (fst (send_turn ?op ?c1),
            [DispatchState Dispatching (lease_of ?op), show_request n] @ snd (send_turn ?op ?c1)))"
    using assms(1-3) op by (simp add: r_def start_turn.simps [of h "pt_turnId n" c] start_begin_def Let_def case_prod_beta
        andthen_def)
  show "tc_queue (fst r) = tc_queue c"
    using op(4) by (simp add: r await_start_def send_turn_def)
  show "if hv_seatGate h
     then AskSeat l \<in> set (snd r) \<and> (\<exists>k op. map_get (tc_starts (fst r)) k = Some op \<and> so_phase op = AtSeat
       \<and> so_turn op = n \<and> lease_of op = l
       \<and> (\<forall>h'. hv_client h' = Some cl \<and> hv_sessionId h' = hv_sessionId h \<longrightarrow> start_current h' op (fst r)))
     else SendTurn l n \<in> set (snd r)"
  proof (cases "hv_seatGate h")
    case True
    with r op stored current show ?thesis by auto
  next
    case False
    with r op show ?thesis by (simp add: send_turn_def)
  qed
qed

lemma seat_released_sends:
  assumes "map_get (tc_starts c) k = Some op" and "so_phase op = AtSeat" and "start_current h op c"
    and "hv_canStart h"
  shows "SendTurn (lease_of op) (so_turn op) \<in> set (snd (turn_step c (h, SeatAnswered k None)))"
  using assms by (simp add: turn_step_def seat_answer_def Let_def send_turn_def)

text \<open>
  C23: The queue drains in order. When the active turn ends, the first waiting prompt becomes the
  active turn and the rest keep their order. Without a seat gate it is sent in the same step, on the
  record's own connection; with one, as every record of the product has, the same step asks for the
  driver seat and the prompt is sent when the seat is released, if the connection and the Session
  are still those and turns may start. This holds when turns may start, no other foreground turn,
  steer or recovery is in the way, and the prompt is not a review and was never attempted before.
\<close>
theorem terminal_sends_the_next_prompt:
  fixes c :: controller and h :: host_view and outcome
  assumes active: "q_active (tc_queue c) = Some t" "q_pending (tc_queue c) = n # rest"
    and foreground: "map_option fst (tc_hydratedActive c) \<in> {None, Some (pt_turnId t)}"
    and recovery: "tc_recovery c = None \<or> recovering c (pt_turnId t)"
    and host: "hv_client h = Some cl" "hv_sessionId h \<noteq> []" "hv_canStart h"
    and steer: "\<not> tc_steerInFlight c" "\<not> tc_steerUnknown c"
    and prompt: "\<not> pt_review n" "pt_turnId n \<notin> tc_attempted c"
  defines "r \<equiv> turn_step c (h, Terminal (pt_turnId t) outcome)"
    and "l \<equiv> \<lparr>le_client = cl, le_sessionId = hv_sessionId h, le_turnId = pt_turnId n\<rparr>"
  shows "q_active (tc_queue (fst r)) = Some n \<and> q_pending (tc_queue (fst r)) = rest
    \<and> (if hv_seatGate h
       then AskSeat l \<in> set (snd r) \<and> (\<exists>k op. map_get (tc_starts (fst r)) k = Some op \<and> so_phase op = AtSeat
         \<and> (\<forall>h'. hv_client h' = Some cl \<and> hv_sessionId h' = hv_sessionId h \<and> hv_canStart h' \<longrightarrow>
               SendTurn l n \<in> set (snd (turn_step (fst r) (h', SeatAnswered k None)))))
       else SendTurn l n \<in> set (snd r))"
proof -
  let ?c = "fst (settle_marks (pt_turnId t) outcome c)"
  let ?r = "release_settled (pt_turnId t) ?c"
  have queue: "q_active (tc_queue ?c) = Some t" "q_pending (tc_queue ?c) = n # rest"
    using active by simp_all
  note next_turn = release_settled_next [OF queue]
  have release: "releaseQueueTurn h (pt_turnId t) ?c = ?r"
    using settle_marks_fields(5) [OF foreground] by (simp add: releaseQueueTurn_def)
  have may: "may_start h (pt_turnId n) (fst (fst ?r))"
    using next_turn host steer prompt recovery
    by (auto simp: may_start_def active_id_def settle_marks_fields)
  have "r = andthen (settle_marks (pt_turnId t) outcome c) (\<lambda>c. start_next h (releaseQueueTurn h (pt_turnId t) c))"
    by (simp add: r_def turn_step_def settleTurn_def)
  then have r: "fst r = fst (start_turn h (pt_turnId n) (fst (fst ?r)))"
    "set (snd (start_turn h (pt_turnId n) (fst (fst ?r)))) \<subseteq> set (snd r)"
    by (auto simp: start_next_def release next_turn(1))
  note claimed = start_turn_claims_prompt [OF may next_turn(2) prompt(1) host(1), folded r(1) l_def]
  have "q_active (tc_queue (fst r)) = Some n" "q_pending (tc_queue (fst r)) = rest"
    using claimed(2) next_turn(2,3) by simp_all
  moreover have "AskSeat l \<in> set (snd r) \<and> (\<exists>k op. map_get (tc_starts (fst r)) k = Some op \<and> so_phase op = AtSeat
      \<and> (\<forall>h'. hv_client h' = Some cl \<and> hv_sessionId h' = hv_sessionId h \<and> hv_canStart h' \<longrightarrow>
            SendTurn l n \<in> set (snd (turn_step (fst r) (h', SeatAnswered k None)))))"
    if "hv_seatGate h"
    using claimed(1) that r(2) seat_released_sends by (auto 0 3)
  moreover have "SendTurn l n \<in> set (snd r)" if "\<not> hv_seatGate h"
    using claimed(1) that r(2) by auto
  ultimately show ?thesis by simp
qed

definition two_prompts :: "host_view \<Rightarrow> controller" where
  "two_prompts h = fst (turn_run new_controller [(h, Enqueue (sample_turn ''a'')),
     (h, SeatAnswered 1 None), (h, Enqueue (sample_turn ''b'')), (h, StartAnswered 1 None)])"

lemma two_prompts_wait:
  assumes "h \<in> {ready_host, seated_host}"
  shows "q_active (tc_queue (two_prompts h)) = Some (sample_turn ''a'')"
    "q_pending (tc_queue (two_prompts h)) = [sample_turn ''b'']"
    "map_option fst (tc_hydratedActive (two_prompts h)) \<in> {None, Some (pt_turnId (sample_turn ''a''))}"
    "tc_recovery (two_prompts h) = None \<or> recovering (two_prompts h) (pt_turnId (sample_turn ''a''))"
    "hv_client h = Some 0" "hv_sessionId h \<noteq> []" "hv_canStart h"
    "\<not> tc_steerInFlight (two_prompts h)" "\<not> tc_steerUnknown (two_prompts h)"
    "\<not> pt_review (sample_turn ''b'')" "pt_turnId (sample_turn ''b'') \<notin> tc_attempted (two_prompts h)"
proof -
  consider "h = ready_host" | "h = seated_host" using assms by blast
  then show "q_active (tc_queue (two_prompts h)) = Some (sample_turn ''a'')"
    "q_pending (tc_queue (two_prompts h)) = [sample_turn ''b'']"
    "map_option fst (tc_hydratedActive (two_prompts h)) \<in> {None, Some (pt_turnId (sample_turn ''a''))}"
    "tc_recovery (two_prompts h) = None \<or> recovering (two_prompts h) (pt_turnId (sample_turn ''a''))"
    "hv_client h = Some 0" "hv_sessionId h \<noteq> []" "hv_canStart h"
    "\<not> tc_steerInFlight (two_prompts h)" "\<not> tc_steerUnknown (two_prompts h)"
    "\<not> pt_review (sample_turn ''b'')" "pt_turnId (sample_turn ''b'') \<notin> tc_attempted (two_prompts h)"
    by (cases; hypsubst; code_simp)+
qed

lemma terminal_sends_the_next_prompt_witness:
  "SendTurn \<lparr>le_client = 0, le_sessionId = ''s'', le_turnId = ''b''\<rparr> (sample_turn ''b'')
      \<in> set (snd (turn_step (two_prompts ready_host) (ready_host, Terminal ''a'' OutcomeCompleted)))
   \<and> AskSeat \<lparr>le_client = 0, le_sessionId = ''s'', le_turnId = ''b''\<rparr>
      \<in> set (snd (turn_step (two_prompts seated_host) (seated_host, Terminal ''a'' OutcomeCompleted)))
   \<and> (\<exists>k. SendTurn \<lparr>le_client = 0, le_sessionId = ''s'', le_turnId = ''b''\<rparr> (sample_turn ''b'')
        \<in> set (snd (turn_step (fst (turn_step (two_prompts seated_host)
             (seated_host, Terminal ''a'' OutcomeCompleted))) (seated_host, SeatAnswered k None))))"
proof -
  let ?ready = "turn_step (two_prompts ready_host) (ready_host, Terminal ''a'' OutcomeCompleted)"
  let ?seated = "turn_step (two_prompts seated_host) (seated_host, Terminal ''a'' OutcomeCompleted)"
  let ?l = "\<lparr>le_client = 0, le_sessionId = ''s'', le_turnId = ''b''\<rparr>"
  have f: "pt_turnId (sample_turn ''a'') = ''a''" "pt_turnId (sample_turn ''b'') = ''b''"
    "hv_sessionId ready_host = ''s''" "hv_sessionId seated_host = ''s''"
    "hv_seatGate ready_host = False" "hv_seatGate seated_host = True"
    by (simp_all add: sample_turn_def ready_host_def seated_host_def)
  have seated: "hv_client seated_host = Some 0" "hv_canStart seated_host"
    by (simp_all add: ready_host_def seated_host_def)
  note ready_run = terminal_sends_the_next_prompt
    [OF two_prompts_wait [of ready_host], where outcome = OutcomeCompleted, unfolded f]
  note seated_run = terminal_sends_the_next_prompt
    [OF two_prompts_wait [of seated_host], where outcome = OutcomeCompleted, unfolded f]
  have "SendTurn ?l (sample_turn ''b'') \<in> set (snd ?ready)"
    using ready_run by (simp only: insert_iff simp_thms if_False)
  moreover have "AskSeat ?l \<in> set (snd ?seated) \<and> (\<exists>k op. map_get (tc_starts (fst ?seated)) k = Some op
      \<and> so_phase op = AtSeat \<and> (\<forall>h'. hv_client h' = Some 0 \<and> hv_sessionId h' = ''s'' \<and> hv_canStart h' \<longrightarrow>
          SendTurn ?l (sample_turn ''b'') \<in> set (snd (turn_step (fst ?seated) (h', SeatAnswered k None)))))"
    using seated_run by (simp only: insert_iff simp_thms if_True)
  ultimately show ?thesis using seated f(4) by blast
qed

text \<open>
  C24: A collision gives the prompt back. When Core refuses a prompt because another client's turn
  occupies the session, the prompt goes back to its author exactly once, the occupying turn becomes
  the active one, as one that is never sent from here, and the waiting prompts keep their order
  behind it.
\<close>
theorem collision_gives_the_prompt_back:
  fixes c :: controller and h :: host_view
  assumes op: "map_get (tc_starts c) k = Some op" "so_phase op = AtStart" "start_current h op c"
    and refused: "turnCollisionFrom reason = Some other" "protocol_failure reason"
    and fresh: "other \<notin> set (tc_terminalReceipts c)" "other \<notin> pt_turnId ` set (q_pending (tc_queue c))"
  defines "r \<equiv> turn_step c (h, StartAnswered k (Some reason))"
  shows "filter (\<lambda>x. \<exists>t s. x = NotSentRestore t s) (snd r) = [NotSentRestore (so_turn op) (au_sessionId (so_request op))]
    \<and> queue_items (tc_queue (fst r)) = observedTurn h other # q_pending (tc_queue c)
    \<and> other \<in> tc_attempted (fst r) \<and> sent_turns (snd r) = []"
proof -
  let ?i = "pt_turnId (so_turn op)" and ?c = "take_start k c"
  let ?l = "retireLocalDispatch ?i RejectedDispatch ?c"
  have c: "tc_queue ?c = tc_queue c" "tc_terminalReceipts (fst ?l) = tc_terminalReceipts c"
    by (simp_all add: take_start_def retireLocalDispatch_def forget_preflight_def clearDispatchingTurn_def
        split: option.split)
  have current: "start_current h op ?c"
    using op(3) by (simp add: start_current_def active_id_def take_start_def)
  then obtain a where a: "q_active (tc_queue c) = Some a" "pt_turnId a = ?i"
    by (auto simp: start_current_def active_id_def c)
  have shown: "filter (\<lambda>x. \<exists>t s. x = NotSentRestore t s) (snd ?l) = []" "sent_turns (snd ?l) = []"
    by (simp_all add: retireLocalDispatch_def split: option.split)
  have "r = with_result (finish_start op) (start_collided h op other ?c)"
    using op(1,2) refused current by (simp add: r_def turn_step_def start_answer_def)
  with fresh a shown c show ?thesis
    by (auto simp: start_collided_def Let_def start_next_def adopt_active_def settle_def restoreActive_def
        queue_items_def finish_start_def observedTurn_def split: list.split)
qed

definition occupied_session :: transportError where
  "occupied_session = ProtocolFailure \<lparr>err_code = JInt 1, err_message = ''busy'',
     err_data = Some (JObj [(''kind'', JStr ''turn_in_progress''),
       (''turn_id'', JStr ''00000000-0000-4000-8000-000000000000'')])\<rparr>"

definition two_waiting :: controller where
  "two_waiting = fst (turn_run new_controller [(ready_host, Enqueue (sample_turn ''a'')),
     (ready_host, Enqueue (sample_turn ''b''))])"

lemma collision_gives_the_prompt_back_witness:
  "queue_items (tc_queue (fst (turn_step two_waiting (ready_host, StartAnswered 1 (Some occupied_session)))))
     = [observedTurn ready_host ''00000000-0000-4000-8000-000000000000'', sample_turn ''b'']"
proof -
  let ?op = "the (map_get (tc_starts two_waiting) 1)"
  have "map_get (tc_starts two_waiting) 1 \<noteq> None" by code_simp
  then have "map_get (tc_starts two_waiting) 1 = Some ?op" by simp
  moreover have "so_phase ?op = AtStart" by code_simp
  moreover have "start_current ready_host ?op two_waiting" by code_simp
  moreover have "turnCollisionFrom occupied_session = Some ''00000000-0000-4000-8000-000000000000''" by code_simp
  moreover have "protocol_failure occupied_session" by code_simp
  moreover have "''00000000-0000-4000-8000-000000000000'' \<notin> set (tc_terminalReceipts two_waiting)" by code_simp
  moreover have "q_pending (tc_queue two_waiting) = [sample_turn ''b'']" by code_simp
  ultimately show ?thesis using collision_gives_the_prompt_back [of two_waiting 1 ?op ready_host occupied_session]
    by (simp add: sample_turn_def)
qed

end
