(* ===== verification/TimelineRestore.thy ===== *)
theory TimelineRestore
  imports TimelineLaws HistoryResults "HOL-Library.Multiset"
begin

text \<open>
  The transcript that a hydrate result restores: \<open>timelineFromHydrate\<close> of
  \<open>features/timeline/model.ts\<close>. Persisted messages become rows, the retained tool events are folded
  over them, a tool card that belongs to exactly one raw tool message takes its place, and the
  turns that the server reports as finished are settled.
\<close>

section \<open>Counting and grouping\<close>

text \<open>The loop that counts the occurrences of its keys in a \<open>Map\<close>.\<close>

definition count_up :: "('k, nat) jsmap \<Rightarrow> 'k \<Rightarrow> ('k, nat) jsmap" where
  "count_up m k = map_put k ((case map_get m k of None \<Rightarrow> 0 | Some n \<Rightarrow> n) + 1) m"

definition tally :: "'k list \<Rightarrow> ('k, nat) jsmap" where
  "tally ks = foldl count_up [] ks"

text \<open>The loop that collects a set of values per key.\<close>

definition group_add :: "('k, 'v list) jsmap \<Rightarrow> 'k \<times> 'v \<Rightarrow> ('k, 'v list) jsmap" where
  "group_add m kv =
     (let known = (case map_get m (fst kv) of None \<Rightarrow> [] | Some vs \<Rightarrow> vs)
      in map_put (fst kv) (if snd kv \<in> set known then known else known @ [snd kv]) m)"

definition group_sets :: "('k \<times> 'v) list \<Rightarrow> ('k, 'v list) jsmap" where
  "group_sets kvs = foldl group_add [] kvs"

text \<open>A key that names one value keeps it; a second, different value makes it \<open>null\<close>.\<close>

definition note_unique :: "('k, 'v option) jsmap \<Rightarrow> 'k \<Rightarrow> 'v \<Rightarrow> ('k, 'v option) jsmap" where
  "note_unique m k v =
     map_put k (case map_get m k of
        None \<Rightarrow> Some v
      | Some known \<Rightarrow> if known = Some v then Some v else None) m"

lemma tally_count: "map_get (tally ks) k = (if k \<in> set ks then Some (count_list ks k) else None)"
proof -
  have "map_get (foldl count_up m ks) k =
      (if k \<in> set ks then Some ((case map_get m k of None \<Rightarrow> 0 | Some n \<Rightarrow> n) + count_list ks k)
       else map_get m k)" for m
    by (induction ks arbitrary: m) (auto simp: count_up_def map_get_put split: option.splits)
  then show ?thesis by (simp add: tally_def map_get_def)
qed

section \<open>Rows of the persisted messages\<close>

text \<open>
  The identities that the previous transcript and the retained receipts prove: a message, its turn
  and its stream.
\<close>

record assistantClaim =
  ac_messageId :: string
  ac_turnId :: string
  ac_streamId :: string

text \<open>\<open>hi_identities\<close>: message, turn and segment.\<close>

record hydrateIdentities =
  hi_previous :: timeline
  hi_identities :: "(string \<times> string \<times> string) list"

definition turns_of :: "sessionHydrateResult \<Rightarrow> hydratedTurn list" where
  "turns_of r = (case hr_turns r of None \<Rightarrow> [] | Some ts \<Rightarrow> ts)"

definition messages_of :: "sessionHydrateResult \<Rightarrow> hydratedMessage list" where
  "messages_of r = (case hr_messages r of None \<Rightarrow> [] | Some ms \<Rightarrow> ms)"

definition projection_events :: "sessionHydrateResult \<Rightarrow> projectionEnvelope list" where
  "projection_events r = (case hr_replayed_projection_envelopes r of None \<Rightarrow> [] | Some es \<Rightarrow> es)"

definition thread_turns :: "sessionHydrateResult \<Rightarrow> (string option \<times> string) list" where
  "thread_turns r = map (\<lambda>t. (ht_thread_id t, ht_turn_id t)) (turns_of r)
     @ map (\<lambda>e. (Some (pe_thread_id e), pe_turn_id e)) (projection_events r)"

definition turnByThread :: "sessionHydrateResult \<Rightarrow> (string, string option) jsmap" where
  "turnByThread r = foldl (\<lambda>m tt.
     if \<not> truthy (fst tt) \<or> snd tt = [] then m else note_unique m (the (fst tt)) (snd tt))
     [] (thread_turns r)"

definition messageTurnId :: "(string, string option) jsmap \<Rightarrow> hydratedMessage \<Rightarrow> string option" where
  "messageTurnId threads m =
     (case hm_turn_id m of
        Some t \<Rightarrow> Some t
      | None \<Rightarrow>
          if truthy (hm_thread_id m)
          then (case map_get threads (the (hm_thread_id m)) of Some (Some t) \<Rightarrow> Some t | _ \<Rightarrow> None)
          else None)"

definition userInputsByTurn :: "(string, string option) jsmap \<Rightarrow> hydratedMessage list \<Rightarrow> (string, nat) jsmap"
  where
  "userInputsByTurn threads ms =
     tally (List.map_filter (\<lambda>m. if to_lower (hm_role m) = ''user'' then messageTurnId threads m else None) ms)"

definition stableId :: "hydratedMessage \<Rightarrow> string" where
  "stableId m =
     (case hm_message_id m of
        Some i \<Rightarrow> i
      | None \<Rightarrow>
          (case hm_client_message_id m of
             Some i \<Rightarrow> i
           | None \<Rightarrow> (case hm_thread_id m of None \<Rightarrow> ''session'' | Some t \<Rightarrow> t) @ '':'' @ show_nat (hm_seq m)))"

definition appendMedia :: "string \<Rightarrow> string list \<Rightarrow> string" where
  "appendMedia content media =
     (if media = [] then content
      else let attachments = join [CHR 0x0A] (map (\<lambda>path. ''Attachment: '' @ path) media)
           in if content = [] then attachments else content @ [CHR 0x0A, CHR 0x0A] @ attachments)"

text \<open>The loop's \<open>positions\<close> map: a row with a known id takes the place of the earlier one.\<close>

definition hydrateEntry :: "timeline \<Rightarrow> timelineEntry \<Rightarrow> timeline" where
  "hydrateEntry es e =
     (case find_index (\<lambda>x. te_id x = te_id e) es of None \<Rightarrow> es @ [e] | Some k \<Rightarrow> es[k := e])"

text \<open>\<open>...(turnId ? { turnId } : {})\<close>.\<close>

definition when_truthy :: "string option \<Rightarrow> string option" where
  "when_truthy v = (if truthy v then v else None)"

definition reasoning_row :: "string option \<Rightarrow> hydratedMessage \<Rightarrow> timelineEntry" where
  "reasoning_row turn m =
     (entry (''reasoning:'' @ stableId m) KReasoning ''Reasoning''
        (case hm_reasoning_content m of None \<Rightarrow> [] | Some s \<Rightarrow> s) Complete)
       \<lparr>te_turnId := when_truthy turn\<rparr>"

definition role_kind :: "string \<Rightarrow> timelineKind" where
  "role_kind role =
     (if role = ''user'' then KUser else if role = ''assistant'' then KAssistant
      else if role = ''tool'' then KTool else KSystem)"

definition role_title :: "hydratedMessage \<Rightarrow> string" where
  "role_title m =
     (case role_kind (to_lower (hm_role m)) of
        KUser \<Rightarrow> ''You''
      | KAssistant \<Rightarrow> if hm_source m = Some ''background'' then ''Background agent'' else ''Octos''
      | KTool \<Rightarrow> ''Tool output''
      | _ \<Rightarrow> hm_role m)"

definition message_row :: "string option \<Rightarrow> bool \<Rightarrow> hydratedMessage \<Rightarrow> timelineEntry" where
  "message_row turn sole m =
     (let kind = role_kind (to_lower (hm_role m));
          chat = (kind = KUser \<or> kind = KAssistant);
          row = entry (if sole then ''user:'' @ the turn else ''hydrated:'' @ stableId m) kind (role_title m)
                  (if chat then hm_content m else appendMedia (hm_content m) (hm_media m)) Complete
      in (if chat then withMedia (hm_media m) row else row)
           \<lparr>te_serverTitle := (kind = KSystem), te_turnId := when_truthy turn,
            te_messageId := when_truthy (hm_message_id m)\<rparr>)"

definition hydrate_message ::
  "(string, string option) jsmap \<Rightarrow> (string, nat) jsmap \<Rightarrow> timeline \<Rightarrow> hydratedMessage \<Rightarrow> timeline" where
  "hydrate_message threads inputs es m =
     (let turn = messageTurnId threads m;
          es1 = (if truthy (hm_reasoning_content m) then hydrateEntry es (reasoning_row turn m) else es);
          sole = (to_lower (hm_role m) = ''user'' \<and> turn \<noteq> None \<and> map_get inputs (the turn) = Some 1)
      in hydrateEntry es1 (message_row turn sole m))"

definition hydrated_rows :: "sessionHydrateResult \<Rightarrow> timeline" where
  "hydrated_rows r =
     foldl (hydrate_message (turnByThread r) (userInputsByTurn (turnByThread r) (messages_of r))) []
       (sort_key hm_seq (messages_of r))"

section \<open>Stream identities of assistant rows\<close>

definition previous_claims :: "timeline \<Rightarrow> assistantClaim list" where
  "previous_claims es = List.map_filter (\<lambda>e.
     if te_kind e = KAssistant \<and> truthy (te_messageId e) \<and> truthy (te_turnId e) \<and> te_streamId e \<noteq> None
        \<and> starts_with (the (te_streamId e)) (''assistant:'' @ the (te_turnId e) @ '':'')
     then Some \<lparr>ac_messageId = the (te_messageId e), ac_turnId = the (te_turnId e),
                ac_streamId = the (te_streamId e)\<rparr>
     else None) es"

definition identity_claim :: "string \<times> string \<times> string \<Rightarrow> assistantClaim" where
  "identity_claim i = \<lparr>ac_messageId = fst i, ac_turnId = fst (snd i),
     ac_streamId = ''assistant:'' @ fst (snd i) @ '':'' @ snd (snd i)\<rparr>"

definition claims_of :: "hydrateIdentities \<Rightarrow> assistantClaim list" where
  "claims_of ids = previous_claims (hi_previous ids) @ map identity_claim (hi_identities ids)"

definition messageCounts :: "hydratedMessage list \<Rightarrow> (string, nat) jsmap" where
  "messageCounts ms = tally (List.map_filter (\<lambda>m. when_truthy (hm_message_id m)) ms)"

text \<open>One message, one turn and stream, in both directions.\<close>

definition claim_proven :: "hydratedMessage list \<Rightarrow> assistantClaim list \<Rightarrow> assistantClaim \<Rightarrow> bool" where
  "claim_proven ms cs c =
     (map_get (messageCounts ms) (ac_messageId c) = Some 1
      \<and> map_option length (map_get (group_sets (map (\<lambda>c. (ac_messageId c, (ac_turnId c, ac_streamId c))) cs))
          (ac_messageId c)) = Some 1
      \<and> map_option length (map_get (group_sets (map (\<lambda>c. (ac_streamId c, ac_messageId c)) cs))
          (ac_streamId c)) = Some 1)"

definition claim_row :: "assistantClaim \<Rightarrow> timelineEntry \<Rightarrow> timelineEntry" where
  "claim_row c e =
     (if te_kind e = KAssistant \<and> te_messageId e = Some (ac_messageId c) \<and> te_turnId e = Some (ac_turnId c)
      then e\<lparr>te_streamId := Some (ac_streamId c)\<rparr> else e)"

definition claim_streams :: "hydratedMessage list \<Rightarrow> assistantClaim list \<Rightarrow> timeline \<Rightarrow> timeline" where
  "claim_streams ms cs es =
     foldl (\<lambda>es c. if claim_proven ms cs c then map (claim_row c) es else es) es cs"

section \<open>The retained events\<close>

definition replayed_types :: "string list" where
  "replayed_types = [''tool_start'', ''tool_progress'', ''tool_end'', ''file_attached'', ''background/spawn_complete'']"

definition replay_order :: "projectionEnvelope \<Rightarrow> nat" where
  "replay_order e = (case pe_cursor e of None \<Rightarrow> pe_seq e | Some c \<Rightarrow> cur_seq c)"

definition events_or_none :: "projectionEnvelope list option \<Rightarrow> projectionEnvelope list" where
  "events_or_none v = (case v of None \<Rightarrow> [] | Some es \<Rightarrow> es)"

definition replayed_events :: "sessionHydrateResult \<Rightarrow> projectionEnvelope list" where
  "replayed_events r =
     sort_key replay_order (map_values (map_of_entries (map (\<lambda>e. ((pe_thread_id e, pe_seq e), e))
       (filter (\<lambda>e. pp_type (pe_payload e) \<in> set replayed_types) (projection_events r)
        @ events_or_none (hr_replayed_tool_envelopes r) @ events_or_none (hr_replayed_envelopes r)))))"

definition envelope_notification :: "projectionEnvelope \<Rightarrow> rpcNotification" where
  "envelope_notification e =
     \<lparr>nt_method = M_PROJECTION_ENVELOPE, nt_params = Some (encode_envelope e)\<rparr>"

definition fold_events :: "runtime \<Rightarrow> timeline \<Rightarrow> projectionEnvelope list \<Rightarrow> timeline" where
  "fold_events rt es evs = foldl (\<lambda>es e. foldNotification rt es (envelope_notification e)) es evs"

section \<open>Tool cards and raw tool messages\<close>

definition normalizedToolOutput :: "string \<Rightarrow> string" where
  "normalizedToolOutput v =
     (let t = trim v in if starts_with t ''Error:'' then dropWhile js_space (drop 6 t) else t)"

definition ends_with :: "string \<Rightarrow> string \<Rightarrow> bool" where
  "ends_with s p = starts_with (rev s) (rev p)"

text \<open>
  The preview that an agent completion cuts at 200 bytes and three dots. The other cut ends in one
  ellipsis character, which is outside the strings of this development.
\<close>

definition toolPreviewPrefix :: "string \<Rightarrow> string option" where
  "toolPreviewPrefix preview =
     (if \<not> ends_with preview ''...'' then None
      else let prefix = take (length preview - 3) preview;
               bytes = utf8_length prefix;
               normalized = trim prefix
           in if 197 \<le> bytes \<and> bytes \<le> 200 \<and> 80 \<le> utf8_length normalized then Some normalized else None)"

record toolCard =
  tk_card :: timelineEntry
  tk_candidates :: timeline

definition tool_call_id :: "projectionEnvelope \<Rightarrow> unknown" where
  "tool_call_id e = (case pp_data (pe_payload e) of JObj fs \<Rightarrow> fld fs ''tool_call_id'' | _ \<Rightarrow> None)"

definition output_preview :: "projectionEnvelope \<Rightarrow> string option" where
  "output_preview e =
     (case pp_data (pe_payload e) of JObj fs \<Rightarrow> as_string (fld fs ''output_preview'') | _ \<Rightarrow> None)"

definition note_start ::
  "(string, (string \<times> nat) option) jsmap \<Rightarrow> projectionEnvelope \<Rightarrow> (string, (string \<times> nat) option) jsmap"
  where
  "note_start m e =
     (if pp_type (pe_payload e) = ''tool_start'' \<and> as_string (tool_call_id e) \<noteq> None
      then note_unique m (toolEntryId (pe_turn_id e) (tool_call_id e)) (pe_thread_id e, pe_seq e)
      else m)"

definition tool_starts :: "projectionEnvelope list \<Rightarrow> (string, (string \<times> nat) option) jsmap" where
  "tool_starts evs = foldl note_start [] evs"

definition raw_tool_row :: "string \<Rightarrow> timelineEntry \<Rightarrow> bool" where
  "raw_tool_row t e \<longleftrightarrow> te_kind e = KTool \<and> starts_with (te_id e) ''hydrated:'' \<and> te_turnId e = Some t"

definition output_matches :: "string \<Rightarrow> string option \<Rightarrow> timelineEntry \<Rightarrow> bool" where
  "output_matches preview prefix e =
     (let output = normalizedToolOutput (te_body e)
      in output = preview \<or> 80 \<le> length preview \<and> starts_with output preview
         \<or> (case prefix of None \<Rightarrow> False | Some p \<Rightarrow> starts_with output p))"

definition note_card ::
  "timeline \<Rightarrow> (string, toolCard) jsmap \<Rightarrow> projectionEnvelope \<Rightarrow> (string, toolCard) jsmap" where
  "note_card es m e =
     (if pp_type (pe_payload e) \<noteq> ''tool_end'' then m
      else (case output_preview e of
              None \<Rightarrow> m
            | Some raw \<Rightarrow>
                (let preview = normalizedToolOutput raw;
                     toolId = toolEntryId (pe_turn_id e) (tool_call_id e)
                 in if preview = [] then m
                    else (case find_entry toolId es of
                            None \<Rightarrow> m
                          | Some row \<Rightarrow>
                              map_put toolId \<lparr>tk_card = row, tk_candidates =
                                filter (\<lambda>x. raw_tool_row (pe_turn_id e) x
                                  \<and> output_matches preview (toolPreviewPrefix raw) x) es\<rparr> m))))"

definition tool_cards :: "timeline \<Rightarrow> projectionEnvelope list \<Rightarrow> toolCard list" where
  "tool_cards es evs = map_values (foldl (note_card es) [] evs)"

definition candidate_owners :: "toolCard list \<Rightarrow> (string, nat) jsmap" where
  "candidate_owners cards = tally (concat (map (\<lambda>k. map te_id (tk_candidates k)) cards))"

text \<open>\<open>{ ...a, ...b }\<close>: the members of \<open>b\<close> where it has them.\<close>

definition spread :: "timelineEntry \<Rightarrow> timelineEntry \<Rightarrow> timelineEntry" where
  "spread a b = b\<lparr>te_serverTitle := te_serverTitle b \<or> te_serverTitle a,
     te_statusLabel := or_else (te_statusLabel b) (te_statusLabel a),
     te_turnId := or_else (te_turnId b) (te_turnId a),
     te_messageId := or_else (te_messageId b) (te_messageId a),
     te_streamId := or_else (te_streamId b) (te_streamId a),
     te_turnSettled := te_turnSettled b \<or> te_turnSettled a,
     te_toolSettled := te_toolSettled b \<or> te_toolSettled a,
     te_latestTurnOutcome := or_else (te_latestTurnOutcome b) (te_latestTurnOutcome a),
     te_turnUsage := or_else (te_turnUsage b) (te_turnUsage a),
     te_toolArguments := or_else (te_toolArguments b) (te_toolArguments a),
     te_textTerminal := or_else (te_textTerminal b) (te_textTerminal a),
     te_omittedCount := or_else (te_omittedCount b) (te_omittedCount a),
     te_media := or_else (te_media b) (te_media a),
     te_attachmentSizes := or_else (te_attachmentSizes b) (te_attachmentSizes a),
     te_artifactPath := or_else (te_artifactPath b) (te_artifactPath a),
     te_turnStartedAtMs := or_else (te_turnStartedAtMs b) (te_turnStartedAtMs a),
     te_turnEndedAtMs := or_else (te_turnEndedAtMs b) (te_turnEndedAtMs a),
     te_startedAtMs := or_else (te_startedAtMs b) (te_startedAtMs a),
     te_endedAtMs := or_else (te_endedAtMs b) (te_endedAtMs a)\<rparr>"

text \<open>The card's only candidate, when no other card has it too.\<close>

definition card_match :: "toolCard list \<Rightarrow> toolCard \<Rightarrow> timelineEntry option" where
  "card_match cards k =
     (case tk_candidates k of
        [m] \<Rightarrow> if map_get (candidate_owners cards) (te_id m) = Some 1 then Some m else None
      | _ \<Rightarrow> None)"

definition replacements :: "toolCard list \<Rightarrow> (string, timelineEntry) jsmap" where
  "replacements cards = foldl (\<lambda>m k.
     (case card_match cards k of
        None \<Rightarrow> m
      | Some row \<Rightarrow> map_put (te_id row) ((spread row (tk_card k))\<lparr>te_body := te_body row\<rparr>) m)) [] cards"

definition merged_cards :: "toolCard list \<Rightarrow> string list" where
  "merged_cards cards = map (\<lambda>k. te_id (tk_card k)) (filter (\<lambda>k. card_match cards k \<noteq> None) cards)"

definition replace_row :: "toolCard list \<Rightarrow> timelineEntry \<Rightarrow> timelineEntry" where
  "replace_row cards e = (case map_get (replacements cards) (te_id e) of None \<Rightarrow> e | Some x \<Rightarrow> x)"

definition merge_cards :: "toolCard list \<Rightarrow> timeline \<Rightarrow> timeline" where
  "merge_cards cards es =
     map (replace_row cards) (filter (\<lambda>e. te_id e \<notin> set (merged_cards cards)) es)"

text \<open>The start of a merged card, when its thread and position are known.\<close>

definition card_start ::
  "string list \<Rightarrow> (string, (string \<times> nat) option) jsmap \<Rightarrow> timelineEntry \<Rightarrow> (string \<times> nat) option" where
  "card_start merged starts e =
     (if te_id e \<in> set merged then (case map_get starts (te_id e) of Some (Some s) \<Rightarrow> Some s | _ \<Rightarrow> None)
      else None)"

definition same_group ::
  "(timelineEntry \<Rightarrow> (string \<times> nat) option) \<Rightarrow> timelineEntry \<Rightarrow> timelineEntry \<Rightarrow> bool" where
  "same_group st first e =
     (te_turnId e = te_turnId first \<and> st e \<noteq> None \<and> map_option fst (st e) = map_option fst (st first))"

definition start_seq :: "(timelineEntry \<Rightarrow> (string \<times> nat) option) \<Rightarrow> timelineEntry \<Rightarrow> nat" where
  "start_seq st e = (case st e of None \<Rightarrow> 0 | Some s \<Rightarrow> snd s)"

text \<open>Consecutive identified cards of one turn and thread take the order of their starts.\<close>

function order_cards :: "(timelineEntry \<Rightarrow> (string \<times> nat) option) \<Rightarrow> timeline \<Rightarrow> timeline" where
  "order_cards st [] = []"
| "order_cards st (e # es) =
     (if st e = None then e # order_cards st es
      else sort_key (start_seq st) (e # takeWhile (same_group st e) es)
           @ order_cards st (dropWhile (same_group st e) es))"
  by pat_completeness auto
termination
  by (relation "measure (\<lambda>(st, es). length es)") (auto simp: le_imp_less_Suc length_dropWhile_le)

definition coalesceHydratedTools :: "timeline \<Rightarrow> projectionEnvelope list \<Rightarrow> timeline" where
  "coalesceHydratedTools es evs =
     (let cards = tool_cards es evs
      in order_cards (card_start (merged_cards cards) (tool_starts evs)) (merge_cards cards es))"

section \<open>What the previous transcript still knows\<close>

definition keep_artifacts :: "timeline \<Rightarrow> timeline \<Rightarrow> timeline" where
  "keep_artifacts previous es =
     (let paths = map_of_entries (List.map_filter (\<lambda>e.
            if truthy (te_artifactPath e) then Some (te_id e, the (te_artifactPath e)) else None) previous)
      in map (\<lambda>e. case map_get paths (te_id e) of
               None \<Rightarrow> e
             | Some p \<Rightarrow> if truthy (te_artifactPath e) then e else e\<lparr>te_artifactPath := Some p\<rparr>) es)"

definition sizes_of :: "timelineEntry \<Rightarrow> (string, jnum) jsmap" where
  "sizes_of e = (case te_attachmentSizes e of None \<Rightarrow> [] | Some m \<Rightarrow> m)"

definition keep_sizes_row :: "(string, jnum) jsmap \<Rightarrow> timelineEntry \<Rightarrow> timelineEntry" where
  "keep_sizes_row known e =
     (let retained = map_of_entries (List.map_filter (\<lambda>path. map_option (Pair path) (map_get known path))
            (case te_media e of None \<Rightarrow> [] | Some ps \<Rightarrow> ps))
      in if retained = [] then e
         else e\<lparr>te_attachmentSizes :=
                  Some (foldl (\<lambda>m kv. map_put (fst kv) (snd kv) m) retained (sizes_of e))\<rparr>)"

definition keep_sizes :: "timeline \<Rightarrow> timeline \<Rightarrow> timeline" where
  "keep_sizes previous es =
     map (keep_sizes_row (map_of_entries (concat (map sizes_of previous)))) es"

section \<open>The turns the server has finished\<close>

definition finished_states :: "string list" where
  "finished_states = [''completed'', ''errored'', ''interrupted'']"

definition terminalTurns :: "sessionHydrateResult \<Rightarrow> (string, string) jsmap" where
  "terminalTurns r = map_of_entries (map (\<lambda>t. (ht_turn_id t, ht_state t))
     (filter (\<lambda>t. ht_state t \<in> set finished_states) (turns_of r)))"

definition turn_outcome :: "(string, string) jsmap \<Rightarrow> string option \<Rightarrow> string option" where
  "turn_outcome outcomes turn = (if truthy turn then map_get outcomes (the turn) else None)"

text \<open>Rows that still run in a finished turn are swept, turn by turn.\<close>

definition sweep_finished :: "runtime \<Rightarrow> (string, string) jsmap \<Rightarrow> timeline \<Rightarrow> timeline" where
  "sweep_finished rt outcomes es =
     foldl (\<lambda>es turn. case turn_outcome outcomes turn of
              None \<Rightarrow> es
            | Some oc \<Rightarrow> sweepTurnStreamtails rt es (the turn) oc) es
       (map fst (tally (map te_turnId (filter (\<lambda>e. te_status e = Running) es))))"

definition find_last_index :: "('a \<Rightarrow> bool) \<Rightarrow> 'a list \<Rightarrow> nat option" where
  "find_last_index P xs = map_option (\<lambda>k. length xs - 1 - k) (find_index P (rev xs))"

definition turnOrder :: "sessionHydrateResult \<Rightarrow> (string, nat) jsmap" where
  "turnOrder r = map_of_entries (map (\<lambda>it. (ht_turn_id (snd it), fst it)) (enumerate 0 (turns_of r)))"

definition later_turn :: "(string, nat) jsmap \<Rightarrow> string \<Rightarrow> timelineEntry \<Rightarrow> bool" where
  "later_turn order t e =
     (truthy (te_turnId e) \<and>
      (case (map_get order (the (te_turnId e)), map_get order t) of
         (Some n, Some own) \<Rightarrow> own < n
       | _ \<Rightarrow> False))"

text \<open>
  A turn that failed or was stopped without a terminal row gets one, in front of the first row of a
  later turn that stands behind the turn's own rows.
\<close>

definition unfinished_body :: "string \<Rightarrow> string" where
  "unfinished_body oc =
     (if oc = ''interrupted'' then ''This turn was stopped before it completed.''
      else ''This turn failed before it completed.'')"

definition add_terminal ::
  "runtime \<Rightarrow> (string, nat) jsmap \<Rightarrow> timeline \<Rightarrow> string \<times> string \<Rightarrow> timeline" where
  "add_terminal rt order es to =
     (let t = fst to; oc = snd to
      in if oc = ''completed'' \<or> list_ex (\<lambda>e. te_id e = terminal_id t) es then es
         else let from = (case find_last_index (\<lambda>e. te_turnId e = Some t) es of None \<Rightarrow> 0 | Some k \<Rightarrow> k + 1);
                  settled = settleTimelineTurn rt es t oc (unfinished_body oc) None
              in case find_index (later_turn order t) (drop from settled) of
                   None \<Rightarrow> settled
                 | Some k \<Rightarrow> insert_at (from + k) (last settled) (butlast settled))"

definition fence_row :: "(string, string) jsmap \<Rightarrow> timelineEntry \<Rightarrow> timelineEntry" where
  "fence_row outcomes e =
     (case turn_outcome outcomes (te_turnId e) of
        None \<Rightarrow> e
      | Some oc \<Rightarrow> e\<lparr>te_turnSettled := True, te_textTerminal := Some oc\<rparr>)"

definition outcome_row :: "bool \<Rightarrow> hydratedTurn \<Rightarrow> timelineEntry \<Rightarrow> timelineEntry" where
  "outcome_row finished latest e =
     (let base = (if starts_with (te_id e) ''terminal:'' then e else e\<lparr>te_latestTurnOutcome := None\<rparr>)
      in if finished \<and> te_turnId e = Some (ht_turn_id latest)
         then base\<lparr>te_latestTurnOutcome := Some (ht_state latest)\<rparr> else base)"

definition withHydratedTurnOutcome :: "timeline \<Rightarrow> sessionHydrateResult \<Rightarrow> timeline" where
  "withHydratedTurnOutcome es r =
     (if turns_of r = [] then es
      else let latest = last (turns_of r)
           in map (outcome_row (ht_state latest \<in> set finished_states) latest) es)"

definition withoutHydratedTiming :: "timeline \<Rightarrow> timeline" where
  "withoutHydratedTiming es = map (\<lambda>e. e\<lparr>te_startedAtMs := None, te_endedAtMs := None\<rparr>) es"

definition parsed_time :: "runtime \<Rightarrow> string option \<Rightarrow> int option" where
  "parsed_time rt v = (if truthy v then rt_date_parse rt (the v) else None)"

definition timing_row :: "runtime \<Rightarrow> (string, hydratedTurn) jsmap \<Rightarrow> timelineEntry \<Rightarrow> timelineEntry" where
  "timing_row rt turns e =
     (case (if truthy (te_turnId e) then map_get turns (the (te_turnId e)) else None) of
        None \<Rightarrow> e
      | Some t \<Rightarrow>
          e\<lparr>te_turnStartedAtMs := or_else (parsed_time rt (ht_started_at t)) (te_turnStartedAtMs e),
            te_turnEndedAtMs := or_else
              (if ht_completed_at_durable t = Some True then parsed_time rt (ht_completed_at t) else None)
              (te_turnEndedAtMs e)\<rparr>)"

definition withHydratedTurnTiming :: "runtime \<Rightarrow> timeline \<Rightarrow> sessionHydrateResult \<Rightarrow> timeline" where
  "withHydratedTurnTiming rt es r =
     map (timing_row rt (map_of_entries (map (\<lambda>t. (ht_turn_id t, t)) (turns_of r)))) es"

definition with_hydrated_marks :: "runtime \<Rightarrow> timeline \<Rightarrow> sessionHydrateResult \<Rightarrow> timeline" where
  "with_hydrated_marks rt es r =
     withHydratedTurnTiming rt (withoutHydratedTiming (withHydratedTurnOutcome es r)) r"

section \<open>The whole restoration\<close>

definition settle_finished :: "runtime \<Rightarrow> sessionHydrateResult \<Rightarrow> timeline \<Rightarrow> timeline" where
  "settle_finished rt r es =
     (let outcomes = terminalTurns r
      in map (fence_row outcomes)
           (foldl (add_terminal rt (turnOrder r)) (sweep_finished rt outcomes es) outcomes))"

definition restored_tools :: "runtime \<Rightarrow> sessionHydrateResult \<Rightarrow> hydrateIdentities \<Rightarrow> timeline" where
  "restored_tools rt r ids =
     (let evs = replayed_events r
      in coalesceHydratedTools
           (fold_events rt (claim_streams (messages_of r) (claims_of ids) (hydrated_rows r)) evs) evs)"

definition timelineFromHydrate :: "runtime \<Rightarrow> sessionHydrateResult \<Rightarrow> hydrateIdentities \<Rightarrow> timeline" where
  "timelineFromHydrate rt r ids =
     with_hydrated_marks rt
       (settle_finished rt r
          (keep_sizes (hi_previous ids) (keep_artifacts (hi_previous ids) (restored_tools rt r ids)))) r"

section \<open>Row identities of a restored transcript\<close>

lemma map_ids: "(\<And>e. te_id (f e) = te_id e) \<Longrightarrow> map te_id (map f es) = map te_id es"
  by simp

lemma row_frame [simp]:
  "te_id (claim_row c e) = te_id e" "te_id (keep_sizes_row m e) = te_id e" "te_id (fence_row oc e) = te_id e"
  "te_id (outcome_row b l e) = te_id e" "te_id (timing_row rt ts e) = te_id e"
  "te_body (claim_row c e) = te_body e" "te_body (keep_sizes_row m e) = te_body e"
  "te_body (fence_row oc e) = te_body e" "te_body (outcome_row b l e) = te_body e"
  "te_body (timing_row rt ts e) = te_body e"
  "te_turnId (outcome_row b l e) = te_turnId e" "te_turnId (timing_row rt ts e) = te_turnId e"
  "te_textTerminal (outcome_row b l e) = te_textTerminal e" "te_textTerminal (timing_row rt ts e) = te_textTerminal e"
  by (simp_all add: claim_row_def keep_sizes_row_def fence_row_def outcome_row_def timing_row_def Let_def
      split: option.split)

lemma hydrateEntry_ok:
  assumes "timeline_ok es" and "row_ok e"
  shows "timeline_ok (hydrateEntry es e)"
proof (cases "find_index (\<lambda>x. te_id x = te_id e) es")
  case None
  then have "hydrateEntry es e = es @ [e]" by (simp add: hydrateEntry_def)
  moreover have "\<forall>x \<in> set es. te_id x \<noteq> te_id e" using None by (simp add: find_index_None)
  ultimately show ?thesis using assms by (auto simp: timeline_ok_def)
next
  case (Some k)
  from find_index_splitD [OF Some] obtain ys x zs
    where s: "es = ys @ x # zs" "length ys = k" "te_id x = te_id e" by auto
  with Some have "hydrateEntry es e = ys @ e # zs" by (auto simp: hydrateEntry_def)
  with assms s show ?thesis by (auto simp: timeline_ok_def)
qed

lemma message_row_plain [simp]:
  "row_ok (message_row turn sole m)" "row_ok (reasoning_row turn m)"
  by (simp_all add: message_row_def reasoning_row_def row_ok_def Let_def)

text \<open>Before the tools are folded, no row has a reserved id.\<close>

definition plain_rows :: "timeline \<Rightarrow> bool" where
  "plain_rows es \<longleftrightarrow> distinct (map te_id es) \<and> list_all plain_id (map te_id es)"

lemma plain_rows_ok: "plain_rows es \<Longrightarrow> timeline_ok es"
  by (auto simp: plain_rows_def timeline_ok_def list_all_iff)

lemma hydrateEntry_plain:
  assumes "plain_rows es" and "plain_id (te_id e)"
  shows "plain_rows (hydrateEntry es e)"
  using assms hydrateEntry_ok [OF plain_rows_ok, of es e]
  by (auto simp: plain_rows_def timeline_ok_def hydrateEntry_def list_all_iff
      dest!: subsetD [OF set_update_subset_insert] split: option.split)

lemma hydrate_message_plain: "plain_rows es \<Longrightarrow> plain_rows (hydrate_message th inp es m)"
  by (simp add: hydrate_message_def Let_def hydrateEntry_plain message_row_def reasoning_row_def)

lemma hydrated_rows_plain: "plain_rows (hydrated_rows r)"
proof -
  have "plain_rows es \<Longrightarrow> plain_rows (foldl (hydrate_message th inp) es ms)" for es ms th inp
    by (induction ms arbitrary: es) (simp_all add: hydrate_message_plain)
  then show ?thesis by (simp add: hydrated_rows_def plain_rows_def)
qed

lemma claim_streams_ids: "map te_id (claim_streams ms cs es) = map te_id es"
proof -
  have "map te_id (foldl (\<lambda>es c. if P c then map (claim_row c) es else es) es cs) = map te_id es" for P
    by (induction cs arbitrary: es) (simp_all add: comp_def)
  then show ?thesis by (simp add: claim_streams_def)
qed

lemma fold_events_run: "fold_events rt es evs = fold_run es (map (\<lambda>e. (rt, envelope_notification e)) evs)"
  by (induction evs arbitrary: es) (simp_all add: fold_events_def fold_step_def)

lemma fold_events_ok: "timeline_ok es \<Longrightarrow> timeline_ok (fold_events rt es evs)"
  by (simp add: fold_events_run transcript.run_ok)

section \<open>Merging cards\<close>

lemma order_cards_mset: "mset (order_cards st es) = mset es"
proof (induction st es rule: order_cards.induct)
  case (2 st e es)
  have "mset (takeWhile P es) + mset (dropWhile P es) = mset es" for P
    by (metis mset_append takeWhile_dropWhile_id)
  with 2 show ?case by simp
qed simp

lemma order_cards_set: "set (order_cards st es) = set es"
  using order_cards_mset [of st es] by (metis set_mset_mset)

lemma tool_cards_keys:
  assumes "distinct (map te_id es)"
  shows "distinct (map (\<lambda>k. te_id (tk_card k)) (tool_cards es evs))
    \<and> list_all (\<lambda>k. tk_card k \<in> set es \<and> set (tk_candidates k) \<subseteq> {e \<in> set es. te_kind e = KTool
          \<and> starts_with (te_id e) ''hydrated:''}
        \<and> starts_with (te_id (tk_card k)) ''tool:'') (tool_cards es evs)"
proof -
  define good where "good i k \<longleftrightarrow> te_id (tk_card k) = i \<and> tk_card k \<in> set es
      \<and> set (tk_candidates k) \<subseteq> {e \<in> set es. te_kind e = KTool \<and> starts_with (te_id e) ''hydrated:''}
      \<and> starts_with i ''tool:''" for i and k :: toolCard
  define inv where "inv m \<longleftrightarrow> map_ok m \<and> (\<forall>x \<in> set m. good (fst x) (snd x))" for m :: "(string, toolCard) jsmap"
  have put: "inv (map_put i k m)" if "inv m" "good i k" for m i k
    using that set_map_put [of i k m] by (auto simp: inv_def)
  have card: "good i \<lparr>tk_card = row, tk_candidates = filter (\<lambda>x. raw_tool_row t x \<and> Q x) es\<rparr>"
    if "find_entry i es = Some row" "starts_with i ''tool:''" for i row t Q
    using find_entry_SomeD [OF that(1)] that(2) by (auto simp: good_def raw_tool_row_def)
  have "inv (note_card es m e)" if "inv m" for m e
    using that by (auto simp: note_card_def Let_def intro!: put card split: option.split)
  then have "inv m \<Longrightarrow> inv (foldl (note_card es) m evs)" for m
    by (induction evs arbitrary: m) simp_all
  moreover have "inv []" by (simp add: inv_def)
  ultimately have i: "inv (foldl (note_card es) [] evs)" by blast
  let ?m = "foldl (note_card es) [] evs"
  have eq: "map (\<lambda>x. te_id (tk_card (snd x))) ?m = map fst ?m"
    using i by (auto simp: inv_def good_def)
  have "distinct (map (\<lambda>x. te_id (tk_card (snd x))) ?m)"
    unfolding eq using i by (simp add: inv_def map_ok_def map_keys_def)
  moreover have "good (fst x) (snd x)" if "x \<in> set ?m" for x using i that by (simp add: inv_def)
  ultimately show ?thesis
    using i by (auto simp: tool_cards_def map_values_def inv_def map_ok_def map_keys_def list_all_iff good_def comp_def)
qed

lemma spread_simps [simp]:
  "te_id (spread a b) = te_id b" "te_kind (spread a b) = te_kind b" "te_body (spread a b) = te_body b"
  "te_status (spread a b) = te_status b" "te_title (spread a b) = te_title b"
  by (simp_all add: spread_def)

text \<open>A replaced raw row carries the card's id and its own text, and the card is the only one.\<close>

lemma replacements_Some:
  assumes "map_get (replacements cards) i = Some x"
  shows "\<exists>k \<in> set cards. \<exists>row. card_match cards k = Some row \<and> te_id row = i
    \<and> x = (spread row (tk_card k))\<lparr>te_body := te_body row\<rparr>"
proof -
  let ?step = "\<lambda>m k. case card_match cards k of None \<Rightarrow> m
      | Some row \<Rightarrow> map_put (te_id row) ((spread row (tk_card k))\<lparr>te_body := te_body row\<rparr>) m"
  let ?from = "\<lambda>ks x. \<exists>k \<in> set ks. \<exists>row. card_match cards k = Some row \<and> te_id row = i
      \<and> x = (spread row (tk_card k))\<lparr>te_body := te_body row\<rparr>"
  have "map_get (foldl ?step m ks) i = Some x \<Longrightarrow> ?from ks x \<or> map_get m i = Some x" for m ks
  proof (induction ks arbitrary: m)
    case (Cons k ks)
    then have "?from ks x \<or> map_get (?step m k) i = Some x" by simp
    then show ?case by (cases "card_match cards k") (auto simp: map_get_put split: if_splits)
  qed simp
  from this [of "[]" cards] assms show ?thesis by (simp add: replacements_def map_get_def)
qed

lemma replacements_of:
  assumes "k \<in> set cards" and "card_match cards k = Some row"
  shows "map_get (replacements cards) (te_id row) \<noteq> None"
proof -
  let ?step = "\<lambda>m k. case card_match cards k of None \<Rightarrow> m
      | Some row \<Rightarrow> map_put (te_id row) ((spread row (tk_card k))\<lparr>te_body := te_body row\<rparr>) m"
  have "k \<in> set ks \<or> map_get m (te_id row) \<noteq> None \<Longrightarrow> map_get (foldl ?step m ks) (te_id row) \<noteq> None" for m ks
    by (induction ks arbitrary: m) (use assms(2) in \<open>auto simp: map_get_put split: option.split\<close>)
  with assms(1) show ?thesis by (simp add: replacements_def)
qed

lemma count_list_concat_map:
  "count_list (concat (map f ks)) x = sum_list (map (\<lambda>k. count_list (f k) x) ks)"
  by (induction ks) simp_all

lemma count_list_ge: "x \<in> set xs \<Longrightarrow> 1 \<le> count_list xs x"
  by (induction xs) auto

lemma card_match_alone:
  assumes "card_match cards k = Some row" and "card_match cards k' = Some row'" and "te_id row' = te_id row"
    and "k \<in> set cards" and "k' \<in> set cards"
  shows "k = k'"
proof (rule ccontr)
  assume ne: "k \<noteq> k'"
  let ?f = "\<lambda>k. count_list (map te_id (tk_candidates k)) (te_id row)"
  have k: "tk_candidates k = [row]" "tk_candidates k' = [row']" "map_get (candidate_owners cards) (te_id row) = Some 1"
    using assms(1,2) by (auto simp: card_match_def split: list.splits if_splits)
  then have "sum_list (map ?f cards) = 1"
    by (simp add: candidate_owners_def tally_count count_list_concat_map split: if_splits)
  moreover have "?f k = 1" "?f k' = 1" using k assms(3) by simp_all
  moreover have "?f k + ?f k' \<le> sum_list (map ?f cards)" using assms(4,5) ne
  proof (induction cards)
    case (Cons c cs)
    have "x \<in> set cs \<Longrightarrow> ?f x \<le> sum_list (map ?f cs)" for x
      by (rule member_le_sum_list) simp_all
    with Cons show ?case by fastforce
  qed simp
  ultimately show False by simp
qed

lemma merge_cards_ids:
  assumes es: "distinct (map te_id es)" and cards: "cards = tool_cards es evs"
  shows "distinct (map te_id (merge_cards cards es))"
proof -
  let ?keep = "filter (\<lambda>e. te_id e \<notin> set (merged_cards cards)) es"
  have keys: "inj_on (\<lambda>k. te_id (tk_card k)) (set cards)"
    using tool_cards_keys [OF es, of evs] cards by (simp add: distinct_map)
  have replaced: "\<exists>k \<in> set cards. \<exists>row. card_match cards k = Some row \<and> te_id row = te_id e
      \<and> te_id (replace_row cards e) = te_id (tk_card k)"
    if "replace_row cards e \<noteq> e" for e
  proof -
    from that obtain x where x: "map_get (replacements cards) (te_id e) = Some x"
      by (cases "map_get (replacements cards) (te_id e)") (simp_all add: replace_row_def)
    from replacements_Some [OF this] x show ?thesis by (fastforce simp: replace_row_def)
  qed
  have merged: "te_id (tk_card k) \<in> set (merged_cards cards)" if "k \<in> set cards" "card_match cards k = Some row" for k row
    using that by (auto simp: merged_cards_def)
  have "inj_on (\<lambda>e. te_id (replace_row cards e)) (set ?keep)"
  proof (rule inj_onI)
    fix a b assume ab: "a \<in> set ?keep" "b \<in> set ?keep" "te_id (replace_row cards a) = te_id (replace_row cards b)"
    have "te_id a = te_id b"
    proof (cases "replace_row cards a = a"; cases "replace_row cards b = b")
      assume ne: "replace_row cards a \<noteq> a" "replace_row cards b \<noteq> b"
      from replaced [OF ne(1)] obtain k row where k: "k \<in> set cards" "card_match cards k = Some row"
        "te_id row = te_id a" "te_id (replace_row cards a) = te_id (tk_card k)" by blast
      from replaced [OF ne(2)] obtain k' row' where k': "k' \<in> set cards" "card_match cards k' = Some row'"
        "te_id row' = te_id b" "te_id (replace_row cards b) = te_id (tk_card k')" by blast
      from ab(3) k k' keys have "k = k'" by (auto dest: inj_onD)
      with k k' show ?thesis by simp
    next
      assume "replace_row cards a = a" "replace_row cards b \<noteq> b"
      with replaced [of b] merged ab show ?thesis by fastforce
    next
      assume "replace_row cards a \<noteq> a" "replace_row cards b = b"
      with replaced [of a] merged ab show ?thesis by fastforce
    qed (use ab(3) in simp)
    then show "a = b" using ab(1,2) es by (auto simp: distinct_map dest: inj_onD)
  qed
  moreover have "distinct ?keep" using es by (simp add: distinct_map)
  ultimately show ?thesis by (simp add: merge_cards_def distinct_map comp_inj_on_iff comp_def)
qed

lemma coalesce_ids:
  "distinct (map te_id es) \<Longrightarrow> distinct (map te_id (coalesceHydratedTools es evs))"
proof -
  assume es: "distinct (map te_id es)"
  have "mset (map te_id (coalesceHydratedTools es evs)) = mset (map te_id (merge_cards (tool_cards es evs) es))"
    by (simp add: coalesceHydratedTools_def Let_def order_cards_mset)
  with merge_cards_ids [OF es refl] show ?thesis by (metis mset_eq_imp_distinct_iff)
qed

section \<open>Settling the finished turns\<close>

lemma upsert_distinct: "distinct (map te_id es) \<Longrightarrow> distinct (map te_id (upsert es new))"
  by (cases rule: upsert_cases [of es new]) auto

lemma sweep_distinct: "distinct (map te_id es) \<Longrightarrow> distinct (map te_id (sweepTurnStreamtails rt es t oc))"
  unfolding sweepTurnStreamtails_def Let_def
  by (subst map_filter_ids) (auto simp: distinct_map_filter split: if_splits)

lemma settle_distinct: "distinct (map te_id es) \<Longrightarrow> distinct (map te_id (settleTimelineTurn rt es t oc b u))"
  by (simp add: settleTimelineTurn_def Let_def upsert_distinct sweep_distinct)

text \<open>Rows under a terminal id are system rows, so no sweep drops them.\<close>

definition terminals_ok :: "timeline \<Rightarrow> bool" where
  "terminals_ok es \<longleftrightarrow> distinct (map te_id es)
     \<and> (\<forall>e \<in> set es. starts_with (te_id e) ''terminal:'' \<longrightarrow> te_kind e = KSystem)"

lemma swept_row_kind [simp]: "te_kind (swept_row rt oc e) = te_kind e"
  by (simp add: swept_row_def Let_def close_timing_def)

lemma sweep_terminals_ok: "terminals_ok es \<Longrightarrow> terminals_ok (sweepTurnStreamtails rt es t oc)"
  by (auto simp: terminals_ok_def sweep_distinct sweep_member)

lemma sweep_terminal_row:
  assumes "terminals_ok es" and "terminal_row es t'"
  shows "terminal_row (sweepTurnStreamtails rt es t oc) t'"
proof -
  from assms(2) obtain e where e: "e \<in> set es" "te_id e = terminal_id t'"
    by (auto simp: terminal_row_def list_ex_iff)
  with assms(1) have "te_kind e = KSystem" by (simp add: terminals_ok_def terminal_id_def)
  with e have "e \<in> set (sweepTurnStreamtails rt es t oc)" unfolding sweep_member by (auto simp: sweepable_def)
  with e(2) show ?thesis by (auto simp: terminal_row_def list_ex_iff)
qed

lemma upsert_keeps_terminals:
  "terminals_ok es \<Longrightarrow> te_kind new = KSystem \<Longrightarrow> terminals_ok (upsert es new)"
  "terminal_row es t \<Longrightarrow> terminal_row (upsert es new) t"
  by (cases rule: upsert_cases [of es new]; force simp: terminals_ok_def terminal_row_def)+

lemma settle_terminals:
  assumes "terminals_ok es"
  shows "terminals_ok (settleTimelineTurn rt es t oc b u)"
    and "terminal_row es t' \<Longrightarrow> terminal_row (settleTimelineTurn rt es t oc b u) t'"
  using assms
  by (auto simp: settleTimelineTurn_def Let_def intro!: upsert_keeps_terminals sweep_terminals_ok sweep_terminal_row)

lemma move_last:
  assumes "xs \<noteq> []" and "k \<le> length (butlast xs)"
  shows "mset (insert_at k (last xs) (butlast xs)) = mset xs"
proof -
  have "mset xs = mset (butlast xs @ [last xs])" using assms(1) by simp
  moreover have "mset (butlast xs) = mset (take k (butlast xs)) + mset (drop k (butlast xs))"
    by (metis append_take_drop_id mset_append)
  ultimately show ?thesis by (simp add: insert_at_def)
qed

lemma terminals_mset:
  assumes "mset es' = mset es"
  shows "terminals_ok es' = terminals_ok es" and "terminal_row es' t = terminal_row es t"
proof -
  have "distinct (map te_id es') = distinct (map te_id es)"
    using assms by (metis mset_eq_imp_distinct_iff mset_map)
  moreover have "set es' = set es" using assms by (metis set_mset_mset)
  ultimately show "terminals_ok es' = terminals_ok es" and "terminal_row es' t = terminal_row es t"
    by (simp_all add: terminals_ok_def terminal_row_def list_ex_iff)
qed

text \<open>An added terminal is the settled transcript, rearranged.\<close>

lemma add_terminal_cases:
  "add_terminal rt order es (t, oc) = es \<and> (oc = ''completed'' \<or> terminal_row es t)
   \<or> mset (add_terminal rt order es (t, oc)) = mset (settleTimelineTurn rt es t oc (unfinished_body oc) None)"
proof (cases "oc = ''completed'' \<or> terminal_row es t")
  case True
  then show ?thesis by (auto simp: add_terminal_def terminal_row_def Let_def)
next
  case False
  let ?s = "settleTimelineTurn rt es t oc (unfinished_body oc) None"
  have "terminal_row ?s t" by (rule settleTimelineTurn_terminal)
  then have "?s \<noteq> []" by (auto simp: terminal_row_def)
  moreover have "n + k \<le> length (butlast ?s)" if "find_index P (drop n ?s) = Some k" for P n k
    using find_index_Some [OF that] by auto
  ultimately have "mset (add_terminal rt order es (t, oc)) = mset ?s"
    using False by (auto simp: add_terminal_def terminal_row_def Let_def move_last split: option.split)
  then show ?thesis ..
qed

lemma add_terminal_keeps:
  assumes "terminals_ok es"
  shows "terminals_ok (add_terminal rt order es to)"
    and "terminal_row es t' \<Longrightarrow> terminal_row (add_terminal rt order es to) t'"
    and "snd to \<noteq> ''completed'' \<Longrightarrow> terminal_row (add_terminal rt order es to) (fst to)"
proof -
  obtain t oc where to: "to = (t, oc)" by (rule prod.exhaust)
  note settled = settle_terminals [OF assms, where rt = rt and t = t and oc = oc and b = "unfinished_body oc" and u = None]
  have "terminals_ok (add_terminal rt order es to)
      \<and> (terminal_row es t' \<longrightarrow> terminal_row (add_terminal rt order es to) t')
      \<and> (oc \<noteq> ''completed'' \<longrightarrow> terminal_row (add_terminal rt order es to) t)"
    using add_terminal_cases [of rt order es t oc]
  proof
    assume "mset (add_terminal rt order es (t, oc)) = mset (settleTimelineTurn rt es t oc (unfinished_body oc) None)"
    from terminals_mset [OF this] settled settleTimelineTurn_terminal show ?thesis by (simp add: to)
  qed (use assms in \<open>auto simp: to\<close>)
  then show "terminals_ok (add_terminal rt order es to)"
    and "terminal_row es t' \<Longrightarrow> terminal_row (add_terminal rt order es to) t'"
    and "snd to \<noteq> ''completed'' \<Longrightarrow> terminal_row (add_terminal rt order es to) (fst to)"
    by (simp_all add: to)
qed

lemma add_terminals:
  "terminals_ok es \<Longrightarrow> terminals_ok (foldl (add_terminal rt order) es tos)
     \<and> (terminal_row es t \<or> (\<exists>oc. (t, oc) \<in> set tos \<and> oc \<noteq> ''completed'')
        \<longrightarrow> terminal_row (foldl (add_terminal rt order) es tos) t)"
proof (induction tos arbitrary: es)
  case (Cons to tos)
  note step = add_terminal_keeps [OF Cons.prems, where rt = rt and order = order and to = to]
  from Cons.IH [OF step(1)] step(2,3) show ?case by (cases to) auto
qed simp

lemma sweep_finished_ok: "terminals_ok es \<Longrightarrow> terminals_ok (sweep_finished rt oc es)"
proof -
  have "terminals_ok es \<Longrightarrow> terminals_ok (foldl (\<lambda>es turn. case turn_outcome oc turn of None \<Rightarrow> es
      | Some o' \<Rightarrow> sweepTurnStreamtails rt es (the turn) o') es ts)" for ts es
    by (induction ts arbitrary: es) (simp_all add: sweep_terminals_ok split: option.split)
  then show "terminals_ok es \<Longrightarrow> terminals_ok (sweep_finished rt oc es)" by (simp add: sweep_finished_def)
qed

lemma map_terminals:
  assumes "\<And>e. te_id (f e) = te_id e \<and> te_kind (f e) = te_kind e"
  shows "terminals_ok (map f es) = terminals_ok es" and "terminal_row (map f es) t = terminal_row es t"
  using assms by (simp_all add: terminals_ok_def terminal_row_def list_ex_iff comp_def)

lemma tool_not_terminal: "starts_with i ''tool:'' \<Longrightarrow> \<not> starts_with i ''terminal:''"
  by (cases i; cases "tl i") auto

lemma tool_not_hydrated: "starts_with i ''hydrated:'' \<Longrightarrow> \<not> starts_with i ''tool:''"
  by (cases i) auto

lemma merge_cards_terminals:
  assumes "timeline_ok es"
  shows "terminals_ok (coalesceHydratedTools es evs)"
proof -
  let ?cards = "tool_cards es evs"
  have es: "distinct (map te_id es)" using assms by (simp add: timeline_ok_def)
  have "te_kind (replace_row ?cards e) = KSystem"
    if "e \<in> set es" "starts_with (te_id (replace_row ?cards e)) ''terminal:''" for e
  proof (cases "map_get (replacements ?cards) (te_id e)")
    case None
    then have "replace_row ?cards e = e" by (simp add: replace_row_def)
    with that assms show ?thesis by (auto simp: timeline_ok_def list_all_iff row_ok_def)
  next
    case (Some x)
    then obtain k row where "k \<in> set ?cards" "x = (spread row (tk_card k))\<lparr>te_body := te_body row\<rparr>"
      by (blast dest: replacements_Some)
    with Some that(2) tool_cards_keys [OF es, of evs] tool_not_terminal [of "te_id (tk_card k)"] show ?thesis
      by (simp add: replace_row_def list_all_iff)
  qed
  then have "terminals_ok (merge_cards ?cards es)"
    using merge_cards_ids [OF es refl, of evs] by (auto simp: terminals_ok_def merge_cards_def)
  then show ?thesis
    by (simp add: coalesceHydratedTools_def Let_def terminals_mset(1) [OF order_cards_mset])
qed

lemma restored_tools_ok: "terminals_ok (restored_tools rt r ids)"
proof -
  have "plain_rows (claim_streams (messages_of r) (claims_of ids) (hydrated_rows r))"
    using hydrated_rows_plain [of r] by (simp add: plain_rows_def claim_streams_ids)
  then show ?thesis
    by (simp add: restored_tools_def Let_def merge_cards_terminals fold_events_ok plain_rows_ok)
qed

section \<open>Properties\<close>

lemma marks_ids: "map te_id (with_hydrated_marks rt es r) = map te_id es"
  by (simp add: with_hydrated_marks_def withHydratedTurnTiming_def withoutHydratedTiming_def
      withHydratedTurnOutcome_def Let_def comp_def)

lemma keep_ids: "map te_id (keep_artifacts p es) = map te_id es" "map te_id (keep_sizes p es) = map te_id es"
  by (auto simp: keep_artifacts_def keep_sizes_def Let_def split: option.split)

lemma kept_terminals_ok:
  assumes "terminals_ok es"
  shows "terminals_ok (keep_sizes p (keep_artifacts p es))"
proof -
  have "terminals_ok (keep_sizes p es) = terminals_ok es" for es
    unfolding keep_sizes_def by (rule map_terminals(1)) (simp add: keep_sizes_row_def Let_def)
  moreover have "terminals_ok (keep_artifacts p es) = terminals_ok es" for es
    unfolding keep_artifacts_def Let_def by (rule map_terminals(1)) (simp split: option.split)
  ultimately show ?thesis using assms by simp
qed

lemma settle_finished_ok:
  assumes "terminals_ok es"
  shows "terminals_ok (settle_finished rt r es)"
    and "(t, oc) \<in> set (terminalTurns r) \<Longrightarrow> oc \<noteq> ''completed'' \<Longrightarrow> terminal_row (settle_finished rt r es) t"
proof -
  have f: "te_id (fence_row m e) = te_id e \<and> te_kind (fence_row m e) = te_kind e" for m e
    by (simp add: fence_row_def split: option.split)
  note s = add_terminals [OF sweep_finished_ok [OF assms, of rt "terminalTurns r"], of rt "turnOrder r" "terminalTurns r" t]
  show "terminals_ok (settle_finished rt r es)"
    and "(t, oc) \<in> set (terminalTurns r) \<Longrightarrow> oc \<noteq> ''completed'' \<Longrightarrow> terminal_row (settle_finished rt r es) t"
    using s by (auto simp: settle_finished_def Let_def map_terminals [OF f])
qed

text \<open>
  C16: The transcript that \<open>timelineFromHydrate\<close> restores (the restorer of a Session until the
  canonical one is loaded, and the rows the canonical one starts from) never shows two rows under one
  id: whatever messages, turns, retained events and previous rows a hydrate result brings, and however
  tool cards are merged into raw tool messages, its row ids are distinct. What the canonical restorer
  adds to these rows is not covered: for a turn in two threads it does repeat ids.
\<close>
theorem restored_rows_distinct: "distinct (map te_id (timelineFromHydrate rt r ids))"
proof -
  have "terminals_ok (settle_finished rt r
      (keep_sizes (hi_previous ids) (keep_artifacts (hi_previous ids) (restored_tools rt r ids))))"
    by (intro settle_finished_ok kept_terminals_ok restored_tools_ok)
  then show ?thesis by (simp add: timelineFromHydrate_def marks_ids terminals_ok_def)
qed

text \<open>
  C15: Coalescing loses no output. After tool cards are merged into raw tool messages, every row of
  the transcript is still there with its text, except a card, which is then there under its own id
  with its status and the full text of a persisted tool message instead of its preview.
\<close>
theorem coalescing_keeps_output:
  assumes es: "distinct (map te_id es)"
  shows "\<forall>e \<in> set es.
      (\<exists>e' \<in> set (coalesceHydratedTools es evs). te_body e' = te_body e \<and> (te_id e' = te_id e \<or> te_kind e = KTool))
    \<or> (\<exists>e' \<in> set (coalesceHydratedTools es evs). \<exists>raw \<in> set es. te_id e' = te_id e \<and> te_status e' = te_status e
        \<and> te_kind e' = te_kind e \<and> starts_with (te_id raw) ''hydrated:'' \<and> te_body e' = te_body raw)"
proof
  fix e assume e: "e \<in> set es"
  let ?cards = "tool_cards es evs"
  let ?out = "coalesceHydratedTools es evs"
  have cards: "tk_card k \<in> set es" "set (tk_candidates k) \<subseteq> {e \<in> set es. te_kind e = KTool
      \<and> starts_with (te_id e) ''hydrated:''}" "starts_with (te_id (tk_card k)) ''tool:''" if "k \<in> set ?cards" for k
    using tool_cards_keys [OF es, of evs] that by (auto simp: list_all_iff)
  have same: "x = y" if "x \<in> set es" "y \<in> set es" "te_id x = te_id y" for x y
    using that es by (auto simp: distinct_map dest: inj_onD)
  have raw: "row \<in> set es" "te_kind row = KTool" "starts_with (te_id row) ''hydrated:''"
    "te_id row \<notin> set (merged_cards ?cards)" if "k \<in> set ?cards" "card_match ?cards k = Some row" for k row
  proof -
    have "row \<in> set (tk_candidates k)" using that(2) by (auto simp: card_match_def split: list.splits if_splits)
    with cards(2) [OF that(1)] show row: "row \<in> set es" "te_kind row = KTool" "starts_with (te_id row) ''hydrated:''"
      by auto
    show "te_id row \<notin> set (merged_cards ?cards)"
      using tool_not_hydrated [OF row(3)] cards(3) by (auto simp: merged_cards_def)
  qed
  have out: "replace_row ?cards x \<in> set ?out" if "x \<in> set es" "te_id x \<notin> set (merged_cards ?cards)" for x
    using that by (simp add: coalesceHydratedTools_def Let_def order_cards_set merge_cards_def)
  show "(\<exists>e' \<in> set ?out. te_body e' = te_body e \<and> (te_id e' = te_id e \<or> te_kind e = KTool))
    \<or> (\<exists>e' \<in> set ?out. \<exists>raw \<in> set es. te_id e' = te_id e \<and> te_status e' = te_status e \<and> te_kind e' = te_kind e
        \<and> starts_with (te_id raw) ''hydrated:'' \<and> te_body e' = te_body raw)"
  proof (cases "te_id e \<in> set (merged_cards ?cards)")
    case True
    then obtain k row where k: "k \<in> set ?cards" "card_match ?cards k = Some row" "te_id (tk_card k) = te_id e"
      by (auto simp: merged_cards_def)
    note row = raw [OF k(1,2)]
    from replacements_of [OF k(1,2)] obtain x where x: "map_get (replacements ?cards) (te_id row) = Some x" by blast
    from replacements_Some [OF x] obtain k' row' where k': "k' \<in> set ?cards" "card_match ?cards k' = Some row'"
      "te_id row' = te_id row" "x = (spread row' (tk_card k'))\<lparr>te_body := te_body row'\<rparr>" by blast
    have "k' = k" using card_match_alone [OF k(2) k'(2,3) k(1) k'(1)] ..
    with k(2) k'(2) have "x = (spread row (tk_card k))\<lparr>te_body := te_body row\<rparr>" using k'(4) by simp
    moreover have "tk_card k = e" using same [OF cards(1) [OF k(1)] e k(3)] .
    moreover have "x \<in> set ?out" using out [OF row(1,4)] x by (simp add: replace_row_def)
    ultimately show ?thesis using row(1,3) by (intro disjI2 bexI [of _ x] bexI [of _ row]) simp_all
  next
    case False
    have "te_body (replace_row ?cards e) = te_body e \<and> (te_id (replace_row ?cards e) = te_id e \<or> te_kind e = KTool)"
    proof (cases "map_get (replacements ?cards) (te_id e)")
      case None
      then show ?thesis by (simp add: replace_row_def)
    next
      case (Some x)
      from replacements_Some [OF Some] obtain k row where k: "k \<in> set ?cards" "card_match ?cards k = Some row"
        "te_id row = te_id e" "te_body x = te_body row" by auto
      with same [OF raw(1) [OF k(1,2)] e k(3)] raw(2) [OF k(1,2)] Some show ?thesis by (simp add: replace_row_def)
    qed
    with out [OF e False] show ?thesis by blast
  qed
qed

text \<open>
  C17: A turn that the server reports as finished takes no text after a reload. In the restored
  transcript, a delta of a turn that failed or was stopped, or of a completed turn that has a row,
  changes nothing.
\<close>
theorem restored_turn_ignores_deltas:
  assumes "map_get (terminalTurns r) t = Some oc"
    and "oc \<noteq> ''completed'' \<or> t \<noteq> [] \<and> list_ex (\<lambda>e. te_turnId e = Some t) (timelineFromHydrate rt r ids)"
    and "deltaTurnId n = Some t"
  shows "foldNotification rt' (timelineFromHydrate rt r ids) n = timelineFromHydrate rt r ids"
proof (rule terminal_blocks_deltas [OF _ assms(3)])
  let ?k = "keep_sizes (hi_previous ids) (keep_artifacts (hi_previous ids) (restored_tools rt r ids))"
  have mem: "(t, oc) \<in> set (terminalTurns r)"
    using assms(1) map_ok_entries map_ok_member unfolding terminalTurns_def by metis
  let ?es = "settle_finished rt r ?k"
  have kept: "terminals_ok ?k" by (intro kept_terminals_ok restored_tools_ok)
  have marks: "\<exists>e' \<in> set (with_hydrated_marks rt ?es r). te_id e' = te_id e \<and> te_turnId e' = te_turnId e
      \<and> te_textTerminal e' = te_textTerminal e" if "e \<in> set ?es" for e
    using that by (auto simp: with_hydrated_marks_def withHydratedTurnTiming_def withoutHydratedTiming_def
        withHydratedTurnOutcome_def Let_def)
  have origin: "\<exists>e \<in> set ?es. te_turnId e = te_turnId e'" if "e' \<in> set (with_hydrated_marks rt ?es r)" for e'
    using that by (fastforce simp: with_hydrated_marks_def withHydratedTurnTiming_def withoutHydratedTiming_def
        withHydratedTurnOutcome_def Let_def split: if_splits)
  show "hasTerminal (timelineFromHydrate rt r ids) t"
  proof (cases "oc = ''completed''")
    case False
    with settle_finished_ok(2) [OF kept mem] obtain e where "e \<in> set ?es" "te_id e = terminal_id t"
      by (auto simp: terminal_row_def list_ex_iff)
    with marks show ?thesis by (fastforce simp: timelineFromHydrate_def hasTerminal_def list_ex_iff)
  next
    case True
    with assms(2) obtain e' where e': "e' \<in> set (with_hydrated_marks rt ?es r)" "te_turnId e' = Some t" "t \<noteq> []"
      by (auto simp: timelineFromHydrate_def list_ex_iff)
    from origin [OF e'(1)] e'(2,3) obtain e where e: "e \<in> set ?es" "te_turnId e = Some t" "t \<noteq> []" by auto
    then obtain e0 where "e = fence_row (terminalTurns r) e0" by (auto simp: settle_finished_def Let_def)
    moreover have "te_turnId (fence_row m x) = te_turnId x" for m x by (simp add: fence_row_def split: option.split)
    ultimately have "te_textTerminal e \<noteq> None"
      using e(2,3) assms(1) by (simp add: fence_row_def turn_outcome_def truthy_def)
    with marks [OF e(1)] e(2) show ?thesis by (fastforce simp: timelineFromHydrate_def hasTerminal_def list_ex_iff)
  qed
qed

text \<open>A stopped turn: its prompt, a raw tool message, and the retained events of the tool call.\<close>

definition tool_event :: "nat \<Rightarrow> string \<Rightarrow> fields \<Rightarrow> projectionEnvelope" where
  "tool_event n type data = \<lparr>pe_session_id = ''s'', pe_thread_id = ''th'', pe_seq = n, pe_turn_id = ''t'',
     pe_payload = \<lparr>pp_type = type, pp_data = JObj data\<rparr>, pe_topic = None, pe_client_message_id = None,
     pe_cursor = None\<rparr>"

definition persisted_message :: "nat \<Rightarrow> string \<Rightarrow> string \<Rightarrow> hydratedMessage" where
  "persisted_message n role content = \<lparr>hm_seq = n, hm_role = role, hm_content = content, hm_persisted_at = [],
     hm_media = [], hm_turn_id = Some ''t'', hm_thread_id = None, hm_client_message_id = None,
     hm_reasoning_content = None, hm_message_id = None, hm_source = None\<rparr>"

definition stopped_session :: sessionHydrateResult where
  "stopped_session = \<lparr>hr_session_id = ''s'', hr_cursor = \<lparr>cur_stream = ''e'', cur_seq = 9\<rparr>,
     hr_context = None, hr_context_state = None,
     hr_messages = Some [persisted_message 1 ''user'' ''list files'', persisted_message 2 ''tool'' ''a.ts''],
     hr_file_mutations = None, hr_threads = None,
     hr_turns = Some [\<lparr>ht_turn_id = ''t'', ht_state = ''interrupted'', ht_started_at = None,
       ht_completed_at = None, ht_thread_id = Some ''th'', ht_completed_at_durable = None\<rparr>],
     hr_pending_approvals = None, hr_pending_questions = None,
     hr_replayed_envelopes = None, hr_replayed_tool_envelopes = Some
       [tool_event 1 ''tool_start'' [(''tool_call_id'', JStr ''c''), (''name'', JStr ''ls'')],
        tool_event 2 ''tool_end'' [(''tool_call_id'', JStr ''c''), (''status'', JStr ''complete''),
          (''output_preview'', JStr ''a.ts'')]],
     hr_replayed_projection_envelopes = None, hr_projection_thread_sequences = None\<rparr>"

definition no_identities :: hydrateIdentities where
  "no_identities = \<lparr>hi_previous = [], hi_identities = []\<rparr>"

definition stopped_folded :: timeline where
  "stopped_folded = fold_events sample_runtime (hydrated_rows stopped_session) (replayed_events stopped_session)"

lemma stopped_transcript:
  "map (\<lambda>e. (te_id e, te_body e)) (timelineFromHydrate sample_runtime stopped_session no_identities)
     = [(''user:t'', ''list files''), (''tool:t:c'', ''a.ts''),
        (''terminal:t'', ''This turn was stopped before it completed.'')]"
  by code_simp

lemma coalescing_keeps_output_witness:
  "let es = stopped_folded; out = coalesceHydratedTools es (replayed_events stopped_session) in
     map te_id es = [''user:t'', ''hydrated:session:2'', ''tool:t:c''] \<and> map te_id out = [''user:t'', ''tool:t:c'']
     \<and> (\<forall>e \<in> set es. (\<exists>e' \<in> set out. te_body e' = te_body e \<and> (te_id e' = te_id e \<or> te_kind e = KTool))
       \<or> (\<exists>e' \<in> set out. \<exists>raw \<in> set es. te_id e' = te_id e \<and> te_status e' = te_status e \<and> te_kind e' = te_kind e
            \<and> starts_with (te_id raw) ''hydrated:'' \<and> te_body e' = te_body raw))"
proof -
  have ids: "map te_id stopped_folded = [''user:t'', ''hydrated:session:2'', ''tool:t:c'']"
    "map te_id (coalesceHydratedTools stopped_folded (replayed_events stopped_session)) = [''user:t'', ''tool:t:c'']"
    by code_simp+
  then have "distinct (map te_id stopped_folded)" by simp
  from coalescing_keeps_output [OF this] ids show ?thesis unfolding Let_def by blast
qed

definition late_delta :: rpcNotification where
  "late_delta = envelope_notification (tool_event 9 ''assistant_delta'' [(''text'', JStr ''more'')])"

lemma restored_turn_ignores_deltas_witness:
  "foldNotification sample_runtime (timelineFromHydrate sample_runtime stopped_session no_identities) late_delta
     = timelineFromHydrate sample_runtime stopped_session no_identities"
proof (rule restored_turn_ignores_deltas)
  show "map_get (terminalTurns stopped_session) ''t'' = Some ''interrupted''" by code_simp
  show "deltaTurnId late_delta = Some ''t''" by code_simp
qed simp

end
