(* ===== verification/CanonicalRestore.thy ===== *)
theory CanonicalRestore
  imports TimelineRestore
begin

text \<open>
  The transcript of a Session whose retained event stream is complete,
  \<open>features/timeline/canonical-hydrate.ts\<close>: the rows restored from the persisted messages are
  matched one to one with the rows that the events fold to, keep their own ids and texts, and take
  the order of the events.
\<close>

section \<open>Which thread a row belongs to\<close>

definition push_key :: "('k, 'v list) jsmap \<Rightarrow> 'k \<Rightarrow> 'v \<Rightarrow> ('k, 'v list) jsmap" where
  "push_key m k v = map_put k ((case map_get m k of None \<Rightarrow> [] | Some vs \<Rightarrow> vs) @ [v]) m"

definition listed :: "('k, 'v list) jsmap \<Rightarrow> 'k \<Rightarrow> 'v list" where
  "listed m k = (case map_get m k of None \<Rightarrow> [] | Some vs \<Rightarrow> vs)"

definition event_threads :: "projectionEnvelope list \<Rightarrow> (string, projectionEnvelope list) jsmap" where
  "event_threads evs = foldl (\<lambda>m e. push_key m (pe_thread_id e) e) [] evs"

definition event_message :: "projectionEnvelope \<Rightarrow> string option" where
  "event_message e =
     (case as_record (Some (pp_data (pe_payload e))) of
        None \<Rightarrow> None
      | Some data \<Rightarrow>
          if pp_type (pe_payload e) = ''assistant_persisted''
          then (case as_record (fld data ''meta'') of
                  None \<Rightarrow> None | Some meta \<Rightarrow> as_string (fld meta ''message_id''))
          else if pp_type (pe_payload e) = ''background/spawn_complete''
          then as_string (fld data ''message_id'') else None)"

definition threadByTurn :: "projectionEnvelope list \<Rightarrow> (string, string option) jsmap" where
  "threadByTurn evs = foldl (\<lambda>m e. note_unique m (pe_turn_id e) (pe_thread_id e)) [] evs"

definition threadByMessage :: "projectionEnvelope list \<Rightarrow> (string, string option) jsmap" where
  "threadByMessage evs = foldl (\<lambda>m e. case event_message e of
     None \<Rightarrow> m | Some i \<Rightarrow> note_unique m i (pe_thread_id e)) [] evs"

definition threadByEntry :: "hydratedMessage list \<Rightarrow> (string, string) jsmap" where
  "threadByEntry ms = foldl (\<lambda>m msg.
     if \<not> truthy (hm_thread_id msg) then m
     else map_put (''reasoning:'' @ stableId msg) (the (hm_thread_id msg))
            (map_put (''hydrated:'' @ stableId msg) (the (hm_thread_id msg)) m)) [] ms"

definition clientByEntry :: "hydratedMessage list \<Rightarrow> (string, string) jsmap" where
  "clientByEntry ms = foldl (\<lambda>m msg.
     if \<not> truthy (hm_client_message_id msg) then m
     else map_put (''hydrated:'' @ stableId msg) (the (hm_client_message_id msg)) m) [] ms"

definition entryThread :: "sessionHydrateResult \<Rightarrow> timelineEntry \<Rightarrow> string option" where
  "entryThread r e =
     (let evs = projection_events r
      in case (if truthy (te_messageId e) then map_get (threadByMessage evs) (the (te_messageId e)) else None) of
           Some thread \<Rightarrow> thread
         | None \<Rightarrow>
             (case (if truthy (te_turnId e) then map_get (threadByTurn evs) (the (te_turnId e)) else None) of
                Some (Some thread) \<Rightarrow> Some thread
              | _ \<Rightarrow> map_get (threadByEntry (messages_of r)) (te_id e)))"

section \<open>Matching the rows of a complete thread\<close>

datatype sourceKey = ById string | ByMessage string | ByClient string | ByBody timelineKind string

definition is_chat :: "timelineEntry \<Rightarrow> bool" where
  "is_chat e = (te_kind e = KUser \<or> te_kind e = KAssistant)"

definition bodyKey :: "timelineEntry \<Rightarrow> sourceKey" where
  "bodyKey e = ByBody (te_kind e) (te_body e)"

definition source_keys :: "(string, string) jsmap \<Rightarrow> timelineEntry \<Rightarrow> sourceKey list" where
  "source_keys clients s =
     (let client = (if te_kind s = KUser then map_get clients (te_id s) else None)
      in [ById (te_id s)]
         @ (if truthy (te_messageId s) then [ByMessage (the (te_messageId s))] else [])
         @ (if truthy client then [ByClient (the client)] else [])
         @ (if is_chat s then [bodyKey s] else []))"

definition sourceIndex :: "(string, string) jsmap \<Rightarrow> timeline \<Rightarrow> (sourceKey, timeline) jsmap" where
  "sourceIndex clients sources =
     foldl (\<lambda>m s. foldl (\<lambda>m k. push_key m k s) m (source_keys clients s)) [] sources"

definition clientByEvent :: "projectionEnvelope list \<Rightarrow> (string, string) jsmap" where
  "clientByEvent evs = map_of_entries (List.map_filter (\<lambda>e.
     if truthy (pe_client_message_id e)
     then Some (''user-event:'' @ stringify_pair (pe_thread_id e) (pe_seq e), the (pe_client_message_id e))
     else None) evs)"

definition replay_keys :: "(string, string) jsmap \<Rightarrow> timelineEntry \<Rightarrow> sourceKey list" where
  "replay_keys clients e =
     (let client = (if te_kind e = KUser \<and> truthy (te_streamId e) then map_get clients (the (te_streamId e)) else None)
      in [ById (te_id e)]
         @ (if truthy (te_messageId e) then [ByMessage (the (te_messageId e))] else [])
         @ (if truthy client then [ByClient (the client)] else []))"

text \<open>\<open>[...new Set(xs)]\<close>: the first occurrences.\<close>

definition first_occurrences :: "'a list \<Rightarrow> 'a list" where
  "first_occurrences xs = rev (remdups (rev xs))"

definition proposal ::
  "(sourceKey, timeline) jsmap \<Rightarrow> (string, string) jsmap \<Rightarrow> (sourceKey, nat) jsmap \<Rightarrow> timelineEntry \<Rightarrow> timeline"
  where
  "proposal index clients bodyCounts e =
     (let exact = first_occurrences (concat (map (listed index) (replay_keys clients e)))
      in if exact \<noteq> [] then exact
         else if \<not> is_chat e \<or> map_get bodyCounts (bodyKey e) \<noteq> Some 1 then []
         else listed index (bodyKey e))"

definition merged_row :: "timelineEntry \<Rightarrow> timelineEntry \<Rightarrow> timelineEntry" where
  "merged_row s e =
     (spread (s\<lparr>te_serverTitle := False\<rparr>) e)
       \<lparr>te_id := te_id s,
        te_body := (if te_kind e = KSystem then if te_body e = [] then te_body s else te_body e else te_body s),
        te_streamId := (if te_kind e = KAssistant
                        then Some (case te_streamId e of None \<Rightarrow> te_id e | Some i \<Rightarrow> i)
                        else or_else (te_streamId e) (te_streamId s))\<rparr>"

text \<open>A replayed row with its candidates: the only one, when no other row proposes it.\<close>

definition replay_match :: "(string, nat) jsmap \<Rightarrow> timeline \<Rightarrow> timelineEntry option" where
  "replay_match claims candidates =
     (case candidates of
        [s] \<Rightarrow> if map_get claims (te_id s) = Some 1 then Some s else None
      | _ \<Rightarrow> None)"

definition proposals ::
  "(string, string) jsmap \<Rightarrow> projectionEnvelope list \<Rightarrow> timeline \<Rightarrow> timeline \<Rightarrow> (timelineEntry \<times> timeline) list"
  where
  "proposals clients evs sources replay =
     (let index = sourceIndex clients sources;
          bodyCounts = tally (map bodyKey (filter is_chat replay))
      in map (\<lambda>e. (e, proposal index (clientByEvent evs) bodyCounts e)) replay)"

definition claims_on :: "(timelineEntry \<times> timeline) list \<Rightarrow> (string, nat) jsmap" where
  "claims_on ps = tally (concat (map (\<lambda>p. map te_id (snd p)) ps))"

text \<open>The replayed rows with the source that each of them is matched with.\<close>

definition matches :: "(timelineEntry \<times> timeline) list \<Rightarrow> (timelineEntry \<times> timelineEntry option) list" where
  "matches ps = map (\<lambda>p. (fst p, replay_match (claims_on ps) (snd p))) ps"

definition merged_rows :: "(timelineEntry \<times> timelineEntry option) list \<Rightarrow> timeline" where
  "merged_rows ms = map (\<lambda>m. case snd m of None \<Rightarrow> fst m | Some s \<Rightarrow> merged_row s (fst m)) ms"

definition matched_ids :: "(timelineEntry \<times> timelineEntry option) list \<Rightarrow> string list" where
  "matched_ids ms = List.map_filter (\<lambda>m. map_option te_id (snd m)) ms"

section \<open>One thread after the other\<close>

record canonicalState =
  cs_updates :: "(string, timelineEntry option) jsmap"
  cs_aliases :: "(string, string) jsmap"
  cs_extras :: timeline
  cs_complete :: "projectionEnvelope list"
  cs_fallback :: timeline

definition thread_complete :: "sessionHydrateResult \<Rightarrow> string \<Rightarrow> projectionEnvelope list \<Rightarrow> bool" where
  "thread_complete r thread evs =
     ((case hr_projection_thread_sequences r of None \<Rightarrow> None | Some m \<Rightarrow> map_get m thread) = Some (length evs)
      \<and> map pe_seq evs = [1..<length evs + 1])"

definition reasoning_text :: "timeline \<Rightarrow> string" where
  "reasoning_text es = concat (map te_body (filter (\<lambda>e. te_kind e = KReasoning) es))"

definition drop_reasoning ::
  "timeline \<Rightarrow> timeline \<Rightarrow> (string, timelineEntry option) jsmap \<Rightarrow> (string, timelineEntry option) jsmap" where
  "drop_reasoning replay sources updates =
     (if reasoning_text replay \<noteq> [] \<and> reasoning_text replay = reasoning_text sources
      then foldl (\<lambda>m s. if te_kind s = KReasoning then map_put (te_id s) None m else m) updates sources
      else updates)"

definition restore_thread ::
  "runtime \<Rightarrow> sessionHydrateResult \<Rightarrow> timeline \<Rightarrow> canonicalState \<Rightarrow> string \<times> projectionEnvelope list \<Rightarrow> canonicalState"
  where
  "restore_thread rt r durable st te =
     (let thread = fst te; evs = sort_key pe_seq (snd te)
      in if \<not> thread_complete r thread evs
         then st\<lparr>cs_fallback := fold_events rt (cs_fallback st)
                   (filter (\<lambda>e. pp_type (pe_payload e) = ''turn_terminal'') evs)\<rparr>
         else let sources = filter (\<lambda>e. entryThread r e = Some thread) durable;
                  replay = fold_events rt [] evs;
                  ms = matches (proposals (clientByEntry (messages_of r)) evs sources replay);
                  ids = matched_ids ms
              in st\<lparr>cs_complete := cs_complete st @ evs,
                    cs_aliases := foldl (\<lambda>m p. case snd p of None \<Rightarrow> m
                       | Some s \<Rightarrow> map_put (te_id s) (te_id (fst p)) m) (cs_aliases st) ms,
                    cs_updates := foldl (\<lambda>m e. if te_id e \<in> set ids then map_put (te_id e) (Some e) m else m)
                       (drop_reasoning replay sources (cs_updates st)) (merged_rows ms),
                    cs_extras := cs_extras st @ filter (\<lambda>e. te_id e \<notin> set ids) (merged_rows ms)\<rparr>)"

section \<open>The order of the rows\<close>

text \<open>\<open>Array.prototype.sort\<close> with a comparator: stable.\<close>

fun insert_by :: "('a \<Rightarrow> 'a \<Rightarrow> int) \<Rightarrow> 'a \<Rightarrow> 'a list \<Rightarrow> 'a list" where
  "insert_by cmp x [] = [x]"
| "insert_by cmp x (y # ys) = (if cmp x y \<le> 0 then x # y # ys else y # insert_by cmp x ys)"

definition sort_by :: "('a \<Rightarrow> 'a \<Rightarrow> int) \<Rightarrow> 'a list \<Rightarrow> 'a list" where
  "sort_by cmp xs = foldr (insert_by cmp) xs []"

definition compare_events :: "projectionEnvelope \<Rightarrow> projectionEnvelope \<Rightarrow> int" where
  "compare_events a b =
     (case (pe_cursor a, pe_cursor b) of
        (Some ca, Some cb) \<Rightarrow> int (cur_seq ca) - int (cur_seq cb)
      | _ \<Rightarrow> if pe_thread_id a = pe_thread_id b then int (pe_seq a) - int (pe_seq b) else 0)"

definition replayOrder :: "runtime \<Rightarrow> canonicalState \<Rightarrow> (string, nat) jsmap" where
  "replayOrder rt st =
     foldl (\<lambda>m ia. case map_get m (snd ia) of None \<Rightarrow> m | Some k \<Rightarrow> map_put (fst ia) k m)
       (map_of_entries (map (\<lambda>ke. (te_id (snd ke), fst ke))
          (enumerate 0 (fold_events rt [] (sort_by compare_events (cs_complete st))))))
       (cs_aliases st)"

definition order_of :: "(string, nat) jsmap \<Rightarrow> timelineEntry \<Rightarrow> nat" where
  "order_of order e = (case map_get order (te_id e) of None \<Rightarrow> 0 | Some n \<Rightarrow> n)"

definition updated_row :: "(string, timelineEntry option) jsmap \<Rightarrow> string \<Rightarrow> bool" where
  "updated_row updates i = (case map_get updates i of Some (Some _) \<Rightarrow> True | _ \<Rightarrow> False)"

definition anchors_of :: "(string, nat) jsmap \<Rightarrow> canonicalState \<Rightarrow> timeline" where
  "anchors_of order st =
     sort_key (order_of order)
       (filter (\<lambda>e. te_kind e \<noteq> KUser \<and> updated_row (cs_updates st) (te_id e) \<and> map_has order (te_id e))
          (cs_fallback st))"

text \<open>The extra rows in the order of their events; a row without one comes last.\<close>

definition compare_extras :: "(string, nat) jsmap \<Rightarrow> timelineEntry \<Rightarrow> timelineEntry \<Rightarrow> int" where
  "compare_extras order a b =
     (case (map_get order (te_id a), map_get order (te_id b)) of
        (Some m, Some n) \<Rightarrow> int m - int n
      | (Some _, None) \<Rightarrow> -1
      | (None, Some _) \<Rightarrow> 1
      | (None, None) \<Rightarrow> 0)"

definition anchor_before :: "(string, nat) jsmap \<Rightarrow> timelineEntry \<Rightarrow> timelineEntry \<Rightarrow> bool" where
  "anchor_before order e a =
     (case map_get order (te_id e) of None \<Rightarrow> True | Some n \<Rightarrow> order_of order a < n)"

record extraPlaces =
  xp_before :: "(string, timeline) jsmap"
  xp_after :: "(string, timeline) jsmap"
  xp_unanchored :: timeline

text \<open>\<open>rest\<close>: the anchors from \<open>anchorIndex\<close> on; \<open>final\<close>: the last anchor, if there is any.\<close>

fun place_extras ::
  "(string, nat) jsmap \<Rightarrow> timelineEntry option \<Rightarrow> timeline \<Rightarrow> timeline \<Rightarrow> extraPlaces \<Rightarrow> extraPlaces" where
  "place_extras order final rest [] p = p"
| "place_extras order final rest (e # es) p =
     (let ahead = dropWhile (anchor_before order e) rest
      in place_extras order final ahead es
           (case ahead of
              a # _ \<Rightarrow> p\<lparr>xp_before := push_key (xp_before p) (te_id a) e\<rparr>
            | [] \<Rightarrow>
                (case final of
                   None \<Rightarrow> p\<lparr>xp_unanchored := xp_unanchored p @ [e]\<rparr>
                 | Some a \<Rightarrow> p\<lparr>xp_after := push_key (xp_after p) (te_id a) e\<rparr>)))"

text \<open>The slots of the anchors are filled with the anchors in their new order.\<close>

fun fill_slots :: "string list \<Rightarrow> timeline \<Rightarrow> timeline \<Rightarrow> timeline" where
  "fill_slots ids anchors [] = []"
| "fill_slots ids anchors (e # es) =
     (if te_id e \<in> set ids
      then (case anchors of [] \<Rightarrow> fill_slots ids [] es | a # as \<Rightarrow> a # fill_slots ids as es)
      else e # fill_slots ids anchors es)"

definition emit_row :: "canonicalState \<Rightarrow> extraPlaces \<Rightarrow> timelineEntry \<Rightarrow> timeline" where
  "emit_row st p e =
     listed (xp_before p) (te_id e)
     @ (case map_get (cs_updates st) (te_id e) of
          None \<Rightarrow> [e] | Some None \<Rightarrow> [] | Some (Some u) \<Rightarrow> [u])
     @ listed (xp_after p) (te_id e)"

text \<open>A recovered terminal does not stay below the prompt of another turn that came after it.\<close>

definition later_prompt :: "(string, nat) jsmap \<Rightarrow> timelineEntry \<Rightarrow> nat \<Rightarrow> timelineEntry \<Rightarrow> bool" where
  "later_prompt order term n e =
     (te_kind e = KUser \<and> truthy (te_turnId e) \<and> te_turnId e \<noteq> te_turnId term
      \<and> (case map_get order (te_id e) of None \<Rightarrow> False | Some k \<Rightarrow> n < k))"

definition place_terminal :: "(string, nat) jsmap \<Rightarrow> timeline \<Rightarrow> string \<Rightarrow> timeline" where
  "place_terminal order es i =
     (case (find_index (\<lambda>e. te_id e = i) es, map_get order i) of
        (Some from, Some n) \<Rightarrow>
          (case find_index (later_prompt order (es ! from) n) (take from es) of
             None \<Rightarrow> es
           | Some slot \<Rightarrow> insert_at slot (es ! from) (remove_at from es))
      | _ \<Rightarrow> es)"

definition restoreCanonicalHydrate :: "runtime \<Rightarrow> sessionHydrateResult \<Rightarrow> timeline \<Rightarrow> timeline" where
  "restoreCanonicalHydrate rt r durable =
     (let st = foldl (restore_thread rt r durable)
                 \<lparr>cs_updates = [], cs_aliases = [], cs_extras = [], cs_complete = [], cs_fallback = durable\<rparr>
                 (event_threads (projection_events r));
          order = replayOrder rt st;
          anchors = anchors_of order st;
          extras = sort_by (compare_extras order) (cs_extras st);
          places = place_extras order (if anchors = [] then None else Some (last anchors)) anchors extras
                     \<lparr>xp_before = [], xp_after = [], xp_unanchored = []\<rparr>;
          rows = concat (map (emit_row st places) (fill_slots (map te_id anchors) anchors (cs_fallback st)))
      in foldl (place_terminal order) (rows @ xp_unanchored places)
           (first_occurrences (map te_id (filter (\<lambda>e. starts_with (te_id e) ''terminal:'') extras))))"

definition timelineFromCanonicalHydrate ::
  "runtime \<Rightarrow> sessionHydrateResult \<Rightarrow> hydrateIdentities \<Rightarrow> timeline" where
  "timelineFromCanonicalHydrate rt r ids =
     with_hydrated_marks rt (restoreCanonicalHydrate rt r (timelineFromHydrate rt r ids)) r"

section \<open>Matching is one to one\<close>

lemma listed_push: "listed (push_key m k v) k' = (if k' = k then listed m k @ [v] else listed m k')"
  by (auto simp: listed_def push_key_def map_get_put split: option.split)

lemma listed_source_index:
  "set (listed (sourceIndex clients sources) k) = {s \<in> set sources. k \<in> set (source_keys clients s)}"
proof -
  have keys: "set (listed (foldl (\<lambda>m k. push_key m k s) m ks) k)
      = set (listed m k) \<union> (if k \<in> set ks then {s} else {})" for s m ks
    by (induction ks arbitrary: m) (auto simp: listed_push)
  have "set (listed (foldl (\<lambda>m s. foldl (\<lambda>m k. push_key m k s) m (source_keys clients s)) m ss) k)
      = set (listed m k) \<union> {s \<in> set ss. k \<in> set (source_keys clients s)}" for m ss
    by (induction ss arbitrary: m) (auto simp: keys)
  then show ?thesis by (simp add: sourceIndex_def listed_def map_get_def)
qed

lemma set_first_occurrences [simp]: "set (first_occurrences xs) = set xs"
  by (simp add: first_occurrences_def)

lemma proposal_sources: "set (proposal (sourceIndex clients sources) events bodies e) \<subseteq> set sources"
  by (auto simp: proposal_def Let_def listed_source_index)

text \<open>A source with the id of a replayed row is among its candidates.\<close>

lemma proposal_by_id:
  assumes "s \<in> set sources" and "te_id s = te_id e"
  shows "s \<in> set (proposal (sourceIndex clients sources) events bodies e)"
proof -
  have "s \<in> set (listed (sourceIndex clients sources) (ById (te_id e)))"
    using assms by (simp add: listed_source_index source_keys_def Let_def)
  then have "s \<in> set (first_occurrences (concat (map (listed (sourceIndex clients sources)) (replay_keys events e))))"
    by (simp add: replay_keys_def Let_def)
  moreover from this have "first_occurrences (concat (map (listed (sourceIndex clients sources))
      (replay_keys events e))) \<noteq> []" by force
  ultimately show ?thesis by (simp add: proposal_def Let_def)
qed

lemma replay_match_alone:
  assumes "p \<in> set ps" and "replay_match (claims_on ps) (snd p) = Some s"
    and "q \<in> set ps" and "te_id s \<in> te_id ` set (snd q)"
  shows "q = p"
proof -
  from assms(1) obtain xs ys where ps: "ps = xs @ p # ys" by (auto dest: split_list)
  from assms(2) have p: "snd p = [s]" "map_get (claims_on ps) (te_id s) = Some 1"
    by (auto simp: replay_match_def split: list.splits if_splits)
  let ?n = "\<lambda>qs. count_list (concat (map (\<lambda>p. map te_id (snd p)) qs)) (te_id s)"
  have "?n ps = 1" using p(2) by (simp add: claims_on_def tally_count split: if_splits)
  then have "?n xs = 0" "?n ys = 0" using p(1) by (simp_all add: ps)
  then have "te_id s \<notin> te_id ` set (snd q')" if "q' \<in> set xs \<union> set ys" for q'
    using that by (auto simp: count_list_0_iff)
  from this [of q] assms(3,4) show ?thesis by (auto simp: ps)
qed

lemma matches_Some:
  assumes "(e, Some s) \<in> set (matches (proposals clients evs sources replay))"
  shows "s \<in> set sources"
proof -
  from assms obtain p where p: "p \<in> set (proposals clients evs sources replay)"
    "replay_match (claims_on (proposals clients evs sources replay)) (snd p) = Some s"
    by (auto simp: matches_def)
  then have "s \<in> set (snd p)" by (auto simp: replay_match_def split: list.splits if_splits)
  with p(1) show ?thesis using proposal_sources by (fastforce simp: proposals_def Let_def)
qed

lemma unmatched_id:
  assumes "(e, None) \<in> set (matches (proposals clients evs sources replay))"
  shows "te_id e \<notin> set (matched_ids (matches (proposals clients evs sources replay)))"
proof
  let ?ps = "proposals clients evs sources replay"
  assume "te_id e \<in> set (matched_ids (matches ?ps))"
  then obtain e' s where m: "(e', Some s) \<in> set (matches ?ps)" "te_id s = te_id e"
    by (fastforce simp: matched_ids_def set_map_filter_iff)
  then obtain p where p: "p \<in> set ?ps" "replay_match (claims_on ?ps) (snd p) = Some s"
    by (auto simp: matches_def)
  from assms obtain q where q: "q \<in> set ?ps" "fst q = e" "replay_match (claims_on ?ps) (snd q) = None"
    by (auto simp: matches_def)
  have "s \<in> set (snd q)"
    using proposal_by_id [OF matches_Some [OF m(1)] m(2)] q(1,2) by (auto simp: proposals_def Let_def)
  then have "q = p" by (intro replay_match_alone [OF p q(1)]) simp
  with p(2) q(3) show False by simp
qed

section \<open>What the threads leave of the durable rows\<close>

text \<open>
  An update of a durable row carries its id and its text, unless it is a system row; a row is only
  removed when it is a reasoning row. The durable rows that are settled stay in the fallback.
\<close>

definition settled_row :: "timelineEntry \<Rightarrow> bool" where
  "settled_row e \<longleftrightarrow> te_status e \<noteq> Running \<and> \<not> starts_with (te_id e) ''terminal:''"

definition update_ok :: "timeline \<Rightarrow> string \<Rightarrow> timelineEntry option \<Rightarrow> bool" where
  "update_ok durable i v \<longleftrightarrow>
     (\<exists>s \<in> set durable. te_id s = i \<and>
        (case v of None \<Rightarrow> te_kind s = KReasoning
         | Some u \<Rightarrow> te_id u = i \<and> (te_body u = te_body s \<or> te_kind u = KSystem)))"

definition updates_ok :: "timeline \<Rightarrow> (string, timelineEntry option) jsmap \<Rightarrow> bool" where
  "updates_ok durable m \<longleftrightarrow> (\<forall>i v. map_get m i = Some v \<longrightarrow> update_ok durable i v)"

definition canonical_ok :: "timeline \<Rightarrow> canonicalState \<Rightarrow> bool" where
  "canonical_ok durable st \<longleftrightarrow> updates_ok durable (cs_updates st) \<and> distinct (map te_id (cs_fallback st))
     \<and> (\<forall>e \<in> set durable. settled_row e \<longrightarrow> e \<in> set (cs_fallback st))"

lemma updates_put: "updates_ok durable m \<Longrightarrow> update_ok durable i v \<Longrightarrow> updates_ok durable (map_put i v m)"
  by (simp add: updates_ok_def map_get_put)

lemma drop_reasoning_ok:
  assumes "updates_ok durable m" and "set sources \<subseteq> set durable"
  shows "updates_ok durable (drop_reasoning replay sources m)"
proof -
  have "updates_ok durable (foldl (\<lambda>m s. if te_kind s = KReasoning then map_put (te_id s) None m else m) m ss)"
    if "updates_ok durable m" "set ss \<subseteq> set durable" for ss m
    using that
  proof (induction ss arbitrary: m)
    case (Cons s ss)
    then have "updates_ok durable (map_put (te_id s) None m)" if "te_kind s = KReasoning"
      using that by (intro updates_put) (auto simp: update_ok_def)
    with Cons show ?case by simp
  qed simp
  with assms show ?thesis by (simp add: drop_reasoning_def)
qed

lemma merged_row_simps [simp]:
  "te_id (merged_row s e) = te_id s" "te_kind (merged_row s e) = te_kind e"
  "te_kind e \<noteq> KSystem \<Longrightarrow> te_body (merged_row s e) = te_body s"
  by (simp_all add: merged_row_def)

lemma merged_updates_ok:
  assumes "updates_ok durable m" and "set sources \<subseteq> set durable"
    and ms: "ms = matches (proposals clients evs sources replay)"
  shows "updates_ok durable (foldl (\<lambda>m e. if te_id e \<in> set (matched_ids ms) then map_put (te_id e) (Some e) m else m)
    m (merged_rows ms))"
proof -
  have row: "update_ok durable (te_id u) (Some u)" if u: "u \<in> set (merged_rows ms)" "te_id u \<in> set (matched_ids ms)" for u
  proof -
    from u(1) obtain x where x: "x \<in> set ms" "u = (case snd x of None \<Rightarrow> fst x | Some s \<Rightarrow> merged_row s (fst x))"
      by (auto simp: merged_rows_def)
    obtain e v where ev: "x = (e, v)" by (rule prod.exhaust)
    from x have v: "(e, v) \<in> set ms" "u = (case v of None \<Rightarrow> e | Some s \<Rightarrow> merged_row s e)"
      unfolding ev by (simp_all split: option.split)
    show ?thesis
    proof (cases v)
      case None
      with v u(2) unmatched_id [of e clients evs sources replay] show ?thesis by (simp add: ms)
    next
      case (Some s)
      with v matches_Some [of e s clients evs sources replay] assms(2) have "s \<in> set durable" by (auto simp: ms)
      with Some v show ?thesis
        by (cases "te_kind e = KSystem") (auto simp: update_ok_def)
    qed
  qed
  have "updates_ok durable (foldl (\<lambda>m e. if te_id e \<in> set (matched_ids ms) then map_put (te_id e) (Some e) m else m) m us)"
    if "updates_ok durable m" "set us \<subseteq> set (merged_rows ms)" for us m
    using that by (induction us arbitrary: m) (simp_all add: updates_put row)
  with assms(1) show ?thesis by simp
qed

lemma terminal_event_settles:
  assumes "valid_envelope e" and "pp_type (pe_payload e) = ''turn_terminal''"
  shows "\<exists>oc b u. foldNotification rt es (envelope_notification e) = settleTimelineTurn rt es (pe_turn_id e) oc b u"
proof -
  have p: "parseProjectionEnvelope (Some (encode_envelope e)) = Some e"
    using assms(1) by (rule envelope_wire.parse_encode)
  with assms(2) obtain o' where "pp_data (pe_payload e) = JObj o'"
    using terminal_payload_record [of "Some (pp_data (pe_payload e))"] by (auto simp: parseProjectionEnvelope_Some)
  with p assms(2) show ?thesis
    by (auto simp: envelope_notification_def foldNotification_def fold_envelope_def foldProjection_def)
qed

lemma settle_keeps_settled:
  assumes "e \<in> set es" and "settled_row e"
  shows "e \<in> set (settleTimelineTurn rt es t oc b u)"
proof -
  have e: "e \<in> set (sweepTurnStreamtails rt es t oc)"
    using assms unfolding sweep_member by (auto simp: sweepable_def settled_row_def)
  have "\<exists>new. settleTimelineTurn rt es t oc b u = upsert (sweepTurnStreamtails rt es t oc) new
      \<and> te_id new = terminal_id t"
    unfolding settleTimelineTurn_def Let_def by (intro exI conjI, rule refl) simp
  then obtain new where new: "te_id new = terminal_id t"
    "settleTimelineTurn rt es t oc b u = upsert (sweepTurnStreamtails rt es t oc) new" by blast
  have "te_id e \<noteq> te_id new" using assms(2) by (auto simp: settled_row_def new terminal_id_def)
  with e show ?thesis unfolding new(2)
    by (cases rule: upsert_cases [of "sweepTurnStreamtails rt es t oc" new]) auto
qed

lemma restore_thread_ok:
  assumes "canonical_ok durable st" and "list_all valid_envelope (snd te)"
  shows "canonical_ok durable (restore_thread rt r durable st te)"
proof (cases "thread_complete r (fst te) (sort_key pe_seq (snd te))")
  case False
  let ?evs = "filter (\<lambda>e. pp_type (pe_payload e) = ''turn_terminal'') (sort_key pe_seq (snd te))"
  have "distinct (map te_id (fold_events rt es evs)) \<and> (\<forall>e \<in> set durable. settled_row e \<longrightarrow> e \<in> set (fold_events rt es evs))"
    if "distinct (map te_id es)" "\<forall>e \<in> set durable. settled_row e \<longrightarrow> e \<in> set es"
      "\<forall>e \<in> set evs. valid_envelope e \<and> pp_type (pe_payload e) = ''turn_terminal''" for es evs
    using that
  proof (induction evs arbitrary: es)
    case (Cons e evs)
    from Cons.prems(3) terminal_event_settles [of e rt es] obtain oc b u
      where step: "foldNotification rt es (envelope_notification e) = settleTimelineTurn rt es (pe_turn_id e) oc b u" by auto
    with Cons.prems have "distinct (map te_id (foldNotification rt es (envelope_notification e)))"
      "\<forall>x \<in> set durable. settled_row x \<longrightarrow> x \<in> set (foldNotification rt es (envelope_notification e))"
      by (simp_all add: settle_distinct settle_keeps_settled)
    from Cons.IH [OF this] Cons.prems(3) show ?case by (simp add: fold_events_def)
  qed (simp add: fold_events_def)
  from this [of "cs_fallback st" ?evs] assms False show ?thesis
    by (auto simp: canonical_ok_def restore_thread_def Let_def list_all_iff)
next
  case True
  let ?sources = "filter (\<lambda>e. entryThread r e = Some (fst te)) durable"
  let ?replay = "fold_events rt [] (sort_key pe_seq (snd te))"
  have sources: "set ?sources \<subseteq> set durable" by auto
  have "updates_ok durable (drop_reasoning ?replay ?sources (cs_updates st))"
    using assms(1) sources by (intro drop_reasoning_ok) (simp_all add: canonical_ok_def)
  from merged_updates_ok [OF this sources refl] assms True show ?thesis
    by (simp add: canonical_ok_def restore_thread_def Let_def)
qed

section \<open>What the ordering keeps\<close>

lemma fill_slots_mset:
  "length as = length (filter (\<lambda>e. te_id e \<in> set ids) es) \<Longrightarrow>
     mset (fill_slots ids as es) = mset (filter (\<lambda>e. te_id e \<notin> set ids) es) + mset as"
  by (induction ids as es rule: fill_slots.induct) (auto split: list.split)

lemma mset_filter_split: "mset (filter (\<lambda>e. \<not> Q e) xs) + mset (filter Q xs) = mset xs"
  by (induction xs) auto

text \<open>The anchors fill the slots they came from.\<close>

lemma anchors_fill:
  assumes "distinct (map te_id (cs_fallback st))"
  shows "set (fill_slots (map te_id (anchors_of order st)) (anchors_of order st) (cs_fallback st)) = set (cs_fallback st)"
proof -
  let ?es = "cs_fallback st"
  let ?P = "\<lambda>e. te_kind e \<noteq> KUser \<and> updated_row (cs_updates st) (te_id e) \<and> map_has order (te_id e)"
  let ?as = "anchors_of order st" and ?in = "\<lambda>e. te_id e \<in> set (map te_id (anchors_of order st))"
  have anchors: "mset ?as = mset (filter ?P ?es)" by (simp add: anchors_of_def)
  have "set ?as = set (filter ?P ?es)" using anchors by (metis set_mset_mset)
  then have ids: "?in e \<longleftrightarrow> te_id e \<in> te_id ` set (filter ?P ?es)" for e by (simp only: set_map)
  have "?in e = ?P e" if "e \<in> set ?es" for e
  proof
    assume "?in e"
    then obtain x where "x \<in> set ?es" "?P x" "te_id x = te_id e" unfolding ids by auto
    moreover from this that assms have "x = e" by (auto simp: distinct_map dest: inj_onD)
    ultimately show "?P e" by simp
  next
    assume "?P e"
    with that show "?in e" unfolding ids by auto
  qed
  then have same: "filter ?in ?es = filter ?P ?es" by (intro filter_cong) auto
  have "length ?as = length (filter ?in ?es)" unfolding same using anchors by (metis size_mset)
  then have "mset (fill_slots (map te_id ?as) ?as ?es) = mset (filter (\<lambda>e. \<not> ?in e) ?es) + mset ?as"
    by (rule fill_slots_mset)
  also have "mset ?as = mset (filter ?in ?es)" unfolding same by (rule anchors)
  also have "mset (filter (\<lambda>e. \<not> ?in e) ?es) + mset (filter ?in ?es) = mset ?es" by (rule mset_filter_split)
  finally show ?thesis by (metis set_mset_mset)
qed

lemma place_terminal_set: "set (place_terminal order es i) = set es"
proof -
  have "set (insert_at n (es ! k) (remove_at k es)) = set es" if "k < length es" for n k
  proof -
    have "es = take k es @ es ! k # drop (Suc k) es" using that by (simp add: id_take_nth_drop)
    then have "set es = insert (es ! k) (set (remove_at k es))" unfolding remove_at_def by (metis list.simps(15)
          set_append Un_insert_right)
    then show ?thesis by simp
  qed
  moreover have "k < length es" if "find_index P es = Some k" for P k using find_index_Some [OF that] by simp
  ultimately show ?thesis by (auto simp: place_terminal_def split: option.split)
qed

lemma event_threads_valid:
  assumes "list_all P evs"
  shows "list_all (\<lambda>te. list_all P (snd te)) (event_threads evs)"
proof -
  have "list_all (\<lambda>te. list_all P (snd te)) (foldl (\<lambda>m e. push_key m (pe_thread_id e) e) m evs)"
    if "list_all (\<lambda>te. list_all P (snd te)) m" "list_all P evs" for m
    using that
  proof (induction evs arbitrary: m)
    case (Cons e evs)
    have "list_all P (case map_get m k of None \<Rightarrow> [] | Some vs \<Rightarrow> vs)" for k
    proof (cases "map_get m k")
      case (Some vs)
      then have "(k, vs) \<in> set m" by (simp add: map_get_def map_of_SomeD)
      with Cons.prems(1) Some show ?thesis by (auto simp: list_all_iff)
    qed simp
    then have "list_all (\<lambda>te. list_all P (snd te)) (push_key m k e)" for k
      using Cons.prems set_map_put [of k "(case map_get m k of None \<Rightarrow> [] | Some vs \<Rightarrow> vs) @ [e]" m]
      unfolding push_key_def list_all_iff by fastforce
    with Cons show ?case by simp
  qed simp
  with assms show ?thesis by (simp add: event_threads_def)
qed

lemma restore_threads_ok:
  "canonical_ok durable st \<Longrightarrow> list_all (\<lambda>te. list_all valid_envelope (snd te)) tes \<Longrightarrow>
     canonical_ok durable (foldl (restore_thread rt r durable) st tes)"
  by (induction tes arbitrary: st) (simp_all add: restore_thread_ok)

lemma restore_keeps_row:
  assumes durable: "distinct (map te_id durable)" and events: "list_all valid_envelope (projection_events r)"
    and e: "e \<in> set durable" "settled_row e" "te_kind e \<noteq> KReasoning"
  shows "\<exists>e' \<in> set (restoreCanonicalHydrate rt r durable).
    te_id e' = te_id e \<and> (te_body e' = te_body e \<or> te_kind e' = KSystem)"
proof -
  define st where "st = foldl (restore_thread rt r durable)
    \<lparr>cs_updates = [], cs_aliases = [], cs_extras = [], cs_complete = [], cs_fallback = durable\<rparr>
    (event_threads (projection_events r))"
  have ok: "canonical_ok durable st"
    unfolding st_def using durable event_threads_valid [OF events]
    by (intro restore_threads_ok) (simp_all add: canonical_ok_def updates_ok_def map_get_def)
  have same: "s = e" if "s \<in> set durable" "te_id s = te_id e" for s
    using that e(1) durable by (auto simp: distinct_map dest: inj_onD)
  have up: "update_ok durable (te_id e) v" if "map_get (cs_updates st) (te_id e) = Some v" for v
    using ok that by (simp add: canonical_ok_def updates_ok_def)
  have emitted: "\<exists>e' \<in> set (emit_row st p e). te_id e' = te_id e \<and> (te_body e' = te_body e \<or> te_kind e' = KSystem)" for p
  proof (cases "map_get (cs_updates st) (te_id e)")
    case None
    then show ?thesis by (simp add: emit_row_def)
  next
    case (Some v)
    with up [OF Some] same e(3) obtain u where "v = Some u" "te_id u = te_id e"
      "te_body u = te_body e \<or> te_kind u = KSystem"
      by (auto simp: update_ok_def split: option.splits)
    with Some show ?thesis by (auto simp: emit_row_def)
  qed
  have slots: "e \<in> set (fill_slots (map te_id (anchors_of order st)) (anchors_of order st) (cs_fallback st))" for order
    using ok e(1,2) by (subst anchors_fill) (simp_all add: canonical_ok_def)
  have placed: "set (foldl (place_terminal order) es is) = set es" for order es "is"
    by (induction "is" arbitrary: es) (simp_all add: place_terminal_set)
  have rows: "\<exists>e' \<in> set (concat (map (emit_row st p) (fill_slots (map te_id (anchors_of order st)) (anchors_of order st)
      (cs_fallback st))) @ rest). te_id e' = te_id e \<and> (te_body e' = te_body e \<or> te_kind e' = KSystem)" for p order rest
  proof -
    from emitted obtain e' where e': "e' \<in> set (emit_row st p e)" "te_id e' = te_id e"
      "te_body e' = te_body e \<or> te_kind e' = KSystem" by blast
    then show ?thesis using slots [of order] by (intro bexI [of _ e']) auto
  qed
  show ?thesis
    unfolding restoreCanonicalHydrate_def Let_def st_def [symmetric] placed by (rule rows)
qed

section \<open>Properties\<close>

text \<open>
  C14: A reload loses no row. When the retained events of a hydrate result are folded in, every
  settled prompt, answer and tool row of the transcript restored from the persisted messages is
  still there under its id with its full text, or it became a system row; only reasoning rows are
  ever dropped.
\<close>
theorem canonical_restore_loses_no_row:
  assumes "list_all valid_envelope (projection_events r)" and "e \<in> set (timelineFromHydrate rt r ids)"
    and "te_kind e \<noteq> KReasoning" and "te_status e \<noteq> Running" and "\<not> starts_with (te_id e) ''terminal:''"
  shows "\<exists>e' \<in> set (timelineFromCanonicalHydrate rt r ids).
    te_id e' = te_id e \<and> (te_body e' = te_body e \<or> te_kind e' = KSystem)"
proof -
  from restore_keeps_row [OF restored_rows_distinct assms(1,2)] assms(3-5) obtain x
    where x: "x \<in> set (restoreCanonicalHydrate rt r (timelineFromHydrate rt r ids))"
      "te_id x = te_id e" "te_body x = te_body e \<or> te_kind x = KSystem" by (auto simp: settled_row_def)
  have "\<exists>f. with_hydrated_marks rt es r = map f es \<and> (\<forall>e. te_id (f e) = te_id e \<and> te_body (f e) = te_body e
      \<and> te_kind (f e) = te_kind e)" for es
  proof -
    let ?turns = "map_of_entries (map (\<lambda>t. (ht_turn_id t, t)) (turns_of r))"
    let ?o = "\<lambda>e. if turns_of r = [] then e
      else outcome_row (ht_state (last (turns_of r)) \<in> set finished_states) (last (turns_of r)) e"
    let ?f = "\<lambda>e. timing_row rt ?turns ((?o e)\<lparr>te_startedAtMs := None, te_endedAtMs := None\<rparr>)"
    have "with_hydrated_marks rt es r = map ?f es"
      by (simp add: with_hydrated_marks_def withHydratedTurnTiming_def withoutHydratedTiming_def
          withHydratedTurnOutcome_def Let_def)
    moreover have "te_kind (outcome_row b l e) = te_kind e" "te_kind (timing_row rt ts e) = te_kind e" for b l ts e
      by (simp_all add: outcome_row_def timing_row_def Let_def split: option.split)
    ultimately show ?thesis by (intro exI [of _ ?f]) simp
  qed
  from this [of "restoreCanonicalHydrate rt r (timelineFromHydrate rt r ids)"] obtain f
    where f: "timelineFromCanonicalHydrate rt r ids = map f (restoreCanonicalHydrate rt r (timelineFromHydrate rt r ids))"
      "\<And>e. te_id (f e) = te_id e \<and> te_body (f e) = te_body e \<and> te_kind (f e) = te_kind e"
    by (auto simp: timelineFromCanonicalHydrate_def)
  show ?thesis using x f(2) [of x] unfolding f(1) by (intro bexI [of _ "f x"]) auto
qed

text \<open>A stopped turn with its retained events; a background thread may use the same turn id.\<close>

definition retained_event :: "string \<Rightarrow> nat \<Rightarrow> nat \<Rightarrow> string \<Rightarrow> fields \<Rightarrow> projectionEnvelope" where
  "retained_event thread n cursor type data = (tool_event n type data)
     \<lparr>pe_thread_id := thread, pe_cursor := Some \<lparr>cur_stream = ''e'', cur_seq = cursor\<rparr>\<rparr>"

definition retained_events :: "projectionEnvelope list" where
  "retained_events =
     [retained_event ''A'' 1 1 ''user_message'' [(''text'', JStr ''list files'')],
      retained_event ''A'' 2 2 ''tool_start'' [(''tool_call_id'', JStr ''c''), (''name'', JStr ''ls'')],
      retained_event ''A'' 3 4 ''turn_terminal'' [(''outcome'', JStr ''interrupted'')]]"

definition with_events :: "projectionEnvelope list \<Rightarrow> (string \<times> nat) list \<Rightarrow> sessionHydrateResult" where
  "with_events evs checkpoints = stopped_session\<lparr>hr_replayed_tool_envelopes := None,
     hr_replayed_projection_envelopes := Some evs, hr_projection_thread_sequences := Some checkpoints\<rparr>"

definition one_thread :: sessionHydrateResult where
  "one_thread = with_events retained_events [(''A'', 3)]"

definition two_threads :: sessionHydrateResult where
  "two_threads = with_events
     (retained_events @ [retained_event ''B'' 1 3 ''reasoning_delta'' [(''text'', JStr ''x'')]]) [(''A'', 3), (''B'', 1)]"

lemma canonical_restore_loses_no_row_witness:
  "\<exists>e' \<in> set (timelineFromCanonicalHydrate sample_runtime one_thread no_identities).
     te_id e' = ''hydrated:session:2'' \<and> (te_body e' = ''a.ts'' \<or> te_kind e' = KSystem)"
proof -
  let ?es = "timelineFromHydrate sample_runtime one_thread no_identities"
  have "length ?es = 4" "te_id (?es ! 1) = ''hydrated:session:2''" "te_body (?es ! 1) = ''a.ts''"
    "te_kind (?es ! 1) = KTool" "te_status (?es ! 1) = Complete" by code_simp+
  moreover have "list_all valid_envelope (projection_events one_thread)" by code_simp
  ultimately show ?thesis
    using canonical_restore_loses_no_row [of one_thread "?es ! 1" sample_runtime no_identities] by simp
qed

text \<open>
  A case where the canonical restorer repeats rows. A stopped turn with one event in a second thread
  belongs to no single thread, so none of its rows is matched with the rows its events fold to, and
  those are appended under the same ids: the prompt, the tool call and the terminal show twice,
  although the transcript restored from the messages shows each of them once.
\<close>
lemma turn_in_two_threads_is_shown_twice:
  "list_all valid_envelope (projection_events two_threads)
   \<and> validReplayCheckpoint (projection_events two_threads) (the (hr_projection_thread_sequences two_threads))
       (hr_cursor two_threads)
   \<and> map te_id (timelineFromHydrate sample_runtime two_threads no_identities)
       = [''user:t'', ''hydrated:session:2'', ''tool:t:c'', ''terminal:t'']
   \<and> map te_id (timelineFromCanonicalHydrate sample_runtime two_threads no_identities)
       = [''user:t'', ''hydrated:session:2'', ''tool:t:c'', ''terminal:t'',
          ''user:t'', ''tool:t:c'', ''terminal:t'', ''reasoning:t:0'']"
  by (intro conjI; code_simp)

end
