(* ===== verification/SessionChanges.thy ===== *)
theory SessionChanges
  imports Hydrate
begin

text \<open>
  The files a Session's tools touched, \<open>features/side-panel/session-changes.ts\<close>: a list with one row
  per file, newest first, folded from the \<open>file_mutation\<close> notices and restored from the mutations
  of a hydrate result. The lemmas compare the list with what each file alone has been through.
\<close>

record sessionFileChange =
  sc_path :: string
  sc_operation :: mutationOperation
  sc_previewId :: "string option"
  sc_bytesWritten :: "nat option"

definition MAX_CHANGES :: nat where
  "MAX_CHANGES = 500"

section \<open>Paths\<close>

definition strip_slashes :: "string \<Rightarrow> string" where
  "strip_slashes root = rev (dropWhile (\<lambda>c. c = CHR ''/'') (rev root))"

fun strip_dots :: "string \<Rightarrow> string" where
  "strip_dots (a # b # s) =
     (if a = CHR ''.'' \<and> b = CHR ''/'' then strip_dots s else a # b # s)"
| "strip_dots s = s"

definition workspaceRelativePath :: "string \<Rightarrow> string \<Rightarrow> string" where
  "workspaceRelativePath path root =
     (let base = strip_slashes root
      in if base \<noteq> [] \<and> starts_with path (base @ ''/'') then drop (length base + 1) path
         else strip_dots path)"

section \<open>The list of changes\<close>

definition applyFileMutation ::
    "sessionFileChange list \<Rightarrow> fileMutationNotice \<Rightarrow> string \<Rightarrow> sessionFileChange list" where
  "applyFileMutation changes notice root =
     (let path = workspaceRelativePath (fm_path notice) root;
          at = find_index (\<lambda>c. sc_path c = path) changes;
          previous = map_option (nth changes) at;
          rest = (case at of None \<Rightarrow> changes | Some i \<Rightarrow> remove_at i changes);
          created = (map_option sc_operation previous = Some MCreate)
      in if created \<and> fm_operation notice = MDelete then rest
         else take MAX_CHANGES
                (\<lparr>sc_path = path,
                  sc_operation =
                    (if created \<and> fm_operation notice \<noteq> MDelete then MCreate
                     else fm_operation notice),
                  sc_previewId =
                    (case fm_previewId notice of
                       Some p \<Rightarrow> Some p
                     | None \<Rightarrow> Option.bind previous sc_previewId),
                  sc_bytesWritten = fm_bytesWritten notice\<rparr> # rest))"

definition mutation_notice :: "hydratedFileMutation \<Rightarrow> fileMutationNotice" where
  "mutation_notice m =
     \<lparr>fm_sessionId = None, fm_turnId = None, fm_path = hf_path m, fm_operation = hf_operation m,
      fm_previewId = hf_preview_id m, fm_bytesWritten = hf_bytes_written m\<rparr>"

definition restoreSessionChanges ::
    "hydratedFileMutation list \<Rightarrow> string \<Rightarrow> sessionFileChange list" where
  "restoreSessionChanges mutations root =
     foldl (\<lambda>current m. applyFileMutation current (mutation_notice m) root) [] mutations"

section \<open>What one file has been through\<close>

text \<open>
  The specification of a row: a file alone, \<open>None\<close> while there is nothing to show for it.
\<close>

definition file_step ::
    "string \<Rightarrow> sessionFileChange option \<Rightarrow> fileMutationNotice \<Rightarrow> sessionFileChange option" where
  "file_step path previous notice =
     (if map_option sc_operation previous = Some MCreate \<and> fm_operation notice = MDelete then None
      else Some \<lparr>sc_path = path,
                 sc_operation = (if map_option sc_operation previous = Some MCreate then MCreate
                                 else fm_operation notice),
                 sc_previewId = (case fm_previewId notice of
                                   Some p \<Rightarrow> Some p
                                 | None \<Rightarrow> Option.bind previous sc_previewId),
                 sc_bytesWritten = fm_bytesWritten notice\<rparr>)"

definition row_of :: "string \<Rightarrow> sessionFileChange list \<Rightarrow> sessionFileChange option" where
  "row_of path changes = find (\<lambda>c. sc_path c = path) changes"

definition changes_ok :: "sessionFileChange list \<Rightarrow> bool" where
  "changes_ok changes = (distinct (map sc_path changes) \<and> length changes \<le> MAX_CHANGES)"

lemma file_step_path: "file_step p previous n = Some c \<Longrightarrow> sc_path c = p"
  by (auto simp: file_step_def split: if_splits)

text \<open>The list without the row of a path, and what a notice does to it.\<close>

definition others :: "string \<Rightarrow> sessionFileChange list \<Rightarrow> sessionFileChange list" where
  "others path changes = filter (\<lambda>c. sc_path c \<noteq> path) changes"

lemma row_removed:
  assumes "distinct (map sc_path changes)"
  shows "(case find_index (\<lambda>c. sc_path c = p) changes of
            None \<Rightarrow> changes | Some i \<Rightarrow> remove_at i changes) = others p changes"
proof (cases "find_index (\<lambda>c. sc_path c = p) changes")
  case None
  then have "others p changes = changes" by (simp add: find_index_None others_def filter_id_conv)
  with None show ?thesis by simp
next
  case (Some i)
  from find_index_splitD [OF this] obtain ys x zs
    where split: "changes = ys @ x # zs" "i = length ys" "sc_path x = p" by auto
  with assms have "p \<notin> sc_path ` (set ys \<union> set zs)" by auto
  then have "\<forall>c \<in> set ys \<union> set zs. sc_path c \<noteq> p" by blast
  with Some split show ?thesis by (simp add: others_def filter_id_conv)
qed

lemma applyFileMutation_others:
  fixes notice :: fileMutationNotice and root :: string
  assumes "distinct (map sc_path changes)"
  defines "p \<equiv> workspaceRelativePath (fm_path notice) root"
  shows "applyFileMutation changes notice root =
           (case file_step p (row_of p changes) notice of
              None \<Rightarrow> others p changes
            | Some c \<Rightarrow> take MAX_CHANGES (c # others p changes))"
proof (cases "find_index (\<lambda>c. sc_path c = p) changes")
  case None
  with row_removed [OF assms(1), of p] show ?thesis
    by (simp add: applyFileMutation_def Let_def file_step_def row_of_def find_index_find p_def
        split: option.split)
next
  case (Some i)
  with row_removed [OF assms(1), of p] show ?thesis
    by (simp add: applyFileMutation_def Let_def file_step_def row_of_def find_index_find p_def
        split: option.split)
qed

lemma others_ok: "distinct (map sc_path changes) \<Longrightarrow> distinct (map sc_path (others p changes))"
  by (simp add: others_def distinct_map_filter)

lemma others_paths: "sc_path ` set (others p changes) = sc_path ` set changes - {p}"
  by (auto simp: others_def)

lemma applyFileMutation_ok:
  assumes "changes_ok changes"
  shows "changes_ok (applyFileMutation changes notice root)"
proof -
  define p where "p = workspaceRelativePath (fm_path notice) root"
  from assms have d: "distinct (map sc_path changes)" and l: "length changes \<le> MAX_CHANGES"
    by (simp_all add: changes_ok_def)
  have fits: "length (others p changes) \<le> MAX_CHANGES"
    unfolding others_def by (rule le_trans [OF length_filter_le l])
  show ?thesis
  proof (cases "file_step p (row_of p changes) notice")
    case None
    with applyFileMutation_others [OF d] fits others_ok [OF d] show ?thesis
      by (simp add: changes_ok_def p_def)
  next
    case (Some c)
    from file_step_path [OF this] others_paths [of p changes]
    have "distinct (map sc_path (c # others p changes))"
      using others_ok [OF d, of p] by auto
    then have "distinct (map sc_path (take MAX_CHANGES (c # others p changes)))"
      by (metis distinct_take take_map)
    with applyFileMutation_others [OF d] Some show ?thesis by (simp add: changes_ok_def p_def)
  qed
qed

text \<open>
  The side panel has one row per file. Restored from any hydrated mutations and continued by
  any live notices, the list of changed files never shows a path twice and never holds more than
  500 rows.
\<close>
theorem one_row_per_changed_file:
  "changes_ok (foldl (\<lambda>current n. applyFileMutation current n root)
                 (restoreSessionChanges mutations root) notices)"
proof -
  have run: "changes_ok (foldl (\<lambda>current n. applyFileMutation current n root) changes ns)"
    if "changes_ok changes" for changes ns
    using that by (induction ns arbitrary: changes) (auto simp: applyFileMutation_ok)
  have "foldl (\<lambda>current m. applyFileMutation current (mutation_notice m) root) changes ms =
          foldl (\<lambda>current n. applyFileMutation current n root) changes (map mutation_notice ms)"
    for changes ms
    by (induction ms arbitrary: changes) auto
  moreover have "changes_ok []" by (simp add: changes_ok_def)
  ultimately show ?thesis by (simp add: restoreSessionChanges_def run)
qed

section \<open>The list is the history of each file\<close>

lemma row_of_others: "q \<noteq> p \<Longrightarrow> row_of q (others p changes) = row_of q changes"
  by (induction changes) (auto simp: row_of_def others_def)

lemma row_of_others_same: "row_of p (others p changes) = None"
  by (simp add: row_of_def others_def find_None_iff)

lemma applyFileMutation_row:
  assumes "distinct (map sc_path changes)"
    and "card (insert (workspaceRelativePath (fm_path notice) root) (sc_path ` set changes))
           \<le> MAX_CHANGES"
  shows "row_of q (applyFileMutation changes notice root) =
           (if workspaceRelativePath (fm_path notice) root = q
            then file_step q (row_of q changes) notice else row_of q changes)"
proof -
  define p where "p = workspaceRelativePath (fm_path notice) root"
  have "length (others p changes) = card (sc_path ` set (others p changes))"
    using distinct_card [OF others_ok [OF assms(1)]] by simp
  then have "Suc (length (others p changes)) = card (insert p (sc_path ` set changes))"
    by (simp add: others_paths card.insert_remove)
  with assms(2) have fits: "Suc (length (others p changes)) \<le> MAX_CHANGES" by (simp add: p_def)
  show ?thesis
  proof (cases "file_step p (row_of p changes) notice")
    case None
    with applyFileMutation_others [OF assms(1), of notice root] show ?thesis
      by (auto simp: p_def [symmetric] row_of_others row_of_others_same)
  next
    case (Some c)
    have "row_of q (c # others p changes) = (if p = q then Some c else row_of q changes)"
      using file_step_path [OF Some] row_of_others [of q p changes] by (auto simp: row_of_def)
    with applyFileMutation_others [OF assms(1), of notice root] Some fits show ?thesis
      by (auto simp: p_def [symmetric])
  qed
qed

lemma applyFileMutation_paths:
  assumes "distinct (map sc_path changes)"
  shows "sc_path ` set (applyFileMutation changes notice root) \<subseteq>
           insert (workspaceRelativePath (fm_path notice) root) (sc_path ` set changes)"
proof -
  define p where "p = workspaceRelativePath (fm_path notice) root"
  have rest: "sc_path ` set (others p changes) \<subseteq> insert p (sc_path ` set changes)"
    by (auto simp: others_def)
  show ?thesis
  proof (cases "file_step p (row_of p changes) notice")
    case None
    with applyFileMutation_others [OF assms, of notice root] rest show ?thesis
      by (simp add: p_def)
  next
    case (Some c)
    from file_step_path [OF this] rest
    have "sc_path ` set (c # others p changes) \<subseteq> insert p (sc_path ` set changes)" by simp
    then have "sc_path ` set (take MAX_CHANGES (c # others p changes))
                 \<subseteq> insert p (sc_path ` set changes)"
      by (rule subset_trans [OF image_mono [OF set_take_subset]])
    with applyFileMutation_others [OF assms, of notice root] Some show ?thesis
      by (simp add: p_def)
  qed
qed

lemma small_subset: "\<lbrakk>card B \<le> n; finite B; A \<subseteq> B\<rbrakk> \<Longrightarrow> card A \<le> n"
  using card_mono [of B A] by linarith

text \<open>
  C9: The restored list is the history of each file. As long as the mutations name at most 500
  files, the row shown for a path is what the mutations of that path alone make of it, in their
  order, however they are interleaved with those of other files.
\<close>
theorem changes_follow_each_file:
  assumes "card (set (map (\<lambda>m. workspaceRelativePath (hf_path m) root) ms)) \<le> MAX_CHANGES"
  shows "row_of q (restoreSessionChanges ms root) =
           foldl (\<lambda>row m. file_step q row (mutation_notice m)) None
             (filter (\<lambda>m. workspaceRelativePath (hf_path m) root = q) ms)"
proof -
  let ?path = "\<lambda>m. workspaceRelativePath (hf_path m) root"
  let ?apply = "\<lambda>current m. applyFileMutation current (mutation_notice m) root"
  have "row_of q (foldl ?apply changes ms) =
          foldl (\<lambda>row m. file_step q row (mutation_notice m)) (row_of q changes)
            (filter (\<lambda>m. ?path m = q) ms)"
    if "distinct (map sc_path changes)"
      and "card (sc_path ` set changes \<union> ?path ` set ms) \<le> MAX_CHANGES" for changes
    using that
  proof (induction ms arbitrary: changes)
    case (Cons m ms)
    let ?next = "?apply changes m"
    have fm: "fm_path (mutation_notice m) = hf_path m" by (simp add: mutation_notice_def)
    have small: "card (insert (?path m) (sc_path ` set changes)) \<le> MAX_CHANGES"
      by (rule small_subset [OF Cons.prems(2)]) auto
    have "card (sc_path ` set changes) \<le> MAX_CHANGES"
      by (rule small_subset [OF Cons.prems(2)]) auto
    with distinct_card [OF Cons.prems(1)] Cons.prems(1) have "changes_ok changes"
      by (simp add: changes_ok_def)
    then have d: "distinct (map sc_path ?next)"
      using applyFileMutation_ok by (simp add: changes_ok_def)
    have "sc_path ` set ?next \<union> ?path ` set ms \<subseteq> sc_path ` set changes \<union> ?path ` set (m # ms)"
      using applyFileMutation_paths [OF Cons.prems(1), of "mutation_notice m" root] fm by auto
    from small_subset [OF Cons.prems(2) _ this]
    have "card (sc_path ` set ?next \<union> ?path ` set ms) \<le> MAX_CHANGES" by simp
    from Cons.IH [OF d this]
      applyFileMutation_row [OF Cons.prems(1), of "mutation_notice m" root q] small fm
    show ?case by simp
  qed simp
  from this [of "[]"] assms show ?thesis by (simp add: restoreSessionChanges_def row_of_def)
qed

definition sample_mutations :: "hydratedFileMutation list" where
  "sample_mutations =
     [\<lparr>hf_path = ''/w/a.md'', hf_operation = MCreate, hf_preview_id = Some ''p'', hf_bytes_written = Some 3\<rparr>,
      \<lparr>hf_path = ''/w/b.md'', hf_operation = MCreate, hf_preview_id = None, hf_bytes_written = None\<rparr>,
      \<lparr>hf_path = ''./a.md'', hf_operation = MModify, hf_preview_id = None, hf_bytes_written = Some 5\<rparr>,
      \<lparr>hf_path = ''b.md'', hf_operation = MDelete, hf_preview_id = None, hf_bytes_written = None\<rparr>]"

lemma sample_restored:
  "restoreSessionChanges sample_mutations ''/w/'' =
     [\<lparr>sc_path = ''a.md'', sc_operation = MCreate, sc_previewId = Some ''p'', sc_bytesWritten = Some 5\<rparr>]"
  by code_simp

lemma changes_follow_each_file_witness:
  "foldl (\<lambda>row m. file_step ''a.md'' row (mutation_notice m)) None
     (filter (\<lambda>m. workspaceRelativePath (hf_path m) ''/w/'' = ''a.md'') sample_mutations) =
     Some \<lparr>sc_path = ''a.md'', sc_operation = MCreate, sc_previewId = Some ''p'', sc_bytesWritten = Some 5\<rparr>"
proof -
  have paths: "map (\<lambda>m. workspaceRelativePath (hf_path m) ''/w/'') sample_mutations =
                 [''a.md'', ''b.md'', ''a.md'', ''b.md'']"
    by code_simp
  have "card (set (map (\<lambda>m. workspaceRelativePath (hf_path m) ''/w/'') sample_mutations)) \<le> MAX_CHANGES"
    unfolding paths by (simp add: MAX_CHANGES_def card_insert_if)
  from changes_follow_each_file [OF this, of "''a.md''"] show ?thesis
    by (simp add: sample_restored row_of_def)
qed

end
