(* ===== verification/CandidateSession.thy ===== *)
theory CandidateSession
  imports DurableSession SessionMemory
begin

text \<open>
  Preparing a Session before it becomes the product's: \<open>prepareCandidateSession\<close> of
  \<open>features/session/candidate-session.ts\<close>, which owns a socket of its own, and
  \<open>prepareRetainedCandidateSession\<close> of \<open>features/session/active-session-runtime.ts\<close>, which borrows a
  connected one. Both open and hydrate the Session while they buffer its notifications, and both
  fail closed. The two functions are one machine with a flag; an answer of the server, the abort
  signal and the caller's \<open>release\<close> and \<open>dispose\<close> are its events.
\<close>

section \<open>Data\<close>

record sessionConnectionInput =
  ci_endpoint :: string
  ci_token :: string
  ci_sessionId :: string
  ci_profileId :: string
  ci_cwd :: string

record openedSession = sessionOpened +
  so_capabilities :: "uiProtocolCapabilities option"

record candidateSnapshot =
  cn_client :: nat
  cn_opened :: openedSession
  cn_hydrated :: sessionHydrateResult
  cn_notifications :: "rpcNotification list"

datatype candidateState = CPreparing | CPrepared | CReleased | CDisposed

text \<open>Where the function waits; \<open>Finished\<close> once its promise is settled.\<close>

datatype candidateStage = AwaitConnect | AwaitOpen | AwaitHydrate | AwaitPrepare | Finished

record candidate =
  cd_retained :: bool
  cd_client :: nat
  cd_config :: sessionConnectionInput
  cd_after :: "uiCursor option"
  cd_stage :: candidateStage
  cd_state :: candidateState
  cd_terminalError :: "string option"
  cd_subscribed :: bool
  cd_aborted :: bool
  cd_notifications :: "rpcNotification list"
  cd_opened :: "openedSession option"
  cd_hydrated :: "sessionHydrateResult option"

text \<open>
  What the host supplies: the status of the client, the caller's validation of the opened Session
  (the message it throws), and whether it prepares the hydrate result.
\<close>

record candidateHost =
  ch_connected :: bool
  ch_validateOpened :: "openedSession \<Rightarrow> string option"
  ch_prepares :: bool

record sessionOpenParams =
  op_session_id :: string
  op_profile_id :: "string option"
  op_cwd :: "string option"
  op_after :: "uiCursor option"

datatype candidateOutput =
    CConnect
  | COpen sessionOpenParams
  | CHydrate string
  | CPrepareHydrate sessionHydrateResult
  | CDisconnect
  | CResolved
  | CRejected string
  | CSnapshot candidateSnapshot
  | CThrown string

datatype candidateEvent =
    CNotified rpcNotification
  | CAbort
  | CConnected "string option"
  | COpened "string + openedSession"
  | CHydrated "string + sessionHydrateResult"
  | CHydratePrepared "string option"
  | CRelease
  | CDispose

definition CANDIDATE_LIMIT :: nat where
  "CANDIDATE_LIMIT = 4096"

definition some_text :: "string \<Rightarrow> string option" where
  "some_text s = (if s = [] then None else Some s)"

definition openParams :: "sessionConnectionInput \<Rightarrow> uiCursor option \<Rightarrow> sessionOpenParams" where
  "openParams c after =
     \<lparr>op_session_id = ci_sessionId c, op_profile_id = some_text (ci_profileId c),
      op_cwd = some_text (ci_cwd c), op_after = after\<rparr>"

definition cancelled_message :: "candidate \<Rightarrow> string" where
  "cancelled_message c =
     (if cd_retained c then ''Retained candidate opening was cancelled''
      else ''Candidate session opening was cancelled'')"

definition overflow_message :: "candidate \<Rightarrow> string" where
  "overflow_message c =
     (if cd_retained c then ''The retained candidate emitted too many events while opening.''
      else ''The candidate session emitted too many events while opening.'')"

section \<open>Failing closed\<close>

definition detach :: "candidate \<Rightarrow> candidate \<times> candidateOutput list" where
  "detach c = (c\<lparr>cd_subscribed := False\<rparr>, if cd_retained c then [] else [CDisconnect])"

text \<open>
  \<open>failClosed\<close> and \<open>fail\<close>: the first error is kept, the waiting stage and with it the whole function
  are rejected.
\<close>

definition fail_closed :: "string \<Rightarrow> candidate \<Rightarrow> candidate \<times> candidateOutput list" where
  "fail_closed message c =
     (let error = (case cd_terminalError c of None \<Rightarrow> message | Some e \<Rightarrow> e);
          c1 = c\<lparr>cd_terminalError := Some error\<rparr>
      in if cd_state c = CReleased \<or> cd_state c = CDisposed then (c1, [])
         else let (c2, out) = detach (c1\<lparr>cd_state := CDisposed, cd_stage := Finished\<rparr>)
              in (c2, out @ (if cd_stage c = Finished then [] else [CRejected error])))"

text \<open>\<open>assertPreparing\<close>: the error it raises, when there is none yet.\<close>

definition preparing_error :: "candidateHost \<Rightarrow> candidate \<Rightarrow> string option" where
  "preparing_error h c =
     (case cd_terminalError c of
        Some e \<Rightarrow> Some e
      | None \<Rightarrow>
          if cd_aborted c then Some (cancelled_message c)
          else if cd_retained c \<and> \<not> ch_connected h
          then Some ''The retained owner transport disconnected''
          else None)"

definition while_preparing ::
    "candidateHost \<Rightarrow> candidate \<Rightarrow> (candidate \<Rightarrow> candidate \<times> candidateOutput list)
       \<Rightarrow> candidate \<times> candidateOutput list" where
  "while_preparing h c continue =
     (case preparing_error h c of
        Some e \<Rightarrow> fail_closed e c
      | None \<Rightarrow> continue c)"

section \<open>The stages\<close>

definition new_candidate ::
    "bool \<Rightarrow> nat \<Rightarrow> sessionConnectionInput \<Rightarrow> uiCursor option \<Rightarrow> bool \<Rightarrow> candidate" where
  "new_candidate retained client config after aborted =
     \<lparr>cd_retained = retained, cd_client = client, cd_config = config, cd_after = after,
      cd_stage = (if retained then AwaitOpen else AwaitConnect), cd_state = CPreparing,
      cd_terminalError = None, cd_subscribed = True, cd_aborted = aborted, cd_notifications = [],
      cd_opened = None, cd_hydrated = None\<rparr>"

definition await_open :: "candidate \<Rightarrow> candidate \<times> candidateOutput list" where
  "await_open c = (c\<lparr>cd_stage := AwaitOpen\<rparr>, [COpen (openParams (cd_config c) (cd_after c))])"

text \<open>
  The function up to its first await. A signal that is aborted already stops the isolated candidate
  before it has a client, and the retained one at its first check.
\<close>

definition candidate_start ::
    "candidateHost \<Rightarrow> bool \<Rightarrow> nat \<Rightarrow> sessionConnectionInput \<Rightarrow> uiCursor option \<Rightarrow> bool
       \<Rightarrow> candidate \<times> candidateOutput list" where
  "candidate_start h retained client config after aborted =
     (let c = new_candidate retained client config after aborted
      in if \<not> retained \<and> aborted
         then (c\<lparr>cd_state := CDisposed, cd_stage := Finished, cd_subscribed := False\<rparr>,
               [CRejected (cancelled_message c)])
         else while_preparing h c (\<lambda>c. if retained then await_open c else (c, [CConnect])))"

definition candidate_connected ::
    "candidateHost \<Rightarrow> string option \<Rightarrow> candidate \<Rightarrow> candidate \<times> candidateOutput list" where
  "candidate_connected h answer c =
     (if cd_stage c \<noteq> AwaitConnect then (c, [])
      else case answer of
             Some e \<Rightarrow> fail_closed e c
           | None \<Rightarrow> while_preparing h c await_open)"

definition candidate_opened ::
    "candidateHost \<Rightarrow> string + openedSession \<Rightarrow> candidate \<Rightarrow> candidate \<times> candidateOutput list" where
  "candidate_opened h answer c =
     (if cd_stage c \<noteq> AwaitOpen then (c, [])
      else case answer of
             Inl e \<Rightarrow> fail_closed e c
           | Inr opened \<Rightarrow>
               while_preparing h c
                 (\<lambda>c. case ch_validateOpened h opened of
                        Some e \<Rightarrow> fail_closed e c
                      | None \<Rightarrow> (c\<lparr>cd_stage := AwaitHydrate, cd_opened := Some opened\<rparr>,
                                 [CHydrate (so_session_id opened)])))"

definition prepared :: "candidate \<Rightarrow> candidate \<times> candidateOutput list" where
  "prepared c = (c\<lparr>cd_stage := Finished, cd_state := CPrepared\<rparr>, [CResolved])"

definition candidate_hydrated ::
    "candidateHost \<Rightarrow> string + sessionHydrateResult \<Rightarrow> candidate \<Rightarrow> candidate \<times> candidateOutput list" where
  "candidate_hydrated h answer c =
     (if cd_stage c \<noteq> AwaitHydrate then (c, [])
      else case answer of
             Inl e \<Rightarrow> fail_closed e c
           | Inr hydrated \<Rightarrow>
               while_preparing h c
                 (\<lambda>c. if Some (hr_session_id hydrated) \<noteq> map_option so_session_id (cd_opened c)
                      then fail_closed ''session/hydrate returned another session'' c
                      else let c1 = c\<lparr>cd_hydrated := Some hydrated\<rparr>
                           in if ch_prepares h
                              then (c1\<lparr>cd_stage := AwaitPrepare\<rparr>, [CPrepareHydrate hydrated])
                              else prepared c1))"

definition candidate_hydrate_prepared ::
    "candidateHost \<Rightarrow> string option \<Rightarrow> candidate \<Rightarrow> candidate \<times> candidateOutput list" where
  "candidate_hydrate_prepared h answer c =
     (if cd_stage c \<noteq> AwaitPrepare then (c, [])
      else case answer of
             Some e \<Rightarrow> fail_closed e c
           | None \<Rightarrow> while_preparing h c prepared)"

text \<open>
  The notification listener. A borrowed socket carries every Session, so the retained candidate
  looks at the scope before it counts.
\<close>

definition candidate_notified ::
    "rpcNotification \<Rightarrow> candidate \<Rightarrow> candidate \<times> candidateOutput list" where
  "candidate_notified n c =
     (if \<not> cd_subscribed c then (c, [])
      else if cd_retained c \<and> \<not> notificationMatchesSessionScope n (ci_sessionId (cd_config c))
      then (c, [])
      else if length (cd_notifications c) \<ge> CANDIDATE_LIMIT then fail_closed (overflow_message c) c
      else (c\<lparr>cd_notifications := cd_notifications c @ [n]\<rparr>, []))"

definition candidate_abort :: "candidate \<Rightarrow> candidate \<times> candidateOutput list" where
  "candidate_abort c =
     (let c1 = c\<lparr>cd_aborted := True\<rparr>
      in if cd_subscribed c then fail_closed (cancelled_message c) c1 else (c1, []))"

definition candidate_snapshot :: "candidate \<Rightarrow> candidateSnapshot option" where
  "candidate_snapshot c =
     (case (cd_opened c, cd_hydrated c) of
        (Some opened, Some hydrated) \<Rightarrow>
          Some \<lparr>cn_client = cd_client c, cn_opened = opened, cn_hydrated = hydrated,
                cn_notifications = cd_notifications c\<rparr>
      | _ \<Rightarrow> None)"

definition candidate_release :: "candidateHost \<Rightarrow> candidate \<Rightarrow> candidate \<times> candidateOutput list" where
  "candidate_release h c =
     (if cd_state c \<noteq> CPrepared
      then (c, [CThrown (case cd_terminalError c of
                           Some e \<Rightarrow> e
                         | None \<Rightarrow> if cd_retained c then ''Retained candidate is not prepared''
                                   else ''Candidate session is not prepared'')])
      else case preparing_error h c of
             Some e \<Rightarrow> (let (c1, out) = fail_closed e c in (c1, out @ [CThrown e]))
           | None \<Rightarrow>
               (c\<lparr>cd_state := CReleased, cd_subscribed := False\<rparr>,
                case candidate_snapshot c of None \<Rightarrow> [] | Some s \<Rightarrow> [CSnapshot s]))"

text \<open>The caller holds \<open>dispose\<close> only once the candidate is prepared.\<close>

definition candidate_dispose :: "candidate \<Rightarrow> candidate \<times> candidateOutput list" where
  "candidate_dispose c =
     (if cd_state c \<noteq> CPrepared then (c, []) else detach (c\<lparr>cd_state := CDisposed\<rparr>))"

fun candidate_step ::
    "candidateHost \<Rightarrow> candidateEvent \<Rightarrow> candidate \<Rightarrow> candidate \<times> candidateOutput list" where
  "candidate_step h (CNotified n) c = candidate_notified n c"
| "candidate_step h CAbort c = candidate_abort c"
| "candidate_step h (CConnected a) c = candidate_connected h a c"
| "candidate_step h (COpened a) c = candidate_opened h a c"
| "candidate_step h (CHydrated a) c = candidate_hydrated h a c"
| "candidate_step h (CHydratePrepared a) c = candidate_hydrate_prepared h a c"
| "candidate_step h CRelease c = candidate_release h c"
| "candidate_step h CDispose c = candidate_dispose c"

fun candidate_run ::
    "(candidateHost \<times> candidateEvent) list \<Rightarrow> candidate \<times> candidateOutput list
       \<Rightarrow> candidate \<times> candidateOutput list" where
  "candidate_run [] r = r"
| "candidate_run ((h, e) # es) (c, out) =
     candidate_run es (let (c', new) = candidate_step h e c in (c', out @ new))"

text \<open>The check of a saved link: the workspace the server opened is the one the link names.\<close>

definition validateCandidateWorkspace ::
    "sessionConnectionInput \<Rightarrow> openedSession \<Rightarrow> bool \<Rightarrow> string option" where
  "validateCandidateWorkspace config opened exact =
     (if exact \<and> (ci_cwd config = [] \<or> so_workspace_root opened \<noteq> Some (ci_cwd config))
      then Some ''The server opened a different workspace from the saved link.''
      else None)"

section \<open>One owner for the transport, and a whole snapshot\<close>

fun notified :: "candidateEvent \<Rightarrow> rpcNotification option" where
  "notified (CNotified n) = Some n"
| "notified _ = None"

definition in_scope :: "bool \<Rightarrow> sessionConnectionInput \<Rightarrow> rpcNotification \<Rightarrow> bool" where
  "in_scope retained config n =
     (retained \<longrightarrow> notificationMatchesSessionScope n (ci_sessionId config))"

definition is_settled :: "candidateOutput \<Rightarrow> bool" where
  "is_settled x = (x = CResolved \<or> (\<exists>e. x = CRejected e))"

definition is_snapshot :: "candidateOutput \<Rightarrow> bool" where
  "is_snapshot x = (\<exists>s. x = CSnapshot s)"

lemma output_kinds [simp]:
  "is_settled CResolved" "is_settled (CRejected e)" "\<not> is_settled (CSnapshot s)"
  "\<not> is_settled CDisconnect" "\<not> is_settled CConnect" "\<not> is_settled (COpen p)"
  "\<not> is_settled (CHydrate t)" "\<not> is_settled (CPrepareHydrate r)" "\<not> is_settled (CThrown e)"
  "is_snapshot (CSnapshot s)" "\<not> is_snapshot CResolved" "\<not> is_snapshot (CRejected e)"
  "\<not> is_snapshot CDisconnect" "\<not> is_snapshot CConnect" "\<not> is_snapshot (COpen p)"
  "\<not> is_snapshot (CHydrate t)" "\<not> is_snapshot (CPrepareHydrate r)" "\<not> is_snapshot (CThrown e)"
  by (simp_all add: is_settled_def is_snapshot_def)

definition whole :: "candidate \<Rightarrow> bool" where
  "whole c \<longleftrightarrow> (\<exists>opened hydrated. cd_opened c = Some opened \<and> cd_hydrated c = Some hydrated
                 \<and> hr_session_id hydrated = so_session_id opened)"

lemma whole_frame [simp]:
  "whole (c\<lparr>cd_terminalError := e\<rparr>) = whole c" "whole (c\<lparr>cd_stage := st\<rparr>) = whole c"
  "whole (c\<lparr>cd_state := s\<rparr>) = whole c" "whole (c\<lparr>cd_subscribed := b\<rparr>) = whole c"
  "whole (c\<lparr>cd_aborted := b\<rparr>) = whole c" "whole (c\<lparr>cd_notifications := ns\<rparr>) = whole c"
  by (simp_all add: whole_def)

text \<open>What every reachable candidate keeps; \<open>seen\<close> are the notifications that arrived so far.\<close>

definition candidate_ok :: "rpcNotification list \<Rightarrow> candidate \<Rightarrow> bool" where
  "candidate_ok seen c \<longleftrightarrow>
     length (cd_notifications c) \<le> CANDIDATE_LIMIT
     \<and> (cd_state c = CPreparing \<or> cd_state c = CPrepared \<longrightarrow>
          cd_notifications c = filter (in_scope (cd_retained c) (cd_config c)) seen \<and> cd_subscribed c)
     \<and> (cd_state c = CReleased \<or> cd_state c = CDisposed \<longrightarrow> \<not> cd_subscribed c)
     \<and> (cd_state c = CPreparing \<longleftrightarrow> cd_stage c \<noteq> Finished)
     \<and> (cd_stage c = AwaitPrepare \<or> cd_state c = CPrepared \<or> cd_state c = CReleased \<longrightarrow>
          whole c)"

definition closed_count :: "candidate \<Rightarrow> nat" where
  "closed_count c = (if cd_state c = CDisposed \<and> \<not> cd_retained c then 1 else 0)"

definition settled_count :: "candidate \<Rightarrow> nat" where
  "settled_count c = (if cd_stage c = Finished then 1 else 0)"

definition released_count :: "candidate \<Rightarrow> nat" where
  "released_count c = (if cd_state c = CReleased then 1 else 0)"

lemma count_frame [simp]:
  "closed_count (c\<lparr>cd_notifications := ns\<rparr>) = closed_count c"
  "settled_count (c\<lparr>cd_notifications := ns\<rparr>) = settled_count c"
  "released_count (c\<lparr>cd_notifications := ns\<rparr>) = released_count c"
  "closed_count (c\<lparr>cd_hydrated := r\<rparr>) = closed_count c" "closed_count (c\<lparr>cd_aborted := b\<rparr>) = closed_count c"
  "settled_count (c\<lparr>cd_hydrated := r\<rparr>) = settled_count c"
  "settled_count (c\<lparr>cd_aborted := b\<rparr>) = settled_count c"
  "released_count (c\<lparr>cd_hydrated := r\<rparr>) = released_count c"
  "released_count (c\<lparr>cd_aborted := b\<rparr>) = released_count c"
  by (simp_all add: closed_count_def settled_count_def released_count_def)

definition outputs :: "(candidateOutput \<Rightarrow> bool) \<Rightarrow> candidateOutput list \<Rightarrow> nat" where
  "outputs P out = length (filter P out)"

lemma outputs_simps [simp]:
  "outputs P [] = 0" "outputs P (x # xs) = (if P x then 1 else 0) + outputs P xs"
  "outputs P (xs @ ys) = outputs P xs + outputs P ys"
  by (simp_all add: outputs_def)

definition accounts :: "candidate \<Rightarrow> candidateOutput list \<Rightarrow> candidate \<Rightarrow> bool" where
  "accounts c out c' \<longleftrightarrow>
     closed_count c' = closed_count c + outputs ((=) CDisconnect) out
     \<and> settled_count c' = settled_count c + outputs is_settled out
     \<and> released_count c' = released_count c + outputs is_snapshot out"

definition step_ok ::
    "rpcNotification list \<Rightarrow> candidate \<Rightarrow> candidate \<times> candidateOutput list \<Rightarrow> bool" where
  "step_ok seen c r \<longleftrightarrow>
     candidate_ok seen (fst r) \<and> cd_retained (fst r) = cd_retained c
     \<and> cd_config (fst r) = cd_config c \<and> accounts c (snd r) (fst r)"

lemmas candidate_defs = fail_closed_def detach_def while_preparing_def await_open_def prepared_def
  candidate_ok_def step_ok_def accounts_def closed_count_def settled_count_def released_count_def
  Let_def

lemma fail_closed_ok: "candidate_ok seen c \<Longrightarrow> step_ok seen' c (fail_closed e c)"
  by (cases "cd_state c"; cases "cd_terminalError c"; cases "cd_stage c = Finished")
     (auto simp: candidate_defs)

lemma while_preparing_ok:
  "\<lbrakk>candidate_ok seen c; step_ok seen c (continue c)\<rbrakk> \<Longrightarrow> step_ok seen c (while_preparing h c continue)"
  by (simp add: while_preparing_def fail_closed_ok split: option.split)

lemma unchanged_ok: "candidate_ok seen c \<Longrightarrow> step_ok seen c (c, [])"
  by (simp add: step_ok_def accounts_def)

text \<open>One await to the next, and the last one to the end.\<close>

lemma next_await_ok:
  assumes "candidate_ok seen c" and "cd_stage c \<noteq> Finished" and "cd_stage c' \<noteq> Finished"
    and "cd_stage c' = AwaitPrepare \<Longrightarrow> whole c'"
    and "cd_state c' = cd_state c" and "cd_notifications c' = cd_notifications c"
    and "cd_subscribed c' = cd_subscribed c" and "cd_retained c' = cd_retained c"
    and "cd_config c' = cd_config c" and "\<not> is_settled x" and "\<not> is_snapshot x" and "x \<noteq> CDisconnect"
  shows "step_ok seen c (c', [x])"
  using assms by (auto simp: candidate_ok_def step_ok_def accounts_def closed_count_def
      settled_count_def released_count_def)

lemma prepared_ok:
  assumes "candidate_ok seen c" and "cd_stage c \<noteq> Finished" and "whole c"
  shows "step_ok seen c (prepared c)"
  using assms by (auto simp: candidate_defs whole_def)

lemma candidate_connected_ok:
  assumes "candidate_ok seen c"
  shows "step_ok seen c (candidate_connected h a c)"
proof (cases "cd_stage c = AwaitConnect")
  case True
  have "step_ok seen c (await_open c)"
    unfolding await_open_def by (rule next_await_ok [OF assms]) (simp_all add: True)
  with True assms show ?thesis
    by (simp add: candidate_connected_def while_preparing_ok fail_closed_ok split: option.split)
qed (simp add: candidate_connected_def unchanged_ok assms)

lemma candidate_opened_ok:
  assumes "candidate_ok seen c"
  shows "step_ok seen c (candidate_opened h a c)"
proof (cases "cd_stage c = AwaitOpen")
  case True
  have "step_ok seen c (c\<lparr>cd_stage := AwaitHydrate, cd_opened := Some opened\<rparr>,
                        [CHydrate (so_session_id opened)])" for opened
    by (rule next_await_ok [OF assms]) (simp_all add: True)
  with True assms show ?thesis
    by (simp add: candidate_opened_def while_preparing_ok fail_closed_ok split: option.split sum.split)
qed (simp add: candidate_opened_def unchanged_ok assms)

lemma candidate_hydrated_ok:
  assumes "candidate_ok seen c"
  shows "step_ok seen c (candidate_hydrated h a c)"
proof (cases "cd_stage c = AwaitHydrate")
  case True
  have "step_ok seen c
          (let c1 = c\<lparr>cd_hydrated := Some hydrated\<rparr>
           in if ch_prepares h then (c1\<lparr>cd_stage := AwaitPrepare\<rparr>, [CPrepareHydrate hydrated])
              else prepared c1)"
    if same: "Some (hr_session_id hydrated) = map_option so_session_id (cd_opened c)" for hydrated
  proof -
    let ?c1 = "c\<lparr>cd_hydrated := Some hydrated\<rparr>"
    from same obtain opened where "cd_opened c = Some opened" "hr_session_id hydrated = so_session_id opened"
      by (cases "cd_opened c") auto
    then have w: "whole ?c1" "whole (?c1\<lparr>cd_stage := AwaitPrepare\<rparr>)" by (simp_all add: whole_def)
    have "step_ok seen c (?c1\<lparr>cd_stage := AwaitPrepare\<rparr>, [CPrepareHydrate hydrated])"
      by (rule next_await_ok [OF assms]) (simp_all add: True w)
    moreover have "candidate_ok seen ?c1"
      using assms True w(1) by (auto simp: candidate_ok_def)
    from prepared_ok [OF this] True w have "step_ok seen ?c1 (prepared ?c1)" by simp
    then have "step_ok seen c (prepared ?c1)" by (simp add: step_ok_def accounts_def)
    ultimately show ?thesis by (simp add: Let_def)
  qed
  with True assms show ?thesis
    by (simp add: candidate_hydrated_def while_preparing_ok fail_closed_ok split: sum.split)
qed (simp add: candidate_hydrated_def unchanged_ok assms)

lemma candidate_hydrate_prepared_ok:
  assumes "candidate_ok seen c"
  shows "step_ok seen c (candidate_hydrate_prepared h a c)"
proof (cases "cd_stage c = AwaitPrepare")
  case True
  with assms have "whole c" by (simp add: candidate_ok_def)
  with True assms have "step_ok seen c (prepared c)" by (simp add: prepared_ok)
  with True assms show ?thesis
    by (simp add: candidate_hydrate_prepared_def while_preparing_ok fail_closed_ok split: option.split)
qed (simp add: candidate_hydrate_prepared_def unchanged_ok assms)

lemma candidate_notified_ok:
  assumes "candidate_ok seen c"
  shows "step_ok (seen @ [n]) c (candidate_notified n c)"
proof (cases "cd_subscribed c")
  case True
  then have live: "cd_state c = CPreparing \<or> cd_state c = CPrepared"
    using assms by (cases "cd_state c") (simp_all add: candidate_ok_def)
  show ?thesis
  proof (cases "in_scope (cd_retained c) (cd_config c) n \<and> CANDIDATE_LIMIT \<le> length (cd_notifications c)")
    case True
    with \<open>cd_subscribed c\<close> have "candidate_notified n c = fail_closed (overflow_message c) c"
      by (auto simp: candidate_notified_def in_scope_def)
    then show ?thesis by (simp add: fail_closed_ok [OF assms])
  next
    case room: False
    show ?thesis
    proof (cases "in_scope (cd_retained c) (cd_config c) n")
      case True
      with room \<open>cd_subscribed c\<close>
      have eq: "candidate_notified n c = (c\<lparr>cd_notifications := cd_notifications c @ [n]\<rparr>, [])"
        by (auto simp: candidate_notified_def in_scope_def)
      from True room live assms \<open>cd_subscribed c\<close> show ?thesis
        unfolding eq by (auto simp: step_ok_def accounts_def candidate_ok_def)
    next
      case False
      then have eq: "candidate_notified n c = (c, [])"
        by (auto simp: candidate_notified_def in_scope_def)
      from False live assms \<open>cd_subscribed c\<close> show ?thesis
        unfolding eq by (auto simp: step_ok_def accounts_def candidate_ok_def)
    qed
  qed
next
  case False
  with assms show ?thesis
    by (auto simp: candidate_notified_def step_ok_def accounts_def candidate_ok_def)
qed

lemma candidate_abort_ok:
  assumes "candidate_ok seen c"
  shows "step_ok seen c (candidate_abort c)"
proof -
  let ?c = "c\<lparr>cd_aborted := True\<rparr>"
  have same: "candidate_ok seen ?c" using assms by (auto simp: candidate_ok_def)
  have "step_ok seen c r" if "step_ok seen ?c r" for r
    using that by (simp add: step_ok_def accounts_def)
  with fail_closed_ok [OF same] unchanged_ok [OF same] show ?thesis
    by (simp add: candidate_abort_def Let_def)
qed

lemma candidate_release_ok:
  assumes "candidate_ok seen c"
  shows "step_ok seen c (candidate_release h c)"
proof -
  have thrown: "step_ok seen c (c, [CThrown e])" for e
    using assms by (simp add: step_ok_def accounts_def)
  have "step_ok seen c (let (c1, out) = fail_closed e c in (c1, out @ [CThrown e]))" for e
    using fail_closed_ok [OF assms, of seen e] by (simp add: step_ok_def accounts_def case_prod_beta)
  moreover have "step_ok seen c (c\<lparr>cd_state := CReleased, cd_subscribed := False\<rparr>,
      case candidate_snapshot c of None \<Rightarrow> [] | Some s \<Rightarrow> [CSnapshot s])" if "cd_state c = CPrepared"
    using assms that
    by (auto simp: candidate_snapshot_def step_ok_def accounts_def candidate_ok_def whole_def
        closed_count_def settled_count_def released_count_def)
  ultimately show ?thesis
    using thrown by (simp add: candidate_release_def split: option.split)
qed

lemma candidate_dispose_ok:
  assumes "candidate_ok seen c"
  shows "step_ok seen c (candidate_dispose c)"
proof (cases "cd_state c = CPrepared")
  case True
  with assms show ?thesis by (auto simp: candidate_dispose_def candidate_defs)
qed (simp add: candidate_dispose_def unchanged_ok assms)

definition arrived :: "(candidateHost \<times> candidateEvent) list \<Rightarrow> rpcNotification list" where
  "arrived es = List.map_filter (\<lambda>e. notified (snd e)) es"

lemma candidate_step_ok:
  "candidate_ok seen c \<Longrightarrow> step_ok (seen @ arrived [(h, e)]) c (candidate_step h e c)"
  by (cases e) (simp_all add: arrived_def List.map_filter_simps candidate_notified_ok
      candidate_abort_ok candidate_connected_ok candidate_opened_ok candidate_hydrated_ok
      candidate_hydrate_prepared_ok candidate_release_ok candidate_dispose_ok)

lemma arrived_Cons: "arrived (x # es) = arrived [x] @ arrived es"
  by (simp add: arrived_def List.map_filter_def)

lemma candidate_run_ok:
  assumes "step_ok seen c0 r"
  shows "step_ok (seen @ arrived es) c0 (candidate_run es r)"
  using assms
proof (induction es arbitrary: r seen)
  case Nil
  then show ?case by (simp add: arrived_def List.map_filter_simps)
next
  case (Cons x es)
  obtain h e where x: "x = (h, e)" by (rule prod.exhaust)
  obtain c out where r: "r = (c, out)" by (rule prod.exhaust)
  from Cons.prems r have "candidate_ok seen c" by (simp add: step_ok_def)
  from candidate_step_ok [OF this, of h e] Cons.prems r
  have "step_ok (seen @ arrived [(h, e)]) c0
          (fst (candidate_step h e c), out @ snd (candidate_step h e c))"
    by (simp add: step_ok_def accounts_def)
  from Cons.IH [OF this] show ?case
    unfolding x r arrived_Cons [of "(h, e)" es] by (simp add: case_prod_beta)
qed

lemma candidate_start_ok:
  fixes retained client config after h
  defines "c0 \<equiv> new_candidate retained client config after False"
  shows "step_ok [] c0 (candidate_start h retained client config after False)"
proof -
  have ok: "candidate_ok [] c0" by (simp add: candidate_ok_def c0_def new_candidate_def)
  have stage: "cd_stage c0 \<noteq> Finished" "cd_stage c0 \<noteq> AwaitPrepare"
    by (simp_all add: c0_def new_candidate_def)
  have "step_ok [] c0 (await_open c0)"
    unfolding await_open_def by (rule next_await_ok [OF ok stage(1)]) simp_all
  moreover have "step_ok [] c0 (c0, [CConnect])"
    by (rule next_await_ok [OF ok stage(1)]) (simp_all add: stage)
  ultimately have "step_ok [] c0 (if retained then await_open c0 else (c0, [CConnect]))" by simp
  with while_preparing_ok [OF ok, where continue =
      "\<lambda>c. if retained then await_open c else (c, [CConnect])"] show ?thesis
    by (simp add: candidate_start_def c0_def [symmetric])
qed

text \<open>
  C8: The socket of an isolated candidate has one owner. Whatever the server answers, however many
  notifications arrive and whenever the signal is aborted, the socket is closed once if the
  candidate failed or was disposed of, and otherwise not at all; the snapshot that hands it over is
  given at most once and never after the socket was closed. The promise is settled at most once.
\<close>
theorem candidate_transport_has_one_owner:
  fixes es config after h client
  defines "r \<equiv> candidate_run es (candidate_start h False client config after False)"
  shows "outputs ((=) CDisconnect) (snd r) = (if cd_state (fst r) = CDisposed then 1 else 0)
     \<and> outputs is_snapshot (snd r) = (if cd_state (fst r) = CReleased then 1 else 0)
     \<and> outputs is_settled (snd r) = (if cd_stage (fst r) = Finished then 1 else 0)"
proof -
  from candidate_run_ok [OF candidate_start_ok, of es False client config after h]
  have "step_ok (arrived es) (new_candidate False client config after False) r" by (simp add: r_def)
  then show ?thesis
    by (auto simp: step_ok_def accounts_def closed_count_def settled_count_def released_count_def
        new_candidate_def)
qed

text \<open>
  What a candidate hands over is complete. When \<open>release\<close> returns a snapshot, its hydrate result
  belongs to the Session that was opened, and its notifications are all those of the Session that
  arrived while it was prepared, in their order, at most 4096 of them.
\<close>
theorem released_candidate_is_complete:
  assumes "CSnapshot s \<in> set (snd (candidate_release h'
             (fst (candidate_run es (candidate_start h retained client config after False)))))"
  shows "hr_session_id (cn_hydrated s) = so_session_id (cn_opened s)
     \<and> cn_notifications s = filter (in_scope retained config) (arrived es)
     \<and> length (cn_notifications s) \<le> CANDIDATE_LIMIT"
proof -
  let ?c = "fst (candidate_run es (candidate_start h retained client config after False))"
  have run: "step_ok (arrived es) (new_candidate retained client config after False)
               (candidate_run es (candidate_start h retained client config after False))"
    using candidate_run_ok [OF candidate_start_ok, of es retained client config after h] by simp
  then have ok: "candidate_ok (arrived es) ?c" and "cd_retained ?c = retained" "cd_config ?c = config"
    by (simp_all add: step_ok_def new_candidate_def)
  moreover from assms have "cd_state ?c = CPrepared" "candidate_snapshot ?c = Some s"
    by (auto simp: candidate_release_def fail_closed_def detach_def Let_def
        split: if_splits option.splits)
  ultimately show ?thesis
    by (auto simp: candidate_snapshot_def candidate_ok_def whole_def split: option.splits)
qed

definition sample_config :: sessionConnectionInput where
  "sample_config = \<lparr>ci_endpoint = ''ws'', ci_token = ''t'', ci_sessionId = ''s'', ci_profileId = [],
     ci_cwd = ''/w''\<rparr>"

definition sample_opened :: openedSession where
  "sample_opened = \<lparr>so_session_id = ''s'', so_active_profile_id = Some ''p'',
     so_workspace_root = Some ''/w'', so_capabilities = None\<rparr>"

definition sample_hydrate :: sessionHydrateResult where
  "sample_hydrate = \<lparr>hr_session_id = ''s'', hr_cursor = \<lparr>cur_stream = ''s'', cur_seq = 4\<rparr>,
     hr_context = None, hr_context_state = None, hr_messages = None, hr_file_mutations = None,
     hr_threads = None, hr_turns = None, hr_pending_approvals = None, hr_pending_questions = None,
     hr_replayed_envelopes = None, hr_replayed_tool_envelopes = None,
     hr_replayed_projection_envelopes = None, hr_projection_thread_sequences = None\<rparr>"

definition sample_notice :: "string \<Rightarrow> rpcNotification" where
  "sample_notice sid = \<lparr>nt_method = ''message/delta'',
     nt_params = Some (JObj [(''session_id'', JStr sid)])\<rparr>"

definition sample_host :: candidateHost where
  "sample_host = \<lparr>ch_connected = True, ch_validateOpened = (\<lambda>_. None), ch_prepares = False\<rparr>"

definition sample_events :: "(candidateHost \<times> candidateEvent) list" where
  "sample_events = map (Pair sample_host)
     [CNotified (sample_notice ''s''), COpened (Inr sample_opened), CNotified (sample_notice ''x''),
      CHydrated (Inr sample_hydrate)]"

definition sample_snapshot :: candidateSnapshot where
  "sample_snapshot = \<lparr>cn_client = 7, cn_opened = sample_opened, cn_hydrated = sample_hydrate,
     cn_notifications = [sample_notice ''s'']\<rparr>"

lemma sample_released:
  "snd (candidate_release sample_host
     (fst (candidate_run sample_events (candidate_start sample_host True 7 sample_config None False))))
   = [CSnapshot sample_snapshot]"
  by code_simp

lemma released_candidate_is_complete_witness:
  "cn_notifications sample_snapshot = filter (in_scope True sample_config) (arrived sample_events)"
  using released_candidate_is_complete
    [of sample_snapshot sample_host sample_events sample_host True 7 sample_config None]
  by (simp add: sample_released)

end
