(* ===== verification/SessionRuntime.thy ===== *)
theory SessionRuntime
  imports CandidateSession Transport
begin

text \<open>
  The authority of one server transport and its durable Session:
  \<open>ActiveSessionRuntime\<close> of \<open>features/session/active-session-runtime.ts\<close>. The fields of the class are
  the record \<open>sessionRuntime\<close>; every method is a function to the new state and the effects. An
  \<open>async\<close> method ends at each await with an entry of \<open>sr_calls\<close>, and the answer to that entry is an
  event. Clients are numbers; what a client reports (status, errors, notifications) are events, also
  when the runtime itself closed it. Listeners do not call back while they are notified.
\<close>

section \<open>Data\<close>

datatype runtimePhase =
    RIdle | RConnecting | RAuthenticated | RReady | RRecovering | RReconnectWait | RReconnecting
  | RError | RDisconnected

record activeAuthority =
  aa_generation :: nat
  aa_client :: nat
  aa_config :: sessionConnectionInput
  aa_sessionId :: string
  aa_profileId :: string
  aa_cwd :: string
  aa_capabilities :: "uiProtocolCapabilities option"
  aa_opened :: "openedSession option"

datatype hydrateReason = ByCandidate | ByRecovery | ByReconnect

datatype clearedReason = OnSelect | OnResume | OnDisconnect

text \<open>An assistant identity is its message, turn and segment.\<close>

type_synonym assistantIdentity = "string \<times> string \<times> string"

datatype runtimeEvent =
    EvAuthenticated bool activeAuthority
  | EvRaw rpcNotification
  | EvHydrate hydrateReason activeAuthority sessionHydrateResult "assistantIdentity list"
  | EvNotification activeAuthority rpcNotification
  | EvReady hydrateReason activeAuthority
  | EvError activeAuthority string
  | EvCleared clearedReason

datatype runtimeFailure = Failure string | StaleAuthority | HydrateMismatch string string

record bufferedNotification =
  bn_notification :: rpcNotification
  bn_identityOnly :: bool
  bn_retried :: bool

datatype disposition = Settled | Recovering | Terminal

text \<open>A target is compared by identity; \<open>tg_id\<close> is that identity.\<close>

record runtimeTarget =
  tg_id :: nat
  tg_session :: bool
  tg_config :: sessionConnectionInput

text \<open>Who called \<open>#hydrate\<close>; all three pass the authority the hydrate is for.\<close>

datatype hydrateCaller = FromReconnect | FromNotification | FromRehydrate

datatype runtimeCall =
    AuthConnect activeAuthority
  | AuthList activeAuthority
  | ReconnectConnect activeAuthority runtimeTarget "uiCursor option"
  | ReconnectList activeAuthority
  | ReconnectOpen activeAuthority runtimeTarget "uiCursor option"
  | HydrateCall activeAuthority hydrateReason nat hydrateCaller
  | PrepareCall activeAuthority hydrateReason nat hydrateCaller sessionHydrateResult

datatype diagnosticKind = DConnected | DHydrated | DRecovered | DReconnectScheduled | DFailed

record runtimeSnapshot =
  sn_phase :: runtimePhase
  sn_status :: connectionStatus
  sn_error :: "string option"
  sn_authenticated :: bool
  sn_serverCapabilities :: "uiProtocolCapabilities option"
  sn_session :: "(openedSession \<times> string \<times> string \<times> string \<times> uiProtocolCapabilities option) option"
  sn_recovery :: recoverySnapshot
  sn_diagnostics :: "(string \<times> diagnosticKind \<times> string option) list"

record sessionRuntime =
  sr_managed :: bool
  sr_generation :: nat
  sr_authority :: "activeAuthority option"
  sr_suspended :: "activeAuthority option"
  sr_binding :: "activeAuthority option"
  sr_targets :: nat
  sr_target :: "runtimeTarget option"
  sr_retryEnabled :: bool
  sr_retryAttempt :: nat
  sr_timer :: "runtimeTarget option"
  sr_recoveryOperation :: nat
  sr_recovering :: bool
  sr_recoveryBuffer :: "bufferedNotification list"
  sr_identityValidated :: bool
  sr_serverCapabilities :: "uiProtocolCapabilities option"
  sr_sessionCapabilities :: "uiProtocolCapabilities option"
  sr_opened :: "openedSession option"
  sr_phase :: runtimePhase
  sr_status :: connectionStatus
  sr_error :: "string option"
  sr_diagnostics :: "(string \<times> diagnosticKind \<times> string option) list"
  sr_projection :: durable
  sr_snapshot :: runtimeSnapshot
  sr_calls :: "(nat, runtimeCall) jsmap"
  sr_nextCall :: nat

text \<open>
  The host of a step: the clients' status, the client \<open>createClient\<close> returns, the clock, the
  caller's \<open>authorizeCommit\<close>, and the options of the constructor. The source asks
  \<open>authorizeCommit\<close> again each time: \<open>rh_authorizeFirst\<close> is its answer before a first
  adoption, \<open>rh_authorize\<close> the one before the commit (or before a refresh starts), and
  \<open>rh_authorizeLast\<close> the one after the refresh.
\<close>

record runtimeHost =
  rh_status :: "nat \<Rightarrow> connectionStatus"
  rh_newClient :: nat
  rh_now :: string
  rh_authorizeFirst :: bool
  rh_authorize :: bool
  rh_authorizeLast :: bool
  rh_validateServer :: "uiProtocolCapabilities option \<Rightarrow> string option"
  rh_validateSession :: "uiProtocolCapabilities option \<Rightarrow> string option"
  rh_fatal :: "runtimeFailure \<Rightarrow> bool"
  rh_prepares :: bool

datatype runtimeEffect =
    Published
  | Emitted runtimeEvent
  | ConnectClient nat
  | DisconnectClient nat
  | Requested nat runtimeCall
  | Scheduled nat
  | Cancelled
  | Returned "activeAuthority option"
  | Thrown runtimeFailure

type_synonym runtime_result = "sessionRuntime \<times> runtimeEffect list"

definition RECOVERY_LIMIT :: nat where
  "RECOVERY_LIMIT = 4096"

text \<open>One part of a method after the other; the effects follow each other.\<close>

primrec in_order :: "(sessionRuntime \<Rightarrow> runtime_result) list \<Rightarrow> sessionRuntime \<Rightarrow> runtime_result" where
  "in_order [] s = (s, [])"
| "in_order (f # fs) s =
     (let (s1, o1) = f s; (s2, o2) = in_order fs s1 in (s2, o1 @ o2))"

definition assign :: "(sessionRuntime \<Rightarrow> sessionRuntime) \<Rightarrow> sessionRuntime \<Rightarrow> runtime_result" where
  "assign f s = (f s, [])"

definition effect :: "runtimeEffect \<Rightarrow> sessionRuntime \<Rightarrow> runtime_result" where
  "effect e s = (s, [e])"

definition emit :: "runtimeEvent \<Rightarrow> sessionRuntime \<Rightarrow> runtime_result" where
  "emit e = effect (Emitted e)"

definition nothing :: "sessionRuntime \<Rightarrow> runtime_result" where
  "nothing s = (s, [])"

section \<open>Configurations and authorities\<close>

definition normalizeConfig :: "sessionConnectionInput \<Rightarrow> sessionConnectionInput" where
  "normalizeConfig c =
     \<lparr>ci_endpoint = trim (ci_endpoint c), ci_token = ci_token c, ci_sessionId = trim (ci_sessionId c),
      ci_profileId = trim (ci_profileId c), ci_cwd = trim (ci_cwd c)\<rparr>"

definition serverOnlyConfig :: "sessionConnectionInput \<Rightarrow> sessionConnectionInput" where
  "serverOnlyConfig c = (normalizeConfig c)\<lparr>ci_sessionId := [], ci_profileId := [], ci_cwd := []\<rparr>"

definition or_else :: "'a option \<Rightarrow> 'a \<Rightarrow> 'a" where
  "or_else v d = (case v of None \<Rightarrow> d | Some x \<Rightarrow> x)"

definition committedSessionConfig ::
    "sessionConnectionInput \<Rightarrow> openedSession \<Rightarrow> sessionConnectionInput" where
  "committedSessionConfig c opened =
     (let n = normalizeConfig c
      in n\<lparr>ci_sessionId := so_session_id opened,
           ci_profileId := or_else (so_active_profile_id opened) (ci_profileId n),
           ci_cwd := or_else (so_workspace_root opened) (ci_cwd n)\<rparr>)"

definition make_authority ::
    "nat \<Rightarrow> nat \<Rightarrow> sessionConnectionInput
       \<Rightarrow> (openedSession \<times> uiProtocolCapabilities option) option \<Rightarrow> activeAuthority" where
  "make_authority generation client config session =
     (let n = normalizeConfig config
      in \<lparr>aa_generation = generation, aa_client = client, aa_config = n,
          aa_sessionId = (case session of None \<Rightarrow> [] | Some (o', _) \<Rightarrow> so_session_id o'),
          aa_profileId = or_else (Option.bind session (\<lambda>(o', _). so_active_profile_id o')) (ci_profileId n),
          aa_cwd = or_else (Option.bind session (\<lambda>(o', _). so_workspace_root o')) (ci_cwd n),
          aa_capabilities = Option.bind session snd, aa_opened = map_option fst session\<rparr>)"

text \<open>\<open>authorityWith\<close>: the same authority after the server confirmed more about it.\<close>

definition authorityWith ::
    "sessionConnectionInput option \<Rightarrow> openedSession option \<Rightarrow> uiProtocolCapabilities option
       \<Rightarrow> activeAuthority \<Rightarrow> activeAuthority" where
  "authorityWith config opened capabilities a =
     (let n = normalizeConfig (or_else config (aa_config a));
          o' = (case opened of None \<Rightarrow> aa_opened a | Some _ \<Rightarrow> opened)
      in a\<lparr>aa_config := n,
           aa_sessionId := (case o' of None \<Rightarrow> aa_sessionId a | Some x \<Rightarrow> so_session_id x),
           aa_profileId := or_else (Option.bind o' so_active_profile_id) (ci_profileId n),
           aa_cwd := or_else (Option.bind o' so_workspace_root) (ci_cwd n),
           aa_capabilities := (case capabilities of None \<Rightarrow> aa_capabilities a | Some _ \<Rightarrow> capabilities),
           aa_opened := o'\<rparr>)"

definition rt_isCurrent :: "sessionRuntime \<Rightarrow> activeAuthority \<Rightarrow> bool" where
  "rt_isCurrent s a =
     (case sr_authority s of
        None \<Rightarrow> False
      | Some b \<Rightarrow> aa_generation b = aa_generation a \<and> aa_client b = aa_client a)"

definition operation_current :: "sessionRuntime \<Rightarrow> activeAuthority \<Rightarrow> nat \<Rightarrow> bool" where
  "operation_current s a operation = (rt_isCurrent s a \<and> sr_recoveryOperation s = operation)"

definition invalidate_operation :: "sessionRuntime \<Rightarrow> sessionRuntime" where
  "invalidate_operation s = s\<lparr>sr_recoveryOperation := Suc (sr_recoveryOperation s)\<rparr>"

fun reason_message :: "runtimeFailure \<Rightarrow> string" where
  "reason_message (Failure m) = m"
| "reason_message StaleAuthority = ''The active server connection changed before Session commit''"
| "reason_message (HydrateMismatch got expected) =
     ''session/hydrate returned session '' @ got @ '', expected '' @ expected"

section \<open>Snapshot and diagnostics\<close>

definition buildSnapshot :: "sessionRuntime \<Rightarrow> runtimeSnapshot" where
  "buildSnapshot s =
     \<lparr>sn_phase = sr_phase s, sn_status = sr_status s, sn_error = sr_error s,
      sn_authenticated = sr_identityValidated s, sn_serverCapabilities = sr_serverCapabilities s,
      sn_session =
        (case (sr_authority s, sr_opened s) of
           (Some a, Some o') \<Rightarrow>
             Some (o', aa_sessionId a, aa_profileId a, aa_cwd a, sr_sessionCapabilities s)
         | _ \<Rightarrow> None),
      sn_recovery = durable_snapshot (sr_projection s), sn_diagnostics = sr_diagnostics s\<rparr>"

definition rt_publish :: "sessionRuntime \<Rightarrow> runtime_result" where
  "rt_publish s = (s\<lparr>sr_snapshot := buildSnapshot s\<rparr>, [Published])"

definition logDiagnostic ::
    "runtimeHost \<Rightarrow> diagnosticKind \<Rightarrow> string option \<Rightarrow> sessionRuntime \<Rightarrow> sessionRuntime" where
  "logDiagnostic h kind detail s =
     (let ds = sr_diagnostics s @ [(rh_now h, kind, detail)]
      in s\<lparr>sr_diagnostics := drop (length ds - 20) ds\<rparr>)"

definition new_runtime :: "bool \<Rightarrow> sessionRuntime" where
  "new_runtime managed =
     (let d = durable_reset [] initial_durable;
          empty = \<lparr>sn_phase = RIdle, sn_status = StIdle, sn_error = None, sn_authenticated = False,
                   sn_serverCapabilities = None, sn_session = None, sn_recovery = durable_snapshot d,
                   sn_diagnostics = []\<rparr>
      in \<lparr>sr_managed = managed, sr_generation = 0, sr_authority = None, sr_suspended = None,
          sr_binding = None, sr_targets = 0, sr_target = None, sr_retryEnabled = False,
          sr_retryAttempt = 0, sr_timer = None, sr_recoveryOperation = 0, sr_recovering = False,
          sr_recoveryBuffer = [], sr_identityValidated = False, sr_serverCapabilities = None,
          sr_sessionCapabilities = None, sr_opened = None, sr_phase = RIdle, sr_status = StIdle,
          sr_error = None, sr_diagnostics = [], sr_projection = d, sr_snapshot = empty,
          sr_calls = [], sr_nextCall = 0\<rparr>)"

definition cancelReconnect :: "sessionRuntime \<Rightarrow> runtime_result" where
  "cancelReconnect s =
     (case sr_timer s of None \<Rightarrow> (s, []) | Some _ \<Rightarrow> (s\<lparr>sr_timer := None\<rparr>, [Cancelled]))"

text \<open>A request is sent and the method waits for its answer.\<close>

definition await :: "runtimeCall \<Rightarrow> sessionRuntime \<Rightarrow> runtime_result" where
  "await call s =
     (s\<lparr>sr_calls := map_put (sr_nextCall s) call (sr_calls s), sr_nextCall := Suc (sr_nextCall s)\<rparr>,
      [Requested (sr_nextCall s) call])"

definition set_target :: "bool \<Rightarrow> sessionConnectionInput \<Rightarrow> sessionRuntime \<Rightarrow> sessionRuntime" where
  "set_target session config s =
     s\<lparr>sr_targets := Suc (sr_targets s),
       sr_target := Some \<lparr>tg_id = sr_targets s, tg_session = session, tg_config = config\<rparr>\<rparr>"

section \<open>Reconnecting and failing\<close>

text \<open>The delay before the jitter of \<open>Math.random\<close>.\<close>

definition base_delay :: "nat \<Rightarrow> nat" where
  "base_delay attempt = min (500 * 2 ^ min (attempt - 1) 4) 5000"

definition scheduleReconnect :: "runtimeHost \<Rightarrow> sessionRuntime \<Rightarrow> runtime_result" where
  "scheduleReconnect h s =
     (if sr_managed s \<or> sr_timer s \<noteq> None \<or> \<not> sr_retryEnabled s then (s, [])
      else case sr_target s of
             None \<Rightarrow> (s, [])
           | Some target \<Rightarrow>
               let attempt = Suc (sr_retryAttempt s);
                   s1 = (invalidate_operation s)\<lparr>sr_retryAttempt := attempt,
                          sr_recovering := tg_session target, sr_recoveryBuffer := []\<rparr>;
                   s2 = (if tg_session target
                         then s1\<lparr>sr_projection := beginReconnect attempt (sr_projection s1)\<rparr> else s1)
               in in_order
                    [rt_publish,
                     assign (\<lambda>s. s\<lparr>sr_timer := Some target\<rparr>),
                     effect (Scheduled (base_delay attempt))]
                    (logDiagnostic h DReconnectScheduled None (s2\<lparr>sr_phase := RReconnectWait\<rparr>)))"

text \<open>Only a managed runtime keeps the socket of its authority and lets go of the listeners.\<close>

definition release_transport ::
    "runtimeHost \<Rightarrow> nat \<Rightarrow> bool \<Rightarrow> sessionRuntime \<Rightarrow> runtime_result" where
  "release_transport h client reconnect s =
     (if sr_managed s then (s\<lparr>sr_binding := None\<rparr>, [])
      else in_order [effect (DisconnectClient client),
                     if reconnect then scheduleReconnect h else nothing] s)"

definition failCurrent ::
    "runtimeHost \<Rightarrow> runtimeFailure \<Rightarrow> bool \<Rightarrow> sessionRuntime \<Rightarrow> runtime_result" where
  "failCurrent h reason reconnect s =
     (case sr_authority s of
        None \<Rightarrow> (s, [])
      | Some a \<Rightarrow>
          let message = reason_message reason;
              s1 = logDiagnostic h DFailed (Some message) (invalidate_operation s);
              fatal = ((case reason of HydrateMismatch _ _ \<Rightarrow> True | _ \<Rightarrow> False) \<or> rh_fatal h reason);
              s2 = (if fatal then s1\<lparr>sr_retryEnabled := False, sr_identityValidated := False\<rparr> else s1);
              s3 = s2\<lparr>sr_recovering := False, sr_recoveryBuffer := []\<rparr>;
              s4 = (if aa_sessionId a \<noteq> []
                    then s3\<lparr>sr_projection := durable_fail message (sr_projection s3)\<rparr> else s3)
          in in_order
               [rt_publish, release_transport h (aa_client a) (reconnect \<and> \<not> fatal)]
               (s4\<lparr>sr_phase := RError, sr_error := Some message, sr_status := rh_status h (aa_client a)\<rparr>))"

definition overflow_detail :: string where
  "overflow_detail =
     ''Recovery buffer exceeded 4096 events; reconnecting from the last durable cursor''"

definition overflowRecovery ::
    "runtimeHost \<Rightarrow> activeAuthority \<Rightarrow> sessionRuntime \<Rightarrow> runtime_result" where
  "overflowRecovery h a s =
     (if \<not> rt_isCurrent s a then (s, [])
      else in_order
             [rt_publish, release_transport h (aa_client a) True]
             ((invalidate_operation s)\<lparr>sr_recovering := False, sr_recoveryBuffer := [],
                sr_projection := durable_fail overflow_detail (sr_projection s),
                sr_phase := RError, sr_error := Some overflow_detail\<rparr>))"

definition finishRecovery ::
    "runtimeHost \<Rightarrow> hydrateReason \<Rightarrow> activeAuthority \<Rightarrow> sessionRuntime \<Rightarrow> runtime_result" where
  "finishRecovery h reason a s =
     (if \<not> rt_isCurrent s a \<or> sr_recovering s then (s, [])
      else if rh_status h (aa_client a) \<noteq> StConnected
      then failCurrent h (Failure ''The Session transport disconnected during recovery'') True s
      else in_order
             [rt_publish, emit (EvReady reason a)]
             (logDiagnostic h DRecovered None
                (s\<lparr>sr_phase := RReady, sr_status := rh_status h (aa_client a), sr_retryAttempt := 0\<rparr>)))"

section \<open>Hydrating and observing\<close>

definition hydrate_begin ::
    "activeAuthority \<Rightarrow> hydrateReason \<Rightarrow> hydrateCaller \<Rightarrow> sessionRuntime \<Rightarrow> runtime_result" where
  "hydrate_begin a reason caller s =
     (let operation = Suc (sr_recoveryOperation s)
      in in_order
           [rt_publish, await (HydrateCall a reason operation caller)]
           (s\<lparr>sr_recoveryOperation := operation, sr_recovering := True, sr_phase := RRecovering,
              sr_projection := beginHydrate (aa_sessionId a) (sr_projection s)\<rparr>))"

text \<open>The guard at the start of \<open>#hydrate\<close>.\<close>

definition hydrate_refused :: "activeAuthority \<Rightarrow> sessionRuntime \<Rightarrow> bool" where
  "hydrate_refused a s = (aa_sessionId a = [] \<or> \<not> rt_isCurrent s a)"

definition enqueueRecovery ::
    "runtimeHost \<Rightarrow> activeAuthority \<Rightarrow> bufferedNotification \<Rightarrow> sessionRuntime
       \<Rightarrow> sessionRuntime \<times> runtimeEffect list \<times> bool" where
  "enqueueRecovery h a entry s =
     (if \<not> rt_isCurrent s a \<or> \<not> sr_recovering s then (s, [], False)
      else if length (sr_recoveryBuffer s) \<ge> RECOVERY_LIMIT
      then let (s1, out) = overflowRecovery h a s in (s1, out, False)
      else (s\<lparr>sr_recoveryBuffer := sr_recoveryBuffer s @ [entry]\<rparr>, [], True))"

definition recovery_failure :: "string \<Rightarrow> runtimeFailure" where
  "recovery_failure reason = Failure (''Recovery could not reconcile a durable event: '' @ reason)"

text \<open>A gap: hydrate again and keep the notification for afterwards, or fail when that was done.\<close>

definition recover_from ::
    "runtimeHost \<Rightarrow> activeAuthority \<Rightarrow> bufferedNotification \<Rightarrow> string \<Rightarrow> sessionRuntime
       \<Rightarrow> sessionRuntime \<times> runtimeEffect list \<times> disposition" where
  "recover_from h a entry reason s =
     (let n = bn_notification entry
      in if bn_retried entry
         then let (s1, out) = failCurrent h (recovery_failure reason) True s in (s1, out, Terminal)
         else let (s1, out) =
                in_order
                  [rt_publish,
                   (\<lambda>s. if hydrate_refused a s then (s, [])
                        else hydrate_begin a ByRecovery FromNotification s)]
                  (s\<lparr>sr_recovering := True, sr_phase := RRecovering,
                     sr_recoveryBuffer :=
                       (if nt_method n = M_REPLAY_LOSSY then []
                        else [\<lparr>bn_notification = n, bn_identityOnly = False, bn_retried = True\<rparr>])\<rparr>)
              in (s1, out, Recovering))"

definition acceptNotification ::
    "runtimeHost \<Rightarrow> activeAuthority \<Rightarrow> bufferedNotification \<Rightarrow> bool \<Rightarrow> bool \<Rightarrow> sessionRuntime
       \<Rightarrow> sessionRuntime \<times> runtimeEffect list \<times> disposition" where
  "acceptNotification h a entry raw fromBuffer s =
     (let n = bn_notification entry; shown = (if raw then [Emitted (EvRaw n)] else [])
      in if \<not> rt_isCurrent s a then (s, [], Terminal)
         else if \<not> notificationMatchesSessionScope n (aa_sessionId a) then (s, shown, Settled)
         else if sr_recovering s
         then let (s1, out, queued) = enqueueRecovery h a entry s
              in (s1, shown @ out, if queued then Recovering else Terminal)
         else let (projection, decision) = observe fromBuffer n (sr_projection s);
                  (s1, published) = rt_publish (s\<lparr>sr_projection := projection\<rparr>)
              in case decision of
                   Recover reason \<Rightarrow>
                     (let (s2, out, d) = recover_from h a entry reason s1
                      in (s2, shown @ published @ out, d))
                 | Apply _ \<Rightarrow>
                     (s1, shown @ published
                            @ (if bn_identityOnly entry then [] else [Emitted (EvNotification a n)]),
                      Settled)
                 | Ignore _ \<Rightarrow>
                     (s1, shown @ published
                            @ (if nt_method n = M_PROJECTION_ENVELOPE \<or> bn_identityOnly entry then []
                               else [Emitted (EvNotification a n)]),
                      Settled))"

fun enqueue_all ::
    "runtimeHost \<Rightarrow> activeAuthority \<Rightarrow> bufferedNotification list \<Rightarrow> sessionRuntime
       \<Rightarrow> sessionRuntime \<times> runtimeEffect list \<times> disposition" where
  "enqueue_all h a [] s = (s, [], Recovering)"
| "enqueue_all h a (e # es) s =
     (let (s1, o1, queued) = enqueueRecovery h a e s
      in if \<not> queued then (s1, o1, Terminal)
         else let (s2, o2, d) = enqueue_all h a es s1 in (s2, o1 @ o2, d))"

fun drainNotifications ::
    "runtimeHost \<Rightarrow> activeAuthority \<Rightarrow> bufferedNotification list \<Rightarrow> sessionRuntime
       \<Rightarrow> sessionRuntime \<times> runtimeEffect list \<times> disposition" where
  "drainNotifications h a [] s = (s, [], Settled)"
| "drainNotifications h a (e # es) s =
     (let (s1, o1, d) = acceptNotification h a e False True s
      in case d of
           Terminal \<Rightarrow> (s1, o1, Terminal)
         | Recovering \<Rightarrow> (let (s2, o2, d2) = enqueue_all h a es s1 in (s2, o1 @ o2, d2))
         | Settled \<Rightarrow> (let (s2, o2, d2) = drainNotifications h a es s1 in (s2, o1 @ o2, d2)))"

text \<open>
  \<open>hydrateAssistantIdentities\<close>: which notifications are receipts that this hydrate result already
  covers, and the assistant identities they prove.
\<close>

definition receipt_envelope ::
    "activeAuthority \<Rightarrow> sessionHydrateResult \<Rightarrow> rpcNotification \<Rightarrow> projectionEnvelope option" where
  "receipt_envelope a hydrated n =
     (if nt_method n = M_PROJECTION_ENVELOPE \<and> hr_session_id hydrated = aa_sessionId a
         \<and> supportsFeature (aa_capabilities a) ''projection.envelope.v2''
         \<and> notificationMatchesSessionScope n (aa_sessionId a)
      then case parseProjectionEnvelope (nt_params n) of
             None \<Rightarrow> None
           | Some e \<Rightarrow>
               (case pe_cursor e of
                  None \<Rightarrow> None
                | Some c \<Rightarrow>
                    if pp_type (pe_payload e) \<noteq> ''assistant_persisted''
                       \<or> cur_stream c \<noteq> cur_stream (hr_cursor hydrated)
                       \<or> cur_seq c > cur_seq (hr_cursor hydrated)
                    then None else Some e)
      else None)"

definition receipt_identity :: "projectionEnvelope \<Rightarrow> assistantIdentity option" where
  "receipt_identity e =
     (case as_record (Some (pp_data (pe_payload e))) of
        None \<Rightarrow> None
      | Some d \<Rightarrow>
          (case as_record (fld d ''meta'') of
             None \<Rightarrow> None
           | Some m \<Rightarrow>
               (case (as_string (fld m ''message_id''), as_string (fld d ''assistant_segment_id'')) of
                  (Some mid, Some seg) \<Rightarrow>
                    if mid \<noteq> [] \<and> seg \<noteq> [] then Some (mid, pe_turn_id e, seg) else None
                | _ \<Rightarrow> None)))"

definition hydrateAssistantIdentities ::
    "activeAuthority \<Rightarrow> sessionHydrateResult \<Rightarrow> rpcNotification list \<Rightarrow> assistantIdentity list" where
  "hydrateAssistantIdentities a hydrated ns =
     List.map_filter (\<lambda>n. Option.bind (receipt_envelope a hydrated n) receipt_identity) ns"

definition mark_receipt ::
    "activeAuthority \<Rightarrow> sessionHydrateResult \<Rightarrow> bufferedNotification \<Rightarrow> bufferedNotification" where
  "mark_receipt a hydrated entry =
     (if receipt_envelope a hydrated (bn_notification entry) \<noteq> None
      then entry\<lparr>bn_identityOnly := True\<rparr> else entry)"

section \<open>The end of a hydrate\<close>

definition rehydrate_failed ::
    "activeAuthority \<Rightarrow> runtimeFailure \<Rightarrow> sessionRuntime \<Rightarrow> runtime_result" where
  "rehydrate_failed expected reason s =
     (if rt_isCurrent s expected
      then in_order
             [rt_publish, effect (Thrown reason)]
             ((invalidate_operation s)\<lparr>sr_recovering := False, sr_recoveryBuffer := [],
                sr_error := Some (reason_message reason), sr_phase := RError,
                sr_projection := durable_fail (reason_message reason) (sr_projection s)\<rparr>)
      else (s, [Thrown reason]))"

text \<open>What the caller of \<open>#hydrate\<close> does when it returns, and when it throws.\<close>

definition caller_returns ::
    "runtimeHost \<Rightarrow> activeAuthority \<Rightarrow> hydrateCaller \<Rightarrow> sessionRuntime \<Rightarrow> runtime_result" where
  "caller_returns h a caller s =
     (if caller \<noteq> FromRehydrate then (s, [])
      else if \<not> rt_isCurrent s a \<or> \<not> rh_authorizeLast h then rehydrate_failed a StaleAuthority s
      else (s, [Returned None]))"

definition caller_throws ::
    "runtimeHost \<Rightarrow> activeAuthority \<Rightarrow> hydrateCaller \<Rightarrow> runtimeFailure \<Rightarrow> sessionRuntime
       \<Rightarrow> runtime_result" where
  "caller_throws h a caller reason s =
     (if caller = FromRehydrate then rehydrate_failed a reason s
      else if rt_isCurrent s a then failCurrent h reason True s else (s, []))"

definition drain_buffer ::
    "runtimeHost \<Rightarrow> activeAuthority \<Rightarrow> hydrateReason \<Rightarrow> nat \<Rightarrow> sessionHydrateResult
       \<Rightarrow> sessionRuntime \<Rightarrow> runtime_result" where
  "drain_buffer h a reason operation hydrated s =
     (let (s1, out, d) =
        drainNotifications h a (map (mark_receipt a hydrated) (sr_recoveryBuffer s))
          (s\<lparr>sr_recoveryBuffer := []\<rparr>)
      in if d = Settled \<and> operation_current s1 a operation
         then let (s2, out2) = finishRecovery h reason a s1 in (s2, out @ out2)
         else (s1, out))"

definition hydrate_commit ::
    "runtimeHost \<Rightarrow> activeAuthority \<Rightarrow> hydrateReason \<Rightarrow> nat \<Rightarrow> hydrateCaller \<Rightarrow> sessionHydrateResult
       \<Rightarrow> sessionRuntime \<Rightarrow> runtime_result" where
  "hydrate_commit h a reason operation caller hydrated s =
     (if caller = FromRehydrate \<and> \<not> rh_authorize h then caller_throws h a caller StaleAuthority s
      else case commitHydrate hydrated (sr_projection s) of
             Inl message \<Rightarrow> caller_throws h a caller (Failure message) s
           | Inr projection \<Rightarrow>
               in_order
                 [rt_publish,
                  (\<lambda>s. emit (EvHydrate reason a hydrated
                         (hydrateAssistantIdentities a hydrated
                            (map bn_notification (sr_recoveryBuffer s)))) s),
                  drain_buffer h a reason operation hydrated,
                  caller_returns h a caller]
                 (logDiagnostic h DHydrated None
                    (s\<lparr>sr_projection := projection, sr_recovering := False, sr_error := None\<rparr>)))"

text \<open>The answer to \<open>session/hydrate\<close>, and to \<open>prepareHydrate\<close>.\<close>

definition hydrate_answered ::
    "runtimeHost \<Rightarrow> activeAuthority \<Rightarrow> hydrateReason \<Rightarrow> nat \<Rightarrow> hydrateCaller
       \<Rightarrow> runtimeFailure + sessionHydrateResult \<Rightarrow> sessionRuntime \<Rightarrow> runtime_result" where
  "hydrate_answered h a reason operation caller answer s =
     (if \<not> operation_current s a operation then caller_returns h a caller s
      else case answer of
             Inl e \<Rightarrow> caller_throws h a caller e s
           | Inr hydrated \<Rightarrow>
               if hr_session_id hydrated \<noteq> aa_sessionId a
               then caller_throws h a caller
                      (HydrateMismatch (hr_session_id hydrated) (aa_sessionId a)) s
               else if rh_prepares h
               then await (PrepareCall a reason operation caller hydrated) s
               else hydrate_commit h a reason operation caller hydrated s)"

definition hydrate_prepared ::
    "runtimeHost \<Rightarrow> activeAuthority \<Rightarrow> hydrateReason \<Rightarrow> nat \<Rightarrow> hydrateCaller \<Rightarrow> sessionHydrateResult
       \<Rightarrow> runtimeFailure option \<Rightarrow> sessionRuntime \<Rightarrow> runtime_result" where
  "hydrate_prepared h a reason operation caller hydrated answer s =
     (if \<not> operation_current s a operation then caller_returns h a caller s
      else case answer of
             Some e \<Rightarrow> caller_throws h a caller e s
           | None \<Rightarrow> hydrate_commit h a reason operation caller hydrated s)"

definition rehydrateSession ::
    "runtimeHost \<Rightarrow> activeAuthority \<Rightarrow> sessionRuntime \<Rightarrow> runtime_result" where
  "rehydrateSession h expected s =
     (if \<not> rt_isCurrent s expected \<or> \<not> rh_authorize h then (s, [Thrown StaleAuthority])
      else if hydrate_refused expected s then caller_returns h expected FromRehydrate s
      else hydrate_begin expected ByRecovery FromRehydrate s)"

section \<open>Adopting a candidate\<close>

definition create_authority ::
    "nat \<Rightarrow> sessionConnectionInput \<Rightarrow> (openedSession \<times> uiProtocolCapabilities option) option
       \<Rightarrow> sessionRuntime \<Rightarrow> sessionRuntime \<times> activeAuthority" where
  "create_authority client config session s =
     (let g = Suc (sr_generation s)
      in (s\<lparr>sr_generation := g\<rparr>, make_authority g client config session))"

definition candidate_error :: "runtimeHost \<Rightarrow> candidateSnapshot \<Rightarrow> runtimeFailure option" where
  "candidate_error h k =
     (let caps = so_capabilities (cn_opened k)
      in case rh_validateServer h caps of
           Some e \<Rightarrow> Some (Failure e)
         | None \<Rightarrow>
             (case rh_validateSession h caps of
                Some e \<Rightarrow> Some (Failure e)
              | None \<Rightarrow>
                  if hr_session_id (cn_hydrated k) \<noteq> so_session_id (cn_opened k)
                  then Some (Failure ''session/hydrate returned another session'')
                  else if rh_status h (cn_client k) \<noteq> StConnected
                  then Some (Failure ''The prepared candidate transport is not connected'')
                  else if length (cn_notifications k) > RECOVERY_LIMIT
                  then Some (Failure ''The prepared candidate contains too many events'')
                  else None))"

text \<open>The assignments of \<open>#commitCandidate\<close>; committing the hydrate result is the one that can throw.\<close>

definition install_candidate ::
    "runtimeHost \<Rightarrow> sessionConnectionInput \<Rightarrow> candidateSnapshot \<Rightarrow> activeAuthority \<Rightarrow> sessionRuntime
       \<Rightarrow> sessionRuntime" where
  "install_candidate h config k next s =
     (let caps = so_capabilities (cn_opened k); sid = so_session_id (cn_opened k)
      in set_target True config (invalidate_operation s)
           \<lparr>sr_authority := Some next, sr_binding := Some next, sr_retryEnabled := \<not> sr_managed s,
            sr_retryAttempt := 0, sr_identityValidated := True, sr_serverCapabilities := caps,
            sr_sessionCapabilities := caps, sr_opened := Some (cn_opened k),
            sr_status := rh_status h (cn_client k), sr_error := None,
            sr_projection := beginHydrate sid (durable_reset sid (sr_projection s))\<rparr>)"

definition commitCandidate ::
    "runtimeHost \<Rightarrow> sessionConnectionInput \<Rightarrow> candidateSnapshot \<Rightarrow> sessionRuntime
       \<Rightarrow> sessionRuntime \<times> runtimeEffect list \<times> (runtimeFailure + activeAuthority)" where
  "commitCandidate h inputConfig k s =
     (case candidate_error h k of
        Some e \<Rightarrow> (s, [], Inl e)
      | None \<Rightarrow>
          let config = committedSessionConfig inputConfig (cn_opened k);
              (s1, out) = cancelReconnect s;
              (s2, next) = create_authority (cn_client k) config
                             (Some (cn_opened k, so_capabilities (cn_opened k))) s1
          in if \<not> rh_authorize h then (s2, out, Inl StaleAuthority)
             else let s3 = install_candidate h config k next s2
                  in case commitHydrate (cn_hydrated k) (sr_projection s3) of
                       Inl message \<Rightarrow> (s3, out, Inl (Failure message))
                     | Inr projection \<Rightarrow>
                         (s3\<lparr>sr_projection := projection, sr_recovering := False,
                             sr_recoveryBuffer := [], sr_phase := RRecovering\<rparr>, out, Inr next))"

definition candidate_entry ::
    "activeAuthority \<Rightarrow> sessionHydrateResult \<Rightarrow> rpcNotification \<Rightarrow> bufferedNotification" where
  "candidate_entry a hydrated n =
     mark_receipt a hydrated \<lparr>bn_notification = n, bn_identityOnly = False, bn_retried = False\<rparr>"

definition drain_candidate ::
    "runtimeHost \<Rightarrow> bufferedNotification list \<Rightarrow> sessionRuntime \<Rightarrow> runtime_result" where
  "drain_candidate h entries s =
     (case sr_authority s of
        None \<Rightarrow> (s, [])
      | Some a \<Rightarrow> (let (s1, out, _) = drainNotifications h a entries s in (s1, out)))"

definition emitCandidateProjection ::
    "runtimeHost \<Rightarrow> activeAuthority \<Rightarrow> candidateSnapshot \<Rightarrow> clearedReason \<Rightarrow> sessionRuntime
       \<Rightarrow> runtime_result" where
  "emitCandidateProjection h next k cleared s =
     (let ns = cn_notifications k; hydrated = cn_hydrated k
      in in_order
           [rt_publish, emit (EvCleared cleared),
            (\<lambda>s. (s, map (Emitted \<circ> EvRaw) ns)),
            emit (EvHydrate ByCandidate next hydrated (hydrateAssistantIdentities next hydrated ns)),
            drain_candidate h (map (candidate_entry next hydrated) ns),
            finishRecovery h ByCandidate next] s)"

definition adoptCandidate ::
    "runtimeHost \<Rightarrow> activeAuthority \<Rightarrow> sessionConnectionInput \<Rightarrow> candidateSnapshot \<Rightarrow> bool
       \<Rightarrow> sessionRuntime \<Rightarrow> runtime_result" where
  "adoptCandidate h expected config k preserve s =
     (if \<not> rt_isCurrent s expected then (s, [Thrown StaleAuthority])
      else case commitCandidate h config k s of
             (s1, out, Inl e) \<Rightarrow> (s1, out @ [Thrown e])
           | (s1, out, Inr next) \<Rightarrow>
               let closed = (if preserve then []
                             else case sr_authority s of
                                    None \<Rightarrow> [] | Some a \<Rightarrow> [DisconnectClient (aa_client a)]);
                   (s2, out2) = emitCandidateProjection h next k OnSelect s1
               in (s2, out @ closed @ out2 @ [Returned (Some next)]))"

definition adoptFirst ::
    "runtimeHost \<Rightarrow> sessionConnectionInput \<Rightarrow> candidateSnapshot \<Rightarrow> sessionRuntime \<Rightarrow> runtime_result" where
  "adoptFirst h config k s =
     (if \<not> rh_authorizeFirst h then (s, [Thrown StaleAuthority])
      else case commitCandidate h config k s of
             (s1, out, Inl e) \<Rightarrow> (s1, out @ [Thrown e])
           | (s1, out, Inr next) \<Rightarrow>
               let (s2, out2) = emitCandidateProjection h next k OnResume s1
               in (s2, out @ out2 @ [Returned (Some next)]))"

definition installPreparedSession ::
    "runtimeHost \<Rightarrow> activeAuthority option \<Rightarrow> sessionConnectionInput \<Rightarrow> candidateSnapshot
       \<Rightarrow> sessionRuntime \<Rightarrow> runtime_result" where
  "installPreparedSession h expected config k s =
     (if \<not> sr_managed s
      then (s, [Thrown (Failure ''installPreparedSession requires managed-transport mode'')])
      else case sr_authority s of
             None \<Rightarrow> adoptFirst h config k s
           | Some current \<Rightarrow>
               (case expected of
                  None \<Rightarrow> (s, [Thrown StaleAuthority])
                | Some e \<Rightarrow>
                    if \<not> rt_isCurrent s e then (s, [Thrown StaleAuthority])
                    else adoptCandidate h current config k True s))"

text \<open>A resume that threw keeps the suspended authority.\<close>

definition resumePreparedSession ::
    "runtimeHost \<Rightarrow> sessionConnectionInput \<Rightarrow> candidateSnapshot \<Rightarrow> sessionRuntime \<Rightarrow> runtime_result" where
  "resumePreparedSession h config k s =
     (if \<not> sr_managed s
      then (s, [Thrown (Failure ''resumePreparedSession requires managed-transport mode'')])
      else let (s1, out) = adoptFirst h config k s
           in if \<exists>e \<in> set out. case e of Thrown _ \<Rightarrow> True | _ \<Rightarrow> False then (s1, out)
              else (s1\<lparr>sr_suspended := None\<rparr>, out))"

section \<open>Suspending, restoring, disconnecting\<close>

definition rt_suspend :: "activeAuthority \<Rightarrow> sessionRuntime \<Rightarrow> runtime_result" where
  "rt_suspend expected s =
     (if \<not> sr_managed s
      then (s, [Thrown (Failure ''suspendTransport requires managed-transport mode'')])
      else if \<not> rt_isCurrent s expected then (s, [Thrown StaleAuthority])
      else in_order
             [cancelReconnect,
              assign (\<lambda>s. (invalidate_operation s)\<lparr>sr_retryEnabled := False,
                           sr_generation := Suc (sr_generation s), sr_recovering := False,
                           sr_recoveryBuffer := [], sr_binding := None,
                           sr_suspended := sr_authority s, sr_authority := None,
                           sr_phase := RDisconnected, sr_status := StDisconnected\<rparr>),
              rt_publish] s)"

definition restore_fatal :: "runtimeHost \<Rightarrow> runtimeFailure \<Rightarrow> bool" where
  "restore_fatal h reason =
     ((case reason of HydrateMismatch _ _ \<Rightarrow> True | _ \<Rightarrow> False) \<or> rh_fatal h reason
      \<or> starts_with (reason_message reason) ''session/open returned '')"

definition restoreSuspendedSession ::
    "runtimeHost \<Rightarrow> runtimeFailure \<Rightarrow> nat \<Rightarrow> sessionRuntime \<Rightarrow> runtime_result" where
  "restoreSuspendedSession h reason client s =
     (if \<not> sr_managed s
      then (s, [Thrown (Failure ''restoreSuspendedSession requires managed-transport mode'')])
      else case (sr_authority s, sr_suspended s) of
             (None, Some previous) \<Rightarrow>
               (case aa_opened previous of
                  None \<Rightarrow> (s, [])
                | Some opened \<Rightarrow>
                    if restore_fatal h reason then (s, [])
                    else let (s1, a) = create_authority client (aa_config previous)
                                         (Some (opened, aa_capabilities previous)) s;
                             s2 = set_target True (aa_config a) s1
                         in in_order
                              [rt_publish, emit (EvError a (reason_message reason))]
                              (s2\<lparr>sr_suspended := None, sr_authority := Some a, sr_binding := Some a,
                                  sr_retryEnabled := False, sr_opened := Some opened,
                                  sr_sessionCapabilities := aa_capabilities previous,
                                  sr_identityValidated := True, sr_recovering := False,
                                  sr_recoveryBuffer := [], sr_phase := RError,
                                  sr_error := Some (reason_message reason),
                                  sr_status := rh_status h client\<rparr>))
           | _ \<Rightarrow> (s, []))"

definition rt_disconnect :: "sessionRuntime \<Rightarrow> runtime_result" where
  "rt_disconnect s =
     in_order
       [cancelReconnect,
        assign (\<lambda>s. (invalidate_operation s)\<lparr>sr_retryEnabled := False, sr_target := None,
                     sr_generation := Suc (sr_generation s), sr_authority := None,
                     sr_binding := None, sr_serverCapabilities := None,
                     sr_identityValidated := False, sr_sessionCapabilities := None,
                     sr_opened := None, sr_recovering := False, sr_recoveryBuffer := [],
                     sr_projection := durable_reset [] (sr_projection s),
                     sr_phase := RDisconnected, sr_status := StDisconnected, sr_error := None,
                     sr_suspended := None\<rparr>),
        (\<lambda>t. (t, case sr_authority s of
                  None \<Rightarrow> []
                | Some a \<Rightarrow> if sr_managed s then [] else [DisconnectClient (aa_client a)])),
        rt_publish, emit (EvCleared OnDisconnect)] s"

definition reportError :: "string option \<Rightarrow> sessionRuntime \<Rightarrow> runtime_result" where
  "reportError message s = rt_publish (s\<lparr>sr_error := message\<rparr>)"

section \<open>A transport of its own\<close>

text \<open>\<open>#replaceTransport\<close> of a runtime that is not managed.\<close>

definition replaceTransport ::
    "runtimeHost \<Rightarrow> sessionConnectionInput \<Rightarrow> (openedSession \<times> uiProtocolCapabilities option) option
       \<Rightarrow> sessionRuntime \<Rightarrow> sessionRuntime \<times> runtimeEffect list \<times> activeAuthority" where
  "replaceTransport h config session s =
     (let (s1, a) = create_authority (rh_newClient h) config session (invalidate_operation s)
      in (s1\<lparr>sr_authority := Some a, sr_binding := Some a\<rparr>,
          case sr_authority s of None \<Rightarrow> [] | Some b \<Rightarrow> [DisconnectClient (aa_client b)], a))"

definition managed_replace :: string where
  "managed_replace =
     ''A managed Session runtime cannot replace its transport; the pool owns the socket''"

definition authenticate ::
    "runtimeHost \<Rightarrow> sessionConnectionInput \<Rightarrow> sessionRuntime \<Rightarrow> runtime_result" where
  "authenticate h input s =
     (let config = serverOnlyConfig input;
          (s1, out1) = cancelReconnect s;
          s2 = (set_target False config s1)\<lparr>sr_retryEnabled := False, sr_retryAttempt := 0,
                  sr_identityValidated := False, sr_serverCapabilities := None,
                  sr_sessionCapabilities := None, sr_opened := None, sr_recovering := False,
                  sr_recoveryBuffer := [], sr_projection := durable_reset [] (sr_projection s1),
                  sr_phase := RConnecting, sr_status := StIdle, sr_error := None\<rparr>
      in if sr_managed s then (s2, out1 @ [Thrown (Failure managed_replace)])
         else let (s3, out2, a) = replaceTransport h config None s2;
                  (s4, out3) =
                    in_order [emit (EvCleared OnSelect), rt_publish,
                              effect (ConnectClient (aa_client a)), await (AuthConnect a)] s3
              in (s4, out1 @ out2 @ out3))"

definition disconnected_late :: runtimeFailure where
  "disconnected_late = Failure ''The server transport disconnected before the response was ready''"

text \<open>The capabilities arrived: the server is authenticated. \<open>again\<close> holds for a reconnect.\<close>

definition authenticated ::
    "runtimeHost \<Rightarrow> bool \<Rightarrow> activeAuthority \<Rightarrow> uiProtocolCapabilities option \<Rightarrow> sessionRuntime
       \<Rightarrow> runtimeFailure + runtime_result" where
  "authenticated h again a caps s =
     (if rh_status h (aa_client a) \<noteq> StConnected then Inl disconnected_late
      else case rh_validateServer h caps of
             Some e \<Rightarrow> Inl (Failure e)
           | None \<Rightarrow>
               let a' = authorityWith None None caps a;
                   s1 = s\<lparr>sr_serverCapabilities := caps, sr_authority := Some a',
                          sr_phase := RAuthenticated, sr_status := rh_status h (aa_client a),
                          sr_error := None, sr_identityValidated := True, sr_retryAttempt := 0\<rparr>;
                   s2 = (if again then s1 else s1\<lparr>sr_retryEnabled := True\<rparr>)
               in Inr (in_order
                         [rt_publish, emit (EvAuthenticated again a'),
                          if again then nothing else effect (Returned (Some a'))] s2))"

definition auth_failed ::
    "runtimeHost \<Rightarrow> activeAuthority \<Rightarrow> runtimeFailure \<Rightarrow> sessionRuntime \<Rightarrow> runtime_result" where
  "auth_failed h a e s =
     (if \<not> rt_isCurrent s a then (s, [Returned None])
      else in_order [failCurrent h e False, effect (Thrown e)] s)"

definition reconnect_failed ::
    "runtimeHost \<Rightarrow> activeAuthority \<Rightarrow> runtimeFailure \<Rightarrow> sessionRuntime \<Rightarrow> runtime_result" where
  "reconnect_failed h a e s = (if \<not> rt_isCurrent s a then (s, []) else failCurrent h e True s)"

definition reconnect ::
    "runtimeHost \<Rightarrow> runtimeTarget \<Rightarrow> sessionRuntime \<Rightarrow> runtime_result" where
  "reconnect h target s =
     (if \<not> sr_retryEnabled s \<or> sr_target s \<noteq> Some target \<or> sr_managed s then (s, [])
      else let cursor = (if tg_session target then d_cursor (sr_projection s) else None);
               retained = (if tg_session target
                           then map_option (\<lambda>o'. (o', sr_sessionCapabilities s)) (sr_opened s)
                           else None);
               (s1, out, a) = replaceTransport h (tg_config target) retained
                                (s\<lparr>sr_phase := RReconnecting, sr_error := None\<rparr>);
               (s2, out2) =
                 in_order [rt_publish, effect (ConnectClient (aa_client a)),
                           await (ReconnectConnect a target cursor)] s1
           in (s2, out @ out2))"

definition on_timer :: "runtimeHost \<Rightarrow> sessionRuntime \<Rightarrow> runtime_result" where
  "on_timer h s =
     (case sr_timer s of
        None \<Rightarrow> (s, [])
      | Some target \<Rightarrow> reconnect h target (s\<lparr>sr_timer := None\<rparr>))"

definition missing :: "string option \<Rightarrow> string" where
  "missing v = or_else v ''<missing>''"

definition reopened_error ::
    "runtimeHost \<Rightarrow> runtimeTarget \<Rightarrow> openedSession \<Rightarrow> runtimeFailure option" where
  "reopened_error h target opened =
     (let c = tg_config target
      in if so_session_id opened \<noteq> ci_sessionId c
         then Some (Failure (''session/open returned '' @ so_session_id opened @ '', expected ''
                             @ ci_sessionId c))
         else if ci_profileId c \<noteq> [] \<and> so_active_profile_id opened \<noteq> Some (ci_profileId c)
         then Some (Failure (''session/open returned Profile '' @ missing (so_active_profile_id opened)
                             @ '', expected '' @ ci_profileId c))
         else if ci_cwd c \<noteq> [] \<and> so_workspace_root opened \<noteq> Some (ci_cwd c)
         then Some (Failure (''session/open returned workspace '' @ missing (so_workspace_root opened)
                             @ '', expected '' @ ci_cwd c))
         else case rh_validateServer h (so_capabilities opened) of
                Some e \<Rightarrow> Some (Failure e)
              | None \<Rightarrow> map_option Failure (rh_validateSession h (so_capabilities opened)))"

definition reopened ::
    "runtimeHost \<Rightarrow> activeAuthority \<Rightarrow> runtimeTarget \<Rightarrow> openedSession \<Rightarrow> sessionRuntime
       \<Rightarrow> runtime_result" where
  "reopened h a target opened s =
     (if rh_status h (aa_client a) \<noteq> StConnected then reconnect_failed h a disconnected_late s
      else case reopened_error h target opened of
             Some e \<Rightarrow> reconnect_failed h a e s
           | None \<Rightarrow>
               let config = committedSessionConfig (tg_config target) opened;
                   caps = so_capabilities opened;
                   a' = authorityWith (Some config) (Some opened) caps a;
                   s1 = (set_target True config s)\<lparr>sr_opened := Some opened,
                          sr_identityValidated := True, sr_serverCapabilities := caps,
                          sr_sessionCapabilities := caps, sr_authority := Some a'\<rparr>
               in if hydrate_refused a' s1 then (s1, [])
                  else hydrate_begin a' ByReconnect FromReconnect s1)"

section \<open>Events\<close>

datatype callAnswer =
    Failed runtimeFailure
  | Connected
  | Capabilities "uiProtocolCapabilities option"
  | Opened openedSession
  | Hydrated sessionHydrateResult
  | Prepared

text \<open>An answer of another kind than the call's does not exist; here it is dropped.\<close>

fun answer_call :: "runtimeHost \<Rightarrow> runtimeCall \<Rightarrow> callAnswer \<Rightarrow> sessionRuntime \<Rightarrow> runtime_result" where
  "answer_call h (AuthConnect a) Connected s =
     (if \<not> rt_isCurrent s a then (s, [Returned None]) else await (AuthList a) s)"
| "answer_call h (AuthConnect a) (Failed e) s = auth_failed h a e s"
| "answer_call h (AuthList a) (Capabilities caps) s =
     (if \<not> rt_isCurrent s a then (s, [Returned None])
      else case authenticated h False a caps s of Inl e \<Rightarrow> auth_failed h a e s | Inr r \<Rightarrow> r)"
| "answer_call h (AuthList a) (Failed e) s = auth_failed h a e s"
| "answer_call h (ReconnectConnect a target cursor) Connected s =
     (if \<not> rt_isCurrent s a then (s, [])
      else await (if tg_session target then ReconnectOpen a target cursor else ReconnectList a) s)"
| "answer_call h (ReconnectConnect a target cursor) (Failed e) s = reconnect_failed h a e s"
| "answer_call h (ReconnectList a) (Capabilities caps) s =
     (if \<not> rt_isCurrent s a then (s, [])
      else case authenticated h True a caps s of Inl e \<Rightarrow> reconnect_failed h a e s | Inr r \<Rightarrow> r)"
| "answer_call h (ReconnectList a) (Failed e) s = reconnect_failed h a e s"
| "answer_call h (ReconnectOpen a target cursor) (Opened opened) s =
     (if \<not> rt_isCurrent s a then (s, []) else reopened h a target opened s)"
| "answer_call h (ReconnectOpen a target cursor) (Failed e) s = reconnect_failed h a e s"
| "answer_call h (HydrateCall a reason operation caller) (Hydrated r) s =
     hydrate_answered h a reason operation caller (Inr r) s"
| "answer_call h (HydrateCall a reason operation caller) (Failed e) s =
     hydrate_answered h a reason operation caller (Inl e) s"
| "answer_call h (PrepareCall a reason operation caller hydrated) Prepared s =
     hydrate_prepared h a reason operation caller hydrated None s"
| "answer_call h (PrepareCall a reason operation caller hydrated) (Failed e) s =
     hydrate_prepared h a reason operation caller hydrated (Some e) s"
| "answer_call h _ _ s = (s, [])"

definition on_answer :: "runtimeHost \<Rightarrow> nat \<Rightarrow> callAnswer \<Rightarrow> sessionRuntime \<Rightarrow> runtime_result" where
  "on_answer h k answer s =
     (case map_get (sr_calls s) k of
        None \<Rightarrow> (s, [])
      | Some call \<Rightarrow> answer_call h call answer (s\<lparr>sr_calls := map_del k (sr_calls s)\<rparr>))"

text \<open>The three listeners of \<open>#bind\<close>: only the bound client of the current authority is heard.\<close>

definition heard :: "sessionRuntime \<Rightarrow> nat \<Rightarrow> activeAuthority option" where
  "heard s client =
     (case sr_binding s of
        None \<Rightarrow> None
      | Some a \<Rightarrow> if aa_client a = client \<and> rt_isCurrent s a then sr_authority s else None)"

definition on_status ::
    "runtimeHost \<Rightarrow> nat \<Rightarrow> connectionStatus \<Rightarrow> sessionRuntime \<Rightarrow> runtime_result" where
  "on_status h client status s =
     (case heard s client of
        None \<Rightarrow> (s, [])
      | Some a \<Rightarrow>
          let s1 = s\<lparr>sr_status := status\<rparr>;
              s2 = (if status = StConnecting
                    then s1\<lparr>sr_phase := (if sr_retryAttempt s > 0 then RReconnecting else RConnecting)\<rparr>
                    else if status = StError then s1\<lparr>sr_phase := RError\<rparr> else s1)
          in in_order
               [rt_publish,
                if status = StDisconnected \<or> status = StError then scheduleReconnect h else nothing]
               s2)"

definition on_client_error :: "nat \<Rightarrow> string \<Rightarrow> sessionRuntime \<Rightarrow> runtime_result" where
  "on_client_error client message s =
     (case heard s client of None \<Rightarrow> (s, []) | Some a \<Rightarrow> rt_publish (s\<lparr>sr_error := Some message\<rparr>))"

definition on_notification ::
    "runtimeHost \<Rightarrow> nat \<Rightarrow> rpcNotification \<Rightarrow> sessionRuntime \<Rightarrow> runtime_result" where
  "on_notification h client n s =
     (case heard s client of
        None \<Rightarrow> (s, [])
      | Some a \<Rightarrow>
          let (s1, out, _) =
            acceptNotification h a
              \<lparr>bn_notification = n, bn_identityOnly = False, bn_retried = False\<rparr> True False s
          in (s1, out))"

datatype runtimeOp =
    OAuthenticate sessionConnectionInput
  | OAdopt activeAuthority sessionConnectionInput candidateSnapshot bool
  | OInstall "activeAuthority option" sessionConnectionInput candidateSnapshot
  | OResume sessionConnectionInput candidateSnapshot
  | ORestore runtimeFailure nat
  | OSuspend activeAuthority
  | ODisconnect
  | ORehydrate activeAuthority
  | OReport "string option"
  | OStatus nat connectionStatus
  | OError nat string
  | ONotified nat rpcNotification
  | OTimer
  | OAnswer nat callAnswer

fun runtime_step :: "runtimeHost \<Rightarrow> runtimeOp \<Rightarrow> sessionRuntime \<Rightarrow> runtime_result" where
  "runtime_step h (OAuthenticate c) s = authenticate h c s"
| "runtime_step h (OAdopt e c k p) s = adoptCandidate h e c k p s"
| "runtime_step h (OInstall e c k) s = installPreparedSession h e c k s"
| "runtime_step h (OResume c k) s = resumePreparedSession h c k s"
| "runtime_step h (ORestore r c) s = restoreSuspendedSession h r c s"
| "runtime_step h (OSuspend a) s = rt_suspend a s"
| "runtime_step h ODisconnect s = rt_disconnect s"
| "runtime_step h (ORehydrate a) s = rehydrateSession h a s"
| "runtime_step h (OReport m) s = reportError m s"
| "runtime_step h (OStatus c st) s = on_status h c st s"
| "runtime_step h (OError c m) s = on_client_error c m s"
| "runtime_step h (ONotified c n) s = on_notification h c n s"
| "runtime_step h OTimer s = on_timer h s"
| "runtime_step h (OAnswer k a) s = on_answer h k a s"

fun runtime_run ::
    "(runtimeHost \<times> runtimeOp) list \<Rightarrow> sessionRuntime \<Rightarrow> runtime_result" where
  "runtime_run [] s = (s, [])"
| "runtime_run ((h, x) # xs) s =
     (let (s1, o1) = runtime_step h x s; (s2, o2) = runtime_run xs s1 in (s2, o1 @ o2))"

section \<open>A small run\<close>

text \<open>A host whose clients are all connected, and the authority that the sample candidate gets first.\<close>

definition pool_host :: runtimeHost where
  "pool_host = \<lparr>rh_status = (\<lambda>_. StConnected), rh_newClient = 0, rh_now = [], rh_authorizeFirst = True,
     rh_authorize = True, rh_authorizeLast = True,
     rh_validateServer = (\<lambda>_. None), rh_validateSession = (\<lambda>_. None), rh_fatal = (\<lambda>_. False),
     rh_prepares = False\<rparr>"

definition sample_authority :: activeAuthority where
  "sample_authority = make_authority 1 7 (committedSessionConfig sample_config sample_opened)
                      (Some (sample_opened, None))"

definition lossy_notice :: rpcNotification where
  "lossy_notice = \<lparr>nt_method = M_REPLAY_LOSSY,
     nt_params = Some (JObj [(''session_id'', JStr ''s''), (''dropped_count'', JNum (JInt 1))])\<rparr>"

end
