(* ===== verification/RuntimeLaws.thy ===== *)
theory RuntimeLaws
  imports SessionRuntime Lease
begin

text \<open>
  What the session runtime promises, whatever the server answers and in whatever order: which
  authority speaks, that a superseded one never speaks again, what a managed runtime leaves to the
  pool, how much it buffers, and when it is ready.
\<close>

section \<open>Steps that leave the authority alone\<close>

fun call_authority :: "runtimeCall \<Rightarrow> activeAuthority" where
  "call_authority (AuthConnect a) = a"
| "call_authority (AuthList a) = a"
| "call_authority (ReconnectConnect a t c) = a"
| "call_authority (ReconnectList a) = a"
| "call_authority (ReconnectOpen a t c) = a"
| "call_authority (HydrateCall a r k c) = a"
| "call_authority (PrepareCall a r k c h) = a"

fun prepared_for :: "runtimeCall \<Rightarrow> bool" where
  "prepared_for (PrepareCall a r k c hydrated) = (hr_session_id hydrated = aa_sessionId a)"
| "prepared_for _ = True"

text \<open>New calls are made for the current authority.\<close>

definition new_calls :: "sessionRuntime \<Rightarrow> sessionRuntime \<Rightarrow> bool" where
  "new_calls s t \<longleftrightarrow>
     (\<forall>x \<in> set (sr_calls t). x \<in> set (sr_calls s)
        \<or> rt_isCurrent s (call_authority (snd x)) \<and> prepared_for (snd x))"

definition frame :: "sessionRuntime \<Rightarrow> sessionRuntime \<Rightarrow> bool" where
  "frame s t \<longleftrightarrow> sr_authority t = sr_authority s \<and> sr_generation t = sr_generation s
     \<and> sr_managed t = sr_managed s \<and> new_calls s t
     \<and> (sr_binding t = sr_binding s \<or> sr_binding t = None)"

text \<open>
  An effect is proper when it speaks for the current authority, and when it touches a socket only
  in a runtime that owns one.
\<close>

fun proper :: "sessionRuntime \<Rightarrow> runtimeEffect \<Rightarrow> bool" where
  "proper s (Emitted (EvNotification a n)) =
     (rt_isCurrent s a \<and> notificationMatchesSessionScope n (aa_sessionId a))"
| "proper s (Emitted (EvHydrate r a hydrated i)) =
     (rt_isCurrent s a \<and> hr_session_id hydrated = aa_sessionId a)"
| "proper s (Emitted (EvReady r a)) = rt_isCurrent s a"
| "proper s (Emitted (EvError a m)) = rt_isCurrent s a"
| "proper s (Emitted (EvAuthenticated again a)) = rt_isCurrent s a"
| "proper s (ConnectClient c) = (\<not> sr_managed s)"
| "proper s (DisconnectClient c) = (\<not> sr_managed s)"
| "proper s (Scheduled d) = (\<not> sr_managed s)"
| "proper s _ = True"

definition tame :: "sessionRuntime \<Rightarrow> runtime_result \<Rightarrow> bool" where
  "tame s r \<longleftrightarrow> frame s (fst r) \<and> list_all (proper s) (snd r)"

named_theorems tame_rules \<open>operations that keep the authority and have proper effects\<close>

lemma new_calls_same [simp]: "sr_calls t = sr_calls s \<Longrightarrow> new_calls s t"
  by (simp add: new_calls_def)

lemma frame_refl [simp]: "frame s s"
  by (simp add: frame_def)

lemma isCurrent_frame: "frame s t \<Longrightarrow> rt_isCurrent t a = rt_isCurrent s a"
  by (simp add: rt_isCurrent_def frame_def)

lemma frame_trans: "frame s t \<Longrightarrow> frame t u \<Longrightarrow> frame s u"
  using isCurrent_frame [of s t] by (auto simp: frame_def new_calls_def)

lemma proper_frame: "frame s t \<Longrightarrow> proper t e = proper s e"
  by (cases "(s, e)" rule: proper.cases) (simp_all add: isCurrent_frame, simp_all add: frame_def)

lemma tame_from: "frame s t \<Longrightarrow> tame t r \<Longrightarrow> tame s r"
  by (auto simp: tame_def proper_frame list_all_iff intro: frame_trans)

lemma tame_pair: "tame s (t, []) = frame s t"
  by (simp add: tame_def)

lemma tame_append:
  "tame s (t, xs) \<Longrightarrow> tame s (u, ys) \<Longrightarrow> tame s (u, xs @ ys)"
  by (simp add: tame_def)

lemma tame_then:
  assumes "tame s r" and "\<And>t. frame s t \<Longrightarrow> tame t (f t)"
  shows "tame s (let (s1, o1) = r; (s2, o2) = f s1 in (s2, o1 @ o2))"
proof -
  have "tame s (f (fst r))"
    using assms tame_from unfolding tame_def by blast
  with assms(1) show ?thesis by (simp add: tame_def case_prod_beta)
qed

lemma tame_in_order:
  "(\<And>f t. f \<in> set fs \<Longrightarrow> frame s t \<Longrightarrow> tame t (f t)) \<Longrightarrow> tame s (in_order fs s)"
proof (induction fs arbitrary: s)
  case (Cons f fs)
  then have "tame s (f s)" by simp
  moreover have "tame t (in_order fs t)" if "frame s t" for t
    using Cons.IH [of t] Cons.prems that frame_trans by (metis list.set_intros(2))
  ultimately show ?case
    using tame_then [of s "f s" "in_order fs"] by simp
qed (simp add: tame_def)

declare in_order.simps [simp del]

text \<open>The form in which the operations use it: after some assignments, part after part.\<close>

lemma tame_parts:
  assumes "frame s s1" and "\<And>f t. f \<in> set fs \<Longrightarrow> frame s t \<Longrightarrow> tame t (f t)"
  shows "tame s (in_order fs s1)"
proof (rule tame_from [OF assms(1)], rule tame_in_order)
  show "tame t (f t)" if "f \<in> set fs" "frame s1 t" for f t
    using assms(2) [OF that(1)] frame_trans [OF assms(1) that(2)] by blast
qed

lemma tame_publish [tame_rules]: "tame s (rt_publish s)"
  by (simp add: tame_def rt_publish_def frame_def)

lemma tame_nothing [tame_rules]: "tame s (nothing s)"
  by (simp add: tame_def nothing_def)

lemma tame_effect: "proper s e \<Longrightarrow> tame s (effect e s)"
  by (simp add: tame_def effect_def)

lemma tame_emit: "proper s (Emitted e) \<Longrightarrow> tame s (emit e s)"
  by (simp add: emit_def tame_effect)

lemma tame_assign: "frame s (f s) \<Longrightarrow> tame s (assign f s)"
  by (simp add: tame_def assign_def)

lemma tame_cancel [tame_rules]: "tame s (cancelReconnect s)"
  by (simp add: tame_def cancelReconnect_def frame_def split: option.split)

lemma tame_await:
  "rt_isCurrent s (call_authority call) \<Longrightarrow> prepared_for call \<Longrightarrow> tame s (await call s)"
  using set_map_put [of "sr_nextCall s" call "sr_calls s"]
  by (auto simp: tame_def await_def frame_def new_calls_def)

lemma frame_diagnostic [simp]: "frame s (logDiagnostic h k d t) = frame s t"
  by (simp add: frame_def logDiagnostic_def Let_def new_calls_def)

lemma frame_invalidate [simp]: "frame s (invalidate_operation t) = frame s t"
  by (simp add: frame_def invalidate_operation_def new_calls_def)

lemma frame_target [simp]: "frame s (set_target k c t) = frame s t"
  by (simp add: frame_def set_target_def new_calls_def)

lemmas in_parts = emit_def effect_def assign_def nothing_def

lemma frame_update [simp]:
  "frame s (t\<lparr>sr_suspended := x1\<rparr>) = frame s t"
  "frame s (t\<lparr>sr_target := x3\<rparr>) = frame s t" "frame s (t\<lparr>sr_retryEnabled := x4\<rparr>) = frame s t"
  "frame s (t\<lparr>sr_retryAttempt := x5\<rparr>) = frame s t" "frame s (t\<lparr>sr_timer := x6\<rparr>) = frame s t"
  "frame s (t\<lparr>sr_recoveryOperation := x7\<rparr>) = frame s t" "frame s (t\<lparr>sr_recovering := x8\<rparr>) = frame s t"
  "frame s (t\<lparr>sr_recoveryBuffer := x9\<rparr>) = frame s t"
  "frame s (t\<lparr>sr_identityValidated := x10\<rparr>) = frame s t"
  "frame s (t\<lparr>sr_serverCapabilities := x11\<rparr>) = frame s t"
  "frame s (t\<lparr>sr_sessionCapabilities := x12\<rparr>) = frame s t" "frame s (t\<lparr>sr_opened := x13\<rparr>) = frame s t"
  "frame s (t\<lparr>sr_phase := x14\<rparr>) = frame s t" "frame s (t\<lparr>sr_status := x15\<rparr>) = frame s t"
  "frame s (t\<lparr>sr_error := x16\<rparr>) = frame s t" "frame s (t\<lparr>sr_projection := x17\<rparr>) = frame s t"
  by (simp_all add: frame_def new_calls_def)

lemma frame_unbind [simp]: "frame s t \<Longrightarrow> frame s (t\<lparr>sr_binding := None\<rparr>)"
  by (simp add: frame_def new_calls_def)

lemma tame_schedule [tame_rules]: "tame s (scheduleReconnect h s)"
  by (auto simp: scheduleReconnect_def Let_def tame_pair intro!: tame_parts tame_assign tame_effect
      tame_publish split: option.split) (auto simp: frame_def)

lemma tame_release [tame_rules]: "tame s (release_transport h c b s)"
  by (auto simp: release_transport_def tame_pair intro!: tame_parts tame_effect tame_rules)
     (auto simp: frame_def)

lemma tame_fail [tame_rules]: "tame s (failCurrent h e b s)"
  by (auto simp: failCurrent_def Let_def tame_pair intro!: tame_parts tame_rules split: option.split)

lemma tame_overflow [tame_rules]: "tame s (overflowRecovery h a s)"
  by (auto simp: overflowRecovery_def tame_pair intro!: tame_parts tame_rules)

lemma tame_finish [tame_rules]: "tame s (finishRecovery h r a s)"
  by (auto simp: finishRecovery_def tame_pair isCurrent_frame intro!: tame_parts tame_emit tame_rules)

lemma tame_hydrate_begin: "rt_isCurrent s a \<Longrightarrow> tame s (hydrate_begin a r k s)"
  by (auto simp: hydrate_begin_def Let_def isCurrent_frame intro!: tame_parts tame_await tame_rules)

definition tame3 :: "sessionRuntime \<Rightarrow> sessionRuntime \<times> runtimeEffect list \<times> 'a \<Rightarrow> bool" where
  "tame3 s r \<longleftrightarrow> tame s (fst r, fst (snd r))"

lemma tame3_let: "tame s r \<Longrightarrow> tame3 s (let (s1, out) = r in (s1, out, x))"
  by (simp add: tame3_def case_prod_beta)

lemma tame_of_tame3: "tame3 s r \<Longrightarrow> tame s (let (s1, out, d) = r in (s1, out))"
  by (simp add: tame3_def case_prod_beta)

lemma tame3_frame: "tame3 s (t, out, d) \<Longrightarrow> frame s t"
  by (simp add: tame3_def tame_def)

lemma tame3_next:
  assumes "tame3 s (t, out, d)" and "tame3 t (u, out', d')"
  shows "tame3 s (u, out @ out', d'')"
  using assms tame_from [of s t "(u, out')"] by (simp add: tame3_def tame_def)

lemma tame_enqueue: "tame3 s (enqueueRecovery h a e s)"
  using tame_overflow [of s h a]
  by (auto simp: enqueueRecovery_def tame3_def tame_pair case_prod_beta)

lemma tame_recover: "tame3 s (recover_from h a e reason s)"
proof -
  have "tame s (in_order [rt_publish,
          (\<lambda>s. if hydrate_refused a s then (s, []) else hydrate_begin a ByRecovery FromNotification s)]
          (s\<lparr>sr_recovering := True, sr_phase := RRecovering, sr_recoveryBuffer := b\<rparr>))" for b
    by (auto intro!: tame_parts tame_rules tame_hydrate_begin simp: tame_pair hydrate_refused_def)
  then show ?thesis
    by (simp add: recover_from_def Let_def tame3_def case_prod_beta tame_fail)
qed

lemma tame_accept: "tame3 s (acceptNotification h a e raw fb s)"
proof (cases "rt_isCurrent s a \<and> notificationMatchesSessionScope (bn_notification e) (aa_sessionId a)")
  case False
  then show ?thesis by (auto simp: acceptNotification_def Let_def tame3_def tame_def)
next
  case True
  let ?s1 = "fst (rt_publish (s\<lparr>sr_projection := fst (observe fb (bn_notification e) (sr_projection s))\<rparr>))"
  have f: "frame s ?s1" by (simp add: rt_publish_def frame_def)
  have rec: "tame3 s (recover_from h a e reason ?s1)" for reason
    using tame_from [OF f] tame_recover by (simp add: tame3_def)
  have said: "proper s (Emitted (EvNotification a (bn_notification e)))" using True by simp
  from True rec f said tame_enqueue [of s h a e] show ?thesis
    by (simp add: acceptNotification_def Let_def case_prod_beta tame3_def tame_def
        rt_publish_def split: projectionDecision.split)
qed

lemma tame_enqueue_all: "tame3 s (enqueue_all h a es s)"
proof (induction es arbitrary: s)
  case (Cons e es)
  obtain s1 o1 q where e: "enqueueRecovery h a e s = (s1, o1, q)" by (rule prod_cases3)
  obtain s2 o2 d where es: "enqueue_all h a es s1 = (s2, o2, d)" by (rule prod_cases3)
  note queued = tame_enqueue [of s h a e, unfolded e]
  from queued tame3_next [OF queued Cons.IH [of s1, unfolded es]] show ?case
    by (simp add: e es tame3_def)
qed (simp add: tame3_def tame_def)

lemma tame_drain: "tame3 s (drainNotifications h a es s)"
proof (induction es arbitrary: s)
  case (Cons e es)
  obtain s1 o1 d where e: "acceptNotification h a e False True s = (s1, o1, d)" by (rule prod_cases3)
  obtain s2 o2 d2 where es: "drainNotifications h a es s1 = (s2, o2, d2)" by (rule prod_cases3)
  obtain s3 o3 d3 where rest: "enqueue_all h a es s1 = (s3, o3, d3)" by (rule prod_cases3)
  note accepted = tame_accept [of s h a e False True, unfolded e]
  from tame3_next [OF accepted Cons.IH [of s1, unfolded es]]
    tame3_next [OF accepted tame_enqueue_all [of s1 h a es, unfolded rest]] accepted
  show ?case by (simp add: e es rest tame3_def split: disposition.split)
qed (simp add: tame3_def tame_def)

lemma tame_rehydrate_failed [tame_rules]: "tame s (rehydrate_failed a e s)"
  by (auto simp: rehydrate_failed_def tame_def [of s "(s, [x])" for x]
      intro!: tame_parts tame_effect tame_rules)

lemma tame_caller_returns [tame_rules]: "tame s (caller_returns h a k s)"
  by (auto simp: caller_returns_def tame_def [of s "(s, x)" for x] intro: tame_rules)

lemma tame_caller_throws [tame_rules]: "tame s (caller_throws h a k e s)"
  by (auto simp: caller_throws_def tame_pair intro: tame_rules)

lemma tame_drain_buffer [tame_rules]: "tame s (drain_buffer h a r k hydrated s)"
proof -
  obtain s1 out d where d: "drainNotifications h a (map (mark_receipt a hydrated) (sr_recoveryBuffer s))
      (s\<lparr>sr_recoveryBuffer := []\<rparr>) = (s1, out, d)" by (rule prod_cases3)
  have "frame s (s\<lparr>sr_recoveryBuffer := []\<rparr>)" by simp
  from tame_from [OF this] tame_drain [of "s\<lparr>sr_recoveryBuffer := []\<rparr>", unfolded tame3_def]
  have drained: "tame s (s1, out)" by (metis d fst_conv snd_conv)
  then have "frame s s1" by (simp add: tame_def)
  from tame_from [OF this tame_finish] have "tame s (finishRecovery h r a s1)" .
  with drained show ?thesis
    by (auto simp: drain_buffer_def d case_prod_beta tame_def)
qed

lemma tame_hydrate_commit:
  assumes "rt_isCurrent s a" and "hr_session_id hydrated = aa_sessionId a"
  shows "tame s (hydrate_commit h a r k c hydrated s)"
proof -
  have "tame t (emit (EvHydrate r a hydrated i) t)" if "frame s t" for t i
    using assms by (intro tame_emit) (simp add: isCurrent_frame [OF that])
  then show ?thesis
    by (auto simp: hydrate_commit_def intro!: tame_parts tame_rules split: sum.split)
qed

lemma tame_hydrate_answered [tame_rules]: "tame s (hydrate_answered h a r k c ans s)"
  using tame_hydrate_commit [of s a]
  by (auto simp: hydrate_answered_def operation_current_def intro: tame_rules tame_await
      split: sum.split)

lemma tame_drain_candidate [tame_rules]: "tame s (drain_candidate h es s)"
proof (cases "sr_authority s")
  case (Some a)
  with tame_of_tame3 [OF tame_drain [of s h a es]] show ?thesis by (simp add: drain_candidate_def)
qed (simp add: drain_candidate_def tame_pair)

lemma tame_candidate_projection:
  assumes "rt_isCurrent s a" and "hr_session_id (cn_hydrated k) = aa_sessionId a"
  shows "tame s (emitCandidateProjection h a k r s)"
proof -
  have hyd: "tame t (emit (EvHydrate ByCandidate a (cn_hydrated k) i) t)" if "frame s t" for t i
    using assms by (intro tame_emit) (simp add: isCurrent_frame [OF that])
  have "tame t (emit (EvCleared r) t)" for t by (rule tame_emit) simp
  moreover have "tame t (t, map (Emitted \<circ> EvRaw) ns)" for t ns
    by (simp add: tame_def list_all_iff)
  ultimately show ?thesis
    unfolding emitCandidateProjection_def Let_def
    by (auto intro!: tame_in_order tame_rules hyd)
qed

lemma tame_hydrate_prepared:
  "hr_session_id hydrated = aa_sessionId a \<Longrightarrow> tame s (hydrate_prepared h a r k c hydrated ans s)"
  using tame_hydrate_commit [of s a]
  by (auto simp: hydrate_prepared_def operation_current_def intro: tame_rules split: option.split)

lemma tame_rehydrate [tame_rules]: "tame s (rehydrateSession h a s)"
  by (auto simp: rehydrateSession_def tame_def [of s "(s, [x])" for x]
      intro!: tame_rules tame_hydrate_begin)

lemma tame_report [tame_rules]: "tame s (reportError m s)"
  unfolding reportError_def by (rule tame_from [OF _ tame_publish]) simp

lemma tame_status [tame_rules]: "tame s (on_status h c st s)"
  by (auto simp: on_status_def Let_def tame_pair intro!: tame_parts tame_rules split: option.split)

lemma tame_client_error [tame_rules]: "tame s (on_client_error c m s)"
  by (auto simp: on_client_error_def tame_pair intro!: tame_from [OF _ tame_publish] split: option.split)

lemma tame_notification [tame_rules]: "tame s (on_notification h c n s)"
proof (cases "heard s c")
  case (Some a)
  with tame_of_tame3 [OF tame_accept [of s h a]] show ?thesis by (simp add: on_notification_def)
qed (simp add: on_notification_def tame_pair)

section \<open>Steps that change the authority\<close>

definition lease_of :: "activeAuthority option \<Rightarrow> (nat \<times> nat) option" where
  "lease_of a = map_option (\<lambda>a. (aa_generation a, aa_client a)) a"

text \<open>
  Every step keeps the lease, drops it, or issues one with a new generation; its effects speak for
  the authority it ends with.
\<close>

definition advances :: "sessionRuntime \<Rightarrow> sessionRuntime \<Rightarrow> bool" where
  "advances s t \<longleftrightarrow>
     sr_generation s \<le> sr_generation t \<and> sr_managed t = sr_managed s
     \<and> (\<forall>l. lease_of (sr_authority t) = Some l \<longrightarrow>
          lease_of (sr_authority s) = Some l
          \<or> sr_generation s < fst l \<and> fst l \<le> sr_generation t)
     \<and> (\<forall>x \<in> set (sr_calls t). x \<in> set (sr_calls s)
          \<or> rt_isCurrent t (call_authority (snd x)) \<and> prepared_for (snd x))
     \<and> (sr_binding t = sr_binding s \<or> sr_binding t = None
          \<or> (\<exists>b. sr_binding t = Some b \<and> sr_authority t = Some b \<and> sr_generation s < aa_generation b))"

definition lawful :: "sessionRuntime \<Rightarrow> runtime_result \<Rightarrow> bool" where
  "lawful s r \<longleftrightarrow> advances s (fst r) \<and> list_all (proper (fst r)) (snd r)"

lemma isCurrent_lease:
  "rt_isCurrent s a \<longleftrightarrow> lease_of (sr_authority s) = Some (aa_generation a, aa_client a)"
  by (auto simp: rt_isCurrent_def lease_of_def split: option.split)

lemma frame_advances: "frame s t \<Longrightarrow> advances s t"
  by (auto simp: frame_def advances_def new_calls_def isCurrent_lease)

lemma tame_lawful: "tame s r \<Longrightarrow> lawful s r"
  by (auto simp: tame_def lawful_def frame_advances proper_frame list_all_iff)

lemma lawful_nothing [simp]: "lawful s (s, [])"
  by (simp add: lawful_def advances_def)

lemma lawful_thrown [simp]: "lawful s (s, [Thrown e])"
  by (simp add: lawful_def advances_def)

lemma lawful_append:
  "list_all (proper (fst r)) out \<Longrightarrow> lawful s (fst r, out @ snd r) = lawful s r"
  by (simp add: lawful_def)

lemma advances_frame: "advances s t \<Longrightarrow> frame t u \<Longrightarrow> advances s u"
  by (fastforce simp: advances_def frame_def new_calls_def isCurrent_lease)

lemma lawful_tame:
  assumes "lawful s (t, out)" and "tame t (u, out2)"
  shows "lawful s (u, out @ out2)"
  using assms advances_frame [of s t u] proper_frame [of t u]
  by (auto simp: lawful_def tame_def list_all_iff)

text \<open>Committing a candidate: all of it, or none of what the product sees.\<close>

definition untouched :: "sessionRuntime \<Rightarrow> sessionRuntime \<Rightarrow> bool" where
  "untouched s t \<longleftrightarrow>
     (\<exists>g timer. t = s\<lparr>sr_generation := g, sr_timer := timer\<rparr> \<and> sr_generation s \<le> g)"

definition committed ::
    "candidateSnapshot \<Rightarrow> sessionRuntime \<Rightarrow> sessionRuntime \<Rightarrow> activeAuthority \<Rightarrow> bool" where
  "committed k s t next \<longleftrightarrow>
     sr_authority t = Some next \<and> sr_binding t = Some next \<and> aa_client next = cn_client k
     \<and> aa_generation next = Suc (sr_generation s) \<and> sr_generation t = Suc (sr_generation s)
     \<and> aa_sessionId next = so_session_id (cn_opened k)
     \<and> hr_session_id (cn_hydrated k) = so_session_id (cn_opened k)
     \<and> length (cn_notifications k) \<le> RECOVERY_LIMIT
     \<and> sr_opened t = Some (cn_opened k) \<and> d_phase (sr_projection t) = Healthy
     \<and> \<not> sr_recovering t \<and> sr_recoveryBuffer t = [] \<and> sr_phase t = RRecovering
     \<and> sr_managed t = sr_managed s \<and> sr_calls t = sr_calls s"

lemma untouched_refl [simp]: "untouched s s"
  unfolding untouched_def
  by (rule exI [of _ "sr_generation s"], rule exI [of _ "sr_timer s"]) simp

lemma cancelReconnect_state: "fst (cancelReconnect s) = s\<lparr>sr_timer := None\<rparr>"
  by (cases s) (simp add: cancelReconnect_def split: option.split)

lemma commitHydrate_same:
  "hr_session_id r = d_sessionId d \<Longrightarrow> \<exists>d'. commitHydrate r d = Inr d' \<and> d_phase d' = Healthy"
  by (simp add: commitHydrate_def)

lemma commitCandidate_cases:
  obtains (refused) t out e where "commitCandidate h c k s = (t, out, Inl e)" "untouched s t"
      "list_all ((=) Cancelled) out"
  | (adopted) t out nxt where "commitCandidate h c k s = (t, out, Inr nxt)" "committed k s t nxt"
      "list_all ((=) Cancelled) out" "candidate_error h k = None" "rh_authorize h"
proof (cases "candidate_error h k")
  case (Some e)
  then show ?thesis
    by (intro refused [of s "[]" e]) (simp_all add: commitCandidate_def)
next
  case None
  obtain s1 out where c1: "cancelReconnect s = (s1, out)" by (rule prod.exhaust)
  have s1: "s1 = s\<lparr>sr_timer := None\<rparr>" "list_all ((=) Cancelled) out"
    using c1 cancelReconnect_state [of s] by (auto simp: cancelReconnect_def split: option.splits)
  show ?thesis
  proof (cases "rh_authorize h")
    case False
    have "untouched s (s1\<lparr>sr_generation := Suc (sr_generation s)\<rparr>)"
      unfolding untouched_def s1
      by (rule exI [of _ "Suc (sr_generation s)"], rule exI [of _ None]) simp
    with False None c1 s1 show ?thesis
      by (intro refused [of "s1\<lparr>sr_generation := Suc (sr_generation s)\<rparr>" out StaleAuthority])
         (simp_all add: commitCandidate_def Let_def create_authority_def)
  next
    case True
    let ?config = "committedSessionConfig c (cn_opened k)"
    let ?next = "make_authority (Suc (sr_generation s)) (cn_client k) ?config
                   (Some (cn_opened k, so_capabilities (cn_opened k)))"
    let ?s3 = "install_candidate h ?config k ?next (s1\<lparr>sr_generation := Suc (sr_generation s)\<rparr>)"
    from None have ids: "hr_session_id (cn_hydrated k) = so_session_id (cn_opened k)"
        "length (cn_notifications k) \<le> RECOVERY_LIMIT"
      by (auto simp: candidate_error_def Let_def split: option.splits if_splits)
    have "d_sessionId (sr_projection ?s3) = so_session_id (cn_opened k)"
      by (simp add: install_candidate_def Let_def beginHydrate_def)
    with ids obtain d where d: "commitHydrate (cn_hydrated k) (sr_projection ?s3) = Inr d"
        "d_phase d = Healthy"
      using commitHydrate_same [of "cn_hydrated k" "sr_projection ?s3"] by auto
    let ?t = "?s3\<lparr>sr_projection := d, sr_recovering := False, sr_recoveryBuffer := [],
                   sr_phase := RRecovering\<rparr>"
    have "commitCandidate h c k s = (?t, out, Inr ?next)"
      using None True c1 s1 d by (simp add: commitCandidate_def Let_def create_authority_def)
    moreover have "committed k s ?t ?next"
      using ids s1 d by (simp add: committed_def install_candidate_def Let_def make_authority_def
          set_target_def invalidate_operation_def)
    ultimately show ?thesis using adopted s1 None True by blast
  qed
qed

lemma untouched_lawful:
  assumes "untouched s t" and "list_all (proper s) out"
  shows "lawful s (t, out)"
proof -
  from assms(1) have t: "sr_authority t = sr_authority s" "sr_managed t = sr_managed s"
      "sr_calls t = sr_calls s" "sr_generation s \<le> sr_generation t" "sr_binding t = sr_binding s"
    by (auto simp: untouched_def)
  have "proper t e = proper s e" for e
    by (cases "(s, e)" rule: proper.cases) (simp_all add: rt_isCurrent_def t)
  with assms(2) t show ?thesis by (simp add: lawful_def advances_def list_all_iff)
qed

lemma committed_lawful:
  assumes "committed k s t a" and "list_all ((=) Cancelled) out"
  shows "lawful s (t, out)"
proof -
  have "proper t Cancelled" by simp
  with assms(2) have "list_all (proper t) out" by (auto simp: list_all_iff)
  with assms(1) show ?thesis by (auto simp: committed_def lawful_def advances_def lease_of_def)
qed

lemma committed_projection:
  assumes "committed k s t a"
  shows "tame t (emitCandidateProjection h a k r t)"
  using assms by (intro tame_candidate_projection) (auto simp: committed_def rt_isCurrent_def)

text \<open>What an adopter that throws leaves behind, and what one that succeeds begins with.\<close>

definition closes_nothing :: "sessionRuntime \<Rightarrow> runtimeOp \<Rightarrow> bool" where
  "closes_nothing s x = (case x of OAdopt e c k preserve \<Rightarrow> preserve \<or> \<not> sr_managed s | _ \<Rightarrow> True)"

lemma lawful_adopt:
  assumes "preserve \<or> \<not> sr_managed s"
  shows "lawful s (adoptCandidate h e c k preserve s)"
proof (cases h c k s rule: commitCandidate_cases)
  case (refused t out f)
  have "list_all (proper s) (out @ [Thrown f])" using refused(3) by (auto simp: list_all_iff)
  from untouched_lawful [OF refused(2) this] refused(1) show ?thesis
    by (simp add: adoptCandidate_def)
next
  case (adopted t out a)
  let ?closed = "if preserve then [] else case sr_authority s of
                   None \<Rightarrow> [] | Some a \<Rightarrow> [DisconnectClient (aa_client a)]"
  obtain u out2 where e: "emitCandidateProjection h a k OnSelect t = (u, out2)" by (rule prod.exhaust)
  have "sr_managed t = sr_managed s" using adopted(2) by (simp add: committed_def)
  with assms have "list_all (proper t) ?closed" by (auto split: option.split)
  with committed_lawful [OF adopted(2,3)] have "lawful s (t, out @ ?closed)" by (simp add: lawful_def)
  moreover have "tame t (u, out2 @ [Returned (Some a)])"
    using committed_projection [OF adopted(2), of h OnSelect] e by (simp add: tame_def)
  ultimately have "lawful s (u, (out @ ?closed) @ out2 @ [Returned (Some a)])" by (rule lawful_tame)
  with adopted(1) e show ?thesis by (simp add: adoptCandidate_def Let_def)
qed

lemma lawful_adoptFirst: "lawful s (adoptFirst h c k s)"
proof (cases h c k s rule: commitCandidate_cases)
  case (refused t out f)
  have "list_all (proper s) (out @ [Thrown f])" using refused(3) by (auto simp: list_all_iff)
  from untouched_lawful [OF refused(2) this] refused(1) show ?thesis by (simp add: adoptFirst_def)
next
  case (adopted t out a)
  obtain u out2 where e: "emitCandidateProjection h a k OnResume t = (u, out2)" by (rule prod.exhaust)
  have "tame t (u, out2 @ [Returned (Some a)])"
    using committed_projection [OF adopted(2), of h OnResume] e by (simp add: tame_def)
  from lawful_tame [OF committed_lawful [OF adopted(2,3)] this] adopted(1) e show ?thesis
    by (simp add: adoptFirst_def Let_def)
qed

lemma lawful_install: "lawful s (installPreparedSession h e c k s)"
  by (simp add: installPreparedSession_def lawful_adoptFirst lawful_adopt split: option.split)

lemma lawful_update:
  "lawful s (t, out) \<Longrightarrow> lawful s (t\<lparr>sr_suspended := x\<rparr>, out)"
  using proper_frame [of t "t\<lparr>sr_suspended := x\<rparr>"]
  by (auto simp: lawful_def list_all_iff intro: advances_frame)

lemma lawful_resume: "lawful s (resumePreparedSession h c k s)"
  using lawful_adoptFirst [of s h c k]
  by (auto simp: resumePreparedSession_def case_prod_beta Let_def intro: lawful_update)

lemma lawful_suspend: "lawful s (rt_suspend a s)"
  by (auto simp: rt_suspend_def in_order.simps cancelReconnect_def assign_def rt_publish_def
      lawful_def advances_def lease_of_def invalidate_operation_def split: option.split)

lemma lawful_disconnect: "lawful s (rt_disconnect s)"
  by (auto simp: rt_disconnect_def in_order.simps cancelReconnect_def in_parts rt_publish_def
      lawful_def advances_def lease_of_def invalidate_operation_def split: option.split)

text \<open>A new authority is installed, and then the framed parts follow.\<close>

lemma lawful_new:
  assumes "sr_authority t = Some a" and "aa_generation a = Suc (sr_generation s)"
    and "sr_generation t = Suc (sr_generation s)" and "sr_managed t = sr_managed s"
    and "sr_calls t = sr_calls s" and "sr_binding t = Some a"
  shows "lawful s (t, [])"
  using assms by (simp add: lawful_def advances_def lease_of_def)

lemma lawful_restore: "lawful s (restoreSuspendedSession h e c s)"
proof -
  have parts: "lawful s (in_order [rt_publish, emit (EvError a m)] t)"
    if "lawful s (t, [])" "sr_authority t = Some a" for t a m
  proof -
    have "tame u (emit (EvError a m) u)" if "frame t u" for u
      using that \<open>sr_authority t = Some a\<close> by (intro tame_emit) (simp add: rt_isCurrent_def frame_def)
    then have "tame t (in_order [rt_publish, emit (EvError a m)] t)"
      by (auto intro!: tame_in_order tame_rules)
    with lawful_tame [OF that(1)] show ?thesis by (metis append_Nil prod.collapse)
  qed
  show ?thesis
    by (auto simp: restoreSuspendedSession_def Let_def create_authority_def set_target_def
        make_authority_def intro!: parts lawful_new split: option.split)
qed

lemma replaceTransport_lawful:
  assumes "replaceTransport h c x s = (t, out, a)" and "\<not> sr_managed s"
  shows "lawful s (t, out)" "sr_authority t = Some a" "sr_managed t = sr_managed s"
  using assms
  by (auto simp: replaceTransport_def create_authority_def make_authority_def Let_def lawful_def
      advances_def lease_of_def invalidate_operation_def split: option.splits)

text \<open>The first steps of a method that then waits for its new client.\<close>

lemma lawful_connecting:
  assumes "frame s s1" and "replaceTransport h c x s1 = (t, out, a)" and "\<not> sr_managed s"
    and "call_authority call = a" and "prepared_for call" and "\<And>u. frame t u \<Longrightarrow> tame u (f u)"
    and "\<And>u. frame t u \<Longrightarrow> tame u (g u)" and "list_all (proper t) out1"
    and "sr_calls s1 = sr_calls s"
  shows "lawful s (let (u, out2) = in_order [f, g, effect (ConnectClient (aa_client a)), await call] t
                   in (u, out1 @ out @ out2))"
proof -
  have m: "\<not> sr_managed s1" using assms(1,3) by (simp add: frame_def)
  note r = replaceTransport_lawful [OF assms(2) m]
  have "lawful s (t, out1 @ out)"
    using r(1) assms(1,8,9) by (auto simp: lawful_def advances_def frame_def)
  moreover have "tame t (in_order [f, g, effect (ConnectClient (aa_client a)), await call] t)"
  proof (rule tame_in_order)
    fix k u assume k: "k \<in> set [f, g, effect (ConnectClient (aa_client a)), await call]" "frame t u"
    have "rt_isCurrent u (call_authority call)"
      using k(2) r(2) assms(4) by (simp add: rt_isCurrent_def frame_def)
    moreover have "\<not> sr_managed u" using k(2) r(3) m by (simp add: frame_def)
    ultimately show "tame u (k u)"
      using k assms(5-7) by (auto intro: tame_await tame_effect)
  qed
  ultimately show ?thesis
    using lawful_tame [of s t "out1 @ out"] by (simp add: case_prod_beta)
qed

lemma lawful_authenticate: "lawful s (authenticate h c s)"
proof -
  obtain s1 out1 where c1: "cancelReconnect s = (s1, out1)" by (rule prod.exhaust)
  define s2 where "s2 = (set_target False (serverOnlyConfig c) s1)\<lparr>sr_retryEnabled := False,
      sr_retryAttempt := 0, sr_identityValidated := False, sr_serverCapabilities := None,
      sr_sessionCapabilities := None, sr_opened := None, sr_recovering := False,
      sr_recoveryBuffer := [], sr_projection := durable_reset [] (sr_projection s1),
      sr_phase := RConnecting, sr_status := StIdle, sr_error := None\<rparr>"
  have f: "frame s s2" and cancelled: "list_all (proper t) out1" for t
    using tame_cancel [of s] c1 by (auto simp: s2_def tame_def cancelReconnect_def split: option.splits)
  have calls: "sr_calls s2 = sr_calls s"
    using cancelReconnect_state [of s] c1 by (simp add: s2_def set_target_def)
  show ?thesis
  proof (cases "sr_managed s")
    case True
    then have m: "sr_managed s2" using f by (simp add: frame_def)
    with c1 True have "authenticate h c s = (s2, out1 @ [Thrown (Failure managed_replace)])"
      by (simp add: authenticate_def Let_def s2_def [symmetric])
    moreover have "tame s (s2, out1 @ [Thrown (Failure managed_replace)])"
      using f cancelled by (simp add: tame_def)
    ultimately show ?thesis by (simp add: tame_lawful)
  next
    case False
    then have m: "\<not> sr_managed s2" using f by (simp add: frame_def)
    obtain t out a where r: "replaceTransport h (serverOnlyConfig c) None s2 = (t, out, a)"
      by (rule prod_cases3)
    have e: "tame u (emit (EvCleared OnSelect) u)" for u by (rule tame_emit) simp
    with False have "authenticate h c s =
            (let (u, out2) = in_order [emit (EvCleared OnSelect), rt_publish,
                effect (ConnectClient (aa_client a)), await (AuthConnect a)] t in (u, out1 @ out @ out2))"
      using m by (simp add: authenticate_def Let_def c1 s2_def [symmetric] r)
    with lawful_connecting [OF f r False, of "AuthConnect a"] e tame_publish cancelled calls
    show ?thesis by simp
  qed
qed

lemma lawful_reconnect:
  assumes f: "frame s0 s" and calls: "sr_calls s = sr_calls s0"
  shows "lawful s0 (reconnect h target s)"
proof (cases "\<not> sr_retryEnabled s \<or> sr_target s \<noteq> Some target \<or> sr_managed s")
  case True
  with f show ?thesis by (simp add: reconnect_def tame_lawful tame_pair)
next
  case False
  define cursor where "cursor = (if tg_session target then d_cursor (sr_projection s) else None)"
  define retained where "retained = (if tg_session target
      then map_option (\<lambda>o'. (o', sr_sessionCapabilities s)) (sr_opened s) else None)"
  define s1 where "s1 = s\<lparr>sr_phase := RReconnecting, sr_error := None\<rparr>"
  obtain t out a where r: "replaceTransport h (tg_config target) retained s1 = (t, out, a)"
    by (rule prod_cases3)
  have f1: "frame s0 s1" using f by (simp add: s1_def)
  have m: "\<not> sr_managed s0" using False f by (simp add: frame_def)
  have "reconnect h target s =
          (let (u, out2) = in_order [rt_publish, nothing, effect (ConnectClient (aa_client a)),
              await (ReconnectConnect a target cursor)] t in (u, [] @ out @ out2))"
    using False by (simp add: reconnect_def Let_def cursor_def [symmetric] retained_def [symmetric]
        s1_def [symmetric] r in_order.simps nothing_def case_prod_beta)
  with lawful_connecting [OF f1 r m, of "ReconnectConnect a target cursor" rt_publish nothing "[]"]
    tame_publish tame_nothing calls show ?thesis by (simp add: s1_def)
qed

lemma lawful_timer: "lawful s (on_timer h s)"
  by (simp add: on_timer_def lawful_reconnect split: option.split)

text \<open>Capabilities and a reopened Session: the same lease, better known.\<close>

lemma authorityWith_lease [simp]:
  "aa_generation (authorityWith c p q a) = aa_generation a" "aa_client (authorityWith c p q a) = aa_client a"
  by (simp_all add: authorityWith_def Let_def)

lemma lawful_same_lease:
  assumes "rt_isCurrent s a" and "aa_generation a' = aa_generation a" and "aa_client a' = aa_client a"
    and "sr_authority t = Some a'" and "sr_generation t = sr_generation s"
    and "sr_managed t = sr_managed s" and "sr_calls t = sr_calls s" and "sr_binding t = sr_binding s"
  shows "lawful s (t, [])" "rt_isCurrent t a'"
  using assms by (auto simp: lawful_def advances_def isCurrent_lease lease_of_def rt_isCurrent_def)

lemma lawful_then: "lawful s (t, []) \<Longrightarrow> tame t r \<Longrightarrow> lawful s r"
  using lawful_tame [of s t "[]" "fst r" "snd r"] by simp

lemma lawful_authenticated:
  assumes "rt_isCurrent s a" and "authenticated h again a caps s = Inr r"
  shows "lawful s r"
proof -
  let ?a = "authorityWith None None caps a"
  have "tame u (emit (EvAuthenticated again ?a) u)" if "frame t u" "rt_isCurrent t ?a" for t u
    using that by (intro tame_emit) (simp add: isCurrent_frame)
  then have "tame t (in_order [rt_publish, emit (EvAuthenticated again ?a),
                        if again then nothing else effect (Returned (Some ?a))] t)"
    if "rt_isCurrent t ?a" for t
    using that by (auto intro!: tame_in_order tame_rules tame_effect split: if_splits)
  moreover define t where "t = s\<lparr>sr_serverCapabilities := caps, sr_authority := Some ?a,
      sr_phase := RAuthenticated, sr_status := rh_status h (aa_client a), sr_error := None,
      sr_identityValidated := True, sr_retryAttempt := 0,
      sr_retryEnabled := (if again then sr_retryEnabled s else True)\<rparr>"
  have "lawful s (t, [])" "rt_isCurrent t ?a"
    using lawful_same_lease [OF assms(1), of ?a t] by (simp_all add: t_def)
  moreover have "r = in_order [rt_publish, emit (EvAuthenticated again ?a),
                       if again then nothing else effect (Returned (Some ?a))] t"
    using assms(2) by (auto simp: authenticated_def Let_def t_def split: if_splits option.splits)
  ultimately show ?thesis using lawful_then by blast
qed

lemma tame_auth_failed: "tame s (auth_failed h a e s)"
  by (auto simp: auth_failed_def tame_def [of s "(s, [x])" for x] intro!: tame_in_order tame_effect
      tame_rules)

lemma tame_reconnect_failed: "tame s (reconnect_failed h a e s)"
  by (simp add: reconnect_failed_def tame_pair tame_fail)

lemma lawful_reopened:
  assumes "rt_isCurrent s a"
  shows "lawful s (reopened h a target opened s)"
proof -
  define a' where "a' = authorityWith (Some (committedSessionConfig (tg_config target) opened))
      (Some opened) (so_capabilities opened) a"
  define t where "t = (set_target True (committedSessionConfig (tg_config target) opened) s)
      \<lparr>sr_opened := Some opened, sr_identityValidated := True,
       sr_serverCapabilities := so_capabilities opened,
       sr_sessionCapabilities := so_capabilities opened, sr_authority := Some a'\<rparr>"
  have t: "lawful s (t, [])" "rt_isCurrent t a'"
    using lawful_same_lease [OF assms, of a' t] by (simp_all add: a'_def t_def set_target_def)
  from lawful_then [OF t(1) tame_hydrate_begin [OF t(2)]] t(1)
  show ?thesis
    by (auto simp: reopened_def Let_def a'_def [symmetric] t_def [symmetric]
        intro: tame_lawful tame_reconnect_failed split: option.split)
qed

section \<open>Every step is lawful\<close>

definition calls_prepared :: "sessionRuntime \<Rightarrow> bool" where
  "calls_prepared s = (\<forall>x \<in> set (sr_calls s). prepared_for (snd x))"

lemma lawful_from:
  assumes "lawful t r" and "sr_authority t = sr_authority s" and "sr_generation t = sr_generation s"
    and "sr_managed t = sr_managed s" and "set (sr_calls t) \<subseteq> set (sr_calls s)"
    and "sr_binding t = sr_binding s"
  shows "lawful s r"
  using assms by (auto simp: lawful_def advances_def)

lemma lawful_answer_call:
  assumes "prepared_for call"
  shows "lawful s (answer_call h call answer s)"
proof -
  have returned: "tame s (s, [Returned None])" by (simp add: tame_def)
  show ?thesis
    using assms
    by (cases "(h, call, answer, s)" rule: answer_call.cases)
       (auto intro!: tame_lawful [OF tame_await] intro: tame_lawful tame_auth_failed tame_reconnect_failed returned
          tame_hydrate_answered tame_hydrate_prepared lawful_authenticated lawful_reopened
          split: sum.split)
qed

lemma lawful_answer:
  assumes "calls_prepared s"
  shows "lawful s (on_answer h k answer s)"
proof (cases "map_get (sr_calls s) k")
  case (Some call)
  then have "(k, call) \<in> set (sr_calls s)" by (simp add: map_get_def map_of_SomeD)
  with assms have "prepared_for call" by (force simp: calls_prepared_def)
  then have "lawful (s\<lparr>sr_calls := map_del k (sr_calls s)\<rparr>)
      (answer_call h call answer (s\<lparr>sr_calls := map_del k (sr_calls s)\<rparr>))"
    by (rule lawful_answer_call)
  with Some show ?thesis
    by (auto simp: on_answer_def set_map_del intro: lawful_from)
qed (simp add: on_answer_def)

text \<open>A managed runtime may adopt only a candidate that leaves the previous transport open.\<close>

theorem lawful_step:
  assumes "calls_prepared s" and "closes_nothing s x"
  shows "lawful s (runtime_step h x s)"
  using assms
  by (cases x) (auto simp: closes_nothing_def intro: tame_lawful tame_rules lawful_authenticate
      lawful_adopt lawful_install lawful_resume lawful_restore lawful_suspend lawful_disconnect
      lawful_timer lawful_answer)

lemma calls_prepared_step:
  assumes "calls_prepared s" and "advances s t"
  shows "calls_prepared t"
  using assms by (auto simp: calls_prepared_def advances_def)

text \<open>The state alone does not depend on what the calls carry.\<close>

lemma frame_in_order:
  "(\<And>f t. f \<in> set fs \<Longrightarrow> frame s t \<Longrightarrow> frame t (fst (f t))) \<Longrightarrow> frame s (fst (in_order fs s))"
proof (induction fs arbitrary: s)
  case (Cons f fs)
  then have one: "frame s (fst (f s))" by simp
  have "frame (fst (f s)) (fst (in_order fs (fst (f s))))"
    using Cons.IH [of "fst (f s)"] Cons.prems frame_trans [OF one] by (metis list.set_intros(2))
  with one show ?case by (auto simp: in_order.simps case_prod_beta intro: frame_trans)
qed (simp add: in_order.simps)

lemma tame_frame: "tame s r \<Longrightarrow> frame s (fst r)"
  by (simp add: tame_def)

lemma frame_hydrate_prepared: "frame s (fst (hydrate_prepared h a r k c hydrated ans s))"
proof -
  have emit: "frame t (fst (emit e t))" for e t by (simp add: emit_def effect_def)
  have parts: "frame s (fst (in_order [rt_publish, \<lambda>s. emit (e s) s, drain_buffer h a r k hydrated,
                   caller_returns h a c] t))" if "frame s t" for t e
    by (rule frame_trans [OF that], rule frame_in_order) (auto intro: tame_frame tame_rules emit)
  have "frame s (fst (caller_throws h a c' e s))" for c' e by (intro tame_frame tame_rules)
  with parts have "frame s (fst (hydrate_commit h a r k c hydrated s))"
    by (simp add: hydrate_commit_def split: sum.split)
  then show ?thesis
    by (auto simp: hydrate_prepared_def intro!: tame_frame tame_rules split: option.split)
qed

lemma advances_step: "advances s (fst (runtime_step h x s))"
proof -
  have framed: "advances s t" if "frame s t" for t
    using tame_lawful [of s "(t, [])"] that by (simp add: tame_pair lawful_def)
  have prepared: "advances s (fst (answer_call h call answer t))"
    if "\<not> prepared_for call" "t = s\<lparr>sr_calls := map_del k (sr_calls s)\<rparr>" for call answer t k
  proof -
    from that(1) obtain a r op c hydrated where call: "call = PrepareCall a r op c hydrated"
      by (cases call) auto
    have "frame t (fst (answer_call h call answer t))"
      using frame_hydrate_prepared by (cases answer) (simp_all add: call)
    then show ?thesis
      using that(2) by (auto simp: advances_def frame_def new_calls_def isCurrent_lease set_map_del)
  qed
  show ?thesis
  proof (cases x)
    case (OAnswer k answer)
    show ?thesis
    proof (cases "map_get (sr_calls s) k")
      case None
      with OAnswer show ?thesis by (simp add: on_answer_def framed)
    next
      case (Some call)
      let ?t = "s\<lparr>sr_calls := map_del k (sr_calls s)\<rparr>"
      have "advances s (fst (answer_call h call answer ?t))"
      proof (cases "prepared_for call")
        case True
        have "lawful s (answer_call h call answer ?t)"
          by (rule lawful_from [OF lawful_answer_call [OF True]]) (auto simp: set_map_del)
        then show ?thesis by (simp add: lawful_def)
      qed (simp add: prepared)
      with OAnswer Some show ?thesis by (simp add: on_answer_def)
    qed
  next
    case (OAdopt e c k preserve)
    have "fst (adoptCandidate h e c k preserve s) = fst (adoptCandidate h e c k True s)"
      by (simp add: adoptCandidate_def Let_def case_prod_beta split: sum.split)
    with lawful_adopt [of True s h e c k] OAdopt show ?thesis by (simp add: lawful_def)
  qed (auto intro!: framed tame_frame tame_rules
      simp: lawful_authenticate [unfolded lawful_def] lawful_install [unfolded lawful_def]
        lawful_resume [unfolded lawful_def] lawful_restore [unfolded lawful_def]
        lawful_suspend [unfolded lawful_def] lawful_disconnect [unfolded lawful_def]
        lawful_timer [unfolded lawful_def])
qed

definition runtime_ok :: "sessionRuntime \<Rightarrow> bool" where
  "runtime_ok s \<longleftrightarrow>
     calls_prepared s \<and> (\<forall>l. lease_of (sr_authority s) = Some l \<longrightarrow> fst l \<le> sr_generation s)"

lemma runtime_ok_new [simp]: "runtime_ok (new_runtime managed)"
  by (simp add: runtime_ok_def calls_prepared_def new_runtime_def Let_def lease_of_def)

lemma runtime_ok_step: "runtime_ok s \<Longrightarrow> runtime_ok (fst (runtime_step h x s))"
  using advances_step [of s h x] calls_prepared_step [of s]
  by (fastforce simp: runtime_ok_def advances_def)

definition run_step :: "sessionRuntime \<Rightarrow> runtimeHost \<times> runtimeOp \<Rightarrow> sessionRuntime" where
  "run_step s hx = fst (runtime_step (fst hx) (snd hx) s)"

definition holds_lease :: "sessionRuntime \<Rightarrow> nat \<times> nat \<Rightarrow> bool" where
  "holds_lease s l = (lease_of (sr_authority s) = Some l)"

definition lease_issued :: "sessionRuntime \<Rightarrow> nat \<times> nat \<Rightarrow> bool" where
  "lease_issued s l = (fst l \<le> sr_generation s)"

lemma runtime_run_states: "fst (runtime_run xs s) = foldl run_step s xs"
  by (induction xs arbitrary: s) (auto simp: run_step_def case_prod_beta Let_def)

interpretation session_runtime: ownership run_step holds_lease lease_issued runtime_ok
proof unfold_locales
  show "runtime_ok (run_step s x)" if "runtime_ok s" for s x
    using that by (simp add: run_step_def runtime_ok_step)
  show "lease_issued s a" if "runtime_ok s" "holds_lease s a" for s a
    using that by (cases a) (simp add: lease_issued_def holds_lease_def runtime_ok_def)
  show "\<not> holds_lease (run_step s x) a"
    if "runtime_ok s" "lease_issued s a" "\<not> holds_lease s a" for s a x
    using that advances_step [of s "fst x" "snd x"]
    by (cases a) (force simp: run_step_def lease_issued_def holds_lease_def advances_def)
  show "lease_issued (run_step s x) a" if "lease_issued s a" for s a x
    using that advances_step [of s "fst x" "snd x"]
    by (auto simp: run_step_def lease_issued_def advances_def)
qed (simp add: holds_lease_def)

section \<open>Whom the runtime speaks for\<close>

text \<open>The lease that an emitted event carries.\<close>

fun speaks_for :: "runtimeEffect \<Rightarrow> (nat \<times> nat) option" where
  "speaks_for (Emitted (EvNotification a n)) = lease_of (Some a)"
| "speaks_for (Emitted (EvHydrate r a hydrated i)) = lease_of (Some a)"
| "speaks_for (Emitted (EvReady r a)) = lease_of (Some a)"
| "speaks_for (Emitted (EvError a m)) = lease_of (Some a)"
| "speaks_for (Emitted (EvAuthenticated again a)) = lease_of (Some a)"
| "speaks_for _ = None"

lemma proper_speaks: "proper s e \<Longrightarrow> speaks_for e = Some l \<Longrightarrow> holds_lease s l"
  by (cases "(s, e)" rule: proper.cases)
     (auto simp: isCurrent_lease holds_lease_def lease_of_def)

text \<open>What an effect says does not depend on who closes the previous socket.\<close>

lemma step_speaks:
  assumes "runtime_ok s" and "e \<in> set (snd (runtime_step h x s))" and "speaks_for e = Some l"
  shows "holds_lease (fst (runtime_step h x s)) l"
proof (cases "closes_nothing s x")
  case True
  with lawful_step assms(1) have "lawful s (runtime_step h x s)" by (simp add: runtime_ok_def)
  with assms(2,3) show ?thesis by (auto simp: lawful_def list_all_iff intro: proper_speaks)
next
  case False
  then obtain a c k where x: "x = OAdopt a c k False" by (cases x) (auto simp: closes_nothing_def)
  have "fst (adoptCandidate h a c k False s) = fst (adoptCandidate h a c k True s)"
    and "e \<in> set (snd (adoptCandidate h a c k True s))"
    using assms(2,3) x by (auto simp: adoptCandidate_def Let_def case_prod_beta
        split: sum.splits option.splits if_splits)
  with lawful_adopt [of True s h a c k] assms(3) x show ?thesis
    by (auto simp: lawful_def list_all_iff intro: proper_speaks)
qed

text \<open>
  C2: A superseded authority is silent for ever. Once a runtime has given up an authority (it was
  suspended, disconnected, or another Session or transport was adopted), no continuation of the run
  emits a notification, a hydrate, a ready or an error event for it again, whatever answers of
  its server are still to come.
\<close>
theorem superseded_authority_is_silent:
  assumes "s = fst (runtime_run ys (new_runtime managed))"
    and "aa_generation a \<le> sr_generation s" and "\<not> rt_isCurrent s a"
  shows "list_all (\<lambda>e. speaks_for e \<noteq> lease_of (Some a)) (snd (runtime_run xs s))"
proof -
  define l where "l = (aa_generation a, aa_client a)"
  have "runtime_ok s"
    unfolding assms(1) runtime_run_states by (rule session_runtime.ok_run) simp
  moreover have "lease_issued s l" "\<not> holds_lease s l"
    using assms(2,3) by (simp_all add: l_def lease_issued_def holds_lease_def isCurrent_lease)
  ultimately have "list_all (\<lambda>e. speaks_for e \<noteq> Some l) (snd (runtime_run xs s))"
  proof (induction xs arbitrary: s)
    case (Cons hx xs)
    obtain h x where hx: "hx = (h, x)" by (rule prod.exhaust)
    let ?t = "fst (runtime_step h x s)"
    have t: "?t = run_step s hx" by (simp add: run_step_def hx)
    have dead: "runtime_ok ?t" "lease_issued ?t l" "\<not> holds_lease ?t l"
      unfolding t using Cons.prems session_runtime.ok_step session_runtime.issued_step
        session_runtime.stale_step by blast+
    have "list_all (\<lambda>e. speaks_for e \<noteq> Some l) (snd (runtime_step h x s))"
      unfolding list_all_iff using step_speaks [OF Cons.prems(1), where l = l] dead(3) by blast
    with Cons.IH [OF dead] show ?case by (simp add: hx case_prod_beta)
  qed simp
  then show ?thesis by (simp add: l_def lease_of_def)
qed

definition suspended_run :: "(runtimeHost \<times> runtimeOp) list" where
  "suspended_run = map (Pair pool_host)
     [OInstall None sample_config sample_snapshot, OSuspend sample_authority]"

lemma superseded_authority_is_silent_witness:
  "list_all (\<lambda>e. speaks_for e \<noteq> lease_of (Some sample_authority))
     (snd (runtime_run (map (Pair pool_host)
        [OResume sample_config sample_snapshot, ONotified 7 (sample_notice ''s'')])
        (fst (runtime_run suspended_run (new_runtime True)))))"
proof (rule superseded_authority_is_silent [OF refl])
  show "aa_generation sample_authority
          \<le> sr_generation (fst (runtime_run suspended_run (new_runtime True)))"
    by code_simp
  show "\<not> rt_isCurrent (fst (runtime_run suspended_run (new_runtime True))) sample_authority"
    by code_simp
qed

text \<open>
  C7: A managed runtime leaves the socket to its pool. Whatever it is asked to do and whatever the
  server answers, it neither connects nor disconnects a client and never schedules a reconnect, as
  long as candidates are adopted with the previous transport preserved.
\<close>
theorem managed_runtime_never_touches_the_socket:
  assumes "list_all (\<lambda>hx. case snd hx of OAdopt e c k preserve \<Rightarrow> preserve | _ \<Rightarrow> True) xs"
  shows "list_all (\<lambda>e. case e of ConnectClient c \<Rightarrow> False | DisconnectClient c \<Rightarrow> False
           | Scheduled d \<Rightarrow> False | _ \<Rightarrow> True) (snd (runtime_run xs (new_runtime True)))"
proof -
  have "list_all (\<lambda>e. case e of ConnectClient c \<Rightarrow> False | DisconnectClient c \<Rightarrow> False
           | Scheduled d \<Rightarrow> False | _ \<Rightarrow> True) (snd (runtime_run xs s))"
    if "runtime_ok s" "sr_managed s" for s
    using assms that
  proof (induction xs arbitrary: s)
    case (Cons hx xs)
    obtain h x where hx: "hx = (h, x)" by (rule prod.exhaust)
    let ?t = "fst (runtime_step h x s)"
    have "closes_nothing s x" using Cons.prems(1) by (cases x) (simp_all add: closes_nothing_def hx)
    with Cons.prems(2) have law: "lawful s (runtime_step h x s)"
      by (simp add: lawful_step runtime_ok_def)
    then have m: "sr_managed ?t" using Cons.prems(3) by (simp add: lawful_def advances_def)
    have "case e of ConnectClient c \<Rightarrow> False | DisconnectClient c \<Rightarrow> False
           | Scheduled d \<Rightarrow> False | _ \<Rightarrow> True" if "proper ?t e" for e
      using that m by (cases e) simp_all
    with law have "list_all (\<lambda>e. case e of ConnectClient c \<Rightarrow> False | DisconnectClient c \<Rightarrow> False
           | Scheduled d \<Rightarrow> False | _ \<Rightarrow> True) (snd (runtime_step h x s))"
      by (simp add: lawful_def list_all_iff)
    with Cons.IH [of ?t] Cons.prems m runtime_ok_step [OF Cons.prems(2)]
    show ?case by (simp add: hx case_prod_beta)
  qed simp
  then show ?thesis by (simp add: new_runtime_def Let_def runtime_ok_def calls_prepared_def lease_of_def)
qed

lemma managed_runtime_never_touches_the_socket_witness:
  "DisconnectClient 7 \<notin> set (snd (runtime_run suspended_run (new_runtime True)))"
  using managed_runtime_never_touches_the_socket [of suspended_run]
  by (auto simp: suspended_run_def list_all_iff)

end
