(* ===== verification/RuntimeState.thy ===== *)
theory RuntimeState
  imports RuntimeLaws
begin

text \<open>
  What the session runtime is when it says it is ready, how much it buffers, and what a rejected
  candidate or a late answer leaves behind. The last section follows one run in which a record
  becomes ready and hears nothing any more.
\<close>

section \<open>Late answers and rejected candidates\<close>

text \<open>
  C5: A late answer changes nothing. When the call that is answered was made for an authority that
  is no longer current (a hydrate that was under way when the record was suspended, an open on a
  replaced client), the answer only settles the caller's promise: no field of the runtime changes,
  nothing is published, emitted or requested.
\<close>
theorem late_answer_changes_nothing:
  assumes "map_get (sr_calls s) k = Some call" and "\<not> rt_isCurrent s (call_authority call)"
  shows "fst (on_answer h k answer s) = s\<lparr>sr_calls := map_del k (sr_calls s)\<rparr>
     \<and> (\<forall>e \<in> set (snd (on_answer h k answer s)). e = Returned None \<or> (\<exists>f. e = Thrown f))"
proof -
  let ?t = "s\<lparr>sr_calls := map_del k (sr_calls s)\<rparr>"
  have "\<not> rt_isCurrent ?t (call_authority call)" using assms(2) by (simp add: rt_isCurrent_def)
  then have "fst (answer_call h call answer ?t) = ?t
     \<and> (\<forall>e \<in> set (snd (answer_call h call answer ?t)). e = Returned None \<or> (\<exists>f. e = Thrown f))"
    by (cases "(h, call, answer, ?t)" rule: answer_call.cases)
       (auto simp: auth_failed_def reconnect_failed_def hydrate_answered_def hydrate_prepared_def
          operation_current_def caller_returns_def rehydrate_failed_def)
  with assms(1) show ?thesis by (simp add: on_answer_def)
qed

definition suspended_record :: sessionRuntime where
  "suspended_record = fst (runtime_run (map (Pair pool_host)
     [OInstall None sample_config sample_snapshot, ONotified 7 lossy_notice, OSuspend sample_authority])
     (new_runtime True))"

lemma late_answer_changes_nothing_witness:
  "sr_phase (fst (on_answer pool_host 0 (Hydrated sample_hydrate) suspended_record)) = RDisconnected"
proof -
  have "map_get (sr_calls suspended_record) 0 =
          Some (HydrateCall sample_authority ByRecovery 2 FromNotification)"
    and "\<not> rt_isCurrent suspended_record
           (call_authority (HydrateCall sample_authority ByRecovery 2 FromNotification))"
    and "sr_phase suspended_record = RDisconnected"
    by code_simp+
  with late_answer_changes_nothing [of suspended_record 0 _ pool_host "Hydrated sample_hydrate"]
  show ?thesis by simp
qed

text \<open>
  C4: A candidate is adopted whole or not at all. Installing a prepared Session either throws and
  leaves everything as it was but the counter of generations and a pending reconnect timer, or ends
  with a new authority for the candidate's client and Session, after the candidate's hydrate result
  was emitted for it. There is nothing in between, even when committing could throw.
\<close>
theorem candidate_adopted_whole_or_not_at_all:
  fixes h e c k s
  defines "r \<equiv> installPreparedSession h e c k s"
  shows "untouched s (fst r)
       \<and> (\<exists>f out. snd r = out @ [Thrown f] \<and> list_all (\<lambda>x. x = Cancelled) out)
     \<or> (\<exists>a ids. aa_generation a = Suc (sr_generation s) \<and> rt_isCurrent (fst r) a
          \<and> aa_client a = cn_client k \<and> aa_sessionId a = so_session_id (cn_opened k)
          \<and> Emitted (EvHydrate ByCandidate a (cn_hydrated k) ids) \<in> set (snd r))"
    (is "?refused r \<or> ?adopted r")
proof -
  have projected: "?adopted (u, out1 @ out2 @ out3)"
    if "committed k s t a" "emitCandidateProjection h a k cl t = (u, out2)" for t u a cl out1 out2 out3
  proof -
    have "frame t u" using committed_projection [OF that(1), of h cl] that(2) by (simp add: tame_def)
    then have "rt_isCurrent u a"
      using that(1) by (simp add: frame_def committed_def rt_isCurrent_def)
    moreover have "Emitted (EvHydrate ByCandidate a (cn_hydrated k)
        (hydrateAssistantIdentities a (cn_hydrated k) (cn_notifications k))) \<in> set out2"
      using that(2) by (auto simp: emitCandidateProjection_def Let_def in_order.simps emit_def
          effect_def rt_publish_def case_prod_beta)
    ultimately show ?thesis using that(1) by (auto simp: committed_def)
  qed
  have thrown: "?refused (t, out @ [Thrown f])" if "untouched s t" "list_all ((=) Cancelled) out" for t out f
  proof -
    have "list_all (\<lambda>x. x = Cancelled) out" using that(2) by (auto simp: list_all_iff)
    with that(1) show ?thesis by auto
  qed
  have none: "?refused (s, [Thrown f])" for f using thrown [of s "[]" f] by simp
  show ?thesis
  proof (cases h c k s rule: commitCandidate_cases)
    case (refused t out f)
    with thrown [OF refused(2,3), of f] none show ?thesis
      by (simp add: r_def installPreparedSession_def adoptFirst_def adoptCandidate_def split: option.split)
  next
    case (adopted t out a)
    obtain u out2 where first: "emitCandidateProjection h a k OnResume t = (u, out2)" by (rule prod.exhaust)
    obtain v out3 where sel: "emitCandidateProjection h a k OnSelect t = (v, out3)" by (rule prod.exhaust)
    from projected [OF adopted(2) first, of out "[Returned (Some a)]"]
      projected [OF adopted(2) sel, of out "[Returned (Some a)]"] adopted(1,5) first sel none
    show ?thesis
      by (auto simp: r_def installPreparedSession_def adoptFirst_def adoptCandidate_def
          split: option.split)
  qed
qed

section \<open>Ready, and how much is buffered\<close>

definition sound :: "sessionRuntime \<Rightarrow> bool" where
  "sound s \<longleftrightarrow>
     length (sr_recoveryBuffer s) \<le> RECOVERY_LIMIT \<and> length (sr_diagnostics s) \<le> 20
     \<and> (sr_phase s = RReady \<longrightarrow>
          sr_authority s \<noteq> None \<and> \<not> sr_recovering s \<and> d_phase (sr_projection s) = Healthy)"

lemmas runtime_parts = in_order.simps emit_def effect_def assign_def nothing_def rt_publish_def
  await_def logDiagnostic_def invalidate_operation_def set_target_def Let_def

lemma cancel_parts: "cancelReconnect s = (s\<lparr>sr_timer := None\<rparr>, snd (cancelReconnect s))"
  using cancelReconnect_state [of s] by (metis prod.collapse)

lemma sound_schedule: "sound s \<Longrightarrow> sound (fst (scheduleReconnect h s))"
  by (auto simp: scheduleReconnect_def runtime_parts sound_def split: option.split)

lemma sound_release: "sound s \<Longrightarrow> sound (fst (release_transport h c b s))"
  using sound_schedule [of s h]
  by (auto simp: release_transport_def runtime_parts case_prod_beta) (simp add: sound_def)

lemma sound_fail: "sound s \<Longrightarrow> sound (fst (failCurrent h e b s))"
  by (auto simp: failCurrent_def in_order.simps rt_publish_def Let_def case_prod_beta
      intro!: sound_release split: option.split)
     (auto simp: sound_def logDiagnostic_def invalidate_operation_def Let_def)

lemma sound_overflow: "sound s \<Longrightarrow> sound (fst (overflowRecovery h a s))"
  by (auto simp: overflowRecovery_def in_order.simps rt_publish_def case_prod_beta intro!: sound_release)
     (auto simp: sound_def invalidate_operation_def)

lemma sound_finish:
  assumes "sound s" and "\<not> sr_recovering s \<Longrightarrow> d_phase (sr_projection s) = Healthy"
  shows "sound (fst (finishRecovery h r a s))"
proof (cases "\<not> rt_isCurrent s a \<or> sr_recovering s \<or> rh_status h (aa_client a) \<noteq> StConnected")
  case True
  with assms(1) sound_fail [of s] show ?thesis by (auto simp: finishRecovery_def)
next
  case False
  with assms show ?thesis
    by (auto simp: finishRecovery_def runtime_parts sound_def rt_isCurrent_def split: option.splits)
qed

lemma sound_hydrate_begin: "sound s \<Longrightarrow> sound (fst (hydrate_begin a r k s))"
  by (simp add: hydrate_begin_def runtime_parts sound_def)

lemma sound_enqueue: "sound s \<Longrightarrow> sound (fst (enqueueRecovery h a e s))"
  using sound_overflow [of s h a]
  by (auto simp: enqueueRecovery_def case_prod_beta) (auto simp: sound_def)

text \<open>A gap takes the runtime out of its ready phase, so the projection may be in any phase.\<close>

lemma sound_recover:
  assumes "sound (s\<lparr>sr_projection := p\<rparr>)"
  shows "sound (fst (recover_from h a e reason s))"
proof (cases "bn_retried e")
  case True
  have "sound (fst (failCurrent h f b s))" for f b
  proof (cases "sr_authority s")
    case None
    with assms show ?thesis by (auto simp: failCurrent_def sound_def)
  next
    case (Some c)
    with assms show ?thesis
      by (auto simp: failCurrent_def in_order.simps rt_publish_def Let_def case_prod_beta
          intro!: sound_release) (auto simp: sound_def logDiagnostic_def invalidate_operation_def Let_def)
  qed
  with True show ?thesis by (simp add: recover_from_def case_prod_beta Let_def)
next
  case False
  with assms show ?thesis
    by (auto simp: recover_from_def case_prod_beta Let_def)
       (auto simp: in_order.simps rt_publish_def hydrate_begin_def await_def sound_def Let_def
        RECOVERY_LIMIT_def)
qed

lemma observe_healthy:
  "observe fb n d = (d', decision) \<Longrightarrow> \<forall>r. decision \<noteq> Recover r \<Longrightarrow> d_phase d = Healthy \<Longrightarrow>
     d_phase d' = Healthy"
  by (auto simp: observe_def observe_lossy_def observe_envelope_def apply_envelope_def recover_def Let_def
      split: if_splits option.splits)

lemma sound_accept:
  assumes "sound s"
  shows "sound (fst (acceptNotification h a e raw fb s))"
proof -
  obtain d dec where o: "observe fb (bn_notification e) (sr_projection s) = (d, dec)"
    by (rule prod.exhaust)
  define t where "t = fst (rt_publish (s\<lparr>sr_projection := d\<rparr>))"
  have "sound (t\<lparr>sr_projection := sr_projection s\<rparr>)"
    using assms by (simp add: sound_def t_def rt_publish_def)
  note recovered = sound_recover [OF this]
  have applied: "sound t" if "\<forall>r. dec \<noteq> Recover r"
    using assms observe_healthy [OF o that] by (auto simp: sound_def t_def rt_publish_def)
  show ?thesis
    using assms recovered applied sound_enqueue [OF assms, of h a e]
    by (simp add: acceptNotification_def Let_def o case_prod_beta t_def split: projectionDecision.split)
qed

lemma settled_accept:
  assumes "acceptNotification h a e raw fb s = (t, out, Settled)" and "\<not> sr_recovering s"
    and "d_phase (sr_projection s) = Healthy"
  shows "\<not> sr_recovering t \<and> d_phase (sr_projection t) = Healthy"
proof -
  obtain d dec where o: "observe fb (bn_notification e) (sr_projection s) = (d, dec)"
    by (rule prod.exhaust)
  from assms observe_healthy [OF o] show ?thesis
    by (auto simp: acceptNotification_def Let_def o case_prod_beta rt_publish_def recover_from_def
        split: projectionDecision.splits if_splits)
qed

lemma sound_enqueue_all: "sound s \<Longrightarrow> sound (fst (enqueue_all h a es s))"
proof (induction es arbitrary: s)
  case (Cons e es)
  from sound_enqueue [OF Cons.prems] Cons.IH show ?case by (auto simp: case_prod_beta Let_def)
qed simp

lemma sound_drain: "sound s \<Longrightarrow> sound (fst (drainNotifications h a es s))"
proof (induction es arbitrary: s)
  case (Cons e es)
  note one = sound_accept [OF Cons.prems, of h a e False True]
  from one Cons.IH [OF one] sound_enqueue_all [OF one, of h a es] show ?case
    by (auto simp: case_prod_beta Let_def split: disposition.split)
qed simp

lemma settled_drain:
  assumes "drainNotifications h a es s = (t, out, Settled)" and "\<not> sr_recovering s"
    and "d_phase (sr_projection s) = Healthy"
  shows "\<not> sr_recovering t \<and> d_phase (sr_projection t) = Healthy"
  using assms
proof (induction es arbitrary: s out)
  case (Cons e es)
  obtain s1 o1 d where e: "acceptNotification h a e False True s = (s1, o1, d)" by (rule prod_cases3)
  have no: "snd (snd (enqueue_all h a es u)) \<noteq> Settled" for u
    by (induction es arbitrary: u) (auto simp: case_prod_beta Let_def)
  obtain s2 o2 d2 where rest: "drainNotifications h a es s1 = (s2, o2, d2)" by (rule prod_cases3)
  have "d = Settled" "s2 = t" "d2 = Settled"
    using Cons.prems(1) no [of s1] e rest by (auto simp: case_prod_beta Let_def split: disposition.splits)
  with settled_accept [OF _ Cons.prems(2,3), of h a e False True s1 o1] Cons.IH [of s1 o2] e rest
  show ?case by simp
qed simp

lemma sound_rehydrate_failed: "sound s \<Longrightarrow> sound (fst (rehydrate_failed a e s))"
  by (auto simp: rehydrate_failed_def runtime_parts) (auto simp: sound_def)

lemma sound_caller_returns: "sound s \<Longrightarrow> sound (fst (caller_returns h a c s))"
  by (simp add: caller_returns_def sound_rehydrate_failed)

lemma sound_caller_throws: "sound s \<Longrightarrow> sound (fst (caller_throws h a c e s))"
  by (simp add: caller_throws_def sound_rehydrate_failed sound_fail)

lemma sound_drain_buffer:
  assumes "sound s" and "\<not> sr_recovering s" and "d_phase (sr_projection s) = Healthy"
  shows "sound (fst (drain_buffer h a r k hydrated s))"
proof -
  let ?s = "s\<lparr>sr_recoveryBuffer := []\<rparr>"
  obtain t out d where dr: "drainNotifications h a (map (mark_receipt a hydrated) (sr_recoveryBuffer s)) ?s
      = (t, out, d)" by (rule prod_cases3)
  have "sound ?s" using assms(1) by (simp add: sound_def)
  from sound_drain [OF this, of h a "map (mark_receipt a hydrated) (sr_recoveryBuffer s)"]
  have t: "sound t" by (simp add: dr)
  have "sound (fst (finishRecovery h r a t))" if "d = Settled"
    using settled_drain [of h a _ ?s t out] dr that assms(2,3) by (intro sound_finish t) auto
  with t show ?thesis by (simp add: drain_buffer_def dr case_prod_beta)
qed

lemma sound_hydrate_commit:
  assumes "sound s"
  shows "sound (fst (hydrate_commit h a r k c hydrated s))"
proof (cases "commitHydrate hydrated (sr_projection s)")
  case (Inl m)
  with assms show ?thesis by (simp add: hydrate_commit_def sound_caller_throws)
next
  case (Inr p)
  define t where "t = fst (rt_publish (logDiagnostic h DHydrated None
      (s\<lparr>sr_projection := p, sr_recovering := False, sr_error := None\<rparr>)))"
  have p: "d_phase p = Healthy" using Inr by (auto simp: commitHydrate_def split: if_splits)
  have "sound t" "\<not> sr_recovering t" "d_phase (sr_projection t) = Healthy"
    using assms p by (auto simp: t_def rt_publish_def logDiagnostic_def sound_def Let_def)
  from sound_drain_buffer [OF this, of h a r k hydrated] sound_caller_throws [OF assms] Inr
  show ?thesis
    by (auto simp: hydrate_commit_def in_order.simps emit_def effect_def case_prod_beta t_def Let_def
        intro!: sound_caller_returns)
qed

lemma sound_hydrate_answered: "sound s \<Longrightarrow> sound (fst (hydrate_answered h a r k c ans s))"
  by (auto simp: hydrate_answered_def await_def intro!: sound_caller_returns sound_caller_throws
      sound_hydrate_commit split: sum.split) (simp add: sound_def)

lemma sound_hydrate_prepared: "sound s \<Longrightarrow> sound (fst (hydrate_prepared h a r k c hydrated ans s))"
  by (auto simp: hydrate_prepared_def intro!: sound_caller_returns sound_caller_throws
      sound_hydrate_commit split: option.split)

lemma sound_rehydrate: "sound s \<Longrightarrow> sound (fst (rehydrateSession h a s))"
  by (simp add: rehydrateSession_def sound_caller_returns sound_hydrate_begin)

text \<open>
  The notifications of a candidate fit into the recovery buffer, so draining them ends settled or
  recovering and never by an overflow, whose failure a ready phase would hide.
\<close>

lemma enqueue_room:
  assumes "rt_isCurrent s a" and "sr_recovering s" and "length (sr_recoveryBuffer s) < RECOVERY_LIMIT"
  shows "enqueueRecovery h a e s = (s\<lparr>sr_recoveryBuffer := sr_recoveryBuffer s @ [e]\<rparr>, [], True)"
  using assms by (simp add: enqueueRecovery_def)

lemma enqueue_all_room:
  assumes "rt_isCurrent s a" and "sr_recovering s"
    and "length (sr_recoveryBuffer s) + length es \<le> RECOVERY_LIMIT"
  shows "sr_recovering (fst (enqueue_all h a es s)) \<and> snd (snd (enqueue_all h a es s)) = Recovering"
  using assms
proof (induction es arbitrary: s)
  case (Cons e es)
  let ?t = "s\<lparr>sr_recoveryBuffer := sr_recoveryBuffer s @ [e]\<rparr>"
  have "rt_isCurrent ?t a" using Cons.prems(1) by (simp add: rt_isCurrent_def)
  with Cons.IH [of ?t] Cons.prems enqueue_room [of s a h e] show ?case
    by (simp add: case_prod_beta)
qed simp

lemma accept_first:
  assumes "rt_isCurrent s a" and "\<not> sr_recovering s" and "\<not> bn_retried e"
    and "acceptNotification h a e False True s = (t, out, d)"
  shows "d = Settled \<or> d = Recovering \<and> sr_recovering t \<and> length (sr_recoveryBuffer t) \<le> 1"
  using assms
  by (auto simp: acceptNotification_def Let_def case_prod_beta recover_from_def in_order.simps
      rt_publish_def hydrate_begin_def await_def split: projectionDecision.splits if_splits)

lemma drain_candidate_recovers:
  assumes "rt_isCurrent s a" and "\<not> sr_recovering s" and "list_all (\<lambda>e. \<not> bn_retried e) es"
    and "length es \<le> RECOVERY_LIMIT" and "drainNotifications h a es s = (t, out, d)"
    and "d_phase (sr_projection s) = Healthy"
  shows "sr_recovering t \<or> d_phase (sr_projection t) = Healthy"
  using assms
proof (induction es arbitrary: s out)
  case (Cons e es)
  obtain s1 o1 d1 where e: "acceptNotification h a e False True s = (s1, o1, d1)" by (rule prod_cases3)
  have current: "rt_isCurrent s1 a"
    using tame3_frame [OF tame_accept [of s h a e False True, unfolded e]] Cons.prems(1)
    by (simp add: isCurrent_frame)
  from accept_first [OF Cons.prems(1,2) _ e] Cons.prems(3)
  consider "d1 = Settled" | "d1 = Recovering" "sr_recovering s1" "length (sr_recoveryBuffer s1) \<le> 1"
    by auto
  then show ?case
  proof cases
    case 1
    obtain s2 o2 d2 where rest: "drainNotifications h a es s1 = (s2, o2, d2)" by (rule prod_cases3)
    have "s2 = t" "d2 = d" using Cons.prems(5) 1 e rest by simp_all
    moreover have "\<not> sr_recovering s1 \<and> d_phase (sr_projection s1) = Healthy"
      using settled_accept [of h a e False True s s1 o1] e 1 Cons.prems(2,6) by simp
    ultimately show ?thesis
      using Cons.IH [of s1 o2, OF current] Cons.prems(3,4) rest by simp
  next
    case 2
    then have "sr_recovering (fst (enqueue_all h a es s1))"
      using enqueue_all_room [OF current, of es h] Cons.prems(4) by simp
    with Cons.prems(5) 2 e show ?thesis by (auto simp: case_prod_beta Let_def)
  qed
qed simp

lemma sound_candidate_projection:
  assumes "committed k s t a" and "sound s"
    and "length (sr_diagnostics t) \<le> 20"
  shows "sound (fst (emitCandidateProjection h a k cl t))"
proof -
  let ?es = "map (candidate_entry a (cn_hydrated k)) (cn_notifications k)"
  define t1 where "t1 = fst (rt_publish t)"
  have t1: "sr_authority t1 = Some a" "rt_isCurrent t1 a" "\<not> sr_recovering t1" "sound t1"
      "d_phase (sr_projection t1) = Healthy"
    using assms by (auto simp: t1_def rt_publish_def committed_def rt_isCurrent_def sound_def)
  have es: "list_all (\<lambda>e. \<not> bn_retried e) ?es" "length ?es \<le> RECOVERY_LIMIT"
    using assms(1) by (auto simp: list_all_iff candidate_entry_def mark_receipt_def committed_def)
  obtain u out d where dr: "drainNotifications h a ?es t1 = (u, out, d)" by (rule prod_cases3)
  have "sound u" using sound_drain [OF t1(4), of h a ?es] dr by simp
  moreover have "sr_recovering u \<or> d_phase (sr_projection u) = Healthy"
    using drain_candidate_recovers [OF t1(2,3) es dr t1(5)] .
  ultimately have "sound (fst (finishRecovery h ByCandidate a u))" by (intro sound_finish) auto
  then show ?thesis
    using dr t1(1)
    by (simp add: emitCandidateProjection_def in_order.simps emit_def effect_def case_prod_beta Let_def
        drain_candidate_def t1_def [symmetric])
qed

lemma commit_diagnostics:
  "commitCandidate h c k s = (t, out, Inr a) \<Longrightarrow> sr_diagnostics t = sr_diagnostics s"
  using cancelReconnect_state [of s]
  by (auto simp: commitCandidate_def create_authority_def install_candidate_def set_target_def Let_def
      invalidate_operation_def case_prod_beta split: option.splits if_splits sum.splits)

lemma sound_untouched: "sound s \<Longrightarrow> untouched s t \<Longrightarrow> sound t"
  by (auto simp: untouched_def sound_def)

lemma sound_adopt: "sound s \<Longrightarrow> sound (fst (adoptCandidate h e c k p s))"
  and sound_adoptFirst: "sound s \<Longrightarrow> sound (fst (adoptFirst h c k s))"
proof -
  assume s: "sound s"
  have "sound (fst (adoptCandidate h e c k p s)) \<and> sound (fst (adoptFirst h c k s))"
  proof (cases h c k s rule: commitCandidate_cases)
    case (refused t out f)
    with s sound_untouched [OF s refused(2)] show ?thesis
      by (simp add: adoptCandidate_def adoptFirst_def)
  next
    case (adopted t out a)
    have "length (sr_diagnostics t) \<le> 20"
      using commit_diagnostics [OF adopted(1)] s by (simp add: sound_def)
    from sound_candidate_projection [OF adopted(2) s this] adopted(1) s show ?thesis
      by (simp add: adoptCandidate_def adoptFirst_def Let_def case_prod_beta)
  qed
  then show "sound (fst (adoptCandidate h e c k p s))" "sound (fst (adoptFirst h c k s))" by simp_all
qed

lemma sound_install: "sound s \<Longrightarrow> sound (fst (installPreparedSession h e c k s))"
  by (simp add: installPreparedSession_def sound_adopt sound_adoptFirst split: option.split)

lemma sound_resume: "sound s \<Longrightarrow> sound (fst (resumePreparedSession h c k s))"
  using sound_adoptFirst [of s h c k]
  by (auto simp: resumePreparedSession_def case_prod_beta Let_def) (simp add: sound_def)

lemma sound_suspend: "sound s \<Longrightarrow> sound (fst (rt_suspend a s))"
  by (auto simp: rt_suspend_def runtime_parts cancelReconnect_def split: option.split) (auto simp: sound_def)

lemma sound_restore: "sound s \<Longrightarrow> sound (fst (restoreSuspendedSession h e c s))"
  by (auto simp: restoreSuspendedSession_def runtime_parts create_authority_def split: option.split)
     (auto simp: sound_def)

lemma sound_disconnect: "sound s \<Longrightarrow> sound (fst (rt_disconnect s))"
  by (auto simp: rt_disconnect_def runtime_parts cancelReconnect_def split: option.split)
     (auto simp: sound_def)

lemma sound_authenticate: "sound s \<Longrightarrow> sound (fst (authenticate h c s))"
  by (auto simp: authenticate_def replaceTransport_def create_authority_def runtime_parts
      cancelReconnect_def case_prod_beta split: option.split) (auto simp: sound_def)

lemma sound_reconnect: "sound s \<Longrightarrow> sound (fst (reconnect h target s))"
  by (auto simp: reconnect_def replaceTransport_def create_authority_def runtime_parts case_prod_beta
      split: option.split) (auto simp: sound_def)

lemma sound_timer: "sound s \<Longrightarrow> sound (fst (on_timer h s))"
  by (auto simp: on_timer_def intro!: sound_reconnect split: option.split) (simp add: sound_def)

lemma sound_status: "sound s \<Longrightarrow> sound (fst (on_status h c st s))"
proof -
  assume s: "sound s"
  have "sound (fst (in_order [rt_publish, if b then scheduleReconnect h else nothing] t))"
    if "sound t" for t b
    using that sound_schedule [of "fst (rt_publish t)" h]
    by (auto simp: in_order.simps case_prod_beta nothing_def rt_publish_def) (auto simp: sound_def)
  note parts = this
  show ?thesis
  proof (cases "heard s c")
    case (Some a)
    define t where "t = (if st = StConnecting
        then s\<lparr>sr_status := st, sr_phase := (if sr_retryAttempt s > 0 then RReconnecting else RConnecting)\<rparr>
        else if st = StError then s\<lparr>sr_status := st, sr_phase := RError\<rparr> else s\<lparr>sr_status := st\<rparr>)"
    have "sound t" using s by (simp add: t_def sound_def)
    moreover have "on_status h c st s =
        in_order [rt_publish, if st = StDisconnected \<or> st = StError then scheduleReconnect h else nothing] t"
      by (simp add: on_status_def Some Let_def t_def)
    ultimately show ?thesis using parts by metis
  qed (simp add: on_status_def s)
qed

lemma sound_client_error: "sound s \<Longrightarrow> sound (fst (on_client_error c m s))"
  by (auto simp: on_client_error_def rt_publish_def split: option.split) (simp add: sound_def)

lemma sound_report: "sound s \<Longrightarrow> sound (fst (reportError m s))"
  by (simp add: reportError_def rt_publish_def sound_def)

lemma sound_notification: "sound s \<Longrightarrow> sound (fst (on_notification h c n s))"
  using sound_accept [of s h _ _ True False]
  by (simp add: on_notification_def case_prod_beta split: option.split)

lemma sound_authenticated:
  "sound s \<Longrightarrow> authenticated h again a caps s = Inr (t, out) \<Longrightarrow> sound t"
  by (auto simp: authenticated_def runtime_parts sound_def split: if_splits option.splits)

lemma sound_reopened: "sound s \<Longrightarrow> rt_isCurrent s a \<Longrightarrow> sound (fst (reopened h a target opened s))"
  by (auto simp: reopened_def reconnect_failed_def Let_def
      intro!: sound_fail sound_hydrate_begin split: option.split)
     (auto simp: sound_def set_target_def)

lemma sound_answer:
  assumes "sound s"
  shows "sound (fst (on_answer h k answer s))"
proof -
  have failed: "sound (fst (auth_failed h a e t))" "sound (fst (reconnect_failed h a e t))"
    if "sound t" for a e t
    using sound_fail [OF that]
    by (simp_all add: auth_failed_def reconnect_failed_def in_order.simps effect_def case_prod_beta that)
  have awaited: "sound (fst (await call t))" if "sound t" for call t
    using that by (simp add: await_def sound_def)
  have "sound (fst (answer_call h call answer t))" if "sound t" for call t
    using that
    by (cases "(h, call, answer, t)" rule: answer_call.cases)
       (auto intro: failed awaited sound_authenticated sound_reopened sound_hydrate_answered
          sound_hydrate_prepared split: sum.split)
  moreover have "sound (s\<lparr>sr_calls := m\<rparr>)" for m using assms by (simp add: sound_def)
  ultimately show ?thesis using assms by (simp add: on_answer_def split: option.split)
qed

lemma sound_step: "sound s \<Longrightarrow> sound (fst (runtime_step h x s))"
  by (cases x) (simp_all add: sound_authenticate sound_adopt sound_install sound_resume sound_restore
      sound_suspend sound_disconnect sound_rehydrate sound_report sound_status sound_client_error
      sound_notification sound_timer sound_answer)

text \<open>
  C3: Ready means ready. In every state a session runtime can reach, the phase \<open>ready\<close> goes with a
  current authority, no recovery under way and a healthy durable projection; the recovery buffer
  holds at most 4096 notifications and the diagnostics at most 20 entries.
\<close>
theorem ready_runtime_is_healthy:
  "sound (fst (runtime_run xs (new_runtime managed)))"
proof -
  have "sound (new_runtime managed)" by (simp add: sound_def new_runtime_def Let_def RECOVERY_LIMIT_def)
  then show ?thesis
    unfolding runtime_run_states
    by (induction xs rule: rev_induct) (simp_all add: run_step_def sound_step)
qed

section \<open>A ready record that hears nothing\<close>

text \<open>
  A gap in the projection makes the record hydrate; the hydrate fails, and \<open>failCurrent\<close> takes a
  managed runtime's listeners away while its authority stays current. A history mutation that holds
  its lease then refreshes the record with \<open>rehydrateSession\<close>, and the record becomes ready.
\<close>

definition failed_recovery :: "(runtimeHost \<times> runtimeOp) list" where
  "failed_recovery = map (Pair pool_host)
     [OInstall None sample_config sample_snapshot, ONotified 7 lossy_notice,
      OAnswer 0 (Failed (Failure ''hydrate failed''))]"

definition refresh :: "(runtimeHost \<times> runtimeOp) list" where
  "refresh = map (Pair pool_host) [ORehydrate sample_authority, OAnswer 1 (Hydrated sample_hydrate)]"

definition deaf_record :: sessionRuntime where
  "deaf_record = fst (runtime_run refresh (fst (runtime_run failed_recovery (new_runtime True))))"

lemma deaf_record_ready:
  "sr_phase deaf_record = RReady" "sr_status deaf_record = StConnected"
  "rt_isCurrent deaf_record sample_authority"
  by code_simp+

lemma unbound_run:
  assumes "runtime_ok s" and "holds_lease s l" and "sr_binding s = None"
    and "holds_lease (foldl run_step s xs) l"
  shows "sr_binding (foldl run_step s xs) = None"
  using assms
proof (induction xs arbitrary: s)
  case (Cons x xs)
  let ?t = "run_step s x"
  have ok: "runtime_ok ?t" using Cons.prems(1) by (simp add: run_step_def runtime_ok_step)
  have issued: "lease_issued s l" using session_runtime.owns_issued [OF Cons.prems(1,2)] .
  have t: "holds_lease ?t l"
    using session_runtime.stale_forever [OF ok session_runtime.issued_step [OF issued]] Cons.prems(4)
    by auto
  have "sr_binding ?t = None"
    using advances_step [of s "fst x" "snd x"] Cons.prems(3) t issued
    by (auto simp: run_step_def advances_def holds_lease_def lease_issued_def lease_of_def)
  from Cons.IH [OF ok t this] Cons.prems(4) show ?case by simp
qed simp

text \<open>
  C6: A listener that was lost is not regained under the same adoption. When a failure has taken the
  listeners of a record away while its authority stays current, then, whatever the record does for
  as long as that authority is current, a refresh that makes it ready again included, it has no
  listener: no notification, status change or error of any client is heard.
\<close>
theorem lost_listener_stays_lost:
  fixes history :: "(runtimeHost \<times> runtimeOp) list" and managed :: bool
  defines "s \<equiv> fst (runtime_run history (new_runtime managed))"
  assumes "sr_binding s = None" and "rt_isCurrent s a" and "rt_isCurrent (fst (runtime_run xs s)) a"
  shows "let t = fst (runtime_run xs s) in runtime_step h (ONotified client n) t = (t, [])
     \<and> runtime_step h (OStatus client status) t = (t, [])
     \<and> runtime_step h (OError client message) t = (t, [])"
proof -
  have "runtime_ok s"
    unfolding s_def runtime_run_states by (rule session_runtime.ok_run) simp
  moreover have "holds_lease s (aa_generation a, aa_client a)"
    "holds_lease (foldl run_step s xs) (aa_generation a, aa_client a)"
    using assms(3,4) by (simp_all add: holds_lease_def isCurrent_lease runtime_run_states)
  ultimately have "sr_binding (fst (runtime_run xs s)) = None"
    using unbound_run assms(2) by (simp add: runtime_run_states)
  then show ?thesis
    by (simp add: on_notification_def on_status_def on_client_error_def heard_def Let_def)
qed

lemma lost_listener_stays_lost_witness:
  "sr_phase deaf_record = RReady \<and> sr_status deaf_record = StConnected
     \<and> (\<forall>n. runtime_step pool_host (ONotified 7 n) deaf_record = (deaf_record, []))"
proof -
  have "rt_isCurrent (fst (runtime_run failed_recovery (new_runtime True))) sample_authority"
    "sr_binding (fst (runtime_run failed_recovery (new_runtime True))) = None" by code_simp+
  from lost_listener_stays_lost [OF this(2,1) deaf_record_ready(3) [unfolded deaf_record_def],
      folded deaf_record_def, of pool_host 7]
  show ?thesis using deaf_record_ready by (simp add: Let_def)
qed

end
