(* ===== verification/Utf8.thy ===== *)
theory Utf8
  imports JsPrelude
begin

text \<open>
  \<open>TextEncoder\<close> and the byte order of \<open>utf8ByteOrderLess\<close> (\<open>session/driver-discovery.ts\<close>). A string is
  here a list of UTF-16 code units, as numbers, surrogates included. The comparison of the encoded
  bytes is shown to be the comparison of the code points, a strict linear order, which the order of
  the code units is not.
\<close>

section \<open>Encoding\<close>

definition high_unit :: "nat \<Rightarrow> bool" where
  "high_unit u = (0xd800 \<le> u \<and> u < 0xdc00)"

definition low_unit :: "nat \<Rightarrow> bool" where
  "low_unit u = (0xdc00 \<le> u \<and> u < 0xe000)"

text \<open>The encoder takes scalar values: a surrogate without a partner becomes U+FFFD.\<close>

definition scalar_value :: "nat \<Rightarrow> nat" where
  "scalar_value u = (if high_unit u \<or> low_unit u then 0xfffd else u)"

fun code_points :: "nat list \<Rightarrow> nat list" where
  "code_points (u # v # us) =
     (if high_unit u \<and> low_unit v
      then (0x10000 + (u - 0xd800) * 0x400 + (v - 0xdc00)) # code_points us
      else scalar_value u # code_points (v # us))"
| "code_points us = map scalar_value us"

definition utf8_of :: "nat \<Rightarrow> nat list" where
  "utf8_of p =
     (if p < 0x80 then [p]
      else if p < 0x800 then [0xc0 + p div 64, 0x80 + p mod 64]
      else if p < 0x10000 then [0xe0 + p div 64 div 64, 0x80 + p div 64 mod 64, 0x80 + p mod 64]
      else [0xf0 + p div 64 div 64 div 64, 0x80 + p div 64 div 64 mod 64, 0x80 + p div 64 mod 64,
            0x80 + p mod 64])"

definition utf8_encode :: "nat list \<Rightarrow> nat list" where
  "utf8_encode us = concat (map utf8_of (code_points us))"

section \<open>Comparison\<close>

text \<open>The loop over the common length, and the comparison of the lengths after it.\<close>

fun bytes_less :: "nat list \<Rightarrow> nat list \<Rightarrow> bool" where
  "bytes_less (a # ea) (b # eb) = (if a < b then True else if a > b then False else bytes_less ea eb)"
| "bytes_less ea eb = (length ea < length eb)"

definition utf8ByteOrderLess :: "nat list \<Rightarrow> nat list \<Rightarrow> bool" where
  "utf8ByteOrderLess a b = bytes_less (utf8_encode a) (utf8_encode b)"

lemma bytes_less_lexordp: "bytes_less a b = ord_class.lexordp a b"
  by (induction a b rule: bytes_less.induct) auto

text \<open>Two different code points differ in a byte before either of them ends.\<close>

lemma lex_append_right: "a < b \<Longrightarrow> ord_class.lexordp (us @ (a :: nat) # vs) (us @ b # ws)"
  by (simp add: lexordp_append_left_rightI)

lemma digits_64: "x < y \<Longrightarrow> x div 64 < y div 64 \<or> x div 64 = y div 64 \<and> x mod 64 < y mod (64 :: nat)"
proof -
  assume "x < y"
  then have "x div 64 \<le> y div 64" by (simp add: div_le_mono)
  moreover have "x mod 64 < y mod 64" if "x div 64 = y div 64"
  proof -
    have "x = 64 * (x div 64) + x mod 64" "y = 64 * (y div 64) + y mod 64" by simp_all
    with \<open>x < y\<close> that show ?thesis by linarith
  qed
  ultimately show ?thesis by linarith
qed

lemma lexordp_Cons_nat: "ord_class.lexordp (a # as) (b # bs) \<longleftrightarrow> a < b \<or> (a :: nat) = b \<and> ord_class.lexordp as bs"
  by auto

lemma utf8_of_less:
  assumes "p < q" "q < 0x110000"
  shows "ord_class.lexordp (utf8_of p @ r) (utf8_of q @ s)"
proof -
  note d = digits_64 [OF \<open>p < q\<close>]
  have d2: "p div 64 < q div 64 \<Longrightarrow>
      p div 64 div 64 < q div 64 div 64 \<or>
      p div 64 div 64 = q div 64 div 64 \<and> p div 64 mod 64 < q div 64 mod 64"
    by (rule digits_64)
  have d3: "p div 64 div 64 < q div 64 div 64 \<Longrightarrow>
      p div 64 div 64 div 64 < q div 64 div 64 div 64 \<or>
      p div 64 div 64 div 64 = q div 64 div 64 div 64 \<and> p div 64 div 64 mod 64 < q div 64 div 64 mod 64"
    by (rule digits_64)
  have small: "p < 0x800 \<Longrightarrow> p div 64 < 32" "p < 0x10000 \<Longrightarrow> p div 64 div 64 < 16" by simp_all
  consider "q < 0x80" | "0x80 \<le> q" "p < 0x80" | "0x80 \<le> p" "q < 0x800"
    | "0x800 \<le> q" "0x80 \<le> p" "p < 0x800" | "0x800 \<le> p" "q < 0x10000"
    | "0x10000 \<le> q" "0x800 \<le> p" "p < 0x10000" | "0x10000 \<le> p"
    using assms by linarith
  then show ?thesis
  proof cases
    case 1
    with assms show ?thesis by (simp add: utf8_of_def)
  next
    case 2
    then show ?thesis by (simp add: utf8_of_def)
  next
    case 3
    with assms d show ?thesis by (auto simp: utf8_of_def)
  next
    case 4
    with small show ?thesis by (simp add: utf8_of_def)
  next
    case 5
    with assms d d2 show ?thesis by (auto simp: utf8_of_def)
  next
    case 6
    with small show ?thesis by (simp add: utf8_of_def)
  next
    case 7
    with assms d d2 d3 show ?thesis by (auto simp: utf8_of_def)
  qed
qed

lemma utf8_of_not_Nil [simp]: "utf8_of p \<noteq> []"
  by (simp add: utf8_of_def)

lemma concat_utf8_less:
  "\<lbrakk>\<forall>p \<in> set ps. p < 0x110000; \<forall>q \<in> set qs. q < 0x110000\<rbrakk> \<Longrightarrow>
     ord_class.lexordp (concat (map utf8_of ps)) (concat (map utf8_of qs)) = ord_class.lexordp ps qs"
proof (induction ps arbitrary: qs)
  case Nil
  then show ?case by (cases qs) simp_all
next
  case (Cons p ps)
  show ?case
  proof (cases qs)
    case Nil
    then show ?thesis by simp
  next
    case (Cons q qs')
    consider "p < q" | "p = q" | "q < p" by linarith
    then show ?thesis
    proof cases
      case 1
      with Cons.prems Cons show ?thesis by (simp add: utf8_of_less)
    next
      case 2
      have "ord_class.lexordp (us @ xs) (us @ ys) = ord_class.lexordp xs ys" for us xs ys :: "nat list"
        by (induction us) simp_all
      with Cons.IH [of qs'] Cons.prems Cons 2 show ?thesis by simp
    next
      case 3
      with Cons.prems Cons have "ord_class.lexordp (concat (map utf8_of qs)) (concat (map utf8_of (p # ps)))"
        by (simp add: utf8_of_less)
      with 3 Cons show ?thesis using lexordp_antisym by fastforce
    qed
  qed
qed

lemma code_points_bound: "\<forall>u \<in> set us. u < 0x10000 \<Longrightarrow> \<forall>p \<in> set (code_points us). p < 0x110000"
proof (induction us rule: code_points.induct)
  case (1 u v us)
  then show ?case by (auto simp: scalar_value_def high_unit_def low_unit_def split: if_splits)
qed (auto simp: scalar_value_def)

lemma byte_order_code_points:
  assumes "\<forall>u \<in> set a. u < 0x10000" "\<forall>u \<in> set b. u < 0x10000"
  shows "utf8ByteOrderLess a b \<longleftrightarrow> ord_class.lexordp (code_points a) (code_points b)"
  using code_points_bound [OF assms(1)] code_points_bound [OF assms(2)]
  by (simp add: utf8ByteOrderLess_def utf8_encode_def bytes_less_lexordp concat_utf8_less)

text \<open>
  on any two strings of UTF-16 code units the loop over the encoded bytes decides the
  lexicographic order of their code points, whatever surrogates they hold.
\<close>
theorem utf8_order_is_code_point_order:
  assumes "\<forall>u \<in> set a. u < 0x10000" "\<forall>u \<in> set b. u < 0x10000"
  shows "utf8ByteOrderLess a b \<longleftrightarrow> ord_class.lexordp (code_points a) (code_points b)"
  using assms by (rule byte_order_code_points)

text \<open>U+10000 comes after U+E000, though its first code unit is smaller.\<close>

theorem utf8_order_is_code_point_order_witness:
  "utf8ByteOrderLess [0xe000] [0xd800, 0xdc00] \<and> ord_class.lexordp [0xd800, 0xdc00] [0xe000 :: nat]"
  using utf8_order_is_code_point_order [of "[0xe000]" "[0xd800, 0xdc00]"]
  by (simp add: scalar_value_def high_unit_def low_unit_def)

section \<open>Strings of code units below 256\<close>

definition units :: "string \<Rightarrow> nat list" where
  "units s = map code_unit s"

definition utf8Bytes :: "string \<Rightarrow> nat" where
  "utf8Bytes s = length (utf8_encode (units s))"

abbreviation byte_less :: "string \<Rightarrow> string \<Rightarrow> bool" where
  "byte_less a b \<equiv> utf8ByteOrderLess (units a) (units b)"

lemma code_unit_bound: "code_unit c < 256"
  by (simp add: code_unit_def)

lemma code_points_units: "code_points (units s) = units s"
proof (induction s rule: induct_list012)
  case (3 c d s)
  then show ?case
    using code_unit_bound [of c] code_unit_bound [of d]
    by (auto simp: units_def scalar_value_def high_unit_def low_unit_def)
next
  case (2 c)
  then show ?case
    using code_unit_bound [of c] by (simp add: units_def scalar_value_def high_unit_def low_unit_def)
qed (simp add: units_def)

lemma code_unit_inject [simp]: "code_unit c = code_unit d \<longleftrightarrow> c = d"
  by (simp add: code_unit_def)

lemma units_inject [simp]: "units s = units t \<longleftrightarrow> s = t"
proof -
  have "inj code_unit" by (rule injI) simp
  then show ?thesis by (simp add: units_def inj_map_eq_map)
qed

lemma byte_less_lexordp: "byte_less a b \<longleftrightarrow> ord_class.lexordp (units a) (units b)"
proof -
  have "\<forall>u \<in> set (units s). u < 0x10000" for s
    using code_unit_bound by (auto simp: units_def intro: less_trans [OF code_unit_bound])
  from byte_order_code_points [OF this this] show ?thesis by (simp add: code_points_units)
qed

lemma byte_less_irrefl [simp]: "\<not> byte_less a a"
  by (simp add: byte_less_lexordp lexordp_irreflexive')

lemma byte_less_trans: "byte_less a b \<Longrightarrow> byte_less b c \<Longrightarrow> byte_less a c"
  unfolding byte_less_lexordp by (rule lexordp_trans)

lemma byte_less_linear: "byte_less a b \<or> a = b \<or> byte_less b a"
  using lexordp_linear [of "units a" "units b"] by (simp add: byte_less_lexordp)

lemma utf8Bytes_units [code]: "utf8Bytes s = length (concat (map utf8_of (units s)))"
  by (simp add: utf8Bytes_def utf8_encode_def code_points_units)

lemma utf8Bytes_bound: "length s \<le> utf8Bytes s \<and> utf8Bytes s \<le> 2 * length s"
proof -
  have "length us \<le> length (concat (map utf8_of us)) \<and> length (concat (map utf8_of us)) \<le> 2 * length us"
    if "\<forall>u \<in> set us. u < 256" for us
    using that by (induction us) (auto simp: utf8_of_def)
  from this [of "units s"] show ?thesis
    using code_unit_bound by (auto simp: utf8Bytes_def utf8_encode_def code_points_units) (auto simp: units_def)
qed

end
