(* ===== verification/DriverScope.thy ===== *)
theory DriverScope
  imports Wire Utf8
begin

text \<open>
  The captured scope of the external-driver surface (\<open>packages/client/src/external-driver.ts\<close>,
  \<open>external-driver-meta.ts\<close>): which Session ids and profiles a driver handle may be built for, the
  wire base of a master Session, and which worker Session belongs to which master. The theorems show
  that a worker Session names one master base and one slug, so that no receipt for a foreign master
  passes.
\<close>

named_theorems driver_defs \<open>unfolding equations of the driver validators\<close>

section \<open>Errors and methods (\<open>external-driver-meta.ts\<close>)\<close>

definition EXTERNAL_DRIVER_V1_FEATURE :: string where
  "EXTERNAL_DRIVER_V1_FEATURE = ''external_driver_v1''"

definition SESSION_DRIVER_GET :: string where "SESSION_DRIVER_GET = ''session/driver/get''"
definition SESSION_DRIVER_ACQUIRE :: string where "SESSION_DRIVER_ACQUIRE = ''session/driver/acquire''"
definition SESSION_DRIVER_RENEW :: string where "SESSION_DRIVER_RENEW = ''session/driver/renew''"
definition SESSION_DRIVER_RELEASE :: string where "SESSION_DRIVER_RELEASE = ''session/driver/release''"
definition PEER_DISPATCH :: string where "PEER_DISPATCH = ''peer/dispatch''"
definition PEER_CONTROL :: string where "PEER_CONTROL = ''peer/control''"
definition SESSION_WAKE_CLAIM :: string where "SESSION_WAKE_CLAIM = ''session/wake/claim''"
definition SESSION_WAKE_ACK :: string where "SESSION_WAKE_ACK = ''session/wake/ack''"

text \<open>
  The error classes. The first three are \<open>instanceof ExternalDriverProtocolError\<close>; the constructor
  arguments are the method and the reason or refusal kind the message is built from.
\<close>

datatype driverError =
    DriverProtocolError string string
  | DriverRefusalError string string
  | DriverCapabilityError string
  | DriverOperationsError string

definition EXTERNAL_DRIVER_REFUSAL_KINDS :: "string list" where
  "EXTERNAL_DRIVER_REFUSAL_KINDS =
     [''driver_operations_cursor_reset'', ''driver_operations_view_too_large'', ''driver_scope_mismatch'',
      ''driver_fence_stale'', ''driver_revision_conflict'', ''driver_busy_handover'',
      ''driver_operation_conflict'', ''interaction_recovery_required'', ''driver_model_unavailable'',
      ''peer_control_refused'']"

section \<open>Shapes of ids\<close>

definition INVALID_SCOPE :: string where
  "INVALID_SCOPE = ''invalid captured driver scope''"

definition PEER_SLUG_MAX_BYTES :: nat where
  "PEER_SLUG_MAX_BYTES = 64"

definition hash_sign :: char where "hash_sign = CHR ''#''"
definition colon :: char where "colon = CHR '':''"

definition isValidProfileId :: "unknown \<Rightarrow> bool" where
  "isValidProfileId value =
     (case as_string value of
        None \<Rightarrow> False
      | Some s \<Rightarrow> trim s \<noteq> [] \<and> \<not> list_ex (\<lambda>c. c = colon \<or> c = hash_sign \<or> js_space c) s)"

definition hasControlCode :: "string \<Rightarrow> bool" where
  "hasControlCode s = list_ex (\<lambda>c. code_unit c < 0x20 \<or> code_unit c = 0x7f) s"

definition isRawOpaqueId :: "string \<Rightarrow> bool" where
  "isRawOpaqueId s \<longleftrightarrow>
     s \<noteq> [] \<and> \<not> list_ex (\<lambda>c. js_space c \<or> c = hash_sign) s \<and> \<not> hasControlCode s"

definition isOrdinaryTopic :: "string \<Rightarrow> bool" where
  "isOrdinaryTopic s \<longleftrightarrow>
     s \<noteq> [] \<and> \<not> list_ex (\<lambda>c. js_space c \<or> c = hash_sign) s \<and> \<not> hasControlCode s"

definition slug_is_safe :: "string \<Rightarrow> bool" where
  "slug_is_safe s =
     (if s = [] then False
      else if s = ''.'' \<or> s = ''..'' then False
      else if last s = CHR ''.'' \<or> last s = CHR '' '' then False
      else if list_ex (\<lambda>c. code_unit c = 0x2f \<or> code_unit c = 0x5c \<or> code_unit c = 0x3a \<or> code_unit c = 0x23
                          \<or> code_unit c < 0x20 \<or> code_unit c = 0x7f) s then False
      else utf8Bytes s \<le> PEER_SLUG_MAX_BYTES)"

definition peerSlugIsSafe :: "unknown \<Rightarrow> bool" where
  "peerSlugIsSafe value = (case as_string value of None \<Rightarrow> False | Some s \<Rightarrow> slug_is_safe s)"

definition isValidPeerTopic :: "unknown \<Rightarrow> bool" where
  "isValidPeerTopic value =
     (case as_string value of
        None \<Rightarrow> False
      | Some s \<Rightarrow> starts_with s ''peer-'' \<and> slug_is_safe (drop 5 s))"

section \<open>The captured base\<close>

definition RESERVED_CHANNEL_NAMES :: "string list" where
  "RESERVED_CHANNEL_NAMES =
     [''acp'', ''api'', ''cli'', ''dingtalk'', ''discord'', ''email'', ''feishu'', ''line'', ''local'', ''matrix'',
      ''qq-bot'', ''slack'', ''system'', ''telegram'', ''test'', ''twilio'', ''wechat'', ''wecom'', ''wecom-bot'',
      ''whatsapp'']"

text \<open>\<open>profile:channel:chat\<close> names its profile; \<open>channel:chat\<close> and an id without a colon do not.\<close>

definition capturedProfileSegment :: "string \<Rightarrow> string option" where
  "capturedProfileSegment base =
     (case index_of colon base of
        None \<Rightarrow> None
      | Some firstColon \<Rightarrow>
          (case index_of colon (drop (firstColon + 1) base) of
             None \<Rightarrow> None
           | Some len \<Rightarrow>
               (let first = take firstColon base;
                    second = take len (drop (firstColon + 1) base)
                in if first \<notin> set RESERVED_CHANNEL_NAMES \<and> second \<in> set RESERVED_CHANNEL_NAMES
                   then Some first else None)))"

text \<open>The validators return the error they throw.\<close>

definition validateCapturedBase :: "string \<Rightarrow> string \<Rightarrow> string \<Rightarrow> driverError option" where
  "validateCapturedBase base profileId reason =
     (if \<not> isRawOpaqueId base then Some (DriverProtocolError SESSION_DRIVER_GET reason)
      else (case capturedProfileSegment base of
              None \<Rightarrow> None
            | Some profileSeg \<Rightarrow>
                if \<not> isValidProfileId (Some (JStr profileSeg))
                then Some (DriverProtocolError SESSION_DRIVER_GET reason)
                else if profileSeg \<noteq> profileId
                then Some (DriverProtocolError SESSION_DRIVER_GET reason)
                else None))"

text \<open>A Session id is cut at its first \<open>#\<close>.\<close>

definition session_base :: "string \<Rightarrow> string" where
  "session_base s = (case index_of hash_sign s of None \<Rightarrow> s | Some i \<Rightarrow> take i s)"

definition session_suffix :: "string \<Rightarrow> string option" where
  "session_suffix s = map_option (\<lambda>i. drop (i + 1) s) (index_of hash_sign s)"

record driverScope =
  ds_profileId :: string
  ds_topic :: "string option"

definition validateCapturedScope :: "string \<Rightarrow> driverScope \<Rightarrow> driverError option" where
  "validateCapturedScope sessionId scope =
     (let bad = Some (DriverProtocolError SESSION_DRIVER_GET INVALID_SCOPE);
          suffix = session_suffix sessionId
      in if \<not> isNonEmptyString (Some (JStr sessionId)) \<or> CHR 0x00 \<in> set sessionId then bad
         else if \<not> isValidProfileId (Some (JStr (ds_profileId scope))) then bad
         else case validateCapturedBase (session_base sessionId) (ds_profileId scope) INVALID_SCOPE of
                Some e \<Rightarrow> Some e
              | None \<Rightarrow>
                  if (case suffix of None \<Rightarrow> False | Some t \<Rightarrow> \<not> isOrdinaryTopic t) then bad
                  else if (case ds_topic scope of None \<Rightarrow> False | Some t \<Rightarrow> \<not> isOrdinaryTopic t) then bad
                  else if ds_topic scope \<noteq> None \<and> suffix \<noteq> None \<and> ds_topic scope \<noteq> suffix then bad
                  else None)"

definition masterWireBase :: "string \<Rightarrow> string \<Rightarrow> string option" where
  "masterWireBase masterSessionId profileId =
     (if \<not> isValidProfileId (Some (JStr profileId)) then None
      else if \<not> isNonEmptyString (Some (JStr masterSessionId)) then None
      else if CHR 0x00 \<in> set masterSessionId then None
      else if (case session_suffix masterSessionId of
                 None \<Rightarrow> False
               | Some topic \<Rightarrow> \<not> isOrdinaryTopic topic \<or> index_of hash_sign topic \<noteq> None) then None
      else case validateCapturedBase (session_base masterSessionId) profileId INVALID_SCOPE of
             Some e \<Rightarrow> None
           | None \<Rightarrow> Some (session_base masterSessionId))"

section \<open>Worker Sessions\<close>

definition peer_session :: "string \<Rightarrow> string \<Rightarrow> string" where
  "peer_session base slug = base @ ''#peer-'' @ slug"

definition workerSessionMatchesCapturedMaster ::
    "unknown \<Rightarrow> unknown \<Rightarrow> unknown \<Rightarrow> unknown \<Rightarrow> bool" where
  "workerSessionMatchesCapturedMaster masterSessionId profileId adoptedSessionId slug =
     (case (as_string masterSessionId, as_string profileId, as_string adoptedSessionId, as_string slug) of
        (Some m, Some p, Some a, Some s) \<Rightarrow>
          isValidProfileId profileId \<and> slug_is_safe s
          \<and> (case masterWireBase m p of None \<Rightarrow> False | Some base \<Rightarrow> a = peer_session base s)
      | _ \<Rightarrow> False)"

definition adoptedIdentityIsNativeShared :: "unknown \<Rightarrow> unknown \<Rightarrow> unknown \<Rightarrow> bool" where
  "adoptedIdentityIsNativeShared turnId sessionId slug =
     (if \<not> isProtocolUuid turnId then False
      else if \<not> peerSlugIsSafe slug then False
      else case (as_string sessionId, as_string slug) of
             (Some a, Some s) \<Rightarrow>
               (case index_of hash_sign a of
                  None \<Rightarrow> False
                | Some hash \<Rightarrow>
                    (let base = take hash a; topic = drop (hash + 1) a
                     in if hash_sign \<in> set topic \<or> topic \<noteq> ''peer-'' @ s then False
                        else base \<noteq> [] \<and> \<not> hasControlCode base \<and> \<not> list_ex js_space base))
           | _ \<Rightarrow> False)"

lemmas shape_defs [driver_defs] =
  isRawOpaqueId_def isOrdinaryTopic_def hasControlCode_def list_ex_iff

section \<open>Lemmas\<close>

declare index_of_None [simp] index_of_absent [simp] index_of_append [simp]

lemma session_base_hash_free [simp]: "hash_sign \<notin> set (session_base s)"
  by (auto simp: session_base_def split: option.splits dest: index_of_Some_split)

lemma session_parts: "s = session_base s @ (case session_suffix s of None \<Rightarrow> [] | Some t \<Rightarrow> hash_sign # t)"
  by (cases "index_of hash_sign s") (auto simp: session_base_def session_suffix_def dest: index_of_Some_split)

lemma topic_hash_free: "isOrdinaryTopic t \<Longrightarrow> hash_sign \<notin> set t"
  by (auto simp: driver_defs)

lemma slug_hash_free: "slug_is_safe s \<Longrightarrow> hash_sign \<notin> set s"
  by (auto simp: slug_is_safe_def list_ex_iff hash_sign_def code_unit_def split: if_splits)

lemma masterWireBase_Some:
  "masterWireBase m p = Some b \<longleftrightarrow>
     isValidProfileId (Some (JStr p)) \<and> isNonEmptyString (Some (JStr m)) \<and> CHR 0x00 \<notin> set m
     \<and> (\<forall>t. session_suffix m = Some t \<longrightarrow> isOrdinaryTopic t)
     \<and> validateCapturedBase b p INVALID_SCOPE = None \<and> b = session_base m"
  by (auto simp: masterWireBase_def topic_hash_free split: option.splits)

lemma masterWireBase_profile: "masterWireBase m p = Some b \<Longrightarrow> isValidProfileId (Some (JStr p))"
  by (simp add: masterWireBase_Some)

lemma workerSession_Some:
  "workerSessionMatchesCapturedMaster (Some (JStr m)) (Some (JStr p)) a s \<longleftrightarrow>
     (\<exists>base slug. masterWireBase m p = Some base \<and> slug_is_safe slug
        \<and> a = Some (JStr (peer_session base slug)) \<and> s = Some (JStr slug))"
  by (cases a rule: as_string.cases; cases s rule: as_string.cases)
    (auto simp: workerSessionMatchesCapturedMaster_def masterWireBase_profile split: option.splits)

lemma peer_session_inject:
  assumes "hash_sign \<notin> set b" "hash_sign \<notin> set b'"
  shows "peer_session b s = peer_session b' s' \<longleftrightarrow> b = b' \<and> s = s'"
proof
  assume eq: "peer_session b s = peer_session b' s'"
  have at: "index_of hash_sign (peer_session c t) = Some (length c)" if "hash_sign \<notin> set c" for c t
    using that index_of_append [of hash_sign c "''peer-'' @ t"] by (simp add: peer_session_def hash_sign_def)
  from at [OF assms(1), of s] at [OF assms(2), of s'] eq have "length b = length b'" by simp
  with eq show "b = b' \<and> s = s'" by (simp add: peer_session_def)
qed simp

lemma base_hash_free: "masterWireBase m p = Some b \<Longrightarrow> hash_sign \<notin> set b"
  by (simp add: masterWireBase_Some)

text \<open>
  a worker Session belongs to one master base and one slug, whichever master it is checked against.
\<close>
theorem worker_session_names_its_master:
  assumes "workerSessionMatchesCapturedMaster (Some (JStr m)) (Some (JStr p)) a slug"
    and "workerSessionMatchesCapturedMaster (Some (JStr m')) (Some (JStr p')) a slug'"
  shows "masterWireBase m p = masterWireBase m' p' \<and> slug = slug'"
  using assms by (auto simp: workerSession_Some peer_session_inject base_hash_free)

text \<open>A master that names its profile is refused under every other one.\<close>

lemma qualified_base_profile:
  assumes "masterWireBase m p = Some b" "capturedProfileSegment b = Some seg"
  shows "p = seg"
  using assms by (auto simp: masterWireBase_Some validateCapturedBase_def split: if_splits)

lemma foreign_profile_refused:
  assumes "capturedProfileSegment (session_base m) = Some seg" "p \<noteq> seg"
  shows "masterWireBase m p = None"
  using assms qualified_base_profile [of m p] by (cases "masterWireBase m p") (auto simp: masterWireBase_Some)

text \<open>A scope the factory accepts has a wire base: no later check of the captured scope can fail.\<close>

lemma captured_scope_has_base:
  "validateCapturedScope s scope = None \<Longrightarrow> masterWireBase s (ds_profileId scope) = Some (session_base s)"
  by (auto simp: validateCapturedScope_def masterWireBase_Some Let_def split: if_splits option.splits)

text \<open>The native shape is implied by the match with the captured master.\<close>

lemma worker_session_is_native:
  assumes "workerSessionMatchesCapturedMaster (Some (JStr m)) (Some (JStr p)) a slug" "isProtocolUuid turn"
  shows "adoptedIdentityIsNativeShared turn a slug"
proof -
  from assms obtain base s where base: "masterWireBase m p = Some base" and s: "slug_is_safe s"
    and a: "a = Some (JStr (peer_session base s))" and slug: "slug = Some (JStr s)"
    by (auto simp: workerSession_Some)
  from base have raw: "isRawOpaqueId base"
    by (auto simp: masterWireBase_Some validateCapturedBase_def split: if_splits)
  have session: "peer_session base s = base @ hash_sign # ''peer-'' @ s"
    by (simp add: peer_session_def hash_sign_def)
  have "index_of hash_sign (peer_session base s) = Some (length base)"
    unfolding session by (rule index_of_append) (rule base_hash_free [OF base])
  moreover have "hash_sign \<notin> set (''peer-'' @ s)"
    using slug_hash_free [OF s] by (simp add: hash_sign_def)
  ultimately show ?thesis
    using raw s assms(2)
    by (auto simp: adoptedIdentityIsNativeShared_def a slug peerSlugIsSafe_def session driver_defs)
qed

theorem worker_session_names_its_master_witness:
  "masterWireBase ''dev:local:tui#coding'' ''dev'' = masterWireBase ''dev:local:tui'' ''dev''"
proof -
  let ?worker = "Some (JStr ''dev:local:tui#peer-a'')" and ?slug = "Some (JStr ''a'')"
  have "workerSessionMatchesCapturedMaster (Some (JStr ''dev:local:tui#coding'')) (Some (JStr ''dev'')) ?worker ?slug"
    by code_simp
  moreover have "workerSessionMatchesCapturedMaster (Some (JStr ''dev:local:tui'')) (Some (JStr ''dev'')) ?worker ?slug"
    by code_simp
  ultimately show ?thesis using worker_session_names_its_master by blast
qed

end
