(* ===== verification/DriverOperations.thy ===== *)
theory DriverOperations
  imports DriverScope "HOL-Library.Monad_Syntax"
begin

text \<open>
  The page decoder of \<open>session/driver/get\<close> (\<open>packages/client/src/external-driver-operations.ts\<close>): the
  request it is asked with, the decimal revision, the rows and their acceptance, and what the presence
  of a page means. The theorems: a revision is accepted exactly when it is the canonical decimal of a
  64-bit number, an accepted page has at most 100 rows that all belong to the captured master, rows
  round-trip.
\<close>

section \<open>Early returns\<close>

text \<open>
  \<open>if (!ok) return null\<close> is \<open>need ok\<close> in the option monad; \<open>non_empty\<close> is the narrowing that
  \<open>isNonEmptyString\<close> performs, and \<open>opt_value\<close> decodes a property that may be \<open>undefined\<close>.
\<close>

definition need :: "bool \<Rightarrow> unit option" where
  "need ok = (if ok then Some () else None)"

definition non_empty :: "unknown \<Rightarrow> string option" where
  "non_empty v = (if isNonEmptyString v then as_string v else None)"

definition opt_value :: "(unknown \<Rightarrow> 'a option) \<Rightarrow> unknown \<Rightarrow> 'a option option" where
  "opt_value p v = (case v of None \<Rightarrow> Some None | Some _ \<Rightarrow> map_option Some (p v))"

definition as_bool :: "unknown \<Rightarrow> bool option" where
  "as_bool v = (case v of Some (JBool b) \<Rightarrow> Some b | _ \<Rightarrow> None)"

definition only_keys :: "fields \<Rightarrow> string list \<Rightarrow> bool" where
  "only_keys o' allowed = list_all (\<lambda>(k, _). k \<in> set allowed) o'"

definition absent_or_null :: "unknown \<Rightarrow> bool" where
  "absent_or_null v \<longleftrightarrow> v = None \<or> v = Some JNull"

lemma need_bind [simp]: "Option.bind (need ok) f = (if ok then f () else None)"
  by (simp add: need_def)

lemma need_Some [simp]: "need ok = Some u \<longleftrightarrow> ok"
  by (simp add: need_def)

lemma non_empty_Some: "non_empty v = Some s \<longleftrightarrow> v = Some (JStr s) \<and> trim s \<noteq> []"
  by (cases v rule: as_string.cases) (auto simp: non_empty_def isNonEmptyString_def)

lemma as_bool_Some [simp]: "as_bool v = Some b \<longleftrightarrow> v = Some (JBool b)"
  by (auto simp: as_bool_def split: option.splits json.splits)

lemma as_bool_JBool [simp]: "as_bool (Some (JBool b)) = Some b"
  by simp

lemma opt_value_Some:
  "opt_value p v = Some x \<longleftrightarrow> v = None \<and> x = None \<or> (\<exists>w y. v = Some w \<and> p v = Some y \<and> x = Some y)"
  by (auto simp: opt_value_def split: option.splits)

section \<open>The request\<close>

definition defaultLimit :: nat where "defaultLimit = 50"
definition minLimit :: int where "minLimit = 1"
definition maxLimit :: int where "maxLimit = 100"
definition maxCursorBytes :: nat where "maxCursorBytes = 4096"
definition maxPageRows :: nat where "maxPageRows = 100"
definition maxPageBytes :: nat where "maxPageBytes = 256 * 1024"

record builtRequest =
  br_wire :: fields
  br_effectiveLimit :: nat

text \<open>\<open>limit\<close> and \<open>cursor\<close> of the request object, or the code of the error thrown.\<close>

definition request_cursor :: "unknown \<Rightarrow> string + fields" where
  "request_cursor v =
     (case v of
        None \<Rightarrow> Inr []
      | Some _ \<Rightarrow>
          (case as_string v of
             None \<Rightarrow> Inl ''driver_operations_malformed''
           | Some s \<Rightarrow>
               if s = [] then Inl ''driver_operations_cursor_empty''
               else if utf8Bytes s > maxCursorBytes then Inl ''driver_operations_cursor_too_large''
               else Inr [(''cursor'', JStr s)]))"

definition request_limit :: "unknown \<Rightarrow> string + fields \<times> nat" where
  "request_limit v =
     (case v of
        None \<Rightarrow> Inr ([], defaultLimit)
      | Some (JNum (JInt i)) \<Rightarrow>
          if \<not> is_safe_integer (JInt i) \<or> i < minLimit \<or> i > maxLimit
          then Inl ''driver_operations_limit_out_of_range''
          else Inr ([(''limit'', JNum (JInt i))], nat i)
      | Some _ \<Rightarrow> Inl ''driver_operations_limit_out_of_range'')"

definition buildDriverOperationsRequest :: "unknown \<Rightarrow> string + builtRequest option" where
  "buildDriverOperationsRequest init =
     (case init of
        None \<Rightarrow> Inr None
      | Some _ \<Rightarrow>
          (case as_record init of
             None \<Rightarrow> Inl ''driver_operations_malformed''
           | Some o' \<Rightarrow>
               if \<not> only_keys o' [''cursor'', ''limit''] then Inl ''driver_operations_unknown_field''
               else case request_cursor (fld o' ''cursor'') of
                      Inl e \<Rightarrow> Inl e
                    | Inr c \<Rightarrow>
                        (case request_limit (fld o' ''limit'') of
                           Inl e \<Rightarrow> Inl e
                         | Inr (l, effective) \<Rightarrow> Inr (Some \<lparr>br_wire = c @ l, br_effectiveLimit = effective\<rparr>))))"

section \<open>Rows\<close>

record capturedOperationsScope =
  os_profileId :: string
  os_masterSessionId :: string

record driverScopedGoal =
  sg_goalId :: string
  sg_taskId :: "string option"
  sg_revision :: "nat option"

record operationAcceptance =
  oa_model :: string
  oa_modelLane :: string
  oa_workspaceRoot :: string
  oa_scopedGoal :: "driverScopedGoal option"
  oa_adoptedTurnId :: string
  oa_adoptedSessionId :: string
  oa_slug :: string
  oa_acceptedAtMs :: nat
  oa_payloadDigest :: string

record operationRow =
  or_operationId :: string
  or_acceptance :: operationAcceptance
  or_lifecycle :: string
  or_createdAtMs :: nat
  or_startedAtMs :: "nat option"
  or_terminalAtMs :: "nat option"

record operationsPage =
  pg_items :: "operationRow list"
  pg_snapshot :: string
  pg_observedRevision :: string
  pg_complete :: bool
  pg_nextCursor :: "string option"

definition LIFECYCLES :: "string list" where
  "LIFECYCLES = [''accepted'', ''admitted'', ''started'', ''terminal'', ''recovery_required'']"

text \<open>The fields of a goal, in every decoder that reads one.\<close>

definition goal_fields :: "fields \<Rightarrow> driverScopedGoal option" where
  "goal_fields o' =
     do {
       g \<leftarrow> non_empty (fld o' ''goal_id'');
       t \<leftarrow> opt_value non_empty (fld o' ''task_id'');
       r \<leftarrow> opt_value nonneg_int (fld o' ''revision'');
       Some \<lparr>sg_goalId = g, sg_taskId = t, sg_revision = r\<rparr>
     }"

text \<open>\<open>None\<close> is the source's \<open>"bad"\<close>, \<open>Some None\<close> its \<open>null\<close>.\<close>

definition parse_row_goal :: "unknown \<Rightarrow> driverScopedGoal option option" where
  "parse_row_goal v =
     (if absent_or_null v then Some None
      else do {
        o' \<leftarrow> as_record v;
        need (only_keys o' [''goal_id'', ''task_id'', ''revision'']);
        map_option Some (goal_fields o')
      })"

definition parseAcceptance :: "capturedOperationsScope \<Rightarrow> unknown \<Rightarrow> operationAcceptance option" where
  "parseAcceptance scope v =
     do {
       o' \<leftarrow> as_record v;
       need (only_keys o' [''model'', ''model_lane'', ''workspace_root'', ''scoped_goal'', ''adopted_turn_id'',
               ''adopted_session_id'', ''slug'', ''accepted_at_ms'', ''payload_digest'']);
       model \<leftarrow> non_empty (fld o' ''model'');
       lane \<leftarrow> non_empty (fld o' ''model_lane'');
       root \<leftarrow> non_empty (fld o' ''workspace_root'');
       turn \<leftarrow> as_string (fld o' ''adopted_turn_id'');
       session \<leftarrow> non_empty (fld o' ''adopted_session_id'');
       slug \<leftarrow> as_string (fld o' ''slug'');
       need (peerSlugIsSafe (fld o' ''slug''));
       acceptedAt \<leftarrow> nonneg_int (fld o' ''accepted_at_ms'');
       digest \<leftarrow> non_empty (fld o' ''payload_digest'');
       goal \<leftarrow> parse_row_goal (fld o' ''scoped_goal'');
       need (adoptedIdentityIsNativeShared (fld o' ''adopted_turn_id'') (fld o' ''adopted_session_id'')
               (fld o' ''slug''));
       need (workerSessionMatchesCapturedMaster (Some (JStr (os_masterSessionId scope)))
               (Some (JStr (os_profileId scope))) (fld o' ''adopted_session_id'') (fld o' ''slug''));
       Some \<lparr>oa_model = model, oa_modelLane = lane, oa_workspaceRoot = root, oa_scopedGoal = goal,
             oa_adoptedTurnId = turn, oa_adoptedSessionId = session, oa_slug = slug,
             oa_acceptedAtMs = acceptedAt, oa_payloadDigest = digest\<rparr>
     }"

definition parse_lifecycle :: "unknown \<Rightarrow> string option" where
  "parse_lifecycle v =
     (case as_string v of None \<Rightarrow> None | Some s \<Rightarrow> if s \<in> set LIFECYCLES then Some s else None)"

definition parseRow :: "capturedOperationsScope \<Rightarrow> unknown \<Rightarrow> operationRow option" where
  "parseRow scope v =
     do {
       o' \<leftarrow> as_record v;
       need (only_keys o' [''operation_id'', ''kind'', ''acceptance'', ''lifecycle'', ''created_at_ms'',
               ''started_at_ms'', ''terminal_at_ms'']);
       operation \<leftarrow> non_empty (fld o' ''operation_id'');
       need (fld o' ''kind'' = Some (JStr ''peer_dispatch''));
       lifecycle \<leftarrow> parse_lifecycle (fld o' ''lifecycle'');
       created \<leftarrow> nonneg_int (fld o' ''created_at_ms'');
       started \<leftarrow> opt_value nonneg_int (fld o' ''started_at_ms'');
       terminal \<leftarrow> opt_value nonneg_int (fld o' ''terminal_at_ms'');
       acceptance \<leftarrow> parseAcceptance scope (fld o' ''acceptance'');
       Some \<lparr>or_operationId = operation, or_acceptance = acceptance, or_lifecycle = lifecycle,
             or_createdAtMs = created, or_startedAtMs = started, or_terminalAtMs = terminal\<rparr>
     }"

section \<open>Pages\<close>

text \<open>
  The comparison \<open>value > "18446744073709551615"\<close> is the one of strings. \<open>BigInt\<close> has no width.
\<close>

definition parseObservedRevision :: "string \<Rightarrow> nat option" where
  "parseObservedRevision value =
     (if length value = 0 \<or> length value > 20 then None
      else if \<not> list_all js_digit value then None
      else if value \<noteq> ''0'' \<and> starts_with value ''0'' then None
      else if length value = 20 \<and> ord_class.lexordp (units ''18446744073709551615'') (units value) then None
      else Some (digits_value value))"

text \<open>
  \<open>JSON.stringify\<close>. The digits of a number that is not a safe integer come from \<open>number_text\<close>; a
  value with such a number is refused whatever its size (\<open>page_number_text\<close> below).
\<close>

fun stringify :: "(jnum \<Rightarrow> string) \<Rightarrow> json \<Rightarrow> string" where
  "stringify number_text JNull = ''null''"
| "stringify number_text (JBool b) = (if b then ''true'' else ''false'')"
| "stringify number_text (JNum n) =
     (case n of
        JInt i \<Rightarrow>
          if is_safe_integer n then (if i < 0 then CHR ''-'' # show_nat (nat (- i)) else show_nat (nat i))
          else number_text n
      | JFrac _ _ \<Rightarrow> number_text n
      | JInf _ \<Rightarrow> ''null'')"
| "stringify number_text (JStr s) = json_quote s"
| "stringify number_text (JArr xs) = ''['' @ join '','' (map (stringify number_text) xs) @ '']''"
| "stringify number_text (JObj kvs) =
     ''{'' @ join '','' (map (\<lambda>(k, v). json_quote k @ '':'' @ stringify number_text v) kvs) @ ''}''"

definition validateCapturedOperationsScope :: "capturedOperationsScope \<Rightarrow> driverError option" where
  "validateCapturedOperationsScope scope =
     (if masterWireBase (os_masterSessionId scope) (os_profileId scope) = None
      then Some (DriverOperationsError ''driver_operations_malformed'') else None)"

definition parse_next_cursor :: "bool \<Rightarrow> unknown \<Rightarrow> string option option" where
  "parse_next_cursor complete v =
     (case v of
        None \<Rightarrow> None
      | Some JNull \<Rightarrow> if complete then Some None else None
      | Some (JStr s) \<Rightarrow>
          if s = [] then None
          else if utf8Bytes s > maxCursorBytes then None
          else if complete then None
          else Some (Some s)
      | Some _ \<Rightarrow> None)"

definition page_body ::
    "(jnum \<Rightarrow> string) \<Rightarrow> capturedOperationsScope \<Rightarrow> unknown \<Rightarrow> operationsPage option" where
  "page_body number_text scope v =
     do {
       o' \<leftarrow> as_record v;
       need (only_keys o' [''items'', ''snapshot'', ''observed_revision'', ''complete'', ''next_cursor'']);
       items \<leftarrow> as_array (fld o' ''items'');
       need (length items \<le> maxPageRows);
       snapshot \<leftarrow> non_empty (fld o' ''snapshot'');
       revision \<leftarrow> as_string (fld o' ''observed_revision'');
       _ \<leftarrow> parseObservedRevision revision;
       complete \<leftarrow> as_bool (fld o' ''complete'');
       next \<leftarrow> parse_next_cursor complete (fld o' ''next_cursor'');
       need (utf8Bytes (stringify number_text (JObj o')) \<le> maxPageBytes);
       rows \<leftarrow> those (map (\<lambda>raw. parseRow scope (Some raw)) items);
       Some \<lparr>pg_items = rows, pg_snapshot = snapshot, pg_observedRevision = revision,
             pg_complete = complete, pg_nextCursor = next\<rparr>
     }"

definition parseDriverOperationsPageResult ::
    "(jnum \<Rightarrow> string) \<Rightarrow> unknown \<Rightarrow> capturedOperationsScope \<Rightarrow> driverError + operationsPage option" where
  "parseDriverOperationsPageResult number_text value scope =
     (case validateCapturedOperationsScope scope of
        Some e \<Rightarrow> Inl e
      | None \<Rightarrow> Inr (page_body number_text scope value))"

datatype operationsOutcome = OpsOmitted | OpsUnsupported | OpsMalformed | OpsPage operationsPage

definition classifyDriverGetOperationsResult ::
    "(jnum \<Rightarrow> string) \<Rightarrow> unknown \<Rightarrow> bool \<Rightarrow> capturedOperationsScope \<Rightarrow> driverError + operationsOutcome" where
  "classifyDriverGetOperationsResult number_text result requested scope =
     (case validateCapturedOperationsScope scope of
        Some e \<Rightarrow> Inl e
      | None \<Rightarrow>
          (case as_record result of
             None \<Rightarrow> Inr OpsMalformed
           | Some o' \<Rightarrow>
               (case fld o' ''operations'' of
                  None \<Rightarrow> Inr (if requested then OpsUnsupported else OpsOmitted)
                | Some operations \<Rightarrow>
                    (case parseDriverOperationsPageResult number_text (Some operations) scope of
                       Inl e \<Rightarrow> Inl e
                     | Inr None \<Rightarrow> Inr OpsMalformed
                     | Inr (Some page) \<Rightarrow> Inr (OpsPage page)))))"

section \<open>Revisions\<close>

lemma digit_value: "js_digit c \<Longrightarrow> code_unit c - 48 < 10 \<and> digit_char (code_unit c - 48) = c"
  by (auto simp: js_digit_def digit_char_def Let_def)

lemma digits_value_Cons: "digits_value (c # s) = (code_unit c - 48) * 10 ^ length s + digits_value s"
  by (induction s rule: rev_induct) (simp_all add: digits_value_def algebra_simps)

lemma positional_less:
  fixes b :: nat
  assumes "x < b" "y < b" "i < j"
  shows "i * b + x < j * b + y"
proof -
  from \<open>i < j\<close> have "Suc i * b \<le> j * b" by (intro mult_right_mono) simp_all
  with \<open>x < b\<close> show ?thesis by simp
qed

lemma digits_value_less: "list_all js_digit s \<Longrightarrow> digits_value s < 10 ^ length s"
proof (induction s)
  case Nil
  then show ?case by (simp add: digits_value_def)
next
  case (Cons c s)
  then have "digits_value s < 10 ^ length s" "code_unit c - 48 < 10" using digit_value [of c] by simp_all
  then show ?case using positional_less [of "digits_value s" "10 ^ length s" 0 "code_unit c - 48" 10]
    by (simp add: digits_value_Cons)
qed

text \<open>Texts of the same number of digits are in the order of their values.\<close>

lemma same_length_digits_order:
  "\<lbrakk>length s = length t; list_all js_digit s; list_all js_digit t\<rbrakk> \<Longrightarrow>
     ord_class.lexordp (units s) (units t) \<longleftrightarrow> digits_value s < digits_value t"
proof (induction s t rule: list_induct2)
  case Nil
  then show ?case by (simp add: units_def digits_value_def)
next
  case (Cons c s d t)
  let ?c = "code_unit c - 48" and ?d = "code_unit d - 48"
  have bounds: "digits_value s < 10 ^ length t" "digits_value t < 10 ^ length t"
    using Cons digits_value_less [of s] digits_value_less [of t] by simp_all
  have order: "code_unit c < code_unit d \<longleftrightarrow> ?c < ?d" "code_unit d < code_unit c \<longleftrightarrow> ?d < ?c"
    using Cons.prems by (auto simp: js_digit_def Let_def)
  have IH: "ord_class.lexordp (units s) (units t) \<longleftrightarrow> digits_value s < digits_value t"
    using Cons by simp
  consider "?c < ?d" | "?c = ?d" | "?d < ?c" by linarith
  then show ?case
  proof cases
    case 1
    with order positional_less [OF bounds 1] Cons.hyps show ?thesis by (simp add: units_def digits_value_Cons)
  next
    case 2
    with order IH Cons.hyps show ?thesis by (simp add: units_def digits_value_Cons)
  next
    case 3
    with order positional_less [OF bounds(2) bounds(1) 3] Cons.hyps show ?thesis
      by (simp add: units_def digits_value_Cons)
  qed
qed

lemma show_nat_zero: "show_nat 0 = ''0''"
  by code_simp

lemma show_nat_snoc: "v \<noteq> 0 \<Longrightarrow> d < 10 \<Longrightarrow> show_nat (10 * v + d) = show_nat v @ [digit_char d]"
  by (subst show_nat.simps) simp

text \<open>Decimals without a leading zero are the numerals of their values.\<close>

lemma canonical_digits:
  "\<lbrakk>s \<noteq> []; list_all js_digit s; s = ''0'' \<or> \<not> starts_with s ''0''\<rbrakk> \<Longrightarrow> show_nat (digits_value s) = s"
proof (induction s rule: rev_induct)
  case (snoc c t)
  note c = digit_value [of c]
  show ?case
  proof (cases t)
    case Nil
    with snoc.prems c show ?thesis by (subst show_nat.simps) (simp add: digits_value_def)
  next
    case (Cons e u)
    with snoc have t: "show_nat (digits_value t) = t" "\<not> starts_with t ''0''" by auto
    have "digits_value t \<noteq> 0"
    proof
      assume "digits_value t = 0"
      with t show_nat_zero have "t = ''0''" by simp
      with t(2) show False by simp
    qed
    with snoc.prems c t show ?thesis by (simp add: digits_value_snoc show_nat_snoc)
  qed
qed simp

lemma show_nat_canonical: "n \<noteq> 0 \<Longrightarrow> \<not> starts_with (show_nat n) ''0''"
proof (induction n rule: show_nat.induct)
  case (1 n)
  show ?case
  proof (cases "n < 10")
    case True
    have "digit_char n \<noteq> CHR ''0''"
    proof
      assume "digit_char n = CHR ''0''"
      then have "code_unit (digit_char n) = code_unit CHR ''0''" by simp
      with True "1.prems" show False by (simp add: code_unit_digit_char) (simp add: code_unit_def)
    qed
    with True show ?thesis by (subst show_nat.simps) simp
  next
    case False
    then obtain c r where "show_nat (n div 10) = c # r" by (cases "show_nat (n div 10)") auto
    moreover from False "1.IH" have "\<not> starts_with (show_nat (n div 10)) ''0''" by simp
    ultimately show ?thesis using False by (subst show_nat.simps) simp
  qed
qed

lemma length_show_nat: "n < 10 ^ Suc k \<Longrightarrow> length (show_nat n) \<le> Suc k"
proof (induction k arbitrary: n)
  case 0
  then show ?case by (simp add: show_nat.simps)
next
  case (Suc k)
  then have "length (show_nat (n div 10)) \<le> Suc k" by (simp add: less_mult_imp_div_less)
  then show ?case by (subst show_nat.simps) simp
qed

lemma show_nat_all_digits [simp]: "list_all js_digit (show_nat n)"
  by (auto simp: list_all_iff dest: show_nat_digits)

lemma show_nat_zero_prefix: "show_nat n = ''0'' \<or> \<not> starts_with (show_nat n) ''0''"
  by (cases "n = 0") (simp_all add: show_nat_zero show_nat_canonical)

lemma max_revision:
  "digits_value ''18446744073709551615'' = 18446744073709551615"
  "list_all js_digit ''18446744073709551615''"
  by (simp_all add: digits_value_def js_digit_def code_unit_def)

lemma revision_u64: "parseObservedRevision s = Some n \<longleftrightarrow> s = show_nat n \<and> n < 2 ^ 64"
proof -
  let ?max = "''18446744073709551615''"
  have order: "ord_class.lexordp (units ?max) (units s) \<longleftrightarrow> 18446744073709551615 < digits_value s"
    if "length s = 20" "list_all js_digit s"
    using same_length_digits_order [of ?max s] that max_revision by simp
  show ?thesis
  proof
    assume accepted: "parseObservedRevision s = Some n"
    then have s: "s \<noteq> []" "length s \<le> 20" "list_all js_digit s" "s = ''0'' \<or> \<not> starts_with s ''0''"
        and n: "n = digits_value s"
      by (auto simp: parseObservedRevision_def split: if_splits)
    have "digits_value s < 2 ^ 64"
    proof (cases "length s = 20")
      case True
      with accepted order s show ?thesis by (auto simp: parseObservedRevision_def split: if_splits)
    next
      case False
      with s have "10 ^ length s \<le> (10 :: nat) ^ 19" by (intro power_increasing) simp_all
      with digits_value_less [OF s(3)] show ?thesis by simp
    qed
    with canonical_digits [OF s(1,3,4)] n show "s = show_nat n \<and> n < 2 ^ 64" by simp
  next
    assume n: "s = show_nat n \<and> n < 2 ^ 64"
    then have "length s \<le> Suc 19" using length_show_nat [of n 19] by simp
    with n order show_nat_zero_prefix [of n] show "parseObservedRevision s = Some n"
      by (auto simp: parseObservedRevision_def)
  qed
qed

text \<open>
  an observed revision is accepted exactly when it is the canonical decimal of a number of 64 bits,
  and stands for that number.
\<close>
theorem revision_is_canonical_u64:
  "parseObservedRevision s = Some n \<longleftrightarrow> s = show_nat n \<and> n < 2 ^ 64"
  by (rule revision_u64)

section \<open>Rows and their rendering\<close>

definition encode_goal :: "driverScopedGoal \<Rightarrow> json" where
  "encode_goal g =
     JObj ((''goal_id'', JStr (sg_goalId g))
           # opt_field ''task_id'' (map_option JStr (sg_taskId g))
           @ opt_field ''revision'' (map_option (\<lambda>n. JNum (JInt (int n))) (sg_revision g)))"

definition encode_acceptance :: "operationAcceptance \<Rightarrow> json" where
  "encode_acceptance a =
     JObj ([(''model'', JStr (oa_model a)), (''model_lane'', JStr (oa_modelLane a)),
            (''workspace_root'', JStr (oa_workspaceRoot a)), (''adopted_turn_id'', JStr (oa_adoptedTurnId a)),
            (''adopted_session_id'', JStr (oa_adoptedSessionId a)), (''slug'', JStr (oa_slug a)),
            (''accepted_at_ms'', JNum (JInt (int (oa_acceptedAtMs a)))),
            (''payload_digest'', JStr (oa_payloadDigest a))]
           @ opt_field ''scoped_goal'' (map_option encode_goal (oa_scopedGoal a)))"

definition encode_row :: "operationRow \<Rightarrow> json" where
  "encode_row r =
     JObj ([(''operation_id'', JStr (or_operationId r)), (''kind'', JStr ''peer_dispatch''),
            (''acceptance'', encode_acceptance (or_acceptance r)), (''lifecycle'', JStr (or_lifecycle r)),
            (''created_at_ms'', JNum (JInt (int (or_createdAtMs r))))]
           @ opt_field ''started_at_ms'' (map_option (\<lambda>n. JNum (JInt (int n))) (or_startedAtMs r))
           @ opt_field ''terminal_at_ms'' (map_option (\<lambda>n. JNum (JInt (int n))) (or_terminalAtMs r)))"

definition safe_opt :: "nat option \<Rightarrow> bool" where
  "safe_opt v = (case v of None \<Rightarrow> True | Some n \<Rightarrow> int n \<le> max_safe)"

definition valid_goal :: "driverScopedGoal \<Rightarrow> bool" where
  "valid_goal g \<longleftrightarrow>
     trim (sg_goalId g) \<noteq> [] \<and> (case sg_taskId g of None \<Rightarrow> True | Some t \<Rightarrow> trim t \<noteq> []) \<and> safe_opt (sg_revision g)"

definition row_belongs :: "capturedOperationsScope \<Rightarrow> operationAcceptance \<Rightarrow> bool" where
  "row_belongs scope a =
     workerSessionMatchesCapturedMaster (Some (JStr (os_masterSessionId scope)))
       (Some (JStr (os_profileId scope))) (Some (JStr (oa_adoptedSessionId a))) (Some (JStr (oa_slug a)))"

definition valid_acceptance :: "capturedOperationsScope \<Rightarrow> operationAcceptance \<Rightarrow> bool" where
  "valid_acceptance scope a \<longleftrightarrow>
     trim (oa_model a) \<noteq> [] \<and> trim (oa_modelLane a) \<noteq> [] \<and> trim (oa_workspaceRoot a) \<noteq> []
     \<and> trim (oa_adoptedSessionId a) \<noteq> [] \<and> slug_is_safe (oa_slug a) \<and> int (oa_acceptedAtMs a) \<le> max_safe
     \<and> trim (oa_payloadDigest a) \<noteq> []
     \<and> (case oa_scopedGoal a of None \<Rightarrow> True | Some g \<Rightarrow> valid_goal g)
     \<and> isProtocolUuid (Some (JStr (oa_adoptedTurnId a))) \<and> row_belongs scope a"

definition valid_row :: "capturedOperationsScope \<Rightarrow> operationRow \<Rightarrow> bool" where
  "valid_row scope r \<longleftrightarrow>
     trim (or_operationId r) \<noteq> [] \<and> or_lifecycle r \<in> set LIFECYCLES \<and> int (or_createdAtMs r) \<le> max_safe
     \<and> safe_opt (or_startedAtMs r) \<and> safe_opt (or_terminalAtMs r) \<and> valid_acceptance scope (or_acceptance r)"

lemma if_Some [simp]: "(if b then v else None) = Some x \<longleftrightarrow> b \<and> v = Some x"
  by simp

lemmas row_some = bind_eq_Some_conv non_empty_Some opt_value_Some nonneg_int_Some

lemma only_keys_simps [simp]:
  "only_keys [] allowed"
  "only_keys ((k, v) # o') allowed \<longleftrightarrow> k \<in> set allowed \<and> only_keys o' allowed"
  "only_keys (o' @ o'') allowed \<longleftrightarrow> only_keys o' allowed \<and> only_keys o'' allowed"
  "only_keys (opt_field k w) allowed \<longleftrightarrow> w = None \<or> k \<in> set allowed"
  by (auto simp: only_keys_def opt_field_def split: option.splits)

lemma non_empty_JStr [simp]: "non_empty (Some (JStr s)) = (if trim s \<noteq> [] then Some s else None)"
  by (simp add: non_empty_def isNonEmptyString_def)

lemma opt_value_text [simp]:
  "opt_value non_empty (map_option JStr t) =
     (case t of None \<Rightarrow> Some None | Some s \<Rightarrow> if trim s \<noteq> [] then Some (Some s) else None)"
  by (simp add: opt_value_def split: option.splits)

lemma opt_value_int [simp]:
  "opt_value nonneg_int (map_option (\<lambda>n. JNum (JInt (int n))) v) = (if safe_opt v then Some v else None)"
  by (auto simp: opt_value_def safe_opt_def split: option.splits)

lemma goal_fields_valid: "goal_fields o' = Some g \<Longrightarrow> valid_goal g"
  by (auto simp: goal_fields_def row_some valid_goal_def safe_opt_def split: option.splits)

lemma row_goal_valid: "parse_row_goal v = Some (Some g) \<Longrightarrow> valid_goal g"
  by (auto simp: parse_row_goal_def bind_eq_Some_conv dest: goal_fields_valid split: if_splits)

lemma row_goal_encode: "valid_goal g \<Longrightarrow> parse_row_goal (Some (encode_goal g)) = Some (Some g)"
  by (cases g)
    (auto simp: parse_row_goal_def encode_goal_def absent_or_null_def goal_fields_def valid_goal_def
      split: option.splits)

lemma goal_option_encode:
  "(case w of None \<Rightarrow> True | Some g \<Rightarrow> valid_goal g) \<Longrightarrow> parse_row_goal (map_option encode_goal w) = Some w"
  by (cases w) (simp add: parse_row_goal_def absent_or_null_def, simp add: row_goal_encode)

lemma row_belongs_native:
  "row_belongs scope a \<Longrightarrow> isProtocolUuid turn \<Longrightarrow>
     adoptedIdentityIsNativeShared turn (Some (JStr (oa_adoptedSessionId a))) (Some (JStr (oa_slug a)))"
  unfolding row_belongs_def by (rule worker_session_is_native)

lemma native_uuid: "adoptedIdentityIsNativeShared turn s slug \<Longrightarrow> isProtocolUuid turn"
  by (simp add: adoptedIdentityIsNativeShared_def split: if_splits)

lemma acceptance_valid:
  assumes "parseAcceptance scope v = Some a"
  shows "valid_acceptance scope a"
proof -
  from assms obtain o' where
    "non_empty (fld o' ''model'') = Some (oa_model a)"
    "non_empty (fld o' ''model_lane'') = Some (oa_modelLane a)"
    "non_empty (fld o' ''workspace_root'') = Some (oa_workspaceRoot a)"
    "non_empty (fld o' ''adopted_session_id'') = Some (oa_adoptedSessionId a)"
    "nonneg_int (fld o' ''accepted_at_ms'') = Some (oa_acceptedAtMs a)"
    "non_empty (fld o' ''payload_digest'') = Some (oa_payloadDigest a)"
    and goal: "parse_row_goal (fld o' ''scoped_goal'') = Some (oa_scopedGoal a)"
    and safe: "peerSlugIsSafe (Some (JStr (oa_slug a)))"
    and native: "adoptedIdentityIsNativeShared (Some (JStr (oa_adoptedTurnId a)))
      (Some (JStr (oa_adoptedSessionId a))) (Some (JStr (oa_slug a)))"
    and belongs: "row_belongs scope a"
    by (auto simp: parseAcceptance_def bind_eq_Some_conv non_empty_Some row_belongs_def)
  moreover have "case oa_scopedGoal a of None \<Rightarrow> True | Some g \<Rightarrow> valid_goal g"
    using goal row_goal_valid by (auto split: option.splits)
  ultimately show ?thesis
    using native_uuid [OF native] belongs safe
    by (simp add: valid_acceptance_def non_empty_Some nonneg_int_Some peerSlugIsSafe_def)
qed

lemma acceptance_encode:
  "valid_acceptance scope a \<Longrightarrow> parseAcceptance scope (Some (encode_acceptance a)) = Some a"
  using row_belongs_native [of scope a "Some (JStr (oa_adoptedTurnId a))"]
  by (cases a)
    (simp add: parseAcceptance_def encode_acceptance_def valid_acceptance_def goal_option_encode
      peerSlugIsSafe_def row_belongs_def)

lemma opt_int_valid: "opt_value nonneg_int v = Some n \<Longrightarrow> safe_opt n"
  by (auto simp: opt_value_Some nonneg_int_Some safe_opt_def)

lemma lifecycle_Some: "parse_lifecycle v = Some s \<longleftrightarrow> v = Some (JStr s) \<and> s \<in> set LIFECYCLES"
  by (auto simp: parse_lifecycle_def split: option.splits)

lemma row_valid:
  assumes "parseRow scope v = Some r"
  shows "valid_row scope r"
proof -
  from assms obtain o' where
    "non_empty (fld o' ''operation_id'') = Some (or_operationId r)"
    "parse_lifecycle (fld o' ''lifecycle'') = Some (or_lifecycle r)"
    "nonneg_int (fld o' ''created_at_ms'') = Some (or_createdAtMs r)"
    "opt_value nonneg_int (fld o' ''started_at_ms'') = Some (or_startedAtMs r)"
    "opt_value nonneg_int (fld o' ''terminal_at_ms'') = Some (or_terminalAtMs r)"
    "parseAcceptance scope (fld o' ''acceptance'') = Some (or_acceptance r)"
    by (auto simp: parseRow_def bind_eq_Some_conv)
  then show ?thesis
    by (simp add: valid_row_def non_empty_Some lifecycle_Some nonneg_int_Some opt_int_valid acceptance_valid)
qed

lemma row_encode: "valid_row scope r \<Longrightarrow> parseRow scope (Some (encode_row r)) = Some r"
  by (cases r)
    (simp add: parseRow_def encode_row_def valid_row_def acceptance_encode parse_lifecycle_def)

interpretation row_wire: wire_decoder "parseRow scope" encode_row "valid_row scope" for scope
  by unfold_locales (auto simp: row_valid row_encode, simp add: parseRow_def)

lemma next_cursor_complete: "parse_next_cursor complete v = Some w \<Longrightarrow> complete \<longleftrightarrow> w = None"
  by (auto simp: parse_next_cursor_def split: option.splits json.splits if_splits)

text \<open>
  a page that the decoder accepts has at most 100 rows, each with a worker Session of the captured
  master; it is complete exactly when it has no further cursor, and its revision is a number of 64 bits.
\<close>
theorem accepted_page_is_owned:
  assumes "parseDriverOperationsPageResult number_text v scope = Inr (Some page)"
  shows "length (pg_items page) \<le> 100 \<and> (pg_complete page \<longleftrightarrow> pg_nextCursor page = None)
    \<and> (\<exists>n < 2 ^ 64. pg_observedRevision page = show_nat n)
    \<and> list_all (valid_row scope) (pg_items page)"
proof -
  from assms have body: "page_body number_text scope v = Some page"
    by (auto simp: parseDriverOperationsPageResult_def split: option.splits)
  then obtain o' items where o': "v = Some (JObj o')"
    and items: "fld o' ''items'' = Some (JArr items)" "length items \<le> 100"
    and rows: "map (\<lambda>raw. parseRow scope (Some raw)) items = map Some (pg_items page)"
    and next_cursor: "parse_next_cursor (pg_complete page) (fld o' ''next_cursor'') = Some (pg_nextCursor page)"
    and revision: "parseObservedRevision (pg_observedRevision page) \<noteq> None"
    by (auto simp: page_body_def bind_eq_Some_conv those_Some maxPageRows_def split: if_splits)
  have "list_all (valid_row scope) (pg_items page)"
    by (rule row_wire.array_valid [where v = "Some (JArr items)"]) (simp add: parseOptionalArray_Some rows)
  moreover have "length (pg_items page) = length items"
    using rows by (metis length_map)
  moreover have "pg_complete page \<longleftrightarrow> pg_nextCursor page = None"
    by (rule next_cursor_complete [OF next_cursor])
  ultimately show ?thesis
    using items revision by (auto simp: revision_u64)
qed

text \<open>The hypothesis holds for a page with one row, of the master \<open>dev:local:tui\<close>.\<close>

definition sample_scope :: capturedOperationsScope where
  "sample_scope = \<lparr>os_profileId = ''dev'', os_masterSessionId = ''dev:local:tui#coding''\<rparr>"

definition sample_row :: operationRow where
  "sample_row =
     \<lparr>or_operationId = ''op-1'',
      or_acceptance =
        \<lparr>oa_model = ''m'', oa_modelLane = ''lane'', oa_workspaceRoot = ''/w'',
         oa_scopedGoal = Some \<lparr>sg_goalId = ''g'', sg_taskId = None, sg_revision = Some 2\<rparr>,
         oa_adoptedTurnId = ''00000000-0000-0000-0000-000000000000'',
         oa_adoptedSessionId = ''dev:local:tui#peer-a'', oa_slug = ''a'', oa_acceptedAtMs = 5,
         oa_payloadDigest = ''d''\<rparr>,
      or_lifecycle = ''started'', or_createdAtMs = 4, or_startedAtMs = Some 6, or_terminalAtMs = None\<rparr>"

definition sample_page :: json where
  "sample_page =
     JObj [(''items'', JArr [encode_row sample_row]), (''snapshot'', JStr ''s''),
           (''observed_revision'', JStr ''7''), (''complete'', JBool True), (''next_cursor'', JNull)]"

lemma sample_page_accepted:
  "parseDriverOperationsPageResult (\<lambda>_. []) (Some sample_page) sample_scope
     = Inr (Some \<lparr>pg_items = [sample_row], pg_snapshot = ''s'', pg_observedRevision = ''7'', pg_complete = True,
                  pg_nextCursor = None\<rparr>)"
proof -
  have "validateCapturedOperationsScope sample_scope = None" by code_simp
  moreover have "parseRow sample_scope (Some (encode_row sample_row)) = Some sample_row"
    by (rule row_encode) code_simp
  moreover have "length (stringify (\<lambda>_. []) sample_page) \<le> 1000" by code_simp
  then have "utf8Bytes (stringify (\<lambda>_. []) sample_page) \<le> maxPageBytes"
    using utf8Bytes_bound [of "stringify (\<lambda>_. []) sample_page"] by (simp add: maxPageBytes_def)
  moreover have "parseObservedRevision ''7'' = Some 7" by code_simp
  moreover have "trim ''s'' = ''s''" by code_simp
  ultimately show ?thesis
    by (simp add: parseDriverOperationsPageResult_def page_body_def sample_page_def parse_next_cursor_def
        maxPageRows_def del: stringify.simps)
qed

theorem accepted_page_is_owned_witness: "valid_row sample_scope sample_row"
  using accepted_page_is_owned [OF sample_page_accepted] by simp

section \<open>Numbers that no accepted page holds\<close>

text \<open>Every object that \<open>JSON.parse\<close> builds has one entry for a key.\<close>

fun json_parsed :: "json \<Rightarrow> bool" where
  "json_parsed (JArr xs) = list_all json_parsed xs"
| "json_parsed (JObj kvs) = (distinct (map fst kvs) \<and> list_all (\<lambda>(k, v). json_parsed v) kvs)"
| "json_parsed _ = True"

fun plain_json :: "json \<Rightarrow> bool" where
  "plain_json (JNum n) = is_safe_integer n"
| "plain_json (JArr xs) = list_all plain_json xs"
| "plain_json (JObj kvs) = list_all (\<lambda>(k, v). plain_json v) kvs"
| "plain_json _ = True"

lemma stringify_plain: "plain_json j \<Longrightarrow> stringify f j = stringify g j"
proof (induction j rule: plain_json.induct)
  case (1 n)
  then show ?case by (cases n) simp_all
next
  case (2 xs)
  then have "map (stringify f) xs = map (stringify g) xs" by (auto simp: list_all_iff)
  then show ?case by (simp only: stringify.simps)
next
  case (3 kvs)
  then have "map (\<lambda>(k, v). json_quote k @ '':'' @ stringify f v) kvs
      = map (\<lambda>(k, v). json_quote k @ '':'' @ stringify g v) kvs"
    by (auto simp: list_all_iff)
  then show ?case by (simp only: stringify.simps)
qed simp_all

lemma plain_object:
  assumes "json_parsed (JObj o')" "only_keys o' ks"
    and "\<And>k x. \<lbrakk>k \<in> set ks; fld o' k = Some x; json_parsed x\<rbrakk> \<Longrightarrow> plain_json x"
  shows "plain_json (JObj o')"
proof -
  have "plain_json v" if "(k, v) \<in> set o'" for k v
    using that assms by (auto simp: only_keys_def list_all_iff fld_def split: prod.splits)
  then show ?thesis by (auto simp: list_all_iff)
qed

lemma plain_goal:
  assumes "parse_row_goal (Some x) = Some g" "json_parsed x"
  shows "plain_json x"
proof (cases "x = JNull")
  case False
  with assms obtain o' h where o': "x = JObj o'" "only_keys o' [''goal_id'', ''task_id'', ''revision'']"
    and h: "goal_fields o' = Some h"
    by (auto simp: parse_row_goal_def absent_or_null_def bind_eq_Some_conv)
  show ?thesis unfolding o'(1)
  proof (rule plain_object)
    show "json_parsed (JObj o')" using assms(2) o'(1) by simp
    show "plain_json y" if "k \<in> set [''goal_id'', ''task_id'', ''revision'']" "fld o' k = Some y" for k y
      using that h by (auto simp: goal_fields_def row_some)
  qed (rule o')
qed simp

lemma plain_acceptance:
  assumes "parseAcceptance scope (Some x) = Some a" "json_parsed x"
  shows "plain_json x"
proof -
  let ?keys = "[''model'', ''model_lane'', ''workspace_root'', ''scoped_goal'', ''adopted_turn_id'',
    ''adopted_session_id'', ''slug'', ''accepted_at_ms'', ''payload_digest'']"
  from assms obtain o' where o': "x = JObj o'" "only_keys o' ?keys"
    and goal: "parse_row_goal (fld o' ''scoped_goal'') = Some (oa_scopedGoal a)"
    and others: "fld o' ''model'' = Some (JStr (oa_model a))" "fld o' ''model_lane'' = Some (JStr (oa_modelLane a))"
      "fld o' ''workspace_root'' = Some (JStr (oa_workspaceRoot a))"
      "fld o' ''adopted_turn_id'' = Some (JStr (oa_adoptedTurnId a))"
      "fld o' ''adopted_session_id'' = Some (JStr (oa_adoptedSessionId a))"
      "fld o' ''slug'' = Some (JStr (oa_slug a))" "fld o' ''payload_digest'' = Some (JStr (oa_payloadDigest a))"
      "fld o' ''accepted_at_ms'' = Some (JNum (JInt (int (oa_acceptedAtMs a))))" "int (oa_acceptedAtMs a) \<le> max_safe"
    by (auto simp: parseAcceptance_def bind_eq_Some_conv non_empty_Some nonneg_int_Some)
  show ?thesis unfolding o'(1)
  proof (rule plain_object)
    show "json_parsed (JObj o')" using assms(2) o'(1) by simp
    show "plain_json y" if "k \<in> set ?keys" "fld o' k = Some y" "json_parsed y" for k y
    proof (cases "k = ''scoped_goal''")
      case True
      with goal that show ?thesis by (auto intro: plain_goal)
    next
      case False
      with others that show ?thesis by auto
    qed
  qed (rule o')
qed

lemma plain_int: "nonneg_int (Some y) = Some n \<Longrightarrow> plain_json y" "opt_value nonneg_int (Some y) = Some w \<Longrightarrow> plain_json y"
  by (auto simp: nonneg_int_Some opt_value_Some)

lemma plain_operation_row:
  assumes "parseRow scope (Some x) = Some r" "json_parsed x"
  shows "plain_json x"
proof -
  let ?keys = "[''operation_id'', ''kind'', ''acceptance'', ''lifecycle'', ''created_at_ms'', ''started_at_ms'',
    ''terminal_at_ms'']"
  from assms obtain o' where o': "x = JObj o'" "only_keys o' ?keys"
    and acceptance: "parseAcceptance scope (fld o' ''acceptance'') = Some (or_acceptance r)"
    and others: "fld o' ''operation_id'' = Some (JStr (or_operationId r))"
      "fld o' ''kind'' = Some (JStr ''peer_dispatch'')" "fld o' ''lifecycle'' = Some (JStr (or_lifecycle r))"
      "nonneg_int (fld o' ''created_at_ms'') = Some (or_createdAtMs r)"
      "opt_value nonneg_int (fld o' ''started_at_ms'') = Some (or_startedAtMs r)"
      "opt_value nonneg_int (fld o' ''terminal_at_ms'') = Some (or_terminalAtMs r)"
    by (auto simp: parseRow_def bind_eq_Some_conv non_empty_Some lifecycle_Some)
  show ?thesis unfolding o'(1)
  proof (rule plain_object)
    show "json_parsed (JObj o')" using assms(2) o'(1) by simp
    show "plain_json y" if "k \<in> set ?keys" "fld o' k = Some y" "json_parsed y" for k y
    proof (cases "k = ''acceptance''")
      case True
      with acceptance that show ?thesis by (auto intro: plain_acceptance)
    next
      case False
      with that(1) have "k = ''operation_id'' \<or> k = ''kind'' \<or> k = ''lifecycle'' \<or> k = ''created_at_ms''
          \<or> k = ''started_at_ms'' \<or> k = ''terminal_at_ms''" by simp
      then show ?thesis
      proof (elim disjE)
        assume "k = ''created_at_ms''"
        with others(4) that(2) show ?thesis by (simp add: plain_int(1))
      next
        assume "k = ''started_at_ms''"
        with others(5) that(2) show ?thesis by (simp add: plain_int(2))
      next
        assume "k = ''terminal_at_ms''"
        with others(6) that(2) show ?thesis by (simp add: plain_int(2))
      qed (use others(1-3) that(2) in auto)
    qed
  qed (rule o')
qed

lemma plain_page:
  assumes "page_body number_text scope (Some x) = Some page" "json_parsed x"
  shows "plain_json x"
proof -
  let ?keys = "[''items'', ''snapshot'', ''observed_revision'', ''complete'', ''next_cursor'']"
  from assms obtain o' items where o': "x = JObj o'" "only_keys o' ?keys"
    and items: "fld o' ''items'' = Some (JArr items)"
    and rows: "map (\<lambda>raw. parseRow scope (Some raw)) items = map Some (pg_items page)"
    and others: "fld o' ''snapshot'' = Some (JStr (pg_snapshot page))"
      "fld o' ''observed_revision'' = Some (JStr (pg_observedRevision page))"
      "fld o' ''complete'' = Some (JBool (pg_complete page))"
      "parse_next_cursor (pg_complete page) (fld o' ''next_cursor'') = Some (pg_nextCursor page)"
    by (auto simp: page_body_def bind_eq_Some_conv those_Some non_empty_Some)
  have each: "\<exists>r. parseRow scope (Some raw) = Some r" if "raw \<in> set items" for raw
  proof -
    from that rows have "parseRow scope (Some raw) \<in> set (map Some (pg_items page))"
      by (metis (no_types, lifting) image_eqI list.set_map)
    then show ?thesis by auto
  qed
  show ?thesis unfolding o'(1)
  proof (rule plain_object)
    show "json_parsed (JObj o')" using assms(2) o'(1) by simp
    show "plain_json y" if "k \<in> set ?keys" "fld o' k = Some y" "json_parsed y" for k y
    proof (cases "k = ''items''")
      case True
      have "plain_json raw" if "raw \<in> set items" "json_parsed raw" for raw
        using each [OF that(1)] plain_operation_row [OF _ that(2)] by blast
      with True items that show ?thesis by (auto simp: list_all_iff)
    next
      case False
      with others that show ?thesis
        by (auto simp: parse_next_cursor_def split: json.splits)
    qed
  qed (rule o')
qed

text \<open>
  So the decoder's answer does not depend on how numbers that are not safe integers are printed.
\<close>

theorem page_number_text:
  assumes "json_parsed x"
  shows "parseDriverOperationsPageResult f (Some x) scope = parseDriverOperationsPageResult g (Some x) scope"
proof -
  have same: "page_body f' scope (Some x) = Some page \<Longrightarrow> page_body g' scope (Some x) = Some page"
    for f' g' page
  proof -
    assume accepted: "page_body f' scope (Some x) = Some page"
    then obtain o' where "x = JObj o'" by (auto simp: page_body_def bind_eq_Some_conv)
    with accepted plain_page [OF accepted assms] stringify_plain [of x f' g'] show ?thesis
      by (simp add: page_body_def bind_eq_Some_conv del: stringify.simps)
  qed
  have "page_body f scope (Some x) = page_body g scope (Some x)"
    using same [of f _ g] same [of g _ f] by (metis option.exhaust)
  then show ?thesis by (simp add: parseDriverOperationsPageResult_def split: option.split)
qed

end
