(* ===== verification/DriverControl.thy ===== *)
theory DriverControl
  imports DriverOperations Interaction
begin

text \<open>
  The driver commands of \<open>packages/client/src/external-driver.ts\<close>: capability gating, the one request a
  command sends, the lease and disclosure decoders, and the accepted dispatch receipt. A command is an
  \<open>exchange\<close>: an error raised before anything is sent, or one method with its parameters and what is
  made of the answer. The parameters are fixed when the request leaves, so nothing the caller changes
  later can reach them or the decoder.
\<close>

section \<open>Views\<close>

datatype driverMode = Internal | External

datatype driverRecovery = RecoveryNone | Interrupted | RecoveryRequired

fun mode_name :: "driverMode \<Rightarrow> string" where
  "mode_name Internal = ''internal''"
| "mode_name External = ''external''"

definition parse_mode :: "unknown \<Rightarrow> driverMode option" where
  "parse_mode v =
     (if v = Some (JStr ''internal'') then Some Internal
      else if v = Some (JStr ''external'') then Some External else None)"

definition parse_recovery :: "unknown \<Rightarrow> driverRecovery option" where
  "parse_recovery v =
     (if v = Some (JStr ''none'') then Some RecoveryNone
      else if v = Some (JStr ''interrupted'') then Some Interrupted
      else if v = Some (JStr ''recovery_required'') then Some RecoveryRequired else None)"

record driverBinding =
  db_driverId :: string
  db_epoch :: nat
  db_revision :: nat
  db_leaseExpiresAtMs :: nat
  db_workspaceRoot :: "string option"
  db_acceptedWork :: "string list"

record driverGetView =
  gv_mode :: driverMode
  gv_binding :: "driverBinding option"
  gv_recovery :: driverRecovery
  gv_operations :: "operationsPage option"

record driverAcquireView =
  av_token :: string
  av_binding :: driverBinding
  av_pendingWork :: "string list"
  av_recovery :: driverRecovery

record driverReleaseView =
  rv_mode :: driverMode
  rv_binding :: "driverBinding option"
  rv_recovery :: driverRecovery

text \<open>A list of non-empty strings that may be absent, read as the empty list.\<close>

definition text_list :: "unknown \<Rightarrow> string list option" where
  "text_list v =
     (case v of
        None \<Rightarrow> Some []
      | Some _ \<Rightarrow> do { xs \<leftarrow> as_array v; those (map (\<lambda>e. non_empty (Some e)) xs) })"

definition decodeBindingView :: "unknown \<Rightarrow> driverBinding option" where
  "decodeBindingView v =
     do {
       o' \<leftarrow> as_record v;
       driverId \<leftarrow> non_empty (fld o' ''driver_id'');
       epoch \<leftarrow> nonneg_int (fld o' ''epoch'');
       revision \<leftarrow> nonneg_int (fld o' ''revision'');
       lease \<leftarrow> nonneg_int (fld o' ''lease_expires_at_ms'');
       root \<leftarrow> opt_value non_empty (fld o' ''workspace_root'');
       work \<leftarrow> text_list (fld o' ''accepted_work'');
       Some \<lparr>db_driverId = driverId, db_epoch = epoch, db_revision = revision,
             db_leaseExpiresAtMs = lease, db_workspaceRoot = root, db_acceptedWork = work\<rparr>
     }"

definition parseSessionDriverGetResult :: "unknown \<Rightarrow> driverGetView option" where
  "parseSessionDriverGetResult v =
     do {
       o' \<leftarrow> as_record v;
       mode \<leftarrow> parse_mode (fld o' ''mode'');
       recovery \<leftarrow> parse_recovery (fld o' ''recovery'');
       if absent_or_null (fld o' ''binding'')
       then do {
         need (mode \<noteq> External);
         Some \<lparr>gv_mode = mode, gv_binding = None, gv_recovery = recovery, gv_operations = None\<rparr>
       }
       else do {
         binding \<leftarrow> decodeBindingView (fld o' ''binding'');
         need (\<not> (mode = Internal \<and> db_leaseExpiresAtMs binding \<noteq> 0));
         Some \<lparr>gv_mode = mode, gv_binding = Some binding, gv_recovery = recovery, gv_operations = None\<rparr>
       }
     }"

definition nextExpectedRevision :: "driverGetView \<Rightarrow> nat" where
  "nextExpectedRevision result = (case gv_binding result of None \<Rightarrow> 0 | Some b \<Rightarrow> db_revision b)"

section \<open>One request per command\<close>

datatype rejection = UiProtocolFailure unknown | OtherFailure

datatype rpcAnswer = RpcReply unknown | RpcRejected rejection

datatype 'a exchange =
    Offline driverError
  | Exchange string fields "rpcAnswer \<Rightarrow> driverError + 'a"

definition typedRefusalKind :: "rejection \<Rightarrow> string option" where
  "typedRefusalKind serverError =
     (case serverError of
        OtherFailure \<Rightarrow> None
      | UiProtocolFailure data \<Rightarrow>
          do {
            o' \<leftarrow> as_record data;
            kind \<leftarrow> as_string (fld o' ''kind'');
            need (kind \<in> set EXTERNAL_DRIVER_REFUSAL_KINDS);
            Some kind
          })"

definition RPC_FAILED :: string where "RPC_FAILED = ''rpc rejected''"

definition rejection_error :: "string \<Rightarrow> rejection \<Rightarrow> driverError" where
  "rejection_error method serverError =
     (case typedRefusalKind serverError of
        Some refusal \<Rightarrow> DriverRefusalError method refusal
      | None \<Rightarrow> DriverProtocolError method RPC_FAILED)"

record controlContext =
  cc_sessionId :: string
  cc_profileId :: string
  cc_topic :: "string option"
  cc_supportedMethods :: "string list"
  cc_featureAdvertised :: bool

definition requireExternalDriverControlCapability :: "controlContext \<Rightarrow> string \<Rightarrow> driverError option" where
  "requireExternalDriverControlCapability context method =
     (if \<not> cc_featureAdvertised context \<or> method \<notin> set (cc_supportedMethods context)
      then Some (DriverCapabilityError method) else None)"

definition requestExternalDriverControl ::
    "controlContext \<Rightarrow> string \<Rightarrow> fields \<Rightarrow> (unknown \<Rightarrow> driverError + 'a) \<Rightarrow> 'a exchange" where
  "requestExternalDriverControl context method params decode =
     (case requireExternalDriverControlCapability context method of
        Some e \<Rightarrow> Offline e
      | None \<Rightarrow>
          Exchange method params
            (\<lambda>answer. case answer of
                        RpcReply raw \<Rightarrow> decode raw
                      | RpcRejected serverError \<Rightarrow> Inl (rejection_error method serverError)))"

text \<open>A gate, checks of the arguments that all fail with one error, then the request.\<close>

definition guarded_request ::
    "controlContext \<Rightarrow> string \<Rightarrow> string \<Rightarrow> (fields \<times> 'e) option
       \<Rightarrow> ('e \<Rightarrow> unknown \<Rightarrow> driverError + 'a) \<Rightarrow> 'a exchange" where
  "guarded_request context method reason args decode =
     (case requireExternalDriverControlCapability context method of
        Some e \<Rightarrow> Offline e
      | None \<Rightarrow>
          (case args of
             None \<Rightarrow> Offline (DriverProtocolError method reason)
           | Some (wire, expected) \<Rightarrow> requestExternalDriverControl context method wire (decode expected)))"

definition malformed :: "string \<Rightarrow> string \<Rightarrow> 'a option \<Rightarrow> driverError + 'a" where
  "malformed method reason v =
     (case v of None \<Rightarrow> Inl (DriverProtocolError method reason) | Some x \<Rightarrow> Inr x)"

section \<open>The factory\<close>

definition decodeExternalDriverCapabilities :: "uiProtocolCapabilities \<Rightarrow> bool \<times> bool \<times> bool" where
  "decodeExternalDriverCapabilities capabilities =
     (let methodAdvertised = SESSION_DRIVER_GET \<in> set (cap_supported_methods capabilities);
          featureAdvertised =
            (case cap_supported_features capabilities of
               None \<Rightarrow> False
             | Some fs \<Rightarrow> EXTERNAL_DRIVER_V1_FEATURE \<in> set fs)
      in (methodAdvertised \<and> featureAdvertised, methodAdvertised, featureAdvertised))"

definition createExternalDriverCommands ::
    "string \<Rightarrow> uiProtocolCapabilities \<Rightarrow> driverScope \<Rightarrow> driverError + controlContext" where
  "createExternalDriverCommands sessionId capabilities scope =
     (case validateCapturedScope sessionId scope of
        Some e \<Rightarrow> Inl e
      | None \<Rightarrow>
          Inr \<lparr>cc_sessionId = sessionId, cc_profileId = ds_profileId scope, cc_topic = ds_topic scope,
               cc_supportedMethods = cap_supported_methods capabilities,
               cc_featureAdvertised = snd (snd (decodeExternalDriverCapabilities capabilities))\<rparr>)"

definition topic_field :: "controlContext \<Rightarrow> fields" where
  "topic_field context = opt_field ''topic'' (map_option JStr (cc_topic context))"

section \<open>\<open>session/driver/get\<close>\<close>

definition INVALID_GET_OPTIONS :: string where "INVALID_GET_OPTIONS = ''invalid driver get options''"
definition INVALID_RESULT :: string where "INVALID_RESULT = ''invalid result payload''"
definition OPERATIONS_UNSUPPORTED :: string where
  "OPERATIONS_UNSUPPORTED = ''requested operations inventory is unsupported by the connected server''"
definition OPERATIONS_RESULT_MALFORMED :: string where
  "OPERATIONS_RESULT_MALFORMED = ''operations result malformed''"

definition get_reply ::
    "(jnum \<Rightarrow> string) \<Rightarrow> controlContext \<Rightarrow> bool \<Rightarrow> unknown \<Rightarrow> driverError + driverGetView" where
  "get_reply number_text context requested raw =
     (case parseSessionDriverGetResult raw of
        None \<Rightarrow> Inl (DriverProtocolError SESSION_DRIVER_GET INVALID_RESULT)
      | Some view \<Rightarrow>
          if \<not> requested then Inr view
          else case classifyDriverGetOperationsResult number_text raw requested
                      \<lparr>os_profileId = cc_profileId context, os_masterSessionId = cc_sessionId context\<rparr> of
                 Inl e \<Rightarrow> Inl e
               | Inr OpsUnsupported \<Rightarrow> Inl (DriverProtocolError SESSION_DRIVER_GET OPERATIONS_UNSUPPORTED)
               | Inr OpsMalformed \<Rightarrow> Inl (DriverProtocolError SESSION_DRIVER_GET OPERATIONS_RESULT_MALFORMED)
               | Inr OpsOmitted \<Rightarrow> Inl (DriverProtocolError SESSION_DRIVER_GET INVALID_RESULT)
               | Inr (OpsPage page) \<Rightarrow> Inr (view\<lparr>gv_operations := Some page\<rparr>))"

text \<open>The gate of \<open>driverGet\<close> is the one of the other commands; \<open>undefined\<close> options are \<open>{}\<close>.\<close>

definition driverGet :: "(jnum \<Rightarrow> string) \<Rightarrow> controlContext \<Rightarrow> unknown \<Rightarrow> driverGetView exchange" where
  "driverGet number_text context rawOptions =
     (if \<not> (SESSION_DRIVER_GET \<in> set (cc_supportedMethods context) \<and> cc_featureAdvertised context)
      then Offline (DriverCapabilityError SESSION_DRIVER_GET)
      else case as_record (case rawOptions of None \<Rightarrow> Some (JObj []) | Some _ \<Rightarrow> rawOptions) of
             None \<Rightarrow> Offline (DriverProtocolError SESSION_DRIVER_GET INVALID_GET_OPTIONS)
           | Some options \<Rightarrow>
               if \<not> only_keys options [''operations'']
               then Offline (DriverProtocolError SESSION_DRIVER_GET INVALID_GET_OPTIONS)
               else case buildDriverOperationsRequest (fld options ''operations'') of
                      Inl code \<Rightarrow> Offline (DriverProtocolError SESSION_DRIVER_GET code)
                    | Inr built \<Rightarrow>
                        Exchange SESSION_DRIVER_GET
                          ((''session_id'', JStr (cc_sessionId context)) # topic_field context
                             @ opt_field ''operations'' (map_option (\<lambda>b. JObj (br_wire b)) built))
                          (\<lambda>answer. case answer of
                             RpcRejected serverError \<Rightarrow> Inl (rejection_error SESSION_DRIVER_GET serverError)
                           | RpcReply raw \<Rightarrow>
                               get_reply number_text context (fld options ''operations'' \<noteq> None) raw))"

section \<open>Leases\<close>

definition parseDriverAcquireResult :: "unknown \<Rightarrow> string \<Rightarrow> driverAcquireView option" where
  "parseDriverAcquireResult reply expectedDriverId =
     do {
       o' \<leftarrow> as_record reply;
       token \<leftarrow> non_empty (fld o' ''control_token'');
       binding \<leftarrow> decodeBindingView (fld o' ''binding'');
       need (db_driverId binding = expectedDriverId);
       recovery \<leftarrow> parse_recovery (fld o' ''recovery'');
       pending \<leftarrow> text_list (fld o' ''pending_work'');
       Some \<lparr>av_token = token, av_binding = binding, av_pendingWork = pending, av_recovery = recovery\<rparr>
     }"

definition parseDriverRenewResult :: "unknown \<Rightarrow> nat option" where
  "parseDriverRenewResult reply = do { o' \<leftarrow> as_record reply; nonneg_int (fld o' ''lease_expires_at_ms'') }"

definition parseDriverReleaseResult :: "unknown \<Rightarrow> driverMode \<Rightarrow> driverReleaseView option" where
  "parseDriverReleaseResult reply requestedNext =
     do {
       o' \<leftarrow> as_record reply;
       mode \<leftarrow> parse_mode (fld o' ''mode'');
       need (mode = requestedNext);
       recovery \<leftarrow> parse_recovery (fld o' ''recovery'');
       if requestedNext = Internal
       then do {
         need (absent_or_null (fld o' ''binding''));
         Some \<lparr>rv_mode = mode, rv_binding = None, rv_recovery = recovery\<rparr>
       }
       else do {
         binding \<leftarrow> decodeBindingView (fld o' ''binding'');
         need (db_leaseExpiresAtMs binding = 0);
         Some \<lparr>rv_mode = mode, rv_binding = Some binding, rv_recovery = recovery\<rparr>
       }
     }"

record leaseFence =
  lf_driverId :: string
  lf_epoch :: nat
  lf_controlToken :: string

definition copyLeaseFence :: "fields \<Rightarrow> leaseFence option" where
  "copyLeaseFence params =
     do {
       driverId \<leftarrow> non_empty (fld params ''driverId'');
       epoch \<leftarrow> nonneg_int (fld params ''epoch'');
       token \<leftarrow> non_empty (fld params ''controlToken'');
       Some \<lparr>lf_driverId = driverId, lf_epoch = epoch, lf_controlToken = token\<rparr>
     }"

definition json_nat :: "nat \<Rightarrow> json" where "json_nat n = JNum (JInt (int n))"

definition fence_fields :: "controlContext \<Rightarrow> leaseFence \<Rightarrow> fields" where
  "fence_fields context fence =
     [(''session_id'', JStr (cc_sessionId context)), (''driver_id'', JStr (lf_driverId fence)),
      (''epoch'', json_nat (lf_epoch fence)), (''control_token'', JStr (lf_controlToken fence))]"

definition runDriverAcquire :: "controlContext \<Rightarrow> unknown \<Rightarrow> driverAcquireView exchange" where
  "runDriverAcquire context params =
     guarded_request context SESSION_DRIVER_ACQUIRE ''invalid driver acquire arguments''
       (do {
          o' \<leftarrow> as_record params;
          need (only_keys o' [''driverId'', ''expectedRevision'', ''leaseSeconds'']);
          driverId \<leftarrow> non_empty (fld o' ''driverId'');
          expected \<leftarrow> nonneg_int (fld o' ''expectedRevision'');
          lease \<leftarrow> nonneg_int (fld o' ''leaseSeconds'');
          Some ([(''session_id'', JStr (cc_sessionId context)), (''driver_id'', JStr driverId),
                 (''expected_revision'', json_nat expected), (''lease_seconds'', json_nat lease)] @ topic_field context,
                driverId)
        })
       (\<lambda>driverId reply. malformed SESSION_DRIVER_ACQUIRE ''driver acquire result malformed''
          (parseDriverAcquireResult reply driverId))"

definition runDriverRenew :: "controlContext \<Rightarrow> unknown \<Rightarrow> nat exchange" where
  "runDriverRenew context params =
     guarded_request context SESSION_DRIVER_RENEW ''invalid driver renew arguments''
       (do {
          o' \<leftarrow> as_record params;
          need (only_keys o' [''driverId'', ''epoch'', ''controlToken'', ''leaseSeconds'']);
          fence \<leftarrow> copyLeaseFence o';
          lease \<leftarrow> nonneg_int (fld o' ''leaseSeconds'');
          Some (fence_fields context fence @ [(''lease_seconds'', json_nat lease)] @ topic_field context, ())
        })
       (\<lambda>_ reply. malformed SESSION_DRIVER_RENEW ''driver renew result malformed'' (parseDriverRenewResult reply))"

definition runDriverRelease :: "controlContext \<Rightarrow> unknown \<Rightarrow> driverReleaseView exchange" where
  "runDriverRelease context params =
     guarded_request context SESSION_DRIVER_RELEASE ''invalid driver release arguments''
       (do {
          o' \<leftarrow> as_record params;
          need (only_keys o' [''driverId'', ''epoch'', ''controlToken'', ''expectedRevision'', ''next'']);
          fence \<leftarrow> copyLeaseFence o';
          expected \<leftarrow> nonneg_int (fld o' ''expectedRevision'');
          mode \<leftarrow> parse_mode (fld o' ''next'');
          Some (fence_fields context fence
                  @ [(''expected_revision'', json_nat expected), (''next'', JStr (mode_name mode))]
                  @ topic_field context, mode)
        })
       (\<lambda>mode reply. malformed SESSION_DRIVER_RELEASE ''driver release result malformed''
          (parseDriverReleaseResult reply mode))"

end
