(* ===== verification/DriverPeer.thy ===== *)
theory DriverPeer
  imports DriverControl
begin

text \<open>
  \<open>peer/dispatch\<close> and \<open>peer/control\<close> (\<open>packages/client/src/external-driver-peer-control.ts\<close>) and the
  acceptance receipt with its retry check (\<open>external-driver.ts\<close>). The theorems: an accepted receipt is
  about the operation, turn and worker that the request named and a worker of the captured master; an
  equal retry is the first receipt up to \<open>duplicate\<close>.
\<close>

section \<open>Requests\<close>

text \<open>The loop over the text items; the array must not be empty.\<close>

definition encode_text_item :: "json \<Rightarrow> json option" where
  "encode_text_item item =
     do {
       o' \<leftarrow> as_record (Some item);
       need (fld o' ''kind'' = Some (JStr ''text''));
       text \<leftarrow> non_empty (fld o' ''text'');
       Some (JObj [(''kind'', JStr ''text''), (''text'', JStr text)])
     }"

definition encodeTextInput :: "unknown \<Rightarrow> json option" where
  "encodeTextInput v =
     do {
       xs \<leftarrow> as_array v;
       need (xs \<noteq> []);
       ys \<leftarrow> those (map encode_text_item xs);
       Some (JArr ys)
     }"

text \<open>The optional properties of type \<open>string\<close> or \<open>boolean\<close>.\<close>

definition opt_bool :: "unknown \<Rightarrow> bool option option" where
  "opt_bool v = opt_value as_bool v"

definition opt_string :: "unknown \<Rightarrow> string option option" where
  "opt_string v = opt_value as_string v"

datatype dispatchTarget = NewBrief string "string option" "bool option" | ExistingSlug string

definition encodeDispatchTarget :: "unknown \<Rightarrow> dispatchTarget option" where
  "encodeDispatchTarget v =
     do {
       o' \<leftarrow> as_record v;
       if fld o' ''kind'' = Some (JStr ''new_brief'')
       then do {
         need (fld o' ''slug'' = None);
         brief \<leftarrow> non_empty (fld o' ''brief'');
         title \<leftarrow> opt_string (fld o' ''title'');
         worktree \<leftarrow> opt_bool (fld o' ''worktree'');
         Some (NewBrief brief title worktree)
       }
       else if fld o' ''kind'' = Some (JStr ''existing_slug'')
       then do {
         need (fld o' ''brief'' = None \<and> fld o' ''title'' = None \<and> fld o' ''worktree'' = None);
         slug \<leftarrow> as_string (fld o' ''slug'');
         need (peerSlugIsSafe (fld o' ''slug''));
         Some (ExistingSlug slug)
       }
       else None
     }"

fun target_wire :: "dispatchTarget \<Rightarrow> json" where
  "target_wire (NewBrief brief title worktree) =
     JObj ([(''kind'', JStr ''new_brief''), (''brief'', JStr brief)]
           @ opt_field ''title'' (map_option JStr title) @ opt_field ''worktree'' (map_option JBool worktree))"
| "target_wire (ExistingSlug slug) = JObj [(''kind'', JStr ''existing_slug''), (''slug'', JStr slug)]"

fun target_slug :: "dispatchTarget \<Rightarrow> string option" where
  "target_slug (ExistingSlug slug) = Some slug"
| "target_slug (NewBrief _ _ _) = None"

definition encode_answer :: "json \<Rightarrow> json option" where
  "encode_answer answer =
     do {
       o' \<leftarrow> as_record (Some answer);
       labels \<leftarrow> opt_value (\<lambda>v. if isStringArray v then as_array v else None) (fld o' ''selectedLabels'');
       freeText \<leftarrow> opt_string (fld o' ''freeText'');
       Some (JObj (opt_field ''selected_labels'' (map_option JArr labels)
                   @ opt_field ''free_text'' (map_option JStr freeText)))
     }"

definition encodeControlCommand :: "unknown \<Rightarrow> json option" where
  "encodeControlCommand v =
     do {
       o' \<leftarrow> as_record v;
       kind \<leftarrow> as_string (fld o' ''kind'');
       if kind = ''approval_respond''
       then do {
         need (only_keys o' [''kind'', ''approvalId'', ''decision'', ''approvalScope'', ''clientNote'']);
         approval \<leftarrow> non_empty (fld o' ''approvalId'');
         decision \<leftarrow> as_string (fld o' ''decision'');
         need (decision = ''approve'' \<or> decision = ''deny'');
         scope \<leftarrow> opt_string (fld o' ''approvalScope'');
         note \<leftarrow> opt_string (fld o' ''clientNote'');
         Some (JObj ([(''kind'', JStr kind), (''approval_id'', JStr approval), (''decision'', JStr decision)]
                     @ opt_field ''approval_scope'' (map_option JStr scope)
                     @ opt_field ''client_note'' (map_option JStr note)))
       }
       else if kind = ''question_respond''
       then do {
         need (only_keys o' [''kind'', ''questionId'', ''answers'', ''clientNote'']);
         question \<leftarrow> non_empty (fld o' ''questionId'');
         raw \<leftarrow> as_array (fld o' ''answers'');
         need (raw \<noteq> []);
         answers \<leftarrow> those (map encode_answer raw);
         note \<leftarrow> opt_string (fld o' ''clientNote'');
         Some (JObj ([(''kind'', JStr kind), (''question_id'', JStr question), (''answers'', JArr answers)]
                     @ opt_field ''client_note'' (map_option JStr note)))
       }
       else if kind = ''steer''
       then do {
         need (only_keys o' [''kind'', ''input'']);
         input \<leftarrow> encodeTextInput (fld o' ''input'');
         Some (JObj [(''kind'', JStr kind), (''input'', input)])
       }
       else if kind = ''interrupt''
       then do {
         need (only_keys o' [''kind'']);
         Some (JObj [(''kind'', JStr kind)])
       }
       else None
     }"

text \<open>The fence of a peer command needs a positive epoch.\<close>

definition validateFence :: "fields \<Rightarrow> leaseFence option" where
  "validateFence o' = do { fence \<leftarrow> copyLeaseFence o'; need (lf_epoch fence > 0); Some fence }"

section \<open>Receipts\<close>

record dispatchReceipt =
  dr_operationId :: string
  dr_model :: string
  dr_modelLane :: string
  dr_workspaceRoot :: string
  dr_scopedGoal :: "driverScopedGoal option"
  dr_adoptedTurnId :: string
  dr_adoptedSessionId :: string
  dr_slug :: string
  dr_duplicate :: bool
  dr_acceptedAtMs :: nat
  dr_payloadDigest :: string

record controlReceipt =
  cr_operationId :: string
  cr_targetOperationId :: string
  cr_expectedTurnId :: string
  cr_targetSessionId :: string
  cr_slug :: string
  cr_acceptedAtMs :: nat
  cr_payloadDigest :: string
  cr_duplicate :: bool

text \<open>
  The goal of a receipt: a malformed one is \<open>null\<close> in \<open>decodeScopedGoal\<close> and its caller then refuses the
  receipt, because the property was there. Unknown keys are ignored here.
\<close>

definition decodeScopedGoal :: "unknown \<Rightarrow> driverScopedGoal option" where
  "decodeScopedGoal v = do { o' \<leftarrow> as_record v; goal_fields o' }"

definition receipt_goal :: "unknown \<Rightarrow> driverScopedGoal option option" where
  "receipt_goal v =
     (let scopedGoal = decodeScopedGoal v
      in if scopedGoal = None \<and> \<not> absent_or_null v then None else Some scopedGoal)"

text \<open>What the two decoders of an acceptance check before their fences.\<close>

definition receipt_fields :: "fields \<Rightarrow> dispatchReceipt option" where
  "receipt_fields o' =
     do {
       need (fld o' ''state'' = Some (JStr ''accepted''));
       duplicate \<leftarrow> as_bool (fld o' ''duplicate'');
       operation \<leftarrow> non_empty (fld o' ''operation_id'');
       model \<leftarrow> non_empty (fld o' ''model'');
       lane \<leftarrow> non_empty (fld o' ''model_lane'');
       root \<leftarrow> non_empty (fld o' ''workspace_root'');
       turn \<leftarrow> as_string (fld o' ''adopted_turn_id'');
       need (isProtocolUuid (fld o' ''adopted_turn_id''));
       session \<leftarrow> non_empty (fld o' ''adopted_session_id'');
       slug \<leftarrow> as_string (fld o' ''slug'');
       need (peerSlugIsSafe (fld o' ''slug''));
       acceptedAt \<leftarrow> nonneg_int (fld o' ''accepted_at_ms'');
       digest \<leftarrow> non_empty (fld o' ''payload_digest'');
       goal \<leftarrow> receipt_goal (fld o' ''scoped_goal'');
       Some \<lparr>dr_operationId = operation, dr_model = model, dr_modelLane = lane, dr_workspaceRoot = root,
             dr_scopedGoal = goal, dr_adoptedTurnId = turn, dr_adoptedSessionId = session, dr_slug = slug,
             dr_duplicate = duplicate, dr_acceptedAtMs = acceptedAt, dr_payloadDigest = digest\<rparr>
     }"

definition belongs_to :: "controlContext \<Rightarrow> string \<Rightarrow> string \<Rightarrow> bool" where
  "belongs_to context session slug =
     workerSessionMatchesCapturedMaster (Some (JStr (cc_sessionId context)))
       (Some (JStr (cc_profileId context))) (Some (JStr session)) (Some (JStr slug))"

record dispatchExpectation =
  dx_operationId :: string
  dx_modelLane :: string
  dx_goal :: "(string \<times> string option) option"
  dx_slug :: "string option"

definition requested_goal_holds :: "(string \<times> string option) option \<Rightarrow> driverScopedGoal option \<Rightarrow> bool" where
  "requested_goal_holds requested actual =
     (case requested of
        None \<Rightarrow> True
      | Some (goalId, taskId) \<Rightarrow>
          (case actual of
             None \<Rightarrow> False
           | Some g \<Rightarrow> sg_goalId g = goalId \<and> (taskId \<noteq> None \<longrightarrow> sg_taskId g = taskId)))"

definition decodePeerDispatchReceipt ::
    "unknown \<Rightarrow> controlContext \<Rightarrow> dispatchExpectation \<Rightarrow> dispatchReceipt option" where
  "decodePeerDispatchReceipt v context request =
     do {
       o' \<leftarrow> as_record v;
       r \<leftarrow> receipt_fields o';
       need (dr_operationId r = dx_operationId request);
       need (dr_modelLane r = dx_modelLane request);
       need (requested_goal_holds (dx_goal request) (dr_scopedGoal r));
       need (dx_slug request \<noteq> None \<longrightarrow> dx_slug request = Some (dr_slug r));
       need (belongs_to context (dr_adoptedSessionId r) (dr_slug r)
             \<and> adoptedIdentityIsNativeShared (fld o' ''adopted_turn_id'') (fld o' ''adopted_session_id'')
                 (fld o' ''slug''));
       Some r
     }"

definition CONTROL_RESULT_KEYS :: "string list" where
  "CONTROL_RESULT_KEYS =
     [''operation_id'', ''state'', ''target_operation_id'', ''expected_turn_id'', ''target_session_id'', ''slug'',
      ''accepted_at_ms'', ''payload_digest'', ''duplicate'']"

record controlExpectation =
  cx_operationId :: string
  cx_targetOperationId :: string
  cx_expectedTurnId :: string

definition accepted_control ::
    "fields \<Rightarrow> controlContext \<Rightarrow> controlExpectation \<Rightarrow> controlReceipt option" where
  "accepted_control o' context request =
     do {
       need (fld o' ''state'' = Some (JStr ''accepted''));
       duplicate \<leftarrow> as_bool (fld o' ''duplicate'');
       operation \<leftarrow> non_empty (fld o' ''operation_id'');
       target \<leftarrow> non_empty (fld o' ''target_operation_id'');
       turn \<leftarrow> as_string (fld o' ''expected_turn_id'');
       need (isProtocolUuid (fld o' ''expected_turn_id''));
       session \<leftarrow> non_empty (fld o' ''target_session_id'');
       slug \<leftarrow> as_string (fld o' ''slug'');
       need (peerSlugIsSafe (fld o' ''slug''));
       acceptedAt \<leftarrow> nonneg_int (fld o' ''accepted_at_ms'');
       digest \<leftarrow> non_empty (fld o' ''payload_digest'');
       need (operation = cx_operationId request);
       need (target = cx_targetOperationId request);
       need (turn = cx_expectedTurnId request);
       need (belongs_to context session slug
             \<and> adoptedIdentityIsNativeShared (fld o' ''expected_turn_id'') (fld o' ''target_session_id'')
                 (fld o' ''slug''));
       Some \<lparr>cr_operationId = operation, cr_targetOperationId = target, cr_expectedTurnId = turn,
             cr_targetSessionId = session, cr_slug = slug, cr_acceptedAtMs = acceptedAt,
             cr_payloadDigest = digest, cr_duplicate = duplicate\<rparr>
     }"

text \<open>A refusal is thrown as such; everything else that is not accepted is malformed.\<close>

definition decodePeerControlReceipt ::
    "unknown \<Rightarrow> controlContext \<Rightarrow> controlExpectation \<Rightarrow> driverError + controlReceipt option" where
  "decodePeerControlReceipt v context request =
     (case as_record v of
        None \<Rightarrow> Inr None
      | Some o' \<Rightarrow>
          if \<not> only_keys o' CONTROL_RESULT_KEYS then Inr None
          else if fld o' ''state'' = Some (JStr ''refused'')
          then Inl (DriverRefusalError PEER_CONTROL ''peer_control_refused'')
          else Inr (accepted_control o' context request))"

section \<open>Commands\<close>

definition DISPATCH_REQUEST_KEYS :: "string list" where
  "DISPATCH_REQUEST_KEYS =
     [''driverId'', ''epoch'', ''controlToken'', ''operationId'', ''model'', ''dispatch'', ''kickoffInput'',
      ''goalId'', ''taskId'']"

definition CONTROL_REQUEST_KEYS :: "string list" where
  "CONTROL_REQUEST_KEYS =
     [''driverId'', ''epoch'', ''controlToken'', ''operationId'', ''targetOperationId'', ''expectedTurnId'',
      ''command'']"

definition dispatch_request :: "controlContext \<Rightarrow> unknown \<Rightarrow> (fields \<times> dispatchExpectation) option" where
  "dispatch_request context rawArgs =
     do {
       o' \<leftarrow> as_record rawArgs;
       need (only_keys o' DISPATCH_REQUEST_KEYS);
       fence \<leftarrow> validateFence o';
       operation \<leftarrow> non_empty (fld o' ''operationId'');
       model \<leftarrow> non_empty (fld o' ''model'');
       target \<leftarrow> encodeDispatchTarget (fld o' ''dispatch'');
       kickoff \<leftarrow> opt_value encodeTextInput (fld o' ''kickoffInput'');
       need (\<not> (target_slug target \<noteq> None \<and> kickoff = None));
       goalId \<leftarrow> opt_value non_empty (fld o' ''goalId'');
       taskId \<leftarrow> opt_value non_empty (fld o' ''taskId'');
       Some (fence_fields context fence
               @ [(''operation_id'', JStr operation), (''model'', JStr model), (''dispatch'', target_wire target)]
               @ topic_field context @ opt_field ''kickoff_input'' kickoff
               @ opt_field ''goal_id'' (map_option JStr goalId) @ opt_field ''task_id'' (map_option JStr taskId),
             \<lparr>dx_operationId = operation, dx_modelLane = model,
              dx_goal = map_option (\<lambda>g. (g, taskId)) goalId, dx_slug = target_slug target\<rparr>)
     }"

definition peerDispatch :: "controlContext \<Rightarrow> unknown \<Rightarrow> dispatchReceipt exchange" where
  "peerDispatch context rawArgs =
     guarded_request context PEER_DISPATCH ''invalid peer dispatch arguments'' (dispatch_request context rawArgs)
       (\<lambda>expected raw. malformed PEER_DISPATCH ''peer dispatch receipt malformed''
          (decodePeerDispatchReceipt raw context expected))"

definition control_request :: "controlContext \<Rightarrow> unknown \<Rightarrow> (fields \<times> controlExpectation) option" where
  "control_request context rawArgs =
     do {
       o' \<leftarrow> as_record rawArgs;
       need (only_keys o' CONTROL_REQUEST_KEYS);
       fence \<leftarrow> validateFence o';
       operation \<leftarrow> non_empty (fld o' ''operationId'');
       target \<leftarrow> non_empty (fld o' ''targetOperationId'');
       turn \<leftarrow> as_string (fld o' ''expectedTurnId'');
       need (isProtocolUuid (fld o' ''expectedTurnId''));
       command \<leftarrow> encodeControlCommand (fld o' ''command'');
       Some (fence_fields context fence
               @ [(''operation_id'', JStr operation), (''target_operation_id'', JStr target),
                  (''expected_turn_id'', JStr turn), (''command'', command)] @ topic_field context,
             \<lparr>cx_operationId = operation, cx_targetOperationId = target, cx_expectedTurnId = turn\<rparr>)
     }"

definition control_reply ::
    "controlContext \<Rightarrow> controlExpectation \<Rightarrow> unknown \<Rightarrow> driverError + controlReceipt" where
  "control_reply context expected raw =
     (case decodePeerControlReceipt raw context expected of
        Inl e \<Rightarrow> Inl e
      | Inr receipt \<Rightarrow> malformed PEER_CONTROL ''peer control receipt malformed'' receipt)"

definition peerControl :: "controlContext \<Rightarrow> unknown \<Rightarrow> controlReceipt exchange" where
  "peerControl context rawArgs =
     guarded_request context PEER_CONTROL ''invalid peer control arguments'' (control_request context rawArgs)
       (control_reply context)"

section \<open>The acceptance receipt (\<open>external-driver.ts\<close>)\<close>

text \<open>
  Optional expectations: \<open>None\<close> imposes no fence; a goal expectation of \<open>Some None\<close> is the explicit
  absence of a goal. The third kind of target is excluded by the type.
\<close>

datatype receiptTarget = TargetNew "string option" | TargetExisting string string

record receiptExpectation =
  rx_operationId :: string
  rx_model :: string
  rx_modelLane :: "string option"
  rx_workspaceRoot :: string
  rx_profileId :: string
  rx_masterSessionId :: string
  rx_scopedGoal :: "driverScopedGoal option option"
  rx_target :: receiptTarget

definition text_ok :: "string \<Rightarrow> bool" where
  "text_ok s = isNonEmptyString (Some (JStr s))"

definition goal_expectation_ok :: "driverScopedGoal \<Rightarrow> bool" where
  "goal_expectation_ok g \<longleftrightarrow>
     text_ok (sg_goalId g) \<and> (case sg_taskId g of None \<Rightarrow> True | Some t \<Rightarrow> text_ok t)
     \<and> (case sg_revision g of None \<Rightarrow> True | Some n \<Rightarrow> isNonNegativeInteger (Some (json_nat n)))"

definition target_ok :: "string \<Rightarrow> receiptTarget \<Rightarrow> bool" where
  "target_ok masterBase target =
     (case target of
        TargetExisting slug sessionId \<Rightarrow> slug_is_safe slug \<and> sessionId = peer_session masterBase slug
      | TargetNew topic \<Rightarrow> (case topic of None \<Rightarrow> True | Some t \<Rightarrow> isValidPeerTopic (Some (JStr t))))"

definition validateExpectationShape :: "receiptExpectation \<Rightarrow> driverError option" where
  "validateExpectationShape expectation =
     (if text_ok (rx_operationId expectation) \<and> text_ok (rx_model expectation)
         \<and> (case rx_modelLane expectation of None \<Rightarrow> True | Some l \<Rightarrow> text_ok l)
         \<and> text_ok (rx_workspaceRoot expectation)
         \<and> isValidProfileId (Some (JStr (rx_profileId expectation)))
         \<and> (case masterWireBase (rx_masterSessionId expectation) (rx_profileId expectation) of
              None \<Rightarrow> False
            | Some base \<Rightarrow>
                (case rx_scopedGoal expectation of Some (Some g) \<Rightarrow> goal_expectation_ok g | _ \<Rightarrow> True)
                \<and> target_ok base (rx_target expectation))
      then None else Some (DriverProtocolError PEER_DISPATCH ''invalid receipt expectation''))"

definition scopedGoalFenceHolds :: "driverScopedGoal \<Rightarrow> driverScopedGoal \<Rightarrow> bool" where
  "scopedGoalFenceHolds expected actual =
     (if sg_goalId expected \<noteq> sg_goalId actual then False
      else if sg_taskId expected \<noteq> None \<and> sg_taskId expected \<noteq> sg_taskId actual then False
      else if sg_revision expected \<noteq> None \<and> sg_revision expected \<noteq> sg_revision actual then False
      else True)"

definition goal_fence :: "driverScopedGoal option option \<Rightarrow> driverScopedGoal option \<Rightarrow> bool" where
  "goal_fence expected actual =
     (case expected of
        None \<Rightarrow> True
      | Some None \<Rightarrow> actual = None
      | Some (Some g) \<Rightarrow> (case actual of None \<Rightarrow> False | Some a \<Rightarrow> scopedGoalFenceHolds g a))"

definition target_fence :: "receiptTarget \<Rightarrow> string \<Rightarrow> string \<Rightarrow> bool" where
  "target_fence target slug session =
     (case target of
        TargetExisting s sessionId \<Rightarrow> slug = s \<and> session = sessionId
      | TargetNew topic \<Rightarrow> (case topic of None \<Rightarrow> True | Some t \<Rightarrow> slug = drop 5 t))"

definition parsePeerDispatchReceipt ::
    "unknown \<Rightarrow> receiptExpectation \<Rightarrow> driverError + dispatchReceipt option" where
  "parsePeerDispatchReceipt v expectation =
     (case validateExpectationShape expectation of
        Some e \<Rightarrow> Inl e
      | None \<Rightarrow>
          Inr (do {
            o' \<leftarrow> as_record v;
            r \<leftarrow> receipt_fields o';
            need (dr_operationId r = rx_operationId expectation);
            need (dr_model r = rx_model expectation);
            need (rx_modelLane expectation \<noteq> None \<longrightarrow> rx_modelLane expectation = Some (dr_modelLane r));
            need (dr_workspaceRoot r = rx_workspaceRoot expectation);
            need (goal_fence (rx_scopedGoal expectation) (dr_scopedGoal r));
            need (workerSessionMatchesCapturedMaster (Some (JStr (rx_masterSessionId expectation)))
                    (Some (JStr (rx_profileId expectation))) (fld o' ''adopted_session_id'') (fld o' ''slug''));
            need (target_fence (rx_target expectation) (dr_slug r) (dr_adoptedSessionId r));
            Some r
          }))"

text \<open>
  \<open>None\<close> is \<open>ok\<close>, otherwise the first field that differs. Goals are compared property by property, which
  is equality of the records.
\<close>

definition checkDispatchRetryIdentity :: "dispatchReceipt \<Rightarrow> dispatchReceipt \<Rightarrow> string option" where
  "checkDispatchRetryIdentity first retry =
     first_some (\<lambda>(field, equal). if equal then None else Some field)
       [(''operationId'', dr_operationId retry = dr_operationId first),
        (''model'', dr_model retry = dr_model first),
        (''modelLane'', dr_modelLane retry = dr_modelLane first),
        (''workspaceRoot'', dr_workspaceRoot retry = dr_workspaceRoot first),
        (''scopedGoal'', dr_scopedGoal first = dr_scopedGoal retry),
        (''adoptedTurnId'', dr_adoptedTurnId retry = dr_adoptedTurnId first),
        (''adoptedSessionId'', dr_adoptedSessionId retry = dr_adoptedSessionId first),
        (''slug'', dr_slug retry = dr_slug first),
        (''acceptedAtMs'', dr_acceptedAtMs retry = dr_acceptedAtMs first),
        (''payloadDigest'', dr_payloadDigest retry = dr_payloadDigest first)]"

section \<open>What a command sends and returns\<close>

fun sent :: "'a exchange \<Rightarrow> (string \<times> fields) option" where
  "sent (Offline e) = None"
| "sent (Exchange method params _) = Some (method, params)"

fun answered :: "'a exchange \<Rightarrow> rpcAnswer \<Rightarrow> driverError + 'a" where
  "answered (Offline e) _ = Inl e"
| "answered (Exchange _ _ k) answer = k answer"

text \<open>Case analysis for a command: the gate, the arguments, the request.\<close>

lemma guarded_request_sent:
  "sent (guarded_request context method reason args decode) = Some (m, params) \<longleftrightarrow>
     requireExternalDriverControlCapability context method = None \<and> m = method
     \<and> (\<exists>expected. args = Some (params, expected))"
  by (auto simp: guarded_request_def requestExternalDriverControl_def split: option.splits)

lemma guarded_request_answered:
  "answered (guarded_request context method reason args decode) answer = Inr x \<Longrightarrow>
     \<exists>params expected raw. sent (guarded_request context method reason args decode) = Some (method, params)
       \<and> answer = RpcReply raw \<and> args = Some (params, expected) \<and> decode expected raw = Inr x"
  by (cases answer) (auto simp: guarded_request_def requestExternalDriverControl_def split: option.splits)

lemma malformed_Inr [simp]: "malformed m reason v = Inr x \<longleftrightarrow> v = Some x"
  by (auto simp: malformed_def split: option.splits)

section \<open>Receipts are fenced\<close>

lemma belongs_to_session:
  "belongs_to context session slug \<longleftrightarrow>
     (\<exists>base. masterWireBase (cc_sessionId context) (cc_profileId context) = Some base \<and> slug_is_safe slug
        \<and> session = peer_session base slug)"
  by (auto simp: belongs_to_def workerSession_Some)

text \<open>
  an accepted control receipt is about the operation, the target operation and the turn that the
  request carries, and about a worker of the captured master.
\<close>
theorem control_receipt_is_fenced:
  assumes "answered (peerControl context args) answer = Inr r"
  shows "\<exists>params base. sent (peerControl context args) = Some (PEER_CONTROL, params)
    \<and> fld params ''operation_id'' = Some (JStr (cr_operationId r))
    \<and> fld params ''target_operation_id'' = Some (JStr (cr_targetOperationId r))
    \<and> fld params ''expected_turn_id'' = Some (JStr (cr_expectedTurnId r))
    \<and> masterWireBase (cc_sessionId context) (cc_profileId context) = Some base
    \<and> cr_targetSessionId r = peer_session base (cr_slug r)"
proof -
  from guarded_request_answered [OF assms [unfolded peerControl_def]] obtain params x raw
    where wire: "sent (peerControl context args) = Some (PEER_CONTROL, params)"
      and request: "control_request context args = Some (params, x)"
      and reply: "control_reply context x raw = Inr r" unfolding peerControl_def by blast
  from request have params: "fld params ''operation_id'' = Some (JStr (cx_operationId x))"
      "fld params ''target_operation_id'' = Some (JStr (cx_targetOperationId x))"
      "fld params ''expected_turn_id'' = Some (JStr (cx_expectedTurnId x))"
    by (auto simp: control_request_def bind_eq_Some_conv fence_fields_def)
  from reply obtain o' where "accepted_control o' context x = Some r"
    by (auto simp: control_reply_def decodePeerControlReceipt_def split: sum.splits option.splits if_splits)
  then have "cr_operationId r = cx_operationId x" "cr_targetOperationId r = cx_targetOperationId x"
      "cr_expectedTurnId r = cx_expectedTurnId x" "belongs_to context (cr_targetSessionId r) (cr_slug r)"
    by (auto simp: accepted_control_def bind_eq_Some_conv)
  with wire params show ?thesis by (auto simp: belongs_to_session)
qed

text \<open>
  an accepted dispatch receipt is about the operation and the model lane of the request, about the
  requested worker where there is one, and about a worker of the captured master.
\<close>
theorem dispatch_receipt_is_fenced:
  assumes "answered (peerDispatch context args) answer = Inr r"
  shows "\<exists>params base. sent (peerDispatch context args) = Some (PEER_DISPATCH, params)
    \<and> fld params ''operation_id'' = Some (JStr (dr_operationId r))
    \<and> fld params ''model'' = Some (JStr (dr_modelLane r))
    \<and> (\<forall>slug. fld params ''dispatch'' = Some (target_wire (ExistingSlug slug)) \<longrightarrow> dr_slug r = slug)
    \<and> (\<forall>g. fld params ''goal_id'' = Some (JStr g) \<longrightarrow>
          (\<exists>goal. dr_scopedGoal r = Some goal \<and> sg_goalId goal = g))
    \<and> masterWireBase (cc_sessionId context) (cc_profileId context) = Some base
    \<and> dr_adoptedSessionId r = peer_session base (dr_slug r)"
proof -
  from guarded_request_answered [OF assms [unfolded peerDispatch_def]] obtain params x raw
    where wire: "sent (peerDispatch context args) = Some (PEER_DISPATCH, params)"
      and request: "dispatch_request context args = Some (params, x)"
      and reply: "decodePeerDispatchReceipt raw context x = Some r" unfolding peerDispatch_def by auto
  from request obtain target goalId taskId where
      params: "fld params ''operation_id'' = Some (JStr (dx_operationId x))"
        "fld params ''model'' = Some (JStr (dx_modelLane x))" "fld params ''dispatch'' = Some (target_wire target)"
        "fld params ''goal_id'' = map_option JStr goalId"
      and x: "dx_slug x = target_slug target" "dx_goal x = map_option (\<lambda>g. (g, taskId)) goalId"
    by (auto simp: dispatch_request_def bind_eq_Some_conv fence_fields_def topic_field_def)
  have slug: "target_slug target = Some slug" if "target_wire target = target_wire (ExistingSlug slug)" for slug
    using that by (cases target) auto
  from reply have "dr_operationId r = dx_operationId x" "dr_modelLane r = dx_modelLane x"
      "requested_goal_holds (dx_goal x) (dr_scopedGoal r)" "dx_slug x \<noteq> None \<longrightarrow> dx_slug x = Some (dr_slug r)"
      "belongs_to context (dr_adoptedSessionId r) (dr_slug r)"
    by (auto simp: decodePeerDispatchReceipt_def bind_eq_Some_conv)
  with wire params x slug show ?thesis
    by (auto simp: belongs_to_session requested_goal_holds_def split: option.splits)
qed

text \<open>
  a retry is identical exactly when it is the first receipt up to \<open>duplicate\<close>.
\<close>
theorem retry_differs_only_in_duplicate:
  "checkDispatchRetryIdentity first retry = None \<longleftrightarrow> retry = first\<lparr>dr_duplicate := dr_duplicate retry\<rparr>"
  by (cases first; cases retry) (auto simp: checkDispatchRetryIdentity_def)

section \<open>A dispatch and a control, evaluated\<close>

definition sample_context :: controlContext where
  "sample_context =
     \<lparr>cc_sessionId = ''dev:local:tui#coding'', cc_profileId = ''dev'', cc_topic = Some ''coding'',
      cc_supportedMethods = [PEER_DISPATCH, PEER_CONTROL], cc_featureAdvertised = True\<rparr>"

definition nil_uuid :: string where
  "nil_uuid = ''00000000-0000-0000-0000-000000000000''"

definition sample_fence :: fields where
  "sample_fence = [(''driverId'', JStr ''d''), (''epoch'', json_nat 3), (''controlToken'', JStr ''token'')]"

definition sample_dispatch :: json where
  "sample_dispatch =
     JObj (sample_fence @ [(''operationId'', JStr ''op''), (''model'', JStr ''lane''),
       (''dispatch'', target_wire (ExistingSlug ''a'')),
       (''kickoffInput'', JArr [JObj [(''kind'', JStr ''text''), (''text'', JStr ''go'')]]),
       (''taskId'', JStr ''task-1'')])"

definition sample_acceptance :: fields where
  "sample_acceptance =
     [(''operation_id'', JStr ''op''), (''state'', JStr ''accepted''), (''model'', JStr ''m''),
      (''model_lane'', JStr ''lane''), (''workspace_root'', JStr ''/w''), (''adopted_turn_id'', JStr nil_uuid),
      (''adopted_session_id'', JStr ''dev:local:tui#peer-a''), (''slug'', JStr ''a''), (''duplicate'', JBool False),
      (''accepted_at_ms'', json_nat 5), (''payload_digest'', JStr ''x''),
      (''scoped_goal'', JObj [(''goal_id'', JStr ''g''), (''task_id'', JStr ''task-2'')])]"

definition sample_dispatch_receipt :: dispatchReceipt where
  "sample_dispatch_receipt =
     \<lparr>dr_operationId = ''op'', dr_model = ''m'', dr_modelLane = ''lane'', dr_workspaceRoot = ''/w'',
      dr_scopedGoal = Some \<lparr>sg_goalId = ''g'', sg_taskId = Some ''task-2'', sg_revision = None\<rparr>,
      dr_adoptedTurnId = nil_uuid, dr_adoptedSessionId = ''dev:local:tui#peer-a'', dr_slug = ''a'',
      dr_duplicate = False, dr_acceptedAtMs = 5, dr_payloadDigest = ''x''\<rparr>"

text \<open>The request names task \<open>task-1\<close> and no goal; the acceptance of task \<open>task-2\<close> is taken.\<close>

lemma task_without_goal_not_fenced:
  "answered (peerDispatch sample_context (Some sample_dispatch)) (RpcReply (Some (JObj sample_acceptance)))
     = Inr sample_dispatch_receipt"
  by code_simp

theorem dispatch_receipt_is_fenced_witness:
  "\<exists>base. masterWireBase ''dev:local:tui#coding'' ''dev'' = Some base
     \<and> ''dev:local:tui#peer-a'' = peer_session base ''a''"
  using dispatch_receipt_is_fenced [OF task_without_goal_not_fenced]
  by (auto simp: sample_context_def sample_dispatch_receipt_def)

definition sample_control :: json where
  "sample_control =
     JObj (sample_fence @ [(''operationId'', JStr ''op-2''), (''targetOperationId'', JStr ''op''),
       (''expectedTurnId'', JStr nil_uuid), (''command'', JObj [(''kind'', JStr ''interrupt'')])])"

definition sample_control_reply :: json where
  "sample_control_reply =
     JObj [(''operation_id'', JStr ''op-2''), (''state'', JStr ''accepted''), (''target_operation_id'', JStr ''op''),
       (''expected_turn_id'', JStr nil_uuid), (''target_session_id'', JStr ''dev:local:tui#peer-a''),
       (''slug'', JStr ''a''), (''accepted_at_ms'', json_nat 6), (''payload_digest'', JStr ''y''),
       (''duplicate'', JBool False)]"

definition sample_control_receipt :: controlReceipt where
  "sample_control_receipt =
     \<lparr>cr_operationId = ''op-2'', cr_targetOperationId = ''op'', cr_expectedTurnId = nil_uuid,
      cr_targetSessionId = ''dev:local:tui#peer-a'', cr_slug = ''a'', cr_acceptedAtMs = 6,
      cr_payloadDigest = ''y'', cr_duplicate = False\<rparr>"

lemma sample_control_accepted:
  "answered (peerControl sample_context (Some sample_control)) (RpcReply (Some sample_control_reply))
     = Inr sample_control_receipt"
  by code_simp

theorem control_receipt_is_fenced_witness:
  "\<exists>params. sent (peerControl sample_context (Some sample_control)) = Some (PEER_CONTROL, params)
     \<and> fld params ''expected_turn_id'' = Some (JStr nil_uuid)"
  using control_receipt_is_fenced [OF sample_control_accepted]
  by (auto simp: sample_control_receipt_def)

end
