(* ===== verification/DriverWake.thy ===== *)
theory DriverWake
  imports DriverPeer
begin

text \<open>
  Wake control (\<open>packages/client/src/external-driver-wake-control.ts\<close>) and, over all eight commands of a
  driver handle, what can reach the wire and which errors a caller can see. The handle sends for its
  captured Session only, after the capability gate and with the caller's own fence, and an error never
  carries anything of the server's answer beyond an allowlisted constant.
\<close>

section \<open>Occurrences\<close>

text \<open>
  The module takes \<open>isNonEmptyString\<close>, \<open>isU32\<close> and \<open>isU64\<close> from \<open>supervision-primitives.ts\<close>, where a text of
  blanks is not empty.
\<close>

definition some_text :: "unknown \<Rightarrow> string option" where
  "some_text v = (case as_string v of None \<Rightarrow> None | Some s \<Rightarrow> if length s > 0 then Some s else None)"

definition u32 :: "unknown \<Rightarrow> nat option" where
  "u32 v = (case v of
              Some (JNum (JInt i)) \<Rightarrow> if 0 \<le> i \<and> i \<le> 4294967295 then Some (nat i) else None
            | _ \<Rightarrow> None)"

definition u64 :: "unknown \<Rightarrow> nat option" where
  "u64 v = nonneg_int v"

text \<open>A decoded value has no cycle; what cannot be cloned is an infinite number.\<close>

fun cloneJsonValue :: "json \<Rightarrow> json option" where
  "cloneJsonValue (JNum n) = (case n of JInf _ \<Rightarrow> None | _ \<Rightarrow> Some (JNum n))"
| "cloneJsonValue (JArr xs) = map_option JArr (those (map cloneJsonValue xs))"
| "cloneJsonValue (JObj kvs) =
     map_option JObj (those (map (\<lambda>(k, v). map_option (Pair k) (cloneJsonValue v)) kvs))"
| "cloneJsonValue v = Some v"

datatype wakeContent = WakePayload json | WakeContinuation string

record wakeOccurrence =
  wo_sequence :: nat
  wo_reasonKind :: string
  wo_dedupeKey :: string
  wo_content :: wakeContent
  wo_payloadDigest :: string
  wo_createdAtMs :: nat

record wakeClaimView =
  wc_occurrences :: "wakeOccurrence list"
  wc_claimToken :: string
  wc_nextCursor :: string
  wc_leaseExpiresAtMs :: nat

text \<open>Exactly one of \<open>payload\<close> and \<open>continuation_ref\<close> must be there; \<open>null\<close> is absent.\<close>

definition wake_content :: "unknown \<Rightarrow> unknown \<Rightarrow> wakeContent option" where
  "wake_content payload continuation =
     (case (absent_or_null payload, absent_or_null continuation) of
        (False, True) \<Rightarrow> do { p \<leftarrow> payload; c \<leftarrow> cloneJsonValue p; Some (WakePayload c) }
      | (True, False) \<Rightarrow> map_option WakeContinuation (some_text continuation)
      | _ \<Rightarrow> None)"

definition decodeOccurrence :: "unknown \<Rightarrow> wakeOccurrence option" where
  "decodeOccurrence v =
     do {
       o' \<leftarrow> as_record v;
       s \<leftarrow> u64 (fld o' ''sequence'');
       reason \<leftarrow> some_text (fld o' ''reason_kind'');
       dedupe \<leftarrow> some_text (fld o' ''dedupe_key'');
       digest \<leftarrow> some_text (fld o' ''payload_digest'');
       created \<leftarrow> u64 (fld o' ''created_at_ms'');
       content \<leftarrow> wake_content (fld o' ''payload'') (fld o' ''continuation_ref'');
       Some \<lparr>wo_sequence = s, wo_reasonKind = reason, wo_dedupeKey = dedupe, wo_content = content,
             wo_payloadDigest = digest, wo_createdAtMs = created\<rparr>
     }"

definition parseExternalDriverWakeClaimResult :: "unknown \<Rightarrow> wakeClaimView option" where
  "parseExternalDriverWakeClaimResult reply =
     do {
       o' \<leftarrow> as_record reply;
       raw \<leftarrow> as_array (fld o' ''occurrences'');
       occurrences \<leftarrow> those (map (\<lambda>e. decodeOccurrence (Some e)) raw);
       token \<leftarrow> some_text (fld o' ''claim_token'');
       cursor \<leftarrow> some_text (fld o' ''next_cursor'');
       lease \<leftarrow> u64 (fld o' ''lease_expires_at_ms'');
       Some \<lparr>wc_occurrences = occurrences, wc_claimToken = token, wc_nextCursor = cursor,
             wc_leaseExpiresAtMs = lease\<rparr>
     }"

definition parseExternalDriverWakeAckResult :: "unknown \<Rightarrow> nat list option" where
  "parseExternalDriverWakeAckResult reply =
     do {
       o' \<leftarrow> as_record reply;
       raw \<leftarrow> as_array (fld o' ''acknowledged'');
       those (map (\<lambda>e. u64 (Some e)) raw)
     }"

section \<open>Claim and acknowledgement\<close>

definition copyWakeFence :: "fields \<Rightarrow> leaseFence option" where
  "copyWakeFence params =
     do {
       driverId \<leftarrow> some_text (fld params ''driverId'');
       epoch \<leftarrow> u64 (fld params ''epoch'');
       token \<leftarrow> some_text (fld params ''controlToken'');
       Some \<lparr>lf_driverId = driverId, lf_epoch = epoch, lf_controlToken = token\<rparr>
     }"

definition claim_request :: "controlContext \<Rightarrow> unknown \<Rightarrow> (fields \<times> unit) option" where
  "claim_request context params =
     do {
       o' \<leftarrow> as_record params;
       need (only_keys o' [''driverId'', ''epoch'', ''controlToken'', ''mailboxCursor'', ''limit'', ''ttlSeconds'']);
       fence \<leftarrow> copyWakeFence o';
       cursor \<leftarrow> opt_value some_text (fld o' ''mailboxCursor'');
       limit \<leftarrow> opt_value u32 (fld o' ''limit'');
       ttl \<leftarrow> opt_value u32 (fld o' ''ttlSeconds'');
       Some (fence_fields context fence @ topic_field context
               @ opt_field ''mailbox_cursor'' (map_option JStr cursor)
               @ opt_field ''limit'' (map_option json_nat limit)
               @ opt_field ''ttl_seconds'' (map_option json_nat ttl), ())
     }"

definition runWakeClaim :: "controlContext \<Rightarrow> unknown \<Rightarrow> wakeClaimView exchange" where
  "runWakeClaim context params =
     guarded_request context SESSION_WAKE_CLAIM ''invalid wake claim parameters'' (claim_request context params)
       (\<lambda>_ reply. malformed SESSION_WAKE_CLAIM ''wake claim result malformed''
          (parseExternalDriverWakeClaimResult reply))"

definition ack_request :: "controlContext \<Rightarrow> unknown \<Rightarrow> (fields \<times> unit) option" where
  "ack_request context params =
     do {
       o' \<leftarrow> as_record params;
       need (only_keys o' [''driverId'', ''epoch'', ''controlToken'', ''claimToken'', ''sequences'', ''operationIds'']);
       fence \<leftarrow> copyWakeFence o';
       token \<leftarrow> some_text (fld o' ''claimToken'');
       raw \<leftarrow> as_array (fld o' ''sequences'');
       need (length raw \<noteq> 0);
       sequences \<leftarrow> those (map (\<lambda>e. u64 (Some e)) raw);
       operations \<leftarrow> opt_value (\<lambda>v. do { xs \<leftarrow> as_array v; those (map (\<lambda>e. some_text (Some e)) xs) })
                      (fld o' ''operationIds'');
       let ids = (case operations of None \<Rightarrow> [] | Some xs \<Rightarrow> xs) in
       Some (fence_fields context fence
               @ [(''claim_token'', JStr token), (''sequences'', JArr (map json_nat sequences))]
               @ topic_field context
               @ (if length ids > 0 then [(''operation_ids'', JArr (map JStr ids))] else []), ())
     }"

definition runWakeAck :: "controlContext \<Rightarrow> unknown \<Rightarrow> nat list exchange" where
  "runWakeAck context params =
     guarded_request context SESSION_WAKE_ACK ''invalid wake ack parameters'' (ack_request context params)
       (\<lambda>_ reply. malformed SESSION_WAKE_ACK ''wake ack result malformed''
          (parseExternalDriverWakeAckResult reply))"

lemma clone_is_identity: "cloneJsonValue v = Some w \<Longrightarrow> w = v"
proof (induction v arbitrary: w rule: cloneJsonValue.induct)
  case (1 n)
  then show ?case by (cases n) auto
next
  case (2 xs)
  then obtain ys where ys: "map cloneJsonValue xs = map Some ys" and w: "w = JArr ys" by (auto simp: those_Some)
  have "ys = xs"
  proof (rule nth_equalityI)
    show len: "length ys = length xs" using ys by (metis length_map)
    show "ys ! i = xs ! i" if "i < length ys" for i
    proof -
      from ys that len have "cloneJsonValue (xs ! i) = Some (ys ! i)" by (metis nth_map)
      with 2(1) [of "xs ! i" "ys ! i"] that len show ?thesis by simp
    qed
  qed
  with w show ?case by simp
next
  case (3 kvs)
  then obtain ys where ys: "map (\<lambda>(k, v). map_option (Pair k) (cloneJsonValue v)) kvs = map Some ys"
    and w: "w = JObj ys" by (auto simp: those_Some)
  have "ys = kvs"
  proof (rule nth_equalityI)
    show len: "length ys = length kvs" using ys by (metis length_map)
    show "ys ! i = kvs ! i" if "i < length ys" for i
    proof -
      obtain k v where kv: "kvs ! i = (k, v)" by (cases "kvs ! i")
      with that len have mem: "(k, v) \<in> set kvs" by (metis nth_mem)
      from ys that len kv have "map_option (Pair k) (cloneJsonValue v) = Some (ys ! i)"
        by (metis (no_types, lifting) case_prod_conv nth_map)
      then obtain u where u: "cloneJsonValue v = Some u" "ys ! i = (k, u)" by auto
      with 3(1) [OF mem refl] kv show ?thesis by simp
    qed
  qed
  with w show ?case by simp
qed auto

section \<open>All commands of a handle\<close>

datatype driverCall =
    CallGet unknown
  | CallAcquire unknown
  | CallRenew unknown
  | CallRelease unknown
  | CallDispatch unknown
  | CallControl unknown
  | CallWakeClaim unknown
  | CallWakeAck unknown

fun call_args :: "driverCall \<Rightarrow> unknown" where
  "call_args (CallGet v) = v" | "call_args (CallAcquire v) = v" | "call_args (CallRenew v) = v"
| "call_args (CallRelease v) = v" | "call_args (CallDispatch v) = v" | "call_args (CallControl v) = v"
| "call_args (CallWakeClaim v) = v" | "call_args (CallWakeAck v) = v"

text \<open>The commands that act under a lease; \<open>get\<close> reads and \<open>acquire\<close> asks for one.\<close>

fun under_lease :: "driverCall \<Rightarrow> bool" where
  "under_lease (CallGet _) = False"
| "under_lease (CallAcquire _) = False"
| "under_lease _ = True"

fun call_sent :: "(jnum \<Rightarrow> string) \<Rightarrow> controlContext \<Rightarrow> driverCall \<Rightarrow> (string \<times> fields) option" where
  "call_sent number_text context (CallGet v) = sent (driverGet number_text context v)"
| "call_sent number_text context (CallAcquire v) = sent (runDriverAcquire context v)"
| "call_sent number_text context (CallRenew v) = sent (runDriverRenew context v)"
| "call_sent number_text context (CallRelease v) = sent (runDriverRelease context v)"
| "call_sent number_text context (CallDispatch v) = sent (peerDispatch context v)"
| "call_sent number_text context (CallControl v) = sent (peerControl context v)"
| "call_sent number_text context (CallWakeClaim v) = sent (runWakeClaim context v)"
| "call_sent number_text context (CallWakeAck v) = sent (runWakeAck context v)"

definition failure :: "driverError + 'a \<Rightarrow> driverError option" where
  "failure r = (case r of Inl e \<Rightarrow> Some e | Inr _ \<Rightarrow> None)"

fun call_error :: "(jnum \<Rightarrow> string) \<Rightarrow> controlContext \<Rightarrow> driverCall \<Rightarrow> rpcAnswer \<Rightarrow> driverError option" where
  "call_error number_text context (CallGet v) a = failure (answered (driverGet number_text context v) a)"
| "call_error number_text context (CallAcquire v) a = failure (answered (runDriverAcquire context v) a)"
| "call_error number_text context (CallRenew v) a = failure (answered (runDriverRenew context v) a)"
| "call_error number_text context (CallRelease v) a = failure (answered (runDriverRelease context v) a)"
| "call_error number_text context (CallDispatch v) a = failure (answered (peerDispatch context v) a)"
| "call_error number_text context (CallControl v) a = failure (answered (peerControl context v) a)"
| "call_error number_text context (CallWakeClaim v) a = failure (answered (runWakeClaim context v) a)"
| "call_error number_text context (CallWakeAck v) a = failure (answered (runWakeAck context v) a)"

lemma lease_fence_sent: "copyLeaseFence o' = Some f \<Longrightarrow>
    fld o' ''driverId'' = Some (JStr (lf_driverId f)) \<and> fld o' ''epoch'' = Some (json_nat (lf_epoch f))
    \<and> fld o' ''controlToken'' = Some (JStr (lf_controlToken f))"
  by (auto simp: copyLeaseFence_def bind_eq_Some_conv non_empty_Some nonneg_int_Some json_nat_def)

lemma peer_fence_sent: "validateFence o' = Some f \<Longrightarrow>
    fld o' ''driverId'' = Some (JStr (lf_driverId f)) \<and> fld o' ''epoch'' = Some (json_nat (lf_epoch f))
    \<and> fld o' ''controlToken'' = Some (JStr (lf_controlToken f))"
  by (auto simp: validateFence_def bind_eq_Some_conv dest: lease_fence_sent)

lemma some_text_Some: "some_text v = Some s \<longleftrightarrow> v = Some (JStr s) \<and> s \<noteq> []"
  by (auto simp: some_text_def split: option.splits)

lemma wake_fence_sent: "copyWakeFence o' = Some f \<Longrightarrow>
    fld o' ''driverId'' = Some (JStr (lf_driverId f)) \<and> fld o' ''epoch'' = Some (json_nat (lf_epoch f))
    \<and> fld o' ''controlToken'' = Some (JStr (lf_controlToken f))"
  by (auto simp: copyWakeFence_def bind_eq_Some_conv some_text_Some u64_def nonneg_int_Some json_nat_def)

text \<open>What a request of the handle must look like, for the arguments it was made from.\<close>

definition fenced :: "controlContext \<Rightarrow> driverCall \<Rightarrow> string \<times> fields \<Rightarrow> bool" where
  "fenced context call request \<longleftrightarrow>
     (case request of (method, params) \<Rightarrow>
        method \<in> set (cc_supportedMethods context) \<and> cc_featureAdvertised context
        \<and> fld params ''session_id'' = Some (JStr (cc_sessionId context))
        \<and> fld params ''topic'' = map_option JStr (cc_topic context)
        \<and> (under_lease call \<longrightarrow>
             (\<exists>o' token. call_args call = Some (JObj o') \<and> fld o' ''controlToken'' = Some (JStr token)
                \<and> fld params ''control_token'' = Some (JStr token)
                \<and> fld params ''driver_id'' = fld o' ''driverId'' \<and> fld params ''epoch'' = fld o' ''epoch'')))"

lemma gate_open:
  "requireExternalDriverControlCapability context method = None \<longleftrightarrow>
     method \<in> set (cc_supportedMethods context) \<and> cc_featureAdvertised context"
  by (auto simp: requireExternalDriverControlCapability_def)

lemmas command_defs =
  runDriverAcquire_def runDriverRenew_def runDriverRelease_def peerDispatch_def peerControl_def
  runWakeClaim_def runWakeAck_def

lemmas request_defs =
  dispatch_request_def control_request_def claim_request_def ack_request_def fence_fields_def topic_field_def

lemma get_fenced: "sent (driverGet number_text context v) = Some r \<Longrightarrow> fenced context (CallGet v) r"
  by (auto simp: driverGet_def fenced_def topic_field_def split: option.splits sum.splits if_splits)

lemma acquire_fenced: "sent (runDriverAcquire context v) = Some r \<Longrightarrow> fenced context (CallAcquire v) r"
  by (cases r) (auto simp: runDriverAcquire_def guarded_request_sent gate_open fenced_def bind_eq_Some_conv topic_field_def)

lemma lease_fenced:
  "sent (runDriverRenew context v) = Some r \<Longrightarrow> fenced context (CallRenew v) r"
  "sent (runDriverRelease context v) = Some r \<Longrightarrow> fenced context (CallRelease v) r"
  by (cases r; auto simp: command_defs guarded_request_sent gate_open fenced_def bind_eq_Some_conv request_defs
      dest!: lease_fence_sent)+

lemma peer_fenced:
  "sent (peerDispatch context v) = Some r \<Longrightarrow> fenced context (CallDispatch v) r"
  "sent (peerControl context v) = Some r \<Longrightarrow> fenced context (CallControl v) r"
  by (cases r; auto simp: command_defs guarded_request_sent gate_open fenced_def bind_eq_Some_conv request_defs
      dest!: peer_fence_sent)+

lemma claim_wire:
  assumes "claim_request context v = Some (params, x)"
  shows "\<exists>o' f. v = Some (JObj o') \<and> copyWakeFence o' = Some f
    \<and> (\<forall>k \<in> {''session_id'', ''driver_id'', ''epoch'', ''control_token''}.
         fld params k = fld (fence_fields context f) k)
    \<and> fld params ''topic'' = map_option JStr (cc_topic context)"
proof -
  from assms obtain o' f cursor limit ttl where "v = Some (JObj o')" "copyWakeFence o' = Some f"
    and params: "params = fence_fields context f @ topic_field context
      @ opt_field ''mailbox_cursor'' (map_option JStr cursor) @ opt_field ''limit'' (map_option json_nat limit)
      @ opt_field ''ttl_seconds'' (map_option json_nat ttl)"
    by (simp add: claim_request_def bind_eq_Some_conv) blast
  moreover have "\<forall>k \<in> {''session_id'', ''driver_id'', ''epoch'', ''control_token''}.
      fld params k = fld (fence_fields context f) k"
    by (simp add: params fence_fields_def)
  moreover have "fld params ''topic'' = map_option JStr (cc_topic context)"
    by (simp add: params fence_fields_def topic_field_def)
  ultimately show ?thesis by blast
qed

lemma ack_wire:
  assumes "ack_request context v = Some (params, x)"
  shows "\<exists>o' f. v = Some (JObj o') \<and> copyWakeFence o' = Some f
    \<and> (\<forall>k \<in> {''session_id'', ''driver_id'', ''epoch'', ''control_token''}.
         fld params k = fld (fence_fields context f) k)
    \<and> fld params ''topic'' = map_option JStr (cc_topic context)"
proof -
  from assms obtain o' f token sequences ids where "v = Some (JObj o')" "copyWakeFence o' = Some f"
    and params: "params = fence_fields context f
      @ [(''claim_token'', JStr token), (''sequences'', JArr (map json_nat sequences))] @ topic_field context
      @ (if length ids > 0 then [(''operation_ids'', JArr (map JStr ids))] else [])"
    by (simp add: ack_request_def bind_eq_Some_conv Let_def) blast
  moreover have "\<forall>k \<in> {''session_id'', ''driver_id'', ''epoch'', ''control_token''}.
      fld params k = fld (fence_fields context f) k"
    by (simp add: params fence_fields_def)
  moreover have "fld params ''topic'' = map_option JStr (cc_topic context)"
    by (simp add: params fence_fields_def topic_field_def)
  ultimately show ?thesis by blast
qed

lemma wake_fenced:
  "sent (runWakeClaim context v) = Some r \<Longrightarrow> fenced context (CallWakeClaim v) r"
  "sent (runWakeAck context v) = Some r \<Longrightarrow> fenced context (CallWakeAck v) r"
  by (cases r; auto simp: runWakeClaim_def runWakeAck_def guarded_request_sent gate_open fenced_def
      fence_fields_def dest!: wake_fence_sent claim_wire ack_wire)+

text \<open>
  whatever a handle sends is an advertised method of a server with the feature, for the captured
  Session and topic, and every command under a lease carries exactly the caller's driver, epoch and token.
\<close>
theorem every_command_is_fenced:
  assumes "call_sent number_text context call = Some request"
  shows "fenced context call request"
  using assms
  by (cases call) (simp_all add: get_fenced acquire_fenced lease_fenced peer_fenced wake_fenced)

theorem every_command_is_fenced_witness:
  "case call_sent (\<lambda>_. []) sample_context (CallControl (Some sample_control)) of
     None \<Rightarrow> False
   | Some request \<Rightarrow> fenced sample_context (CallControl (Some sample_control)) request"
proof -
  have "call_sent (\<lambda>_. []) sample_context (CallControl (Some sample_control)) \<noteq> None" by code_simp
  then obtain request where "call_sent (\<lambda>_. []) sample_context (CallControl (Some sample_control)) = Some request"
    by blast
  with every_command_is_fenced [OF this] show ?thesis by (simp only: option.case)
qed

section \<open>Errors are constants\<close>

definition driver_reasons :: "string list" where
  "driver_reasons =
     [INVALID_SCOPE, RPC_FAILED, INVALID_GET_OPTIONS, INVALID_RESULT, OPERATIONS_UNSUPPORTED,
      OPERATIONS_RESULT_MALFORMED, ''driver_operations_malformed'', ''driver_operations_cursor_empty'',
      ''driver_operations_cursor_too_large'', ''driver_operations_limit_out_of_range'',
      ''driver_operations_unknown_field'', ''invalid driver acquire arguments'', ''invalid driver renew arguments'',
      ''invalid driver release arguments'', ''driver acquire result malformed'', ''driver renew result malformed'',
      ''driver release result malformed'', ''invalid peer dispatch arguments'', ''invalid peer control arguments'',
      ''peer dispatch receipt malformed'', ''peer control receipt malformed'', ''invalid wake claim parameters'',
      ''invalid wake ack parameters'', ''wake claim result malformed'', ''wake ack result malformed'']"

definition driver_methods :: "string list" where
  "driver_methods =
     [SESSION_DRIVER_GET, SESSION_DRIVER_ACQUIRE, SESSION_DRIVER_RENEW, SESSION_DRIVER_RELEASE, PEER_DISPATCH,
      PEER_CONTROL, SESSION_WAKE_CLAIM, SESSION_WAKE_ACK]"

definition constant_error :: "driverError \<Rightarrow> bool" where
  "constant_error e =
     (case e of
        DriverProtocolError m reason \<Rightarrow> m \<in> set driver_methods \<and> reason \<in> set driver_reasons
      | DriverRefusalError m kind \<Rightarrow> m \<in> set driver_methods \<and> kind \<in> set EXTERNAL_DRIVER_REFUSAL_KINDS
      | DriverCapabilityError m \<Rightarrow> m \<in> set driver_methods
      | DriverOperationsError _ \<Rightarrow> False)"

lemma rejection_constant: "m \<in> set driver_methods \<Longrightarrow> constant_error (rejection_error m r)"
  by (auto simp: rejection_error_def typedRefusalKind_def constant_error_def driver_reasons_def bind_eq_Some_conv
      split: option.splits rejection.splits)

lemma guarded_constant:
  assumes "m \<in> set driver_methods" "reason \<in> set driver_reasons"
    and "\<And>x raw e. decode x raw = Inl e \<Longrightarrow> constant_error e"
    and "failure (answered (guarded_request context m reason args decode) answer) = Some e"
  shows "constant_error e"
  using assms rejection_constant [OF assms(1)]
  by (cases answer)
    (auto simp: guarded_request_def requestExternalDriverControl_def requireExternalDriverControlCapability_def
      failure_def constant_error_def [of "DriverProtocolError _ _"] constant_error_def [of "DriverCapabilityError _"]
      split: option.splits sum.splits if_splits)

lemma malformed_Inl: "malformed m reason v = Inl e \<longleftrightarrow> v = None \<and> e = DriverProtocolError m reason"
  by (auto simp: malformed_def split: option.splits)

lemma control_reply_constant: "control_reply context x raw = Inl e \<Longrightarrow> constant_error e"
  by (auto simp: control_reply_def decodePeerControlReceipt_def malformed_Inl constant_error_def driver_methods_def
      driver_reasons_def EXTERNAL_DRIVER_REFUSAL_KINDS_def split: sum.splits option.splits if_splits)

lemma request_code_constant: "buildDriverOperationsRequest v = Inl code \<Longrightarrow> code \<in> set driver_reasons"
  by (auto simp: buildDriverOperationsRequest_def request_cursor_def request_limit_def driver_reasons_def
      split: option.splits if_splits sum.splits json.splits jnum.splits)

lemma get_reply_constant:
  assumes "masterWireBase (cc_sessionId context) (cc_profileId context) \<noteq> None"
    and "get_reply number_text context requested raw = Inl e"
  shows "constant_error e"
  using assms
  by (auto simp: get_reply_def classifyDriverGetOperationsResult_def parseDriverOperationsPageResult_def
      validateCapturedOperationsScope_def constant_error_def driver_methods_def driver_reasons_def
      split: option.splits sum.splits operationsOutcome.splits if_splits)

lemma get_constant:
  assumes "masterWireBase (cc_sessionId context) (cc_profileId context) \<noteq> None"
    and "failure (answered (driverGet number_text context v) answer) = Some e"
  shows "constant_error e"
proof -
  have known: "SESSION_DRIVER_GET \<in> set driver_methods" "INVALID_GET_OPTIONS \<in> set driver_reasons"
    by (simp_all add: driver_methods_def driver_reasons_def)
  from assms(2) known get_reply_constant [OF assms(1)] rejection_constant [OF known(1)] request_code_constant
  show ?thesis
    by (cases answer)
      (auto simp: driverGet_def failure_def constant_error_def [of "DriverProtocolError _ _"]
        constant_error_def [of "DriverCapabilityError _"] split: option.splits sum.splits if_splits)
qed

lemma handle_has_base:
  assumes "createExternalDriverCommands sessionId capabilities scope = Inr context"
  shows "masterWireBase (cc_sessionId context) (cc_profileId context) \<noteq> None"
  using assms captured_scope_has_base [of sessionId scope]
  by (auto simp: createExternalDriverCommands_def split: option.splits)

lemma guarded_malformed_constant:
  assumes "failure (answered (guarded_request context m reason args
             (\<lambda>x raw. malformed m reason' (decode x raw))) answer) = Some e"
    and "m \<in> set driver_methods" "reason \<in> set driver_reasons" "reason' \<in> set driver_reasons"
  shows "constant_error e"
  by (rule guarded_constant [OF assms(2,3) _ assms(1)])
    (use assms(2,4) in \<open>auto simp: malformed_Inl constant_error_def\<close>)

lemma guarded_command_constant:
  "failure (answered (runDriverAcquire context v) answer) = Some e \<Longrightarrow> constant_error e"
  "failure (answered (runDriverRenew context v) answer) = Some e \<Longrightarrow> constant_error e"
  "failure (answered (runDriverRelease context v) answer) = Some e \<Longrightarrow> constant_error e"
  "failure (answered (peerDispatch context v) answer) = Some e \<Longrightarrow> constant_error e"
  "failure (answered (runWakeClaim context v) answer) = Some e \<Longrightarrow> constant_error e"
  "failure (answered (runWakeAck context v) answer) = Some e \<Longrightarrow> constant_error e"
  by (simp only: command_defs; erule guarded_malformed_constant;
      simp add: driver_methods_def driver_reasons_def)+

lemma call_error_constant:
  assumes "masterWireBase (cc_sessionId context) (cc_profileId context) \<noteq> None"
    and "call_error number_text context call answer = Some e"
  shows "constant_error e"
proof (cases call)
  case (CallGet v)
  with assms show ?thesis by (simp add: get_constant)
next
  case (CallControl v)
  with assms(2) have "failure (answered (peerControl context v) answer) = Some e" by simp
  then show ?thesis unfolding peerControl_def
    by (rule guarded_constant [OF _ _ control_reply_constant, rotated 3])
      (simp_all add: driver_methods_def driver_reasons_def)
qed (use assms(2) guarded_command_constant in auto)

text \<open>
  for a handle the factory made, an error of any command is one of a fixed list of constants,
  whatever the server answered or rejected with.
\<close>
theorem errors_are_constants:
  assumes "createExternalDriverCommands sessionId capabilities scope = Inr context"
    and "call_error number_text context call answer = Some e"
  shows "constant_error e"
  using handle_has_base [OF assms(1)] assms(2) by (rule call_error_constant)

definition sample_capabilities :: uiProtocolCapabilities where
  "sample_capabilities =
     \<lparr>cap_supported_methods = [SESSION_DRIVER_GET, PEER_DISPATCH],
      cap_supported_features = Some [EXTERNAL_DRIVER_V1_FEATURE], cap_unsupported = None\<rparr>"

definition sample_handle :: controlContext where
  "sample_handle =
     \<lparr>cc_sessionId = ''dev:local:tui#coding'', cc_profileId = ''dev'', cc_topic = Some ''coding'',
      cc_supportedMethods = [SESSION_DRIVER_GET, PEER_DISPATCH], cc_featureAdvertised = True\<rparr>"

theorem errors_are_constants_witness:
  "constant_error (DriverRefusalError SESSION_DRIVER_GET ''driver_scope_mismatch'')"
proof -
  have "createExternalDriverCommands ''dev:local:tui#coding'' sample_capabilities
      \<lparr>ds_profileId = ''dev'', ds_topic = Some ''coding''\<rparr> = Inr sample_handle"
    by code_simp
  moreover have "call_error (\<lambda>_. []) sample_handle (CallGet None)
      (RpcRejected (UiProtocolFailure (Some (JObj [(''kind'', JStr ''driver_scope_mismatch''),
        (''path'', JStr ''/secret'')])))) = Some (DriverRefusalError SESSION_DRIVER_GET ''driver_scope_mismatch'')"
    by code_simp
  ultimately show ?thesis by (rule errors_are_constants)
qed

end
