(* ===== verification/DriverDiscovery.thy ===== *)
theory DriverDiscovery
  imports DriverWake
begin

text \<open>
  The inventory walk of \<open>session/driver-discovery.ts\<close> and \<open>session/control-readiness.ts\<close>: pages of a driver's
  operations are asked for one after the other, each against a common deadline, until the server's last
  page or the first contradiction. The theorems: a complete inventory is the unabridged, strictly ordered
  content of one snapshot, and the walk settles within 32 answers.
\<close>

section \<open>The deadline\<close>

text \<open>
  \<open>raceWithDeadline\<close>: a promise settles once. An error that is not one of the driver's is \<open>None\<close>.
\<close>

datatype deadlineOutcome = Fulfilled driverGetView | Rejected "driverError option" | TimedOut

datatype raceEvent = PromiseFulfilled driverGetView | PromiseRejected "driverError option" | TimerFired | CancelFired

record race =
  rc_settled :: "deadlineOutcome option"
  rc_timer :: bool

definition race_done :: "deadlineOutcome \<Rightarrow> race \<Rightarrow> race" where
  "race_done outcome r =
     (if rc_settled r \<noteq> None then r else r\<lparr>rc_settled := Some outcome, rc_timer := False\<rparr>)"

definition race_start :: "int \<Rightarrow> int \<Rightarrow> race" where
  "race_start deadlineAt now =
     (let remaining = deadlineAt - now
      in if remaining \<le> 0 then \<lparr>rc_settled = Some TimedOut, rc_timer = False\<rparr>
         else \<lparr>rc_settled = None, rc_timer = True\<rparr>)"

fun race_event :: "raceEvent \<Rightarrow> race \<Rightarrow> race" where
  "race_event (PromiseFulfilled value) r = race_done (Fulfilled value) r"
| "race_event (PromiseRejected reason) r = race_done (Rejected reason) r"
| "race_event TimerFired r = (if rc_timer r then race_done TimedOut r else r)"
| "race_event CancelFired r = race_done TimedOut r"

definition raceWithDeadline :: "int \<Rightarrow> int \<Rightarrow> raceEvent list \<Rightarrow> deadlineOutcome option" where
  "raceWithDeadline deadlineAt now events = rc_settled (fold race_event events (race_start deadlineAt now))"

section \<open>Inventories\<close>

record inventoryRow =
  ir_operationId :: string
  ir_slug :: string
  ir_lifecycle :: string

record inventoryAcceptance =
  ia_adoptedSessionId :: string
  ia_adoptedTurnId :: string
  ia_workspaceRoot :: string
  ia_model :: string
  ia_modelLane :: string
  ia_scopedGoal :: "driverScopedGoal option"
  ia_acceptedAtMs :: nat

record inventoryOperation =
  io_operationId :: string
  io_slug :: string
  io_lifecycle :: string
  io_acceptance :: inventoryAcceptance

record disclosureBinding =
  bd_driverId :: string
  bd_epoch :: nat
  bd_revision :: nat
  bd_leaseExpiresAtMs :: nat

record inventoryDisclosure =
  id_mode :: driverMode
  id_recovery :: driverRecovery
  id_binding :: "disclosureBinding option"

record completeInventory =
  ci_snapshot :: string
  ci_observedRevision :: string
  ci_rows :: "inventoryRow list"
  ci_operations :: "inventoryOperation list"
  ci_completedAtMs :: int
  ci_disclosure :: inventoryDisclosure

datatype inventoryErrorReason = Stale | Unknown | Refused string

datatype driverInventoryState =
    InventoryUnavailable
  | InventoryLoading
  | InventoryComplete completeInventory
  | InventoryError inventoryErrorReason

definition DRIVER_DISCOVERY_REFUSAL_KINDS :: "string list" where
  "DRIVER_DISCOVERY_REFUSAL_KINDS =
     [''driver_operations_cursor_reset'', ''driver_operations_view_too_large'', ''driver_scope_mismatch'']"

definition discovery_pageSize :: nat where "discovery_pageSize = 50"
definition discovery_maxPages :: nat where "discovery_maxPages = 32"
definition discovery_maxRows :: int where "discovery_maxRows = 3200"
definition discovery_timeoutMs :: int where "discovery_timeoutMs = 30000"

definition chainError :: "string option \<Rightarrow> driverInventoryState" where
  "chainError refusal =
     (case refusal of None \<Rightarrow> InventoryError Unknown | Some kind \<Rightarrow> InventoryError (Refused kind))"

text \<open>Only a refusal error has a \<open>refusalKind\<close>.\<close>

definition typedRefusal :: "driverError option \<Rightarrow> string option" where
  "typedRefusal reason =
     (case reason of
        Some (DriverRefusalError _ kind) \<Rightarrow>
          if kind \<in> set DRIVER_DISCOVERY_REFUSAL_KINDS then Some kind else None
      | _ \<Rightarrow> None)"

fun recovery_name :: "driverRecovery \<Rightarrow> string" where
  "recovery_name RecoveryNone = ''none''"
| "recovery_name Interrupted = ''interrupted''"
| "recovery_name RecoveryRequired = ''recovery_required''"

text \<open>The numbers of a binding are integers, which \<open>JSON.stringify\<close> prints in decimal.\<close>

definition decimal_text :: "jnum \<Rightarrow> string" where
  "decimal_text n = (case n of JInt i \<Rightarrow> show_nat (nat i) | _ \<Rightarrow> [])"

definition disclosureOf :: "driverGetView \<Rightarrow> string" where
  "disclosureOf view =
     stringify decimal_text
       (JArr [JStr (mode_name (gv_mode view)), JStr (recovery_name (gv_recovery view)),
              (case gv_binding view of
                 None \<Rightarrow> JNull
               | Some b \<Rightarrow>
                   JArr [JStr (db_driverId b), json_nat (db_epoch b), json_nat (db_revision b),
                         json_nat (db_leaseExpiresAtMs b),
                         (case db_workspaceRoot b of None \<Rightarrow> JNull | Some root \<Rightarrow> JStr root),
                         JArr (map JStr (db_acceptedWork b))])])"

definition buildDisclosure :: "driverGetView \<Rightarrow> inventoryDisclosure" where
  "buildDisclosure view =
     \<lparr>id_mode = gv_mode view, id_recovery = gv_recovery view,
      id_binding =
        map_option (\<lambda>b. \<lparr>bd_driverId = db_driverId b, bd_epoch = db_epoch b, bd_revision = db_revision b,
                        bd_leaseExpiresAtMs = db_leaseExpiresAtMs b\<rparr>) (gv_binding view)\<rparr>"

definition inventory_row :: "operationRow \<Rightarrow> inventoryRow" where
  "inventory_row row =
     \<lparr>ir_operationId = or_operationId row, ir_slug = oa_slug (or_acceptance row), ir_lifecycle = or_lifecycle row\<rparr>"

definition inventory_operation :: "operationRow \<Rightarrow> inventoryOperation" where
  "inventory_operation row =
     (let a = or_acceptance row
      in \<lparr>io_operationId = or_operationId row, io_slug = oa_slug a, io_lifecycle = or_lifecycle row,
          io_acceptance =
            \<lparr>ia_adoptedSessionId = oa_adoptedSessionId a, ia_adoptedTurnId = oa_adoptedTurnId a,
             ia_workspaceRoot = oa_workspaceRoot a, ia_model = oa_model a, ia_modelLane = oa_modelLane a,
             ia_scopedGoal = oa_scopedGoal a, ia_acceptedAtMs = oa_acceptedAtMs a\<rparr>\<rparr>)"

section \<open>The walk\<close>

record walk =
  wk_rows :: "inventoryRow list"
  wk_operations :: "inventoryOperation list"
  wk_seenOperations :: "string list"
  wk_seenCursors :: "string list"
  wk_cursor :: "string option"
  wk_snapshot :: "string option"
  wk_observedRevision :: string
  wk_fingerprint :: string
  wk_firstDisclosure :: inventoryDisclosure
  wk_pages :: nat
  wk_lastId :: "string option"

definition walk_start :: walk where
  "walk_start =
     \<lparr>wk_rows = [], wk_operations = [], wk_seenOperations = [], wk_seenCursors = [], wk_cursor = None,
      wk_snapshot = None, wk_observedRevision = [], wk_fingerprint = [],
      wk_firstDisclosure = \<lparr>id_mode = Internal, id_recovery = RecoveryNone, id_binding = None\<rparr>,
      wk_pages = 0, wk_lastId = None\<rparr>"

text \<open>The options of the next \<open>driverGet\<close>.\<close>

definition walk_request :: "string option \<Rightarrow> json" where
  "walk_request cursor =
     JObj [(''operations'',
            JObj (opt_field ''cursor'' (map_option JStr cursor) @ [(''limit'', json_nat discovery_pageSize)]))]"

text \<open>The loop over the rows of a page; \<open>None\<close> returns \<open>chainError()\<close> from the function.\<close>

fun add_rows :: "operationRow list \<Rightarrow> walk \<Rightarrow> walk option" where
  "add_rows [] w = Some w"
| "add_rows (row # items) w =
     (let i = or_operationId row
      in if i \<in> set (wk_seenOperations w) then None
         else if (case wk_lastId w of None \<Rightarrow> False | Some lastId \<Rightarrow> \<not> byte_less lastId i) then None
         else (let w' = w\<lparr>wk_seenOperations := i # wk_seenOperations w, wk_lastId := Some i,
                         wk_rows := wk_rows w @ [inventory_row row],
                         wk_operations := wk_operations w @ [inventory_operation row]\<rparr>
               in if int (length (wk_rows w')) > discovery_maxRows then None else add_rows items w'))"

text \<open>The first page fixes the snapshot and the disclosure; the others must repeat them.\<close>

definition accept_page :: "driverGetView \<Rightarrow> operationsPage \<Rightarrow> walk \<Rightarrow> walk option" where
  "accept_page view page w =
     (case wk_snapshot w of
        None \<Rightarrow>
          Some (w\<lparr>wk_snapshot := Some (pg_snapshot page), wk_observedRevision := pg_observedRevision page,
                 wk_fingerprint := disclosureOf view, wk_firstDisclosure := buildDisclosure view\<rparr>)
      | Some snapshot \<Rightarrow>
          if pg_snapshot page \<noteq> snapshot then None
          else if disclosureOf view \<noteq> wk_fingerprint w then None
          else Some w)"

text \<open>From \<open>raced.value\<close> to the end of the loop body: a result, or the state of the next round.\<close>

definition walk_page :: "driverGetView \<Rightarrow> int \<Rightarrow> walk \<Rightarrow> driverInventoryState + walk" where
  "walk_page view now w =
     (let w1 = w\<lparr>wk_pages := wk_pages w + 1\<rparr>
      in case gv_operations view of
           None \<Rightarrow> Inl (chainError None)
         | Some page \<Rightarrow>
             (case accept_page view page w1 of
                None \<Rightarrow> Inl (chainError None)
              | Some w2 \<Rightarrow>
                  (case add_rows (pg_items page) w2 of
                     None \<Rightarrow> Inl (chainError None)
                   | Some w3 \<Rightarrow>
                       (case pg_nextCursor page of
                          None \<Rightarrow>
                            if \<not> pg_complete page then Inl (chainError None)
                            else Inl (InventoryComplete
                              \<lparr>ci_snapshot = (case wk_snapshot w3 of None \<Rightarrow> [] | Some s \<Rightarrow> s),
                               ci_observedRevision = wk_observedRevision w3, ci_rows = wk_rows w3,
                               ci_operations = wk_operations w3, ci_completedAtMs = now,
                               ci_disclosure = wk_firstDisclosure w3\<rparr>)
                        | Some cursor \<Rightarrow>
                            if pg_complete page then Inl (chainError None)
                            else if cursor \<in> set (wk_seenCursors w3) then Inl (chainError None)
                            else Inr (w3\<lparr>wk_seenCursors := cursor # wk_seenCursors w3,
                                        wk_cursor := Some cursor\<rparr>)))))"

text \<open>
  One round: the clock at the head of the loop, at the race, after it and at completion, and what
  happened to the promise, the timer and the cancel signal.
\<close>

record walkRound =
  wr_head :: int
  wr_race :: int
  wr_events :: "raceEvent list"
  wr_after :: int
  wr_done :: int

text \<open>
  The requests of these rounds in order, and the result; \<open>None\<close>: the walk is still waiting.
\<close>

fun walk_loop :: "int \<Rightarrow> walk \<Rightarrow> walkRound list \<Rightarrow> json list \<times> driverInventoryState option" where
  "walk_loop deadline w rounds =
     (if wk_pages w \<ge> discovery_maxPages then ([], Some (chainError None))
      else case rounds of
             [] \<Rightarrow> ([], None)
           | r # rest \<Rightarrow>
               if wr_head r \<ge> deadline then ([], Some (chainError None))
               else if int (length (wk_rows w)) > discovery_maxRows then ([], Some (chainError None))
               else apfst (Cons (walk_request (wk_cursor w)))
                     (case raceWithDeadline deadline (wr_race r) (wr_events r) of
                        None \<Rightarrow> ([], None)
                      | Some raced \<Rightarrow>
                          if wr_after r \<ge> deadline then ([], Some (chainError None))
                          else case raced of
                                 TimedOut \<Rightarrow> ([], Some (chainError None))
                               | Rejected reason \<Rightarrow> ([], Some (chainError (typedRefusal reason)))
                               | Fulfilled view \<Rightarrow>
                                   (case walk_page view (wr_done r) w of
                                      Inl result \<Rightarrow> ([], Some result)
                                    | Inr w' \<Rightarrow> walk_loop deadline w' rest)))"

declare walk_loop.simps [simp del]

definition walkDriverInventoryChain ::
    "int \<Rightarrow> int \<Rightarrow> walkRound list \<Rightarrow> json list \<times> driverInventoryState option" where
  "walkDriverInventoryChain now timeoutMs rounds = walk_loop (now + timeoutMs) walk_start rounds"

section \<open>Readiness\<close>

datatype controlReadiness = ControlUnavailable | ControlReady

definition deriveControlReadiness ::
    "uiProtocolCapabilities option \<Rightarrow> driverInventoryState \<Rightarrow> controlReadiness" where
  "deriveControlReadiness capabilities driverInventory =
     (case capabilities of
        None \<Rightarrow> ControlUnavailable
      | Some c \<Rightarrow>
          (let controlAdvertised = PEER_CONTROL \<in> set (cap_supported_methods c);
               driverAdvertised =
                 (case cap_supported_features c of
                    None \<Rightarrow> False
                  | Some fs \<Rightarrow> EXTERNAL_DRIVER_V1_FEATURE \<in> set fs)
           in if \<not> controlAdvertised \<or> \<not> driverAdvertised then ControlUnavailable
              else case driverInventory of InventoryComplete _ \<Rightarrow> ControlReady | _ \<Rightarrow> ControlUnavailable))"

definition observedDriverBinding :: "driverInventoryState \<Rightarrow> disclosureBinding option" where
  "observedDriverBinding inventory =
     (case inventory of InventoryComplete c \<Rightarrow> id_binding (ci_disclosure c) | _ \<Rightarrow> None)"

section \<open>Races\<close>

fun event_outcome :: "raceEvent \<Rightarrow> deadlineOutcome" where
  "event_outcome (PromiseFulfilled v) = Fulfilled v"
| "event_outcome (PromiseRejected e) = Rejected e"
| "event_outcome TimerFired = TimedOut"
| "event_outcome CancelFired = TimedOut"

lemma race_settled_stays: "rc_settled r \<noteq> None \<Longrightarrow> rc_settled (fold race_event events r) = rc_settled r"
proof (induction events arbitrary: r)
  case (Cons e events)
  then have "rc_settled (race_event e r) = rc_settled r" by (cases e) (auto simp: race_done_def)
  with Cons show ?case by simp
qed simp

text \<open>The first event decides the race, unless the deadline has passed already.\<close>

lemma race_first:
  "raceWithDeadline deadline now events =
     (if deadline \<le> now then Some TimedOut
      else case events of [] \<Rightarrow> None | e # _ \<Rightarrow> Some (event_outcome e))"
proof (cases "deadline \<le> now")
  case True
  then show ?thesis by (simp add: raceWithDeadline_def race_start_def race_settled_stays)
next
  case False
  show ?thesis
  proof (cases events)
    case Nil
    with False show ?thesis by (simp add: raceWithDeadline_def race_start_def)
  next
    case (Cons e rest)
    have "rc_settled (race_event e (race_start deadline now)) = Some (event_outcome e)"
      using False by (cases e) (simp_all add: race_start_def race_done_def)
    with Cons False show ?thesis by (simp add: raceWithDeadline_def race_settled_stays)
  qed
qed

section \<open>The disclosure of a page\<close>

lemma show_nat_comma:
  assumes "show_nat m @ CHR '','' # r = show_nat n @ CHR '','' # r'"
  shows "m = n \<and> r = r'"
proof -
  have digits: "takeWhile js_digit (show_nat k @ CHR '','' # s) = show_nat k" for k s
    using show_nat_digits [of _ k] by (simp add: takeWhile_append2 js_digit_def code_unit_def)
  from assms digits [of m r] digits [of n r'] have "show_nat m = show_nat n" by simp
  with assms show ?thesis by simp
qed

lemma stringify_json_nat: "stringify decimal_text (json_nat n) = show_nat n"
  by (simp add: json_nat_def decimal_text_def)

lemma mode_name_inject [simp]: "mode_name a = mode_name b \<longleftrightarrow> a = b"
  by (cases a; cases b) simp_all

lemma recovery_name_inject [simp]: "recovery_name a = recovery_name b \<longleftrightarrow> a = b"
  by (cases a; cases b) simp_all

lemma disclosure_determined:
  assumes "disclosureOf v = disclosureOf w"
  shows "buildDisclosure v = buildDisclosure w"
proof -
  have quote: "json_quote s @ CHR '','' # r = json_quote t @ CHR '','' # r' \<Longrightarrow> s = t \<and> r = r'" for s t r r'
    using json_quote_inject [of s "CHR '','' # r" t "CHR '','' # r'"] by simp
  define body :: "driverGetView \<Rightarrow> string" where "body x = (case gv_binding x of
      None \<Rightarrow> ''null''
    | Some b \<Rightarrow> CHR ''['' # json_quote (db_driverId b) @ CHR '','' # show_nat (db_epoch b) @ CHR '',''
        # show_nat (db_revision b) @ CHR '','' # show_nat (db_leaseExpiresAtMs b) @ CHR '',''
        # stringify decimal_text (case db_workspaceRoot b of None \<Rightarrow> JNull | Some root \<Rightarrow> JStr root) @ CHR '',''
        # stringify decimal_text (JArr (map JStr (db_acceptedWork b))) @ '']'')" for x
  have shape: "disclosureOf x = CHR ''['' # json_quote (mode_name (gv_mode x)) @ CHR '',''
      # json_quote (recovery_name (gv_recovery x)) @ CHR '','' # body x @ '']''" for x
    by (simp add: disclosureOf_def body_def stringify_json_nat split: option.split)
  from assms have "gv_mode v = gv_mode w" and rest: "json_quote (recovery_name (gv_recovery v)) @ CHR '','' # body v @ '']''
      = json_quote (recovery_name (gv_recovery w)) @ CHR '','' # body w @ '']''"
    unfolding shape by (auto dest!: quote)
  moreover from quote [OF rest] have "gv_recovery v = gv_recovery w" and bodies: "body v = body w" by auto
  moreover have "id_binding (buildDisclosure v) = id_binding (buildDisclosure w)"
    using bodies
    by (auto simp: body_def buildDisclosure_def split: option.splits dest!: quote show_nat_comma)
  ultimately show ?thesis by (simp add: buildDisclosure_def)
qed

section \<open>The walk settles\<close>

lemma accept_page_pages: "accept_page view page w = Some w' \<Longrightarrow> wk_pages w' = wk_pages w"
  by (auto simp: accept_page_def split: option.splits if_splits)

lemma add_rows_pages: "add_rows items w = Some w' \<Longrightarrow> wk_pages w' = wk_pages w"
  by (induction items arbitrary: w) (auto simp: Let_def split: if_splits)

lemma walk_page_pages: "walk_page view now w = Inr w' \<Longrightarrow> wk_pages w' = Suc (wk_pages w)"
  by (auto simp: walk_page_def Let_def split: option.splits if_splits dest!: accept_page_pages add_rows_pages)

lemma walk_loop_full: "discovery_maxPages \<le> wk_pages w \<Longrightarrow> walk_loop deadline w rounds = ([], Some (chainError None))"
  by (simp add: walk_loop.simps)

lemma walk_loop_bounded:
  "discovery_maxPages - wk_pages w \<le> n \<Longrightarrow> walk_loop deadline w (take n rounds) = walk_loop deadline w rounds"
proof (induction rounds arbitrary: w n)
  case (Cons r rest)
  show ?case
  proof (cases "discovery_maxPages \<le> wk_pages w")
    case True
    then show ?thesis by (simp add: walk_loop_full)
  next
    case False
    with Cons.prems obtain k where n: "n = Suc k" by (cases n) auto
    have "walk_loop deadline w' (take k rest) = walk_loop deadline w' rest"
      if "walk_page view now w = Inr w'" for view now w'
      using Cons.prems n walk_page_pages [OF that] by (intro Cons.IH) auto
    with False n show ?thesis
      by (auto simp: walk_loop.simps [of deadline w] split: option.splits deadlineOutcome.splits sum.splits)
  qed
qed simp

lemma walk_loop_settles:
  "\<lbrakk>discovery_maxPages \<le> wk_pages w + length rounds; \<forall>r \<in> set rounds. TimerFired \<in> set (wr_events r)\<rbrakk> \<Longrightarrow>
     snd (walk_loop deadline w rounds) \<noteq> None"
proof (induction rounds arbitrary: w)
  case Nil
  then show ?case by (simp add: walk_loop_full)
next
  case (Cons r rest)
  have "snd (walk_loop deadline w' rest) \<noteq> None" if "walk_page view now w = Inr w'" for view now w'
    using Cons.prems walk_page_pages [OF that] by (intro Cons.IH) auto
  moreover have "raceWithDeadline deadline (wr_race r) (wr_events r) \<noteq> None"
    using Cons.prems by (cases "wr_events r") (auto simp: race_first)
  ultimately show ?case
    by (auto simp: walk_loop.simps [of deadline w] split: option.splits deadlineOutcome.splits sum.splits)
qed

lemma walk_loop_requests: "length (fst (walk_loop deadline w rounds)) + wk_pages w \<le> max discovery_maxPages (wk_pages w)"
proof (induction rounds arbitrary: w)
  case Nil
  then show ?case by (simp add: walk_loop.simps)
next
  case (Cons r rest)
  show ?case
  proof (cases "discovery_maxPages \<le> wk_pages w")
    case False
    have "Suc (length (fst (walk_loop deadline w' rest))) + wk_pages w \<le> discovery_maxPages"
      if "walk_page view now w = Inr w'" for view now w'
      using Cons.IH [of w'] walk_page_pages [OF that] False by simp
    with False show ?thesis
      by (auto simp: walk_loop.simps [of deadline w] split: option.splits deadlineOutcome.splits sum.splits)
  qed (simp add: walk_loop_full)
qed

text \<open>
  The walk ends. Whatever the server answers, it asks for at most 32 pages, what comes after 32
  rounds has no influence on it, and it has a result after 32 rounds whose timers fire.
\<close>
theorem walk_settles_within_32_rounds:
  assumes "32 \<le> length rounds" and "\<forall>r \<in> set rounds. TimerFired \<in> set (wr_events r)"
  shows "snd (walkDriverInventoryChain now timeoutMs rounds) \<noteq> None
    \<and> walkDriverInventoryChain now timeoutMs (take 32 rounds) = walkDriverInventoryChain now timeoutMs rounds
    \<and> length (fst (walkDriverInventoryChain now timeoutMs rounds)) \<le> 32"
  unfolding walkDriverInventoryChain_def
proof (intro conjI)
  show "walk_loop (now + timeoutMs) walk_start (take 32 rounds) = walk_loop (now + timeoutMs) walk_start rounds"
    by (rule walk_loop_bounded) (simp add: discovery_maxPages_def)
  show "snd (walk_loop (now + timeoutMs) walk_start rounds) \<noteq> None"
    by (rule walk_loop_settles) (use assms in \<open>simp_all add: discovery_maxPages_def\<close>)
  show "length (fst (walk_loop (now + timeoutMs) walk_start rounds)) \<le> 32"
    using walk_loop_requests [of "now + timeoutMs" walk_start rounds]
    by (simp add: discovery_maxPages_def walk_start_def)
qed

text \<open>A server that never answers.\<close>

definition silent_round :: walkRound where
  "silent_round = \<lparr>wr_head = 1, wr_race = 1, wr_events = [TimerFired], wr_after = 2, wr_done = 2\<rparr>"

lemma walk_settles_within_32_rounds_witness:
  "snd (walkDriverInventoryChain 0 discovery_timeoutMs (replicate 40 silent_round)) \<noteq> None
   \<and> length (fst (walkDriverInventoryChain 0 discovery_timeoutMs (replicate 40 silent_round))) \<le> 32"
  using walk_settles_within_32_rounds [of "replicate 40 silent_round" 0 discovery_timeoutMs]
  by (simp add: silent_round_def)

section \<open>A complete inventory\<close>

definition page_of :: "driverGetView \<Rightarrow> operationsPage" where
  "page_of view = the (gv_operations view)"

definition items_of :: "driverGetView list \<Rightarrow> operationRow list" where
  "items_of views = concat (map (\<lambda>v. pg_items (page_of v)) views)"

text \<open>The rows of a walk are the rows of its pages so far.\<close>

definition rows_walked :: "operationRow list \<Rightarrow> walk \<Rightarrow> bool" where
  "rows_walked items w \<longleftrightarrow>
     wk_rows w = map inventory_row items \<and> wk_operations w = map inventory_operation items
     \<and> wk_lastId w = (if items = [] then None else Some (or_operationId (last items)))
     \<and> sorted_wrt byte_less (map or_operationId items) \<and> int (length items) \<le> discovery_maxRows"

definition chain_fields where
  "chain_fields w = (wk_snapshot w, wk_observedRevision w, wk_fingerprint w, wk_firstDisclosure w,
     wk_seenCursors w, wk_cursor w)"

definition one_source :: "driverGetView list \<Rightarrow> bool" where
  "one_source views = list_all (\<lambda>v. gv_operations v \<noteq> None
     \<and> pg_snapshot (page_of v) = pg_snapshot (page_of (hd views))
     \<and> disclosureOf v = disclosureOf (hd views)) views"

definition walked :: "driverGetView list \<Rightarrow> walk \<Rightarrow> bool" where
  "walked views w \<longleftrightarrow>
     rows_walked (items_of views) w \<and> one_source views
     \<and> list_all (\<lambda>v. \<not> pg_complete (page_of v) \<and> pg_nextCursor (page_of v) \<noteq> None) views
     \<and> (case views of
          [] \<Rightarrow> wk_snapshot w = None \<and> wk_cursor w = None
        | v # _ \<Rightarrow> wk_snapshot w = Some (pg_snapshot (page_of v))
            \<and> wk_observedRevision w = pg_observedRevision (page_of v)
            \<and> wk_fingerprint w = disclosureOf v \<and> wk_firstDisclosure w = buildDisclosure v
            \<and> wk_cursor w = pg_nextCursor (page_of (last views)))"

text \<open>The whole content of one snapshot, page by page, up to the server's last page.\<close>

definition whole_chain :: "driverGetView list \<Rightarrow> completeInventory \<Rightarrow> bool" where
  "whole_chain views c \<longleftrightarrow>
     views \<noteq> []
     \<and> list_all (\<lambda>v. gv_operations v \<noteq> None \<and> pg_snapshot (page_of v) = ci_snapshot c
          \<and> buildDisclosure v = ci_disclosure c) views
     \<and> list_all (\<lambda>v. \<not> pg_complete (page_of v) \<and> pg_nextCursor (page_of v) \<noteq> None) (butlast views)
     \<and> pg_complete (page_of (last views)) \<and> pg_nextCursor (page_of (last views)) = None
     \<and> ci_observedRevision c = pg_observedRevision (page_of (hd views))
     \<and> ci_rows c = map inventory_row (items_of views)
     \<and> ci_operations c = map inventory_operation (items_of views)
     \<and> length (ci_rows c) \<le> 3200
     \<and> sorted_wrt byte_less (map ir_operationId (ci_rows c)) \<and> distinct (map ir_operationId (ci_rows c))"

lemma sorted_bytes_distinct: "sorted_wrt byte_less xs \<Longrightarrow> distinct xs"
  by (induction xs) auto

lemma sorted_bytes_snoc:
  assumes "sorted_wrt byte_less xs" and "xs \<noteq> []" and "byte_less (last xs) i"
  shows "sorted_wrt byte_less (xs @ [i])"
proof -
  have "byte_less x i" if "x \<in> set xs" for x
  proof -
    from assms(2) have xs: "xs = butlast xs @ [last xs]" by simp
    show ?thesis
    proof (cases "x = last xs")
      case False
      with that xs have "x \<in> set (butlast xs)" by (metis Un_iff list.set(1,2) set_append singletonD)
      moreover have "sorted_wrt byte_less (butlast xs @ [last xs])" using assms(1) xs by simp
      ultimately have "byte_less x (last xs)" by (simp add: sorted_wrt_append)
      then show ?thesis using assms(3) byte_less_trans by blast
    qed (simp add: assms(3))
  qed
  with assms(1) show ?thesis by (simp add: sorted_wrt_append)
qed

lemma add_rows_walked:
  "rows_walked xs w \<Longrightarrow> add_rows items w = Some w' \<Longrightarrow>
     rows_walked (xs @ items) w' \<and> chain_fields w' = chain_fields w"
proof (induction items arbitrary: xs w)
  case (Cons row items)
  let ?i = "or_operationId row"
  let ?w = "w\<lparr>wk_seenOperations := ?i # wk_seenOperations w, wk_lastId := Some ?i,
              wk_rows := wk_rows w @ [inventory_row row],
              wk_operations := wk_operations w @ [inventory_operation row]\<rparr>"
  from Cons.prems(2) have next_row: "add_rows items ?w = Some w'" "int (length (wk_rows ?w)) \<le> discovery_maxRows"
    and less: "xs \<noteq> [] \<Longrightarrow> byte_less (or_operationId (last xs)) ?i"
    using Cons.prems(1) by (auto simp: Let_def rows_walked_def split: if_splits)
  have "sorted_wrt byte_less (map or_operationId xs @ [?i])"
    using Cons.prems(1) less
    by (cases "xs = []") (auto simp: rows_walked_def last_map intro!: sorted_bytes_snoc)
  with Cons.prems(1) next_row(2) have "rows_walked (xs @ [row]) ?w" by (simp add: rows_walked_def)
  from Cons.IH [OF this next_row(1)] show ?case by (simp add: chain_fields_def)
qed simp

lemma accept_page_walked:
  assumes "walked views w" and "gv_operations view = Some page" and "accept_page view page w = Some w'"
  shows "one_source (views @ [view]) \<and> rows_walked (items_of views) w'
    \<and> wk_snapshot w' = Some (pg_snapshot (page_of (hd (views @ [view]))))
    \<and> wk_observedRevision w' = pg_observedRevision (page_of (hd (views @ [view])))
    \<and> wk_fingerprint w' = disclosureOf (hd (views @ [view]))
    \<and> wk_firstDisclosure w' = buildDisclosure (hd (views @ [view]))"
  using assms
  by (cases views)
    (auto simp: walked_def accept_page_def one_source_def rows_walked_def page_of_def items_of_def
      split: if_splits)

lemma walk_page_cases:
  assumes "walked views w" and "\<not> (\<exists>reason. walk_page view now w = Inl (InventoryError reason))"
  obtains page w3 where "gv_operations view = Some page" "one_source (views @ [view])"
    "rows_walked (items_of (views @ [view])) w3"
    "wk_snapshot w3 = Some (pg_snapshot (page_of (hd (views @ [view]))))"
    "wk_observedRevision w3 = pg_observedRevision (page_of (hd (views @ [view])))"
    "wk_fingerprint w3 = disclosureOf (hd (views @ [view]))"
    "wk_firstDisclosure w3 = buildDisclosure (hd (views @ [view]))"
    "walk_page view now w =
       (case pg_nextCursor page of
          None \<Rightarrow> Inl (InventoryComplete
            \<lparr>ci_snapshot = pg_snapshot (page_of (hd (views @ [view]))),
             ci_observedRevision = wk_observedRevision w3, ci_rows = wk_rows w3,
             ci_operations = wk_operations w3, ci_completedAtMs = now, ci_disclosure = wk_firstDisclosure w3\<rparr>)
        | Some cursor \<Rightarrow> Inr (w3\<lparr>wk_seenCursors := cursor # wk_seenCursors w3, wk_cursor := Some cursor\<rparr>))"
    "pg_complete page \<longleftrightarrow> pg_nextCursor page = None"
proof -
  let ?w1 = "w\<lparr>wk_pages := wk_pages w + 1\<rparr>"
  have err: "chainError None = InventoryError Unknown" by (simp add: chainError_def)
  have w1: "walked views ?w1" using assms(1) by (simp add: walked_def rows_walked_def split: list.splits)
  from assms(2) obtain page where page: "gv_operations view = Some page"
    by (cases "gv_operations view") (auto simp: walk_page_def err)
  from assms(2) page obtain w2 where w2: "accept_page view page ?w1 = Some w2"
    by (cases "accept_page view page ?w1") (auto simp: walk_page_def err Let_def)
  from assms(2) page w2 obtain w3 where w3: "add_rows (pg_items page) w2 = Some w3"
    by (cases "add_rows (pg_items page) w2") (auto simp: walk_page_def err Let_def)
  note accepted = accept_page_walked [OF w1 page w2]
  have items: "items_of (views @ [view]) = items_of views @ pg_items page"
    using page by (simp add: items_of_def page_of_def)
  from add_rows_walked [OF _ w3, of "items_of views"] accepted
  have rows: "rows_walked (items_of (views @ [view])) w3" "chain_fields w3 = chain_fields w2"
    by (simp_all add: items)
  have "pg_complete page \<longleftrightarrow> pg_nextCursor page = None"
    using assms(2) page w2 w3 by (cases "pg_nextCursor page") (auto simp: walk_page_def err Let_def split: if_splits)
  moreover have "cursor \<notin> set (wk_seenCursors w3)" if "pg_nextCursor page = Some cursor" for cursor
    using assms(2) page w2 w3 that by (auto simp: walk_page_def err Let_def split: if_splits)
  ultimately show ?thesis
    using page accepted rows w2 w3
    by (intro that [of page w3]) (auto simp: walk_page_def chain_fields_def Let_def split: option.split)
qed

lemma walked_page:
  assumes "walked views w" and "walk_page view now w = Inr w'"
  shows "walked (views @ [view]) w' \<and> wk_cursor w' = pg_nextCursor (page_of view)"
proof -
  from assms(2) have "\<not> (\<exists>reason. walk_page view now w = Inl (InventoryError reason))" by simp
  then show ?thesis
  proof (rule walk_page_cases [OF assms(1)])
    fix page w3
    assume p: "gv_operations view = Some page" "one_source (views @ [view])"
      "rows_walked (items_of (views @ [view])) w3"
      "wk_snapshot w3 = Some (pg_snapshot (page_of (hd (views @ [view]))))"
      "wk_observedRevision w3 = pg_observedRevision (page_of (hd (views @ [view])))"
      "wk_fingerprint w3 = disclosureOf (hd (views @ [view]))"
      "wk_firstDisclosure w3 = buildDisclosure (hd (views @ [view]))"
      "walk_page view now w =
       (case pg_nextCursor page of
          None \<Rightarrow> Inl (InventoryComplete
            \<lparr>ci_snapshot = pg_snapshot (page_of (hd (views @ [view]))),
             ci_observedRevision = wk_observedRevision w3, ci_rows = wk_rows w3,
             ci_operations = wk_operations w3, ci_completedAtMs = now, ci_disclosure = wk_firstDisclosure w3\<rparr>)
        | Some cursor \<Rightarrow> Inr (w3\<lparr>wk_seenCursors := cursor # wk_seenCursors w3, wk_cursor := Some cursor\<rparr>))"
      "pg_complete page \<longleftrightarrow> pg_nextCursor page = None"
    with assms(2) obtain cursor where c: "pg_nextCursor page = Some cursor"
      "w' = w3\<lparr>wk_seenCursors := cursor # wk_seenCursors w3, wk_cursor := Some cursor\<rparr>"
      by (auto split: option.splits)
    with p assms(1) show ?thesis
      by (cases views) (auto simp: walked_def rows_walked_def page_of_def)
  qed
qed

lemma walked_to_the_end:
  assumes "walked views w" and "walk_page view now w = Inl (InventoryComplete c)"
  shows "whole_chain (views @ [view]) c"
proof -
  from assms(2) have "\<not> (\<exists>reason. walk_page view now w = Inl (InventoryError reason))" by simp
  then show ?thesis
  proof (rule walk_page_cases [OF assms(1)])
    fix page w3
    assume p: "gv_operations view = Some page" and src: "one_source (views @ [view])"
      and rows: "rows_walked (items_of (views @ [view])) w3"
      and w3: "wk_observedRevision w3 = pg_observedRevision (page_of (hd (views @ [view])))"
        "wk_firstDisclosure w3 = buildDisclosure (hd (views @ [view]))"
      and r: "walk_page view now w =
       (case pg_nextCursor page of
          None \<Rightarrow> Inl (InventoryComplete
            \<lparr>ci_snapshot = pg_snapshot (page_of (hd (views @ [view]))),
             ci_observedRevision = wk_observedRevision w3, ci_rows = wk_rows w3,
             ci_operations = wk_operations w3, ci_completedAtMs = now, ci_disclosure = wk_firstDisclosure w3\<rparr>)
        | Some cursor \<Rightarrow> Inr (w3\<lparr>wk_seenCursors := cursor # wk_seenCursors w3, wk_cursor := Some cursor\<rparr>))"
        "pg_complete page \<longleftrightarrow> pg_nextCursor page = None"
    from assms(2) r have c: "pg_nextCursor page = None" "pg_complete page"
      "c = \<lparr>ci_snapshot = pg_snapshot (page_of (hd (views @ [view]))),
           ci_observedRevision = wk_observedRevision w3, ci_rows = wk_rows w3,
           ci_operations = wk_operations w3, ci_completedAtMs = now, ci_disclosure = wk_firstDisclosure w3\<rparr>"
      by (auto split: option.splits)
    have ids: "map ir_operationId (map inventory_row items) = map or_operationId items" for items
      by (simp add: inventory_row_def)
    have one: "list_all (\<lambda>v. gv_operations v \<noteq> None \<and> pg_snapshot (page_of v) = ci_snapshot c
        \<and> buildDisclosure v = ci_disclosure c) (views @ [view])"
      unfolding list_all_iff
    proof
      fix v assume v: "v \<in> set (views @ [view])"
      with src have "gv_operations v \<noteq> None" "pg_snapshot (page_of v) = pg_snapshot (page_of (hd (views @ [view])))"
        and d: "disclosureOf v = disclosureOf (hd (views @ [view]))"
        unfolding one_source_def list_all_iff by blast+
      with disclosure_determined [OF d]
      show "gv_operations v \<noteq> None \<and> pg_snapshot (page_of v) = ci_snapshot c \<and> buildDisclosure v = ci_disclosure c"
        unfolding c(3) w3 by simp
    qed
    have before: "list_all (\<lambda>v. \<not> pg_complete (page_of v) \<and> pg_nextCursor (page_of v) \<noteq> None)
        (butlast (views @ [view]))"
      using assms(1) by (simp add: walked_def)
    from rows have sorted: "sorted_wrt byte_less (map ir_operationId (ci_rows c))"
      "length (ci_rows c) \<le> 3200" "ci_rows c = map inventory_row (items_of (views @ [view]))"
      "ci_operations c = map inventory_operation (items_of (views @ [view]))"
      by (simp_all add: rows_walked_def c(3) ids discovery_maxRows_def del: map_map)
    show ?thesis
      unfolding whole_chain_def
      using one before sorted sorted_bytes_distinct [OF sorted(1)] p c(1,2) w3
      by (simp add: page_of_def c(3))
  qed
qed

text \<open>The answer of a round, when it came in time.\<close>

definition answer_in_time :: "int \<Rightarrow> walkRound \<Rightarrow> driverGetView option" where
  "answer_in_time deadline r =
     (case raceWithDeadline deadline (wr_race r) (wr_events r) of
        Some (Fulfilled view) \<Rightarrow> if wr_head r < deadline \<and> wr_after r < deadline then Some view else None
      | _ \<Rightarrow> None)"

lemma walk_loop_whole:
  assumes "walked views w" and "walk_loop deadline w rounds = (requests, Some (InventoryComplete c))"
  shows "\<exists>answers. answers \<noteq> [] \<and> whole_chain (views @ answers) c
     \<and> length answers \<le> length rounds
     \<and> map (answer_in_time deadline) (take (length answers) rounds) = map Some answers
     \<and> requests = map walk_request (wk_cursor w # map (\<lambda>v. pg_nextCursor (page_of v)) (butlast answers))"
  using assms
proof (induction rounds arbitrary: views w requests)
  case Nil
  then show ?case by (simp add: walk_loop.simps chainError_def split: if_splits)
next
  case (Cons r rest)
  have err: "chainError refusal \<noteq> InventoryComplete c" for refusal
    by (simp add: chainError_def split: option.split)
  from Cons.prems(2) obtain view where r: "wr_head r < deadline" "wr_after r < deadline"
    "raceWithDeadline deadline (wr_race r) (wr_events r) = Some (Fulfilled view)"
    and loop: "(requests, Some (InventoryComplete c)) = apfst (Cons (walk_request (wk_cursor w)))
        (case walk_page view (wr_done r) w of
           Inl result \<Rightarrow> ([], Some result) | Inr w' \<Rightarrow> walk_loop deadline w' rest)"
    by (auto simp: walk_loop.simps [of deadline w] err split: if_splits option.splits deadlineOutcome.splits)
  have a: "answer_in_time deadline r = Some view" using r by (simp add: answer_in_time_def)
  show ?case
  proof (cases "walk_page view (wr_done r) w")
    case (Inl result)
    with loop have "result = InventoryComplete c" "requests = [walk_request (wk_cursor w)]" by simp_all
    with walked_to_the_end [OF Cons.prems(1)] Inl a show ?thesis
      by (intro exI [of _ "[view]"]) simp
  next
    case (Inr w')
    obtain rs where rs: "walk_loop deadline w' rest = (rs, Some (InventoryComplete c))"
      "requests = walk_request (wk_cursor w) # rs"
      using loop Inr by (cases "walk_loop deadline w' rest") simp
    note w' = walked_page [OF Cons.prems(1) Inr]
    from Cons.IH [OF conjunct1 [OF w'] rs(1)] obtain answers where "answers \<noteq> []"
      "whole_chain ((views @ [view]) @ answers) c" "length answers \<le> length rest"
      "map (answer_in_time deadline) (take (length answers) rest) = map Some answers"
      "rs = map walk_request (wk_cursor w' # map (\<lambda>v. pg_nextCursor (page_of v)) (butlast answers))" by blast
    with rs(2) w' a show ?thesis by (intro exI [of _ "view # answers"]) simp
  qed
qed

text \<open>
  C39: A complete inventory is complete. When the walk reports one, its rows and operations are, in the
  server's order and without omission, those of a chain of pages, each answered before the deadline and
  each, after the first, asked for with the cursor of the page before it, up to the page that says it
  is the last; all pages are of one snapshot and disclose the same driver state, and the operation
  ids, at most 3200, increase strictly in UTF-8 byte order, so that none is repeated.
\<close>
theorem complete_inventory_is_whole:
  assumes "walkDriverInventoryChain now timeoutMs rounds = (requests, Some (InventoryComplete c))"
  shows "\<exists>answers. whole_chain answers c \<and> length answers \<le> length rounds
     \<and> map (answer_in_time (now + timeoutMs)) (take (length answers) rounds) = map Some answers
     \<and> requests = map walk_request (None # map (\<lambda>v. pg_nextCursor (page_of v)) (butlast answers))"
proof -
  have "walked [] walk_start"
    by (simp add: walked_def walk_start_def rows_walked_def items_of_def one_source_def discovery_maxRows_def)
  from walk_loop_whole [OF this assms [unfolded walkDriverInventoryChain_def]]
  show ?thesis by (auto simp: walk_start_def)
qed

text \<open>Two pages of one operation each.\<close>

definition page_view :: "string \<Rightarrow> string option \<Rightarrow> driverGetView" where
  "page_view i cursor =
     \<lparr>gv_mode = Internal, gv_binding = None, gv_recovery = RecoveryNone,
      gv_operations = Some \<lparr>pg_items = [sample_row\<lparr>or_operationId := i\<rparr>], pg_snapshot = ''s'',
        pg_observedRevision = ''7'', pg_complete = (cursor = None), pg_nextCursor = cursor\<rparr>\<rparr>"

definition two_rounds :: "walkRound list" where
  "two_rounds = map (\<lambda>v. \<lparr>wr_head = 1, wr_race = 1, wr_events = [PromiseFulfilled v, TimerFired], wr_after = 2,
     wr_done = 3\<rparr>) [page_view ''a'' (Some ''next''), page_view ''b'' None]"

lemma two_rounds_complete:
  "\<exists>requests c. walkDriverInventoryChain 0 discovery_timeoutMs two_rounds
       = (requests, Some (InventoryComplete c)) \<and> map ir_operationId (ci_rows c) = [''a'', ''b'']"
proof -
  have "byte_less ''a'' ''b''" unfolding byte_less_lexordp by (simp add: units_def code_unit_def)
  then show ?thesis
    by (simp add: walkDriverInventoryChain_def walk_loop.simps two_rounds_def race_first discovery_timeoutMs_def
        walk_start_def discovery_maxPages_def discovery_maxRows_def walk_page_def accept_page_def page_view_def
        inventory_row_def disclosureOf_def Let_def)
qed

lemma complete_inventory_is_whole_witness:
  "\<exists>answers c. snd (walkDriverInventoryChain 0 discovery_timeoutMs two_rounds) = Some (InventoryComplete c)
     \<and> map ir_operationId (ci_rows c) = [''a'', ''b''] \<and> whole_chain answers c"
proof -
  obtain requests c where r: "walkDriverInventoryChain 0 discovery_timeoutMs two_rounds
      = (requests, Some (InventoryComplete c))" "map ir_operationId (ci_rows c) = [''a'', ''b'']"
    using two_rounds_complete by (elim exE conjE)
  from complete_inventory_is_whole [OF r(1)] r show ?thesis by auto
qed

end
