(* ===== verification/Spec2Isabelle.thy ===== *)
theory Spec2Isabelle
  imports TabLock TurnQueue DurableSession SessionMemory InteractionLedger TimelineLaws VimEdit TurnUndo HistoryCoordinator Transport TurnLaws CanonicalRestore SessionChanges RuntimeState DriverDiscovery
begin

text \<open>
  This library models the core of the Octos web client: the RPC client in
  \<open>src/packages/client/src\<close> and the session logic in \<open>src/apps/web/src/features\<close>. The client speaks
  JSON-RPC over one WebSocket per Session record to the Octos server (Core). A Session is opened or
  hydrated; its transcript is restored from the hydrate result and then follows the notifications;
  prompts go through a queue and a turn controller; approvals and questions wait in a ledger; a
  turn can be undone and the history rewound or forked. Everything below is pure or written as a
  step function, and every definition is executable.

  \<^bold>\<open>Base.\<close>
  \<^item> \<open>JsPrelude\<close>: the fragment of JavaScript the modules use: strings with \<open>trim\<close>, \<open>split\<close>,
    \<open>includes\<close>, decimal numbers, \<open>JSON.stringify\<close> of strings, and decoded JSON values (\<open>json\<close>; a value
    that may be \<open>undefined\<close> is a \<open>json option\<close>).
  \<^item> \<open>JsMap\<close>: \<open>Map\<close> and \<open>Set\<close> with insertion order, behind the locale \<open>ordered_map\<close>.
  \<^item> \<open>Lease\<close>: \<open>async/request-authority.ts\<close> and \<open>session/launch-transition.ts\<close>. The locale
    \<open>ownership\<close> states what every lease of the program promises (once superseded, never current
    again); the request gate, the launch transition, the tab lock and the interaction ledger
    interpret it.

  \<^bold>\<open>Decoders.\<close> \<open>Wire\<close> (\<open>rpc.ts\<close>, \<open>wire-decoders.ts\<close>, \<open>turn-state.ts\<close>, \<open>replay-events.ts\<close>,
  \<open>protocol-id.ts\<close>), \<open>Interaction\<close> (\<open>interaction.ts\<close>), \<open>Projection\<close> (\<open>projection.ts\<close>,
  \<open>projection-payload.ts\<close>), \<open>Hydrate\<close> (\<open>hydrate.ts\<close>) and \<open>HistoryResults\<close> (\<open>history.ts\<close>). A decoder
  returns \<open>None\<close> where the source returns \<open>null\<close> or throws on malformed input. The locale
  \<open>wire_decoder\<close> is their contract: everything decoded is valid, and the rendering of a valid value
  is decoded to it.

  \<^bold>\<open>Transport.\<close> \<open>Transport\<close> models \<open>OctosUiClient\<close> of \<open>client.ts\<close>: sockets and timers are numbered
  events, and an event may arrive late, for a socket that was replaced. Lemmas: every request is
  answered at most once and exactly once when the socket ends, requests wait only while the
  connected socket is the current one, a released socket changes nothing, a late answer is
  swallowed once.

  \<^bold>\<open>Session state.\<close> \<open>SessionScope\<close> (\<open>session/scope.ts\<close>), \<open>DurableSession\<close>
  (\<open>session/durable-session.ts\<close>: which envelope is applied, skipped, or a gap), \<open>SessionMemory\<close>
  (drafts and known Sessions), \<open>InteractionLedger\<close> (\<open>session/session-interaction-ledger.ts\<close>),
  \<open>TabLock\<close> (\<open>session/tab-session-lock-core.ts\<close>), \<open>SessionChanges\<close> (\<open>side-panel/session-changes.ts\<close>),
  \<open>CandidateSession\<close> (\<open>session/candidate-session.ts\<close>: who owns the socket of a prepared Session).
  The property in this theory composes the hydrate decoder with the durable projection.

  \<^bold>\<open>Session runtime.\<close> \<open>SessionRuntime\<close> is \<open>ActiveSessionRuntime\<close> of \<open>session/active-session-runtime.ts\<close>
  whole: authorities, connecting, hydrating, recovery and its buffer, reconnecting, adopting a
  candidate. Every suspended method is an entry of \<open>sr_calls\<close>, resumed by the event that answers it.
  \<open>RuntimeLaws\<close> has the ownership of authorities (an interpretation of \<open>ownership\<close>) and what holds of
  every run; \<open>RuntimeState\<close> has the invariants of the reachable states and the behaviour of single
  operations. The host's \<open>authorizeCommit\<close> is asked at each place the code asks it, the answers being
  separate. Listeners do not call back while they are notified, so the code's checks after each of
  them are not repeated; the jitter of the reconnect delay is not modelled.

  \<^bold>\<open>Transcript.\<close> \<open>TimelineEntries\<close> (\<open>timeline/entry-model.ts\<close>, \<open>timeline/artifact-tools.ts\<close>),
  \<open>TimelineFold\<close> (the live fold of \<open>timeline/model.ts\<close>) and \<open>TimelineLaws\<close>, whose locale \<open>row_step\<close>
  carries what one fold step keeps to whole runs. \<open>TimelineRestore\<close> is \<open>timelineFromHydrate\<close>, the
  transcript of a hydrate result; \<open>CanonicalRestore\<close> is \<open>timeline/canonical-hydrate.ts\<close>, the restorer of
  a loaded record, which matches durable rows with the rows of complete retained threads. Rows of the
  first have distinct ids; the second repeats ids for a turn whose events lie in two threads. Of
  the two cuts of a tool preview the one at 200 bytes and three dots is modelled; the other ends in
  an ellipsis character outside the strings used here. The sorts are stable, as the language's are.

  \<^bold>\<open>Composer.\<close> \<open>TurnQueue\<close> (\<open>composer/turn-queue.ts\<close>, refining a plain list of turns through the
  locale \<open>turn_slots\<close>), \<open>TurnController\<close> (\<open>composer/use-turn-controller.ts\<close>, \<open>turn-collision.ts\<close>),
  \<open>TurnDispatch\<close> (what reaches the wire, and that no turn does twice), \<open>TurnLaws\<close> (for which turn a
  frame leaves, what an unresolved turn, a terminal and a collision do to the queue), \<open>VimEdit\<close>
  (\<open>composer/vim-edit.ts\<close>, over 16-bit code units).

  \<^bold>\<open>History.\<close> \<open>TurnUndo\<close> (\<open>history/turn-undo.ts\<close>), \<open>Checkpoints\<close> (\<open>history/checkpoints.ts\<close>) and
  \<open>HistoryCoordinator\<close> (\<open>history/history-coordinator.ts\<close>). Both controllers are cut at each of their
  awaits, and a change is sent with its arguments. Lemmas: what is sent names a point of the list or
  thread read just before, nothing is sent after a settled or uncertain outcome, and a run of the undo
  controller ends after at most eight answers.

  \<^bold>\<open>External driver.\<close> \<open>DriverScope\<close> (\<open>external-driver-meta.ts\<close> and the captured scopes of
  \<open>external-driver.ts\<close>), \<open>DriverOperations\<close> (\<open>external-driver-operations.ts\<close>: pages of operations),
  \<open>DriverControl\<close> (the rest of \<open>external-driver.ts\<close>: the capability gate, lease fences, the acquire,
  renew, release and get commands, the accepted dispatch receipt), \<open>DriverPeer\<close>
  (\<open>external-driver-peer-control.ts\<close>: dispatch and control with their receipts), \<open>DriverWake\<close>
  (\<open>external-driver-wake-control.ts\<close>), over \<open>Utf8\<close> (the byte order of strings of UTF-16 units). A
  command is its request and the handling of the answer. \<open>DriverDiscovery\<close>
  (\<open>session/driver-discovery.ts\<close>, \<open>control-readiness.ts\<close>) walks the operation pages under a deadline; the
  walk is bounded by the code's own 32 pages, and a complete inventory is the whole of one snapshot.

  \<^bold>\<open>How asynchronous code is modelled.\<close> A controller is a record; an \<open>async\<close> function is split at its
  awaits. The part up to an await is one step that records what is waited for; the answer is an
  event that resumes it. JavaScript runs each part without interruption, so a run is a list of
  events, in any order and with any answers. What the code calls outside itself (RPC frames, rows
  for the transcript, callbacks) is the list of effects of a step. What it reads from its host at a
  step (the current client, Session and permissions of the record) is a host view that comes with
  the event, so a property quantifies over every host.

  \<^bold>\<open>Conventions and bounds.\<close>
  \<^item> Strings are lists of code units below 256, so that \<open>length\<close> and comparison are the program's;
    \<open>VimEdit\<close> alone works on 16-bit units. Fixed texts of the program that hold a dash or an
    ellipsis outside that range are written with \<open>--\<close> and \<open>...\<close>; no code looks at them.
  \<^item> Numbers are JSON numbers: integers, decimal fractions and infinities. Safe-integer tests are kept
    as written.
  \<^item> Wall-clock readings, generated ids and calls to the runtime's own formatters are arguments; a
    notification is folded with one clock reading.
  \<^item> Every recursive definition terminates by a measure or by structure. The notice-id search is
    bounded by the number of rows, the restart of the queue by its length, the walk over operation
    pages by the code's own page limit and the rounds it is given; no other definition uses fuel.

  \<^bold>\<open>Not modelled.\<close> React components, hooks and styling; the browser's storage, WebSocket, URL and
  lock manager, which appear as events; the generated contract; listener sets; one-line typed
  wrappers over \<open>validatedRequest\<close>; decoders of methods the modelled components do not use.
\<close>

section \<open>Properties that span components\<close>

text \<open>The replayed envelopes of a hydrate answer, lane by lane.\<close>

definition lane_of :: "projectionEnvelope list option \<Rightarrow> projectionEnvelope list" where
  "lane_of lane = (case lane of None \<Rightarrow> [] | Some es \<Rightarrow> es)"

definition replay_lanes :: "sessionHydrateResult \<Rightarrow> projectionEnvelope list" where
  "replay_lanes r = lane_of (hr_replayed_projection_envelopes r)
     @ lane_of (hr_replayed_tool_envelopes r) @ lane_of (hr_replayed_envelopes r)"

text \<open>
  C1: What a restore replays. An accepted hydrate answer carries envelopes in three replay lanes,
  which the restored transcript is made from. Once that answer is committed: an envelope of the
  projection lane is never folded again, in any later run, live or drained from the recovery buffer; with thread checkpoints,
  what is folded again from any lane is beyond the answer's cursor on its stream, so a replayed
  envelope at or before the cursor, or without one, never is; and without checkpoints the same
  holds for the notifications drained from the recovery buffer. Nothing is claimed of a live delivery
  after an answer without checkpoints: there an envelope of the other two lanes can be folded a
  second time (\<open>live_delivery_folds_again\<close>).
\<close>
theorem replayed_envelopes_not_folded_again:
  assumes "parseSessionHydrateResult v = Some r" and "commitHydrate r d = Inr d'"
    and "e \<in> set (replay_lanes r)" and "e \<in> set (snd (observe_run d' ns))"
  shows "e \<notin> set (lane_of (hr_replayed_projection_envelopes r))
     \<and> (hr_projection_thread_sequences r \<noteq> None \<or> list_all fst ns \<longrightarrow>
          (\<exists>c. pe_cursor e = Some c \<and> cur_stream c = cur_stream (hr_cursor r)
              \<and> cur_seq (hr_cursor r) < cur_seq c))"
proof (intro conjI impI)
  show "e \<notin> set (lane_of (hr_replayed_projection_envelopes r))"
  proof
    assume e: "e \<in> set (lane_of (hr_replayed_projection_envelopes r))"
    then obtain es where es: "hr_replayed_projection_envelopes r = Some es" "e \<in> set es"
      by (cases "hr_replayed_projection_envelopes r") (auto simp: lane_of_def)
    from hydrate_snapshot [OF assms(1)] es obtain cps
      where cps: "hr_projection_thread_sequences r = Some cps" "validReplayCheckpoint es cps (hr_cursor r)"
      by (auto simp: snapshot_ok_def split: option.splits)
    from committed_run_beyond [OF assms(2) _ assms(4)] cps(1) obtain c
      where "pe_cursor e = Some c" "cur_seq (hr_cursor r) < cur_seq c" by auto
    with es(2) cps(2) show False
      by (auto simp: validReplayCheckpoint_iff replay_event_ok_def list_all_iff)
  qed
  show "\<exists>c. pe_cursor e = Some c \<and> cur_stream c = cur_stream (hr_cursor r)
      \<and> cur_seq (hr_cursor r) < cur_seq c"
    if "hr_projection_thread_sequences r \<noteq> None \<or> list_all fst ns"
    using that committed_run_beyond [OF assms(2) _ assms(4)]
      committed_buffer_beyond [OF assms(2) _ assms(4)] by blast
qed

text \<open>An answer without checkpoints: cursor 4, and one tool envelope at cursor \<open>n\<close>.\<close>

definition tool_lane :: "nat \<Rightarrow> json" where
  "tool_lane n = JObj [(''session_id'', JStr ''s''),
     (''cursor'', JObj [(''stream'', JStr ''e''), (''seq'', JNum (JInt 4))]),
     (''replayed_tool_envelopes'', JArr [JObj [(''thread_id'', JStr ''t''), (''seq'', JNum (JInt 7)),
        (''turn_id'', JStr ''u''), (''payload'', JObj [(''type'', JStr ''reasoning_delta''),
          (''data'', JObj [(''text'', JStr ''x'')])]),
        (''cursor'', JObj [(''stream'', JStr ''e''), (''seq'', JNum (JInt (int n)))])]])]"

definition answer_of :: "nat \<Rightarrow> sessionHydrateResult" where
  "answer_of n = the (parseSessionHydrateResult (Some (tool_lane n)))"

definition replayed_of :: "nat \<Rightarrow> projectionEnvelope" where
  "replayed_of n = hd (lane_of (hr_replayed_tool_envelopes (answer_of n)))"

definition restored_of :: "nat \<Rightarrow> durable" where
  "restored_of n = projr (commitHydrate (answer_of n) (beginHydrate ''s'' initial_durable))"

definition delivered :: "bool \<Rightarrow> nat \<Rightarrow> (bool \<times> rpcNotification) list" where
  "delivered buffered n =
     [(buffered, \<lparr>nt_method = M_PROJECTION_ENVELOPE, nt_params = Some (encode_envelope (replayed_of n))\<rparr>)]"

lemma replayed_envelopes_not_folded_again_witness:
  "replayed_of 5 \<notin> set (lane_of (hr_replayed_projection_envelopes (answer_of 5)))
   \<and> (\<exists>c. pe_cursor (replayed_of 5) = Some c \<and> cur_stream c = cur_stream (hr_cursor (answer_of 5))
        \<and> cur_seq (hr_cursor (answer_of 5)) < cur_seq c)"
proof -
  have p: "parseSessionHydrateResult (Some (tool_lane 5)) = Some (answer_of 5)" by code_simp
  have c: "commitHydrate (answer_of 5) (beginHydrate ''s'' initial_durable) = Inr (restored_of 5)" by code_simp
  have e: "replayed_of 5 \<in> set (replay_lanes (answer_of 5))"
    "replayed_of 5 \<in> set (snd (observe_run (restored_of 5) (delivered True 5)))" by code_simp+
  have "list_all fst (delivered True 5)" by (simp add: delivered_def)
  with replayed_envelopes_not_folded_again [OF p c e] show ?thesis by blast
qed

text \<open>A replayed tool envelope at the answer's cursor: stale from the buffer, folded again live.\<close>

lemma live_delivery_folds_again:
  "snd (observe_run (restored_of 4) (delivered True 4)) = []
   \<and> snd (observe_run (restored_of 4) (delivered False 4)) = [replayed_of 4]"
  by code_simp

end
